(* ===== verification/Prelude.thy ===== *)
theory Prelude
  imports Main "HOL-Library.Word" "HOL-Library.AList"
begin

text \<open>
  Shared vocabulary of the development: the machine integers the Rust code uses, the
  outcome of a computation that may panic, the standard-library pieces the components
  call (indexing and slicing, \<open>HashMap\<close>, \<open>Iterator::max_by\<close> and \<open>min_by\<close>), and the
  contracts several components share (a lifecycle with terminal states, a comparison
  function, a keyed store).

  Conventions. \<open>usize\<close> is a \<open>nat\<close>; the wrap-around at \<open>2 ^ 64\<close> of the release
  build (\<open>overflow-checks\<close> is off there) is written out by \<open>uadd\<close> and \<open>usub\<close>.
  Fixed-width integers are words. A method that takes \<open>&mut self\<close> returns its result
  paired with the new state, on its error branches too.
\<close>

unbundle bit_operations_syntax

named_theorems reads "evaluation of in-range byte reads"
named_theorems hm "laws of the hash-map operations"
named_theorems keeps "invariant preservation, one fact per operation"

subsection \<open>Machine integers\<close>

type_synonym u8 = "8 word"
type_synonym u16 = "16 word"
type_synonym u32 = "32 word"
type_synonym u64 = "64 word"
type_synonym u128 = "128 word"
type_synonym usize = nat
type_synonym byte = u8
type_synonym duration = nat \<comment> \<open>\<open>std::time::Duration\<close>, in nanoseconds\<close>

definition usize_max :: usize where
  "usize_max = 2 ^ 64 - 1"

definition isize_max :: usize where
  "isize_max = 2 ^ 63 - 1"

definition uadd :: "usize \<Rightarrow> usize \<Rightarrow> usize" where
  "uadd a b = (a + b) mod 2 ^ 64"

definition usub :: "usize \<Rightarrow> usize \<Rightarrow> usize" where
  "usub a b = (a + (2 ^ 64 - b mod 2 ^ 64)) mod 2 ^ 64"

definition usize_checked_add :: "usize \<Rightarrow> usize \<Rightarrow> usize option" where
  "usize_checked_add a b = (if a + b \<le> usize_max then Some (a + b) else None)"

definition usize_checked_sub :: "usize \<Rightarrow> usize \<Rightarrow> usize option" where
  "usize_checked_sub a b = (if b \<le> a then Some (a - b) else None)"

definition usize_checked_mul :: "usize \<Rightarrow> usize \<Rightarrow> usize option" where
  "usize_checked_mul a b = (if a * b \<le> usize_max then Some (a * b) else None)"

definition usize_saturating_add :: "usize \<Rightarrow> usize \<Rightarrow> usize" where
  "usize_saturating_add a b = min (a + b) usize_max"

definition usize_saturating_mul :: "usize \<Rightarrow> usize \<Rightarrow> usize" where
  "usize_saturating_mul a b = min (a * b) usize_max"

definition saturating_add :: "'a::len word \<Rightarrow> 'a word \<Rightarrow> 'a word" where
  "saturating_add a b = (if unat a + unat b < 2 ^ LENGTH('a) then a + b else - 1)"

definition saturating_sub :: "'a::len word \<Rightarrow> 'a word \<Rightarrow> 'a word" where
  "saturating_sub a b = (if b \<le> a then a - b else 0)"

lemma uadd_exact [simp]: "a + b \<le> usize_max \<Longrightarrow> uadd a b = a + b"
  by (simp add: uadd_def usize_max_def)

lemma usub_exact [simp]: "b \<le> a \<Longrightarrow> a \<le> usize_max \<Longrightarrow> usub a b = a - b"
proof -
  assume h: "b \<le> a" "a \<le> usize_max"
  then have "a + (2 ^ 64 - b mod 2 ^ 64) = (a - b) + 2 ^ 64"
    by (simp add: usize_max_def)
  moreover have "((a - b) + 2 ^ 64) mod 2 ^ 64 = a - b"
    using h by (simp only: mod_add_self2) (simp add: usize_max_def)
  ultimately show "usub a b = a - b"
    by (simp only: usub_def)
qed

lemma unat_saturating_add:
  "unat (saturating_add a b) = min (unat a + unat b) (2 ^ LENGTH('a) - 1)" for a b :: "'a::len word"
proof (cases "unat a + unat b < 2 ^ LENGTH('a)")
  case True
  then show ?thesis by (simp add: saturating_add_def unat_word_ariths)
next
  case False
  then show ?thesis
    by (simp add: saturating_add_def unsigned_minus_1_eq_mask mask_eq_exp_minus_1)
qed

lemma unat_saturating_sub: "unat (saturating_sub a b) = unat a - unat b" for a b :: "'a::len word"
  by (simp add: saturating_sub_def unat_sub word_le_nat_alt)

lemma saturating_add_ge: "unat a \<le> unat (saturating_add a b)" for a b :: "'a::len word"
proof -
  have "unat a < 2 ^ LENGTH('a)"
    by (rule unsigned_less)
  then have "unat a \<le> 2 ^ LENGTH('a) - 1"
    by linarith
  then show ?thesis by (simp add: unat_saturating_add)
qed

subsection \<open>Computations that may panic\<close>

text \<open>
  \<open>Ok\<close> and \<open>Err\<close> are the constructors of Rust's \<open>Result\<close>; \<open>Panic\<close> is an
  unwinding or aborting panic (an index out of range, a failed slice).
\<close>

datatype ('e, 'a) outcome = Ok 'a | Err 'e | Panic

primrec obind :: "('e, 'a) outcome \<Rightarrow> ('a \<Rightarrow> ('e, 'b) outcome) \<Rightarrow> ('e, 'b) outcome" where
  "obind (Ok x) f = f x"
| "obind (Err e) f = Err e"
| "obind Panic f = Panic"

primrec omap :: "('a \<Rightarrow> 'b) \<Rightarrow> ('e, 'a) outcome \<Rightarrow> ('e, 'b) outcome" where
  "omap f (Ok x) = Ok (f x)"
| "omap f (Err e) = Err e"
| "omap f Panic = Panic"

primrec ok_or :: "'e \<Rightarrow> 'a option \<Rightarrow> ('e, 'a) outcome" where
  "ok_or e None = Err e"
| "ok_or e (Some x) = Ok x"

lemma obind_eq_Ok: "obind m f = Ok y \<longleftrightarrow> (\<exists>x. m = Ok x \<and> f x = Ok y)"
  by (cases m) auto

lemma obind_eq_Panic: "obind m f = Panic \<longleftrightarrow> m = Panic \<or> (\<exists>x. m = Ok x \<and> f x = Panic)"
  by (cases m) auto

lemma obind_eq_Err: "obind m f = Err e \<longleftrightarrow> m = Err e \<or> (\<exists>x. m = Ok x \<and> f x = Err e)"
  by (cases m) auto

lemma omap_eq_Ok [simp]: "omap f m = Ok y \<longleftrightarrow> (\<exists>x. m = Ok x \<and> f x = y)"
  by (cases m) auto

lemma omap_eq_Panic [simp]: "omap f m = Panic \<longleftrightarrow> m = Panic"
  by (cases m) auto

lemma ok_or_not_Panic [simp]: "ok_or e m \<noteq> Panic"
  by (cases m) auto

lemma ok_or_eq_Ok [simp]: "ok_or e m = Ok x \<longleftrightarrow> m = Some x"
  by (cases m) auto

subsection \<open>Indexing and slicing\<close>

definition index :: "'a list \<Rightarrow> usize \<Rightarrow> ('e, 'a) outcome" where
  "index xs i = (if i < length xs then Ok (xs ! i) else Panic)"

definition slice_range :: "'a list \<Rightarrow> usize \<Rightarrow> usize \<Rightarrow> ('e, 'a list) outcome" where
  \<comment> \<open>\<open>&xs[lo..hi]\<close>\<close>
  "slice_range xs lo hi = (if lo \<le> hi \<and> hi \<le> length xs then Ok (take (hi - lo) (drop lo xs)) else Panic)"

definition be16 :: "byte \<Rightarrow> byte \<Rightarrow> u16" where
  \<comment> \<open>\<open>u16::from_be_bytes([a, b])\<close>\<close>
  "be16 a b = push_bit 8 (ucast a) OR ucast b"

definition be32 :: "byte \<Rightarrow> byte \<Rightarrow> byte \<Rightarrow> byte \<Rightarrow> u32" where
  \<comment> \<open>\<open>u32::from_be_bytes([a, b, c, d])\<close>\<close>
  "be32 a b c d = push_bit 24 (ucast a) OR push_bit 16 (ucast b) OR push_bit 8 (ucast c) OR ucast d"

definition read16 :: "byte list \<Rightarrow> usize \<Rightarrow> usize \<Rightarrow> ('e, u16) outcome" where
  \<comment> \<open>\<open>u16::from_be_bytes([p[off + k], p[off + k + 1]])\<close>\<close>
  "read16 p off k =
     obind (index p (uadd off k)) (\<lambda>a.
     obind (index p (uadd off (k + 1))) (\<lambda>b. Ok (be16 a b)))"

definition read32 :: "byte list \<Rightarrow> usize \<Rightarrow> usize \<Rightarrow> ('e, u32) outcome" where
  \<comment> \<open>\<open>u32::from_be_bytes([p[off + k], \<dots>, p[off + k + 3]])\<close>\<close>
  "read32 p off k =
     obind (index p (uadd off k)) (\<lambda>a.
     obind (index p (uadd off (k + 1))) (\<lambda>b.
     obind (index p (uadd off (k + 2))) (\<lambda>c.
     obind (index p (uadd off (k + 3))) (\<lambda>d. Ok (be32 a b c d)))))"

primrec read_bytes :: "byte list \<Rightarrow> usize \<Rightarrow> usize \<Rightarrow> nat \<Rightarrow> ('e, byte list) outcome" where
  \<comment> \<open>the array literal \<open>[p[off + k], p[off + k + 1], \<dots>]\<close> of \<open>n\<close> bytes\<close>
  "read_bytes p off k 0 = Ok []"
| "read_bytes p off k (Suc n) =
     obind (index p (uadd off k)) (\<lambda>a.
     obind (read_bytes p off (k + 1) n) (\<lambda>as. Ok (a # as)))"

text \<open>
  A read at \<open>off + k\<close> is in range when a guard has established that \<open>n\<close> bytes follow
  \<open>off\<close> and \<open>k < n\<close>. Rust never allocates a slice of more than \<open>isize::MAX\<close> bytes.
\<close>

definition window :: "byte list \<Rightarrow> usize \<Rightarrow> nat \<Rightarrow> bool" where
  "window p off n \<longleftrightarrow> off + n \<le> length p \<and> length p \<le> isize_max"

lemma windowI: "off + n \<le> length p \<Longrightarrow> length p \<le> isize_max \<Longrightarrow> window p off n"
  by (simp add: window_def)

lemma window_mono: "window p off n \<Longrightarrow> m \<le> n \<Longrightarrow> window p off m"
  by (simp add: window_def)

lemma index_window [reads]: "window p off n \<Longrightarrow> k < n \<Longrightarrow> index p (uadd off k) = Ok (p ! (off + k))"
  by (simp add: window_def index_def uadd_def isize_max_def)

lemma index_window0 [reads]: "window p off n \<Longrightarrow> 0 < n \<Longrightarrow> index p off = Ok (p ! off)"
  by (simp add: window_def index_def)

lemma read16_window [reads]:
  "window p off n \<Longrightarrow> Suc k < n \<Longrightarrow> read16 p off k = Ok (be16 (p ! (off + k)) (p ! (off + (k + 1))))"
  by (simp add: read16_def index_window [where n = n])

lemma read32_window [reads]:
  "window p off n \<Longrightarrow> k + 3 < n \<Longrightarrow> read32 p off k =
     Ok (be32 (p ! (off + k)) (p ! (off + (k + 1))) (p ! (off + (k + 2))) (p ! (off + (k + 3))))"
  by (simp add: read32_def index_window [where n = n])

lemma read_bytes_window [reads]:
  "window p off n \<Longrightarrow> k + m \<le> n \<Longrightarrow> 
     (read_bytes p off k m :: ('e, byte list) outcome) = Ok (take m (drop (off + k) p))"
proof (induction m arbitrary: k)
  case 0
  then show ?case by simp
next
  case (Suc m)
  then have "(index p (uadd off k) :: ('e, byte) outcome) = Ok (p ! (off + k))"
    by (simp add: index_window [where n = n])
  moreover have "(read_bytes p off (k + 1) m :: ('e, byte list) outcome) = Ok (take m (drop (off + (k + 1)) p))"
    using Suc.prems by (intro Suc.IH) simp_all
  moreover have "off + k < length p"
    using Suc.prems by (simp add: window_def)
  ultimately show ?case
    by (simp add: Cons_nth_drop_Suc [symmetric] take_Suc_Cons)
qed

lemma take_drop_split: "take (m + n) (drop off p) = take m (drop off p) @ take n (drop (off + m) p)"
  by (simp add: take_add add.commute)

lemma take_drop_nth:
  "window p off n \<Longrightarrow> k + m \<le> n \<Longrightarrow> take m (drop (off + k) p) = map (\<lambda>j. p ! (off + (k + j))) [0..<m]"
  by (rule nth_equalityI) (auto simp: window_def add.assoc)

lemma upt_small: "[0..<2] = [0, 1 :: nat]" "[0..<4] = [0, 1, 2, 3 :: nat]" "[0..<8] = [0, 1, 2, 3, 4, 5, 6, 7 :: nat]"
  by (simp_all add: upt_rec)

lemma take_drop_2: "window p off n \<Longrightarrow> k + 2 \<le> n \<Longrightarrow>
    take 2 (drop (off + k) p) = [p ! (off + k), p ! (off + (k + 1))]"
  by (simp only: take_drop_nth upt_small list.map add_0_right)

lemma take_drop_4: "window p off n \<Longrightarrow> k + 4 \<le> n \<Longrightarrow>
    take 4 (drop (off + k) p) = [p ! (off + k), p ! (off + (k + 1)), p ! (off + (k + 2)), p ! (off + (k + 3))]"
  by (simp only: take_drop_nth upt_small list.map add_0_right)

lemma take_drop_8: "window p off n \<Longrightarrow> k + 8 \<le> n \<Longrightarrow>
    take 8 (drop (off + k) p) = [p ! (off + k), p ! (off + (k + 1)), p ! (off + (k + 2)), p ! (off + (k + 3)),
      p ! (off + (k + 4)), p ! (off + (k + 5)), p ! (off + (k + 6)), p ! (off + (k + 7))]"
  by (simp only: take_drop_nth upt_small list.map add_0_right)

lemma window_shift: "window p off n \<Longrightarrow> k \<le> n \<Longrightarrow> window p (off + k) (n - k)"
  by (simp add: window_def)

lemma slice_window [reads]:
  "window p off n \<Longrightarrow> slice_range p off (off + n) = Ok (take n (drop off p))"
  by (simp add: slice_range_def window_def)

subsection \<open>Big-endian round trips\<close>

definition hi8 :: "u16 \<Rightarrow> byte" where
  "hi8 w = ucast (drop_bit 8 w)"

definition lo8 :: "u16 \<Rightarrow> byte" where
  "lo8 w = ucast w"

lemma hi8_be16 [simp]: "hi8 (be16 a b) = a"
  by (rule bit_word_eqI) (auto simp: hi8_def be16_def bit_simps dest: bit_imp_le_length)

lemma lo8_be16 [simp]: "lo8 (be16 a b) = b"
  by (rule bit_word_eqI) (auto simp: lo8_def be16_def bit_simps)

lemma be16_hi8_lo8 [simp]: "be16 (hi8 w) (lo8 w) = w"
  by (rule bit_word_eqI) (auto simp: hi8_def lo8_def be16_def bit_simps)

definition byte3 :: "u32 \<Rightarrow> byte" where "byte3 w = ucast (drop_bit 24 w)"
definition byte2 :: "u32 \<Rightarrow> byte" where "byte2 w = ucast (drop_bit 16 w)"
definition byte1 :: "u32 \<Rightarrow> byte" where "byte1 w = ucast (drop_bit 8 w)"
definition byte0 :: "u32 \<Rightarrow> byte" where "byte0 w = ucast w"

lemmas byte_defs = byte3_def byte2_def byte1_def byte0_def

lemma byte3_be32 [simp]: "byte3 (be32 a b c d) = a"
  by (rule bit_word_eqI) (auto simp: byte_defs be32_def bit_simps dest: bit_imp_le_length)

lemma byte2_be32 [simp]: "byte2 (be32 a b c d) = b"
  by (rule bit_word_eqI) (auto simp: byte_defs be32_def bit_simps dest: bit_imp_le_length)

lemma byte1_be32 [simp]: "byte1 (be32 a b c d) = c"
  by (rule bit_word_eqI) (auto simp: byte_defs be32_def bit_simps dest: bit_imp_le_length)

lemma byte0_be32 [simp]: "byte0 (be32 a b c d) = d"
  by (rule bit_word_eqI) (auto simp: byte_defs be32_def bit_simps)

lemma be32_bytes [simp]: "be32 (byte3 w) (byte2 w) (byte1 w) (byte0 w) = w"
proof (rule bit_word_eqI)
  fix n assume n: "n < LENGTH(32)"
  consider "n < 8" | "8 \<le> n" "n < 16" | "16 \<le> n" "n < 24" | "24 \<le> n" by linarith
  then show "bit (be32 (byte3 w) (byte2 w) (byte1 w) (byte0 w)) n \<longleftrightarrow> bit w n"
    using n by cases (auto simp: byte_defs be32_def bit_simps)
qed

subsection \<open>Hash maps\<close>

text \<open>
  \<open>std::collections::HashMap\<close> as an association list with distinct keys. Lookup, insert
  and remove are the library's \<open>AList\<close> functions, whose effect on the map does not depend
  on the order of the list; \<open>hm_retain\<close> is \<open>HashMap::retain\<close> with a predicate that does
  not change the value. The order of the list stands for the (unspecified) iteration order.
\<close>

type_synonym ('k, 'v) hash_map = "('k \<times> 'v) list"

definition hm_get :: "'k \<Rightarrow> ('k, 'v) hash_map \<Rightarrow> 'v option" where
  "hm_get k m = map_of m k"

definition hm_insert :: "'k \<Rightarrow> 'v \<Rightarrow> ('k, 'v) hash_map \<Rightarrow> ('k, 'v) hash_map" where
  "hm_insert k v m = AList.update k v m"

definition hm_remove :: "'k \<Rightarrow> ('k, 'v) hash_map \<Rightarrow> ('k, 'v) hash_map" where
  "hm_remove k m = AList.delete k m"

definition hm_retain :: "('k \<Rightarrow> 'v \<Rightarrow> bool) \<Rightarrow> ('k, 'v) hash_map \<Rightarrow> ('k, 'v) hash_map" where
  "hm_retain P m = filter (\<lambda>(k, v). P k v) m"

definition hm_values :: "('k, 'v) hash_map \<Rightarrow> 'v list" where
  "hm_values m = map snd m"

definition hm_keys :: "('k, 'v) hash_map \<Rightarrow> 'k list" where
  "hm_keys m = map fst m"

definition hm_wf :: "('k, 'v) hash_map \<Rightarrow> bool" where
  "hm_wf m \<longleftrightarrow> distinct (map fst m)"

abbreviation hm_contains :: "'k \<Rightarrow> ('k, 'v) hash_map \<Rightarrow> bool" where
  "hm_contains k m \<equiv> hm_get k m \<noteq> None"

lemma hm_get_Nil [hm, simp]: "hm_get k [] = None"
  by (simp add: hm_get_def)

lemma hm_get_insert [hm]: "hm_get j (hm_insert k v m) = (if j = k then Some v else hm_get j m)"
  by (simp add: hm_get_def hm_insert_def update_conv')

lemma hm_get_remove [hm]: "hm_get j (hm_remove k m) = (if j = k then None else hm_get j m)"
  by (simp add: hm_get_def hm_remove_def delete_conv')

lemma hm_wf_Nil [hm, simp]: "hm_wf []"
  by (simp add: hm_wf_def)

lemma hm_wf_insert [hm]: "hm_wf m \<Longrightarrow> hm_wf (hm_insert k v m)"
  by (simp add: hm_wf_def hm_insert_def distinct_update)

lemma hm_wf_remove [hm]: "hm_wf m \<Longrightarrow> hm_wf (hm_remove k m)"
  by (simp add: hm_wf_def hm_remove_def distinct_delete)

lemma hm_wf_retain [hm]: "hm_wf m \<Longrightarrow> hm_wf (hm_retain P m)"
  by (simp add: hm_wf_def hm_retain_def distinct_map_filter)

lemma hm_get_in_set: "hm_wf m \<Longrightarrow> hm_get k m = Some v \<longleftrightarrow> (k, v) \<in> set m"
  by (simp add: hm_wf_def hm_get_def map_of_eq_Some_iff)

lemma hm_get_SomeD: "hm_get k m = Some v \<Longrightarrow> (k, v) \<in> set m"
  by (simp add: hm_get_def map_of_SomeD)

lemma hm_get_None_iff: "hm_get k m = None \<longleftrightarrow> k \<notin> fst ` set m"
  by (simp add: hm_get_def map_of_eq_None_iff)

lemma hm_get_retain [hm]:
  assumes "hm_wf m"
  shows "hm_get k (hm_retain P m) =
    (case hm_get k m of None \<Rightarrow> None | Some v \<Rightarrow> if P k v then Some v else None)"
  using assms
  by (induction m) (auto simp: hm_wf_def hm_get_def hm_retain_def map_of_eq_None_iff
      split: option.splits)

lemma hm_values_set: "hm_wf m \<Longrightarrow> v \<in> set (hm_values m) \<longleftrightarrow> (\<exists>k. hm_get k m = Some v)"
  by (force simp: hm_values_def hm_get_in_set)

lemma length_hm_remove:
  "hm_wf m \<Longrightarrow> length (hm_remove k m) = (if hm_contains k m then length m - 1 else length m)"
  by (induction m)
    (auto simp: hm_wf_def hm_get_def hm_remove_def map_of_eq_None_iff delete_id
      Suc_diff_Suc image_iff dest: length_pos_if_in_set)

lemma length_hm_insert [hm]:
  "length (hm_insert k v m) = (if hm_contains k m then length m else Suc (length m))"
  by (induction m) (auto simp: hm_get_def hm_insert_def)

lemma length_hm_retain [hm]: "length (hm_retain P m) \<le> length m"
  by (simp add: hm_retain_def)

lemma length_hm_remove_le [hm]: "length (hm_remove k m) \<le> length m"
  by (simp add: hm_remove_def length_delete_le)

lemma hm_values_insertD:
  "v \<in> set (hm_values (hm_insert k w m)) \<Longrightarrow> v = w \<or> v \<in> set (hm_values m)"
  by (induction m) (auto simp: hm_values_def hm_insert_def split: if_splits)

lemma hm_set_removeD: "p \<in> set (hm_remove k m) \<Longrightarrow> p \<in> set m"
  by (induction m) (auto simp: hm_remove_def split: if_splits)

lemma hm_set_retain [simp]: "(k, v) \<in> set (hm_retain P m) \<longleftrightarrow> (k, v) \<in> set m \<and> P k v"
  by (auto simp: hm_retain_def)

text \<open>
  The contract clients of a keyed store rely on. It is discharged for the hash map here.
\<close>

locale keyed_store =
  fixes get :: "'k \<Rightarrow> 'm \<Rightarrow> 'v option"
    and put :: "'k \<Rightarrow> 'v \<Rightarrow> 'm \<Rightarrow> 'm"
    and del :: "'k \<Rightarrow> 'm \<Rightarrow> 'm"
    and wf :: "'m \<Rightarrow> bool"
  assumes get_put: "wf m \<Longrightarrow> get j (put k v m) = (if j = k then Some v else get j m)"
    and get_del: "wf m \<Longrightarrow> get j (del k m) = (if j = k then None else get j m)"
    and wf_put: "wf m \<Longrightarrow> wf (put k v m)"
    and wf_del: "wf m \<Longrightarrow> wf (del k m)"
begin

lemma del_put_fresh: "wf m \<Longrightarrow> get k m = None \<Longrightarrow> get j (del k (put k v m)) = get j m"
  by (simp add: get_del get_put wf_put)

lemma wf_puts: "wf m \<Longrightarrow> wf (fold (\<lambda>(k, v). put k v) kvs m)"
  by (induction kvs arbitrary: m) (auto simp: wf_put)

lemma get_puts:
  "wf m \<Longrightarrow> get j (fold (\<lambda>(k, v). put k v) kvs m) =
     (case map_of (rev kvs) j of None \<Rightarrow> get j m | Some v \<Rightarrow> Some v)"
  by (induction kvs arbitrary: m) (auto simp: wf_put get_put map_add_def split: option.splits)

lemma get_dels: "wf m \<Longrightarrow> get j (fold del ks m) = (if j \<in> set ks then None else get j m)"
  by (induction ks arbitrary: m) (auto simp: wf_del get_del)

lemma wf_dels: "wf m \<Longrightarrow> wf (fold del ks m)"
  by (induction ks arbitrary: m) (auto simp: wf_del)

end

interpretation hm: keyed_store hm_get hm_insert hm_remove hm_wf
  by unfold_locales (simp_all add: hm)

subsection \<open>Comparisons and extrema\<close>

text \<open>
  \<open>std::cmp::Ordering\<close>, \<open>Ordering::then\<close>, and the documented tie rules of
  \<open>Iterator::max_by\<close> (the last of several maxima) and \<open>Iterator::min_by\<close> (the first of
  several minima).
\<close>

datatype ordering = Less | Equal | Greater

primrec reverse_ordering :: "ordering \<Rightarrow> ordering" where
  "reverse_ordering Less = Greater"
| "reverse_ordering Equal = Equal"
| "reverse_ordering Greater = Less"

primrec then_cmp :: "ordering \<Rightarrow> ordering \<Rightarrow> ordering" where
  "then_cmp Less d = Less"
| "then_cmp Equal d = d"
| "then_cmp Greater d = Greater"

definition cmp_by :: "('a \<Rightarrow> 'b::linorder) \<Rightarrow> 'a \<Rightarrow> 'a \<Rightarrow> ordering" where
  "cmp_by f a b = (if f a < f b then Less else if f a = f b then Equal else Greater)"

primrec max_by :: "('a \<Rightarrow> 'a \<Rightarrow> ordering) \<Rightarrow> 'a list \<Rightarrow> 'a option" where
  "max_by cmp [] = None"
| "max_by cmp (x # xs) = Some (fold (\<lambda>b a. if cmp a b = Greater then a else b) xs x)"

primrec min_by :: "('a \<Rightarrow> 'a \<Rightarrow> ordering) \<Rightarrow> 'a list \<Rightarrow> 'a option" where
  "min_by cmp [] = None"
| "min_by cmp (x # xs) = Some (fold (\<lambda>b a. if cmp a b = Greater then b else a) xs x)"

locale comparison =
  fixes cmp :: "'a \<Rightarrow> 'a \<Rightarrow> ordering"
  assumes flip: "cmp b a = reverse_ordering (cmp a b)"
    and le_trans: "cmp a b \<noteq> Greater \<Longrightarrow> cmp b c \<noteq> Greater \<Longrightarrow> cmp a c \<noteq> Greater"
begin

lemma refl_Equal: "cmp a a = Equal"
  using flip [of a a] by (cases "cmp a a") auto

lemma not_Greater_iff: "cmp a b \<noteq> Greater \<longleftrightarrow> cmp b a \<noteq> Less"
  using flip [of b a] by (cases "cmp a b") auto

lemma Greater_not_Greater: "cmp a b = Greater \<Longrightarrow> cmp b a \<noteq> Greater"
  using flip [of b a] by (cases "cmp a b") auto

lemma max_fold:
  "let r = fold (\<lambda>b a. if cmp a b = Greater then a else b) xs x in
     r \<in> insert x (set xs) \<and> (\<forall>y \<in> insert x (set xs). cmp y r \<noteq> Greater)"
proof (induction xs arbitrary: x)
  case Nil
  then show ?case by (simp add: refl_Equal)
next
  case (Cons a xs)
  define s where "s = (if cmp x a = Greater then x else a)"
  have s: "s \<in> {x, a}" "cmp x s \<noteq> Greater" "cmp a s \<noteq> Greater"
    using Greater_not_Greater [of x a] by (auto simp: s_def refl_Equal)
  have r: "fold (\<lambda>b a. if cmp a b = Greater then a else b) (a # xs) x =
      fold (\<lambda>b a. if cmp a b = Greater then a else b) xs s"
    by (simp add: s_def)
  show ?case
    unfolding r using Cons.IH [of s] s by (auto simp: Let_def dest: le_trans)
qed

lemma min_fold:
  "let r = fold (\<lambda>b a. if cmp a b = Greater then b else a) xs x in
     r \<in> insert x (set xs) \<and> (\<forall>y \<in> insert x (set xs). cmp r y \<noteq> Greater)"
proof (induction xs arbitrary: x)
  case Nil
  then show ?case by (simp add: refl_Equal)
next
  case (Cons a xs)
  define s where "s = (if cmp x a = Greater then a else x)"
  have s: "s \<in> {x, a}" "cmp s x \<noteq> Greater" "cmp s a \<noteq> Greater"
    using Greater_not_Greater [of x a] by (auto simp: s_def refl_Equal)
  have r: "fold (\<lambda>b a. if cmp a b = Greater then b else a) (a # xs) x =
      fold (\<lambda>b a. if cmp a b = Greater then b else a) xs s"
    by (simp add: s_def)
  show ?case
    unfolding r using Cons.IH [of s] s by (auto simp: Let_def dest: le_trans)
qed

lemma max_by_spec: "max_by cmp xs = Some r \<Longrightarrow> r \<in> set xs \<and> (\<forall>y \<in> set xs. cmp y r \<noteq> Greater)"
  using max_fold by (cases xs) (auto simp: Let_def)

lemma min_by_spec: "min_by cmp xs = Some r \<Longrightarrow> r \<in> set xs \<and> (\<forall>y \<in> set xs. cmp r y \<noteq> Greater)"
  using min_fold by (cases xs) (auto simp: Let_def)

end

lemma max_by_None_iff [simp]: "max_by cmp xs = None \<longleftrightarrow> xs = []"
  by (cases xs) auto

lemma min_by_None_iff [simp]: "min_by cmp xs = None \<longleftrightarrow> xs = []"
  by (cases xs) auto

lemma comparison_cmp_by: "comparison (cmp_by f)"
  by unfold_locales (auto simp: cmp_by_def split: if_splits)

lemma comparison_then:
  assumes "comparison c" and "comparison d"
  shows "comparison (\<lambda>a b. then_cmp (c a b) (d a b))"
proof
  show "then_cmp (c b a) (d b a) = reverse_ordering (then_cmp (c a b) (d a b))" for a b
    using comparison.flip [OF assms(1), of b a] comparison.flip [OF assms(2), of b a]
    by (cases "c a b") auto
next
  fix x y z
  assume xy: "then_cmp (c x y) (d x y) \<noteq> Greater" and yz: "then_cmp (c y z) (d y z) \<noteq> Greater"
  have cxz: "c x z \<noteq> Greater"
    using comparison.le_trans [OF assms(1), of x y z] xy yz
    by (cases "c x y"; cases "c y z") auto
  have "c x y = Equal \<and> c y z = Equal" if "c x z = Equal"
  proof -
    have "c z x \<noteq> Greater" using comparison.flip [OF assms(1), of z x] that by simp
    then have "c y x \<noteq> Greater" "c z y \<noteq> Greater"
      using comparison.le_trans [OF assms(1), of y z x] comparison.le_trans [OF assms(1), of z x y] xy yz
      by (cases "c x y"; cases "c y z"; simp)+
    then show ?thesis
      using comparison.flip [OF assms(1), of y x] comparison.flip [OF assms(1), of z y] xy yz
      by (cases "c x y"; cases "c y z") auto
  qed
  then show "then_cmp (c x z) (d x z) \<noteq> Greater"
    using cxz xy yz comparison.le_trans [OF assms(2), of x y z] by (cases "c x z") auto
qed

lemma comparison_reverse: "comparison c \<Longrightarrow> comparison (\<lambda>a b. c b a)"
  by unfold_locales (metis comparison.flip, metis comparison.le_trans)

subsection \<open>Lifecycles\<close>

text \<open>
  Several components are small state machines guarded by a \<open>can_transition_to\<close> table:
  a transition that the table rejects leaves the state unchanged. \<open>attempts\<close> is the state
  after a sequence of attempted transitions. A terminal state is never left.
\<close>

primrec attempts :: "('s \<Rightarrow> 's \<Rightarrow> bool) \<Rightarrow> 's \<Rightarrow> 's list \<Rightarrow> 's" where
  "attempts can s [] = s"
| "attempts can s (t # ts) = attempts can (if can s t then t else s) ts"

locale lifecycle =
  fixes can :: "'s \<Rightarrow> 's \<Rightarrow> bool"
    and terminal :: "'s \<Rightarrow> bool"
  assumes terminal_stuck: "terminal s \<Longrightarrow> can s t \<Longrightarrow> t = s"
begin

lemma attempts_terminal: "terminal s \<Longrightarrow> attempts can s ts = s"
  by (induction ts) (auto dest: terminal_stuck)

lemma attempts_append: "attempts can s (ts @ us) = attempts can (attempts can s ts) us"
  by (induction ts arbitrary: s) auto

lemma attempts_after_terminal:
  "terminal (attempts can s ts) \<Longrightarrow> attempts can s (ts @ us) = attempts can s ts"
  by (simp add: attempts_append attempts_terminal)

lemma attempts_reachable: "can\<^sup>*\<^sup>* s (attempts can s ts)"
proof (induction ts arbitrary: s)
  case (Cons t ts)
  then show ?case
    by (auto intro: converse_rtranclp_into_rtranclp)
qed simp

end

end
