(* ===== verification/Core_Types.thy ===== *)
theory Core_Types
  imports Prelude "HOL-Library.Product_Lexorder" "HOL-Library.List_Lexorder"
begin

text \<open>
  The vocabulary of \<open>crates/network-core\<close>: error codes and errors (\<open>error.rs\<close>), IP
  addresses (\<open>std::net::IpAddr\<close>), timestamps (\<open>timestamp.rs\<close>), packets (\<open>packet.rs\<close>)
  and packet observations (\<open>observation.rs\<close>). Rust's \<open>String\<close> is a \<open>string\<close> holding
  its UTF-8 bytes.
\<close>

subsection \<open>Error codes and errors\<close>

datatype (plugins only: code size) engine_error_code =
  EC_Ok | EC_Unknown | EC_InvalidArgument | EC_NullPointer | EC_BufferTooSmall
  | EC_IntegerOverflow | EC_InvalidHandle | EC_HandleReleased | EC_HandleTypeMismatch
  | EC_NotInitialized | EC_AlreadyInitialized | EC_ShutdownInProgress | EC_AlreadyShutdown
  | EC_InvalidStateTransition | EC_Shutdown | EC_BackendUnavailable | EC_BackendNotFound
  | EC_BackendAlreadyRegistered | EC_BackendAlreadyRunning | EC_BackendNotRunning
  | EC_BackendStartFailed | EC_BackendStopFailed | EC_BackendInitializationFailed
  | EC_BackendShutdownFailed | EC_BackendDegraded | EC_BackendInitFailed
  | EC_CapabilityUnavailable | EC_CapabilityNotSupported | EC_CapabilityLost | EC_QueueEmpty
  | EC_QueueFull | EC_BufferExhausted | EC_Backpressure | EC_PacketMalformed
  | EC_PacketTooShort | EC_PacketUnsupported | EC_PacketReleased | EC_ParseError
  | EC_ActionNotSupported | EC_ActionFailed | EC_PassFailed | EC_DropFailed
  | EC_ModifyFailed | EC_ReinjectionFailed | EC_RouteNotFound | EC_RouteFailure
  | EC_NeighborUnresolved | EC_NeighborFailure | EC_NatStateMissing | EC_ForwardingFailed
  | EC_GatewayNotReady | EC_GatewayConfigurationInvalid | EC_ConfigurationInvalid
  | EC_ConfigurationUnsupported | EC_ResourceExhausted | EC_OperationTimeout
  | EC_ConcurrentOperation | EC_InternalError

primrec as_i32 :: "engine_error_code \<Rightarrow> int" where
  "as_i32 EC_Ok = 0"
| "as_i32 EC_Unknown = - 1"
| "as_i32 EC_InvalidArgument = 1"
| "as_i32 EC_NullPointer = 2"
| "as_i32 EC_BufferTooSmall = 3"
| "as_i32 EC_IntegerOverflow = 4"
| "as_i32 EC_InvalidHandle = 10"
| "as_i32 EC_HandleReleased = 11"
| "as_i32 EC_HandleTypeMismatch = 12"
| "as_i32 EC_NotInitialized = 20"
| "as_i32 EC_AlreadyInitialized = 21"
| "as_i32 EC_ShutdownInProgress = 22"
| "as_i32 EC_AlreadyShutdown = 23"
| "as_i32 EC_InvalidStateTransition = 24"
| "as_i32 EC_Shutdown = 25"
| "as_i32 EC_BackendUnavailable = 30"
| "as_i32 EC_BackendNotFound = 31"
| "as_i32 EC_BackendAlreadyRegistered = 32"
| "as_i32 EC_BackendAlreadyRunning = 33"
| "as_i32 EC_BackendNotRunning = 34"
| "as_i32 EC_BackendStartFailed = 35"
| "as_i32 EC_BackendStopFailed = 36"
| "as_i32 EC_BackendInitializationFailed = 37"
| "as_i32 EC_BackendShutdownFailed = 38"
| "as_i32 EC_BackendDegraded = 39"
| "as_i32 EC_BackendInitFailed = 40"
| "as_i32 EC_CapabilityUnavailable = 50"
| "as_i32 EC_CapabilityNotSupported = 51"
| "as_i32 EC_CapabilityLost = 52"
| "as_i32 EC_QueueEmpty = 60"
| "as_i32 EC_QueueFull = 61"
| "as_i32 EC_BufferExhausted = 62"
| "as_i32 EC_Backpressure = 63"
| "as_i32 EC_PacketMalformed = 70"
| "as_i32 EC_PacketTooShort = 71"
| "as_i32 EC_PacketUnsupported = 72"
| "as_i32 EC_PacketReleased = 73"
| "as_i32 EC_ParseError = 74"
| "as_i32 EC_ActionNotSupported = 80"
| "as_i32 EC_ActionFailed = 81"
| "as_i32 EC_PassFailed = 82"
| "as_i32 EC_DropFailed = 83"
| "as_i32 EC_ModifyFailed = 84"
| "as_i32 EC_ReinjectionFailed = 85"
| "as_i32 EC_RouteNotFound = 90"
| "as_i32 EC_RouteFailure = 91"
| "as_i32 EC_NeighborUnresolved = 92"
| "as_i32 EC_NeighborFailure = 93"
| "as_i32 EC_NatStateMissing = 94"
| "as_i32 EC_ForwardingFailed = 95"
| "as_i32 EC_GatewayNotReady = 96"
| "as_i32 EC_GatewayConfigurationInvalid = 97"
| "as_i32 EC_ConfigurationInvalid = 100"
| "as_i32 EC_ConfigurationUnsupported = 101"
| "as_i32 EC_ResourceExhausted = 110"
| "as_i32 EC_OperationTimeout = 111"
| "as_i32 EC_ConcurrentOperation = 112"
| "as_i32 EC_InternalError = 200"

definition is_success :: "engine_error_code \<Rightarrow> bool" where
  "is_success c \<longleftrightarrow> c = EC_Ok"

definition code_is_backend_error :: "engine_error_code \<Rightarrow> bool" where
  "code_is_backend_error c \<longleftrightarrow> c \<in> {
    EC_BackendUnavailable, EC_BackendNotFound, EC_BackendAlreadyRegistered,
     EC_BackendAlreadyRunning, EC_BackendNotRunning, EC_BackendStartFailed,
     EC_BackendStopFailed, EC_BackendInitializationFailed, EC_BackendShutdownFailed,
     EC_BackendDegraded, EC_BackendInitFailed}"

definition code_is_recoverable :: "engine_error_code \<Rightarrow> bool" where
  "code_is_recoverable c \<longleftrightarrow> c \<in> {
    EC_QueueEmpty, EC_QueueFull, EC_BufferExhausted, EC_Backpressure,
     EC_BackendUnavailable, EC_BackendDegraded, EC_CapabilityUnavailable,
     EC_CapabilityLost, EC_OperationTimeout, EC_ConcurrentOperation}"

primrec code_message :: "engine_error_code \<Rightarrow> string" where
  "code_message EC_Ok = ''OK''"
| "code_message EC_Unknown = ''Unknown error''"
| "code_message EC_InvalidArgument = ''Invalid argument''"
| "code_message EC_NullPointer = ''Null pointer''"
| "code_message EC_BufferTooSmall = ''Buffer too small''"
| "code_message EC_IntegerOverflow = ''Integer overflow''"
| "code_message EC_InvalidHandle = ''Invalid handle''"
| "code_message EC_HandleReleased = ''Handle has been released''"
| "code_message EC_HandleTypeMismatch = ''Handle type mismatch''"
| "code_message EC_NotInitialized = ''Engine is not initialized''"
| "code_message EC_AlreadyInitialized = ''Engine is already initialized''"
| "code_message EC_ShutdownInProgress = ''Engine shutdown is in progress''"
| "code_message EC_AlreadyShutdown = ''Engine is already shut down''"
| "code_message EC_InvalidStateTransition = ''Invalid state transition''"
| "code_message EC_Shutdown = ''Engine is shut down''"
| "code_message EC_BackendUnavailable = ''Backend is unavailable''"
| "code_message EC_BackendNotFound = ''Backend not found''"
| "code_message EC_BackendAlreadyRegistered = ''Backend already registered''"
| "code_message EC_BackendAlreadyRunning = ''Backend is already running''"
| "code_message EC_BackendNotRunning = ''Backend is not running''"
| "code_message EC_BackendStartFailed = ''Backend start failed''"
| "code_message EC_BackendStopFailed = ''Backend stop failed''"
| "code_message EC_BackendInitializationFailed = ''Backend initialization failed''"
| "code_message EC_BackendShutdownFailed = ''Backend shutdown failed''"
| "code_message EC_BackendDegraded = ''Backend is degraded''"
| "code_message EC_BackendInitFailed = ''Backend init failed''"
| "code_message EC_CapabilityUnavailable = ''Capability is unavailable''"
| "code_message EC_CapabilityNotSupported = ''Capability is not supported''"
| "code_message EC_CapabilityLost = ''Capability has been lost''"
| "code_message EC_QueueEmpty = ''Queue is empty''"
| "code_message EC_QueueFull = ''Queue is full''"
| "code_message EC_BufferExhausted = ''Buffer resources exhausted''"
| "code_message EC_Backpressure = ''Backpressure is active''"
| "code_message EC_PacketMalformed = ''Malformed packet''"
| "code_message EC_PacketTooShort = ''Packet is too short''"
| "code_message EC_PacketUnsupported = ''Packet type is unsupported''"
| "code_message EC_PacketReleased = ''Packet has already been released''"
| "code_message EC_ParseError = ''Packet parse error''"
| "code_message EC_ActionNotSupported = ''Packet action is not supported''"
| "code_message EC_ActionFailed = ''Packet action failed''"
| "code_message EC_PassFailed = ''Packet pass failed''"
| "code_message EC_DropFailed = ''Packet drop failed''"
| "code_message EC_ModifyFailed = ''Packet modification failed''"
| "code_message EC_ReinjectionFailed = ''Packet reinjection failed''"
| "code_message EC_RouteNotFound = ''Route not found''"
| "code_message EC_RouteFailure = ''Route lookup failed''"
| "code_message EC_NeighborUnresolved = ''Neighbor could not be resolved''"
| "code_message EC_NeighborFailure = ''Neighbor operation failed''"
| "code_message EC_NatStateMissing = ''NAT state is missing''"
| "code_message EC_ForwardingFailed = ''Packet forwarding failed''"
| "code_message EC_GatewayNotReady = ''Gateway is not ready''"
| "code_message EC_GatewayConfigurationInvalid = ''Gateway configuration is invalid''"
| "code_message EC_ConfigurationInvalid = ''Configuration is invalid''"
| "code_message EC_ConfigurationUnsupported = ''Configuration is unsupported''"
| "code_message EC_ResourceExhausted = ''Engine resource exhausted''"
| "code_message EC_OperationTimeout = ''Operation timed out''"
| "code_message EC_ConcurrentOperation = ''Operation conflicts with another operation''"
| "code_message EC_InternalError = ''Internal engine error''"

text \<open>All codes, in declaration order.\<close>

definition all_error_codes :: "engine_error_code list" where
  "all_error_codes = [
    EC_Ok, EC_Unknown, EC_InvalidArgument, EC_NullPointer, EC_BufferTooSmall,
     EC_IntegerOverflow, EC_InvalidHandle, EC_HandleReleased, EC_HandleTypeMismatch,
     EC_NotInitialized, EC_AlreadyInitialized, EC_ShutdownInProgress, EC_AlreadyShutdown,
     EC_InvalidStateTransition, EC_Shutdown, EC_BackendUnavailable, EC_BackendNotFound,
     EC_BackendAlreadyRegistered, EC_BackendAlreadyRunning, EC_BackendNotRunning,
     EC_BackendStartFailed, EC_BackendStopFailed, EC_BackendInitializationFailed,
     EC_BackendShutdownFailed, EC_BackendDegraded, EC_BackendInitFailed,
     EC_CapabilityUnavailable, EC_CapabilityNotSupported, EC_CapabilityLost, EC_QueueEmpty,
     EC_QueueFull, EC_BufferExhausted, EC_Backpressure, EC_PacketMalformed,
     EC_PacketTooShort, EC_PacketUnsupported, EC_PacketReleased, EC_ParseError,
     EC_ActionNotSupported, EC_ActionFailed, EC_PassFailed, EC_DropFailed, EC_ModifyFailed,
     EC_ReinjectionFailed, EC_RouteNotFound, EC_RouteFailure, EC_NeighborUnresolved,
     EC_NeighborFailure, EC_NatStateMissing, EC_ForwardingFailed, EC_GatewayNotReady,
     EC_GatewayConfigurationInvalid, EC_ConfigurationInvalid, EC_ConfigurationUnsupported,
     EC_ResourceExhausted, EC_OperationTimeout, EC_ConcurrentOperation, EC_InternalError]"

lemma in_all_error_codes: "c \<in> set all_error_codes"
  by (cases c) (simp_all add: all_error_codes_def)

lemma distinct_discriminants: "distinct (map as_i32 all_error_codes)"
  by (simp add: all_error_codes_def)

lemma inj_as_i32: "inj as_i32"
proof (rule injI)
  fix a b assume "as_i32 a = as_i32 b"
  moreover have "inj_on as_i32 (set all_error_codes)"
    using distinct_discriminants by (simp add: distinct_map)
  ultimately show "a = b"
    by (auto dest: inj_onD simp: in_all_error_codes)
qed

datatype engine_error =
    Error_Code engine_error_code
  | Error_Backend engine_error_code string "int option"
  | Error_Native engine_error_code int
  | Error_Message engine_error_code string

primrec error_code :: "engine_error \<Rightarrow> engine_error_code" where
  "error_code (Error_Code c) = c"
| "error_code (Error_Backend c b n) = c"
| "error_code (Error_Native c n) = c"
| "error_code (Error_Message c m) = c"

fun show_nat :: "nat \<Rightarrow> string" where
  "show_nat n = (if n < 10 then [char_of (n + 48)] else show_nat (n div 10) @ [char_of (n mod 10 + 48)])"

declare show_nat.simps [simp del]

definition show_int :: "int \<Rightarrow> string" where
  "show_int i = (if i < 0 then ''-'' @ show_nat (nat (- i)) else show_nat (nat i))"

primrec error_message :: "engine_error \<Rightarrow> string" where
  "error_message (Error_Code c) = code_message c"
| "error_message (Error_Backend c b n) = (case n of
      Some native \<Rightarrow> b @ '': '' @ code_message c @ '' (native error '' @ show_int native @ '')''
    | None \<Rightarrow> b @ '': '' @ code_message c)"
| "error_message (Error_Native c n) = code_message c @ '' (native error '' @ show_int n @ '')''"
| "error_message (Error_Message c m) = m"

definition error_as_i32 :: "engine_error \<Rightarrow> int" where
  "error_as_i32 e = as_i32 (error_code e)"

definition error_is_recoverable :: "engine_error \<Rightarrow> bool" where
  "error_is_recoverable e = code_is_recoverable (error_code e)"

definition error_is_backend_error :: "engine_error \<Rightarrow> bool" where
  "error_is_backend_error e = code_is_backend_error (error_code e)"

type_synonym 'a engine_result = "engine_error + 'a"

subsection \<open>IP addresses\<close>

datatype ip_addr = V4 u32 | V6 u128

definition octets4 :: "u32 \<Rightarrow> byte list" where
  "octets4 w = [byte3 w, byte2 w, byte1 w, byte0 w]"

definition octets16 :: "u128 \<Rightarrow> byte list" where
  "octets16 w = map (\<lambda>i. ucast (drop_bit (8 * i) w)) (rev [0..<16])"

lemma length_octets [simp]: "length (octets4 a) = 4" "length (octets16 b) = 16"
  by (simp_all add: octets4_def octets16_def)

lemma octets4_inject [simp]: "octets4 a = octets4 b \<longleftrightarrow> a = b"
  by (metis be32_bytes list.inject octets4_def)

lemma octets16_inject [simp]: "octets16 a = octets16 b \<longleftrightarrow> a = b"
proof
  assume h: "octets16 a = octets16 b"
  have byte: "(ucast (drop_bit (8 * i) a) :: byte) = ucast (drop_bit (8 * i) b)" if "i < 16" for i
    using h that by (auto simp: octets16_def map_eq_conv)
  show "a = b"
  proof (rule bit_word_eqI)
    fix n assume n: "n < LENGTH(128)"
    then have "bit (ucast (drop_bit (8 * (n div 8)) a) :: byte) (n mod 8) =
        bit (ucast (drop_bit (8 * (n div 8)) b) :: byte) (n mod 8)"
      using byte [of "n div 8"] by simp
    moreover have "8 * (n div 8) + n mod 8 = n" by simp
    ultimately show "bit a n \<longleftrightarrow> bit b n"
      by (simp add: bit_simps)
  qed
qed simp

instantiation ip_addr :: linorder
begin

fun less_eq_ip_addr :: "ip_addr \<Rightarrow> ip_addr \<Rightarrow> bool" where
  "less_eq_ip_addr (V4 a) (V4 b) \<longleftrightarrow> a \<le> b"
| "less_eq_ip_addr (V4 a) (V6 b) \<longleftrightarrow> True"
| "less_eq_ip_addr (V6 a) (V4 b) \<longleftrightarrow> False"
| "less_eq_ip_addr (V6 a) (V6 b) \<longleftrightarrow> a \<le> b"

definition less_ip_addr :: "ip_addr \<Rightarrow> ip_addr \<Rightarrow> bool" where
  "less_ip_addr a b \<longleftrightarrow> a \<le> b \<and> \<not> b \<le> a"

instance
proof
  fix x y z :: ip_addr
  show "x < y \<longleftrightarrow> x \<le> y \<and> \<not> y \<le> x" by (rule less_ip_addr_def)
  show "x \<le> x" by (cases x) auto
  show "x \<le> z" if "x \<le> y" "y \<le> z" using that by (cases x; cases y; cases z) auto
  show "x = y" if "x \<le> y" "y \<le> x" using that by (cases x; cases y) auto
  show "x \<le> y \<or> y \<le> x" by (cases x; cases y) auto
qed

end

subsection \<open>Time\<close>

text \<open>
  \<open>Timestamp\<close> and \<open>TimeDelta\<close> wrap a \<open>u64\<close> of nanoseconds. A reading of the clock
  (\<open>Timestamp::now\<close>) is an argument of the operations that take one.
\<close>

type_synonym timestamp = u64
type_synonym time_delta = u64

definition clamp_u64 :: "nat \<Rightarrow> u64" where
  \<comment> \<open>\<open>d.as_nanos().min(u64::MAX as u128) as u64\<close>\<close>
  "clamp_u64 n = of_nat (min n (2 ^ 64 - 1))"

definition duration_since :: "timestamp \<Rightarrow> timestamp \<Rightarrow> duration option" where
  "duration_since self other = (if other \<le> self then Some (unat (self - other)) else None)"

definition timestamp_add :: "timestamp \<Rightarrow> duration \<Rightarrow> timestamp" where
  "timestamp_add self rhs = saturating_add self (clamp_u64 rhs)"

definition timestamp_sub :: "timestamp \<Rightarrow> duration \<Rightarrow> timestamp" where
  "timestamp_sub self rhs = saturating_sub self (clamp_u64 rhs)"

definition elapsed_since :: "timestamp \<Rightarrow> timestamp \<Rightarrow> time_delta option" where
  "elapsed_since self earlier = map_option clamp_u64 (duration_since self earlier)"

definition delta_from_secs :: "u64 \<Rightarrow> time_delta" where
  "delta_from_secs s = clamp_u64 (unat s * 1000000000)"

lemma unat_clamp_u64: "unat (clamp_u64 n) = min n (2 ^ 64 - 1)"
  by (simp add: clamp_u64_def unat_of_nat min_def)

lemma duration_since_add:
  "unat t + d < 2 ^ 64 \<Longrightarrow> duration_since (timestamp_add t d) t = Some d"
proof -
  assume h: "unat t + d < 2 ^ 64"
  then have "unat (timestamp_add t d) = unat t + d"
    by (simp add: timestamp_add_def unat_saturating_add unat_clamp_u64)
  then show ?thesis
    by (simp add: duration_since_def word_le_nat_alt unat_sub)
qed

subsection \<open>Packets and observations\<close>

record packet =
  raw_bytes :: "byte list"

definition packet_new :: "byte list \<Rightarrow> packet" where
  "packet_new bytes = \<lparr> raw_bytes = bytes \<rparr>"

definition packet_len :: "packet \<Rightarrow> usize" where
  "packet_len p = length (raw_bytes p)"

definition packet_try_new :: "byte list \<Rightarrow> packet option" where
  "packet_try_new bytes = (if bytes = [] then None else Some (packet_new bytes))"

type_synonym observation_id = u64

datatype backend_source = Src_Wfp | Src_WinDivert | Src_Npcap | Src_IpHelper | Src_Etw | Src_Unknown

datatype direction = Inbound | Outbound | Direction_Unknown

record native_capture_context =
  ncc_backend :: backend_source
  ncc_bytes :: "byte list"

record packet_observation =
  observation_id :: observation_id
  backend_source :: backend_source
  capture_timestamp :: timestamp
  ingestion_timestamp :: timestamp
  obs_direction :: direction
  interface_identity :: string
  packet_length :: usize
  obs_packet :: packet
  native_metadata :: "(string \<times> string) list"
  native_context :: "native_capture_context option"
  provenance :: "string list"

definition observation_new ::
  "observation_id \<Rightarrow> backend_source \<Rightarrow> timestamp \<Rightarrow> timestamp \<Rightarrow> direction \<Rightarrow> string \<Rightarrow> packet
   \<Rightarrow> packet_observation" where
  "observation_new oid src capture ingestion dir iface p =
     \<lparr> observation_id = oid, backend_source = src, capture_timestamp = capture,
       ingestion_timestamp = ingestion, obs_direction = dir, interface_identity = iface,
       packet_length = packet_len p, obs_packet = p, native_metadata = [],
       native_context = None, provenance = [] \<rparr>"

definition with_native_metadata :: "string \<Rightarrow> string \<Rightarrow> packet_observation \<Rightarrow> packet_observation" where
  "with_native_metadata key v obs = obs\<lparr> native_metadata := native_metadata obs @ [(key, v)] \<rparr>"

definition with_native_context ::
  "native_capture_context \<Rightarrow> packet_observation \<Rightarrow> packet_observation" where
  "with_native_context ctx obs = obs\<lparr> native_context := Some ctx \<rparr>"

definition with_provenance :: "string \<Rightarrow> packet_observation \<Rightarrow> packet_observation" where
  "with_provenance entry obs = obs\<lparr> provenance := provenance obs @ [entry] \<rparr>"

text \<open>A concrete observation for the witnesses.\<close>

definition demo_observation :: "observation_id \<Rightarrow> packet_observation" where
  "demo_observation i = observation_new i Src_Npcap 0 0 Inbound ''eth0'' (packet_new [1, 2, 3])"

lemma demo_observation_sel [simp]:
  "observation_id (demo_observation i) = i" "raw_bytes (obs_packet (demo_observation i)) = [1, 2, 3]"
  by (simp_all add: demo_observation_def observation_new_def packet_new_def)

lemma demo_observation_inject [simp]: "demo_observation i = demo_observation j \<longleftrightarrow> i = j"
  by (metis demo_observation_sel(1))

end
