(* ===== verification/Bus_Queue.thy ===== *)
theory Bus_Queue
  imports Core_Types
begin

text \<open>
  \<open>crates/packet-bus/src/queue.rs\<close>: the bounded observation queue. The mutex-protected
  state, the capacity and the poison flag of the mutex are one record; \<open>try_enqueue\<close>,
  \<open>try_dequeue\<close>, \<open>close\<close> and \<open>clear\<close> run under the lock and are functions on it. The
  bodies of the blocking loops of \<open>enqueue\<close> and \<open>dequeue\<close> (one pass under the lock) are
  \<open>enqueue_poll\<close> and \<open>dequeue_poll\<close>; the waiting itself is modelled in \<open>Bus_Threads\<close>.
  The queue meets the contract of a bounded first-in first-out queue.
\<close>

datatype queue_error = Queue_Full | Queue_Closed

record observation_queue =
  q_capacity :: usize
  q_items :: "packet_observation list"
  q_closed :: bool
  q_poisoned :: bool

definition queue_new :: "usize \<Rightarrow> observation_queue" where
  "queue_new capacity =
     \<lparr> q_capacity = capacity, q_items = [], q_closed = False, q_poisoned = False \<rparr>"

definition queue_len :: "observation_queue \<Rightarrow> usize" where
  "queue_len q = (if q_poisoned q then 0 else length (q_items q))"

definition queue_is_empty :: "observation_queue \<Rightarrow> bool" where
  "queue_is_empty q \<longleftrightarrow> queue_len q = 0"

definition queue_is_full :: "observation_queue \<Rightarrow> bool" where
  "queue_is_full q \<longleftrightarrow> q_capacity q = 0 \<or> queue_len q \<ge> q_capacity q"

definition queue_is_closed :: "observation_queue \<Rightarrow> bool" where
  "queue_is_closed q \<longleftrightarrow> q_poisoned q \<or> q_closed q"

definition try_enqueue ::
  "packet_observation \<Rightarrow> observation_queue \<Rightarrow> (queue_error + unit) \<times> observation_queue" where
  "try_enqueue observation q =
     (if q_poisoned q then (Inl Queue_Closed, q)
      else if q_closed q then (Inl Queue_Closed, q)
      else if q_capacity q = 0 \<or> length (q_items q) \<ge> q_capacity q then (Inl Queue_Full, q)
      else (Inr (), q\<lparr> q_items := q_items q @ [observation] \<rparr>))"

definition try_dequeue ::
  "observation_queue \<Rightarrow> (queue_error + packet_observation option) \<times> observation_queue" where
  "try_dequeue q =
     (if q_poisoned q then (Inl Queue_Closed, q)
      else case q_items q of
        item # rest \<Rightarrow> (Inr (Some item), q\<lparr> q_items := rest \<rparr>)
      | [] \<Rightarrow> (Inr None, q))"

definition queue_close :: "observation_queue \<Rightarrow> observation_queue" where
  "queue_close q = (if q_poisoned q then q else q\<lparr> q_closed := True \<rparr>)"

definition queue_clear :: "observation_queue \<Rightarrow> observation_queue" where
  "queue_clear q = (if q_poisoned q then q else q\<lparr> q_items := [] \<rparr>)"

text \<open>
  One pass of the loop in \<open>enqueue\<close> and in \<open>dequeue\<close>: \<open>None\<close> is the branch that waits
  on the condition variable.
\<close>

definition enqueue_poll ::
  "packet_observation \<Rightarrow> observation_queue \<Rightarrow> (queue_error + unit) option \<times> observation_queue" where
  "enqueue_poll observation q =
     (if q_poisoned q then (Some (Inl Queue_Closed), q)
      else if q_closed q then (Some (Inl Queue_Closed), q)
      else if q_capacity q = 0 then (Some (Inl Queue_Full), q)
      else if length (q_items q) < q_capacity q then
        (Some (Inr ()), q\<lparr> q_items := q_items q @ [observation] \<rparr>)
      else (None, q))"

definition dequeue_poll ::
  "observation_queue \<Rightarrow> (queue_error + packet_observation) option \<times> observation_queue" where
  "dequeue_poll q =
     (if q_poisoned q then (Some (Inl Queue_Closed), q)
      else case q_items q of
        item # rest \<Rightarrow> (Some (Inr item), q\<lparr> q_items := rest \<rparr>)
      | [] \<Rightarrow> if q_closed q then (Some (Inl Queue_Closed), q) else (None, q))"

subsection \<open>Bounded FIFO queues\<close>

text \<open>
  The contract of a bounded queue with a closing operation, over an abstraction \<open>contents\<close>.
  \<open>run_queue\<close> runs a sequence of operations and collects what was accepted and what was
  taken out.
\<close>

datatype 'a queue_op = Op_Enqueue 'a | Op_Dequeue | Op_Close

primrec run_queue ::
  "('a \<Rightarrow> 'q \<Rightarrow> bool \<times> 'q) \<Rightarrow> ('q \<Rightarrow> 'a option \<times> 'q) \<Rightarrow> ('q \<Rightarrow> 'q) \<Rightarrow> 'a queue_op list \<Rightarrow> 'q
   \<Rightarrow> 'a list \<times> 'a list \<times> 'q" where
  "run_queue enq deq cls [] q = ([], [], q)"
| "run_queue enq deq cls (op # ops) q = (case op of
     Op_Enqueue x \<Rightarrow> (case enq x q of (ok, q') \<Rightarrow>
       case run_queue enq deq cls ops q' of (ins, outs, r) \<Rightarrow> ((if ok then x # ins else ins), outs, r))
   | Op_Dequeue \<Rightarrow> (case deq q of (y, q') \<Rightarrow>
       case run_queue enq deq cls ops q' of (ins, outs, r) \<Rightarrow>
         (ins, (case y of None \<Rightarrow> outs | Some x \<Rightarrow> x # outs), r))
   | Op_Close \<Rightarrow> run_queue enq deq cls ops (cls q))"

locale bounded_queue =
  fixes enq :: "'a \<Rightarrow> 'q \<Rightarrow> bool \<times> 'q"
    and deq :: "'q \<Rightarrow> 'a option \<times> 'q"
    and cls :: "'q \<Rightarrow> 'q"
    and contents :: "'q \<Rightarrow> 'a list"
    and cap :: "'q \<Rightarrow> nat"
    and is_open :: "'q \<Rightarrow> bool"
    and wf :: "'q \<Rightarrow> bool"
  assumes enq_accepts: "wf q \<Longrightarrow> is_open q \<Longrightarrow> length (contents q) < cap q \<Longrightarrow>
      \<exists>r. enq x q = (True, r) \<and> wf r \<and> is_open r \<and> cap r = cap q \<and> contents r = contents q @ [x]"
    and enq_refuses: "wf q \<Longrightarrow> \<not> (is_open q \<and> length (contents q) < cap q) \<Longrightarrow> enq x q = (False, q)"
    and deq_takes: "wf q \<Longrightarrow> contents q = x # xs \<Longrightarrow>
      \<exists>r. deq q = (Some x, r) \<and> wf r \<and> is_open r = is_open q \<and> cap r = cap q \<and> contents r = xs"
    and deq_empty: "wf q \<Longrightarrow> contents q = [] \<Longrightarrow> deq q = (None, q)"
    and close_keeps: "wf q \<Longrightarrow> wf (cls q) \<and> \<not> is_open (cls q) \<and> contents (cls q) = contents q \<and>
      cap (cls q) = cap q"
begin

lemma enq_cases:
  assumes "wf q"
  obtains (accepted) r where "enq x q = (True, r)" "wf r" "is_open q" "cap r = cap q"
      "contents r = contents q @ [x]" "length (contents q) < cap q"
    | (refused) "enq x q = (False, q)"
  using enq_accepts enq_refuses assms by metis

lemma deq_cases:
  assumes "wf q"
  obtains (taken) x r where "deq q = (Some x, r)" "wf r" "is_open r = is_open q" "cap r = cap q"
      "contents q = x # contents r"
    | (empty) "deq q = (None, q)" "contents q = []"
  using deq_takes deq_empty assms by (metis list.exhaust)

lemma fifo:
  assumes "wf q" and "run_queue enq deq cls ops q = (ins, outs, r)"
  shows "contents q @ ins = outs @ contents r"
  using assms
proof (induction ops arbitrary: q ins outs)
  case (Cons op ops)
  show ?case
  proof (cases op)
    case (Op_Enqueue x)
    from \<open>wf q\<close> show ?thesis
      using Cons.IH Cons.prems Op_Enqueue by (cases rule: enq_cases [of _ x]) (fastforce split: prod.splits)+
  next
    case Op_Dequeue
    from \<open>wf q\<close> show ?thesis
      using Cons.IH Cons.prems Op_Dequeue by (cases rule: deq_cases) (fastforce split: prod.splits)+
  next
    case Op_Close
    then show ?thesis using Cons.IH [of "cls q"] Cons.prems close_keeps by simp
  qed
qed simp

lemma run_wf:
  assumes "wf q" and "run_queue enq deq cls ops q = (ins, outs, r)"
  shows "wf r \<and> cap r = cap q"
  using assms
proof (induction ops arbitrary: q ins outs)
  case (Cons op ops)
  show ?case
  proof (cases op)
    case (Op_Enqueue x)
    from \<open>wf q\<close> show ?thesis
      using Cons.IH Cons.prems Op_Enqueue by (cases rule: enq_cases [of _ x]) (fastforce split: prod.splits)+
  next
    case Op_Dequeue
    from \<open>wf q\<close> show ?thesis
      using Cons.IH Cons.prems Op_Dequeue by (cases rule: deq_cases) (fastforce split: prod.splits)+
  next
    case Op_Close
    then show ?thesis using Cons.IH [of "cls q"] Cons.prems close_keeps by simp
  qed
qed simp

lemma closed_accepts_nothing:
  assumes "wf q" "\<not> is_open q" and "run_queue enq deq cls ops q = (ins, outs, r)"
  shows "ins = []"
  using assms
proof (induction ops arbitrary: q ins outs)
  case (Cons op ops)
  show ?case
  proof (cases op)
    case (Op_Enqueue x)
    have "enq x q = (False, q)" using enq_refuses Cons.prems by blast
    then show ?thesis using Cons Op_Enqueue by (fastforce split: prod.splits)
  next
    case Op_Dequeue
    from \<open>wf q\<close> show ?thesis
      using Cons.IH Cons.prems Op_Dequeue by (cases rule: deq_cases) (fastforce split: prod.splits)+
  next
    case Op_Close
    then show ?thesis using Cons.IH [of "cls q"] Cons.prems close_keeps by simp
  qed
qed simp

end

subsection \<open>The observation queue is one\<close>

definition queue_inv :: "observation_queue \<Rightarrow> bool" where
  "queue_inv q \<longleftrightarrow> \<not> q_poisoned q \<and> length (q_items q) \<le> q_capacity q"

definition accepts :: "packet_observation \<Rightarrow> observation_queue \<Rightarrow> bool \<times> observation_queue" where
  "accepts x q = (case try_enqueue x q of (r, q') \<Rightarrow> (r = Inr (), q'))"

definition takes :: "observation_queue \<Rightarrow> packet_observation option \<times> observation_queue" where
  "takes q = (case try_dequeue q of (Inr y, q') \<Rightarrow> (y, q') | (Inl _, q') \<Rightarrow> (None, q'))"

interpretation oq: bounded_queue accepts takes queue_close q_items q_capacity "\<lambda>q. \<not> q_closed q" queue_inv
  by unfold_locales
    (auto simp: accepts_def takes_def try_enqueue_def try_dequeue_def queue_close_def queue_inv_def)

lemma queue_inv_new [keeps]: "queue_inv (queue_new c)"
  by (simp add: queue_inv_def queue_new_def)

lemma queue_inv_try_enqueue [keeps]: "queue_inv q \<Longrightarrow> queue_inv (snd (try_enqueue x q))"
  by (auto simp: queue_inv_def try_enqueue_def)

lemma queue_inv_try_dequeue [keeps]: "queue_inv q \<Longrightarrow> queue_inv (snd (try_dequeue q))"
  by (auto simp: queue_inv_def try_dequeue_def split: list.splits)

lemma queue_inv_close [keeps]: "queue_inv q \<Longrightarrow> queue_inv (queue_close q)"
  by (auto simp: queue_inv_def queue_close_def)

lemma queue_inv_clear [keeps]: "queue_inv q \<Longrightarrow> queue_inv (queue_clear q)"
  by (auto simp: queue_inv_def queue_clear_def)

lemma queue_close_items [simp]: "q_items (queue_close q) = q_items q"
  by (simp add: queue_close_def)

text \<open>A pass of a blocking loop that does not wait is the non-blocking operation.\<close>

lemma enqueue_poll_try: "fst (enqueue_poll x q) = Some r \<Longrightarrow> enqueue_poll x q = (Some r, snd (try_enqueue x q)) \<and> r = fst (try_enqueue x q)"
  by (auto simp: enqueue_poll_def try_enqueue_def split: if_splits)

lemma enqueue_poll_waits: "fst (enqueue_poll x q) = None \<longleftrightarrow>
    \<not> q_poisoned q \<and> \<not> q_closed q \<and> 0 < q_capacity q \<and> q_capacity q \<le> length (q_items q)"
  by (auto simp: enqueue_poll_def)

lemma dequeue_poll_waits: "fst (dequeue_poll q) = None \<longleftrightarrow> \<not> q_poisoned q \<and> \<not> q_closed q \<and> q_items q = []"
  by (auto simp: dequeue_poll_def split: list.splits)

text \<open>
  The observation queue is a bounded first-in first-out queue. Under any sequence of
  \<open>try_enqueue\<close>, \<open>try_dequeue\<close> and \<open>close\<close> calls on a new queue, what was handed out
  followed by what is still queued is exactly what was accepted, in order (nothing lost,
  duplicated or reordered), and the queue never holds more than its capacity.
\<close>

lemma queue_fifo_bounded:
  assumes "run_queue accepts takes queue_close ops (queue_new cap) = (ins, outs, q)"
  shows "ins = outs @ q_items q \<and> length (q_items q) \<le> cap"
proof -
  have "q_items (queue_new cap) @ ins = outs @ q_items q"
    using oq.fifo [OF queue_inv_new assms] .
  moreover have "queue_inv q \<and> q_capacity q = q_capacity (queue_new cap)"
    using oq.run_wf [OF queue_inv_new assms] .
  ultimately show ?thesis by (simp add: queue_new_def queue_inv_def)
qed

theorem queue_fifo_bounded_witness:
  "\<exists>ins outs q. run_queue accepts takes queue_close
      [Op_Enqueue (demo_observation 1), Op_Enqueue (demo_observation 2), Op_Enqueue (demo_observation 3),
       Op_Dequeue, Op_Close, Op_Enqueue (demo_observation 4)] (queue_new 2) = (ins, outs, q) \<and>
     ins = outs @ q_items q \<and> ins = [demo_observation 1, demo_observation 2] \<and> outs = [demo_observation 1]"
proof -
  let ?ops = "[Op_Enqueue (demo_observation 1), Op_Enqueue (demo_observation 2),
    Op_Enqueue (demo_observation 3), Op_Dequeue, Op_Close, Op_Enqueue (demo_observation 4)]"
  obtain ins outs q where run: "run_queue accepts takes queue_close ?ops (queue_new 2) = (ins, outs, q)"
    using prod_cases3 by blast
  moreover have "ins = outs @ q_items q"
    using queue_fifo_bounded [OF run] by simp
  moreover have "ins = [demo_observation 1, demo_observation 2]" "outs = [demo_observation 1]"
    using run by (auto simp: accepts_def takes_def try_enqueue_def try_dequeue_def queue_close_def queue_new_def)
  ultimately show ?thesis by blast
qed

end
