(* ===== verification/Bus_Threads.thy ===== *)
theory Bus_Threads
  imports Bus_Queue "HOL-Library.Multiset"
begin

text \<open>
  The blocking side of \<open>crates/packet-bus/src/queue.rs\<close>: any number of threads calling
  \<open>enqueue\<close>, \<open>dequeue\<close>, \<open>try_enqueue\<close>, \<open>try_dequeue\<close>, \<open>close\<close> and \<open>clear\<close> on one queue,
  with the two condition variables. A step is one critical section of one thread: a call or a
  woken waiter runs a pass of its loop under the lock and either returns or waits. A waiter
  may also wake spuriously, as \<open>Condvar::wait\<close> allows. No thread panics inside a critical
  section, so the mutex is never poisoned.
\<close>

record queue_threads =
  th_queue :: observation_queue
  th_waiting_prod :: "packet_observation multiset" \<comment> \<open>blocked in \<open>space.wait\<close>, with their argument\<close>
  th_waiting_cons :: nat                            \<comment> \<open>blocked in \<open>available.wait\<close>\<close>
  th_woken_prod :: "packet_observation multiset"   \<comment> \<open>woken, about to take the lock again\<close>
  th_woken_cons :: nat
  th_accepted :: "packet_observation list"          \<comment> \<open>ghost: everything ever enqueued\<close>
  th_removed :: "packet_observation list"           \<comment> \<open>ghost: everything dequeued or cleared\<close>

definition threads_init :: "usize \<Rightarrow> queue_threads" where
  "threads_init cap = \<lparr> th_queue = queue_new cap, th_waiting_prod = {#}, th_waiting_cons = 0,
     th_woken_prod = {#}, th_woken_cons = 0, th_accepted = [], th_removed = [] \<rparr>"

definition notify_one_available :: "queue_threads \<Rightarrow> queue_threads" where
  "notify_one_available s =
     (if th_waiting_cons s = 0 then s
      else s\<lparr> th_waiting_cons := th_waiting_cons s - 1, th_woken_cons := th_woken_cons s + 1 \<rparr>)"

definition notify_all_available :: "queue_threads \<Rightarrow> queue_threads" where
  "notify_all_available s =
     s\<lparr> th_waiting_cons := 0, th_woken_cons := th_woken_cons s + th_waiting_cons s \<rparr>"

definition notify_all_space :: "queue_threads \<Rightarrow> queue_threads" where
  "notify_all_space s =
     s\<lparr> th_waiting_prod := {#}, th_woken_prod := th_woken_prod s + th_waiting_prod s \<rparr>"

text \<open>Which waiting producer \<open>space.notify_one()\<close> wakes is not specified: a relation.\<close>

inductive notify_one_space :: "queue_threads \<Rightarrow> queue_threads \<Rightarrow> bool" where
  nobody: "th_waiting_prod s = {#} \<Longrightarrow> notify_one_space s s"
| one: "x \<in># th_waiting_prod s \<Longrightarrow> notify_one_space s
    (s\<lparr> th_waiting_prod := th_waiting_prod s - {#x#}, th_woken_prod := add_mset x (th_woken_prod s) \<rparr>)"

text \<open>The effect of a successful push and of a successful pop, notifications included.\<close>

definition pushed :: "packet_observation \<Rightarrow> observation_queue \<Rightarrow> queue_threads \<Rightarrow> queue_threads" where
  "pushed x q s = notify_one_available (s\<lparr> th_queue := q, th_accepted := th_accepted s @ [x] \<rparr>)"

definition popped :: "packet_observation \<Rightarrow> observation_queue \<Rightarrow> queue_threads \<Rightarrow> queue_threads" where
  "popped x q s = s\<lparr> th_queue := q, th_removed := th_removed s @ [x] \<rparr>"

inductive th_step :: "queue_threads \<Rightarrow> queue_threads \<Rightarrow> bool" where
  enqueue_ok: "enqueue_poll x (th_queue s) = (Some (Inr ()), q) \<Longrightarrow> th_step s (pushed x q s)"
| enqueue_wait: "enqueue_poll x (th_queue s) = (None, q) \<Longrightarrow>
    th_step s (s\<lparr> th_queue := q, th_waiting_prod := add_mset x (th_waiting_prod s) \<rparr>)"
| resume_enqueue_ok: "x \<in># th_woken_prod s \<Longrightarrow> enqueue_poll x (th_queue s) = (Some (Inr ()), q) \<Longrightarrow>
    th_step s (pushed x q (s\<lparr> th_woken_prod := th_woken_prod s - {#x#} \<rparr>))"
| resume_enqueue_err: "x \<in># th_woken_prod s \<Longrightarrow> enqueue_poll x (th_queue s) = (Some (Inl e), q) \<Longrightarrow>
    th_step s (s\<lparr> th_queue := q, th_woken_prod := th_woken_prod s - {#x#} \<rparr>)"
| resume_enqueue_wait: "x \<in># th_woken_prod s \<Longrightarrow> enqueue_poll x (th_queue s) = (None, q) \<Longrightarrow>
    th_step s (s\<lparr> th_queue := q, th_woken_prod := th_woken_prod s - {#x#},
                  th_waiting_prod := add_mset x (th_waiting_prod s) \<rparr>)"
| dequeue_ok: "dequeue_poll (th_queue s) = (Some (Inr x), q) \<Longrightarrow> notify_one_space (popped x q s) t \<Longrightarrow>
    th_step s t"
| dequeue_wait: "dequeue_poll (th_queue s) = (None, q) \<Longrightarrow>
    th_step s (s\<lparr> th_queue := q, th_waiting_cons := th_waiting_cons s + 1 \<rparr>)"
| resume_dequeue_ok: "th_woken_cons s > 0 \<Longrightarrow> dequeue_poll (th_queue s) = (Some (Inr x), q) \<Longrightarrow>
    notify_one_space (popped x q (s\<lparr> th_woken_cons := th_woken_cons s - 1 \<rparr>)) t \<Longrightarrow> th_step s t"
| resume_dequeue_err: "th_woken_cons s > 0 \<Longrightarrow> dequeue_poll (th_queue s) = (Some (Inl e), q) \<Longrightarrow>
    th_step s (s\<lparr> th_queue := q, th_woken_cons := th_woken_cons s - 1 \<rparr>)"
| resume_dequeue_wait: "th_woken_cons s > 0 \<Longrightarrow> dequeue_poll (th_queue s) = (None, q) \<Longrightarrow>
    th_step s (s\<lparr> th_queue := q, th_woken_cons := th_woken_cons s - 1, th_waiting_cons := th_waiting_cons s + 1 \<rparr>)"
| try_enqueue_ok: "try_enqueue x (th_queue s) = (Inr (), q) \<Longrightarrow> th_step s (pushed x q s)"
| try_dequeue_ok: "try_dequeue (th_queue s) = (Inr (Some x), q) \<Longrightarrow> notify_one_space (popped x q s) t \<Longrightarrow>
    th_step s t"
| close: "th_step s (notify_all_space (notify_all_available (s\<lparr> th_queue := queue_close (th_queue s) \<rparr>)))"
| clear: "th_step s (notify_all_space
    (s\<lparr> th_queue := queue_clear (th_queue s), th_removed := th_removed s @ q_items (th_queue s) \<rparr>))"
| spurious_prod: "x \<in># th_waiting_prod s \<Longrightarrow>
    th_step s (s\<lparr> th_waiting_prod := th_waiting_prod s - {#x#}, th_woken_prod := add_mset x (th_woken_prod s) \<rparr>)"
| spurious_cons: "th_waiting_cons s > 0 \<Longrightarrow>
    th_step s (s\<lparr> th_waiting_cons := th_waiting_cons s - 1, th_woken_cons := th_woken_cons s + 1 \<rparr>)"

text \<open>
  No wake-up is lost: while a consumer waits, the queue is open and every queued item has a
  woken consumer on its way to it; while a producer waits, the queue is open and every free
  slot has a woken producer on its way to it.
\<close>

definition th_inv :: "queue_threads \<Rightarrow> bool" where
  "th_inv s \<longleftrightarrow> queue_inv (th_queue s) \<and>
     (0 < th_waiting_cons s \<longrightarrow> \<not> q_closed (th_queue s) \<and> length (q_items (th_queue s)) \<le> th_woken_cons s) \<and>
     (th_waiting_prod s \<noteq> {#} \<longrightarrow> \<not> q_closed (th_queue s) \<and>
        q_capacity (th_queue s) \<le> length (q_items (th_queue s)) + size (th_woken_prod s)) \<and>
     th_accepted s = th_removed s @ q_items (th_queue s)"

lemma enqueue_poll_ok: "enqueue_poll x q = (Some (Inr ()), q') \<Longrightarrow>
    \<not> q_poisoned q \<and> \<not> q_closed q \<and> length (q_items q) < q_capacity q \<and> q' = q\<lparr> q_items := q_items q @ [x] \<rparr>"
  by (auto simp: enqueue_poll_def split: if_splits)

lemma enqueue_poll_err: "enqueue_poll x q = (Some (Inl e), q') \<Longrightarrow>
    q' = q \<and> (q_poisoned q \<or> q_closed q \<or> q_capacity q = 0)"
  by (auto simp: enqueue_poll_def split: if_splits)

lemma enqueue_poll_wait: "enqueue_poll x q = (None, q') \<Longrightarrow>
    q' = q \<and> \<not> q_closed q \<and> 0 < q_capacity q \<and> q_capacity q \<le> length (q_items q)"
  by (auto simp: enqueue_poll_def split: if_splits)

lemma dequeue_poll_ok: "dequeue_poll q = (Some (Inr x), q') \<Longrightarrow>
    \<exists>rest. q_items q = x # rest \<and> q' = q\<lparr> q_items := rest \<rparr>"
  by (auto simp: dequeue_poll_def split: if_splits list.splits)

lemma dequeue_poll_err: "dequeue_poll q = (Some (Inl e), q') \<Longrightarrow> q' = q \<and> (q_poisoned q \<or> q_closed q)"
  by (auto simp: dequeue_poll_def split: if_splits list.splits)

lemma dequeue_poll_wait: "dequeue_poll q = (None, q') \<Longrightarrow> q' = q \<and> \<not> q_closed q \<and> q_items q = []"
  by (auto simp: dequeue_poll_def split: if_splits list.splits)

lemma try_enqueue_ok: "try_enqueue x q = (Inr (), q') \<Longrightarrow> enqueue_poll x q = (Some (Inr ()), q')"
  by (auto simp: try_enqueue_def enqueue_poll_def split: if_splits)

lemma try_dequeue_ok: "try_dequeue q = (Inr (Some x), q') \<Longrightarrow> dequeue_poll q = (Some (Inr x), q')"
  by (auto simp: try_dequeue_def dequeue_poll_def split: if_splits list.splits)

lemma th_inv_pushed:
  assumes "th_inv s" "enqueue_poll x (th_queue s) = (Some (Inr ()), q)"
  shows "th_inv (pushed x q s)"
  using assms(1) enqueue_poll_ok [OF assms(2)]
  by (auto simp: th_inv_def pushed_def notify_one_available_def queue_inv_def)

lemma th_inv_pushed_resume:
  assumes "th_inv s" "y \<in># th_woken_prod s" "enqueue_poll x (th_queue s) = (Some (Inr ()), q)"
  shows "th_inv (pushed x q (s\<lparr> th_woken_prod := th_woken_prod s - {#y#} \<rparr>))"
proof -
  have "size (th_woken_prod s) = Suc (size (th_woken_prod s - {#y#}))"
    using assms(2) by (simp add: size_Suc_Diff1)
  then show ?thesis
    using assms(1) enqueue_poll_ok [OF assms(3)]
    by (auto simp: th_inv_def pushed_def notify_one_available_def queue_inv_def)
qed

lemma th_inv_popped:
  assumes "th_inv s" "dequeue_poll (th_queue s) = (Some (Inr x), q)" "notify_one_space (popped x q s) t"
  shows "th_inv t"
  using assms(3,1) dequeue_poll_ok [OF assms(2)]
  by cases (auto simp: th_inv_def popped_def queue_inv_def)

lemma th_inv_popped_resume:
  assumes "th_inv s" "dequeue_poll (th_queue s) = (Some (Inr x), q)" "0 < th_woken_cons s"
    "notify_one_space (popped x q (s\<lparr> th_woken_cons := th_woken_cons s - 1 \<rparr>)) t"
  shows "th_inv t"
  using assms(4,1,3) dequeue_poll_ok [OF assms(2)]
  by cases (auto simp: th_inv_def popped_def queue_inv_def)

lemma th_inv_step [keeps]: "th_step s t \<Longrightarrow> th_inv s \<Longrightarrow> th_inv t"
proof (induction rule: th_step.induct)
  case (resume_enqueue_wait x s q)
  then show ?case
    using enqueue_poll_wait [OF resume_enqueue_wait(2)] by (auto simp: th_inv_def)
next
  case (resume_enqueue_err x s e q)
  then show ?case
    using enqueue_poll_err [OF resume_enqueue_err(2)] by (auto simp: th_inv_def queue_inv_def)
next
  case (resume_dequeue_err s e q)
  then show ?case
    using dequeue_poll_err [OF resume_dequeue_err(2)] by (auto simp: th_inv_def queue_inv_def)
next
  case (close s)
  then show ?case
    by (auto simp: th_inv_def notify_all_space_def notify_all_available_def keeps)
next
  case (clear s)
  then show ?case
    by (auto simp: th_inv_def notify_all_space_def keeps) (simp_all add: queue_clear_def queue_inv_def)
next
  case (spurious_prod x s)
  then show ?case by (auto simp: th_inv_def)
next
  case (spurious_cons s)
  then show ?case by (auto simp: th_inv_def)
next
  case (enqueue_wait x s q)
  then show ?case using enqueue_poll_wait [OF enqueue_wait(1)] by (auto simp: th_inv_def)
next
  case (dequeue_wait s q)
  then show ?case using dequeue_poll_wait [OF dequeue_wait(1)] by (auto simp: th_inv_def)
next
  case (resume_dequeue_wait s q)
  then show ?case using dequeue_poll_wait [OF resume_dequeue_wait(2)] by (auto simp: th_inv_def)
qed (blast intro: th_inv_pushed th_inv_pushed_resume th_inv_popped th_inv_popped_resume
      dest: try_enqueue_ok try_dequeue_ok)+

lemma th_inv_reachable: "th_step\<^sup>*\<^sup>* (threads_init cap) s \<Longrightarrow> th_inv s"
proof (induction rule: rtranclp_induct)
  case base
  show ?case by (simp add: th_inv_def threads_init_def keeps) (simp add: queue_new_def)
qed (rule th_inv_step)

text \<open>
  C9: No thread sleeps through its wake-up. In every reachable state of any number of threads
  sharing the queue in which no woken thread is still about to run: if a consumer is blocked
  in \<open>dequeue\<close>, the queue is open and empty; if a producer is blocked in \<open>enqueue\<close>, the
  queue is open and full. In particular nobody stays blocked on a closed queue.
\<close>

theorem no_lost_wakeup:
  assumes "th_step\<^sup>*\<^sup>* (threads_init cap) s" and "th_woken_cons s = 0" and "th_woken_prod s = {#}"
  shows "(0 < th_waiting_cons s \<longrightarrow> \<not> q_closed (th_queue s) \<and> q_items (th_queue s) = []) \<and>
    (th_waiting_prod s \<noteq> {#} \<longrightarrow> \<not> q_closed (th_queue s) \<and>
       length (q_items (th_queue s)) = q_capacity (th_queue s))"
  using th_inv_reachable [OF assms(1)] assms(2,3) by (auto simp: th_inv_def queue_inv_def)

theorem no_lost_wakeup_witness:
  "\<exists>s. th_step\<^sup>*\<^sup>* (threads_init 1) s \<and> th_woken_cons s = 0 \<and> th_woken_prod s = {#} \<and>
     0 < th_waiting_cons s \<and> \<not> q_closed (th_queue s) \<and> q_items (th_queue s) = []"
proof -
  let ?s = "(threads_init 1)\<lparr> th_waiting_cons := 1 \<rparr>"
  have "th_step (threads_init 1) ?s"
    using dequeue_wait [of "threads_init 1" "queue_new 1"]
    by (simp add: threads_init_def queue_new_def dequeue_poll_def)
  then have reach: "th_step\<^sup>*\<^sup>* (threads_init 1) ?s" by (rule r_into_rtranclp)
  have idle: "th_woken_cons ?s = 0" "th_woken_prod ?s = {#}" "0 < th_waiting_cons ?s"
    by (simp_all add: threads_init_def)
  then show ?thesis
    using no_lost_wakeup [OF reach] reach by blast
qed

text \<open>
  C12: Under any interleaving of blocking and non-blocking producers and consumers, close,
  clear and spurious wake-ups, every observation leaves the queue in the order it entered:
  what was removed followed by what is queued is what was accepted, and the queue never
  holds more than its capacity.
\<close>

theorem concurrent_fifo:
  assumes "th_step\<^sup>*\<^sup>* (threads_init cap) s"
  shows "th_accepted s = th_removed s @ q_items (th_queue s) \<and>
    length (q_items (th_queue s)) \<le> q_capacity (th_queue s)"
  using th_inv_reachable [OF assms] by (simp add: th_inv_def queue_inv_def)

theorem concurrent_fifo_witness:
  "\<exists>s. th_step\<^sup>*\<^sup>* (threads_init 1) s \<and> th_accepted s = [demo_observation 1] \<and>
     th_removed s @ q_items (th_queue s) = [demo_observation 1]"
proof -
  let ?q = "(queue_new 1)\<lparr> q_items := [demo_observation 1] \<rparr>"
  let ?s = "pushed (demo_observation 1) ?q (threads_init 1)"
  have "th_step (threads_init 1) ?s"
    by (rule enqueue_ok) (simp add: threads_init_def queue_new_def enqueue_poll_def)
  then have reach: "th_step\<^sup>*\<^sup>* (threads_init 1) ?s" by (rule r_into_rtranclp)
  have "th_accepted ?s = [demo_observation 1]"
    by (simp add: pushed_def notify_one_available_def threads_init_def)
  then show ?thesis using concurrent_fifo [OF reach] reach by metis
qed

end
