(* ===== verification/Bus_Backpressure.thy ===== *)
theory Bus_Backpressure
  imports Core_Types
begin

text \<open>
  \<open>crates/packet-bus/src/backpressure.rs\<close>: the watermark controller that decides whether
  input is accepted, throttled or rejected at a given queue occupancy.
\<close>

datatype backpressure_level = Level_Normal | Level_Elevated | Level_Critical

datatype backpressure_action = Bp_Accept | Bp_Throttle | Bp_Reject

record backpressure_config =
  elevated_watermark_percent :: u8
  critical_watermark_percent :: u8

definition backpressure_config_default :: backpressure_config where
  "backpressure_config_default =
     \<lparr> elevated_watermark_percent = 75, critical_watermark_percent = 95 \<rparr>"

definition backpressure_config_validate :: "backpressure_config \<Rightarrow> bool" where
  "backpressure_config_validate c \<longleftrightarrow>
     elevated_watermark_percent c > 0 \<and> elevated_watermark_percent c < 100 \<and>
     critical_watermark_percent c > 0 \<and> critical_watermark_percent c \<le> 100 \<and>
     elevated_watermark_percent c < critical_watermark_percent c"

record backpressure_decision =
  bp_level :: backpressure_level
  bp_action :: backpressure_action
  bp_occupancy :: usize
  bp_capacity :: usize

definition accepts_input :: "backpressure_decision \<Rightarrow> bool" where
  "accepts_input d \<longleftrightarrow> bp_action d \<in> {Bp_Accept, Bp_Throttle}"

definition rejects_input :: "backpressure_decision \<Rightarrow> bool" where
  "rejects_input d \<longleftrightarrow> bp_action d = Bp_Reject"

record backpressure_controller =
  bpc_config :: backpressure_config

definition controller_new :: "backpressure_config \<Rightarrow> backpressure_controller" where
  "controller_new config =
     \<lparr> bpc_config = (if backpressure_config_validate config then config
                     else backpressure_config_default) \<rparr>"

definition evaluate :: "usize \<Rightarrow> usize \<Rightarrow> backpressure_controller \<Rightarrow> backpressure_decision" where
  "evaluate occupancy capacity self =
     (if capacity = 0 then
        \<lparr> bp_level = Level_Critical, bp_action = Bp_Reject, bp_occupancy = occupancy, bp_capacity = capacity \<rparr>
      else
        let occupancy = min occupancy capacity;
            percent = usize_saturating_mul occupancy 100 div capacity in
        if percent \<ge> unat (critical_watermark_percent (bpc_config self)) then
          \<lparr> bp_level = Level_Critical, bp_action = Bp_Reject, bp_occupancy = occupancy, bp_capacity = capacity \<rparr>
        else if percent \<ge> unat (elevated_watermark_percent (bpc_config self)) then
          \<lparr> bp_level = Level_Elevated, bp_action = Bp_Throttle, bp_occupancy = occupancy, bp_capacity = capacity \<rparr>
        else
          \<lparr> bp_level = Level_Normal, bp_action = Bp_Accept, bp_occupancy = occupancy, bp_capacity = capacity \<rparr>)"

definition should_accept :: "usize \<Rightarrow> usize \<Rightarrow> backpressure_controller \<Rightarrow> bool" where
  "should_accept occupancy capacity self = accepts_input (evaluate occupancy capacity self)"

subsection \<open>The decision\<close>

lemma config_default_valid: "backpressure_config_validate backpressure_config_default"
  by (simp add: backpressure_config_validate_def backpressure_config_default_def)

lemma controller_config_valid: "backpressure_config_validate (bpc_config (controller_new config))"
  by (simp add: controller_new_def config_default_valid)

lemma percent_ge_iff:
  assumes "0 < capacity" "capacity * 100 \<le> usize_max"
  shows "w \<le> usize_saturating_mul (min occupancy capacity) 100 div capacity \<longleftrightarrow>
    w * capacity \<le> min occupancy capacity * 100"
proof -
  have "min occupancy capacity * 100 \<le> usize_max"
    using assms(2) by (meson le_trans min.cobounded2 mult_le_mono1)
  then have "usize_saturating_mul (min occupancy capacity) 100 = min occupancy capacity * 100"
    by (simp add: usize_saturating_mul_def)
  then show ?thesis using assms(1) by (simp add: less_eq_div_iff_mult_less_eq)
qed

lemma percent_le: "0 < capacity \<Longrightarrow> usize_saturating_mul (min occupancy capacity) 100 div capacity \<le> 100"
proof -
  assume c: "0 < capacity"
  have "usize_saturating_mul (min occupancy capacity) 100 \<le> capacity * 100"
    by (simp add: usize_saturating_mul_def min_le_iff_disj)
  then have "usize_saturating_mul (min occupancy capacity) 100 div capacity \<le> capacity * 100 div capacity"
    by (rule div_le_mono)
  then show ?thesis using c by simp
qed

text \<open>
  C39: For every controller and every queue of at most \<open>usize::MAX / 100\<close> slots the decision is
  the exact comparison of the occupancy ratio with the configured watermarks (no rounding and
  no overflow), a full queue is always rejected, and an empty one always accepted.
\<close>

theorem backpressure_exact:
  fixes config :: backpressure_config
  assumes "0 < capacity" and "capacity * 100 \<le> usize_max" and "ctl = controller_new config"
    and "crit = unat (critical_watermark_percent (bpc_config ctl))"
    and "elev = unat (elevated_watermark_percent (bpc_config ctl))"
  shows "bp_action (evaluate occupancy capacity ctl) =
      (if crit * capacity \<le> min occupancy capacity * 100 then Bp_Reject
       else if elev * capacity \<le> min occupancy capacity * 100 then Bp_Throttle else Bp_Accept) \<and>
    (capacity \<le> occupancy \<longrightarrow> rejects_input (evaluate occupancy capacity ctl)) \<and>
    bp_action (evaluate 0 capacity ctl) = Bp_Accept"
proof -
  have v: "backpressure_config_validate (bpc_config ctl)"
    unfolding assms(3) by (rule controller_config_valid)
  have act: "bp_action (evaluate n capacity ctl) =
      (if crit * capacity \<le> min n capacity * 100 then Bp_Reject
       else if elev * capacity \<le> min n capacity * 100 then Bp_Throttle else Bp_Accept)" for n
    using assms(1) percent_ge_iff [OF assms(1,2)] by (simp add: evaluate_def Let_def assms(4,5))
  have "crit \<le> 100" "0 < elev" "0 < crit"
    using v by (simp_all add: backpressure_config_validate_def assms(4,5) word_le_nat_alt word_less_nat_alt)
  then show ?thesis
    using act [of occupancy] act [of 0] assms(1)
    by (auto simp: rejects_input_def min_def mult.commute)
qed

theorem backpressure_exact_witness:
  "rejects_input (evaluate 4096 4096 (controller_new backpressure_config_default)) \<and>
   bp_action (evaluate 3072 4096 (controller_new backpressure_config_default)) = Bp_Throttle"
  using backpressure_exact [of 4096 _ backpressure_config_default _ _ 4096]
    backpressure_exact [of 4096 _ backpressure_config_default _ _ 3072]
  by (simp add: usize_max_def controller_new_def config_default_valid)
    (simp add: backpressure_config_default_def)

text \<open>
  The multiplication by 100 saturates: there is a capacity at which a queue that is
  completely full is not rejected but accepted.
\<close>

lemma backpressure_saturates:
  "bp_action (evaluate usize_max usize_max (controller_new backpressure_config_default)) = Bp_Accept"
  by (simp add: evaluate_def usize_saturating_mul_def usize_max_def controller_new_def
      config_default_valid) (simp add: backpressure_config_default_def)

end
