(* ===== verification/Core_Text.thy ===== *)
theory Core_Text
  imports Core_Types
begin

text \<open>
  The string operations the core uses: \<open>str::trim\<close> and \<open>str::to_ascii_lowercase\<close>. A string is
  a list of characters; the ones a \<open>char\<close> can hold are the code points below 256, whose
  white space is the ASCII white space, NEL and the no-break space.
\<close>

definition is_whitespace :: "char \<Rightarrow> bool" where
  "is_whitespace c \<longleftrightarrow> (let n = (of_char c :: nat) in 9 \<le> n \<and> n \<le> 13 \<or> n = 32 \<or> n = 133 \<or> n = 160)"

definition trim :: "string \<Rightarrow> string" where
  "trim s = rev (dropWhile is_whitespace (rev (dropWhile is_whitespace s)))"

definition ascii_lower :: "char \<Rightarrow> char" where
  "ascii_lower c = (let n = (of_char c :: nat) in if 65 \<le> n \<and> n \<le> 90 then char_of (n + 32) else c)"

definition to_ascii_lowercase :: "string \<Rightarrow> string" where
  "to_ascii_lowercase s = map ascii_lower s"

lemma ascii_lower_idem [simp]: "ascii_lower (ascii_lower c) = ascii_lower c"
  by (simp add: ascii_lower_def Let_def)

lemma to_ascii_lowercase_idem [simp]: "to_ascii_lowercase (to_ascii_lowercase s) = to_ascii_lowercase s"
  by (simp add: to_ascii_lowercase_def)

lemma is_whitespace_lower [simp]: "is_whitespace (ascii_lower c) = is_whitespace c"
  by (simp add: is_whitespace_def ascii_lower_def Let_def)

lemma dropWhile_lower: "dropWhile is_whitespace (map ascii_lower s) = map ascii_lower (dropWhile is_whitespace s)"
  by (simp add: dropWhile_map comp_def)

lemma trim_lower: "trim (to_ascii_lowercase s) = to_ascii_lowercase (trim s)"
  by (simp add: trim_def to_ascii_lowercase_def dropWhile_lower rev_map)

lemma trim_prefix: "\<exists>tail. dropWhile is_whitespace s = trim s @ tail"
proof -
  have "rev (dropWhile is_whitespace s) = takeWhile is_whitespace (rev (dropWhile is_whitespace s)) @
      dropWhile is_whitespace (rev (dropWhile is_whitespace s))"
    by simp
  then have "dropWhile is_whitespace s = trim s @ rev (takeWhile is_whitespace (rev (dropWhile is_whitespace s)))"
    unfolding trim_def by (metis rev_append rev_rev_ident)
  then show ?thesis by blast
qed

lemma trim_no_leading: "trim s = c # cs \<Longrightarrow> \<not> is_whitespace c"
  using trim_prefix [of s] by (auto simp: dropWhile_eq_Cons_conv)

lemma trim_idem [simp]: "trim (trim s) = trim s"
proof -
  have "dropWhile is_whitespace (trim s) = trim s"
    using trim_no_leading [of s] by (cases "trim s") auto
  then show ?thesis
    unfolding trim_def [of "trim s"] by (simp add: trim_def dropWhile_idem)
qed

end
