(* ===== verification/Backend_Capability.thy ===== *)
theory Backend_Capability
  imports Core_Text "HOL-Library.List_Lexorder" "HOL-Library.Char_ord" "HOL-Library.Product_Lexorder"
begin

text \<open>
  Capabilities of packet backends: \<open>crates/backend-manager/src/capabilities.rs\<close> (the capability
  codes, capability sets and requirement checks) and \<open>registry.rs\<close> (the registry of declared
  capabilities). A \<open>HashSet\<close> is the list of its elements in iteration order, without
  duplicates; strings are compared by the lexicographic order of their characters, as Rust does.
\<close>

subsection \<open>Capability codes\<close>

datatype backend_capability =
  Cap_Capture | Cap_Interception | Cap_Filtering | Cap_Inspection | Cap_Direction | Cap_Ipv4 |
  Cap_Ipv6 | Cap_Tcp | Cap_Udp | Cap_Icmp | Cap_IcmpV6 | Cap_NetworkLayer | Cap_AddressMetadata |
  Cap_Modification | Cap_Drop | Cap_Pass | Cap_Reinjection | Cap_QueueControl |
  Cap_HandleLifetime | Cap_ErrorReporting | Cap_L2Capture | Cap_RawEthernet |
  Cap_AdapterEnumeration | Cap_WfpEngineAccess | Cap_WfpFilters | Cap_WfpLayers | Cap_WfpFlows |
  Cap_InterfaceInfo | Cap_RouteInfo | Cap_NeighborInfo | Cap_GatewayInfo | Cap_Diagnostics |
  Cap_Telemetry | Cap_Forwarding | Cap_NatState

primrec cap_sort_key :: "backend_capability \<Rightarrow> u16" where
  "cap_sort_key Cap_Capture = 0"
| "cap_sort_key Cap_Interception = 1"
| "cap_sort_key Cap_Filtering = 2"
| "cap_sort_key Cap_Inspection = 3"
| "cap_sort_key Cap_Direction = 4"
| "cap_sort_key Cap_Ipv4 = 10"
| "cap_sort_key Cap_Ipv6 = 11"
| "cap_sort_key Cap_Tcp = 12"
| "cap_sort_key Cap_Udp = 13"
| "cap_sort_key Cap_Icmp = 14"
| "cap_sort_key Cap_IcmpV6 = 15"
| "cap_sort_key Cap_NetworkLayer = 20"
| "cap_sort_key Cap_AddressMetadata = 21"
| "cap_sort_key Cap_Modification = 30"
| "cap_sort_key Cap_Drop = 31"
| "cap_sort_key Cap_Pass = 32"
| "cap_sort_key Cap_Reinjection = 33"
| "cap_sort_key Cap_QueueControl = 40"
| "cap_sort_key Cap_HandleLifetime = 41"
| "cap_sort_key Cap_ErrorReporting = 42"
| "cap_sort_key Cap_L2Capture = 50"
| "cap_sort_key Cap_RawEthernet = 51"
| "cap_sort_key Cap_AdapterEnumeration = 52"
| "cap_sort_key Cap_WfpEngineAccess = 60"
| "cap_sort_key Cap_WfpFilters = 61"
| "cap_sort_key Cap_WfpLayers = 62"
| "cap_sort_key Cap_WfpFlows = 63"
| "cap_sort_key Cap_InterfaceInfo = 70"
| "cap_sort_key Cap_RouteInfo = 71"
| "cap_sort_key Cap_NeighborInfo = 72"
| "cap_sort_key Cap_GatewayInfo = 73"
| "cap_sort_key Cap_Diagnostics = 80"
| "cap_sort_key Cap_Telemetry = 81"
| "cap_sort_key Cap_Forwarding = 90"
| "cap_sort_key Cap_NatState = 91"

primrec cap_as_str :: "backend_capability \<Rightarrow> string" where
  "cap_as_str Cap_Capture = ''capture''"
| "cap_as_str Cap_Interception = ''interception''"
| "cap_as_str Cap_Filtering = ''filtering''"
| "cap_as_str Cap_Inspection = ''inspection''"
| "cap_as_str Cap_Direction = ''direction''"
| "cap_as_str Cap_Ipv4 = ''ipv4''"
| "cap_as_str Cap_Ipv6 = ''ipv6''"
| "cap_as_str Cap_Tcp = ''tcp''"
| "cap_as_str Cap_Udp = ''udp''"
| "cap_as_str Cap_Icmp = ''icmp''"
| "cap_as_str Cap_IcmpV6 = ''icmpv6''"
| "cap_as_str Cap_NetworkLayer = ''network_layer''"
| "cap_as_str Cap_AddressMetadata = ''address_metadata''"
| "cap_as_str Cap_Modification = ''modification''"
| "cap_as_str Cap_Drop = ''drop''"
| "cap_as_str Cap_Pass = ''pass''"
| "cap_as_str Cap_Reinjection = ''reinjection''"
| "cap_as_str Cap_QueueControl = ''queue_control''"
| "cap_as_str Cap_HandleLifetime = ''handle_lifetime''"
| "cap_as_str Cap_ErrorReporting = ''error_reporting''"
| "cap_as_str Cap_L2Capture = ''l2_capture''"
| "cap_as_str Cap_RawEthernet = ''raw_ethernet''"
| "cap_as_str Cap_AdapterEnumeration = ''adapter_enumeration''"
| "cap_as_str Cap_WfpEngineAccess = ''wfp_engine_access''"
| "cap_as_str Cap_WfpFilters = ''wfp_filters''"
| "cap_as_str Cap_WfpLayers = ''wfp_layers''"
| "cap_as_str Cap_WfpFlows = ''wfp_flows''"
| "cap_as_str Cap_InterfaceInfo = ''interface_info''"
| "cap_as_str Cap_RouteInfo = ''route_info''"
| "cap_as_str Cap_NeighborInfo = ''neighbor_info''"
| "cap_as_str Cap_GatewayInfo = ''gateway_info''"
| "cap_as_str Cap_Diagnostics = ''diagnostics''"
| "cap_as_str Cap_Telemetry = ''telemetry''"
| "cap_as_str Cap_Forwarding = ''forwarding''"
| "cap_as_str Cap_NatState = ''nat_state''"

definition cap_is_observation :: "backend_capability \<Rightarrow> bool" where
  "cap_is_observation c \<longleftrightarrow> c \<in> {
     Cap_Capture, Cap_Interception, Cap_Inspection, Cap_Direction}"

definition cap_is_action :: "backend_capability \<Rightarrow> bool" where
  "cap_is_action c \<longleftrightarrow> c \<in> {
     Cap_Modification, Cap_Drop, Cap_Pass, Cap_Reinjection}"

definition cap_is_engine_forwarding :: "backend_capability \<Rightarrow> bool" where
  "cap_is_engine_forwarding c \<longleftrightarrow> c \<in> {
     Cap_Forwarding}"

definition cap_is_engine_nat_state :: "backend_capability \<Rightarrow> bool" where
  "cap_is_engine_nat_state c \<longleftrightarrow> c \<in> {
     Cap_NatState}"

definition cap_is_protocol :: "backend_capability \<Rightarrow> bool" where
  "cap_is_protocol c \<longleftrightarrow> c \<in> {
     Cap_Ipv4, Cap_Ipv6, Cap_Tcp, Cap_Udp, Cap_Icmp, Cap_IcmpV6, Cap_NetworkLayer, Cap_L2Capture,
     Cap_RawEthernet}"

definition cap_is_network_state :: "backend_capability \<Rightarrow> bool" where
  "cap_is_network_state c \<longleftrightarrow> c \<in> {
     Cap_InterfaceInfo, Cap_RouteInfo, Cap_NeighborInfo, Cap_GatewayInfo, Cap_AdapterEnumeration}"

definition cap_is_diagnostic :: "backend_capability \<Rightarrow> bool" where
  "cap_is_diagnostic c \<longleftrightarrow> c \<in> {
     Cap_Diagnostics, Cap_Telemetry}"

definition cap_from_u16 :: "u16 \<Rightarrow> backend_capability option" where
  "cap_from_u16 v =
     (if v = 0 then Some Cap_Capture
      else if v = 1 then Some Cap_Interception
      else if v = 2 then Some Cap_Filtering
      else if v = 3 then Some Cap_Inspection
      else if v = 4 then Some Cap_Direction
      else if v = 10 then Some Cap_Ipv4
      else if v = 11 then Some Cap_Ipv6
      else if v = 12 then Some Cap_Tcp
      else if v = 13 then Some Cap_Udp
      else if v = 14 then Some Cap_Icmp
      else if v = 15 then Some Cap_IcmpV6
      else if v = 20 then Some Cap_NetworkLayer
      else if v = 21 then Some Cap_AddressMetadata
      else if v = 30 then Some Cap_Modification
      else if v = 31 then Some Cap_Drop
      else if v = 32 then Some Cap_Pass
      else if v = 33 then Some Cap_Reinjection
      else if v = 40 then Some Cap_QueueControl
      else if v = 41 then Some Cap_HandleLifetime
      else if v = 42 then Some Cap_ErrorReporting
      else if v = 50 then Some Cap_L2Capture
      else if v = 51 then Some Cap_RawEthernet
      else if v = 52 then Some Cap_AdapterEnumeration
      else if v = 60 then Some Cap_WfpEngineAccess
      else if v = 61 then Some Cap_WfpFilters
      else if v = 62 then Some Cap_WfpLayers
      else if v = 63 then Some Cap_WfpFlows
      else if v = 70 then Some Cap_InterfaceInfo
      else if v = 71 then Some Cap_RouteInfo
      else if v = 72 then Some Cap_NeighborInfo
      else if v = 73 then Some Cap_GatewayInfo
      else if v = 80 then Some Cap_Diagnostics
      else if v = 81 then Some Cap_Telemetry
      else if v = 90 then Some Cap_Forwarding
      else if v = 91 then Some Cap_NatState
      else None)"

definition cap_all_known :: "backend_capability list" where
  "cap_all_known = [
     Cap_Capture, Cap_Interception, Cap_Filtering, Cap_Inspection, Cap_Direction, Cap_Ipv4,
     Cap_Ipv6, Cap_Tcp, Cap_Udp, Cap_Icmp, Cap_IcmpV6, Cap_NetworkLayer, Cap_AddressMetadata,
     Cap_Modification, Cap_Drop, Cap_Pass, Cap_Reinjection, Cap_QueueControl, Cap_HandleLifetime,
     Cap_ErrorReporting, Cap_L2Capture, Cap_RawEthernet, Cap_AdapterEnumeration,
     Cap_WfpEngineAccess, Cap_WfpFilters, Cap_WfpLayers, Cap_WfpFlows, Cap_InterfaceInfo,
     Cap_RouteInfo, Cap_NeighborInfo, Cap_GatewayInfo, Cap_Diagnostics, Cap_Telemetry,
     Cap_Forwarding, Cap_NatState]"

text \<open>The key that \<open>registry.rs\<close> and \<open>failover.rs\<close> sort by, each with its own copy of this function.\<close>

primrec capability_sort_key :: "backend_capability \<Rightarrow> u8" where
  "capability_sort_key Cap_Capture = 0"
| "capability_sort_key Cap_Interception = 1"
| "capability_sort_key Cap_Filtering = 2"
| "capability_sort_key Cap_Inspection = 3"
| "capability_sort_key Cap_Direction = 4"
| "capability_sort_key Cap_Ipv4 = 5"
| "capability_sort_key Cap_Ipv6 = 6"
| "capability_sort_key Cap_Tcp = 7"
| "capability_sort_key Cap_Udp = 8"
| "capability_sort_key Cap_Icmp = 9"
| "capability_sort_key Cap_IcmpV6 = 10"
| "capability_sort_key Cap_NetworkLayer = 11"
| "capability_sort_key Cap_AddressMetadata = 12"
| "capability_sort_key Cap_Modification = 13"
| "capability_sort_key Cap_Drop = 14"
| "capability_sort_key Cap_Pass = 15"
| "capability_sort_key Cap_Reinjection = 16"
| "capability_sort_key Cap_QueueControl = 17"
| "capability_sort_key Cap_HandleLifetime = 18"
| "capability_sort_key Cap_ErrorReporting = 19"
| "capability_sort_key Cap_L2Capture = 20"
| "capability_sort_key Cap_RawEthernet = 21"
| "capability_sort_key Cap_AdapterEnumeration = 22"
| "capability_sort_key Cap_WfpEngineAccess = 23"
| "capability_sort_key Cap_WfpFilters = 24"
| "capability_sort_key Cap_WfpLayers = 25"
| "capability_sort_key Cap_WfpFlows = 26"
| "capability_sort_key Cap_InterfaceInfo = 27"
| "capability_sort_key Cap_RouteInfo = 28"
| "capability_sort_key Cap_NeighborInfo = 29"
| "capability_sort_key Cap_GatewayInfo = 30"
| "capability_sort_key Cap_Diagnostics = 31"
| "capability_sort_key Cap_Telemetry = 32"
| "capability_sort_key Cap_Forwarding = 33"
| "capability_sort_key Cap_NatState = 34"

subsection \<open>Capability sets and requirements\<close>

type_synonym capability_set = "backend_capability list"

definition hs_insert :: "'a \<Rightarrow> 'a list \<Rightarrow> 'a list" where
  "hs_insert x s = (if x \<in> set s then s else s @ [x])"

definition capability_set_from :: "backend_capability list \<Rightarrow> capability_set" where
  "capability_set_from cs = fold hs_insert cs []"

definition capability_set_insert :: "backend_capability \<Rightarrow> capability_set \<Rightarrow> bool \<times> capability_set" where
  "capability_set_insert c s = (c \<notin> set s, hs_insert c s)"

definition capability_set_remove :: "backend_capability \<Rightarrow> capability_set \<Rightarrow> bool \<times> capability_set" where
  "capability_set_remove c s = (c \<in> set s, removeAll c s)"

definition capability_set_contains :: "backend_capability \<Rightarrow> capability_set \<Rightarrow> bool" where
  "capability_set_contains c s \<longleftrightarrow> c \<in> set s"

definition capability_set_to_vec :: "capability_set \<Rightarrow> backend_capability list" where
  "capability_set_to_vec s = sort_key cap_sort_key s"

definition supports_all :: "backend_capability list \<Rightarrow> capability_set \<Rightarrow> bool" where
  "supports_all required s \<longleftrightarrow> list_all (\<lambda>c. capability_set_contains c s) required"

definition supports_any :: "backend_capability list \<Rightarrow> capability_set \<Rightarrow> bool" where
  "supports_any required s \<longleftrightarrow> list_ex (\<lambda>c. capability_set_contains c s) required"

record capability_requirement =
  cr_capability :: backend_capability
  cr_required :: bool

definition requirement_required :: "backend_capability \<Rightarrow> capability_requirement" where
  "requirement_required c = \<lparr> cr_capability = c, cr_required = True \<rparr>"

definition requirement_optional :: "backend_capability \<Rightarrow> capability_requirement" where
  "requirement_optional c = \<lparr> cr_capability = c, cr_required = False \<rparr>"

record capability_check =
  cc_supported :: bool
  cc_missing_required :: "backend_capability list"
  cc_missing_optional :: "backend_capability list"

definition is_satisfied :: "capability_check \<Rightarrow> bool" where
  "is_satisfied c \<longleftrightarrow> cc_missing_required c = []"

definition has_optional_degradation :: "capability_check \<Rightarrow> bool" where
  "has_optional_degradation c \<longleftrightarrow> cc_missing_optional c \<noteq> []"

fun missing_loop ::
  "capability_set \<Rightarrow> capability_requirement list \<Rightarrow> backend_capability list \<Rightarrow> backend_capability list \<Rightarrow>
   backend_capability list \<times> backend_capability list" where
  "missing_loop available [] req opt = (req, opt)"
| "missing_loop available (r # rs) req opt =
     (if capability_set_contains (cr_capability r) available then missing_loop available rs req opt
      else if cr_required r then missing_loop available rs (req @ [cr_capability r]) opt
      else missing_loop available rs req (opt @ [cr_capability r]))"

definition check_requirements :: "capability_set \<Rightarrow> capability_requirement list \<Rightarrow> capability_check" where
  "check_requirements available requirements =
     (case missing_loop available requirements [] [] of (req, opt) \<Rightarrow>
        \<lparr> cc_supported = (sort_key cap_sort_key req = []),
          cc_missing_required = sort_key cap_sort_key req,
          cc_missing_optional = sort_key cap_sort_key opt \<rparr>)"

subsection \<open>The registry of declared capabilities (\<open>registry.rs\<close>)\<close>

record capability_registry =
  rg_capabilities :: "(string, backend_capability list) hash_map"
  rg_poisoned :: bool

definition registry_new :: capability_registry where
  "registry_new = \<lparr> rg_capabilities = [], rg_poisoned = False \<rparr>"

definition normalize_backend_name :: "string \<Rightarrow> string" where
  "normalize_backend_name name = trim name"

definition sorted_capabilities :: "backend_capability list \<Rightarrow> backend_capability list" where
  "sorted_capabilities cs = sort_key capability_sort_key cs"

definition register_backend ::
  "string \<Rightarrow> backend_capability list \<Rightarrow> capability_registry \<Rightarrow> bool \<times> capability_registry" where
  "register_backend backend_name capabilities r =
     (let name = normalize_backend_name backend_name in
      if name = [] then (False, r)
      else if rg_poisoned r then (False, r)
      else (True, r\<lparr> rg_capabilities := hm_insert name (fold hs_insert capabilities []) (rg_capabilities r) \<rparr>))"

definition unregister_backend :: "string \<Rightarrow> capability_registry \<Rightarrow> bool \<times> capability_registry" where
  "unregister_backend backend_name r =
     (let name = normalize_backend_name backend_name in
      if name = [] then (False, r)
      else if rg_poisoned r then (False, r)
      else (hm_contains name (rg_capabilities r), r\<lparr> rg_capabilities := hm_remove name (rg_capabilities r) \<rparr>))"

definition contains_backend :: "string \<Rightarrow> capability_registry \<Rightarrow> bool" where
  "contains_backend backend_name r =
     (let name = normalize_backend_name backend_name in
      name \<noteq> [] \<and> \<not> rg_poisoned r \<and> hm_contains name (rg_capabilities r))"

definition registry_supports :: "string \<Rightarrow> backend_capability \<Rightarrow> capability_registry \<Rightarrow> bool" where
  "registry_supports backend_name capability r =
     (let name = normalize_backend_name backend_name in
      if name = [] then False
      else if rg_poisoned r then False
      else case hm_get name (rg_capabilities r) of None \<Rightarrow> False | Some cs \<Rightarrow> capability \<in> set cs)"

definition registry_capabilities :: "string \<Rightarrow> capability_registry \<Rightarrow> backend_capability list" where
  "registry_capabilities backend_name r =
     (let name = normalize_backend_name backend_name in
      if name = [] then []
      else if rg_poisoned r then []
      else case hm_get name (rg_capabilities r) of None \<Rightarrow> [] | Some cs \<Rightarrow> sorted_capabilities cs)"

definition backends_with :: "backend_capability \<Rightarrow> capability_registry \<Rightarrow> string list" where
  "backends_with capability r =
     (if rg_poisoned r then []
      else sort (map fst (filter (\<lambda>(name, cs). capability \<in> set cs) (rg_capabilities r))))"

definition backend_count :: "capability_registry \<Rightarrow> usize" where
  "backend_count r = (if rg_poisoned r then 0 else length (rg_capabilities r))"

definition capability_count :: "string \<Rightarrow> capability_registry \<Rightarrow> usize" where
  "capability_count backend_name r =
     (let name = normalize_backend_name backend_name in
      if name = [] then 0
      else if rg_poisoned r then 0
      else case hm_get name (rg_capabilities r) of None \<Rightarrow> 0 | Some cs \<Rightarrow> length cs)"

definition registry_clear :: "capability_registry \<Rightarrow> capability_registry" where
  "registry_clear r = (if rg_poisoned r then r else r\<lparr> rg_capabilities := [] \<rparr>)"

definition registry_backend_names :: "capability_registry \<Rightarrow> string list" where
  "registry_backend_names r = (if rg_poisoned r then [] else sort (hm_keys (rg_capabilities r)))"

definition registry_snapshot :: "capability_registry \<Rightarrow> (string, backend_capability list) hash_map" where
  "registry_snapshot r =
     (if rg_poisoned r then [] else map (\<lambda>(name, cs). (name, sorted_capabilities cs)) (rg_capabilities r))"

subsection \<open>Codes and orders\<close>

lemma cap_from_u16_sort_key [simp]: "cap_from_u16 (cap_sort_key c) = Some c"
  by (cases c) (simp_all add: cap_from_u16_def)

lemma cap_from_u16_Some: "cap_from_u16 v = Some c \<Longrightarrow> v = cap_sort_key c"
  by (auto simp: cap_from_u16_def split: if_splits)

lemma cap_sort_key_inject [simp]: "cap_sort_key a = cap_sort_key b \<longleftrightarrow> a = b"
  using cap_from_u16_sort_key by (metis option.inject)

lemma cap_all_known_complete: "c \<in> set cap_all_known"
  by (cases c) (simp_all add: cap_all_known_def)

lemma cap_orders_agree_on_known:
  "sorted_wrt (\<lambda>a b. cap_sort_key a < cap_sort_key b \<and> capability_sort_key a < capability_sort_key b) cap_all_known"
  by (simp add: cap_all_known_def)

lemma cap_orders_agree: "capability_sort_key a \<le> capability_sort_key b \<longleftrightarrow> cap_sort_key a \<le> cap_sort_key b"
proof -
  obtain i j where ij: "i < length cap_all_known" "j < length cap_all_known" "a = cap_all_known ! i" "b = cap_all_known ! j"
    using cap_all_known_complete by (metis in_set_conv_nth)
  consider "i < j" | "i = j" | "j < i" by linarith
  then show ?thesis
    using ij sorted_wrt_nth_less [OF cap_orders_agree_on_known, of i j]
      sorted_wrt_nth_less [OF cap_orders_agree_on_known, of j i]
    by cases auto
qed

lemma sort_key_cong_order:
  assumes "\<And>a b. f a \<le> f b \<longleftrightarrow> g a \<le> g b"
  shows "sort_key f xs = sort_key g xs"
proof -
  have "insort_key f x ys = insort_key g x ys" for x ys
    by (induction ys) (auto simp: assms)
  then show ?thesis by (induction xs) auto
qed

lemma sort_key_Nil_iff [simp]: "sort_key f xs = [] \<longleftrightarrow> xs = []"
  by (metis length_0_conv length_sort)

lemma sorted_capabilities_to_vec: "sorted_capabilities = capability_set_to_vec"
  using sort_key_cong_order [of capability_sort_key cap_sort_key, OF cap_orders_agree]
  by (auto simp: sorted_capabilities_def capability_set_to_vec_def)

lemma set_hs_insert [simp]: "set (hs_insert x s) = insert x (set s)"
  by (auto simp: hs_insert_def)

lemma distinct_hs_insert [simp]: "distinct s \<Longrightarrow> distinct (hs_insert x s)"
  by (simp add: hs_insert_def)

lemma set_fold_hs_insert [simp]: "set (fold hs_insert xs s) = set xs \<union> set s"
  by (induction xs arbitrary: s) auto

lemma distinct_fold_hs_insert [simp]: "distinct s \<Longrightarrow> distinct (fold hs_insert xs s)"
  by (induction xs arbitrary: s) auto

text \<open>
  C24: The numeric capability codes are a faithful encoding: a code decodes to a capability
  exactly if it is that capability's code, the list of known capabilities holds each one once
  in the order of the codes, and a capability set is listed in the order of the codes whether
  it is listed by the set itself or by the registry, which sorts by a key of its own.
\<close>

theorem capability_codes_faithful:
  "(cap_from_u16 v = Some c \<longleftrightarrow> v = cap_sort_key c) \<and>
   set cap_all_known = UNIV \<and> distinct cap_all_known \<and> sorted (map cap_sort_key cap_all_known) \<and>
   sorted_capabilities cs = capability_set_to_vec cs \<and>
   set (capability_set_to_vec cs) = set cs \<and> sorted (map cap_sort_key (capability_set_to_vec cs))"
  by (auto simp: cap_all_known_complete sorted_capabilities_to_vec capability_set_to_vec_def
      dest: cap_from_u16_Some) (simp_all add: cap_all_known_def)

subsection \<open>Requirement checks\<close>

lemma missing_loop_eq:
  "missing_loop available rs req opt =
     (req @ map cr_capability (filter (\<lambda>r. cr_capability r \<notin> set available \<and> cr_required r) rs),
      opt @ map cr_capability (filter (\<lambda>r. cr_capability r \<notin> set available \<and> \<not> cr_required r) rs))"
  by (induction available rs req opt rule: missing_loop.induct) (simp_all add: capability_set_contains_def)

lemma is_satisfied_check:
  "is_satisfied (check_requirements available rs) \<longleftrightarrow>
     (\<forall>r \<in> set rs. cr_required r \<longrightarrow> cr_capability r \<in> set available)"
  by (auto simp: is_satisfied_def check_requirements_def missing_loop_eq filter_empty_conv)

text \<open>
  The verdict of a requirement check: it is supported exactly if every required capability is
  available, optional ones never block it, and the two lists hold exactly the missing ones in
  the order of the capability codes.
\<close>

lemma check_requirements_exact:
  "check_requirements available rs = c \<Longrightarrow>
     (cc_supported c \<longleftrightarrow> supports_all (map cr_capability (filter cr_required rs)) available) \<and>
     cc_supported c = is_satisfied c \<and>
     set (cc_missing_required c) = {cr_capability r | r. r \<in> set rs \<and> cr_required r} - set available \<and>
     set (cc_missing_optional c) = {cr_capability r | r. r \<in> set rs \<and> \<not> cr_required r} - set available \<and>
     sorted (map cap_sort_key (cc_missing_required c)) \<and> sorted (map cap_sort_key (cc_missing_optional c))"
  by (auto simp: check_requirements_def missing_loop_eq supports_all_def capability_set_contains_def list_all_iff
      is_satisfied_def filter_empty_conv)

subsection \<open>The registry as a map\<close>

datatype rg_op = Rg_Register string "backend_capability list" | Rg_Unregister string | Rg_Clear

primrec rg_exec :: "rg_op \<Rightarrow> capability_registry \<Rightarrow> capability_registry" where
  "rg_exec (Rg_Register n cs) r = snd (register_backend n cs r)"
| "rg_exec (Rg_Unregister n) r = snd (unregister_backend n r)"
| "rg_exec Rg_Clear r = registry_clear r"

text \<open>The specification: a map from trimmed, non-empty names to sets of capabilities.\<close>

primrec rg_spec :: "rg_op \<Rightarrow> (string \<rightharpoonup> backend_capability set) \<Rightarrow> (string \<rightharpoonup> backend_capability set)" where
  "rg_spec (Rg_Register n cs) m = (if trim n = [] then m else m(trim n \<mapsto> set cs))"
| "rg_spec (Rg_Unregister n) m = m(trim n := None)"
| "rg_spec Rg_Clear m = Map.empty"

definition rg_abs :: "capability_registry \<Rightarrow> (string \<rightharpoonup> backend_capability set)" where
  "rg_abs r = (\<lambda>n. map_option set (hm_get n (rg_capabilities r)))"

definition rg_inv :: "capability_registry \<Rightarrow> bool" where
  "rg_inv r \<longleftrightarrow> hm_wf (rg_capabilities r) \<and> \<not> rg_poisoned r \<and> hm_get [] (rg_capabilities r) = None"

lemmas rg_defs = register_backend_def unregister_backend_def registry_clear_def normalize_backend_name_def Let_def

lemma rg_exec_refines:
  "rg_inv r \<Longrightarrow> rg_inv (rg_exec op r) \<and> rg_abs (rg_exec op r) = rg_spec op (rg_abs r)"
  by (cases op) (auto simp: rg_inv_def rg_abs_def rg_defs hm fun_eq_iff)

lemma rg_run_refines:
  "rg_inv r \<Longrightarrow> rg_inv (fold rg_exec ops r) \<and> rg_abs (fold rg_exec ops r) = fold rg_spec ops (rg_abs r)"
  by (induction ops arbitrary: r) (simp_all add: rg_exec_refines)

text \<open>
  The capability registry implements a map from trimmed, non-empty backend names to
  capability sets. After any sequence of registrations, removals and clears, every query
  answers from that map: whether a backend is known, whether it declares a capability, the
  capabilities it declares, and the backends declaring a given one, in ascending order and
  without repetition.
\<close>

lemma registry_refines_map:
  "let r = fold rg_exec ops registry_new; m = fold rg_spec ops Map.empty in
     (contains_backend n r \<longleftrightarrow> m (trim n) \<noteq> None) \<and>
     (registry_supports n c r \<longleftrightarrow> (\<exists>s. m (trim n) = Some s \<and> c \<in> s)) \<and>
     set (registry_capabilities n r) = (case m (trim n) of None \<Rightarrow> {} | Some s \<Rightarrow> s) \<and>
     set (backends_with c r) = {b. \<exists>s. m b = Some s \<and> c \<in> s} \<and>
     sorted (backends_with c r) \<and> distinct (backends_with c r)"
proof -
  define r where "r = fold rg_exec ops registry_new"
  have "rg_inv registry_new" "rg_abs registry_new = Map.empty"
    by (simp_all add: registry_new_def rg_inv_def rg_abs_def fun_eq_iff)
  then have inv: "rg_inv r" and abs: "fold rg_spec ops Map.empty = rg_abs r"
    using rg_run_refines [of registry_new ops] by (simp_all add: r_def)
  then have wf: "hm_wf (rg_capabilities r)" "\<not> rg_poisoned r" "hm_get [] (rg_capabilities r) = None"
    by (simp_all add: rg_inv_def)
  have "set (backends_with c r) = {b. \<exists>s. rg_abs r b = Some s \<and> c \<in> s}"
    using wf by (force simp: backends_with_def rg_abs_def hm_get_in_set)
  moreover have "distinct (backends_with c r)"
    using wf by (simp add: backends_with_def hm_wf_def distinct_map_filter)
  moreover have "contains_backend n r \<longleftrightarrow> rg_abs r (trim n) \<noteq> None"
    "registry_supports n c r \<longleftrightarrow> (\<exists>s. rg_abs r (trim n) = Some s \<and> c \<in> s)"
    "set (registry_capabilities n r) = (case rg_abs r (trim n) of None \<Rightarrow> {} | Some s \<Rightarrow> s)"
    using wf
    by (auto simp: contains_backend_def registry_supports_def registry_capabilities_def normalize_backend_name_def
        rg_abs_def sorted_capabilities_def Let_def split: option.splits)
  ultimately show ?thesis
    using wf by (simp add: abs flip: r_def) (simp add: backends_with_def)
qed

end
