(* ===== verification/Backend_Health.thy ===== *)
theory Backend_Health
  imports Backend_Capability
begin

text \<open>
  The state of one backend: \<open>crates/backend-manager/src/backend.rs\<close> (lifecycle, descriptor,
  runtime state) and \<open>health.rs\<close> (the health monitor with its failure and recovery
  thresholds). Clock readings are arguments.
\<close>

subsection \<open>Lifecycle, descriptor and runtime state (\<open>backend.rs\<close>)\<close>

datatype backend_lifecycle =
  Bl_Disabled | Bl_Starting | Bl_Running | Bl_Degraded | Bl_Failed | Bl_Stopping | Bl_Stopped

definition bl_is_active :: "backend_lifecycle \<Rightarrow> bool" where
  "bl_is_active s \<longleftrightarrow> s \<in> {Bl_Starting, Bl_Running, Bl_Degraded, Bl_Stopping}"

definition bl_is_terminal :: "backend_lifecycle \<Rightarrow> bool" where
  "bl_is_terminal s \<longleftrightarrow> s \<in> {Bl_Stopped, Bl_Disabled}"

definition bl_can_start :: "backend_lifecycle \<Rightarrow> bool" where
  "bl_can_start s \<longleftrightarrow> s \<in> {Bl_Disabled, Bl_Stopped, Bl_Failed}"

definition bl_can_stop :: "backend_lifecycle \<Rightarrow> bool" where
  "bl_can_stop s \<longleftrightarrow> s \<in> {Bl_Starting, Bl_Running, Bl_Degraded}"

definition bl_can_transition_to :: "backend_lifecycle \<Rightarrow> backend_lifecycle \<Rightarrow> bool" where
  "bl_can_transition_to s t \<longleftrightarrow> s = t \<or>
     (s, t) \<in> {(Bl_Disabled, Bl_Starting),
       (Bl_Starting, Bl_Running), (Bl_Starting, Bl_Degraded), (Bl_Starting, Bl_Failed), (Bl_Starting, Bl_Stopping),
       (Bl_Running, Bl_Degraded), (Bl_Running, Bl_Stopping), (Bl_Running, Bl_Failed),
       (Bl_Degraded, Bl_Running), (Bl_Degraded, Bl_Stopping), (Bl_Degraded, Bl_Failed),
       (Bl_Stopping, Bl_Stopped), (Bl_Stopping, Bl_Failed),
       (Bl_Failed, Bl_Starting), (Bl_Failed, Bl_Stopped),
       (Bl_Stopped, Bl_Starting), (Bl_Stopped, Bl_Disabled)}"

definition bl_validate_transition :: "backend_lifecycle \<Rightarrow> backend_lifecycle \<Rightarrow> unit engine_result" where
  "bl_validate_transition s t =
     (if bl_can_transition_to s t then Inr () else Inl (Error_Code EC_InvalidStateTransition))"

datatype backend_role = Role_Primary | Role_Supplementary

record backend_descriptor =
  bd_name :: string
  bd_version :: string
  bd_description :: string
  bd_capabilities :: capability_set
  bd_required :: bool
  bd_role :: backend_role

definition backend_descriptor_new ::
  "string \<Rightarrow> string \<Rightarrow> string \<Rightarrow> capability_set \<Rightarrow> backend_descriptor" where
  "backend_descriptor_new name version description capabilities =
     \<lparr> bd_name = trim name, bd_version = trim version, bd_description = trim description,
       bd_capabilities = capabilities, bd_required = False, bd_role = Role_Supplementary \<rparr>"

definition descriptor_role :: "backend_role \<Rightarrow> backend_descriptor \<Rightarrow> backend_descriptor" where
  "descriptor_role role d = d\<lparr> bd_role := role \<rparr>"

definition descriptor_supports :: "backend_capability \<Rightarrow> backend_descriptor \<Rightarrow> bool" where
  "descriptor_supports c d \<longleftrightarrow> capability_set_contains c (bd_capabilities d)"

record backend_runtime_state =
  br_descriptor :: backend_descriptor
  br_lifecycle :: backend_lifecycle
  br_error_count :: u64
  br_last_native_error :: "int option"

definition runtime_state_new :: "backend_descriptor \<Rightarrow> backend_runtime_state" where
  "runtime_state_new d =
     \<lparr> br_descriptor = d, br_lifecycle = Bl_Stopped, br_error_count = 0, br_last_native_error = None \<rparr>"

definition br_transition ::
  "backend_lifecycle \<Rightarrow> backend_runtime_state \<Rightarrow> unit engine_result \<times> backend_runtime_state" where
  "br_transition target s = (case bl_validate_transition (br_lifecycle s) target of
      Inl e \<Rightarrow> (Inl e, s)
    | Inr _ \<Rightarrow> (Inr (), s\<lparr> br_lifecycle := target \<rparr>))"

definition br_record_error :: "int option \<Rightarrow> backend_runtime_state \<Rightarrow> backend_runtime_state" where
  "br_record_error native_error s =
     s\<lparr> br_error_count := saturating_add (br_error_count s) 1, br_last_native_error := native_error \<rparr>"

definition br_clear_errors :: "backend_runtime_state \<Rightarrow> backend_runtime_state" where
  "br_clear_errors s = s\<lparr> br_error_count := 0, br_last_native_error := None \<rparr>"

definition br_is_available :: "backend_runtime_state \<Rightarrow> bool" where
  "br_is_available s \<longleftrightarrow> br_lifecycle s \<in> {Bl_Running, Bl_Degraded}"

definition br_supports :: "backend_capability \<Rightarrow> backend_runtime_state \<Rightarrow> bool" where
  "br_supports c s \<longleftrightarrow> descriptor_supports c (br_descriptor s)"

subsection \<open>The health monitor (\<open>health.rs\<close>)\<close>

datatype backend_health = Health_Unknown | Health_Healthy | Health_Degraded | Health_Unhealthy

definition health_is_available :: "backend_health \<Rightarrow> bool" where
  "health_is_available h \<longleftrightarrow> h \<in> {Health_Healthy, Health_Degraded}"

record health_monitor =
  mon_failure_threshold :: u32
  mon_recovery_threshold :: u32
  mon_failures :: u32
  mon_recoveries :: u32
  mon_health :: backend_health
  mon_last_check :: "u64 option"
  mon_last_failure :: "u64 option"
  mon_last_recovery :: "u64 option"

definition health_monitor_new :: "u32 \<Rightarrow> u32 \<Rightarrow> health_monitor" where
  "health_monitor_new failure_threshold recovery_threshold =
     \<lparr> mon_failure_threshold = max failure_threshold 1, mon_recovery_threshold = max recovery_threshold 1,
       mon_failures = 0, mon_recoveries = 0, mon_health = Health_Unknown,
       mon_last_check = None, mon_last_failure = None, mon_last_recovery = None \<rparr>"

definition health_with_defaults :: health_monitor where
  "health_with_defaults = health_monitor_new 3 2"

definition record_success :: "u64 \<Rightarrow> health_monitor \<Rightarrow> backend_health \<times> health_monitor" where
  "record_success now m =
     (let m1 = m\<lparr> mon_last_check := Some now, mon_last_recovery := Some now, mon_failures := 0 \<rparr>;
          m2 = (case mon_health m1 of
              Health_Unknown \<Rightarrow> m1\<lparr> mon_recoveries := 1, mon_health := Health_Healthy \<rparr>
            | Health_Healthy \<Rightarrow>
                m1\<lparr> mon_recoveries := saturating_add (mon_recoveries m1) 1, mon_health := Health_Healthy \<rparr>
            | _ \<Rightarrow>
                let m' = m1\<lparr> mon_recoveries := saturating_add (mon_recoveries m1) 1 \<rparr> in
                if mon_recoveries m' \<ge> mon_recovery_threshold m' then m'\<lparr> mon_health := Health_Healthy \<rparr>
                else m'\<lparr> mon_health := Health_Degraded \<rparr>)
      in (mon_health m2, m2))"

definition record_failure :: "u64 \<Rightarrow> health_monitor \<Rightarrow> backend_health \<times> health_monitor" where
  "record_failure now m =
     (let m1 = m\<lparr> mon_last_check := Some now, mon_last_failure := Some now, mon_recoveries := 0,
                  mon_failures := saturating_add (mon_failures m) 1 \<rparr>;
          m2 = (if mon_failures m1 \<ge> mon_failure_threshold m1 then m1\<lparr> mon_health := Health_Unhealthy \<rparr>
                else m1\<lparr> mon_health := Health_Degraded \<rparr>)
      in (mon_health m2, m2))"

definition health_reset :: "health_monitor \<Rightarrow> health_monitor" where
  "health_reset m = m\<lparr> mon_failures := 0, mon_recoveries := 0, mon_health := Health_Unknown,
     mon_last_check := None, mon_last_failure := None, mon_last_recovery := None \<rparr>"

definition force_health :: "backend_health \<Rightarrow> health_monitor \<Rightarrow> health_monitor" where
  "force_health h m = m\<lparr> mon_health := h, mon_failures := 0, mon_recoveries := 0 \<rparr>"

definition checked_recently :: "u64 \<Rightarrow> u64 \<Rightarrow> health_monitor \<Rightarrow> bool" where
  "checked_recently now max_age m = (case mon_last_check m of
      Some at \<Rightarrow> saturating_sub now at \<le> max_age
    | None \<Rightarrow> False)"

subsection \<open>Hysteresis\<close>

text \<open>
  The specification reads the health off the observations alone: the length of the run of equal
  observations at the end of the history, against the threshold for that kind.
\<close>

definition trailing :: "bool \<Rightarrow> bool list \<Rightarrow> nat" where
  "trailing b obs = length (takeWhile (\<lambda>x. x = b) (rev obs))"

definition health_spec :: "u32 \<Rightarrow> u32 \<Rightarrow> bool list \<Rightarrow> backend_health" where
  "health_spec ft rt obs =
     (if obs = [] then Health_Unknown
      else if \<not> last obs then
        (if unat (max ft 1) \<le> trailing False obs then Health_Unhealthy else Health_Degraded)
      else if False \<notin> set obs \<or> unat (max rt 1) \<le> trailing True obs then Health_Healthy
      else Health_Degraded)"

definition observe :: "bool \<times> u64 \<Rightarrow> health_monitor \<Rightarrow> health_monitor" where
  "observe ob m = (if fst ob then snd (record_success (snd ob) m) else snd (record_failure (snd ob) m))"

definition counts_up_to_max :: "u32 \<Rightarrow> nat \<Rightarrow> bool" where
  "counts_up_to_max w n \<longleftrightarrow> unat w = min (2 ^ 32 - 1) n"

definition hmon_inv :: "u32 \<Rightarrow> u32 \<Rightarrow> bool list \<Rightarrow> health_monitor \<Rightarrow> bool" where
  "hmon_inv ft rt obs m \<longleftrightarrow>
     mon_failure_threshold m = max ft 1 \<and> mon_recovery_threshold m = max rt 1 \<and>
     mon_health m = health_spec ft rt obs \<and>
     counts_up_to_max (mon_failures m) (trailing False obs) \<and>
     counts_up_to_max (mon_recoveries m) (trailing True obs)"

lemma trailing_Nil [simp]: "trailing b [] = 0"
  by (simp add: trailing_def)

lemma trailing_snoc [simp]: "trailing b (obs @ [x]) = (if x = b then Suc (trailing b obs) else 0)"
  by (simp add: trailing_def)

lemma trailing_single [simp]: "trailing b [x] = (if x = b then Suc 0 else 0)"
  using trailing_snoc [of b "[]" x] by simp

lemma counts_zero [simp]: "counts_up_to_max 0 0" "counts_up_to_max 1 (Suc 0)"
  by (simp_all add: counts_up_to_max_def)

lemma counts_saturating: "counts_up_to_max w n \<Longrightarrow> counts_up_to_max (saturating_add w 1) (Suc n)"
  by (simp add: counts_up_to_max_def unat_saturating_add min_def)

lemma counts_reaches: "counts_up_to_max w n \<Longrightarrow> t \<le> w \<longleftrightarrow> unat t \<le> n"
  using unsigned_less [of t, where ?'a = nat] by (auto simp: counts_up_to_max_def word_le_nat_alt)

lemma hmon_inv_failure:
  assumes "hmon_inv ft rt obs m"
  shows "hmon_inv ft rt (obs @ [False]) (snd (record_failure now m))"
  using assms counts_saturating [of "mon_failures m" "trailing False obs"]
    counts_reaches [of "saturating_add (mon_failures m) 1" "Suc (trailing False obs)" "max ft 1"]
  by (simp add: hmon_inv_def record_failure_def health_spec_def Let_def)

lemma hmon_inv_success:
  assumes "hmon_inv ft rt obs m"
  shows "hmon_inv ft rt (obs @ [True]) (snd (record_success now m))"
proof -
  have sat: "counts_up_to_max (saturating_add (mon_recoveries m) 1) (Suc (trailing True obs))"
    using assms counts_saturating by (simp add: hmon_inv_def)
  have False_in: "obs \<noteq> [] \<Longrightarrow> \<not> last obs \<Longrightarrow> False \<in> set obs"
    by (metis last_in_set)
  show ?thesis
  proof (cases "mon_health m")
    case Health_Unknown
    then have "obs = []" using assms by (auto simp: hmon_inv_def health_spec_def split: if_splits)
    then show ?thesis
      using assms Health_Unknown by (simp add: hmon_inv_def record_success_def health_spec_def)
  next
    case Health_Healthy
    then have "obs \<noteq> []" "False \<notin> set obs \<or> unat (max rt 1) \<le> Suc (trailing True obs)"
      using assms by (auto simp: hmon_inv_def health_spec_def split: if_splits)
    then show ?thesis
      using assms Health_Healthy sat by (auto simp: hmon_inv_def record_success_def health_spec_def)
  next
    case Health_Degraded
    then have "False \<in> set obs"
      using assms False_in by (auto simp: hmon_inv_def health_spec_def split: if_splits)
    then show ?thesis
      using assms Health_Degraded sat counts_reaches [OF sat, of "max rt 1"]
      by (simp add: hmon_inv_def record_success_def health_spec_def Let_def)
  next
    case Health_Unhealthy
    then have "False \<in> set obs"
      using assms False_in by (auto simp: hmon_inv_def health_spec_def split: if_splits)
    then show ?thesis
      using assms Health_Unhealthy sat counts_reaches [OF sat, of "max rt 1"]
      by (simp add: hmon_inv_def record_success_def health_spec_def Let_def)
  qed
qed

lemma hmon_inv_run:
  "hmon_inv ft rt obs m \<Longrightarrow> hmon_inv ft rt (obs @ map fst history) (fold observe history m)"
proof (induction history arbitrary: obs m)
  case (Cons ob history)
  have "hmon_inv ft rt (obs @ [fst ob]) (observe ob m)"
    using Cons.prems hmon_inv_success [of ft rt obs m "snd ob"] hmon_inv_failure [of ft rt obs m "snd ob"]
    by (cases "fst ob") (simp_all add: observe_def)
  from Cons.IH [OF this] show ?case by simp
qed simp

text \<open>
  C23: The health monitor is a function of the run of observations at the end of the history. With
  failure threshold \<open>ft\<close> and recovery threshold \<open>rt\<close> (each at least one): without observations
  the health is unknown; after a failure it is unhealthy exactly if the last \<open>ft\<close> or more
  observations failed, and degraded otherwise; after a success it is healthy exactly if there
  never was a failure or the last \<open>rt\<close> or more observations succeeded, and degraded otherwise.
  Saturation of the counters never changes the verdict.
\<close>

theorem health_hysteresis:
  "mon_health (fold observe history (health_monitor_new ft rt)) = health_spec ft rt (map fst history)"
proof -
  have "hmon_inv ft rt [] (health_monitor_new ft rt)"
    by (simp add: hmon_inv_def health_monitor_new_def health_spec_def)
  from hmon_inv_run [OF this, of history] show ?thesis by (simp add: hmon_inv_def)
qed

end
