(* ===== verification/Backend_Failover.thy ===== *)
theory Backend_Failover
  imports Backend_Health
begin

text \<open>
  The fail-over coordinator of \<open>crates/backend-manager/src/failover.rs\<close>: backends with a
  priority and capabilities, the active selection and its state.
\<close>

subsection \<open>State and operations\<close>

datatype failover_state = Fo_Disabled | Fo_Ready | Fo_Active | Fo_Degraded | Fo_Failed

definition fo_is_available :: "failover_state \<Rightarrow> bool" where
  "fo_is_available s \<longleftrightarrow> s \<in> {Fo_Ready, Fo_Active, Fo_Degraded}"

definition fo_can_activate :: "failover_state \<Rightarrow> bool" where
  "fo_can_activate s \<longleftrightarrow> s \<in> {Fo_Ready, Fo_Degraded}"

record failover_backend =
  fb_name :: string
  fb_priority :: u32
  fb_capabilities :: "backend_capability list"

definition failover_backend_new :: "string \<Rightarrow> u32 \<Rightarrow> failover_backend option" where
  "failover_backend_new name priority =
     (let name = trim name in
      if name = [] then None
      else Some \<lparr> fb_name = name, fb_priority = priority, fb_capabilities = [] \<rparr>)"

definition fb_add_capability :: "backend_capability \<Rightarrow> failover_backend \<Rightarrow> failover_backend" where
  "fb_add_capability c b =
     (if c \<notin> set (fb_capabilities b)
      then b\<lparr> fb_capabilities := sort_key capability_sort_key (fb_capabilities b @ [c]) \<rparr> else b)"

definition fb_supports :: "backend_capability \<Rightarrow> failover_backend \<Rightarrow> bool" where
  "fb_supports c b \<longleftrightarrow> c \<in> set (fb_capabilities b)"

datatype failover_error =
  Fe_CapabilityUnavailable | Fe_NoBackendAvailable | Fe_InvalidBackend | Fe_InvalidState | Fe_AlreadyActive

record failover_manager =
  fo_backends :: "failover_backend list"
  fo_active_backend :: "string option"
  fo_state :: failover_state
  fo_capability_index :: "(string, backend_capability list) hash_map"

definition failover_manager_new :: failover_manager where
  "failover_manager_new =
     \<lparr> fo_backends = [], fo_active_backend = None, fo_state = Fo_Ready, fo_capability_index = [] \<rparr>"

text \<open>
  The comparison by priority, then by name. \<open>sort_by\<close> with it is the stable sort by the pair of
  both.
\<close>

definition fb_order :: "failover_backend \<Rightarrow> failover_backend \<Rightarrow> ordering" where
  "fb_order a b = then_cmp (cmp_by fb_priority a b) (cmp_by fb_name a b)"

definition fb_key :: "failover_backend \<Rightarrow> u32 \<times> string" where
  "fb_key b = (fb_priority b, fb_name b)"

definition sort_by_priority :: "failover_manager \<Rightarrow> failover_manager" where
  "sort_by_priority m = m\<lparr> fo_backends := sort_key fb_key (fo_backends m) \<rparr>"

definition fo_register :: "failover_backend \<Rightarrow> failover_manager \<Rightarrow> (failover_error + unit) \<times> failover_manager" where
  "fo_register b m =
     (if trim (fb_name b) = [] then (Inl Fe_InvalidBackend, m)
      else if list_ex (\<lambda>x. fb_name x = fb_name b) (fo_backends m) then (Inl Fe_InvalidBackend, m)
      else let m1 = sort_by_priority (m\<lparr> fo_backends := fo_backends m @ [b],
                 fo_capability_index := hm_insert (fb_name b) (fb_capabilities b) (fo_capability_index m) \<rparr>) in
        (Inr (), if fo_state m1 = Fo_Failed then m1\<lparr> fo_state := Fo_Ready \<rparr> else m1))"

text \<open>\<open>backends.remove(position)\<close> of the first backend with the name.\<close>

fun remove_named :: "string \<Rightarrow> failover_backend list \<Rightarrow> failover_backend list" where
  "remove_named n [] = []"
| "remove_named n (b # bs) = (if fb_name b = n then bs else b # remove_named n bs)"

definition fo_unregister :: "string \<Rightarrow> failover_manager \<Rightarrow> (failover_error + unit) \<times> failover_manager" where
  "fo_unregister name m =
     (if \<not> list_ex (\<lambda>x. fb_name x = name) (fo_backends m) then (Inl Fe_InvalidBackend, m)
      else let m1 = (if fo_active_backend m = Some name then m\<lparr> fo_active_backend := None, fo_state := Fo_Ready \<rparr> else m) in
        (Inr (), m1\<lparr> fo_backends := remove_named name (fo_backends m1),
                    fo_capability_index := hm_remove name (fo_capability_index m1) \<rparr>))"

definition fo_select :: "backend_capability \<Rightarrow> failover_manager \<Rightarrow> failover_error + failover_backend" where
  "fo_select c m = (case min_by fb_order (filter (fb_supports c) (fo_backends m)) of
      None \<Rightarrow> Inl Fe_CapabilityUnavailable
    | Some b \<Rightarrow> Inr b)"

definition activate_best :: "backend_capability \<Rightarrow> failover_manager \<Rightarrow> (failover_error + string) \<times> failover_manager" where
  "activate_best c m =
     (if \<not> fo_can_activate (fo_state m) then (Inl Fe_InvalidState, m)
      else case map_option fb_name (min_by fb_order (filter (fb_supports c) (fo_backends m))) of
        None \<Rightarrow> (Inl Fe_CapabilityUnavailable, m)
      | Some name \<Rightarrow>
          if fo_active_backend m = Some name then (Inl Fe_AlreadyActive, m)
          else (Inr name, m\<lparr> fo_active_backend := Some name, fo_state := Fo_Active \<rparr>))"

definition fo_deactivate :: "failover_manager \<Rightarrow> failover_manager" where
  "fo_deactivate m =
     (let m1 = m\<lparr> fo_active_backend := None \<rparr> in
      if fo_state m1 \<noteq> Fo_Disabled then m1\<lparr> fo_state := Fo_Ready \<rparr> else m1)"

definition fo_mark_degraded :: "failover_manager \<Rightarrow> failover_manager" where
  "fo_mark_degraded m = (if fo_state m \<noteq> Fo_Disabled then m\<lparr> fo_state := Fo_Degraded \<rparr> else m)"

definition fo_mark_failed :: "failover_manager \<Rightarrow> failover_manager" where
  "fo_mark_failed m = m\<lparr> fo_state := Fo_Failed, fo_active_backend := None \<rparr>"

definition fo_mark_ready :: "failover_manager \<Rightarrow> failover_manager" where
  "fo_mark_ready m = (if fo_state m \<noteq> Fo_Disabled then m\<lparr> fo_state := Fo_Ready \<rparr> else m)"

definition fo_disable :: "failover_manager \<Rightarrow> failover_manager" where
  "fo_disable m = m\<lparr> fo_state := Fo_Disabled, fo_active_backend := None \<rparr>"

definition fo_get :: "string \<Rightarrow> failover_manager \<Rightarrow> failover_backend option" where
  "fo_get name m = List.find (\<lambda>b. fb_name b = name) (fo_backends m)"

text \<open>\<open>get_mut\<close> lends the first backend of that name; \<open>f\<close> is what the borrower does with it.\<close>

fun update_named :: "string \<Rightarrow> (failover_backend \<Rightarrow> failover_backend) \<Rightarrow> failover_backend list \<Rightarrow> failover_backend list" where
  "update_named n f [] = []"
| "update_named n f (b # bs) = (if fb_name b = n then f b # bs else b # update_named n f bs)"

definition fo_get_mut :: "string \<Rightarrow> (failover_backend \<Rightarrow> failover_backend) \<Rightarrow> failover_manager \<Rightarrow> failover_manager" where
  "fo_get_mut name f m = m\<lparr> fo_backends := update_named name f (fo_backends m) \<rparr>"

definition fo_clear :: "failover_manager \<Rightarrow> failover_manager" where
  "fo_clear m = m\<lparr> fo_backends := [], fo_capability_index := [], fo_active_backend := None, fo_state := Fo_Ready \<rparr>"

definition fo_candidates :: "backend_capability \<Rightarrow> failover_manager \<Rightarrow> failover_backend list" where
  "fo_candidates c m = sort_key fb_key (filter (fb_supports c) (fo_backends m))"

definition fo_names :: "failover_manager \<Rightarrow> string list" where
  "fo_names m = sort (map fb_name (fo_backends m))"

subsection \<open>The order\<close>

interpretation fb_cmp: comparison fb_order
  unfolding fb_order_def by (intro comparison_then comparison_cmp_by)

lemma fb_order_iff: "fb_order a b \<noteq> Greater \<longleftrightarrow> fb_key a \<le> fb_key b"
  by (auto simp: fb_order_def fb_key_def cmp_by_def less_eq_prod_def)

subsection \<open>Invariant\<close>

definition fo_inv :: "failover_manager \<Rightarrow> bool" where
  "fo_inv m \<longleftrightarrow> distinct (map fb_name (fo_backends m)) \<and> sorted (map fb_key (fo_backends m)) \<and>
     (\<forall>b \<in> set (fo_backends m). trim (fb_name b) \<noteq> []) \<and>
     (\<forall>n. fo_active_backend m = Some n \<longrightarrow> n \<in> fb_name ` set (fo_backends m)) \<and>
     (fo_state m = Fo_Active \<longrightarrow> fo_active_backend m \<noteq> None) \<and>
     (fo_state m \<in> {Fo_Disabled, Fo_Failed} \<longrightarrow> fo_active_backend m = None) \<and>
     hm_wf (fo_capability_index m) \<and>
     (\<forall>n. hm_contains n (fo_capability_index m) \<longleftrightarrow> n \<in> fb_name ` set (fo_backends m))"

datatype fo_op =
    Fo_Register failover_backend | Fo_Unregister string | Fo_Activate backend_capability | Fo_Deactivate
  | Fo_Mark_Degraded | Fo_Mark_Failed | Fo_Mark_Ready | Fo_Disable | Fo_Clear
  | Fo_Add_Capability string backend_capability

primrec fo_exec :: "fo_op \<Rightarrow> failover_manager \<Rightarrow> failover_manager" where
  "fo_exec (Fo_Register b) m = snd (fo_register b m)"
| "fo_exec (Fo_Unregister n) m = snd (fo_unregister n m)"
| "fo_exec (Fo_Activate c) m = snd (activate_best c m)"
| "fo_exec Fo_Deactivate m = fo_deactivate m"
| "fo_exec Fo_Mark_Degraded m = fo_mark_degraded m"
| "fo_exec Fo_Mark_Failed m = fo_mark_failed m"
| "fo_exec Fo_Mark_Ready m = fo_mark_ready m"
| "fo_exec Fo_Disable m = fo_disable m"
| "fo_exec Fo_Clear m = fo_clear m"
| "fo_exec (Fo_Add_Capability n c) m = fo_get_mut n (fb_add_capability c) m"

lemma set_remove_named: "distinct (map fb_name bs) \<Longrightarrow> set (remove_named n bs) = {b \<in> set bs. fb_name b \<noteq> n}"
  by (induction bs) (auto simp: image_iff)

lemma remove_named_subseq: "set (remove_named n bs) \<subseteq> set bs"
  by (induction bs) auto

lemma distinct_remove_named: "distinct (map fb_name bs) \<Longrightarrow> distinct (map fb_name (remove_named n bs))"
  by (induction bs) (auto dest: subsetD [OF remove_named_subseq])

lemma sorted_remove_named: "sorted (map fb_key bs) \<Longrightarrow> sorted (map fb_key (remove_named n bs))"
  by (induction bs) (auto dest: subsetD [OF remove_named_subseq])

lemma update_named_maps:
  "(\<And>b. fb_name (f b) = fb_name b \<and> fb_key (f b) = fb_key b) \<Longrightarrow>
     map fb_name (update_named n f bs) = map fb_name bs \<and> map fb_key (update_named n f bs) = map fb_key bs"
  by (induction bs) auto

lemma fb_add_capability_keeps [simp]: "fb_name (fb_add_capability c b) = fb_name b" "fb_key (fb_add_capability c b) = fb_key b"
  by (simp_all add: fb_add_capability_def fb_key_def)

lemma distinct_map_sort_key [simp]: "distinct (map f (sort_key k xs)) = distinct (map f xs)"
  by (simp add: distinct_map)

lemma names_remove_named:
  "distinct (map fb_name bs) \<Longrightarrow> fb_name ` set (remove_named n bs) = fb_name ` set bs - {n}"
  by (auto simp: set_remove_named)

lemma fo_inv_register: "fo_inv m \<Longrightarrow> fo_inv (snd (fo_register b m))"
proof (cases "trim (fb_name b) = [] \<or> list_ex (\<lambda>x. fb_name x = fb_name b) (fo_backends m)")
  case True
  then show "fo_inv m \<Longrightarrow> ?thesis" by (auto simp: fo_register_def)
next
  case False
  then have new: "fb_name b \<notin> fb_name ` set (fo_backends m)" "trim (fb_name b) \<noteq> []"
    by (auto simp: list_ex_iff)
  moreover have "fb_name ` set (sort_key fb_key (fo_backends m @ [b])) = insert (fb_name b) (fb_name ` set (fo_backends m))"
    by simp
  ultimately show "fo_inv m \<Longrightarrow> ?thesis"
    using False by (simp add: fo_register_def sort_by_priority_def fo_inv_def Let_def hm)
qed

lemma fo_inv_unregister: "fo_inv m \<Longrightarrow> fo_inv (snd (fo_unregister n m))"
proof (cases "list_ex (\<lambda>x. fb_name x = n) (fo_backends m)")
  case False
  then show "fo_inv m \<Longrightarrow> ?thesis" by (simp add: fo_unregister_def)
next
  case True
  assume inv: "fo_inv m"
  then have "distinct (map fb_name (fo_backends m))" by (simp add: fo_inv_def)
  note names = names_remove_named [OF this, of n] distinct_remove_named [OF this, of n]
  have "\<forall>b \<in> set (remove_named n (fo_backends m)). trim (fb_name b) \<noteq> []"
    using inv remove_named_subseq by (auto simp: fo_inv_def)
  then show ?thesis
    using inv True names by (cases "fo_active_backend m = Some n")
      (simp_all add: fo_unregister_def fo_inv_def Let_def hm sorted_remove_named, blast)
qed

lemma fo_inv_activate: "fo_inv m \<Longrightarrow> fo_inv (snd (activate_best c m))"
proof (cases "min_by fb_order (filter (fb_supports c) (fo_backends m))")
  case None
  then show "fo_inv m \<Longrightarrow> ?thesis" by (simp add: activate_best_def)
next
  case (Some b)
  then have "fb_name b \<in> fb_name ` set (fo_backends m)"
    using fb_cmp.min_by_spec [OF Some] by simp
  then show "fo_inv m \<Longrightarrow> ?thesis"
    using Some by (cases "fo_state m") (simp_all add: activate_best_def fo_inv_def fo_can_activate_def)
qed

lemma fo_inv_exec: "fo_inv m \<Longrightarrow> fo_inv (fo_exec op m)"
proof (cases op)
  case (Fo_Add_Capability n c)
  have maps: "map fb_name (update_named n (fb_add_capability c) (fo_backends m)) = map fb_name (fo_backends m)"
      "map fb_key (update_named n (fb_add_capability c) (fo_backends m)) = map fb_key (fo_backends m)"
    using update_named_maps [of "fb_add_capability c" n "fo_backends m"] by simp_all
  then have names: "fb_name ` set (update_named n (fb_add_capability c) (fo_backends m)) = fb_name ` set (fo_backends m)"
    by (metis list.set_map)
  then have "(\<forall>b \<in> set (update_named n (fb_add_capability c) (fo_backends m)). trim (fb_name b) \<noteq> []) \<longleftrightarrow>
      (\<forall>b \<in> set (fo_backends m). trim (fb_name b) \<noteq> [])"
    by (metis (no_types, lifting) image_iff)
  with maps names show "fo_inv m \<Longrightarrow> ?thesis"
    by (simp add: fo_inv_def fo_get_mut_def Fo_Add_Capability)
qed (simp_all add: fo_inv_register fo_inv_unregister fo_inv_activate, simp_all add: fo_inv_def fo_deactivate_def
    fo_mark_degraded_def fo_mark_failed_def fo_mark_ready_def fo_disable_def fo_clear_def Let_def)

lemma fo_inv_run: "fo_inv m \<Longrightarrow> fo_inv (fold fo_exec ops m)"
  by (induction ops arbitrary: m) (simp_all add: fo_inv_exec)

lemma fo_inv_new: "fo_inv failover_manager_new"
  by (simp add: fo_inv_def failover_manager_new_def)

subsection \<open>Selection\<close>

lemma min_by_is_head:
  assumes "inj_on fb_key (set bs)"
  shows "min_by fb_order bs = (case sort_key fb_key bs of [] \<Rightarrow> None | b # _ \<Rightarrow> Some b)"
proof (cases "min_by fb_order bs")
  case None
  then show ?thesis by simp
next
  case (Some r)
  then have r: "r \<in> set bs" "\<forall>y \<in> set bs. fb_key r \<le> fb_key y"
    using fb_cmp.min_by_spec [OF Some] by (auto simp: fb_order_iff)
  obtain b rest where b: "sort_key fb_key bs = b # rest"
    using r(1) by (cases "sort_key fb_key bs") auto
  have set_bs: "set bs = set (b # rest)" by (metis b set_sort)
  have "sorted (map fb_key (b # rest))" by (metis b sorted_sort_key)
  then have "\<forall>y \<in> set bs. fb_key b \<le> fb_key y" by (simp add: set_bs)
  then have "fb_key b = fb_key r" using r set_bs by (intro antisym) auto
  then have "b = r" using assms r(1) set_bs by (auto simp: inj_on_def)
  then show ?thesis using Some b by simp
qed

lemma fb_key_inj: "distinct (map fb_name bs) \<Longrightarrow> inj_on fb_key (set bs)"
  by (auto simp: inj_on_def distinct_map fb_key_def)

text \<open>
  The fail-over order. After any sequence of operations, selection and activation follow the
  candidate list, which holds exactly the registered backends with the capability in ascending
  order of priority and then name: the first candidate is selected, and \<open>CapabilityUnavailable\<close>
  is reported exactly if there is none. The active backend is always a registered one, there is
  one whenever the coordinator is \<open>Active\<close>, and none when it is disabled or failed.
\<close>

lemma failover_prefers_priority:
  assumes "m = fold fo_exec ops failover_manager_new"
  shows "set (fo_candidates c m) = {b \<in> set (fo_backends m). fb_supports c b} \<and>
    sorted (map (\<lambda>b. (fb_priority b, fb_name b)) (fo_candidates c m)) \<and>
    fo_select c m = (case fo_candidates c m of [] \<Rightarrow> Inl Fe_CapabilityUnavailable | b # _ \<Rightarrow> Inr b) \<and>
    (\<forall>n m'. activate_best c m = (Inr n, m') \<longrightarrow>
       fo_active_backend m' = Some n \<and> fo_state m' = Fo_Active \<and> n = fb_name (hd (fo_candidates c m))) \<and>
    (\<forall>n. fo_active_backend m = Some n \<longrightarrow> fo_get n m \<noteq> None) \<and>
    (fo_state m = Fo_Active \<longrightarrow> fo_active_backend m \<noteq> None) \<and>
    (fo_state m \<in> {Fo_Disabled, Fo_Failed} \<longrightarrow> fo_active_backend m = None)"
proof -
  have inv: "fo_inv m" using assms fo_inv_run [OF fo_inv_new] by simp
  have "distinct (map fb_name (filter (fb_supports c) (fo_backends m)))"
    using inv by (simp add: fo_inv_def distinct_map_filter)
  note head = min_by_is_head [OF fb_key_inj [OF this]]
  have "sorted (map fb_key (fo_candidates c m))" by (simp add: fo_candidates_def)
  moreover have "fb_key = (\<lambda>b. (fb_priority b, fb_name b))" by (simp add: fun_eq_iff fb_key_def)
  moreover have "\<forall>n m'. activate_best c m = (Inr n, m') \<longrightarrow>
       fo_active_backend m' = Some n \<and> fo_state m' = Fo_Active \<and> n = fb_name (hd (fo_candidates c m))"
    by (auto simp: activate_best_def head fo_candidates_def split: if_splits option.splits list.splits)
  moreover have "\<forall>n. fo_active_backend m = Some n \<longrightarrow> fo_get n m \<noteq> None"
    using inv by (auto simp: fo_inv_def fo_get_def find_None_iff)
  ultimately show ?thesis
    using inv by (simp add: fo_inv_def fo_select_def head) (simp add: fo_candidates_def split: list.splits)
qed

text \<open>
  The coordinator does not fail over. Once a backend has been activated for a capability,
  marking it degraded and asking for the best backend again selects the same backend and is
  refused as already active, whatever other candidates there are: the degraded backend is never
  excluded from the selection.
\<close>

lemma degraded_backend_not_replaced:
  assumes "activate_best c m = (Inr n, m1)"
  shows "activate_best c (fo_mark_degraded m1) = (Inl Fe_AlreadyActive, fo_mark_degraded m1)"
  using assms
  by (auto simp: activate_best_def fo_mark_degraded_def fo_can_activate_def split: if_splits option.splits)

definition demo_failover :: failover_manager where
  "demo_failover = fold fo_exec
     [Fo_Register \<lparr> fb_name = ''b'', fb_priority = 2, fb_capabilities = [Cap_Capture] \<rparr>,
      Fo_Register \<lparr> fb_name = ''a'', fb_priority = 5, fb_capabilities = [Cap_Capture, Cap_Filtering] \<rparr>]
     failover_manager_new"

lemma demo_failover_eq:
  "demo_failover = \<lparr> fo_backends =
      [\<lparr> fb_name = ''b'', fb_priority = 2, fb_capabilities = [Cap_Capture] \<rparr>,
       \<lparr> fb_name = ''a'', fb_priority = 5, fb_capabilities = [Cap_Capture, Cap_Filtering] \<rparr>],
     fo_active_backend = None, fo_state = Fo_Ready,
     fo_capability_index = [(''b'', [Cap_Capture]), (''a'', [Cap_Capture, Cap_Filtering])] \<rparr>"
  by (simp add: demo_failover_def fo_register_def failover_manager_new_def trim_def is_whitespace_def sort_by_priority_def
      fb_key_def hm_insert_def Let_def)

theorem failover_prefers_priority_witness:
  "map fb_name (fo_candidates Cap_Capture demo_failover) = [''b'', ''a''] \<and>
   fo_select Cap_Capture demo_failover = Inr \<lparr> fb_name = ''b'', fb_priority = 2, fb_capabilities = [Cap_Capture] \<rparr>"
proof -
  have "fo_candidates Cap_Capture demo_failover = fo_backends demo_failover"
    by (simp add: fo_candidates_def fb_supports_def fb_key_def demo_failover_eq)
  then show ?thesis
    using failover_prefers_priority [OF demo_failover_def, of Cap_Capture] by (simp add: demo_failover_eq)
qed

theorem degraded_backend_not_replaced_witness:
  "\<exists>m1. activate_best Cap_Capture demo_failover = (Inr ''b'', m1) \<and>
     fst (activate_best Cap_Capture (fo_mark_degraded m1)) = Inl Fe_AlreadyActive"
proof -
  have "activate_best Cap_Capture demo_failover =
      (Inr ''b'', demo_failover\<lparr> fo_active_backend := Some ''b'', fo_state := Fo_Active \<rparr>)"
    by (simp add: activate_best_def demo_failover_eq fo_can_activate_def fb_supports_def fb_order_def cmp_by_def)
  then show ?thesis using degraded_backend_not_replaced by auto
qed

end
