(* ===== verification/Core_Flow.thy ===== *)
theory Core_Flow
  imports Core_Types
begin

text \<open>
  \<open>crates/network-core/src/flow.rs\<close>: the five-tuple that names a conversation, its
  direction-independent form, the TCP and generic flow states with their transition table,
  and the flow record with its counters and idle timeout. The clock reading that
  \<open>Flow::new\<close> and \<open>Flow::add_packet\<close> take is their argument \<open>now\<close>.
\<close>

subsection \<open>Protocols and keys\<close>

datatype protocol = Proto_Tcp | Proto_Udp | Proto_Icmp | Proto_IcmpV6 | Proto_Other u8

definition from_ip_protocol :: "u8 \<Rightarrow> protocol" where
  "from_ip_protocol proto =
     (if proto = 1 then Proto_Icmp else if proto = 6 then Proto_Tcp else if proto = 17 then Proto_Udp
      else if proto = 58 then Proto_IcmpV6 else Proto_Other proto)"

primrec to_ip_protocol :: "protocol \<Rightarrow> u8" where
  "to_ip_protocol Proto_Icmp = 1"
| "to_ip_protocol Proto_Tcp = 6"
| "to_ip_protocol Proto_Udp = 17"
| "to_ip_protocol Proto_IcmpV6 = 58"
| "to_ip_protocol (Proto_Other p) = p"

record core_flow_key =
  fk_src_ip :: ip_addr
  fk_dst_ip :: ip_addr
  fk_src_port :: u16
  fk_dst_port :: u16
  fk_protocol :: protocol

fun endpoint_sort_key :: "ip_addr \<Rightarrow> u16 \<Rightarrow> u8 \<times> byte list \<times> u16" where
  "endpoint_sort_key (V4 value) port = (4, replicate 12 0 @ octets4 value, port)"
| "endpoint_sort_key (V6 value) port = (6, octets16 value, port)"

definition normalized :: "ip_addr \<Rightarrow> u16 \<Rightarrow> ip_addr \<Rightarrow> u16 \<Rightarrow> protocol \<Rightarrow> core_flow_key" where
  "normalized addr1 port1 addr2 port2 proto =
     (let first = endpoint_sort_key addr1 port1; second = endpoint_sort_key addr2 port2;
          (src_ip, src_port, dst_ip, dst_port) =
            (if first \<le> second then (addr1, port1, addr2, port2) else (addr2, port2, addr1, port1)) in
      \<lparr> fk_src_ip = src_ip, fk_dst_ip = dst_ip, fk_src_port = src_port, fk_dst_port = dst_port,
        fk_protocol = proto \<rparr>)"

lemma from_to_ip_protocol: "from_ip_protocol (to_ip_protocol p) = p \<longleftrightarrow> p \<notin> Proto_Other ` {1, 6, 17, 58}"
  by (cases p) (auto simp: from_ip_protocol_def)

lemma to_from_ip_protocol [simp]: "to_ip_protocol (from_ip_protocol b) = b"
  by (simp add: from_ip_protocol_def)

lemma endpoint_sort_key_inject [simp]:
  "endpoint_sort_key a p = endpoint_sort_key b q \<longleftrightarrow> a = b \<and> p = q"
  by (cases a; cases b) auto

subsection \<open>States\<close>

datatype tcp_flow_state = SynSent | SynReceived | Established | FinWait1 | FinWait2 | Closing
  | TimeWait | Closed | Reset

definition tcp_is_established :: "tcp_flow_state \<Rightarrow> bool" where
  "tcp_is_established s \<longleftrightarrow> s = Established"

definition tcp_is_closing :: "tcp_flow_state \<Rightarrow> bool" where
  "tcp_is_closing s \<longleftrightarrow> s \<in> {FinWait1, FinWait2, Closing, TimeWait}"

definition tcp_is_closed :: "tcp_flow_state \<Rightarrow> bool" where
  "tcp_is_closed s \<longleftrightarrow> s \<in> {Closed, Reset}"

definition tcp_can_receive :: "tcp_flow_state \<Rightarrow> bool" where
  "tcp_can_receive s \<longleftrightarrow> s \<in> {SynReceived, Established, FinWait1, FinWait2}"

definition tcp_can_transition_to :: "tcp_flow_state \<Rightarrow> tcp_flow_state \<Rightarrow> bool" where
  "tcp_can_transition_to s next \<longleftrightarrow> s = next \<or> (s, next) \<in>
     {(SynSent, SynReceived), (SynSent, Established), (SynSent, Closed), (SynSent, Reset),
      (SynReceived, Established), (SynReceived, FinWait1), (SynReceived, Closed), (SynReceived, Reset),
      (Established, FinWait1), (Established, Closed), (Established, Reset),
      (FinWait1, FinWait2), (FinWait1, Closing), (FinWait1, TimeWait), (FinWait1, Closed), (FinWait1, Reset),
      (FinWait2, TimeWait), (FinWait2, Closed), (FinWait2, Reset),
      (Closing, TimeWait), (Closing, Closed), (Closing, Reset),
      (TimeWait, Closed)}"

datatype generic_flow_state = Gen_New | Gen_Active | Gen_Idle | Gen_Expired

datatype core_flow_state = Fs_Tcp tcp_flow_state | Fs_Generic generic_flow_state

definition new_tcp_state :: core_flow_state where "new_tcp_state = Fs_Tcp SynSent"

definition new_generic_state :: core_flow_state where "new_generic_state = Fs_Generic Gen_New"

fun fs_is_established :: "core_flow_state \<Rightarrow> bool" where
  "fs_is_established (Fs_Tcp s) = tcp_is_established s"
| "fs_is_established (Fs_Generic s) = (s = Gen_Active)"

fun fs_is_closed :: "core_flow_state \<Rightarrow> bool" where
  "fs_is_closed (Fs_Tcp s) = tcp_is_closed s"
| "fs_is_closed (Fs_Generic s) = (s = Gen_Expired)"

interpretation tcp: lifecycle tcp_can_transition_to tcp_is_closed
  by unfold_locales (auto simp: tcp_can_transition_to_def tcp_is_closed_def)

text \<open>Every transition moves forward in the order of the protocol's phases.\<close>

primrec tcp_phase :: "tcp_flow_state \<Rightarrow> nat" where
  "tcp_phase SynSent = 0" | "tcp_phase SynReceived = 1" | "tcp_phase Established = 2"
| "tcp_phase FinWait1 = 3" | "tcp_phase FinWait2 = 4" | "tcp_phase Closing = 4"
| "tcp_phase TimeWait = 5" | "tcp_phase Closed = 6" | "tcp_phase Reset = 6"

lemma tcp_phase_increases: "tcp_can_transition_to s t \<Longrightarrow> s = t \<or> tcp_phase s < tcp_phase t"
  by (auto simp: tcp_can_transition_to_def)

lemma tcp_reach_phase: "tcp_can_transition_to\<^sup>*\<^sup>* s t \<Longrightarrow> s = t \<or> tcp_phase s < tcp_phase t"
  by (induction rule: rtranclp_induct) (auto dest: tcp_phase_increases)

subsection \<open>Flows\<close>

record core_flow =
  cf_key :: core_flow_key
  cf_packet_count :: u64
  cf_byte_count :: u64
  cf_first_seen :: timestamp
  cf_last_seen :: timestamp
  cf_direction :: direction
  cf_state :: core_flow_state
  cf_idle_timeout :: time_delta

definition core_flow_new :: "timestamp \<Rightarrow> core_flow_key \<Rightarrow> direction \<Rightarrow> u64 \<Rightarrow> core_flow" where
  "core_flow_new now key dir packet_bytes =
     \<lparr> cf_key = key, cf_packet_count = 1, cf_byte_count = packet_bytes, cf_first_seen = now,
       cf_last_seen = now, cf_direction = dir, cf_state = new_generic_state,
       cf_idle_timeout = delta_from_secs 300 \<rparr>"

definition core_flow_new_tcp :: "timestamp \<Rightarrow> core_flow_key \<Rightarrow> direction \<Rightarrow> u64 \<Rightarrow> core_flow" where
  "core_flow_new_tcp now key dir packet_bytes =
     (core_flow_new now key dir packet_bytes)\<lparr> cf_state := new_tcp_state, cf_idle_timeout := delta_from_secs 7200 \<rparr>"

definition core_add_packet :: "timestamp \<Rightarrow> u64 \<Rightarrow> core_flow \<Rightarrow> core_flow" where
  "core_add_packet now bytes fl =
     fl\<lparr> cf_packet_count := saturating_add (cf_packet_count fl) 1,
         cf_byte_count := saturating_add (cf_byte_count fl) bytes, cf_last_seen := now \<rparr>"

definition core_flow_is_expired :: "timestamp \<Rightarrow> core_flow \<Rightarrow> bool" where
  "core_flow_is_expired now fl = (case duration_since now (cf_last_seen fl) of
      Some elapsed \<Rightarrow> unat (cf_idle_timeout fl) \<le> elapsed | None \<Rightarrow> False)"

lemma core_add_packets_count:
  "unat (cf_packet_count (fold (\<lambda>(now, b). core_add_packet now b) ps fl)) =
     min (unat (cf_packet_count fl) + length ps) (2 ^ 64 - 1)"
proof (induction ps arbitrary: fl)
  case Nil
  have "unat (cf_packet_count fl) < 2 ^ 64" using unsigned_less [of "cf_packet_count fl"] by simp
  then show ?case by simp
next
  case (Cons p ps)
  then show ?case
    by (auto simp: core_add_packet_def unat_saturating_add split: prod.split)
qed

lemma core_flow_expiry_iff:
  "core_flow_is_expired now fl \<longleftrightarrow>
     cf_last_seen fl \<le> now \<and> unat (cf_last_seen fl) + unat (cf_idle_timeout fl) \<le> unat now"
  by (auto simp: core_flow_is_expired_def duration_since_def unat_sub word_le_nat_alt)

text \<open>
  C30: A flow key identifies the conversation, not the direction of the packet: two packets get
  the same normalized key exactly if they have the same protocol and the same two endpoints,
  in either order, whatever mixture of IPv4 and IPv6 addresses.
\<close>

theorem flow_key_identifies_conversation:
  "normalized a p b q proto = normalized a' p' b' q' proto' \<longleftrightarrow>
     proto = proto' \<and> ((a, p) = (a', p') \<and> (b, q) = (b', q') \<or> (a, p) = (b', q') \<and> (b, q) = (a', p'))"
  by (auto simp: normalized_def Let_def)

text \<open>
  A TCP flow never moves backwards. Whatever transitions are attempted on a flow state,
  the state is unchanged or in a later phase of the connection, and once the connection is
  closed or reset no later attempt changes it.
\<close>

lemma tcp_lifecycle_monotone:
  "(attempts tcp_can_transition_to s ts = s \<or> tcp_phase s < tcp_phase (attempts tcp_can_transition_to s ts)) \<and>
   attempts tcp_can_transition_to s (ts @ c # us) =
     (if tcp_is_closed (attempts tcp_can_transition_to s ts) then attempts tcp_can_transition_to s ts
      else attempts tcp_can_transition_to (attempts tcp_can_transition_to s ts) (c # us))"
  using tcp_reach_phase [OF tcp.attempts_reachable [of s ts]] tcp.attempts_after_terminal [of s ts "c # us"]
  by (auto simp: tcp.attempts_append)

end
