(* ===== verification/Parser_Link.thy ===== *)
theory Parser_Link
  imports Core_Types
begin

text \<open>
  \<open>crates/packet-parser/src/ethernet.rs\<close>, \<open>vlan.rs\<close> and \<open>arp.rs\<close>: link-layer parsing. A parser
  returns an \<open>outcome\<close>, so that an out-of-range index or slice is the value \<open>Panic\<close>; that
  it never occurs is proved for every input a Rust slice can have. Offsets are added with
  wrap-around where the source uses \<open>+\<close>.
\<close>

abbreviation packet_too_short :: engine_error where "packet_too_short \<equiv> Error_Code EC_PacketTooShort"
abbreviation packet_malformed :: engine_error where "packet_malformed \<equiv> Error_Code EC_PacketMalformed"
abbreviation packet_unsupported :: engine_error where "packet_unsupported \<equiv> Error_Code EC_PacketUnsupported"
abbreviation integer_overflow :: engine_error where "integer_overflow \<equiv> Error_Code EC_IntegerOverflow"

type_synonym 'a parsed = "(engine_error, 'a) outcome"

text \<open>\<open>payload\<close> of the parse results: the same body in each parser module.\<close>

definition payload_slice :: "usize \<Rightarrow> usize \<Rightarrow> byte list \<Rightarrow> byte list parsed" where
  "payload_slice payload_offset payload_length packet =
     (let end = min (usize_saturating_add payload_offset payload_length) (length packet) in
      if payload_offset \<ge> end then Ok [] else slice_range packet payload_offset end)"

lemma payload_slice_eq:
  "length packet \<le> usize_max \<Longrightarrow> payload_slice off len packet = Ok (take len (drop off packet))"
  by (auto simp: payload_slice_def slice_range_def usize_saturating_add_def Let_def min_def)

subsection \<open>Ethernet\<close>

datatype ether_type = Ether_Ipv4 | Ether_Arp | Ether_Ipv6 | Ether_Vlan | Ether_QinQ | Ether_QinQLegacy | Ether_Unknown

definition ether_type_from_u16 :: "u16 \<Rightarrow> ether_type" where
  "ether_type_from_u16 value =
     (if value = 0x0800 then Ether_Ipv4 else if value = 0x0806 then Ether_Arp
      else if value = 0x86dd then Ether_Ipv6 else if value = 0x8100 then Ether_Vlan
      else if value = 0x88a8 then Ether_QinQ else if value = 0x9100 then Ether_QinQLegacy
      else Ether_Unknown)"

definition is_vlan :: "ether_type \<Rightarrow> bool" where
  "is_vlan t \<longleftrightarrow> t \<in> {Ether_Vlan, Ether_QinQ, Ether_QinQLegacy}"

record ethernet_header =
  eth_destination :: "byte list" \<comment> \<open>\<open>[u8; 6]\<close>\<close>
  eth_source :: "byte list"
  eth_ether_type :: ether_type

record vlan_tag =
  vt_tci :: u16
  vt_ether_type :: ether_type

record ethernet_parse_result =
  er_header :: ethernet_header
  er_vlan_tags :: "vlan_tag list"
  er_payload_offset :: usize
  er_payload_length :: usize

definition ethernet_payload :: "ethernet_parse_result \<Rightarrow> byte list \<Rightarrow> byte list parsed" where
  "ethernet_payload r packet = payload_slice (er_payload_offset r) (er_payload_length r) packet"

function vlan_loop :: "byte list \<Rightarrow> usize \<Rightarrow> ether_type \<Rightarrow> vlan_tag list \<Rightarrow> (usize \<times> ether_type \<times> vlan_tag list) parsed" where
  "vlan_loop packet offset etype tags =
     (if is_vlan etype then
        if length tags \<ge> 4 then Err packet_malformed
        else if length packet < uadd offset 4 then Err packet_too_short
        else obind (read16 packet offset 0) (\<lambda>tci.
             obind (read16 packet offset 2) (\<lambda>next_raw.
               let next_type = ether_type_from_u16 next_raw in
               vlan_loop packet (uadd offset 4) next_type (tags @ [\<lparr> vt_tci = tci, vt_ether_type = next_type \<rparr>])))
      else Ok (offset, etype, tags))"
  by auto
termination
  by (relation "measure (\<lambda>(packet, offset, etype, tags). 4 - length tags)") auto

declare vlan_loop.simps [simp del]

definition ethernet_parse :: "byte list \<Rightarrow> ethernet_parse_result parsed" where
  "ethernet_parse packet =
     (if length packet < 14 then Err packet_too_short
      else obind (read_bytes packet 0 0 6) (\<lambda>destination.
           obind (read_bytes packet 0 6 6) (\<lambda>source.
           obind (read16 packet 0 12) (\<lambda>raw_type.
           obind (vlan_loop packet 14 (ether_type_from_u16 raw_type) []) (\<lambda>(offset, etype, tags).
             if offset > length packet then Err packet_too_short
             else Ok \<lparr> er_header = \<lparr> eth_destination = destination, eth_source = source, eth_ether_type = etype \<rparr>,
                       er_vlan_tags = tags, er_payload_offset = offset,
                       er_payload_length = usub (length packet) offset \<rparr>)))))"

definition ether_type_of :: "byte list \<Rightarrow> ether_type parsed" where
  "ether_type_of packet =
     (if length packet < 14 then Err packet_too_short
      else omap ether_type_from_u16 (read16 packet 0 12))"

definition is_vlan_frame :: "byte list \<Rightarrow> bool parsed" where
  "is_vlan_frame packet =
     (if length packet < 14 then Ok False
      else omap (\<lambda>v. is_vlan (ether_type_from_u16 v)) (read16 packet 0 12))"

definition mac_is_broadcast :: "byte list \<Rightarrow> bool" where
  "mac_is_broadcast mac \<longleftrightarrow> mac = replicate 6 0xff"

definition mac_is_multicast :: "byte list \<Rightarrow> bool" where
  "mac_is_multicast mac \<longleftrightarrow> (mac ! 0) AND 1 \<noteq> 0"

definition mac_is_unicast :: "byte list \<Rightarrow> bool" where
  "mac_is_unicast mac \<longleftrightarrow> \<not> mac_is_multicast mac"

definition vlan_post ::
  "byte list \<Rightarrow> ether_type \<Rightarrow> vlan_tag list \<Rightarrow> (usize \<times> ether_type \<times> vlan_tag list) parsed \<Rightarrow> bool" where
  "vlan_post packet etype tags r \<longleftrightarrow> (case r of
      Panic \<Rightarrow> False
    | Err e \<Rightarrow> e \<in> {packet_malformed, packet_too_short}
    | Ok (off', etype', tags') \<Rightarrow> off' = 14 + 4 * length tags' \<and> off' \<le> length packet \<and>
        length tags' \<le> 4 \<and> length tags \<le> length tags' \<and> \<not> is_vlan etype' \<and>
        (tags' = tags \<longrightarrow> etype' = etype) \<and> (tags' \<noteq> tags \<longrightarrow> etype' = vt_ether_type (last tags')))"

lemma vlan_post_extend:
  "vlan_post packet (vt_ether_type t) (tags @ [t]) r \<Longrightarrow> vlan_post packet etype tags r"
  by (auto simp: vlan_post_def split: outcome.splits)

lemma vlan_loop_ok:
  assumes "14 \<le> offset" "offset \<le> length packet" "length packet \<le> isize_max" "length tags \<le> 4"
    "offset = 14 + 4 * length tags"
  shows "vlan_post packet etype tags (vlan_loop packet offset etype tags)"
  using assms
proof (induction packet offset etype tags rule: vlan_loop.induct)
  case (1 packet offset etype tags)
  have add: "uadd offset 4 = offset + 4"
    using 1(3,4) by (intro uadd_exact) (simp add: isize_max_def usize_max_def)
  show ?case
  proof (cases "is_vlan etype \<and> length tags < 4 \<and> offset + 4 \<le> length packet")
    case True
    have w: "window packet offset 4"
      using True 1(4) by (simp add: windowI)
    let ?n = "ether_type_from_u16 (be16 (packet ! (offset + 2)) (packet ! (offset + 3)))"
    let ?t = "\<lparr> vt_tci = be16 (packet ! offset) (packet ! (offset + 1)), vt_ether_type = ?n \<rparr>"
    have step: "vlan_loop packet offset etype tags = vlan_loop packet (offset + 4) ?n (tags @ [?t])"
      using True add
      by (simp add: vlan_loop.simps [of packet offset etype] Let_def read16_window [OF w])
    have "vlan_post packet ?n (tags @ [?t]) (vlan_loop packet (offset + 4) ?n (tags @ [?t]))"
      using 1(1) [of ?n _ "be16 (packet ! offset) (packet ! (offset + 1))"] 1(2-6) True add by simp
    then show ?thesis
      unfolding step using vlan_post_extend [of packet ?t tags _ etype] by simp
  next
    case False
    then show ?thesis using 1(2-6) add by (subst vlan_loop.simps) (auto simp: vlan_post_def)
  qed
qed

lemma ethernet_parse_cases:
  assumes "length packet \<le> isize_max"
  shows "case ethernet_parse packet of
      Panic \<Rightarrow> False
    | Err e \<Rightarrow> e \<in> {packet_too_short, packet_malformed}
    | Ok r \<Rightarrow> 14 \<le> length packet \<and> length (er_vlan_tags r) \<le> 4 \<and>
        er_payload_offset r = 14 + 4 * length (er_vlan_tags r) \<and>
        er_payload_offset r + er_payload_length r = length packet \<and>
        \<not> is_vlan (eth_ether_type (er_header r)) \<and>
        eth_destination (er_header r) = take 6 packet \<and> eth_source (er_header r) = take 6 (drop 6 packet)"
proof (cases "length packet < 14")
  case False
  then have w: "window packet 0 14" using assms by (simp add: window_def)
  let ?t = "ether_type_from_u16 (be16 (packet ! 12) (packet ! 13))"
  have loop: "vlan_post packet ?t [] (vlan_loop packet 14 ?t [])"
    using False assms by (intro vlan_loop_ok) simp_all
  have sub: "usub (length packet) k = length packet - k" if "k \<le> length packet" for k
    using that assms by (intro usub_exact) (simp_all add: isize_max_def usize_max_def)
  have "ethernet_parse packet = obind (vlan_loop packet 14 ?t []) (\<lambda>(offset, etype, tags).
      if offset > length packet then Err packet_too_short
      else Ok \<lparr> er_header = \<lparr> eth_destination = take 6 packet, eth_source = take 6 (drop 6 packet),
                              eth_ether_type = etype \<rparr>,
                er_vlan_tags = tags, er_payload_offset = offset,
                er_payload_length = usub (length packet) offset \<rparr>)"
    using False by (simp add: ethernet_parse_def read_bytes_window [OF w] read16_window [OF w])
  then show ?thesis
    using False loop by (cases "vlan_loop packet 14 ?t []") (auto simp: vlan_post_def sub)
qed (simp add: ethernet_parse_def)

lemma take_drop_rest: "off + len = length p \<Longrightarrow> take len (drop off p) = drop off p"
  by simp

text \<open>
  \<open>ethernet::parse\<close> never panics and always terminates, on any byte string. When it
  succeeds, at most four VLAN tags were stripped, the payload starts right after them and
  reaches to the end of the frame, and \<open>payload\<close> returns exactly that suffix.
\<close>

lemma ethernet_parse_total:
  assumes "length packet \<le> isize_max"
  shows "case ethernet_parse packet of
      Panic \<Rightarrow> False
    | Err e \<Rightarrow> e \<in> {packet_too_short, packet_malformed}
    | Ok r \<Rightarrow> length (er_vlan_tags r) \<le> 4 \<and> \<not> is_vlan (eth_ether_type (er_header r)) \<and>
        ethernet_payload r packet = Ok (drop (14 + 4 * length (er_vlan_tags r)) packet) \<and>
        packet = eth_destination (er_header r) @ eth_source (er_header r) @ drop 12 packet"
proof -
  have "length packet \<le> usize_max" using assms by (simp add: isize_max_def usize_max_def)
  moreover have "packet = take 6 packet @ take 6 (drop 6 packet) @ drop 12 packet"
  proof -
    have "drop 12 packet = drop 6 (drop 6 packet)" by simp
    then show ?thesis by (simp only: append_take_drop_id)
  qed
  ultimately show ?thesis
    using ethernet_parse_cases [OF assms]
    by (cases "ethernet_parse packet") (simp_all add: ethernet_payload_def payload_slice_eq take_drop_rest)
qed

subsection \<open>VLAN tags\<close>

record vlan_header =
  vh_tci :: u16
  vh_ethertype :: u16

definition vlan_header_parse :: "byte list \<Rightarrow> (engine_error, vlan_header option) outcome" where
  "vlan_header_parse raw =
     (if length raw < 4 then Ok None
      else obind (read16 raw 0 0) (\<lambda>tci.
           obind (read16 raw 0 2) (\<lambda>et. Ok (Some \<lparr> vh_tci = tci, vh_ethertype = et \<rparr>))))"

definition vlan_priority :: "vlan_header \<Rightarrow> u8" where
  "vlan_priority v = ucast (drop_bit 13 (vh_tci v) AND 7)"

definition vlan_dei :: "vlan_header \<Rightarrow> bool" where
  "vlan_dei v \<longleftrightarrow> vh_tci v AND 0x1000 \<noteq> 0"

definition vlan_id :: "vlan_header \<Rightarrow> u16" where
  "vlan_id v = vh_tci v AND 0x0fff"

theorem ethernet_parse_total_witness:
  "case ethernet_parse ([1, 2, 3, 4, 5, 6, 7, 8, 9, 10, 11, 12, 0x81, 0, 0, 5, 8, 0, 42]) of
     Ok r \<Rightarrow> length (er_vlan_tags r) = 1 \<and>
       ethernet_payload r [1, 2, 3, 4, 5, 6, 7, 8, 9, 10, 11, 12, 0x81, 0, 0, 5, 8, 0, 42] = Ok [42]
   | _ \<Rightarrow> False"
proof -
  let ?p = "[1, 2, 3, 4, 5, 6, 7, 8, 9, 10, 11, 12, 0x81, 0, 0, 5, 8, 0, 42] :: byte list"
  have w: "window ?p 0 19" "window ?p 14 4"
    by (simp_all add: window_def isize_max_def)
  have "be16 0x81 0 = 0x8100" "be16 8 0 = 0x800"
    by (simp_all add: be16_def)
  then have "case ethernet_parse ?p of Ok r \<Rightarrow> length (er_vlan_tags r) = 1 | _ \<Rightarrow> False"
    by (simp add: ethernet_parse_def vlan_loop.simps [of ?p 14] vlan_loop.simps [of ?p 18]
        read_bytes_window [OF w(1)] read16_window [OF w(1)] read16_window [OF w(2)]
        ether_type_from_u16_def is_vlan_def uadd_def)
  then show ?thesis
    using ethernet_parse_total [of ?p] by (simp add: isize_max_def split: outcome.splits)
qed

subsection \<open>ARP\<close>

datatype arp_hardware_type = Arp_Ethernet | Arp_Hardware_Unknown u16

definition arp_hardware_from_u16 :: "u16 \<Rightarrow> arp_hardware_type" where
  "arp_hardware_from_u16 value = (if value = 1 then Arp_Ethernet else Arp_Hardware_Unknown value)"

primrec arp_hardware_as_u16 :: "arp_hardware_type \<Rightarrow> u16" where
  "arp_hardware_as_u16 Arp_Ethernet = 1"
| "arp_hardware_as_u16 (Arp_Hardware_Unknown value) = value"

datatype arp_operation = Arp_Request | Arp_Reply | Arp_Op_Unknown u16

definition arp_operation_from_u16 :: "u16 \<Rightarrow> arp_operation" where
  "arp_operation_from_u16 value =
     (if value = 1 then Arp_Request else if value = 2 then Arp_Reply else Arp_Op_Unknown value)"

primrec arp_operation_as_u16 :: "arp_operation \<Rightarrow> u16" where
  "arp_operation_as_u16 Arp_Request = 1"
| "arp_operation_as_u16 Arp_Reply = 2"
| "arp_operation_as_u16 (Arp_Op_Unknown value) = value"

record arp_header =
  arp_hardware_type :: arp_hardware_type
  arp_protocol_type :: u16
  arp_hardware_address_length :: u8
  arp_protocol_address_length :: u8
  arp_operation :: arp_operation

record arp_packet =
  arp_hdr :: arp_header
  sender_hardware_address :: "byte list"
  sender_protocol_address :: u32
  target_hardware_address :: "byte list"
  target_protocol_address :: u32

definition arp_is_request :: "arp_packet \<Rightarrow> bool" where
  "arp_is_request p \<longleftrightarrow> arp_operation (arp_hdr p) = Arp_Request"

definition arp_is_reply :: "arp_packet \<Rightarrow> bool" where
  "arp_is_reply p \<longleftrightarrow> arp_operation (arp_hdr p) = Arp_Reply"

record arp_parse_result =
  ar_packet :: arp_packet
  ar_header_offset :: usize
  ar_packet_length :: usize

definition arp_parse_at :: "byte list \<Rightarrow> usize \<Rightarrow> arp_parse_result parsed" where
  "arp_parse_at packet offset =
     obind (ok_or packet_too_short (usize_checked_sub (length packet) offset)) (\<lambda>remaining.
     if remaining < 28 then Err packet_too_short
     else
     obind (read16 packet offset 0) (\<lambda>hardware_type.
     obind (read16 packet offset 2) (\<lambda>protocol_type.
     obind (index packet (uadd offset 4)) (\<lambda>hardware_address_length.
     obind (index packet (uadd offset 5)) (\<lambda>protocol_address_length.
     obind (read16 packet offset 6) (\<lambda>operation.
     if hardware_type \<noteq> 1 then Err packet_unsupported
     else if protocol_type \<noteq> 0x0800 then Err packet_unsupported
     else if hardware_address_length \<noteq> 6 then Err packet_malformed
     else if protocol_address_length \<noteq> 4 then Err packet_malformed
     else
     obind (read_bytes packet offset 8 6) (\<lambda>sha.
     obind (read32 packet offset 14) (\<lambda>spa.
     obind (read_bytes packet offset 18 6) (\<lambda>tha.
     obind (read32 packet offset 24) (\<lambda>tpa.
       Ok \<lparr> ar_packet = \<lparr> arp_hdr = \<lparr> arp_hardware_type = arp_hardware_from_u16 hardware_type,
              arp_protocol_type = protocol_type, arp_hardware_address_length = hardware_address_length,
              arp_protocol_address_length = protocol_address_length,
              arp_operation = arp_operation_from_u16 operation \<rparr>,
            sender_hardware_address = sha, sender_protocol_address = spa,
            target_hardware_address = tha, target_protocol_address = tpa \<rparr>,
            ar_header_offset = offset, ar_packet_length = 28 \<rparr>))))))))))"

definition arp_parse :: "byte list \<Rightarrow> arp_parse_result parsed" where
  "arp_parse packet = arp_parse_at packet 0"

definition is_arp_request :: "byte list \<Rightarrow> bool parsed" where
  "is_arp_request packet = omap (\<lambda>r. arp_is_request (ar_packet r)) (arp_parse packet)"

definition is_arp_reply :: "byte list \<Rightarrow> bool parsed" where
  "is_arp_reply packet = omap (\<lambda>r. arp_is_reply (ar_packet r)) (arp_parse packet)"

definition arp_sender_ip :: "byte list \<Rightarrow> u32 parsed" where
  "arp_sender_ip packet = omap (\<lambda>r. sender_protocol_address (ar_packet r)) (arp_parse packet)"

definition arp_sender_mac :: "byte list \<Rightarrow> byte list parsed" where
  "arp_sender_mac packet = omap (\<lambda>r. sender_hardware_address (ar_packet r)) (arp_parse packet)"

text \<open>The wire form of an ARP packet, the specification the parser is measured against.\<close>

definition arp_encode :: "arp_packet \<Rightarrow> byte list" where
  "arp_encode p =
     (let h = arp_hdr p; hw = arp_hardware_as_u16 (arp_hardware_type h); oper = arp_operation_as_u16 (arp_operation h) in
      [hi8 hw, lo8 hw, hi8 (arp_protocol_type h), lo8 (arp_protocol_type h),
       arp_hardware_address_length h, arp_protocol_address_length h, hi8 oper, lo8 oper]
      @ sender_hardware_address p @ octets4 (sender_protocol_address p)
      @ target_hardware_address p @ octets4 (target_protocol_address p))"

definition arp_ethernet_ipv4 :: "arp_packet \<Rightarrow> bool" where
  "arp_ethernet_ipv4 p \<longleftrightarrow> arp_hardware_type (arp_hdr p) = Arp_Ethernet \<and>
     arp_protocol_type (arp_hdr p) = 0x0800 \<and> arp_hardware_address_length (arp_hdr p) = 6 \<and>
     arp_protocol_address_length (arp_hdr p) = 4 \<and>
     (\<forall>v. arp_operation (arp_hdr p) = Arp_Op_Unknown v \<longrightarrow> v \<noteq> 1 \<and> v \<noteq> 2) \<and>
     length (sender_hardware_address p) = 6 \<and> length (target_hardware_address p) = 6"

lemma arp_codes [simp]:
  "arp_hardware_as_u16 (arp_hardware_from_u16 v) = v" "arp_operation_as_u16 (arp_operation_from_u16 w) = w"
  by (simp_all add: arp_hardware_from_u16_def arp_operation_from_u16_def)

text \<open>The packet \<open>parse_at\<close> reads at an offset where 28 bytes follow.\<close>

definition arp_read :: "byte list \<Rightarrow> usize \<Rightarrow> arp_packet" where
  "arp_read packet offset =
     \<lparr> arp_hdr = \<lparr> arp_hardware_type = arp_hardware_from_u16 (be16 (packet ! offset) (packet ! (offset + 1))),
         arp_protocol_type = be16 (packet ! (offset + 2)) (packet ! (offset + 3)),
         arp_hardware_address_length = packet ! (offset + 4),
         arp_protocol_address_length = packet ! (offset + 5),
         arp_operation = arp_operation_from_u16 (be16 (packet ! (offset + 6)) (packet ! (offset + 7))) \<rparr>,
       sender_hardware_address = take 6 (drop (offset + 8) packet),
       sender_protocol_address = be32 (packet ! (offset + 14)) (packet ! (offset + 15))
         (packet ! (offset + 16)) (packet ! (offset + 17)),
       target_hardware_address = take 6 (drop (offset + 18) packet),
       target_protocol_address = be32 (packet ! (offset + 24)) (packet ! (offset + 25))
         (packet ! (offset + 26)) (packet ! (offset + 27)) \<rparr>"

lemma arp_parse_at_window:
  assumes w: "window packet offset 28"
  shows "arp_parse_at packet offset =
    (if be16 (packet ! offset) (packet ! (offset + 1)) \<noteq> 1 \<or>
        be16 (packet ! (offset + 2)) (packet ! (offset + 3)) \<noteq> 0x0800 then Err packet_unsupported
     else if packet ! (offset + 4) \<noteq> 6 \<or> packet ! (offset + 5) \<noteq> 4 then Err packet_malformed
     else Ok \<lparr> ar_packet = arp_read packet offset, ar_header_offset = offset, ar_packet_length = 28 \<rparr>)"
proof -
  have rem: "usize_checked_sub (length packet) offset = Some (length packet - offset)" "28 \<le> length packet - offset"
    using w by (auto simp: window_def usize_checked_sub_def)
  then show ?thesis
    by (simp add: arp_parse_at_def arp_read_def read16_window [OF w] read32_window [OF w] read_bytes_window [OF w]
        index_window [OF w])
qed

lemma arp_encode_read:
  assumes w: "window packet offset 28"
  shows "arp_encode (arp_read packet offset) = take 28 (drop offset packet)"
proof -
  have "take 28 (drop offset packet) = take 8 (drop offset packet) @ take 6 (drop (offset + 8) packet)
      @ take 4 (drop (offset + 14) packet) @ take 6 (drop (offset + 18) packet) @ take 4 (drop (offset + 24) packet)"
    using take_drop_split [of 8 20 offset packet] take_drop_split [of 6 14 "offset + 8" packet]
      take_drop_split [of 4 10 "offset + 14" packet] take_drop_split [of 6 4 "offset + 18" packet]
    by (simp add: add.assoc)
  then show ?thesis
    using take_drop_8 [OF w, of 0]
    by (simp add: arp_encode_def arp_read_def octets4_def take_drop_4 [OF w] Let_def)
qed

lemma arp_parse_at_no_panic:
  assumes "length packet \<le> isize_max"
  shows "arp_parse_at packet offset \<noteq> Panic"
proof (cases "offset + 28 \<le> length packet")
  case True
  then have "window packet offset 28" using assms by (rule windowI)
  then show ?thesis by (simp add: arp_parse_at_window)
qed (auto simp: arp_parse_at_def usize_checked_sub_def)

text \<open>
  \<open>arp::parse_at\<close> never panics, at any offset of any byte string; a packet it accepts
  occupies 28 bytes inside the input and re-encodes to exactly the bytes that were parsed.
\<close>

lemma arp_parse_faithful:
  assumes "length packet \<le> isize_max"
  shows "case arp_parse_at packet offset of
      Panic \<Rightarrow> False
    | Err e \<Rightarrow> e \<in> {packet_too_short, packet_unsupported, packet_malformed}
    | Ok r \<Rightarrow> offset + 28 \<le> length packet \<and> ar_header_offset r = offset \<and>
        arp_encode (ar_packet r) = take 28 (drop offset packet)"
proof (cases "offset + 28 \<le> length packet")
  case True
  then have w: "window packet offset 28" using assms by (rule windowI)
  show ?thesis
    using True arp_encode_read [OF w] by (simp add: arp_parse_at_window [OF w])
qed (auto simp: arp_parse_at_def usize_checked_sub_def)

definition demo_arp :: arp_packet where
  "demo_arp = \<lparr> arp_hdr = \<lparr> arp_hardware_type = Arp_Ethernet, arp_protocol_type = 0x0800,
      arp_hardware_address_length = 6, arp_protocol_address_length = 4, arp_operation = Arp_Request \<rparr>,
      sender_hardware_address = [1, 2, 3, 4, 5, 6], sender_protocol_address = 0xC0A80001,
      target_hardware_address = [0, 0, 0, 0, 0, 0], target_protocol_address = 0xC0A80002 \<rparr>"

definition demo_arp_bytes :: "byte list" where
  "demo_arp_bytes = [0, 1, 8, 0, 6, 4, 0, 1, 1, 2, 3, 4, 5, 6, 0xC0, 0xA8, 0, 1, 0, 0, 0, 0, 0, 0, 0xC0, 0xA8, 0, 2]"

theorem arp_parse_faithful_witness:
  "\<exists>r. arp_parse_at (0 # 0 # demo_arp_bytes) 2 = Ok r \<and> arp_encode (ar_packet r) = demo_arp_bytes"
proof -
  have w: "window (0 # 0 # demo_arp_bytes) 2 28"
    by (simp add: window_def demo_arp_bytes_def isize_max_def)
  have "be16 0 1 = 1" "be16 8 0 = 0x800"
    by (simp_all add: be16_def)
  then have "\<exists>r. arp_parse_at (0 # 0 # demo_arp_bytes) 2 = Ok r"
    by (simp add: arp_parse_at_window [OF w]) (simp add: demo_arp_bytes_def eval_nat_numeral)
  then show ?thesis
    using arp_parse_faithful [of "0 # 0 # demo_arp_bytes" 2]
    by (auto simp: demo_arp_bytes_def isize_max_def)
qed

text \<open>
  ARP round trip: parsing the wire form of any Ethernet/IPv4 ARP packet gives that packet
  back, whatever bytes follow it.
\<close>

lemma arp_roundtrip:
  assumes "arp_ethernet_ipv4 p" and "28 + length rest \<le> isize_max"
  shows "arp_parse (arp_encode p @ rest) = Ok \<lparr> ar_packet = p, ar_header_offset = 0, ar_packet_length = 28 \<rparr>"
proof -
  let ?raw = "arp_encode p @ rest"
  obtain a0 a1 a2 a3 a4 a5 where sha: "sender_hardware_address p = [a0, a1, a2, a3, a4, a5]"
    using assms(1) by (auto simp: arp_ethernet_ipv4_def length_Suc_conv numeral_eq_Suc)
  obtain b0 b1 b2 b3 b4 b5 where tha: "target_hardware_address p = [b0, b1, b2, b3, b4, b5]"
    using assms(1) by (auto simp: arp_ethernet_ipv4_def length_Suc_conv numeral_eq_Suc)
  have len: "length (arp_encode p) = 28"
    by (simp add: arp_encode_def sha tha Let_def)
  then have w: "window ?raw 0 28"
    using assms(2) by (simp add: window_def)
  have op: "arp_operation_from_u16 (arp_operation_as_u16 (arp_operation (arp_hdr p))) = arp_operation (arp_hdr p)"
    using assms(1) by (cases "arp_operation (arp_hdr p)") (auto simp: arp_ethernet_ipv4_def arp_operation_from_u16_def)
  show ?thesis
    using assms(1) op
    by (simp add: arp_parse_def arp_parse_at_window [OF w] arp_read_def)
      (simp add: arp_encode_def sha tha octets4_def arp_ethernet_ipv4_def Let_def arp_hardware_from_u16_def
        eval_nat_numeral)
qed

theorem arp_roundtrip_witness:
  "arp_parse (arp_encode demo_arp @ [7]) = Ok \<lparr> ar_packet = demo_arp, ar_header_offset = 0, ar_packet_length = 28 \<rparr>"
  by (rule arp_roundtrip) (simp_all add: demo_arp_def arp_ethernet_ipv4_def isize_max_def)

end
