(* ===== verification/Parser_Ip.thy ===== *)
theory Parser_Ip
  imports Parser_Link
begin

text \<open>
  \<open>crates/packet-parser/src/ipv4.rs\<close> and \<open>ipv6.rs\<close>: the IP headers, the IPv4 header checksum
  and the chain of IPv6 extension headers.
\<close>

subsection \<open>The Internet checksum\<close>

text \<open>
  The word loop and the carry-folding loop shared by \<open>ipv4.rs\<close>, \<open>tcp.rs\<close> and \<open>udp.rs\<close>. The
  accumulator is a \<open>u32\<close>, so the addition wraps.
\<close>

fun sum_words :: "byte list \<Rightarrow> u32 \<Rightarrow> u32" where
  "sum_words (a # b # rest) acc = sum_words rest (acc + ucast (be16 a b))"
| "sum_words [a] acc = acc + ucast (push_bit 8 (ucast a :: u16))"
| "sum_words [] acc = acc"

lemma unat_low16: "unat (w AND 0xffff) = unat w mod 2 ^ 16" for w :: u32
proof -
  have "w AND 0xffff = take_bit 16 w"
    by (simp add: take_bit_eq_mask mask_eq_exp_minus_1)
  then have "unat (w AND 0xffff) = take_bit 16 (unat w)"
    by (simp only: unsigned_take_bit_eq)
  then show ?thesis by (simp only: take_bit_eq_mod)
qed

lemma unat_high16: "unat (drop_bit 16 w) = unat w div 2 ^ 16" for w :: u32
  by (simp only: unat_drop_bit_eq) (simp only: drop_bit_eq_div)

lemma fold_carry_decreases:
  fixes acc :: u32
  assumes "drop_bit 16 acc \<noteq> 0"
  shows "unat (acc AND 0xffff) + unat (drop_bit 16 acc) < unat acc"
    and "unat ((acc AND 0xffff) + drop_bit 16 acc) = unat (acc AND 0xffff) + unat (drop_bit 16 acc)"
proof -
  note lo = unat_low16 [of acc] and hi = unat_high16 [of acc]
  have pos: "0 < unat acc div 2 ^ 16"
    using assms hi by (metis gr0I unat_eq_0)
  have aux: "r + q < q * 2 ^ 16 + r" if "0 < q" for q r :: nat
    using that by simp
  show less: "unat (acc AND 0xffff) + unat (drop_bit 16 acc) < unat acc"
    unfolding lo hi using aux [OF pos, of "unat acc mod 2 ^ 16"] by (simp only: div_mult_mod_eq)
  have "unat acc < 2 ^ 32" using unsigned_less [of acc] by simp
  then show "unat ((acc AND 0xffff) + drop_bit 16 acc) = unat (acc AND 0xffff) + unat (drop_bit 16 acc)"
    using less by (simp add: unat_word_ariths)
qed

function fold_carry :: "u32 \<Rightarrow> u32" where
  "fold_carry acc = (if drop_bit 16 acc \<noteq> 0 then fold_carry ((acc AND 0xffff) + drop_bit 16 acc) else acc)"
  by auto
termination
  by (relation "measure unat") (use fold_carry_decreases in \<open>auto\<close>)

declare fold_carry.simps [simp del]

definition checksum_valid :: "u32 \<Rightarrow> bool" where
  \<comment> \<open>the folding loop followed by \<open>(acc as u16) == 0xffff\<close>\<close>
  "checksum_valid acc \<longleftrightarrow> (ucast (fold_carry acc) :: u16) = 0xffff"

text \<open>The sum of the big-endian words as a number, the last odd byte padded with zero.\<close>

fun words_total :: "byte list \<Rightarrow> nat" where
  "words_total (a # b # rest) = unat (be16 a b) + words_total rest"
| "words_total [a] = unat (be16 a 0)"
| "words_total [] = 0"

lemma words_total_bound: "words_total bs \<le> 65535 * ((length bs + 1) div 2)"
proof (induction bs rule: words_total.induct)
  case (1 a b rest)
  have "unat (be16 a b) < 2 ^ 16" using unsigned_less [of "be16 a b"] by simp
  then show ?case using 1 by simp
next
  case (2 a)
  have "unat (be16 a 0) < 2 ^ 16" using unsigned_less [of "be16 a 0"] by simp
  then show ?case by simp
qed simp

lemma sum_words_total:
  "unat acc + words_total bs < 2 ^ 32 \<Longrightarrow> unat (sum_words bs acc) = unat acc + words_total bs"
proof (induction bs acc rule: sum_words.induct)
  case (1 a b rest acc)
  then have "unat (acc + ucast (be16 a b)) = unat acc + unat (be16 a b)"
    by (simp add: unat_word_ariths unsigned_ucast_eq take_bit_nat_eq_self)
  then show ?case using 1 by simp
next
  case (2 a acc)
  have "push_bit 8 (ucast a :: u16) = be16 a 0"
    by (simp add: be16_def)
  then show ?case using 2 by (simp add: unat_word_ariths unsigned_ucast_eq take_bit_nat_eq_self)
qed simp

lemma fold_carry_spec:
  "unat (fold_carry acc) < 2 ^ 16 \<and> unat (fold_carry acc) mod 65535 = unat acc mod 65535 \<and>
   (unat (fold_carry acc) = 0 \<longleftrightarrow> unat acc = 0)"
proof (induction acc rule: fold_carry.induct)
  case (1 acc)
  note lo = unat_low16 [of acc] and hi = unat_high16 [of acc]
  show ?case
  proof (cases "drop_bit 16 acc = 0")
    case True
    then have "unat acc div 2 ^ 16 = 0" using hi by simp
    then have "unat acc < 2 ^ 16" by (simp add: div_eq_0_iff)
    then show ?thesis using True by (simp add: fold_carry.simps [of acc])
  next
    case False
    let ?s = "(acc AND 0xffff) + drop_bit 16 acc"
    have s: "unat ?s = unat acc mod 2 ^ 16 + unat acc div 2 ^ 16"
      using fold_carry_decreases(2) [OF False] lo hi by simp
    have split: "unat acc = 65535 * (unat acc div 2 ^ 16) + unat ?s"
      using s mult_div_mod_eq [of "2 ^ 16" "unat acc"] by simp
    have "unat acc mod 65535 = unat ?s mod 65535"
      by (subst split) simp
    moreover have "unat acc \<noteq> 0" using False hi by (metis div_0 unat_eq_0)
    moreover have "unat ?s \<noteq> 0"
      using s False hi by (metis add_is_0 unat_eq_0)
    ultimately show ?thesis
      using 1 [OF False] by (simp add: fold_carry.simps [of acc] False)
  qed
qed

lemma checksum_valid_iff: "checksum_valid acc \<longleftrightarrow> 0 < unat acc \<and> 65535 dvd unat acc"
proof -
  let ?r = "unat (fold_carry acc)"
  have r: "?r < 2 ^ 16" "?r mod 65535 = unat acc mod 65535" "?r = 0 \<longleftrightarrow> unat acc = 0"
    using fold_carry_spec [of acc] by auto
  have "unat (ucast (fold_carry acc) :: u16) = ?r"
    using r(1) by (simp add: unsigned_ucast_eq take_bit_nat_eq_self)
  then have "checksum_valid acc \<longleftrightarrow> ?r = 65535"
    unfolding checksum_valid_def by (simp add: word_unat_eq_iff)
  also have "\<dots> \<longleftrightarrow> ?r \<noteq> 0 \<and> ?r mod 65535 = 0"
    using r(1) by (auto simp: mod_eq_0_iff_dvd elim!: dvdE)
  finally show ?thesis using r by (simp add: mod_eq_0_iff_dvd)
qed

subsection \<open>IPv4\<close>

record ipv4_header =
  ip4_version :: u8
  ip4_ihl :: u8
  ip4_dscp :: u8
  ip4_ecn :: u8
  ip4_total_length :: u16
  ip4_identification :: u16
  ip4_dont_fragment :: bool
  ip4_more_fragments :: bool
  ip4_fragment_offset :: u16
  ip4_ttl :: u8
  ip4_protocol :: u8
  ip4_checksum :: u16
  ip4_source :: u32
  ip4_destination :: u32

definition ip4_header_length :: "ipv4_header \<Rightarrow> usize" where
  "ip4_header_length h = unat (ip4_ihl h) * 4"

definition ip4_is_fragmented :: "ipv4_header \<Rightarrow> bool" where
  "ip4_is_fragmented h \<longleftrightarrow> ip4_more_fragments h \<or> ip4_fragment_offset h \<noteq> 0"

definition ip4_is_first_fragment :: "ipv4_header \<Rightarrow> bool" where
  "ip4_is_first_fragment h \<longleftrightarrow> ip4_fragment_offset h = 0"

definition ip4_payload_length :: "ipv4_header \<Rightarrow> usize" where
  "ip4_payload_length h = unat (ip4_total_length h) - ip4_header_length h" \<comment> \<open>\<open>saturating_sub\<close>\<close>

record ipv4_parse_result =
  r4_header :: ipv4_header
  r4_header_offset :: usize
  r4_payload_offset :: usize
  r4_payload_length :: usize

definition ipv4_payload :: "ipv4_parse_result \<Rightarrow> byte list \<Rightarrow> byte list parsed" where
  "ipv4_payload r packet = payload_slice (r4_payload_offset r) (r4_payload_length r) packet"

definition ipv4_parse_at :: "byte list \<Rightarrow> usize \<Rightarrow> ipv4_parse_result parsed" where
  "ipv4_parse_at packet offset =
     (if length packet < uadd offset 20 then Err packet_too_short
      else
      obind (index packet offset) (\<lambda>first.
      let version = drop_bit 4 first; ihl = first AND 0x0f in
      if version \<noteq> 4 then Err packet_malformed
      else if ihl < 5 then Err packet_malformed
      else
      obind (ok_or integer_overflow (usize_checked_mul (unat ihl) 4)) (\<lambda>header_length.
      if length packet < uadd offset header_length then Err packet_too_short
      else
      obind (index packet (uadd offset 1)) (\<lambda>tos.
      obind (read16 packet offset 2) (\<lambda>total_length.
      if unat total_length < header_length then Err packet_malformed
      else
      obind (ok_or integer_overflow (usize_checked_add offset (unat total_length))) (\<lambda>total_end.
      if length packet < total_end then Err packet_too_short
      else
      obind (read16 packet offset 4) (\<lambda>identification.
      obind (read16 packet offset 6) (\<lambda>flags_fragment.
      obind (index packet (uadd offset 8)) (\<lambda>ttl.
      obind (index packet (uadd offset 9)) (\<lambda>protocol.
      obind (read16 packet offset 10) (\<lambda>checksum.
      obind (read32 packet offset 12) (\<lambda>source.
      obind (read32 packet offset 16) (\<lambda>destination.
        Ok \<lparr> r4_header = \<lparr> ip4_version = version, ip4_ihl = ihl, ip4_dscp = drop_bit 2 tos, ip4_ecn = tos AND 0x03,
               ip4_total_length = total_length, ip4_identification = identification,
               ip4_dont_fragment = (flags_fragment AND 0x4000 \<noteq> 0),
               ip4_more_fragments = (flags_fragment AND 0x2000 \<noteq> 0),
               ip4_fragment_offset = flags_fragment AND 0x1fff,
               ip4_ttl = ttl, ip4_protocol = protocol, ip4_checksum = checksum,
               ip4_source = source, ip4_destination = destination \<rparr>,
             r4_header_offset = offset, r4_payload_offset = uadd offset header_length,
             r4_payload_length = usub (unat total_length) header_length \<rparr>)))))))))))))"

definition ipv4_parse :: "byte list \<Rightarrow> ipv4_parse_result parsed" where
  "ipv4_parse packet = ipv4_parse_at packet 0"

definition ipv4_protocol_of :: "byte list \<Rightarrow> u8 parsed" where
  "ipv4_protocol_of packet = omap (\<lambda>r. ip4_protocol (r4_header r)) (ipv4_parse packet)"

definition ipv4_source_of :: "byte list \<Rightarrow> u32 parsed" where
  "ipv4_source_of packet = omap (\<lambda>r. ip4_source (r4_header r)) (ipv4_parse packet)"

definition ipv4_destination_of :: "byte list \<Rightarrow> u32 parsed" where
  "ipv4_destination_of packet = omap (\<lambda>r. ip4_destination (r4_header r)) (ipv4_parse packet)"

definition ipv4_validate_checksum :: "byte list \<Rightarrow> bool parsed" where
  "ipv4_validate_checksum packet =
     obind (ipv4_parse packet) (\<lambda>parsed.
       let start = r4_header_offset parsed; end = uadd start (ip4_header_length (r4_header parsed)) in
       obind (slice_range packet start end) (\<lambda>header.
         Ok (checksum_valid (sum_words header 0))))"

text \<open>The header that \<open>parse_at\<close> reads at an offset where 20 bytes follow.\<close>

definition ipv4_read :: "byte list \<Rightarrow> usize \<Rightarrow> ipv4_header" where
  "ipv4_read p off =
     (let flags_fragment = be16 (p ! (off + 6)) (p ! (off + 7)) in
      \<lparr> ip4_version = drop_bit 4 (p ! off), ip4_ihl = p ! off AND 0x0f,
        ip4_dscp = drop_bit 2 (p ! (off + 1)), ip4_ecn = p ! (off + 1) AND 0x03,
        ip4_total_length = be16 (p ! (off + 2)) (p ! (off + 3)),
        ip4_identification = be16 (p ! (off + 4)) (p ! (off + 5)),
        ip4_dont_fragment = (flags_fragment AND 0x4000 \<noteq> 0),
        ip4_more_fragments = (flags_fragment AND 0x2000 \<noteq> 0),
        ip4_fragment_offset = flags_fragment AND 0x1fff,
        ip4_ttl = p ! (off + 8), ip4_protocol = p ! (off + 9),
        ip4_checksum = be16 (p ! (off + 10)) (p ! (off + 11)),
        ip4_source = be32 (p ! (off + 12)) (p ! (off + 13)) (p ! (off + 14)) (p ! (off + 15)),
        ip4_destination = be32 (p ! (off + 16)) (p ! (off + 17)) (p ! (off + 18)) (p ! (off + 19)) \<rparr>)"

definition ipv4_ok :: "byte list \<Rightarrow> usize \<Rightarrow> bool" where
  "ipv4_ok p off \<longleftrightarrow> off + 20 \<le> length p \<and>
     (let h = ipv4_read p off in
        ip4_version h = 4 \<and> 5 \<le> ip4_ihl h \<and> off + ip4_header_length h \<le> length p \<and>
        ip4_header_length h \<le> unat (ip4_total_length h) \<and> off + unat (ip4_total_length h) \<le> length p)"

lemma unat_ihl: "unat (b AND 0x0f :: u8) < 16"
  using word_and_le1 [of b "0x0f :: u8"] by (simp add: word_le_nat_alt word_and_le1)

lemma ipv4_parse_at_eq:
  assumes "offset \<le> length packet" "length packet \<le> isize_max"
  shows "case ipv4_parse_at packet offset of
      Panic \<Rightarrow> False
    | Err e \<Rightarrow> \<not> ipv4_ok packet offset \<and> e \<in> {packet_too_short, packet_malformed}
    | Ok r \<Rightarrow> ipv4_ok packet offset \<and> r = \<lparr> r4_header = ipv4_read packet offset, r4_header_offset = offset,
        r4_payload_offset = offset + ip4_header_length (ipv4_read packet offset),
        r4_payload_length = unat (ip4_total_length (ipv4_read packet offset)) - ip4_header_length (ipv4_read packet offset) \<rparr>"
proof (cases "offset + 20 \<le> length packet")
  case False
  have "uadd offset 20 = offset + 20"
    using assms by (intro uadd_exact) (simp add: isize_max_def usize_max_def)
  then show ?thesis using False by (simp add: ipv4_parse_at_def ipv4_ok_def)
next
  case True
  then have w: "window packet offset 20" using assms(2) by (rule windowI)
  let ?ihl = "packet ! offset AND 0x0f"
  let ?tl = "be16 (packet ! (offset + 2)) (packet ! (offset + 3))"
  have ihl: "unat ?ihl < 16" by (rule unat_ihl)
  have tl: "unat ?tl < 65536" using unsigned_less [of ?tl] by simp
  have add: "uadd offset 20 = offset + 20" "uadd offset (unat ?ihl * 4) = offset + unat ?ihl * 4"
    using assms ihl by (auto intro!: uadd_exact simp: isize_max_def usize_max_def)
  have checks: "usize_checked_mul (unat ?ihl) 4 = Some (unat ?ihl * 4)"
    "usize_checked_add offset (unat ?tl) = Some (offset + unat ?tl)"
    using ihl tl assms by (simp_all add: usize_checked_mul_def usize_checked_add_def usize_max_def isize_max_def)
  have sub: "usub (unat ?tl) (unat ?ihl * 4) = unat ?tl - unat ?ihl * 4" if "unat ?ihl * 4 \<le> unat ?tl"
    using that tl by (intro usub_exact) (simp_all add: usize_max_def)
  have ih4: "5 \<le> ?ihl \<longleftrightarrow> \<not> ?ihl < 5" by (simp add: not_less)
  show ?thesis
    using True ihl sub
    by (simp add: ipv4_parse_at_def ipv4_ok_def ipv4_read_def ip4_header_length_def Let_def checks ih4
        index_window0 [OF w] index_window [OF w] read16_window [OF w] read32_window [OF w] add
        del: One_nat_def add_2_eq_Suc add_2_eq_Suc')
qed

text \<open>The wire form of the fixed part of an IPv4 header.\<close>

definition ipv4_encode :: "ipv4_header \<Rightarrow> byte list" where
  "ipv4_encode h =
     (let ff = (if ip4_dont_fragment h then 0x4000 else 0) OR (if ip4_more_fragments h then 0x2000 else 0)
               OR ip4_fragment_offset h in
      [push_bit 4 (ip4_version h) OR ip4_ihl h, push_bit 2 (ip4_dscp h) OR ip4_ecn h,
       hi8 (ip4_total_length h), lo8 (ip4_total_length h), hi8 (ip4_identification h), lo8 (ip4_identification h),
       hi8 ff, lo8 ff] @
      [ip4_ttl h, ip4_protocol h, hi8 (ip4_checksum h), lo8 (ip4_checksum h)] @
      octets4 (ip4_source h) @ octets4 (ip4_destination h))"

lemma nibbles [simp]: "push_bit 4 (drop_bit 4 b) OR (b AND 0x0f) = b" for b :: u8
proof -
  have "b AND 0x0f = take_bit 4 b" by (simp add: take_bit_eq_mask mask_eq_exp_minus_1)
  then show ?thesis by (auto intro!: bit_word_eqI simp: bit_simps)
qed

lemma low_two_bits [simp]: "push_bit 2 (drop_bit 2 b) OR (b AND 3) = b" for b :: u8
proof -
  have "b AND 3 = take_bit 2 b" by (simp add: take_bit_eq_mask mask_eq_exp_minus_1)
  then show ?thesis by (auto intro!: bit_word_eqI simp: bit_simps simp del: add_2_eq_Suc)
qed

lemma single_bit: "(if w AND 2 ^ n \<noteq> 0 then 2 ^ n else 0) = w AND 2 ^ n" for w :: "'a::len word"
  by (rule bit_word_eqI) (auto simp: bit_simps and_exp_eq_0_iff_not_bit)

lemma flags_fragment_bits:
  "(if w AND 0x4000 \<noteq> 0 then 0x4000 else 0) OR (if w AND 0x2000 \<noteq> 0 then 0x2000 else 0) OR (w AND 0x1fff) = w AND 0x7fff"
  for w :: u16
proof -
  have "(if w AND 0x4000 \<noteq> 0 then 0x4000 else 0) = w AND 0x4000" "(if w AND 0x2000 \<noteq> 0 then 0x2000 else 0) = w AND 0x2000"
  proof -
    have "(0x4000 :: u16) = 2 ^ 14" "(0x2000 :: u16) = 2 ^ 13" by simp_all
    then show "(if w AND 0x4000 \<noteq> 0 then 0x4000 else 0) = w AND 0x4000"
      "(if w AND 0x2000 \<noteq> 0 then 0x2000 else 0) = w AND 0x2000"
      by (simp_all only: single_bit)
  qed
  then show ?thesis by (simp flip: bit.conj_disj_distrib)
qed

lemma hi8_and [simp]: "hi8 (x AND y) = hi8 x AND hi8 y"
  by (simp add: hi8_def unsigned_and_eq drop_bit_and)

lemma lo8_and [simp]: "lo8 (x AND y) = lo8 x AND lo8 y"
  by (simp add: lo8_def unsigned_and_eq)

lemma ipv4_encode_read:
  assumes w: "window p off 20"
  shows "ipv4_encode (ipv4_read p off) = (take 20 (drop off p))[6 := p ! (off + 6) AND 0x7f]"
proof -
  have "take 20 (drop off p) = take 8 (drop off p) @ take 4 (drop (off + 8) p)
      @ take 4 (drop (off + 12) p) @ take 4 (drop (off + 16) p)"
    using take_drop_split [of 8 12 off p] take_drop_split [of 4 8 "off + 8" p] take_drop_split [of 4 4 "off + 12" p]
    by (simp add: add.assoc)
  moreover have "hi8 0x7fff = 0x7f" "lo8 0x7fff = 0xff"
    by (simp_all add: hi8_def lo8_def)
  moreover have "b AND 0xff = b" for b :: u8
  proof -
    have "0xff = (- 1 :: u8)" by simp
    then show ?thesis by (simp only: and.right_neutral)
  qed
  ultimately show ?thesis
    using take_drop_8 [OF w, of 0]
    by (simp add: ipv4_encode_def ipv4_read_def octets4_def take_drop_4 [OF w] Let_def flags_fragment_bits)
qed

text \<open>A 20-byte datagram with a correct checksum, for the witnesses.\<close>

definition demo_ipv4 :: "byte list" where
  "demo_ipv4 = [0x45, 0, 0, 20, 0, 0, 0x40, 0, 0x40, 6, 0x3c, 0xe2, 127, 0, 0, 1, 127, 0, 0, 1]"

lemma demo_ipv4_ok: "length demo_ipv4 = 20" "length demo_ipv4 \<le> isize_max" "ipv4_ok demo_ipv4 0"
proof -
  show "length demo_ipv4 = 20" "length demo_ipv4 \<le> isize_max"
    by (simp_all add: demo_ipv4_def isize_max_def)
  have "(0x45 :: u8) AND 0x0f = 5" "drop_bit 4 (0x45 :: u8) = 4" "be16 0 20 = 20"
    by (simp_all add: be16_def)
  then show "ipv4_ok demo_ipv4 0"
    by (simp add: ipv4_ok_def ipv4_read_def ip4_header_length_def demo_ipv4_def Let_def)
qed

lemma demo_ipv4_parse: "\<exists>r. ipv4_parse demo_ipv4 = Ok r \<and> ip4_header_length (r4_header r) = 20"
proof -
  have "ip4_header_length (ipv4_read demo_ipv4 0) = 20"
    by (simp add: ip4_header_length_def ipv4_read_def demo_ipv4_def Let_def)
  then show ?thesis
    using ipv4_parse_at_eq [of 0 demo_ipv4] demo_ipv4_ok
    by (cases "ipv4_parse_at demo_ipv4 0") (auto simp: ipv4_parse_def)
qed

text \<open>
  C26: \<open>ipv4::parse_at\<close> never panics at an offset inside the packet. It accepts exactly the
  inputs that carry a well-formed IPv4 datagram there (version 4, a header of 20 to 60 bytes
  that fits, a total length that covers the header and fits), and then header and payload
  together are exactly the datagram: the payload starts after the header and ends at the
  total length, inside the packet.
\<close>

theorem ipv4_parse_correct:
  assumes "offset \<le> length packet" and "length packet \<le> isize_max"
  shows "case ipv4_parse_at packet offset of
      Panic \<Rightarrow> False
    | Err e \<Rightarrow> \<not> ipv4_ok packet offset \<and> e \<in> {packet_too_short, packet_malformed}
    | Ok r \<Rightarrow> ipv4_ok packet offset \<and> r4_header r = ipv4_read packet offset \<and>
        20 \<le> ip4_header_length (r4_header r) \<and> ip4_header_length (r4_header r) \<le> 60 \<and>
        r4_payload_offset r = offset + ip4_header_length (r4_header r) \<and>
        r4_payload_offset r + r4_payload_length r = offset + unat (ip4_total_length (r4_header r)) \<and>
        r4_payload_offset r + r4_payload_length r \<le> length packet"
proof -
  have "unat (5 :: u8) \<le> unat (packet ! offset AND 15)" if "ipv4_ok packet offset"
    using that by (simp add: ipv4_ok_def ipv4_read_def Let_def word_le_nat_alt)
  then show ?thesis
    using ipv4_parse_at_eq [OF assms] unat_ihl [of "packet ! offset"]
    by (cases "ipv4_parse_at packet offset")
      (auto simp: ipv4_ok_def Let_def ip4_header_length_def ipv4_read_def)
qed

theorem ipv4_parse_correct_witness:
  "\<exists>r. ipv4_parse_at demo_ipv4 0 = Ok r \<and> r4_payload_offset r + r4_payload_length r \<le> 20"
  using ipv4_parse_correct [of 0 demo_ipv4] demo_ipv4_ok
  by (cases "ipv4_parse_at demo_ipv4 0") auto

text \<open>
  No bit of an accepted IPv4 header is lost: re-encoding the parsed header gives back the
  20 bytes of the fixed header, except that the reserved flag bit is cleared.
\<close>

lemma ipv4_header_faithful:
  assumes "offset \<le> length packet" and "length packet \<le> isize_max"
    and "ipv4_parse_at packet offset = Ok r"
  shows "ipv4_encode (r4_header r) = (take 20 (drop offset packet))[6 := packet ! (offset + 6) AND 0x7f]"
proof -
  have "ipv4_ok packet offset" "r4_header r = ipv4_read packet offset"
    using ipv4_parse_at_eq [OF assms(1,2)] assms(3) by auto
  moreover from this have "window packet offset 20"
    using assms(2) by (simp add: ipv4_ok_def window_def)
  ultimately show ?thesis using ipv4_encode_read by simp
qed

theorem ipv4_header_faithful_witness:
  "\<exists>r. ipv4_parse_at demo_ipv4 0 = Ok r \<and> ipv4_encode (r4_header r) = demo_ipv4"
proof -
  obtain r where r: "ipv4_parse_at demo_ipv4 0 = Ok r"
    using demo_ipv4_parse by (auto simp: ipv4_parse_def)
  moreover have "(take 20 (drop 0 demo_ipv4))[6 := demo_ipv4 ! (0 + 6) AND 0x7f] = demo_ipv4"
    by (simp add: demo_ipv4_def)
  ultimately show ?thesis
    using ipv4_header_faithful [OF _ demo_ipv4_ok(2) r] by simp
qed

text \<open>
  \<open>ipv4::validate_checksum\<close> terminates without panicking on every packet it can parse and
  returns true exactly if the sum of the big-endian 16-bit words of the header (checksum field
  included) is a positive multiple of 65535, the Internet checksum condition; the 32-bit
  accumulator never overflows.
\<close>

lemma ipv4_checksum_correct:
  assumes "length packet \<le> isize_max" and "ipv4_parse packet = Ok r"
  shows "ipv4_validate_checksum packet =
    (let total = words_total (take (ip4_header_length (r4_header r)) packet)
     in Ok (0 < total \<and> 65535 dvd total))"
proof -
  let ?n = "ip4_header_length (r4_header r)"
  have r: "r4_header_offset r = 0" "?n \<le> 60" "?n \<le> length packet"
    using ipv4_parse_at_eq [of 0 packet] assms unat_ihl [of "packet ! 0"]
    by (auto simp: ipv4_parse_def ipv4_ok_def Let_def ip4_header_length_def ipv4_read_def)
  have fin: "uadd 0 ?n = ?n"
    using r(2) uadd_exact [of 0 ?n] by (simp add: usize_max_def)
  have len: "length (take ?n packet) \<le> 60" using r by simp
  have "words_total (take ?n packet) \<le> 65535 * ((60 + 1) div 2)"
    using words_total_bound [of "take ?n packet"] len by (meson add_le_mono1 div_le_mono le_trans mult_le_mono2)
  then have "unat (sum_words (take ?n packet) 0) = words_total (take ?n packet)"
    using sum_words_total [of 0 "take ?n packet"] by simp
  then show ?thesis
    using r by (simp add: ipv4_validate_checksum_def assms(2) Let_def fin slice_range_def checksum_valid_iff)
qed

theorem ipv4_checksum_correct_witness: "ipv4_validate_checksum demo_ipv4 = Ok True"
proof -
  obtain r where r: "ipv4_parse demo_ipv4 = Ok r" "ip4_header_length (r4_header r) = 20"
    using demo_ipv4_parse by auto
  have "words_total demo_ipv4 = 131070"
    by (simp add: demo_ipv4_def be16_def)
  then show ?thesis
    using ipv4_checksum_correct [OF demo_ipv4_ok(2) r(1)] r(2) demo_ipv4_ok(1) by simp
qed

text \<open>
  The guards of \<open>ipv4::parse_at\<close> add to the offset without an overflow check: in a release
  build an offset close to \<open>usize::MAX\<close> wraps around, passes the length check and panics on
  the first index.
\<close>

lemma ipv4_parse_at_wraps:
  assumes "19 \<le> length packet" and "length packet \<le> isize_max"
  shows "ipv4_parse_at packet usize_max = Panic"
  using assms by (simp add: ipv4_parse_at_def uadd_def usize_max_def index_def isize_max_def)

theorem ipv4_parse_at_wraps_witness: "ipv4_parse_at demo_ipv4 usize_max = Panic"
  using ipv4_parse_at_wraps [of demo_ipv4] demo_ipv4_ok by simp

end
