(* ===== verification/Parser_Ipv6.thy ===== *)
theory Parser_Ipv6
  imports Parser_Ip
begin

text \<open>
  \<open>crates/packet-parser/src/ipv6.rs\<close>: the fixed IPv6 header and the walk over its extension
  headers, at most sixteen of them.
\<close>

record ipv6_header =
  ip6_version :: u8
  ip6_traffic_class :: u8
  ip6_flow_label :: u32
  ip6_payload_length :: u16
  ip6_next_header :: u8
  ip6_hop_limit :: u8
  ip6_source :: u128
  ip6_destination :: u128

record ipv6_extension =
  ext_header_type :: u8
  ext_next_header :: u8
  ext_offset :: usize
  ext_length :: usize

record ipv6_parse_result =
  r6_header :: ipv6_header
  r6_header_offset :: usize
  r6_transport_offset :: usize
  r6_transport_length :: usize
  r6_extensions :: "ipv6_extension list"
  r6_fragmented :: bool
  r6_first_fragment :: bool

definition transport_payload :: "ipv6_parse_result \<Rightarrow> byte list \<Rightarrow> byte list parsed" where
  "transport_payload r packet = payload_slice (r6_transport_offset r) (r6_transport_length r) packet"

definition u128_from_be_bytes :: "byte list \<Rightarrow> u128" where
  "u128_from_be_bytes bs = fold (\<lambda>b acc. push_bit 8 acc OR ucast b) bs 0"

text \<open>\<open>Ipv6Addr::from(<[u8; 16]>::try_from(&packet[lo..hi]).map_err(..)?)\<close>\<close>

definition read_ipv6_addr :: "byte list \<Rightarrow> usize \<Rightarrow> usize \<Rightarrow> u128 parsed" where
  "read_ipv6_addr packet lo hi =
     obind (slice_range packet lo hi) (\<lambda>bs.
       if length bs \<noteq> 16 then Err packet_malformed else Ok (u128_from_be_bytes bs))"

text \<open>
  The loop variables of the walk, and the walk itself: the first argument counts the passes
  left of \<open>for _ in 0..16\<close>. The \<open>break\<close>s, the early \<open>return Ok\<close> of the cases 50 and 59 and
  the end of the loop all build the result from the current loop variables.
\<close>

record ext_walk =
  ew_offset :: usize
  ew_header :: u8
  ew_extensions :: "ipv6_extension list"
  ew_fragmented :: bool
  ew_first_fragment :: bool

definition push_extension :: "u8 \<Rightarrow> usize \<Rightarrow> usize \<Rightarrow> ext_walk \<Rightarrow> ext_walk" where
  "push_extension next len end s =
     s\<lparr> ew_extensions := ew_extensions s @
          [\<lparr> ext_header_type = ew_header s, ext_next_header = next, ext_offset = ew_offset s, ext_length = len \<rparr>],
        ew_offset := end, ew_header := next \<rparr>"

primrec walk_extensions :: "nat \<Rightarrow> byte list \<Rightarrow> usize \<Rightarrow> ext_walk \<Rightarrow> ext_walk parsed" where
  "walk_extensions 0 packet payload_end s = Ok s"
| "walk_extensions (Suc n) packet payload_end s =
     (let cur = ew_offset s; hdr = ew_header s in
      if hdr = 0 \<or> hdr = 43 \<or> hdr = 60 then
        if uadd cur 2 > payload_end then Err packet_too_short
        else
        obind (index packet cur) (\<lambda>next.
        obind (index packet (uadd cur 1)) (\<lambda>hdr_ext_len.
        obind (ok_or integer_overflow
                 (Option.bind (usize_checked_add (unat hdr_ext_len) 1) (\<lambda>v. usize_checked_mul v 8))) (\<lambda>len.
        obind (ok_or integer_overflow (usize_checked_add cur len)) (\<lambda>end.
        if end > payload_end then Err packet_too_short
        else walk_extensions n packet payload_end (push_extension next len end s)))))
      else if hdr = 44 then
        if uadd cur 8 > payload_end then Err packet_too_short
        else
        obind (index packet cur) (\<lambda>next.
        obind (read16 packet cur 2) (\<lambda>fragment_field.
        let fragment_offset = drop_bit 3 fragment_field AND 0x1fff;
            s' = (push_extension next 8 (uadd cur 8) s)\<lparr> ew_fragmented := True, ew_first_fragment := (fragment_offset = 0) \<rparr> in
        if fragment_offset \<noteq> 0 then Ok s' else walk_extensions n packet payload_end s'))
      else if hdr = 51 then
        if uadd cur 2 > payload_end then Err packet_too_short
        else
        obind (index packet cur) (\<lambda>next.
        obind (index packet (uadd cur 1)) (\<lambda>payload_len.
        obind (ok_or integer_overflow
                 (Option.bind (usize_checked_add (unat payload_len) 2) (\<lambda>v. usize_checked_mul v 4))) (\<lambda>len.
        obind (ok_or integer_overflow (usize_checked_add cur len)) (\<lambda>end.
        if end > payload_end then Err packet_too_short
        else walk_extensions n packet payload_end (push_extension next len end s)))))
      else Ok s)"

definition ipv6_parse_at :: "byte list \<Rightarrow> usize \<Rightarrow> ipv6_parse_result parsed" where
  "ipv6_parse_at packet offset =
     (if length packet < uadd offset 40 then Err packet_too_short
      else
      obind (index packet offset) (\<lambda>first.
      if drop_bit 4 first \<noteq> 6 then Err packet_malformed
      else
      obind (index packet (uadd offset 1)) (\<lambda>b1.
      obind (index packet (uadd offset 2)) (\<lambda>b2.
      obind (index packet (uadd offset 3)) (\<lambda>b3.
      obind (read16 packet offset 4) (\<lambda>payload_length.
      obind (index packet (uadd offset 6)) (\<lambda>next_header.
      obind (index packet (uadd offset 7)) (\<lambda>hop_limit.
      obind (read_ipv6_addr packet (uadd offset 8) (uadd offset 24)) (\<lambda>source.
      obind (read_ipv6_addr packet (uadd offset 24) (uadd offset 40)) (\<lambda>destination.
      let payload_start = uadd offset 40 in
      obind (ok_or integer_overflow (usize_checked_add payload_start (unat payload_length))) (\<lambda>payload_end.
      if length packet < payload_end then Err packet_too_short
      else
      obind (walk_extensions 16 packet payload_end
          \<lparr> ew_offset = payload_start, ew_header = next_header, ew_extensions = [],
            ew_fragmented = False, ew_first_fragment = True \<rparr>) (\<lambda>s.
        Ok \<lparr> r6_header = \<lparr> ip6_version = 6,
               ip6_traffic_class = push_bit 4 (first AND 0x0f) OR drop_bit 4 b1,
               ip6_flow_label = push_bit 16 (ucast b1 AND 0x0f) OR push_bit 8 (ucast b2) OR ucast b3,
               ip6_payload_length = payload_length, ip6_next_header = next_header, ip6_hop_limit = hop_limit,
               ip6_source = source, ip6_destination = destination \<rparr>,
             r6_header_offset = offset, r6_transport_offset = ew_offset s,
             r6_transport_length = payload_end - ew_offset s, \<comment> \<open>\<open>saturating_sub\<close>\<close>
             r6_extensions = ew_extensions s, r6_fragmented = ew_fragmented s,
             r6_first_fragment = ew_first_fragment s \<rparr>))))))))))))"

definition ipv6_parse :: "byte list \<Rightarrow> ipv6_parse_result parsed" where
  "ipv6_parse packet = ipv6_parse_at packet 0"

definition ipv6_next_header_of :: "byte list \<Rightarrow> u8 parsed" where
  "ipv6_next_header_of packet = omap (\<lambda>r. ip6_next_header (r6_header r)) (ipv6_parse packet)"

definition ipv6_transport_protocol :: "byte list \<Rightarrow> u8 parsed" where
  "ipv6_transport_protocol packet =
     obind (ipv6_parse packet) (\<lambda>parsed.
       if r6_transport_offset parsed \<ge> length packet then Ok 59
       else if r6_extensions parsed \<noteq> [] then Ok (ext_next_header (last (r6_extensions parsed)))
       else Ok (ip6_next_header (r6_header parsed)))"

subsection \<open>The extension chain\<close>

text \<open>
  The extensions form a chain from position \<open>off\<close> with header type \<open>hdr\<close>: each starts where
  the previous one ends, has the type the previous one announced and is at least 8 bytes long.
\<close>

fun ext_chain :: "usize \<Rightarrow> u8 \<Rightarrow> ipv6_extension list \<Rightarrow> usize \<Rightarrow> u8 \<Rightarrow> bool" where
  "ext_chain off hdr [] off' hdr' \<longleftrightarrow> off = off' \<and> hdr = hdr'"
| "ext_chain off hdr (x # xs) off' hdr' \<longleftrightarrow>
     ext_offset x = off \<and> ext_header_type x = hdr \<and> hdr \<in> {0, 43, 44, 51, 60} \<and> 8 \<le> ext_length x \<and>
     ext_chain (off + ext_length x) (ext_next_header x) xs off' hdr'"

lemma ext_chain_snoc:
  "ext_chain off hdr (xs @ [x]) off' hdr' \<longleftrightarrow>
     (\<exists>mid mhdr. ext_chain off hdr xs mid mhdr \<and> ext_chain mid mhdr [x] off' hdr')"
  by (induction xs arbitrary: off hdr) auto

definition walk_ok :: "usize \<Rightarrow> u8 \<Rightarrow> usize \<Rightarrow> ext_walk \<Rightarrow> bool" where
  "walk_ok start hdr payload_end s \<longleftrightarrow>
     ext_chain start hdr (ew_extensions s) (ew_offset s) (ew_header s) \<and> ew_offset s \<le> payload_end \<and>
     (\<not> ew_fragmented s \<longrightarrow> ew_first_fragment s) \<and>
     (ew_fragmented s \<longleftrightarrow> (\<exists>x \<in> set (ew_extensions s). ext_header_type x = 44))"

lemma walk_ok_push:
  assumes "walk_ok start hdr payload_end s" "ew_header s \<in> {0, 43, 51, 60}" "8 \<le> len"
    "end = ew_offset s + len" "end \<le> payload_end"
  shows "walk_ok start hdr payload_end (push_extension next len end s)"
  using assms by (auto simp: walk_ok_def push_extension_def ext_chain_snoc)

lemma walk_ok_fragment:
  assumes "walk_ok start hdr payload_end s" "ew_header s = 44" "ew_offset s + 8 \<le> payload_end"
  shows "walk_ok start hdr payload_end
    ((push_extension next 8 (ew_offset s + 8) s)\<lparr> ew_fragmented := True, ew_first_fragment := b \<rparr>)"
  using assms by (auto simp: walk_ok_def push_extension_def ext_chain_snoc)

definition walk_post :: "usize \<Rightarrow> u8 \<Rightarrow> usize \<Rightarrow> nat \<Rightarrow> ext_walk parsed \<Rightarrow> bool" where
  "walk_post start hdr payload_end k r \<longleftrightarrow> (case r of
      Panic \<Rightarrow> False
    | Err e \<Rightarrow> e = packet_too_short
    | Ok s \<Rightarrow> walk_ok start hdr payload_end s \<and> length (ew_extensions s) \<le> k)"

lemma length_push_extension [simp]:
  "length (ew_extensions (push_extension next len end s)) = Suc (length (ew_extensions s))"
  by (simp add: push_extension_def)

lemma unat_u8: "unat b < 256" for b :: u8
  using unsigned_less [of b] by simp

lemma checked_ext_length:
  "Option.bind (usize_checked_add (unat (b :: u8)) 1) (\<lambda>v. usize_checked_mul v 8) = Some ((unat b + 1) * 8)"
  "Option.bind (usize_checked_add (unat (b :: u8)) 2) (\<lambda>v. usize_checked_mul v 4) = Some ((unat b + 2) * 4)"
  using unat_u8 [of b] by (simp_all add: usize_checked_add_def usize_checked_mul_def usize_max_def)

lemma walk_step_generic:
  assumes lim: "payload_end \<le> length packet" "length packet \<le> isize_max"
    and ok: "walk_ok start hdr payload_end s" and hdr: "ew_header s \<in> {0, 43, 51, 60}"
    and f: "\<And>b :: u8. f b = Some (g b)" "\<And>b. 8 \<le> g b \<and> g b \<le> 4096"
    and IH: "\<And>s. walk_ok start hdr payload_end s \<Longrightarrow>
      walk_post start hdr payload_end (length (ew_extensions s) + n) (walk_extensions n packet payload_end s)"
  shows "walk_post start hdr payload_end (Suc (length (ew_extensions s) + n))
    (if uadd (ew_offset s) 2 > payload_end then Err packet_too_short
     else
     obind (index packet (ew_offset s)) (\<lambda>next.
     obind (index packet (uadd (ew_offset s) 1)) (\<lambda>b.
     obind (ok_or integer_overflow (f b)) (\<lambda>len.
     obind (ok_or integer_overflow (usize_checked_add (ew_offset s) len)) (\<lambda>end.
     if end > payload_end then Err packet_too_short
     else walk_extensions n packet payload_end (push_extension next len end s))))))"
proof -
  have cur: "ew_offset s \<le> payload_end" using ok by (simp add: walk_ok_def)
  have add: "uadd (ew_offset s) 2 = ew_offset s + 2"
    using cur lim by (intro uadd_exact) (simp add: isize_max_def usize_max_def)
  show ?thesis
  proof (cases "ew_offset s + 2 \<le> payload_end")
    case False
    then show ?thesis by (simp add: walk_post_def add)
  next
    case True
    then have w: "window packet (ew_offset s) 2" using lim by (simp add: window_def)
    let ?next = "packet ! ew_offset s" and ?len = "g (packet ! (ew_offset s + 1))"
    have chk: "usize_checked_add (ew_offset s) ?len = Some (ew_offset s + ?len)"
      using cur lim f(2) [of "packet ! (ew_offset s + 1)"]
      by (simp add: usize_checked_add_def isize_max_def usize_max_def)
    show ?thesis
    proof (cases "ew_offset s + ?len \<le> payload_end")
      case False
      then show ?thesis
        using True by (simp add: add index_window0 [OF w] index_window [OF w] f chk walk_post_def del: One_nat_def)
    next
      case fits: True
      have "walk_ok start hdr payload_end (push_extension ?next ?len (ew_offset s + ?len) s)"
        using ok hdr f(2) fits by (intro walk_ok_push) auto
      from IH [OF this] show ?thesis
        using True fits by (simp add: add index_window0 [OF w] index_window [OF w] f chk del: One_nat_def)
    qed
  qed
qed

lemma walk_extensions_ok:
  assumes lim: "payload_end \<le> length packet" "length packet \<le> isize_max"
    and "walk_ok start hdr payload_end s"
  shows "walk_post start hdr payload_end (length (ew_extensions s) + n) (walk_extensions n packet payload_end s)"
  using assms(3)
proof (induction n arbitrary: s)
  case 0
  then show ?case by (simp add: walk_post_def)
next
  case (Suc n)
  have cur: "ew_offset s \<le> payload_end" using Suc.prems by (simp add: walk_ok_def)
  have add: "uadd (ew_offset s) 8 = ew_offset s + 8"
    using cur lim by (intro uadd_exact) (simp add: isize_max_def usize_max_def)
  have bound: "8 \<le> (unat b + 1) * 8 \<and> (unat b + 1) * 8 \<le> 4096" "8 \<le> (unat b + 2) * 4 \<and> (unat b + 2) * 4 \<le> 4096"
    for b :: u8 using unat_u8 [of b] by simp_all
  consider (generic) "ew_header s \<in> {0, 43, 60}" | (fragment) "ew_header s = 44" | (auth) "ew_header s = 51"
    | (stop) "ew_header s \<notin> {0, 43, 44, 51, 60}" by blast
  then show ?case
  proof cases
    case generic
    then show ?thesis
      using walk_step_generic [OF lim Suc.prems _ checked_ext_length(1) bound(1) Suc.IH] by (auto simp: Let_def)
  next
    case auth
    then show ?thesis
      using walk_step_generic [OF lim Suc.prems _ checked_ext_length(2) bound(2) Suc.IH] by (auto simp: Let_def)
  next
    case stop
    then show ?thesis using Suc.prems by (simp add: walk_post_def Let_def)
  next
    case fragment
    show ?thesis
    proof (cases "ew_offset s + 8 \<le> payload_end")
      case False
      then show ?thesis using fragment by (simp add: Let_def add walk_post_def)
    next
      case True
      then have w: "window packet (ew_offset s) 8" using lim by (simp add: window_def)
      let ?b = "drop_bit 3 (be16 (packet ! (ew_offset s + 2)) (packet ! (ew_offset s + 3))) AND 0x1fff = 0"
      let ?s = "(push_extension (packet ! ew_offset s) 8 (ew_offset s + 8) s)
        \<lparr> ew_fragmented := True, ew_first_fragment := ?b \<rparr>"
      have ok: "walk_ok start hdr payload_end ?s"
        using Suc.prems fragment True by (rule walk_ok_fragment)
      have eq: "walk_extensions (Suc n) packet payload_end s =
          (if \<not> ?b then Ok ?s else walk_extensions n packet payload_end ?s)"
        using fragment True
        by (simp add: Let_def add index_window0 [OF w] read16_window [OF w] del: add_2_eq_Suc add_2_eq_Suc')
      have "walk_post start hdr payload_end (length (ew_extensions ?s) + n) (walk_extensions n packet payload_end ?s)"
        using ok by (rule Suc.IH)
      then show ?thesis
        unfolding eq using ok by (auto simp: walk_post_def split: outcome.splits)
    qed
  qed
qed

subsection \<open>The fixed header\<close>

definition ipv6_read :: "byte list \<Rightarrow> usize \<Rightarrow> ipv6_header" where
  "ipv6_read p off =
     \<lparr> ip6_version = 6,
       ip6_traffic_class = push_bit 4 (p ! off AND 0x0f) OR drop_bit 4 (p ! (off + 1)),
       ip6_flow_label = push_bit 16 (ucast (p ! (off + 1)) AND 0x0f) OR push_bit 8 (ucast (p ! (off + 2)))
         OR ucast (p ! (off + 3)),
       ip6_payload_length = be16 (p ! (off + 4)) (p ! (off + 5)),
       ip6_next_header = p ! (off + 6), ip6_hop_limit = p ! (off + 7),
       ip6_source = u128_from_be_bytes (take 16 (drop (off + 8) p)),
       ip6_destination = u128_from_be_bytes (take 16 (drop (off + 24) p)) \<rparr>"

definition ipv6_result_of :: "byte list \<Rightarrow> usize \<Rightarrow> ext_walk \<Rightarrow> ipv6_parse_result" where
  "ipv6_result_of p off s =
     \<lparr> r6_header = ipv6_read p off, r6_header_offset = off, r6_transport_offset = ew_offset s,
       r6_transport_length = off + 40 + unat (ip6_payload_length (ipv6_read p off)) - ew_offset s,
       r6_extensions = ew_extensions s, r6_fragmented = ew_fragmented s,
       r6_first_fragment = ew_first_fragment s \<rparr>"

definition ipv6_walk_start :: "byte list \<Rightarrow> usize \<Rightarrow> ext_walk" where
  "ipv6_walk_start p off =
     \<lparr> ew_offset = off + 40, ew_header = p ! (off + 6), ew_extensions = [], ew_fragmented = False,
       ew_first_fragment = True \<rparr>"

lemma ipv6_parse_at_window:
  assumes w: "window packet offset 40"
  shows "ipv6_parse_at packet offset =
    (if drop_bit 4 (packet ! offset) \<noteq> 6 then Err packet_malformed
     else
       let payload_end = offset + 40 + unat (ip6_payload_length (ipv6_read packet offset)) in
       if length packet < payload_end then Err packet_too_short
       else omap (ipv6_result_of packet offset)
              (walk_extensions 16 packet payload_end (ipv6_walk_start packet offset)))"
proof -
  let ?tl = "be16 (packet ! (offset + 4)) (packet ! (offset + 5))"
  have lim: "offset + 40 \<le> length packet" "length packet \<le> isize_max"
    using w by (simp_all add: window_def)
  have add: "uadd offset 40 = offset + 40" "uadd offset 8 = offset + 8" "uadd offset 24 = offset + 24"
    using lim by (auto intro!: uadd_exact simp: isize_max_def usize_max_def)
  have "unat ?tl < 65536" using unsigned_less [of ?tl] by simp
  then have chk: "usize_checked_add (offset + 40) (unat ?tl) = Some (offset + 40 + unat ?tl)"
    using lim by (simp add: usize_checked_add_def usize_max_def isize_max_def)
  have addr: "read_ipv6_addr packet (offset + 8) (offset + 24) = Ok (u128_from_be_bytes (take 16 (drop (offset + 8) packet)))"
    "read_ipv6_addr packet (offset + 24) (offset + 40) = Ok (u128_from_be_bytes (take 16 (drop (offset + 24) packet)))"
    using lim by (simp_all add: read_ipv6_addr_def slice_range_def)
  have bind: "obind m (\<lambda>s. Ok (f s)) = omap f m" for f :: "ext_walk \<Rightarrow> ipv6_parse_result" and m :: "ext_walk parsed"
    by (cases m) auto
  show ?thesis
    using lim
    by (simp add: ipv6_parse_at_def ipv6_read_def ipv6_walk_start_def add chk addr Let_def bind
        index_window0 [OF w] index_window [OF w] read16_window [OF w]
        ipv6_result_of_def [abs_def] del: One_nat_def add_2_eq_Suc add_2_eq_Suc' walk_extensions.simps)
qed

lemma ipv6_parse_at_bounds:
  assumes "offset \<le> length packet" and "length packet \<le> isize_max"
  shows "case ipv6_parse_at packet offset of
      Panic \<Rightarrow> False
    | Err e \<Rightarrow> e \<in> {packet_too_short, packet_malformed}
    | Ok r \<Rightarrow> (\<exists>last_header. ext_chain (offset + 40) (ip6_next_header (r6_header r)) (r6_extensions r)
          (r6_transport_offset r) last_header) \<and>
        length (r6_extensions r) \<le> 16 \<and>
        r6_transport_offset r + r6_transport_length r = offset + 40 + unat (ip6_payload_length (r6_header r)) \<and>
        r6_transport_offset r + r6_transport_length r \<le> length packet \<and>
        (r6_fragmented r \<longleftrightarrow> (\<exists>x \<in> set (r6_extensions r). ext_header_type x = 44))"
proof (cases "offset + 40 \<le> length packet")
  case False
  have "uadd offset 40 = offset + 40"
    using assms by (intro uadd_exact) (simp add: isize_max_def usize_max_def)
  then show ?thesis using False by (simp add: ipv6_parse_at_def)
next
  case True
  then have w: "window packet offset 40" using assms by (simp add: window_def)
  let ?stop = "offset + 40 + unat (ip6_payload_length (ipv6_read packet offset))"
  let ?s0 = "ipv6_walk_start packet offset"
  show ?thesis
  proof (cases "?stop \<le> length packet")
    case fits: True
    have "walk_ok (offset + 40) (packet ! (offset + 6)) ?stop ?s0"
      by (simp add: walk_ok_def ipv6_walk_start_def)
    from walk_extensions_ok [OF fits assms(2) this, of 16]
    have post: "walk_post (offset + 40) (packet ! (offset + 6)) ?stop 16 (walk_extensions 16 packet ?stop ?s0)"
      by (simp add: ipv6_walk_start_def)
    show ?thesis
      unfolding ipv6_parse_at_window [OF w] Let_def
      using post fits
      by (cases "walk_extensions 16 packet ?stop ?s0")
        (auto simp: walk_post_def walk_ok_def ipv6_result_of_def ipv6_read_def)
  qed (simp add: ipv6_parse_at_window [OF w] Let_def)
qed


definition demo_ipv6 :: "byte list" where
  \<comment> \<open>payload: a hop-by-hop header of 8 bytes announcing TCP, and nothing after it\<close>
  "demo_ipv6 = [0x60, 0, 0, 0, 0, 8, 0, 64] @ replicate 32 1 @ [6, 0, 0, 0, 0, 0, 0, 0]"

lemma demo_ipv6_facts: "length demo_ipv6 = 48" "length demo_ipv6 \<le> isize_max" "window demo_ipv6 0 40"
  by (simp_all add: demo_ipv6_def isize_max_def window_def)

lemmas walk_numeral = walk_extensions.simps(2) [of "pred_numeral k" for k, folded numeral_eq_Suc]

lemma demo_ipv6_parses: "\<exists>r. ipv6_parse_at demo_ipv6 0 = Ok r \<and> length (r6_extensions r) = 1"
proof -
  have bytes: "demo_ipv6 ! 0 = 0x60" "demo_ipv6 ! 4 = 0" "demo_ipv6 ! 5 = 8" "demo_ipv6 ! 6 = 0"
    "demo_ipv6 ! 40 = 6" "demo_ipv6 ! 41 = 0"
    by (simp_all add: demo_ipv6_def nth_append)
  have w: "window demo_ipv6 40 8" by (simp add: window_def demo_ipv6_facts isize_max_def)
  have reads: "index demo_ipv6 40 = Ok 6" "index demo_ipv6 41 = Ok 0" "uadd 40 1 = 41" "be16 0 8 = 8" "uadd 40 2 = 42"
    "drop_bit 4 (0x60 :: u8) = 6"
    using bytes by (simp_all add: be16_def uadd_def index_def demo_ipv6_facts(1))
  let ?s = "\<lparr> ew_offset = 40, ew_header = 0, ew_extensions = [], ew_fragmented = False, ew_first_fragment = True \<rparr>"
  have start: "ipv6_walk_start demo_ipv6 0 = ?s"
    by (simp add: ipv6_walk_start_def bytes)
  have stop: "walk_extensions 15 demo_ipv6 48 (push_extension 6 8 48 ?s) = Ok (push_extension 6 8 48 ?s)"
    by (subst walk_numeral) (simp add: push_extension_def)
  have "walk_extensions 16 demo_ipv6 48 ?s = Ok (push_extension 6 8 48 ?s)"
    by (subst walk_numeral)
      (simp add: bytes reads stop
        usize_checked_mul_def usize_checked_add_def usize_max_def Let_def
        del: One_nat_def walk_extensions.simps)
  then show ?thesis
    by (simp add: ipv6_parse_at_window [OF demo_ipv6_facts(3)] ipv6_read_def bytes reads Let_def demo_ipv6_facts(1)
        ipv6_result_of_def push_extension_def start)
qed


text \<open>The wire form of the fixed IPv6 header.\<close>

definition ipv6_encode :: "ipv6_header \<Rightarrow> byte list" where
  "ipv6_encode h =
     [push_bit 4 (ip6_version h) OR drop_bit 4 (ip6_traffic_class h),
      push_bit 4 (ip6_traffic_class h) OR ucast (drop_bit 16 (ip6_flow_label h)),
      ucast (drop_bit 8 (ip6_flow_label h)), ucast (ip6_flow_label h),
      hi8 (ip6_payload_length h), lo8 (ip6_payload_length h), ip6_next_header h, ip6_hop_limit h]
     @ octets16 (ip6_source h) @ octets16 (ip6_destination h)"

lemma u128_from_be_bytes_snoc: "u128_from_be_bytes (bs @ [b]) = push_bit 8 (u128_from_be_bytes bs) OR ucast b"
  by (simp add: u128_from_be_bytes_def)

lemma bit_u128_from_be_bytes:
  "length bs \<le> 16 \<Longrightarrow> bit (u128_from_be_bytes bs) n \<longleftrightarrow>
     n < 8 * length bs \<and> bit (bs ! (length bs - 1 - n div 8)) (n mod 8)"
proof (induction bs arbitrary: n rule: rev_induct)
  case Nil
  then show ?case by (simp add: u128_from_be_bytes_def)
next
  case (snoc b bs)
  show ?case
  proof (cases "n < 8")
    case True
    then show ?thesis by (simp add: u128_from_be_bytes_snoc bit_simps)
  next
    case False
    then have d: "n div 8 = Suc ((n - 8) div 8)" "n mod 8 = (n - 8) mod 8"
      by (simp_all add: le_div_geq le_mod_geq)
    have "bit (ucast b :: u128) n = False"
      using False by (auto simp: bit_simps dest: bit_imp_le_length)
    then have "bit (u128_from_be_bytes (bs @ [b])) n \<longleftrightarrow> n < 128 \<and> bit (u128_from_be_bytes bs) (n - 8)"
      using False by (simp add: u128_from_be_bytes_snoc bit_or_iff bit_push_bit_iff)
    also have "\<dots> \<longleftrightarrow> n < 128 \<and> n - 8 < 8 * length bs \<and> bit (bs ! (length bs - 1 - (n - 8) div 8)) ((n - 8) mod 8)"
      using snoc by simp
    also have "\<dots> \<longleftrightarrow> n < 8 * length (bs @ [b]) \<and>
        bit ((bs @ [b]) ! (length (bs @ [b]) - 1 - n div 8)) (n mod 8)"
    proof -
      have "(n - 8) div 8 < length bs" if "n - 8 < 8 * length bs"
        using that by (simp add: less_mult_imp_div_less mult.commute)
      moreover have "n - 8 < 8 * length bs \<longleftrightarrow> n < 8 + 8 * length bs"
        using False by linarith
      ultimately show ?thesis
        using False snoc.prems d by (auto simp: nth_append)
    qed
    finally show ?thesis .
  qed
qed

lemma octets16_u128 [simp]: "length bs = 16 \<Longrightarrow> octets16 (u128_from_be_bytes bs) = bs"
proof (rule nth_equalityI)
  fix i assume len: "length bs = 16" and "i < length (octets16 (u128_from_be_bytes bs))"
  then have i: "i < 16" by simp
  have "octets16 (u128_from_be_bytes bs) ! i = ucast (drop_bit (8 * (15 - i)) (u128_from_be_bytes bs))"
    using i by (simp add: octets16_def rev_nth)
  also have "\<dots> = bs ! i"
  proof (rule bit_word_eqI)
    fix j assume "j < LENGTH(8)"
    then have "j < 8" by simp
    then show "bit (ucast (drop_bit (8 * (15 - i)) (u128_from_be_bytes bs)) :: byte) j \<longleftrightarrow> bit (bs ! i) j"
      using len i by (simp add: bit_simps bit_u128_from_be_bytes) linarith
  qed
  finally show "octets16 (u128_from_be_bytes bs) ! i = bs ! i" .
qed simp

lemma ipv6_first_bytes:
  fixes a b c d :: u8
  defines "tc \<equiv> push_bit 4 (a AND 0x0f) OR drop_bit 4 b"
    and "fl \<equiv> push_bit 16 (ucast b AND 0x0f) OR push_bit 8 (ucast c) OR (ucast d :: u32)"
  shows "drop_bit 4 a = 6 \<Longrightarrow> push_bit 4 6 OR drop_bit 4 tc = a"
    and "push_bit 4 tc OR ucast (drop_bit 16 fl) = b"
    and "ucast (drop_bit 8 fl) = c" and "ucast fl = d"
proof -
  have m8: "a AND 0x0f = take_bit 4 a" and m32: "ucast b AND (0x0f :: u32) = take_bit 4 (ucast b)"
    by (simp_all add: take_bit_eq_mask mask_eq_exp_minus_1)
  show "push_bit 4 6 OR drop_bit 4 tc = a" if six: "drop_bit 4 a = 6"
    unfolding six [symmetric] tc_def m8
    by (rule bit_word_eqI) (auto simp: bit_simps dest: bit_imp_le_length)
  show "push_bit 4 tc OR ucast (drop_bit 16 fl) = b"
  proof (rule bit_word_eqI)
    fix n assume "n < LENGTH(8)"
    then show "bit (push_bit 4 tc OR ucast (drop_bit 16 fl)) n \<longleftrightarrow> bit b n"
      unfolding tc_def fl_def m8 m32
      by (cases "n < 4") (auto simp: bit_simps dest: bit_imp_le_length)
  qed
  show "ucast (drop_bit 8 fl) = c"
    unfolding fl_def m32 by (rule bit_word_eqI) (auto simp: bit_simps dest: bit_imp_le_length)
  show "ucast fl = d"
    unfolding fl_def m32 by (rule bit_word_eqI) (auto simp: bit_simps)
qed

lemma ipv6_encode_read:
  assumes w: "window p off 40" and "drop_bit 4 (p ! off) = 6"
  shows "ipv6_encode (ipv6_read p off) = take 40 (drop off p)"
proof -
  have "take 40 (drop off p) = take 8 (drop off p) @ take 16 (drop (off + 8) p) @ take 16 (drop (off + 24) p)"
    using take_drop_split [of 8 32 off p] take_drop_split [of 16 16 "off + 8" p] by (simp add: add.assoc)
  moreover have "length (take 16 (drop (off + 8) p)) = 16" "length (take 16 (drop (off + 24) p)) = 16"
    using w by (auto simp: window_def)
  moreover have "take 8 (drop off p) = [p ! off, p ! (off + 1), p ! (off + 2), p ! (off + 3), p ! (off + 4),
      p ! (off + 5), p ! (off + 6), p ! (off + 7)]"
    using take_drop_8 [OF w, of 0] by simp
  ultimately show ?thesis
    by (simp only: ipv6_encode_def ipv6_read_def ipv6_header.simps ipv6_first_bytes(2-4)
        ipv6_first_bytes(1) [OF assms(2)] hi8_be16 lo8_be16 octets16_u128)
qed

text \<open>
  The fixed IPv6 header is parsed without loss: re-encoding the header of an accepted
  packet gives back its 40 bytes, addresses, flow label and traffic class included.
\<close>

lemma ipv6_header_faithful:
  assumes "offset \<le> length packet" and "length packet \<le> isize_max" and "ipv6_parse_at packet offset = Ok r"
  shows "ipv6_encode (r6_header r) = take 40 (drop offset packet)"
proof -
  have "uadd offset 40 = offset + 40"
    using assms by (intro uadd_exact) (simp add: isize_max_def usize_max_def)
  then have w: "window packet offset 40"
    using assms by (simp add: ipv6_parse_at_def window_def split: if_splits)
  then have "drop_bit 4 (packet ! offset) = 6" "r6_header r = ipv6_read packet offset"
    using assms(3) by (auto simp: ipv6_parse_at_window Let_def ipv6_result_of_def split: if_splits)
  then show ?thesis using ipv6_encode_read [OF w] by simp
qed

theorem ipv6_header_faithful_witness:
  "\<exists>r. ipv6_parse_at demo_ipv6 0 = Ok r \<and> ipv6_encode (r6_header r) = take 40 demo_ipv6"
proof -
  obtain r where r: "ipv6_parse_at demo_ipv6 0 = Ok r"
    using demo_ipv6_parses by blast
  then show ?thesis using ipv6_header_faithful [OF _ demo_ipv6_facts(2) r] by simp
qed

end
