(* ===== verification/Parser_Transport.thy ===== *)
theory Parser_Transport
  imports Parser_Ip
begin

text \<open>
  \<open>crates/packet-parser/src/tcp.rs\<close>, \<open>udp.rs\<close>, \<open>icmp.rs\<close> and \<open>icmpv6.rs\<close>: the transport
  headers and the TCP and UDP checksums over the IPv4 pseudo header.
\<close>

subsection \<open>TCP\<close>

record tcp_header =
  tcp_source_port :: u16
  tcp_destination_port :: u16
  tcp_sequence_number :: u32
  tcp_acknowledgment_number :: u32
  tcp_data_offset :: u8
  tcp_reserved :: u8
  tcp_flags :: u16
  tcp_window_size :: u16
  tcp_checksum :: u16
  tcp_urgent_pointer :: u16

definition tcp_header_length :: "tcp_header \<Rightarrow> usize" where
  "tcp_header_length h = unat (tcp_data_offset h) * 4"

definition tcp_fin :: "tcp_header \<Rightarrow> bool" where "tcp_fin h \<longleftrightarrow> tcp_flags h AND 0x001 \<noteq> 0"
definition tcp_syn :: "tcp_header \<Rightarrow> bool" where "tcp_syn h \<longleftrightarrow> tcp_flags h AND 0x002 \<noteq> 0"
definition tcp_rst :: "tcp_header \<Rightarrow> bool" where "tcp_rst h \<longleftrightarrow> tcp_flags h AND 0x004 \<noteq> 0"
definition tcp_psh :: "tcp_header \<Rightarrow> bool" where "tcp_psh h \<longleftrightarrow> tcp_flags h AND 0x008 \<noteq> 0"
definition tcp_ack :: "tcp_header \<Rightarrow> bool" where "tcp_ack h \<longleftrightarrow> tcp_flags h AND 0x010 \<noteq> 0"
definition tcp_urg :: "tcp_header \<Rightarrow> bool" where "tcp_urg h \<longleftrightarrow> tcp_flags h AND 0x020 \<noteq> 0"
definition tcp_ece :: "tcp_header \<Rightarrow> bool" where "tcp_ece h \<longleftrightarrow> tcp_flags h AND 0x040 \<noteq> 0"
definition tcp_cwr :: "tcp_header \<Rightarrow> bool" where "tcp_cwr h \<longleftrightarrow> tcp_flags h AND 0x080 \<noteq> 0"
definition tcp_ns :: "tcp_header \<Rightarrow> bool" where "tcp_ns h \<longleftrightarrow> tcp_flags h AND 0x100 \<noteq> 0"

record tcp_parse_result =
  tr_header :: tcp_header
  tr_header_offset :: usize
  tr_payload_offset :: usize
  tr_payload_length :: usize

definition tcp_payload :: "tcp_parse_result \<Rightarrow> byte list \<Rightarrow> byte list parsed" where
  "tcp_payload r packet = payload_slice (tr_payload_offset r) (tr_payload_length r) packet"

definition tcp_parse_at_with_length :: "byte list \<Rightarrow> usize \<Rightarrow> usize \<Rightarrow> tcp_parse_result parsed" where
  "tcp_parse_at_with_length packet offset len =
     (if len < 20 then Err packet_too_short
      else
      obind (ok_or integer_overflow (usize_checked_add offset len)) (\<lambda>end.
      if length packet < end then Err packet_too_short
      else if length packet < uadd offset 20 then Err packet_too_short
      else
      obind (read16 packet offset 0) (\<lambda>source_port.
      obind (read16 packet offset 2) (\<lambda>destination_port.
      obind (read32 packet offset 4) (\<lambda>sequence_number.
      obind (read32 packet offset 8) (\<lambda>acknowledgment_number.
      obind (index packet (uadd offset 12)) (\<lambda>b12.
      let data_offset = drop_bit 4 b12 in
      if data_offset < 5 then Err packet_malformed
      else
      obind (ok_or integer_overflow (usize_checked_mul (unat data_offset) 4)) (\<lambda>header_length.
      if header_length > len then Err packet_malformed
      else if length packet < uadd offset header_length then Err packet_too_short
      else
      obind (index packet (uadd offset 13)) (\<lambda>b13.
      obind (read16 packet offset 14) (\<lambda>window_size.
      obind (read16 packet offset 16) (\<lambda>checksum.
      obind (read16 packet offset 18) (\<lambda>urgent_pointer.
      let reserved = drop_bit 1 (b12 AND 0x0e); ns = (b12 AND 0x01 \<noteq> 0) in
        Ok \<lparr> tr_header = \<lparr> tcp_source_port = source_port, tcp_destination_port = destination_port,
               tcp_sequence_number = sequence_number, tcp_acknowledgment_number = acknowledgment_number,
               tcp_data_offset = data_offset, tcp_reserved = reserved,
               tcp_flags = (ucast b13 AND 0xff) OR push_bit 8 (of_bool ns),
               tcp_window_size = window_size, tcp_checksum = checksum, tcp_urgent_pointer = urgent_pointer \<rparr>,
             tr_header_offset = offset, tr_payload_offset = uadd offset header_length,
             tr_payload_length = usub len header_length \<rparr>))))))))))))"

definition tcp_parse_at :: "byte list \<Rightarrow> usize \<Rightarrow> tcp_parse_result parsed" where
  "tcp_parse_at packet offset = tcp_parse_at_with_length packet offset (length packet - offset)"

definition tcp_parse :: "byte list \<Rightarrow> tcp_parse_result parsed" where
  "tcp_parse packet = tcp_parse_at packet 0"

definition tcp_source_port_of :: "byte list \<Rightarrow> u16 parsed" where
  "tcp_source_port_of packet = omap (\<lambda>r. tcp_source_port (tr_header r)) (tcp_parse packet)"

definition tcp_flags_of :: "byte list \<Rightarrow> u16 parsed" where
  "tcp_flags_of packet = omap (\<lambda>r. tcp_flags (tr_header r)) (tcp_parse packet)"

definition tcp_is_syn :: "byte list \<Rightarrow> bool parsed" where
  "tcp_is_syn packet = omap (\<lambda>r. tcp_syn (tr_header r)) (tcp_parse packet)"

text \<open>
  \<open>validate_checksum\<close>: the pseudo header, the segment, and a padding byte if the total is
  odd, summed word by word.
\<close>

definition u16_try_from :: "usize \<Rightarrow> u16 parsed" where
  "u16_try_from n = (if n < 2 ^ 16 then Ok (of_nat n) else Err packet_malformed)"

definition tcp_validate_checksum :: "byte list \<Rightarrow> u32 \<Rightarrow> u32 \<Rightarrow> bool parsed" where
  "tcp_validate_checksum packet source destination =
     obind (tcp_parse packet) (\<lambda>parsed.
     let tcp_start = tr_header_offset parsed in
     obind (ok_or integer_overflow (usize_checked_add (tr_payload_offset parsed) (tr_payload_length parsed))) (\<lambda>tcp_end.
     obind (slice_range packet tcp_start tcp_end) (\<lambda>tcp.
     obind (ok_or integer_overflow (usize_checked_add 12 (length tcp))) (\<lambda>_.
     obind (u16_try_from (length tcp)) (\<lambda>tcp_length.
       let pseudo = octets4 source @ octets4 destination @ [0, 6] @ [hi8 tcp_length, lo8 tcp_length] @ tcp;
           pseudo' = (if length pseudo mod 2 \<noteq> 0 then pseudo @ [0] else pseudo) in
       Ok (checksum_valid (sum_words pseudo' 0)))))))"

definition tcp_read :: "byte list \<Rightarrow> usize \<Rightarrow> tcp_header" where
  "tcp_read p off =
     \<lparr> tcp_source_port = be16 (p ! off) (p ! (off + 1)),
       tcp_destination_port = be16 (p ! (off + 2)) (p ! (off + 3)),
       tcp_sequence_number = be32 (p ! (off + 4)) (p ! (off + 5)) (p ! (off + 6)) (p ! (off + 7)),
       tcp_acknowledgment_number = be32 (p ! (off + 8)) (p ! (off + 9)) (p ! (off + 10)) (p ! (off + 11)),
       tcp_data_offset = drop_bit 4 (p ! (off + 12)),
       tcp_reserved = drop_bit 1 (p ! (off + 12) AND 0x0e),
       tcp_flags = (ucast (p ! (off + 13)) AND 0xff) OR push_bit 8 (of_bool (p ! (off + 12) AND 0x01 \<noteq> 0)),
       tcp_window_size = be16 (p ! (off + 14)) (p ! (off + 15)),
       tcp_checksum = be16 (p ! (off + 16)) (p ! (off + 17)),
       tcp_urgent_pointer = be16 (p ! (off + 18)) (p ! (off + 19)) \<rparr>"

definition tcp_ok :: "byte list \<Rightarrow> usize \<Rightarrow> usize \<Rightarrow> bool" where
  "tcp_ok p off len \<longleftrightarrow> 20 \<le> len \<and> off + len \<le> length p \<and> 5 \<le> tcp_data_offset (tcp_read p off) \<and>
     tcp_header_length (tcp_read p off) \<le> len"

lemma unat_nibble: "unat (drop_bit 4 b) < 16" for b :: u8
proof -
  have "unat (drop_bit 4 b) = unat b div 2 ^ 4"
    by (simp only: unat_drop_bit_eq) (simp only: drop_bit_eq_div)
  moreover have "unat b < 256" using unsigned_less [of b] by simp
  ultimately show ?thesis by simp
qed

lemma tcp_parse_eq:
  assumes "length packet \<le> isize_max"
  shows "case tcp_parse_at_with_length packet offset len of
      Panic \<Rightarrow> False
    | Err e \<Rightarrow> \<not> tcp_ok packet offset len \<and> e \<in> {packet_too_short, packet_malformed, integer_overflow}
    | Ok r \<Rightarrow> tcp_ok packet offset len \<and> r = \<lparr> tr_header = tcp_read packet offset, tr_header_offset = offset,
        tr_payload_offset = offset + tcp_header_length (tcp_read packet offset),
        tr_payload_length = len - tcp_header_length (tcp_read packet offset) \<rparr>"
proof (cases "20 \<le> len \<and> offset + len \<le> length packet")
  case False
  then show ?thesis
    by (auto simp: tcp_parse_at_with_length_def tcp_ok_def usize_checked_add_def)
next
  case True
  then have w: "window packet offset 20" using assms by (simp add: window_def)
  let ?do = "drop_bit 4 (packet ! (offset + 12))"
  have d: "unat ?do < 16" by (rule unat_nibble)
  have lim: "offset + len \<le> isize_max" "20 \<le> len" "offset + 20 \<le> length packet" "offset + len \<le> length packet"
    using True assms by auto
  have add: "uadd offset 20 = offset + 20" "uadd offset (unat ?do * 4) = offset + unat ?do * 4"
    using lim d by (auto intro!: uadd_exact simp: isize_max_def usize_max_def)
  have checks: "usize_checked_mul (unat ?do) 4 = Some (unat ?do * 4)"
    "usize_checked_add offset len = Some (offset + len)"
    using d lim by (simp_all add: usize_checked_mul_def usize_checked_add_def usize_max_def isize_max_def)
  have sub: "usub len (unat ?do * 4) = len - unat ?do * 4" if "unat ?do * 4 \<le> len"
    using that lim by (intro usub_exact) (simp_all add: usize_max_def isize_max_def)
  have d5: "5 \<le> ?do \<longleftrightarrow> \<not> ?do < 5" by (simp add: not_less)
  have fit: "\<not> length packet < offset + unat ?do * 4" if "unat ?do * 4 \<le> len"
    using that lim by simp
  show ?thesis
    using lim sub fit
    by (simp add: tcp_parse_at_with_length_def tcp_ok_def tcp_read_def tcp_header_length_def Let_def checks d5
        read16_window [OF w] read32_window [OF w] index_window [OF w] add
        del: One_nat_def add_2_eq_Suc add_2_eq_Suc')
qed

text \<open>The wire form of the fixed TCP header.\<close>

definition tcp_encode :: "tcp_header \<Rightarrow> byte list" where
  "tcp_encode h =
     [hi8 (tcp_source_port h), lo8 (tcp_source_port h), hi8 (tcp_destination_port h), lo8 (tcp_destination_port h)]
     @ octets4 (tcp_sequence_number h) @ octets4 (tcp_acknowledgment_number h) @
     [push_bit 4 (tcp_data_offset h) OR push_bit 1 (tcp_reserved h) OR hi8 (tcp_flags h), lo8 (tcp_flags h),
      hi8 (tcp_window_size h), lo8 (tcp_window_size h)] @
     [hi8 (tcp_checksum h), lo8 (tcp_checksum h), hi8 (tcp_urgent_pointer h), lo8 (tcp_urgent_pointer h)]"

lemma tcp_flag_bytes:
  fixes b12 b13 :: u8
  defines "fl \<equiv> (ucast b13 AND 0xff) OR push_bit 8 (of_bool (b12 AND 0x01 \<noteq> 0)) :: u16"
  shows "push_bit 4 (drop_bit 4 b12) OR push_bit 1 (drop_bit 1 (b12 AND 0x0e)) OR hi8 fl = b12"
    and "lo8 fl = b13"
proof -
  have m: "ucast b13 AND (0xff :: u16) = take_bit 8 (ucast b13)"
    by (simp add: take_bit_eq_mask mask_eq_exp_minus_1)
  have one: "b12 AND 0x01 \<noteq> 0 \<longleftrightarrow> bit b12 0"
    using and_exp_eq_0_iff_not_bit [of b12 0] by simp
  show "lo8 fl = b13"
    unfolding fl_def m lo8_def by (rule bit_word_eqI) (auto simp: bit_simps)
  have hi: "hi8 fl = of_bool (bit b12 0)"
    unfolding fl_def m hi8_def one
    by (rule bit_word_eqI) (auto simp: bit_simps dest: bit_imp_le_length)
  have "take_bit 1 (b12 AND 0x0e) = 0"
    by (simp add: take_bit_eq_mask and.assoc)
  then have mid: "push_bit 1 (drop_bit 1 (b12 AND 0x0e)) = b12 AND 0x0e"
    by (metis bits_ident add.right_neutral)
  show "push_bit 4 (drop_bit 4 b12) OR push_bit 1 (drop_bit 1 (b12 AND 0x0e)) OR hi8 fl = b12"
    unfolding hi mid
  proof (rule bit_word_eqI)
    fix n assume "n < LENGTH(8)"
    moreover have "n < 4 \<Longrightarrow> bit (0x0e :: u8) n \<longleftrightarrow> n \<noteq> 0"
      by (cases n rule: nat.exhaust) (auto simp: less_Suc_eq numeral_eq_Suc)
    ultimately show "bit (push_bit 4 (drop_bit 4 b12) OR b12 AND 0x0e OR of_bool (bit b12 0)) n \<longleftrightarrow> bit b12 n"
      by (cases "n = 0"; cases "n < 4") (auto simp: bit_simps)
  qed
qed

lemma tcp_encode_read:
  assumes w: "window p off 20"
  shows "tcp_encode (tcp_read p off) = take 20 (drop off p)"
proof -
  have "take 20 (drop off p) = take 4 (drop (off + 0) p) @ take 4 (drop (off + 4) p) @ take 4 (drop (off + 8) p)
      @ take 4 (drop (off + 12) p) @ take 4 (drop (off + 16) p)"
    using take_drop_split [of 4 16 off p] take_drop_split [of 4 12 "off + 4" p] take_drop_split [of 4 8 "off + 8" p]
      take_drop_split [of 4 4 "off + 12" p]
    by (simp add: add.assoc)
  then show ?thesis
    by (simp only: take_drop_4 [OF w] tcp_encode_def tcp_read_def tcp_header.simps hi8_be16 lo8_be16 octets4_def
        byte3_be32 byte2_be32 byte1_be32 byte0_be32 tcp_flag_bytes) simp
qed

text \<open>
  C28: \<open>tcp::parse_at_with_length\<close> never panics, for any offset and any claimed length. It
  accepts exactly the segments of at least 20 bytes that lie inside the packet and whose data
  offset is at least five words and fits; the payload is then exactly the rest of the claimed
  segment, and re-encoding the header gives back its 20 bytes.
\<close>

theorem tcp_parse_correct:
  assumes "length packet \<le> isize_max"
  shows "case tcp_parse_at_with_length packet offset len of
      Panic \<Rightarrow> False
    | Err e \<Rightarrow> \<not> tcp_ok packet offset len \<and> e \<in> {packet_too_short, packet_malformed, integer_overflow}
    | Ok r \<Rightarrow> tcp_ok packet offset len \<and>
        tr_payload_offset r = offset + tcp_header_length (tr_header r) \<and>
        tr_payload_offset r + tr_payload_length r = offset + len \<and> offset + len \<le> length packet \<and>
        tcp_payload r packet = Ok (take (len - tcp_header_length (tr_header r))
          (drop (offset + tcp_header_length (tr_header r)) packet)) \<and>
        tcp_encode (tr_header r) = take 20 (drop offset packet)"
proof -
  have u: "length packet \<le> usize_max" using assms by (simp add: isize_max_def usize_max_def)
  have enc: "tcp_encode (tcp_read packet offset) = take 20 (drop offset packet)" if "tcp_ok packet offset len"
    using that assms by (intro tcp_encode_read) (simp add: tcp_ok_def window_def)
  show ?thesis
    using tcp_parse_eq [OF assms, of offset len] enc
    by (cases "tcp_parse_at_with_length packet offset len")
      (auto simp: tcp_ok_def tcp_payload_def payload_slice_eq [OF u])
qed

definition demo_tcp :: "byte list" where
  \<comment> \<open>a SYN segment from port 1234 to port 80 with two bytes of payload\<close>
  "demo_tcp = [0x04, 0xd2, 0, 80] @ [0, 0, 0, 1] @ [0, 0, 0, 0] @ [0x50, 2, 0x20, 0] @ [0, 0, 0, 0] @ [7, 8]"

lemma demo_tcp_ok: "length demo_tcp = 22" "length demo_tcp \<le> isize_max" "tcp_ok demo_tcp 0 22"
proof -
  show "length demo_tcp = 22" "length demo_tcp \<le> isize_max"
    by (simp_all add: demo_tcp_def isize_max_def)
  have "drop_bit 4 (0x50 :: u8) = 5" by simp
  then show "tcp_ok demo_tcp 0 22"
    by (simp add: tcp_ok_def tcp_read_def tcp_header_length_def demo_tcp_def)
qed

theorem tcp_parse_correct_witness:
  "\<exists>r. tcp_parse_at_with_length demo_tcp 0 22 = Ok r \<and> tr_payload_offset r + tr_payload_length r = 22 \<and>
     tcp_encode (tr_header r) = take 20 demo_tcp"
  using tcp_parse_correct [of demo_tcp 0 22] demo_tcp_ok
  by (cases "tcp_parse_at_with_length demo_tcp 0 22") auto

subsection \<open>UDP\<close>

record udp_header =
  udp_source_port :: u16
  udp_destination_port :: u16
  udp_length :: u16
  udp_checksum :: u16

record udp_parse_result =
  ur_header :: udp_header
  ur_header_offset :: usize
  ur_payload_offset :: usize
  ur_payload_length :: usize

definition udp_payload :: "udp_parse_result \<Rightarrow> byte list \<Rightarrow> byte list parsed" where
  "udp_payload r packet = payload_slice (ur_payload_offset r) (ur_payload_length r) packet"

definition udp_parse_at_with_length :: "byte list \<Rightarrow> usize \<Rightarrow> usize \<Rightarrow> udp_parse_result parsed" where
  "udp_parse_at_with_length packet offset available_length =
     (if available_length < 8 then Err packet_too_short
      else
      obind (ok_or integer_overflow (usize_checked_add offset available_length)) (\<lambda>end.
      if end > length packet then Err packet_too_short
      else
      obind (read16 packet offset 0) (\<lambda>source_port.
      obind (read16 packet offset 2) (\<lambda>destination_port.
      obind (read16 packet offset 4) (\<lambda>len.
      obind (read16 packet offset 6) (\<lambda>checksum.
      if len < 8 then Err packet_malformed
      else if unat len > available_length then Err packet_malformed
      else Ok \<lparr> ur_header = \<lparr> udp_source_port = source_port, udp_destination_port = destination_port,
                  udp_length = len, udp_checksum = checksum \<rparr>,
                ur_header_offset = offset, ur_payload_offset = uadd offset 8,
                ur_payload_length = usub (unat len) 8 \<rparr>))))))"

definition udp_parse_at :: "byte list \<Rightarrow> usize \<Rightarrow> udp_parse_result parsed" where
  "udp_parse_at packet offset =
     obind (ok_or packet_too_short (usize_checked_sub (length packet) offset)) (\<lambda>available.
       udp_parse_at_with_length packet offset available)"

definition udp_parse :: "byte list \<Rightarrow> udp_parse_result parsed" where
  "udp_parse packet = udp_parse_at packet 0"

definition udp_is_dns :: "byte list \<Rightarrow> bool parsed" where
  "udp_is_dns packet = omap (\<lambda>r. udp_source_port (ur_header r) = 53 \<or> udp_destination_port (ur_header r) = 53)
     (udp_parse packet)"

definition udp_is_dhcp :: "byte list \<Rightarrow> bool parsed" where
  "udp_is_dhcp packet = omap (\<lambda>r.
     let source = udp_source_port (ur_header r); destination = udp_destination_port (ur_header r) in
     (source = 67 \<and> destination = 68) \<or> (source = 68 \<and> destination = 67)) (udp_parse packet)"

definition udp_validate_checksum_ipv4 :: "byte list \<Rightarrow> u32 \<Rightarrow> u32 \<Rightarrow> bool parsed" where
  "udp_validate_checksum_ipv4 packet source destination =
     obind (udp_parse packet) (\<lambda>parsed.
     let udp_start = ur_header_offset parsed in
     obind (ok_or integer_overflow (usize_checked_add (ur_payload_offset parsed) (ur_payload_length parsed))) (\<lambda>udp_end.
     obind (slice_range packet udp_start udp_end) (\<lambda>udp.
     obind (u16_try_from (length udp)) (\<lambda>udp_length.
       let sum1 = sum_words (octets4 source) 0;
           sum2 = sum_words (octets4 destination) sum1;
           sum3 = sum2 + 17 + ucast udp_length;
           sum4 = sum_words udp sum3 in
       if udp_checksum (ur_header parsed) = 0 then Ok True else Ok (checksum_valid sum4)))))"

definition udp_read :: "byte list \<Rightarrow> usize \<Rightarrow> udp_header" where
  "udp_read p off =
     \<lparr> udp_source_port = be16 (p ! off) (p ! (off + 1)), udp_destination_port = be16 (p ! (off + 2)) (p ! (off + 3)),
       udp_length = be16 (p ! (off + 4)) (p ! (off + 5)), udp_checksum = be16 (p ! (off + 6)) (p ! (off + 7)) \<rparr>"

definition udp_ok :: "byte list \<Rightarrow> usize \<Rightarrow> usize \<Rightarrow> bool" where
  "udp_ok p off avail \<longleftrightarrow> 8 \<le> avail \<and> off + avail \<le> length p \<and>
     8 \<le> unat (udp_length (udp_read p off)) \<and> unat (udp_length (udp_read p off)) \<le> avail"

lemma udp_parse_eq:
  assumes "length packet \<le> isize_max"
  shows "case udp_parse_at_with_length packet offset avail of
      Panic \<Rightarrow> False
    | Err e \<Rightarrow> \<not> udp_ok packet offset avail \<and> e \<in> {packet_too_short, packet_malformed, integer_overflow}
    | Ok r \<Rightarrow> udp_ok packet offset avail \<and> r = \<lparr> ur_header = udp_read packet offset, ur_header_offset = offset,
        ur_payload_offset = offset + 8, ur_payload_length = unat (udp_length (udp_read packet offset)) - 8 \<rparr>"
proof (cases "8 \<le> avail \<and> offset + avail \<le> length packet")
  case False
  then show ?thesis by (auto simp: udp_parse_at_with_length_def udp_ok_def usize_checked_add_def)
next
  case True
  then have w: "window packet offset 8" using assms by (simp add: window_def)
  let ?len = "be16 (packet ! (offset + 4)) (packet ! (offset + 5))"
  have lim: "offset + avail \<le> isize_max" "8 \<le> avail" "offset + avail \<le> length packet"
    using True assms by auto
  have add: "uadd offset 8 = offset + 8" "usize_checked_add offset avail = Some (offset + avail)"
    using lim by (auto intro!: uadd_exact simp: isize_max_def usize_max_def usize_checked_add_def)
  have sub: "usub (unat ?len) 8 = unat ?len - 8" if "8 \<le> unat ?len"
    using that unsigned_less [of ?len, where ?'a = nat] by (intro usub_exact) (simp_all add: usize_max_def)
  have l8: "?len < 8 \<longleftrightarrow> unat ?len < 8" by (simp add: word_less_nat_alt)
  show ?thesis
    using lim sub
    by (simp add: udp_parse_at_with_length_def udp_ok_def udp_read_def add read16_window [OF w] l8
        del: One_nat_def add_2_eq_Suc add_2_eq_Suc')
qed

definition udp_encode :: "udp_header \<Rightarrow> byte list" where
  "udp_encode h =
     [hi8 (udp_source_port h), lo8 (udp_source_port h), hi8 (udp_destination_port h), lo8 (udp_destination_port h),
      hi8 (udp_length h), lo8 (udp_length h), hi8 (udp_checksum h), lo8 (udp_checksum h)]"

lemma udp_encode_read: "window p off 8 \<Longrightarrow> udp_encode (udp_read p off) = take 8 (drop off p)"
  using take_drop_8 [of p off 8 0] by (simp add: udp_encode_def udp_read_def)

text \<open>
  \<open>udp::parse_at_with_length\<close> never panics, for any offset and any claimed length. It
  accepts exactly the datagrams inside the packet whose length field is at least the header and
  at most the claimed length; the payload is then exactly what the length field announces, and
  re-encoding the header gives back its 8 bytes.
\<close>

lemma udp_parse_correct:
  assumes "length packet \<le> isize_max"
  shows "case udp_parse_at_with_length packet offset avail of
      Panic \<Rightarrow> False
    | Err e \<Rightarrow> \<not> udp_ok packet offset avail \<and> e \<in> {packet_too_short, packet_malformed, integer_overflow}
    | Ok r \<Rightarrow> udp_ok packet offset avail \<and>
        udp_payload r packet = Ok (take (unat (udp_length (ur_header r)) - 8) (drop (offset + 8) packet)) \<and>
        ur_payload_offset r + ur_payload_length r \<le> offset + avail \<and> offset + avail \<le> length packet \<and>
        udp_encode (ur_header r) = take 8 (drop offset packet)"
proof -
  have u: "length packet \<le> usize_max" using assms by (simp add: isize_max_def usize_max_def)
  have enc: "udp_encode (udp_read packet offset) = take 8 (drop offset packet)" if "udp_ok packet offset avail"
    using that assms by (intro udp_encode_read) (simp add: udp_ok_def window_def)
  show ?thesis
    using udp_parse_eq [OF assms, of offset avail] enc
    by (cases "udp_parse_at_with_length packet offset avail")
      (auto simp: udp_ok_def udp_payload_def payload_slice_eq [OF u])
qed

definition demo_udp :: "byte list" where
  \<comment> \<open>port 53 to port 1234, no checksum, three bytes of payload\<close>
  "demo_udp = [0, 53, 0x04, 0xd2, 0, 11, 0, 0, 1, 2, 3]"

lemma demo_udp_ok: "length demo_udp = 11" "length demo_udp \<le> isize_max" "udp_ok demo_udp 0 11"
  by (simp_all add: demo_udp_def isize_max_def udp_ok_def udp_read_def be16_def)

theorem udp_parse_correct_witness:
  "\<exists>r. udp_parse_at_with_length demo_udp 0 11 = Ok r \<and> udp_encode (ur_header r) = take 8 demo_udp"
  using udp_parse_correct [of demo_udp 0 11] demo_udp_ok
  by (cases "udp_parse_at_with_length demo_udp 0 11") auto

subsection \<open>Checksums over the pseudo header\<close>

lemma even_append_words:
  "even (length xs) \<Longrightarrow> words_total (xs @ ys) = words_total xs + words_total ys"
  by (induction xs rule: words_total.induct) auto

lemma words_total_pad: "words_total (xs @ [0]) = words_total xs"
  by (induction xs rule: words_total.induct) (auto simp: be16_def)

lemma words_total_octets4: "words_total (octets4 a) = unat (be16 (byte3 a) (byte2 a)) + unat (be16 (byte1 a) (byte0 a))"
  by (simp add: octets4_def)

lemma words_total_le_length: "length bs \<le> n \<Longrightarrow> words_total bs \<le> 65535 * ((n + 1) div 2)"
  using words_total_bound [of bs] by (meson add_le_mono1 div_le_mono le_trans mult_le_mono2)

text \<open>The bytes that RFC 793 and RFC 768 sum: pseudo header and segment.\<close>

definition pseudo_total :: "u32 \<Rightarrow> u32 \<Rightarrow> nat \<Rightarrow> byte list \<Rightarrow> nat" where
  "pseudo_total source destination proto segment =
     words_total (octets4 source) + words_total (octets4 destination) + proto + length segment + words_total segment"

text \<open>
  C29: \<open>tcp::validate_checksum\<close> on a parsable segment of at most 65535 bytes terminates without
  panicking and returns true exactly if the one's-complement sum over the IPv4 pseudo header
  and the segment is a positive multiple of 65535; the 32-bit accumulator does not overflow.
  A longer segment is refused as malformed.
\<close>

theorem tcp_checksum_correct:
  assumes "length packet \<le> isize_max" and "tcp_parse packet = Ok r"
  shows "tcp_validate_checksum packet source destination =
    (if length packet < 65536 then
       (let total = pseudo_total source destination 6 packet in Ok (0 < total \<and> 65535 dvd total))
     else Err packet_malformed)"
proof -
  have ok: "tcp_ok packet 0 (length packet)"
    and r: "r = \<lparr> tr_header = tcp_read packet 0, tr_header_offset = 0,
      tr_payload_offset = tcp_header_length (tcp_read packet 0),
      tr_payload_length = length packet - tcp_header_length (tcp_read packet 0) \<rparr>"
    using tcp_parse_eq [OF assms(1), of 0 "length packet"] assms(2) by (auto simp: tcp_parse_def tcp_parse_at_def)
  have fin: "usize_checked_add (tr_payload_offset r) (tr_payload_length r) = Some (length packet)"
    "usize_checked_add 12 (length packet) = Some (12 + length packet)"
    using ok assms(1) by (auto simp: r tcp_ok_def usize_checked_add_def usize_max_def isize_max_def)
  have sl: "slice_range packet 0 (length packet) = Ok packet" "tr_header_offset r = 0"
    by (simp_all add: slice_range_def r)
  show ?thesis
  proof (cases "length packet < 65536")
    case False
    then show ?thesis
      by (simp add: tcp_validate_checksum_def assms(2) fin sl Let_def u16_try_from_def)
  next
    case True
    let ?l = "of_nat (length packet) :: u16"
    have l: "unat ?l = length packet" using True by (simp add: unat_of_nat take_bit_nat_eq_self)
    let ?ps = "octets4 source @ octets4 destination @ [0, 6] @ [hi8 ?l, lo8 ?l] @ packet"
    let ?ps' = "if length ?ps mod 2 \<noteq> 0 then ?ps @ [0] else ?ps"
    have "words_total ?ps = pseudo_total source destination 6 packet"
      using l by (simp add: even_append_words pseudo_total_def be16_def [of 0 6])
    then have tot: "words_total ?ps' = pseudo_total source destination 6 packet"
      by (simp only: words_total_pad split: if_split) simp
    have "length ?ps' \<le> 65550" using True by simp
    then have "words_total ?ps' \<le> 65535 * ((65550 + 1) div 2)"
      by (rule words_total_le_length)
    then have "unat (sum_words ?ps' 0) = pseudo_total source destination 6 packet"
      using sum_words_total [of 0 ?ps'] tot by simp
    then have v: "checksum_valid (sum_words ?ps' 0) \<longleftrightarrow>
        0 < pseudo_total source destination 6 packet \<and> 65535 dvd pseudo_total source destination 6 packet"
      by (simp only: checksum_valid_iff)
    have "tcp_validate_checksum packet source destination = Ok (checksum_valid (sum_words ?ps' 0))"
      using True by (simp add: tcp_validate_checksum_def assms(2) fin sl Let_def u16_try_from_def del: sum_words.simps)
    then show ?thesis using True v by (simp only: if_True Let_def)
  qed
qed

theorem tcp_checksum_correct_witness:
  "tcp_validate_checksum demo_tcp 0xC0A80001 0xC0A80002 = Ok False"
proof -
  obtain r where r: "tcp_parse demo_tcp = Ok r"
    using tcp_parse_eq [OF demo_tcp_ok(2), of 0 22] demo_tcp_ok
    by (cases "tcp_parse_at_with_length demo_tcp 0 22") (auto simp: tcp_parse_def tcp_parse_at_def)
  have "pseudo_total 0xC0A80001 0xC0A80002 6 demo_tcp = 130460"
    by (simp add: pseudo_total_def demo_tcp_def octets4_def byte_defs be16_def)
  then show ?thesis
    using tcp_checksum_correct [OF demo_tcp_ok(2) r, of "0xC0A80001" "0xC0A80002"] demo_tcp_ok(1)
    by (simp add: Let_def)
qed

text \<open>
  \<open>udp::validate_checksum_ipv4\<close> on a parsable datagram terminates without panicking and
  returns true exactly if the checksum field is zero (no checksum) or the one's-complement sum
  over the IPv4 pseudo header and the datagram, as long as its length field says, is a positive
  multiple of 65535; the 32-bit accumulator does not overflow.
\<close>

lemma udp_checksum_correct:
  assumes "length packet \<le> isize_max" and "udp_parse packet = Ok r"
  shows "udp_validate_checksum_ipv4 packet source destination =
    (let total = pseudo_total source destination 17 (take (unat (udp_length (ur_header r))) packet)
     in Ok (udp_checksum (ur_header r) = 0 \<or> 0 < total \<and> 65535 dvd total))"
proof -
  let ?n = "unat (udp_length (udp_read packet 0))"
  have ok: "udp_ok packet 0 (length packet)"
    and r: "r = \<lparr> ur_header = udp_read packet 0, ur_header_offset = 0, ur_payload_offset = 8, ur_payload_length = ?n - 8 \<rparr>"
    using udp_parse_eq [OF assms(1), of 0 "length packet"] assms(2)
    by (auto simp: udp_parse_def udp_parse_at_def usize_checked_sub_def)
  have n: "8 \<le> ?n" "?n \<le> length packet" "?n < 65536"
    using ok unsigned_less [of "udp_length (udp_read packet 0)", where ?'a = nat] by (simp_all add: udp_ok_def)
  let ?seg = "take ?n packet"
  have len: "length ?seg = ?n" using n by simp
  have fin: "usize_checked_add 8 (?n - 8) = Some ?n"
    using n by (simp add: usize_checked_add_def usize_max_def)
  have sl: "slice_range packet 0 ?n = Ok ?seg"
    using n by (simp add: slice_range_def)
  let ?s1 = "sum_words (octets4 source) 0" and ?s2 = "sum_words (octets4 destination) (sum_words (octets4 source) 0)"
  have w4: "words_total (octets4 a) \<le> 131070" for a
    using words_total_le_length [of "octets4 a" 4] by simp
  have s1: "unat ?s1 = words_total (octets4 source)"
    using sum_words_total [of 0 "octets4 source"] w4 [of source] by simp
  have s2: "unat ?s2 = words_total (octets4 source) + words_total (octets4 destination)"
    using sum_words_total [of ?s1 "octets4 destination"] s1 w4 [of source] w4 [of destination] by simp
  have l: "unat (ucast (of_nat ?n :: u16) :: u32) = ?n"
    using n by (simp add: unsigned_ucast_eq unat_of_nat take_bit_nat_eq_self)
  have s3: "unat (?s2 + 17 + ucast (of_nat ?n :: u16)) =
      words_total (octets4 source) + words_total (octets4 destination) + 17 + ?n"
    using s2 l n(3) w4 [of source] w4 [of destination] by (simp only: unat_word_ariths) simp
  have seg: "words_total ?seg \<le> 65535 * ((65536 + 1) div 2)"
    using len n(3) by (intro words_total_le_length) simp
  have tot: "unat (sum_words ?seg (?s2 + 17 + ucast (of_nat ?n :: u16))) = pseudo_total source destination 17 ?seg"
    using sum_words_total [of "?s2 + 17 + ucast (of_nat ?n :: u16)" ?seg] s3 seg w4 [of source] w4 [of destination] n(3) len
    by (simp add: pseudo_total_def)
  have "udp_validate_checksum_ipv4 packet source destination =
      (if udp_checksum (udp_read packet 0) = 0 then Ok True
       else Ok (checksum_valid (sum_words ?seg (?s2 + 17 + ucast (of_nat ?n :: u16)))))"
    using n by (simp add: udp_validate_checksum_ipv4_def assms(2) r fin sl Let_def u16_try_from_def len del: sum_words.simps)
  then show ?thesis
    using tot by (simp add: r Let_def checksum_valid_iff del: sum_words.simps)
qed

theorem udp_checksum_correct_witness: "udp_validate_checksum_ipv4 demo_udp 0xC0A80001 0xC0A80002 = Ok True"
proof -
  obtain r where r: "udp_parse demo_udp = Ok r" "ur_header r = udp_read demo_udp 0"
    using udp_parse_eq [OF demo_udp_ok(2), of 0 11] demo_udp_ok
    by (cases "udp_parse_at_with_length demo_udp 0 11") (auto simp: udp_parse_def udp_parse_at_def usize_checked_sub_def)
  have "udp_checksum (udp_read demo_udp 0) = 0"
    by (simp add: udp_read_def demo_udp_def be16_def)
  then show ?thesis
    using udp_checksum_correct [OF demo_udp_ok(2) r(1), of "0xC0A80001" "0xC0A80002"] r(2) by simp
qed

subsection \<open>ICMP and ICMPv6\<close>

record icmp_packet =
  icmp_type :: u8
  icmp_code :: u8
  icmp_checksum :: u16
  icmp_rest :: "byte list" \<comment> \<open>\<open>[u8; 4]\<close>\<close>

definition icmp_parse :: "byte list \<Rightarrow> icmp_packet option parsed" where
  "icmp_parse raw =
     (if length raw < 8 then Ok None
      else
      obind (index raw 0) (\<lambda>typ.
      obind (index raw 1) (\<lambda>code.
      obind (read16 raw 0 2) (\<lambda>checksum.
      obind (slice_range raw 4 8) (\<lambda>rest.
        Ok (Some \<lparr> icmp_type = typ, icmp_code = code, icmp_checksum = checksum, icmp_rest = rest \<rparr>))))))"

definition icmp_is_echo_request :: "icmp_packet \<Rightarrow> bool" where
  "icmp_is_echo_request p \<longleftrightarrow> icmp_type p = 8 \<and> icmp_code p = 0"

definition icmp_is_echo_reply :: "icmp_packet \<Rightarrow> bool" where
  "icmp_is_echo_reply p \<longleftrightarrow> icmp_type p = 0 \<and> icmp_code p = 0"

record icmpv6_packet =
  icmp6_type :: u8
  icmp6_code :: u8
  icmp6_checksum :: u16
  icmp6_rest :: "byte list"

definition icmpv6_parse :: "byte list \<Rightarrow> icmpv6_packet option parsed" where
  "icmpv6_parse raw =
     (if length raw < 8 then Ok None
      else
      obind (index raw 0) (\<lambda>typ.
      obind (index raw 1) (\<lambda>code.
      obind (read16 raw 0 2) (\<lambda>checksum.
      obind (slice_range raw 4 8) (\<lambda>rest.
        Ok (Some \<lparr> icmp6_type = typ, icmp6_code = code, icmp6_checksum = checksum, icmp6_rest = rest \<rparr>))))))"

definition icmp6_is_neighbor_solicitation :: "icmpv6_packet \<Rightarrow> bool" where
  "icmp6_is_neighbor_solicitation p \<longleftrightarrow> icmp6_type p = 135"

definition icmp6_is_neighbor_advertisement :: "icmpv6_packet \<Rightarrow> bool" where
  "icmp6_is_neighbor_advertisement p \<longleftrightarrow> icmp6_type p = 136"

lemma icmp_parse_long: "8 \<le> length raw \<Longrightarrow> length raw \<le> isize_max \<Longrightarrow> \<exists>p. icmp_parse raw = Ok (Some p)"
proof -
  assume "8 \<le> length raw" "length raw \<le> isize_max"
  then have "window raw 0 8" by (simp add: window_def)
  then show ?thesis
    using \<open>8 \<le> length raw\<close>
    by (auto simp: icmp_parse_def index_def slice_range_def read16_window [of raw 0 8])
qed

lemma icmpv6_parse_long: "8 \<le> length raw \<Longrightarrow> length raw \<le> isize_max \<Longrightarrow> \<exists>p. icmpv6_parse raw = Ok (Some p)"
proof -
  assume "8 \<le> length raw" "length raw \<le> isize_max"
  then have "window raw 0 8" by (simp add: window_def)
  then show ?thesis
    using \<open>8 \<le> length raw\<close>
    by (auto simp: icmpv6_parse_def index_def slice_range_def read16_window [of raw 0 8])
qed

end
