(* ===== verification/Parser.thy ===== *)
theory Parser
  imports Parser_Ipv6 Parser_Transport
begin

text \<open>
  \<open>crates/packet-parser/src/lib.rs\<close>: \<open>ParsedPacket\<close>, the entry point that dispatches a captured
  frame through the link, network and transport parsers.
\<close>

datatype packet_input_layer = Layer_Ethernet | Layer_Ip

datatype network_protocol = Net_Unknown | Net_Arp | Net_Ipv4 | Net_Ipv6

datatype transport_protocol = Tr_Unknown | Tr_Tcp | Tr_Udp | Tr_Icmp | Tr_Icmpv6

record parsed_packet =
  pp_source :: backend_source
  pp_protocol :: network_protocol
  pp_transport :: transport_protocol
  pp_payload_offset :: usize
  pp_payload_length :: usize
  pp_source_ip :: "ip_addr option"
  pp_destination_ip :: "ip_addr option"
  pp_source_port :: "u16 option"
  pp_destination_port :: "u16 option"

definition pp_parse_ipv4 :: "backend_source \<Rightarrow> byte list \<Rightarrow> usize \<Rightarrow> parsed_packet parsed" where
  "pp_parse_ipv4 source raw offset =
     obind (ipv4_parse_at raw offset) (\<lambda>parsed.
     let header = r4_header parsed; payload_offset = r4_payload_offset parsed; payload_length = r4_payload_length parsed;
         proto = ip4_protocol header;
         transport = (if proto = 6 then Tr_Tcp else if proto = 17 then Tr_Udp else if proto = 1 then Tr_Icmp else Tr_Unknown) in
     obind
       (if ip4_fragment_offset header \<noteq> 0 then Ok (None, None)
        else case transport of
          Tr_Tcp \<Rightarrow>
            if payload_length < 20 then Ok (None, None)
            else obind (tcp_parse_at_with_length raw payload_offset payload_length) (\<lambda>tcp.
                   Ok (Some (tcp_source_port (tr_header tcp)), Some (tcp_destination_port (tr_header tcp))))
        | Tr_Udp \<Rightarrow>
            if payload_length < 8 then Ok (None, None)
            else obind (udp_parse_at_with_length raw payload_offset payload_length) (\<lambda>udp.
                   Ok (Some (udp_source_port (ur_header udp)), Some (udp_destination_port (ur_header udp))))
        | Tr_Icmp \<Rightarrow>
            if payload_length < 8 then Ok (None, None)
            else obind (slice_range raw payload_offset (uadd payload_offset payload_length)) (\<lambda>body.
                 obind (icmp_parse body) (\<lambda>icmp.
                 obind (ok_or packet_malformed icmp) (\<lambda>_. Ok (None, None))))
        | _ \<Rightarrow> Ok (None, None))
       (\<lambda>(source_port, destination_port).
          Ok \<lparr> pp_source = source, pp_protocol = Net_Ipv4, pp_transport = transport,
               pp_payload_offset = payload_offset, pp_payload_length = payload_length,
               pp_source_ip = Some (V4 (ip4_source header)), pp_destination_ip = Some (V4 (ip4_destination header)),
               pp_source_port = source_port, pp_destination_port = destination_port \<rparr>))"

definition pp_parse_ipv6 :: "backend_source \<Rightarrow> byte list \<Rightarrow> usize \<Rightarrow> parsed_packet parsed" where
  "pp_parse_ipv6 source raw offset =
     obind (ipv6_parse_at raw offset) (\<lambda>parsed.
     let header = r6_header parsed; payload_offset = r6_transport_offset parsed; payload_length = r6_transport_length parsed;
         next_header = (if r6_extensions parsed = [] then ip6_next_header header
                        else ext_next_header (last (r6_extensions parsed)));
         transport = (if next_header = 6 then Tr_Tcp else if next_header = 17 then Tr_Udp
                      else if next_header = 58 then Tr_Icmpv6 else Tr_Unknown) in
     obind
       (if \<not> r6_first_fragment parsed \<and> r6_fragmented parsed then Ok (None, None)
        else case transport of
          Tr_Tcp \<Rightarrow>
            if payload_length < 20 then Ok (None, None)
            else obind (tcp_parse_at_with_length raw payload_offset payload_length) (\<lambda>tcp.
                   Ok (Some (tcp_source_port (tr_header tcp)), Some (tcp_destination_port (tr_header tcp))))
        | Tr_Udp \<Rightarrow>
            if payload_length < 8 then Ok (None, None)
            else obind (udp_parse_at_with_length raw payload_offset payload_length) (\<lambda>udp.
                   Ok (Some (udp_source_port (ur_header udp)), Some (udp_destination_port (ur_header udp))))
        | Tr_Icmpv6 \<Rightarrow>
            if payload_length < 8 then Ok (None, None)
            else obind (slice_range raw payload_offset (uadd payload_offset payload_length)) (\<lambda>body.
                 obind (icmpv6_parse body) (\<lambda>icmp.
                 obind (ok_or packet_malformed icmp) (\<lambda>_. Ok (None, None))))
        | _ \<Rightarrow> Ok (None, None))
       (\<lambda>(source_port, destination_port).
          Ok \<lparr> pp_source = source, pp_protocol = Net_Ipv6, pp_transport = transport,
               pp_payload_offset = payload_offset, pp_payload_length = payload_length,
               pp_source_ip = Some (V6 (ip6_source header)), pp_destination_ip = Some (V6 (ip6_destination header)),
               pp_source_port = source_port, pp_destination_port = destination_port \<rparr>))"

definition pp_parse_ethernet :: "backend_source \<Rightarrow> byte list \<Rightarrow> parsed_packet parsed" where
  "pp_parse_ethernet source raw =
     obind (ethernet_parse raw) (\<lambda>ethernet.
     obind (ethernet_payload ethernet raw) (\<lambda>payload.
     case eth_ether_type (er_header ethernet) of
       Ether_Ipv4 \<Rightarrow> pp_parse_ipv4 source raw (er_payload_offset ethernet)
     | Ether_Ipv6 \<Rightarrow> pp_parse_ipv6 source raw (er_payload_offset ethernet)
     | Ether_Arp \<Rightarrow>
         obind (arp_parse_at raw (er_payload_offset ethernet)) (\<lambda>_.
           Ok \<lparr> pp_source = source, pp_protocol = Net_Arp, pp_transport = Tr_Unknown,
                pp_payload_offset = er_payload_offset ethernet, pp_payload_length = length payload,
                pp_source_ip = None, pp_destination_ip = None, pp_source_port = None, pp_destination_port = None \<rparr>)
     | _ \<Rightarrow> Err packet_unsupported))"

definition pp_parse_ip_layer :: "backend_source \<Rightarrow> byte list \<Rightarrow> parsed_packet parsed" where
  "pp_parse_ip_layer source raw =
     obind (index raw 0) (\<lambda>b.
       if drop_bit 4 b = 4 then pp_parse_ipv4 source raw 0
       else if drop_bit 4 b = 6 then pp_parse_ipv6 source raw 0
       else Err packet_unsupported)"

definition pp_parse_bytes :: "backend_source \<Rightarrow> byte list \<Rightarrow> packet_input_layer \<Rightarrow> parsed_packet parsed" where
  "pp_parse_bytes source raw layer =
     (if raw = [] then Err packet_too_short
      else case layer of
        Layer_Ethernet \<Rightarrow> pp_parse_ethernet source raw
      | Layer_Ip \<Rightarrow> pp_parse_ip_layer source raw)"

definition pp_parse :: "packet_observation \<Rightarrow> parsed_packet parsed" where
  "pp_parse obs = pp_parse_bytes (backend_source obs) (raw_bytes (obs_packet obs)) Layer_Ethernet"

definition pp_parse_ip :: "packet_observation \<Rightarrow> parsed_packet parsed" where
  "pp_parse_ip obs = pp_parse_bytes (backend_source obs) (raw_bytes (obs_packet obs)) Layer_Ip"

subsection \<open>Totality and well-formedness\<close>

text \<open>What every successfully parsed packet satisfies.\<close>

definition parsed_ok :: "byte list \<Rightarrow> parsed_packet \<Rightarrow> bool" where
  "parsed_ok raw p \<longleftrightarrow>
     pp_payload_offset p + pp_payload_length p \<le> length raw \<and>
     (pp_source_port p = None \<longleftrightarrow> pp_destination_port p = None) \<and>
     (pp_source_port p \<noteq> None \<longrightarrow> pp_transport p \<in> {Tr_Tcp, Tr_Udp} \<and> pp_source_ip p \<noteq> None \<and>
        (let off = pp_payload_offset p in
         pp_source_port p = Some (be16 (raw ! off) (raw ! (off + 1))) \<and>
         pp_destination_port p = Some (be16 (raw ! (off + 2)) (raw ! (off + 3))))) \<and>
     (case pp_protocol p of
        Net_Ipv4 \<Rightarrow> (\<exists>s d. pp_source_ip p = Some (V4 s) \<and> pp_destination_ip p = Some (V4 d))
      | Net_Ipv6 \<Rightarrow> (\<exists>s d. pp_source_ip p = Some (V6 s) \<and> pp_destination_ip p = Some (V6 d))
      | Net_Arp \<Rightarrow> pp_source_ip p = None \<and> pp_destination_ip p = None \<and> pp_transport p = Tr_Unknown
      | Net_Unknown \<Rightarrow> False)"

definition pp_post :: "byte list \<Rightarrow> parsed_packet parsed \<Rightarrow> bool" where
  "pp_post raw r \<longleftrightarrow> (case r of Panic \<Rightarrow> False | Err _ \<Rightarrow> True | Ok p \<Rightarrow> parsed_ok raw p)"

definition ports_post ::
  "byte list \<Rightarrow> usize \<Rightarrow> transport_protocol \<Rightarrow> (u16 option \<times> u16 option) parsed \<Rightarrow> bool" where
  "ports_post raw off t r \<longleftrightarrow> (case r of
      Panic \<Rightarrow> False | Err _ \<Rightarrow> True
    | Ok (s, d) \<Rightarrow> (s = None \<longleftrightarrow> d = None) \<and>
        (s \<noteq> None \<longrightarrow> t \<in> {Tr_Tcp, Tr_Udp} \<and> s = Some (be16 (raw ! off) (raw ! (off + 1))) \<and>
           d = Some (be16 (raw ! (off + 2)) (raw ! (off + 3)))))"

lemma ports_tcp:
  "length raw \<le> isize_max \<Longrightarrow> ports_post raw off Tr_Tcp (obind (tcp_parse_at_with_length raw off len)
     (\<lambda>tcp. Ok (Some (tcp_source_port (tr_header tcp)), Some (tcp_destination_port (tr_header tcp)))))"
  using tcp_parse_eq [of raw off len] by (cases "tcp_parse_at_with_length raw off len")
    (auto simp: ports_post_def tcp_read_def)

lemma ports_udp:
  "length raw \<le> isize_max \<Longrightarrow> ports_post raw off Tr_Udp (obind (udp_parse_at_with_length raw off len)
     (\<lambda>udp. Ok (Some (udp_source_port (ur_header udp)), Some (udp_destination_port (ur_header udp)))))"
  using udp_parse_eq [of raw off len] by (cases "udp_parse_at_with_length raw off len")
    (auto simp: ports_post_def udp_read_def)

lemma slice_payload:
  assumes "off + len \<le> length raw" "length raw \<le> isize_max"
  shows "slice_range raw off (uadd off len) = Ok (take len (drop off raw))"
proof -
  have "uadd off len = off + len"
    using assms by (intro uadd_exact) (simp add: isize_max_def usize_max_def)
  then show ?thesis using assms by (simp add: slice_range_def)
qed

lemma ports_icmp:
  assumes "off + len \<le> length raw" "length raw \<le> isize_max" "8 \<le> len"
  shows "obind (slice_range raw off (uadd off len)) (\<lambda>body. obind (icmp_parse body) (\<lambda>icmp.
      obind (ok_or packet_malformed icmp) (\<lambda>_. Ok (None, None)))) = Ok (None, None)"
  using icmp_parse_long [of "take len (drop off raw)"] assms by (auto simp: slice_payload)

lemma ports_icmpv6:
  assumes "off + len \<le> length raw" "length raw \<le> isize_max" "8 \<le> len"
  shows "obind (slice_range raw off (uadd off len)) (\<lambda>body. obind (icmpv6_parse body) (\<lambda>icmp.
      obind (ok_or packet_malformed icmp) (\<lambda>_. Ok (None, None)))) = Ok (None, None)"
  using icmpv6_parse_long [of "take len (drop off raw)"] assms by (auto simp: slice_payload)

lemma ports_none [simp]: "ports_post raw off t (Ok (None, None))"
  by (simp add: ports_post_def)

lemma pp_post_ports:
  assumes "ports_post raw off t P" "off + len \<le> length raw"
    "proto = Net_Ipv4 \<and> src = V4 a \<and> dst = V4 b \<or> proto = Net_Ipv6 \<and> src = V6 c \<and> dst = V6 d"
  shows "pp_post raw (obind P (\<lambda>(source_port, destination_port).
      Ok \<lparr> pp_source = source, pp_protocol = proto, pp_transport = t,
           pp_payload_offset = off, pp_payload_length = len,
           pp_source_ip = Some src, pp_destination_ip = Some dst,
           pp_source_port = source_port, pp_destination_port = destination_port \<rparr>))"
  using assms by (cases P) (auto simp: ports_post_def pp_post_def parsed_ok_def Let_def)

lemma pp_parse_ipv4_post:
  assumes "offset \<le> length raw" "length raw \<le> isize_max"
  shows "pp_post raw (pp_parse_ipv4 source raw offset)"
proof (cases "ipv4_parse_at raw offset")
  case (Ok r)
  have fit: "r4_payload_offset r + r4_payload_length r \<le> length raw"
    using ipv4_parse_at_eq [OF assms] Ok by (auto simp: ipv4_ok_def Let_def)
  show ?thesis
    unfolding pp_parse_ipv4_def Ok obind.simps Let_def
    using assms fit
    by (intro pp_post_ports) (auto simp: ports_tcp ports_udp ports_icmp)
qed (use ipv4_parse_at_eq [OF assms] in \<open>auto simp: pp_parse_ipv4_def pp_post_def\<close>)

lemma pp_parse_ipv6_post:
  assumes "offset \<le> length raw" "length raw \<le> isize_max"
  shows "pp_post raw (pp_parse_ipv6 source raw offset)"
proof (cases "ipv6_parse_at raw offset")
  case (Ok r)
  have fit: "r6_transport_offset r + r6_transport_length r \<le> length raw"
    using ipv6_parse_at_bounds [OF assms] Ok by auto
  show ?thesis
    unfolding pp_parse_ipv6_def Ok obind.simps Let_def
    using assms fit
    by (intro pp_post_ports) (auto simp: ports_tcp ports_udp ports_icmpv6)
qed (use ipv6_parse_at_bounds [OF assms] in \<open>auto simp: pp_parse_ipv6_def pp_post_def\<close>)

lemma pp_parse_ethernet_post:
  assumes "length raw \<le> isize_max"
  shows "pp_post raw (pp_parse_ethernet source raw)"
proof (cases "ethernet_parse raw")
  case (Ok r)
  have u: "length raw \<le> usize_max" using assms by (simp add: isize_max_def usize_max_def)
  have e: "er_payload_offset r + er_payload_length r = length raw"
    using ethernet_parse_cases [OF assms] Ok by simp
  then have off: "er_payload_offset r \<le> length raw" by simp
  have arp: "arp_parse_at raw (er_payload_offset r) \<noteq> Panic"
    using arp_parse_at_no_panic [OF assms] by simp
  show ?thesis
    using e arp pp_parse_ipv4_post [OF off assms] pp_parse_ipv6_post [OF off assms]
    by (cases "arp_parse_at raw (er_payload_offset r)")
      (auto simp: pp_parse_ethernet_def Ok ethernet_payload_def payload_slice_eq [OF u] pp_post_def parsed_ok_def
        split: ether_type.splits)
qed (use ethernet_parse_cases [OF assms] in \<open>auto simp: pp_parse_ethernet_def pp_post_def\<close>)

lemma pp_parse_bytes_post:
  assumes "length raw \<le> isize_max"
  shows "pp_post raw (pp_parse_bytes source raw layer)"
  using pp_parse_ethernet_post [OF assms] pp_parse_ipv4_post [of 0 raw] pp_parse_ipv6_post [of 0 raw] assms
  by (auto simp: pp_parse_bytes_def pp_parse_ip_layer_def index_def pp_post_def split: packet_input_layer.splits)

text \<open>
  C7: No input can make the packet parser panic: whatever bytes a backend captures, from
  Ethernet or from an IP-layer hook, parsing returns an error or a packet whose payload lies
  inside the captured bytes, whose addresses are of the family of its network protocol, and
  which has ports only if it is TCP or UDP (and then both, read from the start of the payload).
\<close>

theorem parser_total_and_wellformed:
  assumes "length raw \<le> isize_max"
  shows "case pp_parse_bytes source raw layer of
      Panic \<Rightarrow> False
    | Err e \<Rightarrow> True
    | Ok p \<Rightarrow> parsed_ok raw p"
  using pp_parse_bytes_post [OF assms] by (simp add: pp_post_def)

definition demo_frame :: "byte list" where
  \<comment> \<open>Ethernet, IPv4 (total length 42, protocol 6) and the TCP segment \<open>demo_tcp\<close>\<close>
  "demo_frame = replicate 12 1 @ [8, 0] @ [0x45, 0, 0, 42, 0, 0, 0x40, 0, 0x40, 6, 0, 0, 127, 0, 0, 1, 127, 0, 0, 1] @ demo_tcp"

lemma demo_frame_parses: "\<exists>p. pp_parse_bytes Src_Npcap demo_frame Layer_Ethernet = Ok p \<and> pp_source_port p = Some 1234"
proof -
  have len: "length demo_frame = 56" "length demo_frame \<le> isize_max"
    by (simp_all add: demo_frame_def demo_tcp_def isize_max_def)
  then have u: "length demo_frame \<le> usize_max" by (simp add: isize_max_def usize_max_def)
  have w: "window demo_frame 0 56" using len by (simp add: window_def)
  have b: "demo_frame ! 12 = 8" "demo_frame ! 13 = 0" "demo_frame ! 14 = 0x45" "demo_frame ! 16 = 0"
    "demo_frame ! 17 = 42" "demo_frame ! 20 = 0x40" "demo_frame ! 21 = 0" "demo_frame ! 23 = 6"
    "demo_frame ! 34 = 4" "demo_frame ! 35 = 0xd2" "demo_frame ! 46 = 0x50"
    by (simp_all add: demo_frame_def demo_tcp_def nth_append)
  have c: "be16 8 0 = 0x800" "be16 0 42 = 42" "be16 0x40 0 = 0x4000" "be16 4 0xd2 = 1234"
    "(0x45 :: u8) AND 15 = 5" "drop_bit 4 (0x45 :: u8) = 4" "drop_bit 4 (0x50 :: u8) = 5"
    by (simp_all add: be16_def)
  have eth: "\<exists>r. ethernet_parse demo_frame = Ok r \<and> eth_ether_type (er_header r) = Ether_Ipv4 \<and> er_payload_offset r = 14"
    using len by (simp add: ethernet_parse_def read_bytes_window [OF w] read16_window [OF w] b c
        ether_type_from_u16_def vlan_loop.simps [of demo_frame 14] is_vlan_def)
  have ok4: "ipv4_ok demo_frame 14"
    by (simp add: ipv4_ok_def ipv4_read_def ip4_header_length_def Let_def len b c)
  have r4: "ipv4_parse_at demo_frame 14 = Ok \<lparr> r4_header = ipv4_read demo_frame 14, r4_header_offset = 14,
      r4_payload_offset = 34, r4_payload_length = 22 \<rparr>"
    using ipv4_parse_at_eq [of 14 demo_frame] ok4 len
    by (cases "ipv4_parse_at demo_frame 14") (auto simp: ipv4_read_def ip4_header_length_def Let_def b c)
  have okt: "tcp_ok demo_frame 34 22"
    by (simp add: tcp_ok_def tcp_read_def tcp_header_length_def len b c)
  have rt: "\<exists>r. tcp_parse_at_with_length demo_frame 34 22 = Ok r \<and> tr_header r = tcp_read demo_frame 34"
    using tcp_parse_eq [OF len(2), of 34 22] okt by (cases "tcp_parse_at_with_length demo_frame 34 22") auto
  have "demo_frame \<noteq> []" using len by auto
  moreover have "ip4_protocol (ipv4_read demo_frame 14) = 6" "ip4_fragment_offset (ipv4_read demo_frame 14) = 0"
    "tcp_source_port (tcp_read demo_frame 34) = 1234"
    by (simp_all add: ipv4_read_def tcp_read_def Let_def b c)
  ultimately show ?thesis
    using eth rt
    by (auto simp: pp_parse_bytes_def pp_parse_ethernet_def pp_parse_ipv4_def ethernet_payload_def
        payload_slice_eq [OF u] r4 Let_def)
qed

theorem parser_total_and_wellformed_witness:
  "\<exists>p. pp_parse_bytes Src_Npcap demo_frame Layer_Ethernet = Ok p \<and> parsed_ok demo_frame p \<and> pp_source_port p = Some 1234"
  using demo_frame_parses parser_total_and_wellformed [of demo_frame Src_Npcap Layer_Ethernet]
  by (auto simp: demo_frame_def demo_tcp_def isize_max_def)

end
