(* ===== verification/Correlation.thy ===== *)
theory Correlation
  imports Core_Flow Parser
begin

text \<open>
  \<open>crates/correlation\<close>: the duplicate filter (\<open>dedup.rs\<close>) and the mapping of an observation
  to the flow key of its conversation (\<open>matcher.rs\<close>). The hash of \<open>identity.rs\<close> is computed
  by the standard library's unspecified \<open>DefaultHasher\<close> and is not modelled.
\<close>

subsection \<open>The duplicate filter\<close>

record dedup_filter =
  df_ids :: "u64 set"
  df_order :: "u64 list"
  df_max_size :: usize
  df_poisoned :: bool

definition dedup_new :: "usize \<Rightarrow> dedup_filter" where
  "dedup_new max_size = \<lparr> df_ids = {}, df_order = [], df_max_size = max_size, df_poisoned = False \<rparr>"

text \<open>The loop that evicts the oldest identifiers while there are too many.\<close>

fun dedup_evict :: "usize \<Rightarrow> u64 set \<Rightarrow> u64 list \<Rightarrow> u64 set \<times> u64 list" where
  "dedup_evict max_size ids [] = (ids, [])"
| "dedup_evict max_size ids (x # order) =
     (if length (x # order) > max_size then dedup_evict max_size (ids - {x}) order else (ids, x # order))"

definition is_duplicate :: "u64 \<Rightarrow> dedup_filter \<Rightarrow> bool \<times> dedup_filter" where
  "is_duplicate obs_id f =
     (if df_max_size f = 0 then (False, f)
      else if df_poisoned f then (False, f)
      else if obs_id \<in> df_ids f then (True, f)
      else case dedup_evict (df_max_size f) (insert obs_id (df_ids f)) (df_order f @ [obs_id]) of
        (ids, order) \<Rightarrow> (False, f\<lparr> df_ids := ids, df_order := order \<rparr>))"

definition dedup_clear :: "dedup_filter \<Rightarrow> dedup_filter" where
  "dedup_clear f = (if df_poisoned f then f else f\<lparr> df_ids := {}, df_order := [] \<rparr>)"

definition dedup_len :: "dedup_filter \<Rightarrow> usize" where
  "dedup_len f = (if df_poisoned f then 0 else card (df_ids f))"

primrec dedup_run :: "u64 list \<Rightarrow> dedup_filter \<Rightarrow> bool list \<times> dedup_filter" where
  "dedup_run [] f = ([], f)"
| "dedup_run (x # xs) f =
     (case is_duplicate x f of (r, f1) \<Rightarrow> case dedup_run xs f1 of (rs, f2) \<Rightarrow> (r # rs, f2))"

definition dedup_inv :: "dedup_filter \<Rightarrow> bool" where
  "dedup_inv f \<longleftrightarrow> df_ids f = set (df_order f) \<and> distinct (df_order f) \<and>
     length (df_order f) \<le> df_max_size f \<and> \<not> df_poisoned f \<and> 0 < df_max_size f"

text \<open>The identifiers reported as new, in order.\<close>

definition reported_new :: "u64 list \<Rightarrow> bool list \<Rightarrow> u64 list" where
  "reported_new xs rs = map fst (filter (\<lambda>(x, r). \<not> r) (zip xs rs))"

definition last_n :: "nat \<Rightarrow> 'a list \<Rightarrow> 'a list" where
  "last_n n xs = drop (length xs - n) xs"

lemma dedup_evict_eq:
  "distinct order \<Longrightarrow> ids = set order \<Longrightarrow>
     dedup_evict n ids order = (set (last_n n order), last_n n order)"
  by (induction n ids order rule: dedup_evict.induct) (auto simp: last_n_def Suc_diff_le)

lemma is_duplicate_eq:
  assumes "dedup_inv f"
  shows "is_duplicate x f =
    (if x \<in> set (df_order f) then (True, f)
     else (False, f\<lparr> df_ids := set (last_n (df_max_size f) (df_order f @ [x])),
                    df_order := last_n (df_max_size f) (df_order f @ [x]) \<rparr>))"
  using assms dedup_evict_eq [of "df_order f @ [x]" "insert x (df_ids f)" "df_max_size f"]
  by (auto simp: is_duplicate_def dedup_inv_def)

lemma last_n_append: "last_n n (last_n n xs @ ys) = last_n n (xs @ ys)"
  by (cases "n \<le> length xs") (auto simp: last_n_def add.commute)

lemma dedup_inv_step: "dedup_inv f \<Longrightarrow> dedup_inv (snd (is_duplicate x f))"
  by (auto simp: is_duplicate_eq) (auto simp: dedup_inv_def last_n_def dest: in_set_dropD)

lemma dedup_run_window:
  assumes "dedup_inv f" and "dedup_run xs f = (rs, g)"
  shows "dedup_inv g \<and> df_max_size g = df_max_size f \<and>
    df_order g = last_n (df_max_size f) (df_order f @ reported_new xs rs)"
  using assms
proof (induction xs arbitrary: f rs)
  case Nil
  then show ?case by (auto simp: reported_new_def last_n_def dedup_inv_def)
next
  case (Cons x xs)
  obtain r f1 where s: "is_duplicate x f = (r, f1)" by force
  obtain rs' where rs: "dedup_run xs f1 = (rs', g)" "rs = r # rs'"
    using Cons.prems s by (auto split: prod.splits)
  have inv: "dedup_inv f1" using dedup_inv_step [OF Cons.prems(1), of x] s by simp
  note IH = Cons.IH [OF inv rs(1)]
  have st: "df_max_size f1 = df_max_size f \<and> df_order f1 = (if r then df_order f
      else last_n (df_max_size f) (df_order f @ [x]))"
    using s is_duplicate_eq [OF Cons.prems(1), of x] by (auto split: if_splits)
  show ?case
    using IH st by (cases r) (simp_all add: rs(2) reported_new_def last_n_append)
qed

lemma dedup_inv_new: "0 < m \<Longrightarrow> dedup_inv (dedup_new m)"
  by (simp add: dedup_inv_def dedup_new_def)

text \<open>
  C31: The duplicate filter is a sliding window. After any sequence of identifiers, the next
  one is reported as a duplicate exactly if it is among the last \<open>max_size\<close> identifiers that
  were reported as new, and the filter never stores more than \<open>max_size\<close> of them.
\<close>

theorem dedup_sliding_window:
  assumes "0 < m" and "dedup_run xs (dedup_new m) = (rs, f)"
  shows "fst (is_duplicate x f) = (x \<in> set (last_n m (reported_new xs rs))) \<and>
    dedup_len f = min m (length (reported_new xs rs))"
proof -
  have w: "dedup_inv f" "df_order f = last_n m (reported_new xs rs)"
    using dedup_run_window [OF dedup_inv_new [OF assms(1)] assms(2)] by (simp_all add: dedup_new_def)
  then show ?thesis
    by (auto simp: is_duplicate_eq dedup_len_def dedup_inv_def distinct_card last_n_def)
qed

theorem dedup_sliding_window_witness:
  "dedup_run [1, 2, 1, 3] (dedup_new 2) = ([False, False, True, False],
      snd (dedup_run [1, 2, 1, 3] (dedup_new 2))) \<and>
   fst (is_duplicate 1 (snd (dedup_run [1, 2, 1, 3] (dedup_new 2)))) = False \<and>
   fst (is_duplicate 2 (snd (dedup_run [1, 2, 1, 3] (dedup_new 2))))"
proof -
  have r: "dedup_run [1, 2, 1, 3] (dedup_new 2) = ([False, False, True, False],
      snd (dedup_run [1, 2, 1, 3] (dedup_new 2)))"
    by (simp add: is_duplicate_def dedup_new_def)
  show ?thesis
    using dedup_sliding_window [OF _ r, of 1] dedup_sliding_window [OF _ r, of 2] r
    by (simp add: reported_new_def last_n_def)
qed

subsection \<open>The flow key of an observation\<close>

text \<open>\<open>None\<close> covers the \<open>?\<close> operators on missing fields and the unknown transports.\<close>

definition flow_key_of :: "parsed_packet \<Rightarrow> core_flow_key option" where
  "flow_key_of p =
     Option.bind (pp_source_ip p) (\<lambda>src_ip.
     Option.bind (pp_destination_ip p) (\<lambda>dst_ip.
     Option.bind
       (case pp_transport p of
          Tr_Tcp \<Rightarrow> Option.bind (pp_source_port p) (\<lambda>s. Option.bind (pp_destination_port p) (\<lambda>d. Some (Proto_Tcp, s, d)))
        | Tr_Udp \<Rightarrow> Option.bind (pp_source_port p) (\<lambda>s. Option.bind (pp_destination_port p) (\<lambda>d. Some (Proto_Udp, s, d)))
        | Tr_Icmp \<Rightarrow> Some (Proto_Icmp, 0, 0)
        | Tr_Icmpv6 \<Rightarrow> Some (Proto_IcmpV6, 0, 0)
        | Tr_Unknown \<Rightarrow> None)
       (\<lambda>(proto, src_port, dst_port).
          Some \<lparr> fk_src_ip = src_ip, fk_dst_ip = dst_ip, fk_src_port = src_port, fk_dst_port = dst_port,
                 fk_protocol = proto \<rparr>)))"

definition to_flow_key :: "packet_observation \<Rightarrow> (engine_error, core_flow_key option) outcome" where
  "to_flow_key obs = (case pp_parse obs of
      Panic \<Rightarrow> Panic | Err _ \<Rightarrow> Ok None | Ok parsed \<Rightarrow> Ok (flow_key_of parsed))"

text \<open>
  Correlating an observation never panics and never fails: every captured frame gets a
  flow key or none. A key is only produced for a parsed packet; both its addresses are of the
  same family, its protocol is one of the four correlated ones, and only TCP and UDP keys
  carry ports, the ones at the start of the packet's transport payload.
\<close>

lemma flow_key_total:
  assumes "length (raw_bytes (obs_packet obs)) \<le> isize_max"
  shows "case to_flow_key obs of
      Panic \<Rightarrow> False | Err _ \<Rightarrow> False | Ok None \<Rightarrow> True
    | Ok (Some k) \<Rightarrow>
        (\<exists>p. pp_parse obs = Ok p \<and> parsed_ok (raw_bytes (obs_packet obs)) p \<and>
           pp_source_ip p = Some (fk_src_ip k) \<and> pp_destination_ip p = Some (fk_dst_ip k) \<and>
           (fk_protocol k \<in> {Proto_Tcp, Proto_Udp} \<longrightarrow>
              pp_source_port p = Some (fk_src_port k) \<and> pp_destination_port p = Some (fk_dst_port k))) \<and>
        ((\<exists>s d. fk_src_ip k = V4 s \<and> fk_dst_ip k = V4 d) \<or> (\<exists>s d. fk_src_ip k = V6 s \<and> fk_dst_ip k = V6 d)) \<and>
        fk_protocol k \<in> {Proto_Tcp, Proto_Udp, Proto_Icmp, Proto_IcmpV6} \<and>
        (fk_protocol k \<in> {Proto_Icmp, Proto_IcmpV6} \<longrightarrow> fk_src_port k = 0 \<and> fk_dst_port k = 0)"
proof -
  have post: "pp_post (raw_bytes (obs_packet obs)) (pp_parse obs)"
    unfolding pp_parse_def by (rule pp_parse_bytes_post [OF assms])
  show ?thesis
  proof (cases "pp_parse obs")
    case (Ok p)
    then have ok: "parsed_ok (raw_bytes (obs_packet obs)) p"
      using post by (simp add: pp_post_def)
    then have ips: "pp_source_ip p = Some a \<Longrightarrow> pp_destination_ip p = Some b \<Longrightarrow>
        (\<exists>s d. a = V4 s \<and> b = V4 d) \<or> (\<exists>s d. a = V6 s \<and> b = V6 d)" for a b
      by (auto simp: parsed_ok_def split: network_protocol.splits)
    show ?thesis
      using Ok ok ips
      by (cases "pp_transport p")
        (auto simp: to_flow_key_def flow_key_of_def split: option.splits Option.bind_splits)
  qed (use post in \<open>auto simp: to_flow_key_def pp_post_def\<close>)
qed

lemma flow_key_of_ports:
  "parsed_ok raw p \<Longrightarrow> pp_source_port p = Some x \<Longrightarrow>
     \<exists>k. flow_key_of p = Some k \<and> fk_src_port k = x \<and> fk_protocol k \<in> {Proto_Tcp, Proto_Udp}"
  by (auto simp: parsed_ok_def flow_key_of_def Let_def split: network_protocol.splits)

definition demo_obs :: packet_observation where
  "demo_obs = observation_new 1 Src_Npcap 0 0 Inbound ''eth0'' (packet_new demo_frame)"

lemma demo_obs_parses:
  "raw_bytes (obs_packet demo_obs) = demo_frame"
  "length (raw_bytes (obs_packet demo_obs)) \<le> isize_max"
  "\<exists>p. pp_parse demo_obs = Ok p \<and> parsed_ok demo_frame p \<and> pp_source_port p = Some 1234"
proof -
  show raw: "raw_bytes (obs_packet demo_obs) = demo_frame"
    by (simp add: demo_obs_def observation_new_def packet_new_def)
  have src: "backend_source demo_obs = Src_Npcap" by (simp add: demo_obs_def observation_new_def)
  show len: "length (raw_bytes (obs_packet demo_obs)) \<le> isize_max"
    unfolding raw by (simp add: demo_frame_def demo_tcp_def isize_max_def)
  obtain p where p: "pp_parse demo_obs = Ok p" "pp_source_port p = Some 1234"
    using demo_frame_parses by (auto simp: pp_parse_def raw src)
  moreover from p have "parsed_ok demo_frame p"
    using pp_parse_bytes_post [OF len, of Src_Npcap Layer_Ethernet] by (simp add: pp_post_def pp_parse_def raw src)
  ultimately show "\<exists>p. pp_parse demo_obs = Ok p \<and> parsed_ok demo_frame p \<and> pp_source_port p = Some 1234"
    by blast
qed

lemma demo_frame_key:
  "\<exists>k. to_flow_key demo_obs = Ok (Some k) \<and> fk_src_port k = 1234 \<and> fk_protocol k \<in> {Proto_Tcp, Proto_Udp}"
  using demo_obs_parses(3) flow_key_of_ports [of demo_frame _ 1234] by (auto simp: to_flow_key_def)

theorem flow_key_total_witness:
  "\<exists>obs k. to_flow_key obs = Ok (Some k) \<and> fk_src_port k = 1234 \<and>
     (\<exists>p. pp_parse obs = Ok p \<and> pp_source_port p = Some (fk_src_port k))"
  using demo_frame_key flow_key_total [OF demo_obs_parses(2)]
  by (intro exI [of _ demo_obs]) (auto split: option.splits)

end
