(* ===== verification/Tables.thy ===== *)
theory Tables
  imports Prelude
begin

text \<open>
  What the engine's tables share: the sweep over a hash map that first collects the keys of the
  expired entries and then removes them one by one, and the contract of a table with such a
  sweep. The flow table, the NAT table, the connection table and the neighbour table provide it.
\<close>

lemma hm_remove_absent: "hm_get k m = None \<Longrightarrow> hm_remove k m = m"
  by (simp add: hm_get_def hm_remove_def map_of_eq_None_iff delete_id)

lemma length_hm_remove_present: "hm_wf m \<Longrightarrow> hm_get k m = Some v \<Longrightarrow> Suc (length (hm_remove k m)) = length m"
  using hm_get_SomeD [of k m v] by (auto simp: length_hm_remove dest: length_pos_if_in_set)

lemma length_hm_removes:
  "hm_wf m \<Longrightarrow> distinct ks \<Longrightarrow> (\<And>k. k \<in> set ks \<Longrightarrow> hm_contains k m) \<Longrightarrow>
     length (fold hm_remove ks m) + length ks = length m"
proof (induction ks arbitrary: m)
  case (Cons k ks)
  have "hm_contains k m" using Cons.prems by simp
  then have "length (hm_remove k m) + 1 = length m"
    using Cons.prems(1) by (auto dest: length_hm_remove_present)
  moreover have "length (fold hm_remove ks (hm_remove k m)) + length ks = length (hm_remove k m)"
    using Cons.prems by (intro Cons.IH) (auto simp: hm)
  ultimately show ?case by simp
qed simp

definition keys_where :: "('v \<Rightarrow> bool) \<Rightarrow> ('k, 'v) hash_map \<Rightarrow> 'k list" where
  "keys_where P m = map fst (filter (\<lambda>(k, v). P v) m)"

lemma keys_where_set: "hm_wf m \<Longrightarrow> k \<in> set (keys_where P m) \<longleftrightarrow> (\<exists>v. hm_get k m = Some v \<and> P v)"
  by (force simp: keys_where_def hm_get_in_set)

lemma distinct_keys_where: "hm_wf m \<Longrightarrow> distinct (keys_where P m)"
  by (simp add: keys_where_def hm_wf_def distinct_map_filter)

lemma sweep_get:
  "hm_wf m \<Longrightarrow> hm_get k (fold hm_remove (keys_where P m) m) =
     (case hm_get k m of None \<Rightarrow> None | Some v \<Rightarrow> if P v then None else Some v)"
  by (auto simp: hm.get_dels keys_where_set split: option.splits)

lemma sweep_length: "hm_wf m \<Longrightarrow> length (fold hm_remove (keys_where P m) m) + length (keys_where P m) = length m"
  by (intro length_hm_removes) (auto simp: distinct_keys_where keys_where_set)

lemma keys_where_Nil: "(\<And>k v. hm_get k m = Some v \<Longrightarrow> \<not> P v) \<Longrightarrow> hm_wf m \<Longrightarrow> keys_where P m = []"
  by (force simp: keys_where_def filter_empty_conv hm_get_in_set)

locale expiring_table =
  fixes entries :: "'s \<Rightarrow> ('k, 'e) hash_map"
    and expired :: "'s \<Rightarrow> 't \<Rightarrow> 'e \<Rightarrow> bool"
    and sweep :: "'t \<Rightarrow> 's \<Rightarrow> nat \<times> 's"
    and inv :: "'s \<Rightarrow> bool"
  assumes wf: "inv s \<Longrightarrow> hm_wf (entries s)"
    and sweep_entries: "inv s \<Longrightarrow>
      entries (snd (sweep now s)) = fold hm_remove (keys_where (expired s now) (entries s)) (entries s)"
    and sweep_count: "inv s \<Longrightarrow> fst (sweep now s) = length (keys_where (expired s now) (entries s))"
    and sweep_inv: "inv s \<Longrightarrow> inv (snd (sweep now s))"
    and sweep_config: "inv s \<Longrightarrow> expired (snd (sweep now s)) = expired s"
begin

lemma get_sweep:
  "inv s \<Longrightarrow> hm_get k (entries (snd (sweep now s))) =
     (case hm_get k (entries s) of None \<Rightarrow> None | Some e \<Rightarrow> if expired s now e then None else Some e)"
  by (simp add: sweep_entries sweep_get wf)

lemma count_sweep: "inv s \<Longrightarrow> length (entries (snd (sweep now s))) + fst (sweep now s) = length (entries s)"
  by (simp add: sweep_entries sweep_count sweep_length wf)

lemma none_expired: "inv s \<Longrightarrow> hm_get k (entries (snd (sweep now s))) = Some e \<Longrightarrow> \<not> expired s now e"
  by (auto simp: get_sweep split: option.splits if_splits)

lemma sweep_again: "inv s \<Longrightarrow> fst (sweep now (snd (sweep now s))) = 0"
  by (simp add: sweep_count sweep_inv sweep_config keys_where_Nil none_expired wf)

lemma length_sweep_le: "inv s \<Longrightarrow> length (entries (snd (sweep now s))) \<le> length (entries s)"
  using count_sweep [of s now] by simp

end

end
