(* ===== verification/Flow_Table.thy ===== *)
theory Flow_Table
  imports Core_Flow Tables
begin

text \<open>
  \<open>crates/flow-engine\<close>: the directed flow key, per-flow counters, the flow record with its
  lifecycle, the direction-independent identity, and the bounded flow table with idle expiry.
  The readings of the monotonic clock (\<open>now_ns\<close>) are arguments. The counters of a flow are
  atomics, but every caller holds the flow exclusively, so their compare-and-exchange loops
  succeed in the first round and are modelled by their result.
\<close>

subsection \<open>Keys (\<open>key.rs\<close>, \<open>identity.rs\<close>)\<close>

record flow_key =
  k_source_ip :: ip_addr
  k_destination_ip :: ip_addr
  k_source_port :: u16
  k_destination_port :: u16
  k_protocol :: u8

definition key_reverse :: "flow_key \<Rightarrow> flow_key" where
  "key_reverse k = \<lparr> k_source_ip = k_destination_ip k, k_destination_ip = k_source_ip k,
     k_source_port = k_destination_port k, k_destination_port = k_source_port k, k_protocol = k_protocol k \<rparr>"

definition is_reverse_of :: "flow_key \<Rightarrow> flow_key \<Rightarrow> bool" where
  "is_reverse_of k other \<longleftrightarrow> k = key_reverse other"

definition protocol_from_u8 :: "u8 \<Rightarrow> protocol" where
  "protocol_from_u8 b =
     (if b = 6 then Proto_Tcp else if b = 17 then Proto_Udp else if b = 1 then Proto_Icmp
      else if b = 58 then Proto_IcmpV6 else Proto_Other b)"

definition identity_from_flow_key :: "flow_key \<Rightarrow> core_flow_key" where
  "identity_from_flow_key k = normalized (k_source_ip k) (k_source_port k) (k_destination_ip k)
     (k_destination_port k) (protocol_from_u8 (k_protocol k))"

lemma key_reverse_reverse [simp]: "key_reverse (key_reverse k) = k"
  by (simp add: key_reverse_def)

lemma key_reverse_eq_iff: "key_reverse a = b \<longleftrightarrow> a = key_reverse b"
  by auto

lemma protocol_from_u8_inject [simp]: "protocol_from_u8 a = protocol_from_u8 b \<longleftrightarrow> a = b"
  by (auto simp: protocol_from_u8_def)

subsection \<open>Counters and states (\<open>counters.rs\<close>, \<open>state.rs\<close>)\<close>

record flow_counters =
  c_packets :: u64
  c_bytes :: u64
  c_first_seen_ns :: u64
  c_last_seen_ns :: u64

definition counters_new :: flow_counters where
  "counters_new = \<lparr> c_packets = 0, c_bytes = 0, c_first_seen_ns = 0, c_last_seen_ns = 0 \<rparr>"

definition update_first_seen :: "u64 \<Rightarrow> u64 \<Rightarrow> u64" where
  "update_first_seen ts current = (if current \<noteq> 0 \<and> current \<le> ts then current else ts)"

definition update_last_seen :: "u64 \<Rightarrow> u64 \<Rightarrow> u64" where
  "update_last_seen ts current = (if ts \<le> current then current else ts)"

definition counters_record :: "u64 \<Rightarrow> u64 \<Rightarrow> flow_counters \<Rightarrow> flow_counters" where
  "counters_record bytes ts c =
     \<lparr> c_packets = saturating_add (c_packets c) 1, c_bytes = saturating_add (c_bytes c) bytes,
       c_first_seen_ns = update_first_seen ts (c_first_seen_ns c),
       c_last_seen_ns = update_last_seen ts (c_last_seen_ns c) \<rparr>"

datatype flow_state = Flow_New | Flow_Active | Flow_Closed | Flow_Expired

definition flow_is_terminal :: "flow_state \<Rightarrow> bool" where
  "flow_is_terminal s \<longleftrightarrow> s \<in> {Flow_Closed, Flow_Expired}"

fun flow_can_transition_to :: "flow_state \<Rightarrow> flow_state \<Rightarrow> bool" where
  "flow_can_transition_to Flow_New next = True"
| "flow_can_transition_to Flow_Active next = (next \<noteq> Flow_New)"
| "flow_can_transition_to Flow_Closed next = (next = Flow_Closed)"
| "flow_can_transition_to Flow_Expired next = (next = Flow_Expired)"

primrec flow_state_as_u8 :: "flow_state \<Rightarrow> u8" where
  "flow_state_as_u8 Flow_New = 0"
| "flow_state_as_u8 Flow_Active = 1"
| "flow_state_as_u8 Flow_Closed = 2"
| "flow_state_as_u8 Flow_Expired = 3"

definition flow_state_try_from :: "u8 \<Rightarrow> flow_state engine_result" where
  "flow_state_try_from value =
     (if value = 0 then Inr Flow_New else if value = 1 then Inr Flow_Active
      else if value = 2 then Inr Flow_Closed else if value = 3 then Inr Flow_Expired
      else Inl (Error_Code EC_InvalidArgument))"

record flow_state_transition =
  fst_from :: flow_state
  fst_to :: flow_state

definition flow_transition_new :: "flow_state \<Rightarrow> flow_state \<Rightarrow> flow_state_transition engine_result" where
  "flow_transition_new from to =
     (if \<not> flow_can_transition_to from to then Inl (Error_Code EC_InvalidStateTransition)
      else Inr \<lparr> fst_from = from, fst_to = to \<rparr>)"

definition flow_transition_apply :: "flow_state_transition \<Rightarrow> flow_state \<Rightarrow> unit engine_result \<times> flow_state" where
  "flow_transition_apply t current =
     (if current \<noteq> fst_from t then (Inl (Error_Code EC_InvalidStateTransition), current)
      else (Inr (), fst_to t))"

interpretation flow_states: lifecycle flow_can_transition_to flow_is_terminal
  by unfold_locales (auto simp: flow_is_terminal_def)

lemma flow_state_roundtrip: "flow_state_try_from (flow_state_as_u8 s) = Inr s"
  by (cases s) (simp_all add: flow_state_try_from_def)

lemma flow_transition_legal:
  "flow_transition_new a b = Inr t \<Longrightarrow> fst (flow_transition_apply t s) = Inr () \<Longrightarrow>
     s = a \<and> snd (flow_transition_apply t s) = b \<and> flow_can_transition_to a b"
  by (auto simp: flow_transition_new_def flow_transition_apply_def split: if_splits)

subsection \<open>Flows (\<open>flow.rs\<close>)\<close>

datatype flow_direction = Dir_Forward | Dir_Reverse | Dir_Unknown

definition direction_from_key :: "flow_key \<Rightarrow> flow_key \<Rightarrow> flow_direction" where
  "direction_from_key fkey pkey =
     (if fkey = pkey then Dir_Forward else if is_reverse_of fkey pkey then Dir_Reverse else Dir_Unknown)"

primrec from_network_direction :: "direction \<Rightarrow> flow_direction" where
  "from_network_direction Inbound = Dir_Reverse"
| "from_network_direction Outbound = Dir_Forward"
| "from_network_direction Direction_Unknown = Dir_Unknown"

record flow =
  fl_key :: flow_key
  fl_counters :: flow_counters
  fl_packets :: u64
  fl_bytes :: u64
  fl_forward_packets :: u64
  fl_forward_bytes :: u64
  fl_reverse_packets :: u64
  fl_reverse_bytes :: u64
  fl_first_seen_ns :: u64
  fl_last_seen_ns :: u64
  fl_last_forward_seen_ns :: u64
  fl_last_reverse_seen_ns :: u64
  fl_state :: flow_state

definition flow_new :: "u64 \<Rightarrow> flow_key \<Rightarrow> flow" where
  "flow_new now key = \<lparr> fl_key = key, fl_counters = counters_new, fl_packets = 0, fl_bytes = 0,
     fl_forward_packets = 0, fl_forward_bytes = 0, fl_reverse_packets = 0, fl_reverse_bytes = 0,
     fl_first_seen_ns = now, fl_last_seen_ns = now, fl_last_forward_seen_ns = 0,
     fl_last_reverse_seen_ns = 0, fl_state = Flow_New \<rparr>"

definition flow_sync :: "flow_counters \<Rightarrow> flow \<Rightarrow> flow" where
  "flow_sync c f = f\<lparr> fl_counters := c, fl_packets := c_packets c, fl_bytes := c_bytes c,
     fl_first_seen_ns := c_first_seen_ns c, fl_last_seen_ns := c_last_seen_ns c \<rparr>"

primrec flow_count_direction :: "flow_direction \<Rightarrow> u64 \<Rightarrow> u64 \<Rightarrow> flow \<Rightarrow> flow" where
  "flow_count_direction Dir_Forward bytes ts f =
     f\<lparr> fl_forward_packets := saturating_add (fl_forward_packets f) 1,
        fl_forward_bytes := saturating_add (fl_forward_bytes f) bytes,
        fl_last_forward_seen_ns := max (fl_last_forward_seen_ns f) ts \<rparr>"
| "flow_count_direction Dir_Reverse bytes ts f =
     f\<lparr> fl_reverse_packets := saturating_add (fl_reverse_packets f) 1,
        fl_reverse_bytes := saturating_add (fl_reverse_bytes f) bytes,
        fl_last_reverse_seen_ns := max (fl_last_reverse_seen_ns f) ts \<rparr>"
| "flow_count_direction Dir_Unknown bytes ts f = f"

definition flow_record_packet :: "u64 \<Rightarrow> usize \<Rightarrow> flow_direction \<Rightarrow> u64 option \<Rightarrow> flow \<Rightarrow> flow" where
  "flow_record_packet now bytes dir timestamp_ns f =
     (let ts = (case timestamp_ns of Some t \<Rightarrow> t | None \<Rightarrow> now);
          b = word_of_nat bytes;
          f1 = flow_sync (counters_record b ts (fl_counters f)) f;
          f2 = flow_count_direction dir b ts f1 in
      if fl_state f2 = Flow_New then f2\<lparr> fl_state := Flow_Active \<rparr> else f2)"

definition flow_age :: "u64 \<Rightarrow> flow \<Rightarrow> duration" where
  "flow_age now f = (if now \<le> fl_first_seen_ns f then 0 else unat (saturating_sub now (fl_first_seen_ns f)))"

definition flow_idle_for :: "u64 \<Rightarrow> flow \<Rightarrow> duration" where
  "flow_idle_for now f = (if now \<le> fl_last_seen_ns f then 0 else unat (saturating_sub now (fl_last_seen_ns f)))"

definition flow_is_idle :: "u64 \<Rightarrow> duration \<Rightarrow> flow \<Rightarrow> bool" where
  "flow_is_idle now timeout f \<longleftrightarrow> timeout \<le> flow_idle_for now f"

definition flow_close :: "flow \<Rightarrow> flow" where
  "flow_close f = f\<lparr> fl_state := Flow_Closed \<rparr>"

definition flow_mark_expired :: "flow \<Rightarrow> flow" where
  "flow_mark_expired f = f\<lparr> fl_state := Flow_Expired \<rparr>"

definition flow_duration_ns :: "flow \<Rightarrow> u64" where
  "flow_duration_ns f = saturating_sub (fl_last_seen_ns f) (fl_first_seen_ns f)"

definition average_packet_size :: "flow \<Rightarrow> u64" where
  "average_packet_size f =
     (let packets = c_packets (fl_counters f) in if packets = 0 then 0 else c_bytes (fl_counters f) div packets)"

lemma flow_record_key [simp]: "fl_key (flow_record_packet now b d ts f) = fl_key f"
  by (cases d) (simp_all add: flow_record_packet_def flow_sync_def Let_def)

lemma flow_record_state:
  "fl_state (flow_record_packet now b d ts f) = (if fl_state f = Flow_New then Flow_Active else fl_state f)"
  by (cases d) (simp_all add: flow_record_packet_def flow_sync_def Let_def)

lemma flow_record_counts:
  "fl_packets (flow_record_packet now b d ts f) = saturating_add (c_packets (fl_counters f)) 1"
  "fl_bytes (flow_record_packet now b d ts f) = saturating_add (c_bytes (fl_counters f)) (word_of_nat b)"
  "fl_counters (flow_record_packet now b d ts f) =
     counters_record (word_of_nat b) (case ts of Some t \<Rightarrow> t | None \<Rightarrow> now) (fl_counters f)"
  by (cases d; simp add: flow_record_packet_def flow_sync_def counters_record_def Let_def)+

lemma flow_idle_for_eq: "flow_idle_for now f = unat now - unat (fl_last_seen_ns f)"
  by (simp add: flow_idle_for_def unat_saturating_sub word_le_nat_alt)

text \<open>
  The accounting of a flow: the public fields mirror the counters, and as long as the packet
  (byte) counter has not saturated, the two directions together do not exceed it.
\<close>

definition flow_inv :: "flow \<Rightarrow> bool" where
  "flow_inv f \<longleftrightarrow>
     fl_packets f = c_packets (fl_counters f) \<and> fl_bytes f = c_bytes (fl_counters f) \<and>
     (fl_packets f \<noteq> - 1 \<longrightarrow> unat (fl_forward_packets f) + unat (fl_reverse_packets f) \<le> unat (fl_packets f)) \<and>
     (fl_bytes f \<noteq> - 1 \<longrightarrow> unat (fl_forward_bytes f) + unat (fl_reverse_bytes f) \<le> unat (fl_bytes f))"

lemma saturating_split:
  fixes p f r d e :: u64
  assumes "p \<noteq> - 1 \<longrightarrow> unat f + unat r \<le> unat p" and "saturating_add p d \<noteq> - 1"
  shows "unat (saturating_add f d) + unat r \<le> unat (saturating_add p d)"
    and "unat f + unat (saturating_add r d) \<le> unat (saturating_add p d)"
    and "unat f + unat r \<le> unat (saturating_add p d)"
proof -
  have max: "unat x = 2 ^ 64 - 1 \<longleftrightarrow> x = - 1" for x :: u64
    by (simp add: word_unat_eq_iff unsigned_minus_1_eq_mask mask_eq_exp_minus_1)
  have "unat (saturating_add p d) \<noteq> 2 ^ 64 - 1"
    using assms(2) max [of "saturating_add p d"] by blast
  then have lt: "unat p + unat d < 2 ^ 64 - 1"
    by (simp add: unat_saturating_add min_def split: if_splits)
  then have ne: "p \<noteq> - 1"
    using max [of p] by auto
  show "unat (saturating_add f d) + unat r \<le> unat (saturating_add p d)"
    "unat f + unat (saturating_add r d) \<le> unat (saturating_add p d)"
    "unat f + unat r \<le> unat (saturating_add p d)"
    using assms(1) ne lt by (simp_all add: unat_saturating_add)
qed

lemma flow_inv_new: "flow_inv (flow_new now k)"
  by (simp add: flow_inv_def flow_new_def counters_new_def)

lemma flow_inv_record:
  assumes "flow_inv f"
  shows "flow_inv (flow_record_packet now b d ts f)"
  using assms saturating_split [of "fl_packets f" "fl_forward_packets f" "fl_reverse_packets f" 1]
    saturating_split [of "fl_bytes f" "fl_forward_bytes f" "fl_reverse_bytes f" "word_of_nat b"]
  by (cases d) (auto simp: flow_inv_def flow_record_packet_def flow_sync_def counters_record_def Let_def)

subsection \<open>The table (\<open>flow_table.rs\<close>)\<close>

record flow_table =
  ft_flows :: "(flow_key, flow) hash_map"
  ft_max_entries :: usize
  ft_idle_timeout :: duration
  ft_total_created :: u64
  ft_total_removed :: u64
  ft_total_expired :: u64

definition flow_table_new :: "usize \<Rightarrow> duration \<Rightarrow> flow_table engine_result" where
  "flow_table_new max_entries idle_timeout =
     (if max_entries = 0 then Inl (Error_Code EC_InvalidArgument)
      else if idle_timeout = 0 then Inl (Error_Code EC_InvalidArgument)
      else Inr \<lparr> ft_flows = [], ft_max_entries = max_entries, ft_idle_timeout = idle_timeout,
        ft_total_created = 0, ft_total_removed = 0, ft_total_expired = 0 \<rparr>)"

definition flow_table_with_defaults :: "usize \<Rightarrow> flow_table engine_result" where
  "flow_table_with_defaults max_entries = flow_table_new max_entries (300 * 1000000000)"

definition ft_contains :: "flow_key \<Rightarrow> flow_table \<Rightarrow> bool" where
  "ft_contains key t \<longleftrightarrow> hm_contains key (ft_flows t) \<or> hm_contains (key_reverse key) (ft_flows t)"

definition ft_get :: "flow_key \<Rightarrow> flow_table \<Rightarrow> flow option" where
  "ft_get key t = (case hm_get key (ft_flows t) of Some f \<Rightarrow> Some f | None \<Rightarrow> hm_get (key_reverse key) (ft_flows t))"

text \<open>
  \<open>get_mut\<close> returns a mutable reference to the stored flow; a caller's update \<open>upd\<close> through
  it is part of the operation, and \<open>None\<close> means that no reference was returned.
\<close>

definition ft_get_mut :: "flow_key \<Rightarrow> (flow \<Rightarrow> flow) \<Rightarrow> flow_table \<Rightarrow> flow_table option" where
  "ft_get_mut key upd t =
     (let stored = (if hm_contains key (ft_flows t) then key else key_reverse key) in
      case hm_get stored (ft_flows t) of
        Some f \<Rightarrow> Some (t\<lparr> ft_flows := hm_insert stored (upd f) (ft_flows t) \<rparr>)
      | None \<Rightarrow> None)"

definition ft_insert :: "flow \<Rightarrow> flow_table \<Rightarrow> bool engine_result \<times> flow_table" where
  "ft_insert f t =
     (if hm_contains (fl_key f) (ft_flows t) \<or> hm_contains (key_reverse (fl_key f)) (ft_flows t) then (Inr False, t)
      else if length (ft_flows t) \<ge> ft_max_entries t then (Inl (Error_Code EC_ResourceExhausted), t)
      else (Inr True, t\<lparr> ft_flows := hm_insert (fl_key f) f (ft_flows t),
              ft_total_created := saturating_add (ft_total_created t) 1 \<rparr>))"

text \<open>\<open>get_or_create\<close>: the key under which the flow is stored, and the table.\<close>

definition ft_get_or_create :: "u64 \<Rightarrow> flow_key \<Rightarrow> flow_table \<Rightarrow> flow_key engine_result \<times> flow_table" where
  "ft_get_or_create now key t =
     (if hm_contains key (ft_flows t) then (Inr key, t)
      else if hm_contains (key_reverse key) (ft_flows t) then (Inr (key_reverse key), t)
      else if length (ft_flows t) \<ge> ft_max_entries t then (Inl (Error_Code EC_ResourceExhausted), t)
      else (Inr key, t\<lparr> ft_flows := hm_insert key (flow_new now key) (ft_flows t),
              ft_total_created := saturating_add (ft_total_created t) 1 \<rparr>))"

definition ft_record_packet ::
  "u64 \<Rightarrow> flow_key \<Rightarrow> usize \<Rightarrow> flow_direction \<Rightarrow> u64 option \<Rightarrow> flow_table \<Rightarrow> unit engine_result \<times> flow_table" where
  "ft_record_packet now key bytes dir ts t =
     (case ft_get_or_create now key t of
        (Inl e, t1) \<Rightarrow> (Inl e, t1)
      | (Inr stored, t1) \<Rightarrow>
          (Inr (), case hm_get stored (ft_flows t1) of
             Some f \<Rightarrow> t1\<lparr> ft_flows := hm_insert stored (flow_record_packet now bytes dir ts f) (ft_flows t1) \<rparr>
           | None \<Rightarrow> t1))"

definition ft_update ::
  "u64 \<Rightarrow> flow_key \<Rightarrow> usize \<Rightarrow> flow_direction \<Rightarrow> u64 option \<Rightarrow> flow_table \<Rightarrow> bool engine_result \<times> flow_table" where
  "ft_update now key bytes dir ts t =
     (case ft_get_mut key (flow_record_packet now bytes dir ts) t of
        Some t' \<Rightarrow> (Inr True, t') | None \<Rightarrow> (Inr False, t))"

definition ft_remove :: "flow_key \<Rightarrow> flow_table \<Rightarrow> flow option \<times> flow_table" where
  "ft_remove key t =
     (let stored = (if hm_contains key (ft_flows t) then key else key_reverse key);
          removed = hm_get stored (ft_flows t);
          t1 = t\<lparr> ft_flows := hm_remove stored (ft_flows t) \<rparr> in
      (removed, if removed \<noteq> None then t1\<lparr> ft_total_removed := saturating_add (ft_total_removed t1) 1 \<rparr> else t1))"

definition ft_close :: "flow_key \<Rightarrow> flow_table \<Rightarrow> bool \<times> flow_table" where
  "ft_close key t = (case ft_get_mut key flow_close t of Some t' \<Rightarrow> (True, t') | None \<Rightarrow> (False, t))"

definition ft_expire_one :: "flow_key \<Rightarrow> flow_table \<Rightarrow> flow_table" where
  "ft_expire_one key t = (case hm_get key (ft_flows t) of
      Some f \<Rightarrow> t\<lparr> ft_flows := hm_remove key (ft_flows t),
        ft_total_removed := saturating_add (ft_total_removed t) 1,
        ft_total_expired := saturating_add (ft_total_expired t) 1 \<rparr>
    | None \<Rightarrow> t)"

definition ft_expire_idle :: "u64 \<Rightarrow> flow_table \<Rightarrow> usize \<times> flow_table" where
  "ft_expire_idle now t =
     (let expired_keys = keys_where (flow_is_idle now (ft_idle_timeout t)) (ft_flows t) in (length expired_keys, fold ft_expire_one expired_keys t))"

definition ft_clear :: "flow_table \<Rightarrow> usize \<times> flow_table" where
  "ft_clear t = (let count = length (ft_flows t) in
     (count, t\<lparr> ft_flows := [], ft_total_removed := saturating_add (ft_total_removed t) (word_of_nat count) \<rparr>))"

definition ft_capacity_available :: "flow_table \<Rightarrow> usize" where
  "ft_capacity_available t = ft_max_entries t - length (ft_flows t)"

subsection \<open>The invariant of the table\<close>

definition ft_counts :: "flow_table \<Rightarrow> bool" where
  "ft_counts t \<longleftrightarrow>
     (unat (ft_total_created t) < 2 ^ 64 - 1 \<longrightarrow>
        unat (ft_total_created t) = length (ft_flows t) + unat (ft_total_removed t)) \<and>
     unat (ft_total_expired t) \<le> unat (ft_total_removed t)"

definition ft_inv :: "flow_table \<Rightarrow> bool" where
  "ft_inv t \<longleftrightarrow> hm_wf (ft_flows t) \<and> length (ft_flows t) \<le> ft_max_entries t \<and>
     (\<forall>k f. hm_get k (ft_flows t) = Some f \<longrightarrow> fl_key f = k) \<and>
     (\<forall>k. hm_contains k (ft_flows t) \<longrightarrow> hm_contains (key_reverse k) (ft_flows t) \<longrightarrow> key_reverse k = k) \<and>
     ft_counts t"

lemma ft_counts_add:
  assumes "ft_counts t" and "length m = Suc (length (ft_flows t))"
  shows "ft_counts (t\<lparr> ft_flows := m, ft_total_created := saturating_add (ft_total_created t) 1 \<rparr>)"
  using assms by (auto simp: ft_counts_def unat_saturating_add)

lemma ft_counts_drop:
  assumes "ft_counts t" and "Suc (length m) = length (ft_flows t)"
  shows "ft_counts (t\<lparr> ft_flows := m, ft_total_removed := saturating_add (ft_total_removed t) 1 \<rparr>)"
    and "ft_counts (t\<lparr> ft_flows := m, ft_total_removed := saturating_add (ft_total_removed t) 1,
      ft_total_expired := saturating_add (ft_total_expired t) 1 \<rparr>)"
  using assms unsigned_less [of "ft_total_expired t", where ?'a = nat]
  by (auto simp: ft_counts_def unat_saturating_add)

lemma ft_counts_clear:
  assumes "ft_counts t"
  shows "ft_counts (snd (ft_clear t))"
  using assms saturating_add_ge [of "ft_total_removed t" "word_of_nat (length (ft_flows t))"]
  by (auto simp: ft_counts_def ft_clear_def Let_def unat_saturating_add unat_of_nat)

lemma ft_inv_write [keeps]:
  assumes "ft_inv t" and "hm_get k (ft_flows t) = Some f" and "fl_key g = fl_key f"
  shows "ft_inv (t\<lparr> ft_flows := hm_insert k g (ft_flows t) \<rparr>)"
  using assms by (auto simp: ft_inv_def ft_counts_def hm)

lemma ft_inv_put [keeps]:
  assumes "ft_inv t" and "\<not> ft_contains k t" and "length (ft_flows t) < ft_max_entries t" and "fl_key f = k"
  shows "ft_inv (t\<lparr> ft_flows := hm_insert k f (ft_flows t),
    ft_total_created := saturating_add (ft_total_created t) 1 \<rparr>)"
  using assms ft_counts_add [of t "hm_insert k f (ft_flows t)"]
  by (auto simp: ft_inv_def ft_contains_def hm key_reverse_eq_iff)

lemma ft_inv_del [keeps]:
  assumes "ft_inv t" and "hm_get k (ft_flows t) = Some f"
  shows "ft_inv (t\<lparr> ft_flows := hm_remove k (ft_flows t), ft_total_removed := saturating_add (ft_total_removed t) 1 \<rparr>)"
    and "ft_inv (ft_expire_one k t)"
proof -
  have len: "Suc (length (hm_remove k (ft_flows t))) = length (ft_flows t)"
    using assms hm_get_SomeD [OF assms(2)] by (auto simp: ft_inv_def length_hm_remove dest: length_pos_if_in_set)
  show "ft_inv (t\<lparr> ft_flows := hm_remove k (ft_flows t), ft_total_removed := saturating_add (ft_total_removed t) 1 \<rparr>)"
    "ft_inv (ft_expire_one k t)"
    using assms ft_counts_drop [OF _ len] len by (auto simp: ft_inv_def ft_expire_one_def hm)
qed

lemma ft_inv_get_mut [keeps]:
  assumes "ft_inv t" and "\<And>f. fl_key (upd f) = fl_key f" and "ft_get_mut key upd t = Some t'"
  shows "ft_inv t'"
  using assms by (auto simp: ft_get_mut_def Let_def intro: ft_inv_write split: option.splits)

lemma ft_inv_insert [keeps]: "ft_inv t \<Longrightarrow> ft_inv (snd (ft_insert f t))"
  by (auto simp: ft_insert_def ft_contains_def intro!: ft_inv_put)

lemma ft_inv_get_or_create [keeps]: "ft_inv t \<Longrightarrow> ft_inv (snd (ft_get_or_create now key t))"
  by (auto simp: ft_get_or_create_def ft_contains_def flow_new_def intro!: ft_inv_put)

lemma ft_inv_record_packet [keeps]: "ft_inv t \<Longrightarrow> ft_inv (snd (ft_record_packet now key b d ts t))"
  using ft_inv_get_or_create [of t now key]
  by (auto simp: ft_record_packet_def intro: ft_inv_write split: prod.splits sum.splits option.splits)

lemma ft_inv_update [keeps]: "ft_inv t \<Longrightarrow> ft_inv (snd (ft_update now key b d ts t))"
  by (auto simp: ft_update_def intro: ft_inv_get_mut [where upd = "flow_record_packet now b d ts"] split: option.splits)

lemma ft_inv_close [keeps]: "ft_inv t \<Longrightarrow> ft_inv (snd (ft_close key t))"
  by (auto simp: ft_close_def flow_close_def intro: ft_inv_get_mut [where upd = flow_close] split: option.splits)

lemma ft_inv_remove [keeps]: "ft_inv t \<Longrightarrow> ft_inv (snd (ft_remove key t))"
  using ft_inv_del(1) [of t] by (auto simp: ft_remove_def Let_def hm_remove_absent split: if_splits)

lemma ft_inv_expire_one: "ft_inv t \<Longrightarrow> ft_inv (ft_expire_one k t)"
  using ft_inv_del(2) [of t k] by (cases "hm_get k (ft_flows t)") (auto simp: ft_expire_one_def)

lemma ft_inv_expire_idle [keeps]: "ft_inv t \<Longrightarrow> ft_inv (snd (ft_expire_idle now t))"
proof -
  have "ft_inv (fold ft_expire_one ks s)" if "ft_inv s" for ks s
    using that by (induction ks arbitrary: s) (auto simp: ft_inv_expire_one)
  then show "ft_inv t \<Longrightarrow> ft_inv (snd (ft_expire_idle now t))"
    by (simp add: ft_expire_idle_def Let_def)
qed

lemma ft_inv_clear [keeps]: "ft_inv t \<Longrightarrow> ft_inv (snd (ft_clear t))"
  using ft_counts_clear [of t] by (auto simp: ft_inv_def) (auto simp: ft_clear_def Let_def)

lemma ft_inv_new: "flow_table_new m d = Inr t \<Longrightarrow> ft_inv t"
  by (auto simp: flow_table_new_def ft_inv_def ft_counts_def split: if_splits)

datatype ft_op = Ft_Insert flow | Ft_Record u64 flow_key usize flow_direction "u64 option"
  | Ft_Update u64 flow_key usize flow_direction "u64 option" | Ft_Remove flow_key | Ft_Close flow_key
  | Ft_Expire u64 | Ft_Clear

primrec ft_exec :: "ft_op \<Rightarrow> flow_table \<Rightarrow> flow_table" where
  "ft_exec (Ft_Insert f) t = snd (ft_insert f t)"
| "ft_exec (Ft_Record now k b d ts) t = snd (ft_record_packet now k b d ts t)"
| "ft_exec (Ft_Update now k b d ts) t = snd (ft_update now k b d ts t)"
| "ft_exec (Ft_Remove k) t = snd (ft_remove k t)"
| "ft_exec (Ft_Close k) t = snd (ft_close k t)"
| "ft_exec (Ft_Expire now) t = snd (ft_expire_idle now t)"
| "ft_exec Ft_Clear t = snd (ft_clear t)"

lemma ft_inv_exec: "ft_inv t \<Longrightarrow> ft_inv (ft_exec op t)"
  by (cases op) (simp_all add: keeps)

lemma ft_inv_run: "ft_inv t \<Longrightarrow> ft_inv (fold ft_exec ops t)"
  by (induction ops arbitrary: t) (simp_all add: ft_inv_exec)

lemma ft_get_reverse: "ft_inv t \<Longrightarrow> ft_get (key_reverse k) t = ft_get k t"
proof -
  assume "ft_inv t"
  then have "hm_contains k (ft_flows t) \<Longrightarrow> hm_contains (key_reverse k) (ft_flows t) \<Longrightarrow> key_reverse k = k"
    by (simp add: ft_inv_def)
  then show ?thesis
    by (cases "hm_get k (ft_flows t)"; cases "hm_get (key_reverse k) (ft_flows t)") (simp_all add: ft_get_def)
qed

lemma ft_get_key: "ft_inv t \<Longrightarrow> ft_get k t = Some f \<Longrightarrow> fl_key f \<in> {k, key_reverse k}"
  by (auto simp: ft_get_def ft_inv_def split: option.splits)

lemma ft_get_None_iff: "ft_get k t = None \<longleftrightarrow> \<not> ft_contains k t"
  by (auto simp: ft_get_def ft_contains_def split: option.splits)

lemma ft_expire_one_config [simp]:
  "ft_max_entries (ft_expire_one k t) = ft_max_entries t" "ft_idle_timeout (ft_expire_one k t) = ft_idle_timeout t"
  by (simp_all add: ft_expire_one_def split: option.splits)

lemma ft_expire_fold_config [simp]:
  "ft_max_entries (fold ft_expire_one ks t) = ft_max_entries t"
  "ft_idle_timeout (fold ft_expire_one ks t) = ft_idle_timeout t"
  by (induction ks arbitrary: t) simp_all

lemma ft_max_exec: "ft_max_entries (ft_exec op t) = ft_max_entries t"
  by (cases op)
    (auto simp: ft_insert_def ft_record_packet_def ft_get_or_create_def ft_update_def ft_get_mut_def ft_remove_def
      ft_close_def ft_expire_idle_def ft_clear_def Let_def split: option.splits sum.splits prod.splits if_splits)

lemma ft_max_run: "ft_max_entries (fold ft_exec ops t) = ft_max_entries t"
  by (induction ops arbitrary: t) (simp_all add: ft_max_exec)

lemma ft_expire_fold_flows: "ft_flows (fold ft_expire_one ks t) = fold hm_remove ks (ft_flows t)"
  by (induction ks arbitrary: t)
    (auto simp: ft_expire_one_def hm_remove_absent split: option.splits)

interpretation flow_tab: expiring_table ft_flows "\<lambda>t now. flow_is_idle now (ft_idle_timeout t)" ft_expire_idle ft_inv
proof
  show "hm_wf (ft_flows s)" if "ft_inv s" for s using that by (simp add: ft_inv_def)
qed (simp_all add: ft_inv_expire_idle, simp_all add: ft_expire_idle_def Let_def ft_expire_fold_flows)

subsection \<open>Correctness\<close>

definition demo_key :: flow_key where
  "demo_key = \<lparr> k_source_ip = V4 1, k_destination_ip = V4 2, k_source_port = 10, k_destination_port = 20, k_protocol = 6 \<rparr>"

definition demo_table :: flow_table where
  "demo_table = ft_exec (Ft_Record 7 demo_key 60 Dir_Forward None)
     \<lparr> ft_flows = [], ft_max_entries = 1, ft_idle_timeout = 50, ft_total_created = 0, ft_total_removed = 0,
       ft_total_expired = 0 \<rparr>"

lemma demo_table_new:
  "flow_table_new 1 50 = Inr \<lparr> ft_flows = [], ft_max_entries = 1, ft_idle_timeout = 50, ft_total_created = 0,
     ft_total_removed = 0, ft_total_expired = 0 \<rparr>"
  by (simp add: flow_table_new_def)

lemma demo_table_inv: "ft_inv demo_table"
  unfolding demo_table_def by (rule ft_inv_exec [OF ft_inv_new [OF demo_table_new]])

lemma demo_table_flows:
  "ft_flows demo_table = [(demo_key, flow_record_packet 7 60 Dir_Forward None (flow_new 7 demo_key))]"
  by (simp add: demo_table_def ft_record_packet_def ft_get_or_create_def hm_insert_def hm_get_def)

lemma demo_table_timeout: "ft_idle_timeout demo_table = 50"
  by (simp add: demo_table_def ft_record_packet_def ft_get_or_create_def hm_get_def hm_insert_def)

lemma demo_table_get: "ft_get demo_key demo_table = Some (flow_record_packet 7 60 Dir_Forward None (flow_new 7 demo_key))"
  by (simp add: ft_get_def demo_table_flows hm_get_def)

lemma demo_last_seen [simp]: "fl_last_seen_ns (flow_record_packet 7 60 Dir_Forward None (flow_new 7 demo_key)) = 7"
  by (simp add: flow_record_packet_def flow_new_def counters_new_def flow_sync_def counters_record_def
      update_last_seen_def Let_def)

lemma demo_table_idle: "fst (ft_expire_idle 100 demo_table) = 1"
  by (simp add: ft_expire_idle_def Let_def keys_where_def demo_table_flows flow_is_idle_def flow_idle_for_eq
      demo_table_timeout)

text \<open>
  C14: Whatever operations run on a new flow table: it never holds more than \<open>max_entries\<close>
  flows; a lookup finds the same flow from both directions of a conversation, and the flow
  found belongs to that conversation; and, until the creation counter saturates, every flow
  ever created is either still in the table or counted as removed, expired flows among them.
\<close>

theorem flow_table_invariant:
  assumes "flow_table_new m timeout = Inr t0" and "t = fold ft_exec ops t0"
  shows "length (ft_flows t) \<le> m \<and>
    (\<forall>k. ft_get (key_reverse k) t = ft_get k t) \<and>
    (\<forall>k f. ft_get k t = Some f \<longrightarrow> fl_key f \<in> {k, key_reverse k}) \<and>
    (unat (ft_total_created t) < 2 ^ 64 - 1 \<longrightarrow>
       unat (ft_total_created t) = length (ft_flows t) + unat (ft_total_removed t)) \<and>
    unat (ft_total_expired t) \<le> unat (ft_total_removed t)"
proof -
  have inv: "ft_inv t" using assms ft_inv_run [OF ft_inv_new] by simp
  moreover have "ft_max_entries t = m"
    using assms by (auto simp: ft_max_run flow_table_new_def split: if_splits)
  ultimately show ?thesis
    using ft_get_reverse [OF inv] ft_get_key [OF inv] by (auto simp: ft_inv_def ft_counts_def)
qed

theorem flow_table_invariant_witness:
  "length (ft_flows demo_table) \<le> 1 \<and> ft_get (key_reverse demo_key) demo_table = ft_get demo_key demo_table"
  using flow_table_invariant [OF demo_table_new, where t = demo_table and ops = "[Ft_Record 7 demo_key 60 Dir_Forward None]"]
  by (simp add: demo_table_def del: One_nat_def)



text \<open>
  \<open>expire_idle\<close> removes exactly the flows that have seen no packet for at least the idle
  timeout, keeps every other flow unchanged, and returns the number it removed. A clock
  that stands before a flow's last packet never expires it.
\<close>

lemma expire_idle_exact:
  assumes "ft_inv t" and "ft_expire_idle now t = (n, t')"
  shows "n = length (ft_flows t) - length (ft_flows t') \<and>
    (\<forall>k. ft_get k t' = (case ft_get k t of None \<Rightarrow> None
       | Some f \<Rightarrow> if ft_idle_timeout t \<le> unat now - unat (fl_last_seen_ns f) then None else Some f))"
proof -
  have t': "t' = snd (ft_expire_idle now t)" "n = fst (ft_expire_idle now t)"
    using assms(2) by simp_all
  have "length (ft_flows t') + n = length (ft_flows t)"
    using flow_tab.count_sweep [OF assms(1)] by (simp add: t')
  moreover have "hm_contains k (ft_flows t) \<Longrightarrow> hm_contains (key_reverse k) (ft_flows t) \<Longrightarrow> key_reverse k = k" for k
    using assms(1) by (simp add: ft_inv_def)
  ultimately show ?thesis
    by (auto simp: ft_get_def t' flow_tab.get_sweep [OF assms(1)] flow_is_idle_def flow_idle_for_eq split: option.splits)
      (metis option.inject)
qed

theorem expire_idle_exact_witness:
  "ft_inv demo_table \<and> fst (ft_expire_idle 100 demo_table) = 1 \<and>
     ft_get demo_key (snd (ft_expire_idle 100 demo_table)) = None \<and> ft_get demo_key demo_table \<noteq> None"
  using expire_idle_exact [OF demo_table_inv prod.collapse [symmetric], of 100,
      THEN conjunct2, THEN spec, of demo_key] demo_table_get demo_table_inv demo_table_idle
  by (simp add: demo_table_timeout)

end
