(* ===== verification/Decision.thy ===== *)
theory Decision
  imports Correlation Flow_Table "HOL-Library.Product_Lexorder"
begin

text \<open>
  The host's packet policy: the filter rules of \<open>crates/network-core/src/policy.rs\<close> and their
  evaluation in \<open>crates/ffi/src/decision.rs\<close>, together with the flow keys that
  \<open>crates/ffi/src/processing.rs\<close> derives from a parsed packet.
\<close>

subsection \<open>Filter rules\<close>

datatype packet_action_policy = Action_Pass | Action_Drop | Action_Inspect

record filter_rule =
  fr_priority :: u32
  fr_match_direction :: "direction option"
  fr_match_protocol :: "protocol option"
  fr_match_src_ip :: "ip_addr option"
  fr_match_dst_ip :: "ip_addr option"
  fr_match_src_port :: "u16 option"
  fr_match_dst_port :: "u16 option"
  fr_action :: packet_action_policy

record packet_action_policy_config =
  pac_default_action :: packet_action_policy
  pac_rules :: "filter_rule list"

record filter_policy =
  fip_enabled :: bool
  fip_rules :: "filter_rule list"

definition filter_policy_default :: filter_policy where
  "filter_policy_default = \<lparr> fip_enabled = False, fip_rules = [] \<rparr>"

datatype packet_decision = Decide_Pass | Decide_Drop | Decide_Inspect

primrec as_action_code :: "packet_decision \<Rightarrow> int" where
  "as_action_code Decide_Pass = 0"
| "as_action_code Decide_Drop = 1"
| "as_action_code Decide_Inspect = 2"

primrec decision_of :: "packet_action_policy \<Rightarrow> packet_decision" where
  "decision_of Action_Pass = Decide_Pass"
| "decision_of Action_Drop = Decide_Drop"
| "decision_of Action_Inspect = Decide_Inspect"

text \<open>The protocol a rule is compared with; an unknown transport matches no rule that names one.\<close>

primrec rule_protocol :: "transport_protocol \<Rightarrow> protocol option" where
  "rule_protocol Tr_Tcp = Some Proto_Tcp"
| "rule_protocol Tr_Udp = Some Proto_Udp"
| "rule_protocol Tr_Icmp = Some Proto_Icmp"
| "rule_protocol Tr_Icmpv6 = Some Proto_IcmpV6"
| "rule_protocol Tr_Unknown = None"

definition rule_matches :: "filter_rule \<Rightarrow> parsed_packet \<Rightarrow> direction \<Rightarrow> bool" where
  "rule_matches rule parsed direction =
     (if (case fr_match_direction rule of Some expected \<Rightarrow> expected \<noteq> direction | None \<Rightarrow> False) then False
      else if (case fr_match_protocol rule of
          Some expected \<Rightarrow> (case rule_protocol (pp_transport parsed) of None \<Rightarrow> True | Some actual \<Rightarrow> expected \<noteq> actual)
        | None \<Rightarrow> False) then False
      else if (case fr_match_src_ip rule of Some expected \<Rightarrow> pp_source_ip parsed \<noteq> Some expected | None \<Rightarrow> False) then False
      else if (case fr_match_dst_ip rule of Some expected \<Rightarrow> pp_destination_ip parsed \<noteq> Some expected | None \<Rightarrow> False) then False
      else if (case fr_match_src_port rule of Some expected \<Rightarrow> pp_source_port parsed \<noteq> Some expected | None \<Rightarrow> False) then False
      else if (case fr_match_dst_port rule of Some expected \<Rightarrow> pp_destination_port parsed \<noteq> Some expected | None \<Rightarrow> False) then False
      else True)"

definition rule_order :: "filter_rule list \<Rightarrow> (u32 \<times> usize) list" where
  "rule_order rules = sort (map (\<lambda>(index, rule). (fr_priority rule, index)) (enumerate 0 rules))"

primrec evaluate_loop :: "(u32 \<times> usize) list \<Rightarrow> parsed_packet \<Rightarrow> direction \<Rightarrow> packet_action_policy_config \<Rightarrow> packet_decision" where
  "evaluate_loop [] parsed direction policy = decision_of (pac_default_action policy)"
| "evaluate_loop (entry # ordered) parsed direction policy =
     (let rule = pac_rules policy ! snd entry in
      if rule_matches rule parsed direction then decision_of (fr_action rule)
      else evaluate_loop ordered parsed direction policy)"

definition evaluate_packet :: "parsed_packet \<Rightarrow> direction \<Rightarrow> packet_action_policy_config \<Rightarrow> packet_decision" where
  "evaluate_packet parsed direction policy = evaluate_loop (rule_order (pac_rules policy)) parsed direction policy"

subsection \<open>Flow keys of parsed packets\<close>

definition flow_key_from_parsed :: "parsed_packet \<Rightarrow> flow_key option" where
  "flow_key_from_parsed parsed =
     Option.bind (pp_source_ip parsed) (\<lambda>source_ip.
     Option.bind (pp_destination_ip parsed) (\<lambda>destination_ip.
     Option.bind
       (case pp_transport parsed of
          Tr_Tcp \<Rightarrow> Some 6 | Tr_Udp \<Rightarrow> Some 17 | Tr_Icmp \<Rightarrow> Some 1 | Tr_Icmpv6 \<Rightarrow> Some 58 | Tr_Unknown \<Rightarrow> None)
       (\<lambda>protocol. Some \<lparr> k_source_ip = source_ip, k_destination_ip = destination_ip,
          k_source_port = (case pp_source_port parsed of Some p \<Rightarrow> p | None \<Rightarrow> 0),
          k_destination_port = (case pp_destination_port parsed of Some p \<Rightarrow> p | None \<Rightarrow> 0),
          k_protocol = protocol \<rparr>)))"

primrec flow_direction_of :: "direction \<Rightarrow> flow_direction" where
  "flow_direction_of Inbound = Dir_Reverse"
| "flow_direction_of Outbound = Dir_Forward"
| "flow_direction_of Direction_Unknown = Dir_Forward"

definition is_flow_trackable :: "parsed_packet \<Rightarrow> bool" where
  "is_flow_trackable parsed \<longleftrightarrow>
     pp_protocol parsed \<in> {Net_Ipv4, Net_Ipv6} \<and> flow_key_from_parsed parsed \<noteq> None"

definition to_flow_engine_key :: "core_flow_key \<Rightarrow> flow_key" where
  "to_flow_engine_key key =
     \<lparr> k_source_ip = fk_src_ip key, k_destination_ip = fk_dst_ip key, k_source_port = fk_src_port key,
       k_destination_port = fk_dst_port key, k_protocol = to_ip_protocol (fk_protocol key) \<rparr>"

subsection \<open>The first matching rule decides\<close>

lemma rule_order_set: "set (rule_order rules) = (\<lambda>i. (fr_priority (rules ! i), i)) ` {..<length rules}"
proof -
  have "set (rule_order rules) = (\<lambda>(i, r). (fr_priority r, i)) ` set (enumerate 0 rules)"
    by (simp add: rule_order_def)
  also have "set (enumerate 0 rules) = (\<lambda>i. (i, rules ! i)) ` {..<length rules}"
    by (auto simp: in_set_enumerate_eq image_iff)
  finally show ?thesis by (simp add: image_image)
qed

lemma evaluate_loop_first:
  assumes "sorted ordered" and "\<exists>x \<in> set ordered. rule_matches (pac_rules policy ! snd x) parsed direction"
  obtains y where "y \<in> set ordered" "rule_matches (pac_rules policy ! snd y) parsed direction"
    "\<And>z. z \<in> set ordered \<Longrightarrow> rule_matches (pac_rules policy ! snd z) parsed direction \<Longrightarrow> y \<le> z"
    "evaluate_loop ordered parsed direction policy = decision_of (fr_action (pac_rules policy ! snd y))"
  using assms
proof (induction ordered arbitrary: thesis)
  case (Cons e ordered)
  show ?case
  proof (cases "rule_matches (pac_rules policy ! snd e) parsed direction")
    case True
    then show ?thesis using Cons.prems(2) by (intro Cons.prems(1) [of e]) (auto simp: Let_def)
  next
    case False
    have "sorted ordered" "\<exists>x \<in> set ordered. rule_matches (pac_rules policy ! snd x) parsed direction"
      using Cons.prems(2,3) False by auto
    from Cons.IH [OF _ this] obtain y where "y \<in> set ordered" "rule_matches (pac_rules policy ! snd y) parsed direction"
      "\<And>z. z \<in> set ordered \<Longrightarrow> rule_matches (pac_rules policy ! snd z) parsed direction \<Longrightarrow> y \<le> z"
      "evaluate_loop ordered parsed direction policy = decision_of (fr_action (pac_rules policy ! snd y))"
      by blast
    then show ?thesis using False by (intro Cons.prems(1) [of y]) (auto simp: Let_def)
  qed
qed simp

lemma evaluate_loop_default:
  "(\<And>x. x \<in> set ordered \<Longrightarrow> \<not> rule_matches (pac_rules policy ! snd x) parsed direction) \<Longrightarrow>
     evaluate_loop ordered parsed direction policy = decision_of (pac_default_action policy)"
  by (induction ordered) (auto simp: Let_def)

text \<open>
  C32: the packet policy. If no rule matches, the default action decides. Otherwise the decision is
  the action of one matching rule: the one with the smallest priority value, and among those with
  equal priority the one that comes first in the list.
\<close>
theorem first_matching_rule_decides:
  "case filter (\<lambda>i. rule_matches (pac_rules policy ! i) parsed direction) [0..<length (pac_rules policy)] of
     [] \<Rightarrow> evaluate_packet parsed direction policy = decision_of (pac_default_action policy)
   | i # rest \<Rightarrow> \<exists>j \<in> set (i # rest).
       evaluate_packet parsed direction policy = decision_of (fr_action (pac_rules policy ! j)) \<and>
       list_all (\<lambda>l. fr_priority (pac_rules policy ! j) < fr_priority (pac_rules policy ! l) \<or>
         fr_priority (pac_rules policy ! j) = fr_priority (pac_rules policy ! l) \<and> j \<le> l) (i # rest)"
proof -
  let ?m = "\<lambda>i. rule_matches (pac_rules policy ! i) parsed direction" and ?n = "length (pac_rules policy)"
  let ?key = "\<lambda>i. (fr_priority (pac_rules policy ! i), i)"
  have keys: "x \<in> set (rule_order (pac_rules policy)) \<longleftrightarrow> (\<exists>i < ?n. x = ?key i)" for x
    by (auto simp: rule_order_set)
  show ?thesis
  proof (cases "filter ?m [0..<?n]")
    case Nil
    then have "\<not> ?m i" if "i < ?n" for i using that by (simp add: filter_empty_conv)
    then have "evaluate_packet parsed direction policy = decision_of (pac_default_action policy)"
      unfolding evaluate_packet_def by (intro evaluate_loop_default) (auto simp: keys)
    then show ?thesis by (simp add: Nil)
  next
    case (Cons i rest)
    have mem: "j \<in> set (i # rest) \<longleftrightarrow> j < ?n \<and> ?m j" for j by (simp flip: Cons)
    then have "i < ?n" "?m i" by auto
    then obtain y where y: "y \<in> set (rule_order (pac_rules policy))" "?m (snd y)"
        "\<And>z. z \<in> set (rule_order (pac_rules policy)) \<Longrightarrow> ?m (snd z) \<Longrightarrow> y \<le> z"
        "evaluate_packet parsed direction policy = decision_of (fr_action (pac_rules policy ! snd y))"
      unfolding evaluate_packet_def
      using evaluate_loop_first [of "rule_order (pac_rules policy)" policy parsed direction] keys [of "?key i"]
      by (metis rule_order_def snd_conv sorted_sort)
    then obtain j where j: "y = ?key j" "j < ?n" by (auto simp: keys)
    have "list_all (\<lambda>l. fr_priority (pac_rules policy ! j) < fr_priority (pac_rules policy ! l) \<or>
         fr_priority (pac_rules policy ! j) = fr_priority (pac_rules policy ! l) \<and> j \<le> l) (i # rest)"
      unfolding list_all_iff
    proof
      fix l assume "l \<in> set (i # rest)"
      then have "?key j \<le> ?key l" using y(3) [of "?key l"] j(1) mem [of l] keys by auto
      then show "fr_priority (pac_rules policy ! j) < fr_priority (pac_rules policy ! l) \<or>
         fr_priority (pac_rules policy ! j) = fr_priority (pac_rules policy ! l) \<and> j \<le> l" by auto
    qed
    then show ?thesis using y j mem [of j] by (simp only: Cons list.case) auto
  qed
qed

subsection \<open>The two flow keys agree\<close>

text \<open>
  The key used by the processing worker and the one computed from the parsed packet are the same
  wherever the former exists; only the latter also exists for TCP and UDP packets without ports
  (later fragments, truncated headers), with both ports 0.
\<close>

lemma flow_keys_agree:
  "parsed_ok raw p \<Longrightarrow> flow_key_of p = Some key \<Longrightarrow> flow_key_from_parsed p = Some (to_flow_engine_key key)"
  by (cases "pp_transport p")
    (auto simp: flow_key_of_def flow_key_from_parsed_def to_flow_engine_key_def parsed_ok_def
      split: network_protocol.splits Option.bind_splits)

end
