(* ===== verification/Bus_Buffer.thy ===== *)
theory Bus_Buffer
  imports Core_Types
begin

text \<open>
  \<open>crates/packet-bus/src/buffer.rs\<close> and \<open>pool.rs\<close>: packet buffers and the buffer pool.
  The atomics and the mutex-protected free list of the pool are the fields of one record; an
  operation is its sequential effect. \<open>Vec::with_capacity\<close> reserves memory only and leaves an
  empty vector. The accounting invariant of the pool is proved for every sequence of
  operations a client can run that returns only buffers it has acquired.
\<close>

subsection \<open>Packet buffers\<close>

datatype buffer_error =
  Buffer_Released | Buffer_AlreadyReleased | Buffer_NotReleased
  | Buffer_TooLarge usize usize | Buffer_Overflow

record packet_buffer =
  b_data :: "byte list"
  b_length :: usize
  b_capacity :: usize
  b_released :: bool

definition buffer_new :: "usize \<Rightarrow> packet_buffer" where
  "buffer_new capacity =
     \<lparr> b_data = [], b_length = 0, b_capacity = capacity, b_released = False \<rparr>"

definition buffer_is_full :: "packet_buffer \<Rightarrow> bool" where
  "buffer_is_full b \<longleftrightarrow> b_length b \<ge> b_capacity b"

definition buffer_as_slice :: "packet_buffer \<Rightarrow> (buffer_error, byte list) outcome" where
  "buffer_as_slice b = slice_range (b_data b) 0 (b_length b)"

definition buffer_clear :: "packet_buffer \<Rightarrow> packet_buffer" where
  "buffer_clear b = (if b_released b then b else b\<lparr> b_data := [], b_length := 0 \<rparr>)"

definition buffer_write :: "byte list \<Rightarrow> packet_buffer \<Rightarrow> (buffer_error + unit) \<times> packet_buffer" where
  "buffer_write bytes b =
     (if b_released b then (Inl Buffer_Released, b)
      else if length bytes > b_capacity b then
        (Inl (Buffer_TooLarge (length bytes) (b_capacity b)), b)
      else (Inr (), b\<lparr> b_data := bytes, b_length := length bytes \<rparr>))"

definition buffer_append :: "byte list \<Rightarrow> packet_buffer \<Rightarrow> (buffer_error + unit) \<times> packet_buffer" where
  "buffer_append bytes b =
     (if b_released b then (Inl Buffer_Released, b)
      else case usize_checked_add (b_length b) (length bytes) of
        None \<Rightarrow> (Inl Buffer_Overflow, b)
      | Some new_length \<Rightarrow>
          if new_length > b_capacity b then (Inl (Buffer_TooLarge new_length (b_capacity b)), b)
          else (Inr (), b\<lparr> b_data := b_data b @ bytes, b_length := new_length \<rparr>))"

definition buffer_release :: "packet_buffer \<Rightarrow> (buffer_error + unit) \<times> packet_buffer" where
  "buffer_release b =
     (if b_released b then (Inl Buffer_AlreadyReleased, b) else (Inr (), b\<lparr> b_released := True \<rparr>))"

definition reset_for_reuse :: "packet_buffer \<Rightarrow> (buffer_error + unit) \<times> packet_buffer" where
  "reset_for_reuse b =
     (if \<not> b_released b then (Inl Buffer_NotReleased, b)
      else (Inr (), b\<lparr> b_data := [], b_length := 0, b_released := False \<rparr>))"

definition buffer_into_vec :: "packet_buffer \<Rightarrow> buffer_error + byte list" where
  "buffer_into_vec b = (if b_released b then Inl Buffer_Released else Inr (b_data b))"

definition buffer_inv :: "packet_buffer \<Rightarrow> bool" where
  "buffer_inv b \<longleftrightarrow> b_length b = length (b_data b) \<and> b_length b \<le> b_capacity b"

lemma buffer_inv_new [keeps]: "buffer_inv (buffer_new c)"
  by (simp add: buffer_inv_def buffer_new_def)

lemma buffer_inv_clear [keeps]: "buffer_inv b \<Longrightarrow> buffer_inv (buffer_clear b)"
  by (simp add: buffer_inv_def buffer_clear_def)

lemma buffer_inv_write [keeps]: "buffer_inv b \<Longrightarrow> buffer_inv (snd (buffer_write bs b))"
  by (simp add: buffer_inv_def buffer_write_def)

lemma buffer_inv_append [keeps]: "buffer_inv b \<Longrightarrow> buffer_inv (snd (buffer_append bs b))"
  by (auto simp: buffer_inv_def buffer_append_def usize_checked_add_def split: option.splits if_splits)

lemma buffer_inv_release [keeps]: "buffer_inv b \<Longrightarrow> buffer_inv (snd (buffer_release b))"
  by (simp add: buffer_inv_def buffer_release_def)

lemma buffer_inv_reset [keeps]: "buffer_inv b \<Longrightarrow> buffer_inv (snd (reset_for_reuse b))"
  by (simp add: buffer_inv_def reset_for_reuse_def)

lemma buffer_capacity_kept [simp]:
  "b_capacity (snd (buffer_write bs b)) = b_capacity b"
  "b_capacity (snd (buffer_append bs b)) = b_capacity b"
  "b_capacity (snd (buffer_release b)) = b_capacity b"
  "b_capacity (snd (reset_for_reuse b)) = b_capacity b"
  "b_capacity (buffer_clear b) = b_capacity b"
  by (auto simp: buffer_write_def buffer_append_def buffer_release_def reset_for_reuse_def
      buffer_clear_def split: option.splits)

subsection \<open>Client programs of a buffer\<close>

datatype buffer_op = Buf_Write "byte list" | Buf_Append "byte list" | Buf_Clear | Buf_Release | Buf_Reset

primrec buffer_exec :: "buffer_op \<Rightarrow> packet_buffer \<Rightarrow> packet_buffer" where
  "buffer_exec (Buf_Write bs) b = snd (buffer_write bs b)"
| "buffer_exec (Buf_Append bs) b = snd (buffer_append bs b)"
| "buffer_exec Buf_Clear b = buffer_clear b"
| "buffer_exec Buf_Release b = snd (buffer_release b)"
| "buffer_exec Buf_Reset b = snd (reset_for_reuse b)"

lemma buffer_inv_exec [keeps]: "buffer_inv b \<Longrightarrow> buffer_inv (buffer_exec op b)"
  by (cases op) (simp_all add: keeps)

lemma buffer_inv_run: "buffer_inv b \<Longrightarrow> buffer_inv (fold buffer_exec ops b)"
  by (induction ops arbitrary: b) (simp_all add: keeps)

lemma buffer_capacity_exec [simp]: "b_capacity (buffer_exec op b) = b_capacity b"
  by (cases op) simp_all

lemma buffer_capacity_run [simp]: "b_capacity (fold buffer_exec ops b) = b_capacity b"
  by (induction ops arbitrary: b) simp_all

text \<open>
  Whatever operations run on a new buffer, reading it never panics: \<open>as_slice\<close> returns
  exactly the bytes stored, and there are never more of them than the capacity.
\<close>

lemma buffer_as_slice_total:
  "let b = fold buffer_exec ops (buffer_new c) in
     buffer_as_slice b = Ok (b_data b) \<and> length (b_data b) \<le> c"
proof -
  have "buffer_inv (fold buffer_exec ops (buffer_new c))"
    by (intro buffer_inv_run keeps)
  then show ?thesis
    by (simp add: buffer_inv_def buffer_as_slice_def slice_range_def buffer_new_def)
qed

subsection \<open>The buffer pool\<close>

datatype pool_error = Pool_InvalidConfiguration | Pool_Exhausted | Pool_InvalidBufferCapacity | Pool_Full

record buffer_pool =
  p_max_size :: usize
  p_buffer_capacity :: usize
  p_buffers :: "packet_buffer list" \<comment> \<open>the free list; the end of the vector is the head here\<close>
  p_poisoned :: bool
  p_allocated :: usize
  p_in_use :: usize

definition pool_new :: "usize \<Rightarrow> usize \<Rightarrow> pool_error + buffer_pool" where
  "pool_new max_size buffer_capacity =
     (if max_size = 0 \<or> buffer_capacity = 0 then Inl Pool_InvalidConfiguration
      else Inr \<lparr> p_max_size = max_size, p_buffer_capacity = buffer_capacity, p_buffers = [],
                 p_poisoned = False, p_allocated = 0, p_in_use = 0 \<rparr>)"

definition pool_available :: "buffer_pool \<Rightarrow> usize" where
  "pool_available p = p_allocated p - p_in_use p" \<comment> \<open>\<open>saturating_sub\<close>\<close>

definition acquire :: "buffer_pool \<Rightarrow> (pool_error + packet_buffer) \<times> buffer_pool" where
  "acquire p =
     (if p_poisoned p then (Inl Pool_Exhausted, p)
      else case p_buffers p of
        buffer # rest \<Rightarrow>
          (case reset_for_reuse buffer of
             (Inl _, _) \<Rightarrow> (Inl Pool_Exhausted, p\<lparr> p_buffers := rest \<rparr>)
           | (Inr _, buffer') \<Rightarrow>
               (Inr buffer', p\<lparr> p_buffers := rest, p_in_use := uadd (p_in_use p) 1 \<rparr>))
      | [] \<Rightarrow>
          if p_allocated p \<ge> p_max_size p then (Inl Pool_Exhausted, p)
          else (Inr (buffer_new (p_buffer_capacity p)),
                p\<lparr> p_allocated := p_allocated p + 1, p_in_use := uadd (p_in_use p) 1 \<rparr>))"

definition pool_release :: "packet_buffer \<Rightarrow> buffer_pool \<Rightarrow> (pool_error + unit) \<times> buffer_pool" where
  "pool_release buffer p =
     (if b_capacity buffer \<noteq> p_buffer_capacity p then (Inl Pool_InvalidBufferCapacity, p)
      else
        let buffer' = (if b_released buffer then buffer else snd (buffer_release buffer)) in
        if p_poisoned p then (Inl Pool_Full, p)
        else if length (p_buffers p) \<ge> p_max_size p then
          (Inr (), p\<lparr> p_in_use := usub (p_in_use p) 1, p_allocated := usub (p_allocated p) 1 \<rparr>)
        else
          (Inr (), p\<lparr> p_buffers := buffer' # p_buffers p, p_in_use := usub (p_in_use p) 1 \<rparr>))"

definition pool_clear :: "buffer_pool \<Rightarrow> buffer_pool" where
  "pool_clear p =
     (let p' = (if p_poisoned p then p else p\<lparr> p_buffers := [] \<rparr>)
      in p'\<lparr> p_allocated := p_in_use p' \<rparr>)"

function preallocate_loop :: "usize \<Rightarrow> usize \<Rightarrow> buffer_pool \<Rightarrow> usize \<times> buffer_pool" where
  "preallocate_loop target created p =
     (if p_allocated p < target then
        if p_allocated p \<ge> p_max_size p then (created, p)
        else preallocate_loop target (created + 1)
          (p\<lparr> p_allocated := p_allocated p + 1,
              p_buffers := buffer_new (p_buffer_capacity p) # p_buffers p \<rparr>)
      else (created, p))"
  by auto
termination
  by (relation "measure (\<lambda>(target, created, p). target - p_allocated p)") auto

declare preallocate_loop.simps [simp del]

definition preallocate :: "usize \<Rightarrow> buffer_pool \<Rightarrow> usize \<times> buffer_pool" where
  "preallocate count p =
     (let target = min count (p_max_size p) in
      if p_poisoned p then (0, p) else preallocate_loop target 0 p)"

subsection \<open>Client programs of a pool\<close>

text \<open>
  A client acquires buffers, uses the ones it holds, gives some of them back, clears the pool
  or preallocates. Its state is the pool and the buffers it holds.
\<close>

datatype pool_op =
  Pool_Acquire | Pool_Use nat buffer_op | Pool_GiveBack nat | Pool_Clear | Pool_Preallocate usize

primrec pool_exec :: "pool_op \<Rightarrow> buffer_pool \<times> packet_buffer list \<Rightarrow> buffer_pool \<times> packet_buffer list" where
  "pool_exec Pool_Acquire s = (case acquire (fst s) of
      (Inr b, p) \<Rightarrow> (p, b # snd s) | (Inl _, p) \<Rightarrow> (p, snd s))"
| "pool_exec (Pool_Use i op) s =
     (fst s, if i < length (snd s) then (snd s)[i := buffer_exec op (snd s ! i)] else snd s)"
| "pool_exec (Pool_GiveBack i) s =
     (if i < length (snd s)
      then (snd (pool_release (snd s ! i) (fst s)), take i (snd s) @ drop (Suc i) (snd s))
      else s)"
| "pool_exec Pool_Clear s = (pool_clear (fst s), snd s)"
| "pool_exec (Pool_Preallocate n) s = (snd (preallocate n (fst s)), snd s)"

definition pool_buffer_ok :: "buffer_pool \<Rightarrow> packet_buffer \<Rightarrow> bool" where
  "pool_buffer_ok p b \<longleftrightarrow> b_capacity b = p_buffer_capacity p \<and> buffer_inv b"

definition pool_inv :: "buffer_pool \<times> packet_buffer list \<Rightarrow> bool" where
  "pool_inv s \<longleftrightarrow> \<not> p_poisoned (fst s) \<and> p_in_use (fst s) = length (snd s) \<and>
     length (p_buffers (fst s)) + p_in_use (fst s) \<le> p_allocated (fst s) \<and>
     p_allocated (fst s) \<le> p_max_size (fst s) \<and> p_max_size (fst s) \<le> usize_max \<and>
     list_all (pool_buffer_ok (fst s)) (p_buffers (fst s)) \<and> list_all (pool_buffer_ok (fst s)) (snd s)"

text \<open>Without preallocation the accounting is exact and every pooled buffer is reusable.\<close>

definition pool_exact :: "buffer_pool \<Rightarrow> bool" where
  "pool_exact p \<longleftrightarrow> p_allocated p = length (p_buffers p) + p_in_use p \<and> list_all b_released (p_buffers p)"

lemma pool_buffer_ok_upd [simp]:
  "pool_buffer_ok (p\<lparr> p_buffers := x \<rparr>) = pool_buffer_ok p"
  "pool_buffer_ok (p\<lparr> p_allocated := n \<rparr>) = pool_buffer_ok p"
  "pool_buffer_ok (p\<lparr> p_in_use := n \<rparr>) = pool_buffer_ok p"
  by (auto simp: pool_buffer_ok_def)

lemma pool_buffer_ok_new [simp]: "pool_buffer_ok p (buffer_new (p_buffer_capacity p))"
  by (simp add: pool_buffer_ok_def keeps) (simp add: buffer_new_def)

lemma pool_buffer_ok_exec [simp]: "pool_buffer_ok p b \<Longrightarrow> pool_buffer_ok p (buffer_exec op b)"
  by (simp add: pool_buffer_ok_def keeps)

lemma pool_buffer_ok_reset [simp]:
  "pool_buffer_ok p b \<Longrightarrow> pool_buffer_ok p (b\<lparr> b_data := [], b_length := 0, b_released := r \<rparr>)"
  by (simp add: pool_buffer_ok_def buffer_inv_def)

lemma pool_inv_acquire: "pool_inv s \<Longrightarrow> pool_inv (pool_exec Pool_Acquire s)"
  by (auto simp: pool_inv_def acquire_def reset_for_reuse_def split: list.splits)

lemma pool_inv_use: "pool_inv s \<Longrightarrow> pool_inv (pool_exec (Pool_Use i op) s)"
  by (auto simp: pool_inv_def list_all_length nth_list_update)

lemma list_all_remove_nth: "list_all P xs \<Longrightarrow> list_all P (take i xs @ drop (Suc i) xs)"
  by (auto simp: list.pred_set dest: in_set_takeD in_set_dropD)

lemma pool_inv_give_back: "pool_inv s \<Longrightarrow> pool_inv (pool_exec (Pool_GiveBack i) s)"
proof (cases "i < length (snd s)")
  case True
  assume inv: "pool_inv s"
  then have ok: "pool_buffer_ok (fst s) (snd s ! i)"
    using True by (simp add: pool_inv_def list_all_length)
  have room: "length (p_buffers (fst s)) < p_max_size (fst s)"
    using inv True by (auto simp: pool_inv_def)
  have sub: "usub (p_in_use (fst s)) 1 = p_in_use (fst s) - 1"
    using inv True by (intro usub_exact) (auto simp: pool_inv_def)
  have "list_all (pool_buffer_ok (fst s)) (take i (snd s) @ drop (Suc i) (snd s))"
    using inv by (intro list_all_remove_nth) (simp add: pool_inv_def)
  then show ?thesis
    using inv True ok room
    by (auto simp: pool_inv_def pool_release_def sub Let_def pool_buffer_ok_def keeps)
qed simp

lemma pool_inv_clear: "pool_inv s \<Longrightarrow> pool_inv (pool_exec Pool_Clear s)"
  by (auto simp: pool_inv_def pool_clear_def Let_def)

lemma pool_inv_preallocate_loop:
  "pool_inv (p, out) \<Longrightarrow> pool_inv (snd (preallocate_loop t c p), out)"
proof (induction t c p rule: preallocate_loop.induct)
  case (1 t c p)
  show ?case
  proof (cases "p_allocated p < t \<and> p_allocated p < p_max_size p")
    case True
    let ?p = "p\<lparr> p_allocated := p_allocated p + 1, p_buffers := buffer_new (p_buffer_capacity p) # p_buffers p \<rparr>"
    have "pool_inv (?p, out)"
      using 1(2) True by (auto simp: pool_inv_def)
    then show ?thesis using 1(1) True by (simp add: preallocate_loop.simps [of t c p])
  qed (use 1(2) in \<open>auto simp: preallocate_loop.simps [of t c p]\<close>)
qed

lemma pool_inv_exec [keeps]: "pool_inv s \<Longrightarrow> pool_inv (pool_exec op s)"
proof (cases op)
  case (Pool_Preallocate n)
  then show "pool_inv s \<Longrightarrow> ?thesis"
    by (cases s) (auto simp: preallocate_def Let_def intro: pool_inv_preallocate_loop)
qed (simp_all only: pool_inv_acquire pool_inv_use pool_inv_give_back pool_inv_clear)

lemma pool_inv_run: "pool_inv s \<Longrightarrow> pool_inv (fold pool_exec ops s)"
  by (induction ops arbitrary: s) (simp_all add: keeps del: pool_exec.simps)

lemma pool_inv_new: "pool_new m c = Inr p \<Longrightarrow> m \<le> usize_max \<Longrightarrow> pool_inv (p, [])"
  by (auto simp: pool_new_def pool_inv_def split: if_splits)

lemma pool_config_run:
  "p_max_size (fst (fold pool_exec ops s)) = p_max_size (fst s)"
  "p_buffer_capacity (fst (fold pool_exec ops s)) = p_buffer_capacity (fst s)"
proof -
  have loop: "p_max_size (snd (preallocate_loop t c p)) = p_max_size p \<and>
      p_buffer_capacity (snd (preallocate_loop t c p)) = p_buffer_capacity p" for t c p
    by (induction t c p rule: preallocate_loop.induct) (subst (1 2) preallocate_loop.simps, simp)
  have "p_max_size (fst (pool_exec op s)) = p_max_size (fst s) \<and>
      p_buffer_capacity (fst (pool_exec op s)) = p_buffer_capacity (fst s)" for op s
    by (cases op) (auto simp: acquire_def pool_release_def pool_clear_def preallocate_def Let_def loop
        split: list.splits sum.splits prod.splits)
  then show "p_max_size (fst (fold pool_exec ops s)) = p_max_size (fst s)"
    "p_buffer_capacity (fst (fold pool_exec ops s)) = p_buffer_capacity (fst s)"
    by (induction ops arbitrary: s) simp_all
qed



lemma pool_exact_exec:
  assumes "pool_inv s" "pool_exact (fst s)" "\<And>n. op \<noteq> Pool_Preallocate n"
  shows "pool_exact (fst (pool_exec op s))"
proof (cases op)
  case Pool_Acquire
  then show ?thesis
    using assms by (auto simp: pool_inv_def pool_exact_def acquire_def reset_for_reuse_def split: list.splits)
next
  case (Pool_GiveBack i)
  show ?thesis
  proof (cases "i < length (snd s)")
    case True
    then have "usub (p_in_use (fst s)) 1 = p_in_use (fst s) - 1"
      using assms(1) by (intro usub_exact) (auto simp: pool_inv_def)
    then show ?thesis
      using assms(1,2) True Pool_GiveBack
      by (auto simp: pool_inv_def pool_exact_def pool_release_def buffer_release_def Let_def)
  qed (use assms Pool_GiveBack in simp)
qed (use assms in \<open>auto simp: pool_exact_def pool_clear_def pool_inv_def Let_def\<close>)

lemma pool_exact_run:
  assumes "pool_inv s" "pool_exact (fst s)" "\<And>n. Pool_Preallocate n \<notin> set ops"
  shows "pool_exact (fst (fold pool_exec ops s))"
  using assms
proof (induction ops arbitrary: s)
  case (Cons op ops)
  have "pool_exact (fst (pool_exec op s))"
    using Cons.prems by (intro pool_exact_exec) auto
  then show ?case
    using Cons.prems by (auto intro: Cons.IH keeps)
qed simp

text \<open>
  On a pool that is not preallocated, \<open>acquire\<close> succeeds exactly as long as fewer than
  \<open>max_size\<close> buffers are held, whatever was acquired, written, given back or cleared
  before; the buffer handed out is empty, not released and of the configured capacity.
\<close>

lemma acquire_succeeds_iff:
  assumes "pool_new m c = Inr p" and "m \<le> usize_max"
    and "\<And>n. Pool_Preallocate n \<notin> set ops"
    and "fold pool_exec ops (p, []) = (p', held)"
  shows "(case fst (acquire p') of
      Inr b \<Rightarrow> length held < m \<and> b = buffer_new c
    | Inl e \<Rightarrow> length held = m \<and> e = Pool_Exhausted)"
proof -
  have inv: "pool_inv (p', held)"
    using pool_inv_run [OF pool_inv_new [OF assms(1,2)]] assms(4) by metis
  have exact: "pool_exact p'"
    using pool_exact_run [OF pool_inv_new [OF assms(1,2)], of ops] assms
    by (auto simp: pool_exact_def pool_new_def split: if_splits)
  have cfg: "p_max_size p' = m" "p_buffer_capacity p' = c"
    using pool_config_run [of ops "(p, [])"] assms by (auto simp: pool_new_def split: if_splits)
  show ?thesis
    using inv exact cfg
    by (auto simp: pool_inv_def pool_exact_def acquire_def reset_for_reuse_def buffer_new_def
        pool_buffer_ok_def split: list.splits)
qed

theorem acquire_succeeds_iff_witness:
  "\<exists>p p' held. pool_new 1 4 = Inr p \<and>
     fold pool_exec [Pool_Acquire, Pool_GiveBack 0] (p, []) = (p', held) \<and>
     fst (acquire p') = Inr (buffer_new 4)"
proof -
  define p where "p = \<lparr> p_max_size = 1, p_buffer_capacity = 4, p_buffers = [], p_poisoned = False,
    p_allocated = 0, p_in_use = 0 \<rparr>"
  define r where "r = fold pool_exec [Pool_Acquire, Pool_GiveBack 0] (p, [])"
  have new: "pool_new 1 4 = Inr p"
    by (simp add: pool_new_def p_def)
  have "length (snd r) = 0"
    by (simp add: r_def p_def acquire_def buffer_new_def pool_release_def buffer_release_def
        uadd_def usub_def Let_def)
  moreover have run: "fold pool_exec [Pool_Acquire, Pool_GiveBack 0] (p, []) = (fst r, snd r)"
    by (simp only: r_def prod.collapse)
  ultimately have "fst (acquire (fst r)) = Inr (buffer_new 4)"
    using acquire_succeeds_iff [OF new _ _ run] by (auto simp: usize_max_def split: sum.splits)
  then show ?thesis using new run by blast
qed

lemma preallocate_loop_head:
  assumes "p_buffers p = b # bs" "\<not> b_released b"
  shows "\<exists>b bs. p_buffers (snd (preallocate_loop t c p)) = b # bs \<and> \<not> b_released b"
  using assms
proof (induction t c p arbitrary: b bs rule: preallocate_loop.induct)
  case (1 t c p)
  then show ?case
    by (simp add: preallocate_loop.simps [of t c p]) (simp add: buffer_new_def)
qed

lemma preallocate_loop_poisoned: "p_poisoned (snd (preallocate_loop t c p)) = p_poisoned p"
  by (induction t c p rule: preallocate_loop.induct) (subst preallocate_loop.simps, simp)

text \<open>
  Preallocation defeats the pool: the buffers \<open>preallocate\<close> puts on the free list are
  not marked released, so the next \<open>acquire\<close> pops one, fails to reset it and reports
  \<open>Exhausted\<close> although no buffer is in use, and the popped buffer is lost from the pool.
\<close>

lemma acquire_after_preallocate_fails:
  assumes "pool_new m c = Inr p" and "0 < n" and "preallocate n p = (k, p')"
  shows "p_in_use p' = 0 \<and> (\<exists>p''. acquire p' = (Inl Pool_Exhausted, p'') \<and>
    length (p_buffers p'') < length (p_buffers p') \<and> p_allocated p'' = p_allocated p')"
proof -
  have p: "p = \<lparr> p_max_size = m, p_buffer_capacity = c, p_buffers = [], p_poisoned = False,
      p_allocated = 0, p_in_use = 0 \<rparr>" and m: "0 < m"
    using assms(1) by (auto simp: pool_new_def split: if_splits)
  let ?q = "p\<lparr> p_allocated := 1, p_buffers := [buffer_new c] \<rparr>"
  have p': "p' = snd (preallocate_loop (min n m) 1 ?q)"
    using assms(2,3) m by (auto simp: preallocate_def p Let_def preallocate_loop.simps [of _ 0] split: if_splits)
  obtain b bs where "p_buffers p' = b # bs" "\<not> b_released b"
    using preallocate_loop_head [of ?q "buffer_new c" "[]" "min n m" 1] unfolding p'
    by (auto simp: buffer_new_def)
  moreover have "\<not> p_poisoned p'"
    unfolding p' by (simp add: preallocate_loop_poisoned) (simp add: p)
  moreover have "p_in_use (snd (preallocate_loop t d r)) = p_in_use r" for t d r
    by (induction t d r rule: preallocate_loop.induct) (subst preallocate_loop.simps, simp)
  then have "p_in_use p' = 0"
    unfolding p' by (simp add: p)
  ultimately show ?thesis
    by (simp add: acquire_def reset_for_reuse_def)
qed

theorem acquire_after_preallocate_fails_witness:
  "\<exists>p p'. pool_new 4 512 = Inr p \<and> p' = snd (preallocate 4 p) \<and>
     p_in_use p' = 0 \<and> (\<exists>p''. acquire p' = (Inl Pool_Exhausted, p''))"
proof -
  obtain p where p: "pool_new 4 512 = Inr p"
    by (simp add: pool_new_def)
  show ?thesis
    using acquire_after_preallocate_fails [OF p, of 4 "fst (preallocate 4 p)" "snd (preallocate 4 p)"] p
    by auto
qed

end
