(* ===== verification/Core_Ownership.thy ===== *)
theory Core_Ownership
  imports Core_Types
begin

text \<open>
  \<open>crates/network-core/src/ownership.rs\<close>: the ownership states of a packet, the transition
  table and the tracker that records the history of one packet. The tracker is shown to keep
  a history that is a legal path, in which release is final and every stage between capture
  and host delivery is visited.
\<close>

datatype ownership_state =
  Allocated | BackendOwned | EngineOwned | BusOwned | ProcessingOwned | HostOwned | Released

definition is_active :: "ownership_state \<Rightarrow> bool" where
  "is_active s \<longleftrightarrow> s \<noteq> Released"

definition is_engine_owned :: "ownership_state \<Rightarrow> bool" where
  "is_engine_owned s \<longleftrightarrow> s \<in> {EngineOwned, BusOwned, ProcessingOwned}"

primrec ownership_state_debug :: "ownership_state \<Rightarrow> string" where
  "ownership_state_debug Allocated = ''Allocated''"
| "ownership_state_debug BackendOwned = ''BackendOwned''"
| "ownership_state_debug EngineOwned = ''EngineOwned''"
| "ownership_state_debug BusOwned = ''BusOwned''"
| "ownership_state_debug ProcessingOwned = ''ProcessingOwned''"
| "ownership_state_debug HostOwned = ''HostOwned''"
| "ownership_state_debug Released = ''Released''"

definition arrow_utf8 :: string where
  \<comment> \<open>the UTF-8 bytes of U+2192\<close>
  "arrow_utf8 = [char_of (0xE2 :: nat), char_of (0x86 :: nat), char_of (0x92 :: nat)]"

definition transition_ownership :: "ownership_state \<Rightarrow> ownership_state \<Rightarrow> ownership_state engine_result" where
  "transition_ownership current target =
     (if current = target \<and> is_active current then Inr target
      else if (current, target) \<in>
          {(Allocated, BackendOwned), (BackendOwned, EngineOwned), (EngineOwned, BusOwned),
           (BusOwned, ProcessingOwned), (ProcessingOwned, HostOwned),
           (ProcessingOwned, EngineOwned), (HostOwned, Released)} then Inr target
      else if target = Released \<and> is_active current then Inr Released
      else if current = Released then
        Inl (Error_Message EC_InvalidStateTransition
          ''use-after-release: packet has already been released'')
      else
        Inl (Error_Message EC_InvalidStateTransition
          (''illegal ownership transition: '' @ ownership_state_debug current @ '' '' @ arrow_utf8 @
           '' '' @ ownership_state_debug target)))"

definition can_transition :: "ownership_state \<Rightarrow> ownership_state \<Rightarrow> bool" where
  "can_transition s t \<longleftrightarrow> (\<exists>r. transition_ownership s t = Inr r)"

record ownership_tracker =
  ot_state :: ownership_state
  ot_history :: "ownership_state list"

definition tracker_new :: ownership_tracker where
  "tracker_new = \<lparr> ot_state = Allocated, ot_history = [Allocated] \<rparr>"

definition transition ::
  "ownership_state \<Rightarrow> ownership_tracker \<Rightarrow> ownership_state engine_result \<times> ownership_tracker" where
  "transition target tr =
     (let result = transition_ownership (ot_state tr) target in
      (result,
       case result of
         Inr new_state \<Rightarrow> tr\<lparr> ot_state := new_state, ot_history := ot_history tr @ [new_state] \<rparr>
       | Inl _ \<Rightarrow> tr))"

definition handoff_backend_to_engine where "handoff_backend_to_engine = transition EngineOwned"
definition handoff_engine_to_bus where "handoff_engine_to_bus = transition BusOwned"
definition handoff_bus_to_processing where "handoff_bus_to_processing = transition ProcessingOwned"
definition requeue_to_engine where "requeue_to_engine = transition EngineOwned"
definition handoff_to_host where "handoff_to_host = transition HostOwned"
definition tracker_release where "tracker_release = transition Released"

definition run_transitions :: "ownership_state list \<Rightarrow> ownership_tracker \<Rightarrow> ownership_tracker" where
  "run_transitions ts tr = fold (\<lambda>t tr. snd (transition t tr)) ts tr"

subsection \<open>The transition table\<close>

lemma transition_ownership_target:
  "transition_ownership s t = Inr r \<Longrightarrow> r = t"
  by (auto simp: transition_ownership_def split: if_splits)

lemma can_transition_iff:
  "can_transition s t \<longleftrightarrow> s \<noteq> Released \<and>
     (t = s \<or> t = Released \<or> (s, t) \<in>
       {(Allocated, BackendOwned), (BackendOwned, EngineOwned), (EngineOwned, BusOwned),
        (BusOwned, ProcessingOwned), (ProcessingOwned, HostOwned), (ProcessingOwned, EngineOwned)})"
  by (cases s; cases t) (simp_all add: can_transition_def transition_ownership_def is_active_def)

lemma transition_ownership_cases:
  "transition_ownership s t = Inr t \<and> can_transition s t \<or>
   (\<exists>e. transition_ownership s t = Inl e \<and> error_code e = EC_InvalidStateTransition) \<and> \<not> can_transition s t"
  by (auto simp: can_transition_def transition_ownership_def)

interpretation ownership: lifecycle can_transition "\<lambda>s. s = Released"
  by unfold_locales (simp add: can_transition_iff)

subsection \<open>The tracker\<close>

definition legal_path :: "ownership_state list \<Rightarrow> bool" where
  "legal_path xs \<longleftrightarrow> (\<forall>i. Suc i < length xs \<longrightarrow> can_transition (xs ! i) (xs ! Suc i))"

definition tracker_inv :: "ownership_tracker \<Rightarrow> bool" where
  "tracker_inv tr \<longleftrightarrow> ot_history tr \<noteq> [] \<and> hd (ot_history tr) = Allocated \<and>
     last (ot_history tr) = ot_state tr \<and> legal_path (ot_history tr)"

lemma legal_path_snoc:
  "xs \<noteq> [] \<Longrightarrow> legal_path (xs @ [t]) \<longleftrightarrow> legal_path xs \<and> can_transition (last xs) t"
  by (auto simp: legal_path_def nth_append last_conv_nth less_Suc_eq)
    (metis One_nat_def Suc_less_eq2 diff_Suc_1 length_greater_0_conv less_SucI Suc_lessD nth_append)+

lemma transition_snd:
  "snd (transition t tr) =
     (if can_transition (ot_state tr) t
      then tr\<lparr> ot_state := t, ot_history := ot_history tr @ [t] \<rparr> else tr)"
  using transition_ownership_cases [of "ot_state tr" t] by (auto simp: transition_def Let_def)

lemma tracker_inv_new [keeps]: "tracker_inv tracker_new"
  by (simp add: tracker_inv_def tracker_new_def legal_path_def)

lemma tracker_inv_transition [keeps]: "tracker_inv tr \<Longrightarrow> tracker_inv (snd (transition t tr))"
  by (auto simp: tracker_inv_def transition_snd legal_path_snoc)

lemma tracker_inv_run: "tracker_inv tr \<Longrightarrow> tracker_inv (run_transitions ts tr)"
  unfolding run_transitions_def by (induction ts arbitrary: tr) (auto intro: keeps)

lemma run_transitions_state: "ot_state (run_transitions ts tr) = attempts can_transition (ot_state tr) ts"
  unfolding run_transitions_def by (induction ts arbitrary: tr) (auto simp: transition_snd)

text \<open>Every stage strictly before a state on the way from capture to the host.\<close>

primrec stages_before :: "ownership_state \<Rightarrow> ownership_state set" where
  "stages_before Allocated = {}"
| "stages_before BackendOwned = {Allocated}"
| "stages_before EngineOwned = {Allocated, BackendOwned}"
| "stages_before BusOwned = {Allocated, BackendOwned, EngineOwned}"
| "stages_before ProcessingOwned = {Allocated, BackendOwned, EngineOwned, BusOwned}"
| "stages_before HostOwned = {Allocated, BackendOwned, EngineOwned, BusOwned, ProcessingOwned}"
| "stages_before Released = {Allocated}"

definition stages_closed :: "ownership_state list \<Rightarrow> bool" where
  "stages_closed xs \<longleftrightarrow> (\<forall>s \<in> set xs. stages_before s \<subseteq> set xs)"

lemma stages_closed_transition:
  "tracker_inv tr \<Longrightarrow> stages_closed (ot_history tr) \<Longrightarrow> stages_closed (ot_history (snd (transition t tr)))"
proof -
  assume inv: "tracker_inv tr" and cl: "stages_closed (ot_history tr)"
  have s: "ot_state tr \<in> set (ot_history tr)" and a: "Allocated \<in> set (ot_history tr)"
    using inv by (auto simp: tracker_inv_def) (metis last_in_set, metis hd_in_set)
  have "stages_before t \<subseteq> set (ot_history tr)" if "can_transition (ot_state tr) t"
    using that cl s a by (cases t; cases "ot_state tr") (auto simp: can_transition_iff stages_closed_def)
  then show ?thesis
    using cl by (auto simp: transition_snd stages_closed_def)
qed

lemma stages_closed_run:
  "tracker_inv tr \<Longrightarrow> stages_closed (ot_history tr) \<Longrightarrow> stages_closed (ot_history (run_transitions ts tr))"
  unfolding run_transitions_def
  by (induction ts arbitrary: tr) (auto intro: keeps stages_closed_transition)

subsection \<open>Properties\<close>

text \<open>
  Whatever transitions are attempted on a fresh tracker, its history starts at
  \<open>Allocated\<close>, ends in the current state, moves only along legal transitions, and
  contains \<open>Released\<close> at most once, as its last entry.
\<close>

lemma tracker_history_legal:
  "let tr = run_transitions ts tracker_new; h = ot_history tr in
     hd h = Allocated \<and> last h = ot_state tr \<and> legal_path h \<and> Released \<notin> set (butlast h)"
proof -
  let ?h = "ot_history (run_transitions ts tracker_new)"
  have inv: "tracker_inv (run_transitions ts tracker_new)"
    by (intro tracker_inv_run keeps)
  have "Released \<notin> set (butlast ?h)"
  proof
    assume "Released \<in> set (butlast ?h)"
    then obtain i where i: "i < length ?h - 1" "?h ! i = Released"
      by (metis in_set_conv_nth length_butlast nth_butlast)
    moreover have "legal_path ?h" "Suc i < length ?h"
      using inv i by (auto simp: tracker_inv_def)
    ultimately have "can_transition (?h ! i) (?h ! Suc i)"
      unfolding legal_path_def by blast
    then show False using i by (simp add: can_transition_iff)
  qed
  then show ?thesis using inv by (simp add: tracker_inv_def Let_def)
qed

text \<open>
  Release is final. Once a packet has been released, every later attempted transition,
  a second release included, fails with \<open>InvalidStateTransition\<close> and leaves the tracker
  as it was.
\<close>

lemma no_use_after_release:
  assumes "ot_state tr = Released"
  shows "run_transitions ts tr = tr \<and>
    (\<exists>m. transition t tr = (Inl (Error_Message EC_InvalidStateTransition m), tr))"
proof -
  have stuck: "snd (transition u tr) = tr" for u
    using assms by (simp add: transition_snd can_transition_iff)
  have "run_transitions ts tr = tr"
    unfolding run_transitions_def by (induction ts) (simp_all add: stuck)
  moreover have "\<exists>m. transition t tr = (Inl (Error_Message EC_InvalidStateTransition m), tr)"
    using assms by (simp add: transition_def transition_ownership_def is_active_def)
  ultimately show ?thesis by simp
qed

theorem no_use_after_release_witness:
  "let tr = run_transitions [BackendOwned, Released] tracker_new in
     ot_state tr = Released \<and> run_transitions [EngineOwned, Released] tr = tr"
proof -
  have "ot_state (run_transitions [BackendOwned, Released] tracker_new) = Released"
    by (simp add: run_transitions_state tracker_new_def can_transition_iff)
  then show ?thesis
    using no_use_after_release [of "run_transitions [BackendOwned, Released] tracker_new"] by simp
qed

text \<open>
  A packet reaches the host only through the whole pipeline: if the history of a tracker
  ever contains \<open>HostOwned\<close>, it contains every earlier stage (backend, engine, bus and
  processing), whatever transitions were attempted and in whatever order.
\<close>

lemma host_delivery_passes_every_stage:
  assumes "HostOwned \<in> set (ot_history (run_transitions ts tracker_new))"
  shows "{Allocated, BackendOwned, EngineOwned, BusOwned, ProcessingOwned}
     \<subseteq> set (ot_history (run_transitions ts tracker_new))"
proof -
  have "stages_closed (ot_history (run_transitions ts tracker_new))"
    by (intro stages_closed_run keeps) (simp add: stages_closed_def tracker_new_def)
  then show ?thesis using assms by (force simp: stages_closed_def)
qed

theorem host_delivery_passes_every_stage_witness:
  "HostOwned \<in> set (ot_history (run_transitions
     [BackendOwned, HostOwned, EngineOwned, BusOwned, ProcessingOwned, HostOwned] tracker_new)) \<and>
   BusOwned \<in> set (ot_history (run_transitions
     [BackendOwned, HostOwned, EngineOwned, BusOwned, ProcessingOwned, HostOwned] tracker_new))"
proof -
  have "HostOwned \<in> set (ot_history (run_transitions
     [BackendOwned, HostOwned, EngineOwned, BusOwned, ProcessingOwned, HostOwned] tracker_new))"
    by (simp add: run_transitions_def tracker_new_def transition_snd can_transition_iff)
  then show ?thesis using host_delivery_passes_every_stage by blast
qed

end
