(* ===== verification/Bus_Ownership.thy ===== *)
theory Bus_Ownership
  imports Core_Ownership
begin

text \<open>
  \<open>crates/packet-bus/src/ownership.rs\<close>: the lock-free ownership tracker of the packet bus
  and the packet that carries one. The tracker's cell is an atomic byte; \<open>transfer\<close> is one
  compare-and-exchange, and \<open>release\<close> a load followed by one. The interleavings of threads
  using the same tracker are a step relation.
\<close>

datatype owner = Own_Allocated | Own_Backend | Own_Engine | Own_Bus | Own_Processing | Own_Host | Own_Released

primrec owner_as_u8 :: "owner \<Rightarrow> u8" where
  "owner_as_u8 Own_Allocated = 0"
| "owner_as_u8 Own_Backend = 1"
| "owner_as_u8 Own_Engine = 2"
| "owner_as_u8 Own_Bus = 3"
| "owner_as_u8 Own_Processing = 4"
| "owner_as_u8 Own_Host = 5"
| "owner_as_u8 Own_Released = 6"

primrec as_core :: "owner \<Rightarrow> ownership_state" where
  "as_core Own_Allocated = Allocated"
| "as_core Own_Backend = BackendOwned"
| "as_core Own_Engine = EngineOwned"
| "as_core Own_Bus = BusOwned"
| "as_core Own_Processing = ProcessingOwned"
| "as_core Own_Host = HostOwned"
| "as_core Own_Released = Released"

primrec from_core :: "ownership_state \<Rightarrow> owner" where
  "from_core Allocated = Own_Allocated"
| "from_core BackendOwned = Own_Backend"
| "from_core EngineOwned = Own_Engine"
| "from_core BusOwned = Own_Bus"
| "from_core ProcessingOwned = Own_Processing"
| "from_core HostOwned = Own_Host"
| "from_core Released = Own_Released"

definition can_transfer_to :: "owner \<Rightarrow> owner \<Rightarrow> bool" where
  "can_transfer_to o1 o2 \<longleftrightarrow>
     (case transition_ownership (as_core o1) (as_core o2) of Inr _ \<Rightarrow> True | Inl _ \<Rightarrow> False)"

type_synonym bus_tracker = u8 \<comment> \<open>the atomic cell\<close>

definition bus_tracker_new :: "owner \<Rightarrow> bus_tracker" where
  "bus_tracker_new own = owner_as_u8 own"

definition tracker_owner :: "bus_tracker \<Rightarrow> owner" where
  "tracker_owner cell =
     (if cell = 0 then Own_Allocated else if cell = 1 then Own_Backend else if cell = 2 then Own_Engine
      else if cell = 3 then Own_Bus else if cell = 4 then Own_Processing else if cell = 5 then Own_Host
      else Own_Released)"

definition tracker_transfer :: "owner \<Rightarrow> owner \<Rightarrow> bus_tracker \<Rightarrow> unit engine_result \<times> bus_tracker" where
  "tracker_transfer expected target cell =
     (case transition_ownership (as_core expected) (as_core target) of
        Inl e \<Rightarrow> (Inl e, cell)
      | Inr _ \<Rightarrow>
          if cell = owner_as_u8 expected then (Inr (), owner_as_u8 target)
          else (Inl (Error_Code EC_InvalidStateTransition), cell))"

definition allocated_to_backend where "allocated_to_backend = tracker_transfer Own_Allocated Own_Backend"
definition backend_to_engine where "backend_to_engine = tracker_transfer Own_Backend Own_Engine"
definition engine_to_bus where "engine_to_bus = tracker_transfer Own_Engine Own_Bus"
definition bus_to_processing where "bus_to_processing = tracker_transfer Own_Bus Own_Processing"
definition processing_to_engine where "processing_to_engine = tracker_transfer Own_Processing Own_Engine"
definition processing_to_host where "processing_to_host = tracker_transfer Own_Processing Own_Host"
definition engine_to_host where "engine_to_host = tracker_transfer Own_Engine Own_Host"
definition engine_release where "engine_release = tracker_transfer Own_Engine Own_Released"
definition host_release where "host_release = tracker_transfer Own_Host Own_Released"

definition bus_tracker_release :: "bus_tracker \<Rightarrow> unit engine_result \<times> bus_tracker" where
  "bus_tracker_release cell =
     (let current = tracker_owner cell in
      if current = Own_Released then (Inl (Error_Code EC_InvalidHandle), cell)
      else tracker_transfer current Own_Released cell)"

lemma as_core_inject [simp]: "as_core a = as_core b \<longleftrightarrow> a = b"
  by (cases a; cases b) simp_all

lemma owner_as_u8_inject [simp]: "owner_as_u8 a = owner_as_u8 b \<longleftrightarrow> a = b"
  by (cases a; cases b) simp_all

lemma from_core_as_core [simp]: "from_core (as_core a) = a"
  by (cases a) simp_all

lemma as_core_from_core [simp]: "as_core (from_core s) = s"
  by (cases s) simp_all

lemma tracker_owner_as_u8 [simp]: "tracker_owner (owner_as_u8 a) = a"
  by (cases a) (simp_all add: tracker_owner_def)

lemma can_transfer_to_core: "can_transfer_to a b = can_transition (as_core a) (as_core b)"
  by (auto simp: can_transfer_to_def can_transition_def split: sum.splits)

lemma transfer_snd:
  "snd (tracker_transfer expected target (owner_as_u8 cur)) =
     owner_as_u8 (if can_transfer_to expected target \<and> cur = expected then target else cur)"
  by (auto simp: tracker_transfer_def can_transfer_to_def split: sum.splits)

lemma transfer_ok_iff:
  "fst (tracker_transfer expected target (owner_as_u8 cur)) = Inr () \<longleftrightarrow>
     can_transfer_to expected target \<and> cur = expected"
  by (auto simp: tracker_transfer_def can_transfer_to_def split: sum.splits)

lemma can_transfer_to_simps [simp]:
  "can_transfer_to Own_Allocated Own_Backend" "can_transfer_to Own_Backend Own_Engine"
  "can_transfer_to Own_Engine Own_Bus" "can_transfer_to Own_Bus Own_Processing"
  "can_transfer_to Own_Processing Own_Engine" "can_transfer_to Own_Processing Own_Host"
  "\<not> can_transfer_to Own_Engine Own_Host" "\<not> can_transfer_to Own_Engine Own_Processing"
  "\<not> can_transfer_to Own_Released t" "t \<noteq> Own_Released \<Longrightarrow> can_transfer_to t Own_Released"
  by (cases t; simp add: can_transfer_to_core can_transition_iff)+

text \<open>The bus tracker refines the core lifecycle: its owner is the core state.\<close>

interpretation bus_owner: lifecycle can_transfer_to "\<lambda>w. w = Own_Released"
  by unfold_locales simp

subsection \<open>Owned packets\<close>

record owned_packet =
  op_tracker :: bus_tracker
  op_data :: "byte list"

definition owned_packet_new :: "byte list \<Rightarrow> owned_packet" where
  "owned_packet_new data = \<lparr> op_tracker = bus_tracker_new Own_Allocated, op_data = data \<rparr>"

definition owned_transfer ::
  "(bus_tracker \<Rightarrow> unit engine_result \<times> bus_tracker) \<Rightarrow> owned_packet \<Rightarrow> unit engine_result \<times> owned_packet" where
  "owned_transfer f op = (case f (op_tracker op) of (r, t) \<Rightarrow> (r, op\<lparr> op_tracker := t \<rparr>))"

definition owned_release_with ::
  "(bus_tracker \<Rightarrow> unit engine_result \<times> bus_tracker) \<Rightarrow> owned_packet \<Rightarrow> unit engine_result \<times> owned_packet" where
  "owned_release_with f op = (case f (op_tracker op) of
      (Inl e, t) \<Rightarrow> (Inl e, op\<lparr> op_tracker := t \<rparr>)
    | (Inr _, t) \<Rightarrow> (Inr (), op\<lparr> op_tracker := t, op_data := [] \<rparr>))"

definition owned_engine_release where "owned_engine_release = owned_release_with engine_release"
definition owned_host_release where "owned_host_release = owned_release_with host_release"
definition owned_release where "owned_release = owned_release_with bus_tracker_release"

definition owned_into_data :: "owned_packet \<Rightarrow> byte list engine_result" where
  "owned_into_data op =
     (if tracker_owner (op_tracker op) = Own_Released then Inl (Error_Code EC_InvalidHandle)
      else Inr (op_data op))"

subsection \<open>Threads sharing a tracker\<close>

text \<open>
  Each thread is idle or between the load and the compare-and-exchange of \<open>release\<close>. A step
  is one atomic access of one thread; the count is the number of accesses that moved the cell
  to \<open>Released\<close> successfully. Threads are numbered.
\<close>

record tracker_threads =
  tt_cell :: bus_tracker
  tt_pending :: "nat \<Rightarrow> owner option"
  tt_releases :: nat

inductive tt_step :: "tracker_threads \<Rightarrow> tracker_threads \<Rightarrow> bool" where
  transfer: "tt_pending s i = None \<Longrightarrow> tracker_transfer expected target (tt_cell s) = (r, c) \<Longrightarrow>
    tt_step s (s\<lparr> tt_cell := c,
      tt_releases := (if r = Inr () \<and> target = Own_Released then tt_releases s + 1 else tt_releases s) \<rparr>)"
| release_load: "tt_pending s i = None \<Longrightarrow> tracker_owner (tt_cell s) = cur \<Longrightarrow> cur \<noteq> Own_Released \<Longrightarrow>
    tt_step s (s\<lparr> tt_pending := (tt_pending s)(i := Some cur) \<rparr>)"
| release_exchange: "tt_pending s i = Some cur \<Longrightarrow> tracker_transfer cur Own_Released (tt_cell s) = (r, c) \<Longrightarrow>
    tt_step s (s\<lparr> tt_cell := c, tt_pending := (tt_pending s)(i := None),
      tt_releases := (if r = Inr () then tt_releases s + 1 else tt_releases s) \<rparr>)"

definition tt_init :: tracker_threads where
  "tt_init = \<lparr> tt_cell = bus_tracker_new Own_Allocated, tt_pending = (\<lambda>_. None), tt_releases = 0 \<rparr>"

definition released_once :: "bus_tracker \<Rightarrow> nat \<Rightarrow> bool" where
  "released_once cell n \<longleftrightarrow> (\<exists>w. cell = owner_as_u8 w \<and> n = of_bool (w = Own_Released))"

definition tt_inv :: "tracker_threads \<Rightarrow> bool" where
  "tt_inv s \<longleftrightarrow> released_once (tt_cell s) (tt_releases s)"

lemma transfer_released_once:
  assumes "tracker_transfer expected target cell = (r, c)" and "released_once cell n"
  shows "released_once c (if r = Inr () \<and> target = Own_Released then n + 1 else n)"
proof -
  obtain w where w: "cell = owner_as_u8 w" "n = of_bool (w = Own_Released)"
    using assms(2) by (auto simp: released_once_def)
  show ?thesis
  proof (cases "can_transfer_to expected target \<and> w = expected")
    case True
    then have "r = Inr ()" "c = owner_as_u8 target" "w \<noteq> Own_Released"
      using assms(1) w transfer_ok_iff [of expected target w] transfer_snd [of expected target w] by auto
    then show ?thesis using w by (auto simp: released_once_def)
  next
    case False
    then have "r \<noteq> Inr ()" "c = owner_as_u8 w"
      using assms(1) w transfer_ok_iff [of expected target w] transfer_snd [of expected target w] by auto
    then show ?thesis using w by (auto simp: released_once_def)
  qed
qed

lemma tt_inv_step [keeps]: "tt_step s t \<Longrightarrow> tt_inv s \<Longrightarrow> tt_inv t"
proof (induction rule: tt_step.induct)
  case (transfer s i expected target r c)
  then show ?case using transfer_released_once by (simp add: tt_inv_def)
next
  case (release_exchange s i cur r c)
  then show ?case using transfer_released_once [of cur Own_Released] by (simp add: tt_inv_def)
qed (simp add: tt_inv_def)

lemma tt_inv_reachable: "tt_step\<^sup>*\<^sup>* tt_init s \<Longrightarrow> tt_inv s"
proof (induction rule: rtranclp_induct)
  case base
  show ?case
    by (auto simp: tt_inv_def released_once_def tt_init_def bus_tracker_new_def intro: exI [of _ Own_Allocated])
qed (rule tt_inv_step)

text \<open>
  C8: However the threads sharing one tracker interleave their transfers and releases, at
  most one release ever succeeds, and one has succeeded exactly if the tracker is released:
  no packet is released twice, even by racing threads.
\<close>

theorem single_release:
  assumes "tt_step\<^sup>*\<^sup>* tt_init s"
  shows "tt_releases s \<le> 1 \<and> (tt_releases s = 1 \<longleftrightarrow> tracker_owner (tt_cell s) = Own_Released)"
  using tt_inv_reachable [OF assms] tracker_owner_as_u8 [of Own_Released]
  by (auto simp: tt_inv_def released_once_def of_bool_def split: if_splits)

theorem single_release_witness:
  "\<exists>s. tt_step\<^sup>*\<^sup>* tt_init s \<and> tt_releases s = 1 \<and> tt_pending s 1 = Some Own_Allocated \<and>
     tracker_owner (tt_cell s) = Own_Released"
proof -
  let ?s1 = "tt_init\<lparr> tt_pending := (tt_pending tt_init)(0 := Some Own_Allocated) \<rparr>"
  let ?s2 = "?s1\<lparr> tt_pending := (tt_pending ?s1)(1 := Some Own_Allocated) \<rparr>"
  let ?s3 = "?s2\<lparr> tt_cell := 6, tt_pending := (tt_pending ?s2)(0 := None), tt_releases := 1 \<rparr>"
  have "tt_step tt_init ?s1"
    by (rule release_load) (simp_all add: tt_init_def tracker_owner_def bus_tracker_new_def)
  moreover have "tt_step ?s1 ?s2"
    by (rule release_load) (simp_all add: tt_init_def tracker_owner_def bus_tracker_new_def)
  moreover have "tt_step ?s2 ?s3"
    using release_exchange [of ?s2 0 Own_Allocated "Inr ()" 6]
    by (simp add: tt_init_def tracker_transfer_def bus_tracker_new_def transition_ownership_def is_active_def)
  ultimately have "tt_step\<^sup>*\<^sup>* tt_init ?s3"
    by (meson converse_rtranclp_into_rtranclp rtranclp.rtrancl_refl)
  moreover from this have "tracker_owner (tt_cell ?s3) = Own_Released"
    using single_release [of ?s3] by simp
  ultimately show ?thesis by (intro exI [of _ ?s3]) simp
qed

end
