(* ===== verification/Bus.thy ===== *)
theory Bus
  imports Bus_Queue Bus_Buffer Bus_Ownership
begin

text \<open>
  \<open>crates/packet-bus/src/bus.rs\<close>: the packet bus, a queue of observations together with one
  ownership record per observation. Each operation is the whole method, its lock failures and
  error branches included; the locks of the two shared parts appear as their poison flags.
\<close>

record packet_bus =
  bus_queue :: observation_queue
  bus_ownership :: "(observation_id, bus_tracker) hash_map"
  bus_own_poisoned :: bool

definition bus_new :: "usize \<Rightarrow> packet_bus" where
  "bus_new capacity =
     \<lparr> bus_queue = queue_new capacity, bus_ownership = [], bus_own_poisoned = False \<rparr>"

definition bus_len :: "packet_bus \<Rightarrow> usize" where
  "bus_len b = queue_len (bus_queue b)"

primrec map_queue_error :: "queue_error \<Rightarrow> engine_error" where
  "map_queue_error Queue_Full = Error_Code EC_QueueFull"
| "map_queue_error Queue_Closed = Error_Code EC_ShutdownInProgress"

definition ownership_mutex_poisoned :: engine_error where
  "ownership_mutex_poisoned = Error_Message EC_InternalError ''packet ownership mutex poisoned''"

definition publish_engine_owned :: "packet_observation \<Rightarrow> packet_bus \<Rightarrow> unit engine_result \<times> packet_bus" where
  "publish_engine_owned obs b =
     (case allocated_to_backend (bus_tracker_new Own_Allocated) of
        (Inl e, _) \<Rightarrow> (Inl e, b)
      | (Inr _, t1) \<Rightarrow> (case backend_to_engine t1 of
        (Inl e, _) \<Rightarrow> (Inl e, b)
      | (Inr _, t2) \<Rightarrow> (case engine_to_bus t2 of
        (Inl e, _) \<Rightarrow> (Inl e, b)
      | (Inr _, tracker) \<Rightarrow>
          if bus_own_poisoned b then (Inl ownership_mutex_poisoned, b)
          else if hm_contains (observation_id obs) (bus_ownership b) then
            (Inl (Error_Message EC_InternalError ''duplicate observation ownership entry''), b)
          else case try_enqueue obs (bus_queue b) of
            (Inl e, q) \<Rightarrow> (Inl (map_queue_error e), b\<lparr> bus_queue := q \<rparr>)
          | (Inr _, q) \<Rightarrow>
              (Inr (), b\<lparr> bus_queue := q,
                          bus_ownership := hm_insert (observation_id obs) tracker (bus_ownership b) \<rparr>))))"

definition publish :: "packet_observation \<Rightarrow> packet_bus \<Rightarrow> unit engine_result \<times> packet_bus" where
  "publish obs b = publish_engine_owned obs b"

definition bus_transfer ::
  "observation_id \<Rightarrow> owner \<Rightarrow> owner \<Rightarrow> packet_bus \<Rightarrow> unit engine_result \<times> packet_bus" where
  "bus_transfer i expected target b =
     (if bus_own_poisoned b then (Inl ownership_mutex_poisoned, b)
      else case hm_get i (bus_ownership b) of
        None \<Rightarrow> (Inl (Error_Code EC_InvalidHandle), b)
      | Some tracker \<Rightarrow>
          (case tracker_transfer expected target tracker of
             (r, t) \<Rightarrow> (r, b\<lparr> bus_ownership := hm_insert i t (bus_ownership b) \<rparr>)))"

definition release_from :: "observation_id \<Rightarrow> owner \<Rightarrow> packet_bus \<Rightarrow> unit engine_result \<times> packet_bus" where
  "release_from i own b =
     (if bus_own_poisoned b then (Inl ownership_mutex_poisoned, b)
      else case hm_get i (bus_ownership b) of
        None \<Rightarrow> (Inl (Error_Code EC_InvalidHandle), b)
      | Some tracker \<Rightarrow>
          (case tracker_transfer own Own_Released tracker of
             (Inl e, t) \<Rightarrow> (Inl e, b\<lparr> bus_ownership := hm_insert i t (bus_ownership b) \<rparr>)
           | (Inr _, t) \<Rightarrow> (Inr (), b\<lparr> bus_ownership := hm_remove i (bus_ownership b) \<rparr>)))"

definition try_read :: "packet_bus \<Rightarrow> packet_observation option engine_result \<times> packet_bus" where
  "try_read b = (case try_dequeue (bus_queue b) of
      (Inr (Some obs), q) \<Rightarrow>
        (case bus_transfer (observation_id obs) Own_Bus Own_Processing (b\<lparr> bus_queue := q \<rparr>) of
           (Inl e, b') \<Rightarrow> (Inl e, b')
         | (Inr _, b') \<Rightarrow> (Inr (Some obs), b'))
    | (Inr None, q) \<Rightarrow> (Inr None, b\<lparr> bus_queue := q \<rparr>)
    | (Inl Queue_Closed, q) \<Rightarrow> (Inl (Error_Code EC_ShutdownInProgress), b\<lparr> bus_queue := q \<rparr>)
    | (Inl Queue_Full, q) \<Rightarrow> (Inl (Error_Code EC_QueueFull), b\<lparr> bus_queue := q \<rparr>))"

text \<open>\<open>read\<close> blocks while the queue is open and empty: one pass, \<open>None\<close> while it waits.\<close>

definition bus_read_poll :: "packet_bus \<Rightarrow> packet_observation engine_result option \<times> packet_bus" where
  "bus_read_poll b = (case dequeue_poll (bus_queue b) of
      (None, q) \<Rightarrow> (None, b\<lparr> bus_queue := q \<rparr>)
    | (Some (Inl e), q) \<Rightarrow> (Some (Inl (map_queue_error e)), b\<lparr> bus_queue := q \<rparr>)
    | (Some (Inr obs), q) \<Rightarrow>
        (case bus_transfer (observation_id obs) Own_Bus Own_Processing (b\<lparr> bus_queue := q \<rparr>) of
           (Inl e, b') \<Rightarrow> (Some (Inl e), b')
         | (Inr _, b') \<Rightarrow> (Some (Inr obs), b')))"

definition requeue_processing :: "packet_observation \<Rightarrow> packet_bus \<Rightarrow> unit engine_result \<times> packet_bus" where
  "requeue_processing obs b =
     (let i = observation_id obs in
      case bus_transfer i Own_Processing Own_Engine b of
        (Inl e, b1) \<Rightarrow> (Inl e, b1)
      | (Inr _, b1) \<Rightarrow>
          (case try_enqueue obs (bus_queue b1) of
             (Inl e, q) \<Rightarrow>
               (Inl (map_queue_error e),
                snd (bus_transfer i Own_Engine Own_Processing (b1\<lparr> bus_queue := q \<rparr>)))
           | (Inr _, q) \<Rightarrow> bus_transfer i Own_Engine Own_Bus (b1\<lparr> bus_queue := q \<rparr>)))"

definition try_read_into ::
  "packet_buffer \<Rightarrow> packet_bus \<Rightarrow> bool engine_result \<times> packet_buffer \<times> packet_bus" where
  "try_read_into buffer b =
     (if b_released buffer then (Inl (Error_Code EC_BufferExhausted), buffer, b)
      else case try_read b of
        (Inl e, b1) \<Rightarrow> (Inl e, buffer, b1)
      | (Inr None, b1) \<Rightarrow> (Inr False, buffer, b1)
      | (Inr (Some obs), b1) \<Rightarrow>
          let i = observation_id obs; bytes = raw_bytes (obs_packet obs) in
          if length bytes > b_capacity buffer then
            (case requeue_processing obs b1 of
               (Inl e, b2) \<Rightarrow> (Inl e, buffer, b2)
             | (Inr _, b2) \<Rightarrow> (Inl (Error_Code EC_BufferExhausted), buffer, b2))
          else (case buffer_write bytes buffer of
            (Inl _, buffer') \<Rightarrow>
              (Inl (Error_Code EC_BufferExhausted), buffer', snd (requeue_processing obs b1))
          | (Inr _, buffer') \<Rightarrow>
              (case bus_transfer i Own_Processing Own_Engine b1 of
                 (Inl e, b2) \<Rightarrow> (Inl e, buffer', b2)
               | (Inr _, b2) \<Rightarrow>
                   (case release_from i Own_Engine b2 of
                      (Inl e, b3) \<Rightarrow> (Inl e, buffer', b3)
                    | (Inr _, b3) \<Rightarrow> (Inr True, buffer', b3)))))"

definition transfer_to_host :: "observation_id \<Rightarrow> packet_bus \<Rightarrow> unit engine_result \<times> packet_bus" where
  "transfer_to_host i b = bus_transfer i Own_Processing Own_Host b"

definition release_host :: "observation_id \<Rightarrow> packet_bus \<Rightarrow> unit engine_result \<times> packet_bus" where
  "release_host i b = release_from i Own_Host b"

definition release_processing :: "observation_id \<Rightarrow> packet_bus \<Rightarrow> unit engine_result \<times> packet_bus" where
  "release_processing i b = release_from i Own_Processing b"

definition bus_close :: "packet_bus \<Rightarrow> packet_bus" where
  "bus_close b = b\<lparr> bus_queue := queue_close (bus_queue b) \<rparr>"

definition bus_clear :: "packet_bus \<Rightarrow> packet_bus" where
  "bus_clear b =
     (let b' = b\<lparr> bus_queue := queue_clear (bus_queue b) \<rparr> in
      if bus_own_poisoned b' then b' else b'\<lparr> bus_ownership := [] \<rparr>)"

subsection \<open>The bus invariant\<close>

text \<open>
  Every observation in the queue has its own identifier and exactly one ownership record, which
  says that the bus owns it; every other record belongs to an observation outside the queue
  that has been handed to processing, the host or the engine and not yet released.
\<close>

definition owner_of :: "packet_bus \<Rightarrow> observation_id \<Rightarrow> owner option" where
  "owner_of b i = map_option tracker_owner (hm_get i (bus_ownership b))"

abbreviation queued_ids :: "packet_bus \<Rightarrow> observation_id list" where
  "queued_ids b \<equiv> map observation_id (q_items (bus_queue b))"

definition bus_inv :: "packet_bus \<Rightarrow> bool" where
  "bus_inv b \<longleftrightarrow> queue_inv (bus_queue b) \<and> \<not> bus_own_poisoned b \<and> hm_wf (bus_ownership b) \<and>
     distinct (queued_ids b) \<and>
     (\<forall>i t. hm_get i (bus_ownership b) = Some t \<longrightarrow>
        t \<in> owner_as_u8 ` {Own_Bus, Own_Processing, Own_Engine, Own_Host}) \<and>
     (\<forall>i. hm_get i (bus_ownership b) = Some (owner_as_u8 Own_Bus) \<longleftrightarrow> i \<in> set (queued_ids b))"

lemma publish_tracker:
  "allocated_to_backend (bus_tracker_new Own_Allocated) = (Inr (), owner_as_u8 Own_Backend)"
  "backend_to_engine (owner_as_u8 Own_Backend) = (Inr (), owner_as_u8 Own_Engine)"
  "engine_to_bus (owner_as_u8 Own_Engine) = (Inr (), owner_as_u8 Own_Bus)"
  by (simp_all only: prod_eq_iff fst_conv snd_conv allocated_to_backend_def backend_to_engine_def
      engine_to_bus_def bus_tracker_new_def transfer_ok_iff transfer_snd can_transfer_to_simps if_True simp_thms)

lemma publish_eq:
  "publish obs b =
     (if bus_own_poisoned b then (Inl ownership_mutex_poisoned, b)
      else if hm_contains (observation_id obs) (bus_ownership b) then
        (Inl (Error_Message EC_InternalError ''duplicate observation ownership entry''), b)
      else case try_enqueue obs (bus_queue b) of
        (Inl e, q) \<Rightarrow> (Inl (map_queue_error e), b\<lparr> bus_queue := q \<rparr>)
      | (Inr _, q) \<Rightarrow>
          (Inr (), b\<lparr> bus_queue := q,
             bus_ownership := hm_insert (observation_id obs) (owner_as_u8 Own_Bus) (bus_ownership b) \<rparr>))"
  by (simp only: publish_def publish_engine_owned_def publish_tracker prod.case sum.case)

lemma tracker_transfer_legal:
  "can_transfer_to e t \<Longrightarrow> tracker_transfer e t c =
     (if c = owner_as_u8 e then (Inr (), owner_as_u8 t) else (Inl (Error_Code EC_InvalidStateTransition), c))"
  by (auto simp: tracker_transfer_def can_transfer_to_def split: sum.splits)

lemma hm_insert_same: "hm_get i m = Some t \<Longrightarrow> hm_insert i t m = m"
  by (induction m) (auto simp: hm_get_def hm_insert_def split: if_splits)

lemma bus_transfer_eq:
  assumes "\<not> bus_own_poisoned b" "can_transfer_to e t"
  shows "bus_transfer i e t b =
    (case hm_get i (bus_ownership b) of
       None \<Rightarrow> (Inl (Error_Code EC_InvalidHandle), b)
     | Some c \<Rightarrow>
         if c = owner_as_u8 e
         then (Inr (), b\<lparr> bus_ownership := hm_insert i (owner_as_u8 t) (bus_ownership b) \<rparr>)
         else (Inl (Error_Code EC_InvalidStateTransition), b))"
  using assms by (auto simp: bus_transfer_def tracker_transfer_legal hm_insert_same split: option.splits)

lemma release_from_eq:
  assumes "\<not> bus_own_poisoned b" "own \<noteq> Own_Released"
  shows "release_from i own b =
    (case hm_get i (bus_ownership b) of
       None \<Rightarrow> (Inl (Error_Code EC_InvalidHandle), b)
     | Some c \<Rightarrow>
         if c = owner_as_u8 own
         then (Inr (), b\<lparr> bus_ownership := hm_remove i (bus_ownership b) \<rparr>)
         else (Inl (Error_Code EC_InvalidStateTransition), b))"
  using assms by (auto simp: release_from_def tracker_transfer_legal hm_insert_same split: option.splits)

subsection \<open>Preservation\<close>

lemma owner_bytes_distinct [simp]:
  "owner_as_u8 a \<in> owner_as_u8 ` S \<longleftrightarrow> a \<in> S"
  by auto

lemma bus_inv_new [keeps]: "bus_inv (bus_new c)"
  by (simp add: bus_inv_def bus_new_def keeps) (simp add: queue_new_def)

text \<open>Putting an observation that is not queued into the queue and recording the bus as owner.\<close>

lemma try_enqueue_Inr:
  "try_enqueue obs q = (Inr u, q') \<Longrightarrow> q' = q\<lparr> q_items := q_items q @ [obs] \<rparr>"
  by (auto simp: try_enqueue_def split: if_splits)

lemma try_enqueue_Inl: "try_enqueue obs q = (Inl e, q') \<Longrightarrow> q' = q"
  by (auto simp: try_enqueue_def split: if_splits)

lemma bus_inv_enqueue:
  assumes inv: "bus_inv b" and te: "try_enqueue obs (bus_queue b) = (Inr u, q)"
    and fresh: "hm_get (observation_id obs) (bus_ownership b) \<noteq> Some (owner_as_u8 Own_Bus)"
  shows "bus_inv (b\<lparr> bus_queue := q,
    bus_ownership := hm_insert (observation_id obs) (owner_as_u8 Own_Bus) (bus_ownership b) \<rparr>)"
    (is "bus_inv ?b")
proof -
  have q: "q = bus_queue b\<lparr> q_items := q_items (bus_queue b) @ [obs] \<rparr>"
    using te by (rule try_enqueue_Inr)
  have ids: "queued_ids ?b = queued_ids b @ [observation_id obs]"
    by (simp add: q)
  have own: "\<forall>i. hm_get i (bus_ownership b) = Some (owner_as_u8 Own_Bus) \<longleftrightarrow> i \<in> set (queued_ids b)"
    using inv by (simp only: bus_inv_def simp_thms)
  have "queue_inv (bus_queue ?b)"
    using queue_inv_try_enqueue [of "bus_queue b" obs] inv te by (simp add: bus_inv_def)
  moreover have "\<not> bus_own_poisoned ?b" "hm_wf (bus_ownership ?b)"
    using inv by (simp_all add: bus_inv_def hm_wf_insert)
  moreover have "distinct (queued_ids ?b)"
    unfolding ids using inv fresh own by (simp add: bus_inv_def del: owner_as_u8.simps set_map)
  moreover have "\<forall>i t. hm_get i (bus_ownership ?b) = Some t \<longrightarrow>
      t \<in> owner_as_u8 ` {Own_Bus, Own_Processing, Own_Engine, Own_Host}"
    using inv by (simp add: bus_inv_def hm_get_insert del: owner_as_u8.simps)
  moreover have "\<forall>i. hm_get i (bus_ownership ?b) = Some (owner_as_u8 Own_Bus) \<longleftrightarrow> i \<in> set (queued_ids ?b)"
    unfolding ids using own by (simp add: hm_get_insert del: owner_as_u8.simps set_map)
  ultimately show ?thesis unfolding bus_inv_def by blast
qed

lemma bus_inv_publish [keeps]: "bus_inv b \<Longrightarrow> bus_inv (snd (publish obs b))"
  using bus_inv_enqueue [of b obs] try_enqueue_Inl [of obs "bus_queue b"]
  by (auto simp: publish_eq simp del: owner_as_u8.simps split: prod.splits sum.splits)

text \<open>Moving a record between owners outside the bus keeps the invariant.\<close>

lemma bus_inv_set_owner:
  assumes "bus_inv b" "hm_get i (bus_ownership b) = Some (owner_as_u8 e)" "e \<noteq> Own_Bus"
    "t \<in> {Own_Processing, Own_Engine, Own_Host}"
  shows "bus_inv (b\<lparr> bus_ownership := hm_insert i (owner_as_u8 t) (bus_ownership b) \<rparr>)"
proof -
  have "i \<notin> set (queued_ids b)"
    using assms(1,2,3) unfolding bus_inv_def by (metis option.inject owner_as_u8_inject)
  then show ?thesis
    using assms by (auto simp: bus_inv_def hm simp del: owner_as_u8.simps)
qed

lemma bus_inv_drop_owner:
  assumes "bus_inv b" "hm_get i (bus_ownership b) = Some (owner_as_u8 e)" "e \<noteq> Own_Bus"
  shows "bus_inv (b\<lparr> bus_ownership := hm_remove i (bus_ownership b) \<rparr>)"
proof -
  have "i \<notin> set (queued_ids b)"
    using assms unfolding bus_inv_def by (metis option.inject owner_as_u8_inject)
  then show ?thesis
    using assms by (auto simp: bus_inv_def hm simp del: owner_as_u8.simps)
qed

lemma bus_inv_transfer [keeps]:
  assumes "bus_inv b" "can_transfer_to e t" "e \<noteq> Own_Bus" "t \<in> {Own_Processing, Own_Engine, Own_Host}"
  shows "bus_inv (snd (bus_transfer i e t b))"
  using assms bus_inv_set_owner [OF assms(1) _ assms(3,4), of i]
  by (auto simp: bus_transfer_eq bus_inv_def split: option.splits simp del: owner_as_u8.simps)

lemma bus_inv_release_from [keeps]:
  assumes "bus_inv b" "own \<noteq> Own_Released" "own \<noteq> Own_Bus"
  shows "bus_inv (snd (release_from i own b))"
  using assms bus_inv_drop_owner [OF assms(1) _ assms(3), of i]
  by (auto simp: release_from_eq bus_inv_def split: option.splits simp del: owner_as_u8.simps)

lemma bus_inv_locks: "bus_inv b \<Longrightarrow> \<not> bus_own_poisoned b \<and> \<not> q_poisoned (bus_queue b)"
  by (simp add: bus_inv_def queue_inv_def)

lemma bus_inv_head:
  "bus_inv b \<Longrightarrow> q_items (bus_queue b) = obs # rest \<Longrightarrow>
   hm_get (observation_id obs) (bus_ownership b) = Some (owner_as_u8 Own_Bus)"
  unfolding bus_inv_def by (metis list.set_intros(1) list.simps(9))

text \<open>What \<open>try_read\<close> does under the invariant: ownership never stands in its way.\<close>

lemma try_read_eq:
  assumes "bus_inv b"
  shows "try_read b = (case q_items (bus_queue b) of
      [] \<Rightarrow> (Inr None, b)
    | obs # rest \<Rightarrow> (Inr (Some obs),
        b\<lparr> bus_queue := bus_queue b\<lparr> q_items := rest \<rparr>,
           bus_ownership := hm_insert (observation_id obs) (owner_as_u8 Own_Processing) (bus_ownership b) \<rparr>))"
proof (cases "q_items (bus_queue b)")
  case (Cons obs rest)
  then show ?thesis
    using bus_inv_locks [OF assms] bus_inv_head [OF assms Cons]
    by (simp add: try_read_def try_dequeue_def bus_transfer_eq del: owner_as_u8.simps)
qed (use bus_inv_locks [OF assms] in \<open>simp add: try_read_def try_dequeue_def\<close>)

lemma bus_inv_try_read [keeps]: "bus_inv b \<Longrightarrow> bus_inv (snd (try_read b))"
proof (cases "q_items (bus_queue b)")
  case (Cons obs rest)
  assume inv: "bus_inv b"
  then show ?thesis
    using Cons
    by (auto simp: try_read_eq [OF inv] bus_inv_def queue_inv_def hm simp del: owner_as_u8.simps)
qed (simp add: try_read_eq)

lemma bus_read_poll_try_read:
  assumes "bus_inv b" "q_items (bus_queue b) \<noteq> []"
  shows "bus_read_poll b = (case try_read b of (Inr (Some obs), b') \<Rightarrow> (Some (Inr obs), b') | (_, b') \<Rightarrow> (None, b'))"
proof (cases "q_items (bus_queue b)")
  case (Cons obs rest)
  then show ?thesis
    using bus_inv_locks [OF assms(1)] bus_inv_head [OF assms(1) Cons]
    by (simp add: try_read_eq [OF assms(1)] bus_read_poll_def dequeue_poll_def bus_transfer_eq
        del: owner_as_u8.simps)
qed (use assms in simp)

text \<open>What \<open>requeue_processing\<close> does under the invariant, on each branch.\<close>

lemma bus_transfer_illegal:
  "\<not> can_transfer_to e t \<Longrightarrow> snd (bus_transfer i e t b) = b"
  by (auto simp: bus_transfer_def tracker_transfer_def can_transfer_to_def hm_insert_same
      split: sum.splits option.splits)

lemma hm_insert_twice: "hm_insert i x (hm_insert i y m) = hm_insert i x m"
  by (induction m) (auto simp: hm_insert_def)

lemma requeue_processing_eq:
  assumes "bus_inv b" and "i = observation_id obs"
  shows "requeue_processing obs b =
    (case hm_get i (bus_ownership b) of
       None \<Rightarrow> (Inl (Error_Code EC_InvalidHandle), b)
     | Some c \<Rightarrow>
         if c \<noteq> owner_as_u8 Own_Processing then (Inl (Error_Code EC_InvalidStateTransition), b)
         else case try_enqueue obs (bus_queue b) of
           (Inl e, q) \<Rightarrow> (Inl (map_queue_error e),
             b\<lparr> bus_ownership := hm_insert i (owner_as_u8 Own_Engine) (bus_ownership b) \<rparr>)
         | (Inr _, q) \<Rightarrow> (Inr (),
             b\<lparr> bus_queue := q,
                bus_ownership := hm_insert i (owner_as_u8 Own_Bus) (bus_ownership b) \<rparr>))"
proof (cases "hm_get i (bus_ownership b)")
  case None
  then show ?thesis
    using bus_inv_locks [OF assms(1)]
    by (simp add: requeue_processing_def bus_transfer_eq assms(2) [symmetric])
next
  case (Some c)
  let ?b = "b\<lparr> bus_ownership := hm_insert i (owner_as_u8 Own_Engine) (bus_ownership b) \<rparr>"
  have first: "bus_transfer i Own_Processing Own_Engine b =
      (if c = owner_as_u8 Own_Processing then (Inr (), ?b) else (Inl (Error_Code EC_InvalidStateTransition), b))"
    using bus_inv_locks [OF assms(1)] Some by (simp add: bus_transfer_eq del: owner_as_u8.simps)
  have third: "bus_transfer i Own_Engine Own_Bus (?b\<lparr> bus_queue := q \<rparr>) =
      (Inr (), b\<lparr> bus_queue := q, bus_ownership := hm_insert i (owner_as_u8 Own_Bus) (bus_ownership b) \<rparr>)" for q
    using bus_inv_locks [OF assms(1)]
    by (simp add: bus_transfer_eq hm_get_insert hm_insert_twice del: owner_as_u8.simps)
  show ?thesis
    using Some try_enqueue_Inl [of obs "bus_queue b"]
    by (auto simp: requeue_processing_def assms(2) [symmetric] first third bus_transfer_illegal
        simp del: owner_as_u8.simps split: sum.splits prod.splits)
qed

lemma bus_inv_requeue [keeps]: "bus_inv b \<Longrightarrow> bus_inv (snd (requeue_processing obs b))"
proof -
  assume inv: "bus_inv b"
  show ?thesis
  proof (cases "hm_get (observation_id obs) (bus_ownership b) = Some (owner_as_u8 Own_Processing)")
    case True
    then show ?thesis
      using bus_inv_enqueue [OF inv, of obs] bus_inv_set_owner [OF inv True, of Own_Engine]
      by (auto simp: requeue_processing_eq [OF inv refl] simp del: owner_as_u8.simps split: prod.splits sum.splits)
  qed (use inv in \<open>auto simp: requeue_processing_eq [OF inv refl] split: option.splits\<close>)
qed

lemma bus_inv_close [keeps]: "bus_inv b \<Longrightarrow> bus_inv (bus_close b)"
proof -
  assume inv: "bus_inv b"
  then have "queue_inv (queue_close (bus_queue b))"
    by (simp add: bus_inv_def keeps)
  moreover have "q_items (queue_close (bus_queue b)) = q_items (bus_queue b)"
    by (simp add: queue_close_def)
  ultimately show ?thesis
    using inv by (simp add: bus_inv_def bus_close_def del: owner_as_u8.simps)
qed

lemma bus_inv_clear [keeps]: "bus_inv b \<Longrightarrow> bus_inv (bus_clear b)"
  by (auto simp: bus_inv_def bus_clear_def queue_inv_def queue_clear_def Let_def)

text \<open>
  \<open>try_read_into\<close> on a non-empty consistent bus: a buffer that is too small puts the
  observation back at the end of the queue, otherwise the bytes are copied and the record dropped.
\<close>

lemma try_read_into_eq:
  assumes inv: "bus_inv b" and items: "q_items (bus_queue b) = obs # rest"
    and "i = observation_id obs" "bytes = raw_bytes (obs_packet obs)"
  shows "try_read_into buffer b =
    (if b_released buffer then (Inl (Error_Code EC_BufferExhausted), buffer, b)
     else if length bytes > b_capacity buffer then
       (case fst (requeue_processing obs (snd (try_read b))) of
          Inl e \<Rightarrow> Inl e | Inr _ \<Rightarrow> Inl (Error_Code EC_BufferExhausted),
        buffer, snd (requeue_processing obs (snd (try_read b))))
     else (Inr True, buffer\<lparr> b_data := bytes, b_length := length bytes \<rparr>,
       (snd (try_read b))\<lparr> bus_ownership :=
          hm_remove i (hm_insert i (owner_as_u8 Own_Engine) (bus_ownership b)) \<rparr>))"
proof -
  define b1 where "b1 = snd (try_read b)"
  define b2 where "b2 = b1\<lparr> bus_ownership := hm_insert i (owner_as_u8 Own_Engine) (bus_ownership b) \<rparr>"
  have rd: "try_read b = (Inr (Some obs), b1)"
    and own1: "bus_ownership b1 = hm_insert i (owner_as_u8 Own_Processing) (bus_ownership b)"
    and np: "\<not> bus_own_poisoned b1" "\<not> bus_own_poisoned b2"
    using items assms(3) bus_inv_locks [OF inv]
    by (simp_all add: b2_def b1_def try_read_eq [OF inv] del: owner_as_u8.simps)
  have tr: "bus_transfer i Own_Processing Own_Engine b1 = (Inr (), b2)"
    using np by (simp add: b2_def own1 bus_transfer_eq hm_get_insert hm_insert_twice del: owner_as_u8.simps)
  have rel: "release_from i Own_Engine b2 = (Inr (), b1\<lparr> bus_ownership :=
      hm_remove i (hm_insert i (owner_as_u8 Own_Engine) (bus_ownership b)) \<rparr>)"
    using np by (simp add: b2_def release_from_eq hm_get_insert del: owner_as_u8.simps)
  obtain r b' where rq: "requeue_processing obs b1 = (r, b')" by (cases "requeue_processing obs b1")
  show ?thesis
    unfolding b1_def [symmetric]
    by (cases r) (simp_all add: try_read_into_def rd assms(3) [symmetric] assms(4) [symmetric] tr rel rq
        buffer_write_def Let_def del: owner_as_u8.simps)
qed

lemma bus_inv_try_read_into [keeps]:
  assumes inv: "bus_inv b"
  shows "bus_inv (snd (snd (try_read_into buffer b)))"
proof (cases "q_items (bus_queue b)")
  case Nil
  then show ?thesis using inv by (simp add: try_read_into_def try_read_eq)
next
  case (Cons obs rest)
  let ?i = "observation_id obs"
  define b1 where "b1 = snd (try_read b)"
  have inv1: "bus_inv b1" unfolding b1_def using inv by (rule bus_inv_try_read)
  have own1: "bus_ownership b1 = hm_insert ?i (owner_as_u8 Own_Processing) (bus_ownership b)"
    using Cons by (simp add: b1_def try_read_eq [OF inv] del: owner_as_u8.simps)
  have inv2: "bus_inv (b1\<lparr> bus_ownership := hm_insert ?i (owner_as_u8 Own_Engine) (bus_ownership b) \<rparr>)"
    using bus_inv_set_owner [OF inv1, of ?i Own_Processing Own_Engine]
    by (simp add: own1 hm_get_insert hm_insert_twice del: owner_as_u8.simps)
  have "bus_inv (b1\<lparr> bus_ownership := hm_remove ?i (hm_insert ?i (owner_as_u8 Own_Engine) (bus_ownership b)) \<rparr>)"
    using bus_inv_drop_owner [OF inv2, of ?i Own_Engine] by (simp add: hm_get_insert del: owner_as_u8.simps)
  then show ?thesis
    using inv bus_inv_requeue [OF inv1]
    by (simp add: try_read_into_eq [OF inv Cons refl refl] b1_def [symmetric] del: owner_as_u8.simps)
qed

subsection \<open>Client programs\<close>

datatype bus_op =
    Bus_Publish packet_observation | Bus_Try_Read | Bus_Try_Read_Into packet_buffer
  | Bus_Requeue packet_observation | Bus_To_Host observation_id | Bus_Release_Host observation_id
  | Bus_Release_Processing observation_id | Bus_Close | Bus_Clear

primrec bus_exec :: "bus_op \<Rightarrow> packet_bus \<Rightarrow> packet_bus" where
  "bus_exec (Bus_Publish obs) b = snd (publish obs b)"
| "bus_exec Bus_Try_Read b = snd (try_read b)"
| "bus_exec (Bus_Try_Read_Into buffer) b = snd (snd (try_read_into buffer b))"
| "bus_exec (Bus_Requeue obs) b = snd (requeue_processing obs b)"
| "bus_exec (Bus_To_Host i) b = snd (transfer_to_host i b)"
| "bus_exec (Bus_Release_Host i) b = snd (release_host i b)"
| "bus_exec (Bus_Release_Processing i) b = snd (release_processing i b)"
| "bus_exec Bus_Close b = bus_close b"
| "bus_exec Bus_Clear b = bus_clear b"

lemma bus_inv_exec [keeps]: "bus_inv b \<Longrightarrow> bus_inv (bus_exec op b)"
  by (cases op) (simp_all add: keeps transfer_to_host_def release_host_def release_processing_def)

lemma bus_inv_run: "bus_inv b \<Longrightarrow> bus_inv (fold bus_exec ops b)"
  by (induction ops arbitrary: b) (simp_all add: keeps del: bus_exec.simps)

lemma capacity_kept [simp]:
  "q_capacity (snd (try_enqueue obs q)) = q_capacity q"
  "q_capacity (snd (try_dequeue q)) = q_capacity q"
  "q_capacity (queue_close q) = q_capacity q" "q_capacity (queue_clear q) = q_capacity q"
  "bus_queue (snd (bus_transfer i e t b)) = bus_queue b" "bus_queue (snd (release_from i e b)) = bus_queue b"
  by (auto simp: try_enqueue_def try_dequeue_def queue_close_def queue_clear_def bus_transfer_def
      release_from_def split: list.splits option.splits prod.splits sum.splits)

lemma try_read_capacity: "bus_inv b \<Longrightarrow> q_capacity (bus_queue (snd (try_read b))) = q_capacity (bus_queue b)"
  by (simp add: try_read_eq split: list.splits)

lemma requeue_capacity:
  "bus_inv b \<Longrightarrow> q_capacity (bus_queue (snd (requeue_processing obs b))) = q_capacity (bus_queue b)"
  by (auto simp: requeue_processing_eq [OF _ refl] dest: try_enqueue_Inr
      split: option.splits prod.splits sum.splits)

lemma publish_capacity: "q_capacity (bus_queue (snd (publish obs b))) = q_capacity (bus_queue b)"
  by (auto simp: publish_eq dest: try_enqueue_Inr try_enqueue_Inl split: prod.splits sum.splits)

lemma try_read_into_capacity:
  assumes inv: "bus_inv b"
  shows "q_capacity (bus_queue (snd (snd (try_read_into buffer b)))) = q_capacity (bus_queue b)"
proof (cases "q_items (bus_queue b)")
  case Nil
  then show ?thesis using inv by (simp add: try_read_into_def try_read_eq)
next
  case (Cons obs rest)
  then show ?thesis
    using inv by (simp add: try_read_into_eq [OF inv Cons refl refl] requeue_capacity keeps try_read_capacity)
qed

lemma bus_capacity_exec: "bus_inv b \<Longrightarrow> q_capacity (bus_queue (bus_exec op b)) = q_capacity (bus_queue b)"
  by (cases op) (simp_all add: publish_capacity try_read_capacity requeue_capacity try_read_into_capacity
      transfer_to_host_def release_host_def release_processing_def bus_close_def bus_clear_def Let_def)

lemma bus_capacity_run: "bus_inv b \<Longrightarrow> q_capacity (bus_queue (fold bus_exec ops b)) = q_capacity (bus_queue b)"
  by (induction ops arbitrary: b) (simp_all add: keeps bus_capacity_exec del: bus_exec.simps)

lemma bus_inv_record:
  assumes "bus_inv b" "hm_get i (bus_ownership b) = Some t"
  obtains w where "t = owner_as_u8 w" "w \<in> {Own_Bus, Own_Processing, Own_Engine, Own_Host}"
  using assms unfolding bus_inv_def by blast

lemma owner_of_iff:
  assumes "bus_inv b"
  shows "owner_of b i = Some w \<longleftrightarrow> hm_get i (bus_ownership b) = Some (owner_as_u8 w)"
proof (cases "hm_get i (bus_ownership b)")
  case (Some t)
  then show ?thesis
    using bus_inv_record [OF assms Some] by (metis option.inject option.map(2) owner_of_def tracker_owner_as_u8)
qed (simp add: owner_of_def)

lemma owner_of_not_released: "bus_inv b \<Longrightarrow> owner_of b i \<noteq> Some Own_Released"
  by (auto simp: owner_of_iff simp del: owner_as_u8.simps elim!: bus_inv_record)

subsection \<open>Properties\<close>

text \<open>
  C1: Whatever sequence of operations runs on a new packet bus, with whatever arguments: it
  never holds more observations than its capacity, no identifier is queued twice, an
  observation is queued exactly if the ownership table says the bus owns it, and the table
  never keeps a record of a released observation.
\<close>

theorem bus_invariant:
  "let b = fold bus_exec ops (bus_new cap) in
     length (q_items (bus_queue b)) \<le> cap \<and> distinct (queued_ids b) \<and>
     (\<forall>i. owner_of b i = Some Own_Bus \<longleftrightarrow> i \<in> set (queued_ids b)) \<and>
     (\<forall>i. owner_of b i \<noteq> Some Own_Released)"
proof -
  let ?b = "fold bus_exec ops (bus_new cap)"
  have inv: "bus_inv ?b" by (intro bus_inv_run keeps)
  moreover have "q_capacity (bus_queue ?b) = cap"
    by (simp add: bus_capacity_run keeps) (simp add: bus_new_def queue_new_def)
  moreover have "owner_of ?b i \<noteq> Some Own_Released" for i
    using inv by (rule owner_of_not_released)
  ultimately show ?thesis
    by (simp add: Let_def owner_of_iff del: owner_as_u8.simps) (simp add: bus_inv_def queue_inv_def del: owner_as_u8.simps)
qed

text \<open>
  C11: \<open>publish\<close> either accepts the observation, appending it to the queue under bus ownership,
  or refuses it and changes nothing: with an internal error if its identifier already has a
  record, with \<open>ShutdownInProgress\<close> on a closed bus, with \<open>QueueFull\<close> on a full one.
\<close>

theorem publish_outcome:
  assumes "bus_inv b"
  shows "fst (publish obs b) =
      (if owner_of b (observation_id obs) \<noteq> None then
         Inl (Error_Message EC_InternalError ''duplicate observation ownership entry'')
       else if q_closed (bus_queue b) then Inl (Error_Code EC_ShutdownInProgress)
       else if length (q_items (bus_queue b)) = q_capacity (bus_queue b) then Inl (Error_Code EC_QueueFull)
       else Inr ()) \<and>
    (case publish obs b of
       (Inl _, b') \<Rightarrow> b' = b
     | (Inr _, b') \<Rightarrow> q_items (bus_queue b') = q_items (bus_queue b) @ [obs] \<and>
         owner_of b' (observation_id obs) = Some Own_Bus)"
proof (cases "hm_get (observation_id obs) (bus_ownership b)")
  case None
  have "length (q_items (bus_queue b)) \<le> q_capacity (bus_queue b)"
    using assms by (simp add: bus_inv_def queue_inv_def)
  then show ?thesis
    using None bus_inv_locks [OF assms]
    by (auto simp: publish_eq try_enqueue_def owner_of_def hm_get_insert simp del: owner_as_u8.simps)
qed (use bus_inv_locks [OF assms] in \<open>simp add: publish_eq owner_of_def\<close>)

theorem publish_outcome_witness:
  "fst (publish (demo_observation 7) (bus_new 1)) = Inr () \<and>
   fst (publish (demo_observation 7) (bus_new 0)) = Inl (Error_Code EC_QueueFull)"
  using publish_outcome [OF bus_inv_new, of "demo_observation 7" 1]
    publish_outcome [OF bus_inv_new, of "demo_observation 7" 0]
  by (simp add: owner_of_def bus_new_def queue_new_def)

text \<open>
  Delivery. From any consistent bus with a queued observation, \<open>try_read\<close> returns the
  oldest one and hands it to processing, \<open>transfer_to_host\<close> and \<open>release_host\<close> then succeed,
  the ownership record is gone, and releasing it again fails with \<open>InvalidHandle\<close>.
\<close>

lemma delivery_to_host:
  assumes "bus_inv b" and "q_items (bus_queue b) = obs # rest" and "i = observation_id obs"
  shows "\<exists>b1 b2 b3. try_read b = (Inr (Some obs), b1) \<and> owner_of b1 i = Some Own_Processing \<and>
    transfer_to_host i b1 = (Inr (), b2) \<and> owner_of b2 i = Some Own_Host \<and>
    release_host i b2 = (Inr (), b3) \<and> owner_of b3 i = None \<and> q_items (bus_queue b3) = rest \<and>
    release_host i b3 = (Inl (Error_Code EC_InvalidHandle), b3)"
proof -
  define b1 where "b1 = snd (try_read b)"
  define b2 where "b2 = b1\<lparr> bus_ownership := hm_insert i (owner_as_u8 Own_Host) (bus_ownership b1) \<rparr>"
  define b3 where "b3 = b2\<lparr> bus_ownership := hm_remove i (bus_ownership b2) \<rparr>"
  have rd: "try_read b = (Inr (Some obs), b1)"
    and own1: "bus_ownership b1 = hm_insert i (owner_as_u8 Own_Processing) (bus_ownership b)"
    and rest: "q_items (bus_queue b1) = rest" and np: "\<not> bus_own_poisoned b1"
    using assms(2,3) bus_inv_locks [OF assms(1)]
    by (simp_all add: b1_def try_read_eq [OF assms(1)] del: owner_as_u8.simps)
  have to_host: "transfer_to_host i b1 = (Inr (), b2)"
    using np by (simp add: b2_def transfer_to_host_def bus_transfer_eq own1 hm_get_insert del: owner_as_u8.simps)
  have own2: "hm_get i (bus_ownership b2) = Some (owner_as_u8 Own_Host)" "\<not> bus_own_poisoned b2"
    using np by (simp_all add: b2_def hm_get_insert del: owner_as_u8.simps)
  have release: "release_host i b2 = (Inr (), b3)"
    using own2 by (simp add: b3_def release_host_def release_from_eq del: owner_as_u8.simps)
  have own3: "hm_get i (bus_ownership b3) = None" "\<not> bus_own_poisoned b3"
    using own2 by (simp_all add: b3_def hm_get_remove)
  have again: "release_host i b3 = (Inl (Error_Code EC_InvalidHandle), b3)"
    using own3 by (simp add: release_host_def release_from_eq)
  show ?thesis
    using rd to_host release again rest own2 own3
    by (intro exI [of _ b1] exI [of _ b2] exI [of _ b3])
      (simp add: owner_of_def own1 hm_get_insert b3_def b2_def del: owner_as_u8.simps)
qed

theorem delivery_to_host_witness:
  "\<exists>b b1 b2 b3. b = snd (publish (demo_observation 7) (bus_new 1)) \<and>
     try_read b = (Inr (Some (demo_observation 7)), b1) \<and>
     transfer_to_host 7 b1 = (Inr (), b2) \<and> release_host 7 b2 = (Inr (), b3) \<and>
     q_items (bus_queue b3) = []"
proof -
  let ?b = "snd (publish (demo_observation 7) (bus_new 1))"
  have "bus_inv ?b" by (intro bus_inv_publish bus_inv_new)
  moreover have "q_items (bus_queue ?b) = [demo_observation 7]"
    by (simp add: publish_eq bus_new_def queue_new_def try_enqueue_def)
  ultimately show ?thesis
    using delivery_to_host [of ?b "demo_observation 7" "[]" 7] by auto
qed

subsection \<open>Failed and racing requeues\<close>

text \<open>
  A record in the engine's ownership is touched by no operation of the bus other than \<open>clear\<close>:
  every method that would move it on expects another owner.
\<close>

definition engine_held :: "observation_id \<Rightarrow> packet_bus \<Rightarrow> bool" where
  "engine_held i b \<longleftrightarrow> hm_get i (bus_ownership b) = Some (owner_as_u8 Own_Engine)"

lemma engine_held_publish: "engine_held i b \<Longrightarrow> engine_held i (snd (publish obs b))"
  by (auto simp: engine_held_def publish_eq hm_get_insert simp del: owner_as_u8.simps split: prod.splits sum.splits)

lemma engine_held_try_read: "bus_inv b \<Longrightarrow> engine_held i b \<Longrightarrow> engine_held i (snd (try_read b))"
  using bus_inv_head [of b]
  by (auto simp: engine_held_def try_read_eq hm_get_insert simp del: owner_as_u8.simps split: list.splits)

lemma engine_held_requeue: "bus_inv b \<Longrightarrow> engine_held i b \<Longrightarrow> engine_held i (snd (requeue_processing obs b))"
  by (auto simp: engine_held_def requeue_processing_eq [OF _ refl] hm_get_insert simp del: owner_as_u8.simps
      split: option.splits prod.splits sum.splits)

lemma engine_held_transfer:
  "bus_inv b \<Longrightarrow> engine_held i b \<Longrightarrow> can_transfer_to e t \<Longrightarrow> e \<noteq> Own_Engine \<Longrightarrow>
   engine_held i (snd (bus_transfer j e t b))"
  using bus_inv_locks [of b]
  by (auto simp: engine_held_def bus_transfer_eq hm_get_insert simp del: owner_as_u8.simps split: option.splits)

lemma engine_held_release:
  "bus_inv b \<Longrightarrow> engine_held i b \<Longrightarrow> e \<noteq> Own_Released \<Longrightarrow> e \<noteq> Own_Engine \<Longrightarrow>
   engine_held i (snd (release_from j e b))"
  using bus_inv_locks [of b]
  by (auto simp: engine_held_def release_from_eq hm_get_remove simp del: owner_as_u8.simps split: option.splits)

lemma engine_held_try_read_into:
  assumes inv: "bus_inv b" and held: "engine_held i b"
  shows "engine_held i (snd (snd (try_read_into buffer b)))"
proof (cases "q_items (bus_queue b)")
  case Nil
  then show ?thesis using assms by (simp add: try_read_into_def try_read_eq)
next
  case (Cons obs rest)
  then have "i \<noteq> observation_id obs"
    using held bus_inv_head [OF inv Cons] by (auto simp: engine_held_def)
  then show ?thesis
    using held engine_held_requeue [OF bus_inv_try_read [OF inv] engine_held_try_read [OF inv held]]
    by (simp add: try_read_into_eq [OF inv Cons refl refl] del: owner_as_u8.simps)
      (simp add: engine_held_def hm_get_remove hm_get_insert)
qed

lemma engine_held_exec:
  "bus_inv b \<Longrightarrow> engine_held i b \<Longrightarrow> op \<noteq> Bus_Clear \<Longrightarrow> engine_held i (bus_exec op b)"
  by (cases op)
    (simp_all add: engine_held_publish engine_held_try_read engine_held_try_read_into engine_held_requeue
      engine_held_transfer engine_held_release transfer_to_host_def release_host_def release_processing_def,
     simp add: engine_held_def bus_close_def)

lemma engine_held_run:
  "bus_inv b \<Longrightarrow> engine_held i b \<Longrightarrow> Bus_Clear \<notin> set ops \<Longrightarrow> engine_held i (fold bus_exec ops b)"
  by (induction ops arbitrary: b) (auto simp: keeps engine_held_exec simp del: bus_exec.simps)



text \<open>
  Two threads: one requeues the only observation in flight, the other reads between the
  requeue's enqueue and its final transfer to the bus (the two are separate critical sections).
  The reader takes the observation out of the queue, fails on its ownership and drops it; the
  requeue then completes successfully, leaving a bus-owned record of an observation that is in
  no queue.
\<close>

lemma requeue_read_race:
  assumes "bus_inv b" and "i = observation_id obs" and "owner_of b i = Some Own_Processing"
    and "q_items (bus_queue b) = []" and "\<not> q_closed (bus_queue b)" and "0 < q_capacity (bus_queue b)"
    and s1: "b1 = snd (bus_transfer i Own_Processing Own_Engine b)"
    and s2: "b2 = b1\<lparr> bus_queue := snd (try_enqueue obs (bus_queue b1)) \<rparr>"
    and reader: "b3 = snd (try_read b2)"
    and s3: "b4 = snd (bus_transfer i Own_Engine Own_Bus b3)"
  shows "fst (try_read b2) = Inl (Error_Code EC_InvalidStateTransition) \<and>
    fst (bus_transfer i Own_Engine Own_Bus b3) = Inr () \<and>
    q_items (bus_queue b4) = [] \<and> owner_of b4 i = Some Own_Bus"
proof -
  have np: "\<not> bus_own_poisoned b" "\<not> q_poisoned (bus_queue b)" using bus_inv_locks [OF assms(1)] by auto
  have own: "hm_get i (bus_ownership b) = Some (owner_as_u8 Own_Processing)"
    using assms(1,3) by (simp add: owner_of_iff del: owner_as_u8.simps)
  have b1: "b1 = b\<lparr> bus_ownership := hm_insert i (owner_as_u8 Own_Engine) (bus_ownership b) \<rparr>"
    using np own by (simp add: s1 bus_transfer_eq del: owner_as_u8.simps)
  have q2: "bus_queue b2 = bus_queue b\<lparr> q_items := [obs] \<rparr>"
    and own2: "bus_ownership b2 = hm_insert i (owner_as_u8 Own_Engine) (bus_ownership b)"
    and np2: "\<not> bus_own_poisoned b2"
    using np assms(4,5,6) by (simp_all add: s2 b1 try_enqueue_def)
  have tr: "bus_transfer i Own_Bus Own_Processing (b2\<lparr> bus_queue := q \<rparr>) =
      (Inl (Error_Code EC_InvalidStateTransition), b2\<lparr> bus_queue := q \<rparr>)" for q
    using np2 by (simp add: bus_transfer_eq own2 hm_get_insert del: owner_as_u8.simps)
  have rd: "try_read b2 = (Inl (Error_Code EC_InvalidStateTransition), b2\<lparr> bus_queue := bus_queue b\<lparr> q_items := [] \<rparr> \<rparr>)"
    using np by (simp add: try_read_def try_dequeue_def q2 assms(2) [symmetric] tr)
  show ?thesis
    using np2 by (simp add: s3 reader rd bus_transfer_eq own2 hm_get_insert owner_of_def del: owner_as_u8.simps)
qed

theorem requeue_read_race_witness:
  "\<exists>b b4. b = snd (try_read (snd (publish (demo_observation 7) (bus_new 4)))) \<and>
     b4 = snd (bus_transfer 7 Own_Engine Own_Bus (snd (try_read
       ((snd (bus_transfer 7 Own_Processing Own_Engine b))\<lparr> bus_queue :=
          snd (try_enqueue (demo_observation 7) (bus_queue (snd (bus_transfer 7 Own_Processing Own_Engine b)))) \<rparr>)))) \<and>
     q_items (bus_queue b4) = [] \<and> owner_of b4 7 = Some Own_Bus"
proof -
  define b where "b = snd (try_read (snd (publish (demo_observation 7) (bus_new 4))))"
  have inv: "bus_inv b" unfolding b_def by (intro keeps)
  have facts: "owner_of b 7 = Some Own_Processing" "\<not> q_closed (bus_queue b)" "q_items (bus_queue b) = []"
    "0 < q_capacity (bus_queue b)"
    by (simp_all add: b_def publish_eq bus_new_def queue_new_def try_enqueue_def try_read_def try_dequeue_def
        bus_transfer_eq hm owner_of_def)
      (simp add: tracker_owner_def)
  have i: "7 = observation_id (demo_observation 7)" by simp
  note race = requeue_read_race [OF inv i facts(1,3,2,4) refl refl refl refl]
  show ?thesis
    by (intro exI [of _ b] exI conjI, rule b_def, rule refl) (use race in blast)+
qed

end
