(* ===== verification/Core_Engine.thy ===== *)
theory Core_Engine
  imports Core_Text
begin

text \<open>
  The engine's own state: \<open>crates/network-core/src/engine_state.rs\<close> (lifecycle, flags and the
  installed gateway policy), \<open>policy.rs\<close> (the policy records and their validation) and
  \<open>config.rs\<close> (configuration validation and normalization; the TOML reader and writer are
  third-party code). The poison flags of the two mutexes are fields of the state.
\<close>

subsection \<open>Policies (\<open>policy.rs\<close>)\<close>

abbreviation configuration_invalid :: engine_error where
  "configuration_invalid \<equiv> Error_Code EC_ConfigurationInvalid"

datatype policy_decision = Policy_Allow | Policy_Deny

datatype nat_policy_mode = Nat_Disabled | Nat_Source | Nat_Destination | Nat_Masquerade

record nat_policy =
  np_enabled :: bool
  np_mode :: nat_policy_mode
  np_external_interface_id :: "u32 option"

definition nat_policy_default :: nat_policy where
  "nat_policy_default = \<lparr> np_enabled = False, np_mode = Nat_Disabled, np_external_interface_id = None \<rparr>"

definition nat_policy_validate :: "nat_policy \<Rightarrow> unit engine_result" where
  "nat_policy_validate p =
     (if \<not> np_enabled p then
        if np_mode p \<noteq> Nat_Disabled then Inl configuration_invalid else Inr ()
      else if np_mode p = Nat_Disabled then Inl configuration_invalid
      else case np_mode p of
        Nat_Disabled \<Rightarrow> Inr ()
      | _ \<Rightarrow> if np_external_interface_id p = None then Inl configuration_invalid else Inr ())"

record forwarding_policy =
  fp_enabled :: bool
  fp_ingress_interface_id :: "u32 option"
  fp_egress_interface_id :: "u32 option"
  fp_decision :: policy_decision

definition forwarding_policy_default :: forwarding_policy where
  "forwarding_policy_default = \<lparr> fp_enabled = False, fp_ingress_interface_id = None,
     fp_egress_interface_id = None, fp_decision = Policy_Allow \<rparr>"

definition forwarding_policy_validate :: "forwarding_policy \<Rightarrow> unit engine_result" where
  "forwarding_policy_validate p =
     (if \<not> fp_enabled p then Inr ()
      else if fp_ingress_interface_id p = None \<or> fp_egress_interface_id p = None then Inl configuration_invalid
      else if fp_ingress_interface_id p = fp_egress_interface_id p then Inl configuration_invalid
      else Inr ())"

record routing_context =
  rc_table_id :: u32
  rc_preferred_interface_id :: "u32 option"

definition routing_context_default :: routing_context where
  "routing_context_default = \<lparr> rc_table_id = 0, rc_preferred_interface_id = None \<rparr>"

definition routing_context_validate :: "routing_context \<Rightarrow> unit engine_result" where
  "routing_context_validate c = Inr ()"

record gateway_policy =
  gp_enabled :: bool
  gp_default_decision :: policy_decision
  gp_nat :: "nat_policy option"
  gp_forwarding :: "forwarding_policy option"
  gp_routing :: routing_context

definition gateway_policy_default :: gateway_policy where
  "gateway_policy_default = \<lparr> gp_enabled = False, gp_default_decision = Policy_Deny, gp_nat = None,
     gp_forwarding = None, gp_routing = routing_context_default \<rparr>"

definition gateway_policy_validate :: "gateway_policy \<Rightarrow> unit engine_result" where
  "gateway_policy_validate p =
     (case (case gp_nat p of Some n \<Rightarrow> nat_policy_validate n | None \<Rightarrow> Inr ()) of
        Inl e \<Rightarrow> Inl e
      | Inr _ \<Rightarrow>
     (case (case gp_forwarding p of Some f \<Rightarrow> forwarding_policy_validate f | None \<Rightarrow> Inr ()) of
        Inl e \<Rightarrow> Inl e
      | Inr _ \<Rightarrow>
     (case routing_context_validate (gp_routing p) of
        Inl e \<Rightarrow> Inl e
      | Inr _ \<Rightarrow>
          if \<not> gp_enabled p then Inr ()
          else if gp_forwarding p = None then Inl configuration_invalid
          else Inr ())))"

definition allows_default :: "gateway_policy \<Rightarrow> bool" where
  "allows_default p \<longleftrightarrow> gp_default_decision p = Policy_Allow"

definition denies_default :: "gateway_policy \<Rightarrow> bool" where
  "denies_default p \<longleftrightarrow> gp_default_decision p = Policy_Deny"

text \<open>What a valid policy promises, independently of the order of the checks.\<close>

definition nat_policy_ok :: "nat_policy \<Rightarrow> bool" where
  "nat_policy_ok p \<longleftrightarrow> (np_enabled p \<longleftrightarrow> np_mode p \<noteq> Nat_Disabled) \<and>
     (np_enabled p \<longrightarrow> np_external_interface_id p \<noteq> None)"

definition forwarding_policy_ok :: "forwarding_policy \<Rightarrow> bool" where
  "forwarding_policy_ok p \<longleftrightarrow> (fp_enabled p \<longrightarrow>
     (\<exists>i e. fp_ingress_interface_id p = Some i \<and> fp_egress_interface_id p = Some e \<and> i \<noteq> e))"

lemma nat_policy_validate_iff: "nat_policy_validate p = (if nat_policy_ok p then Inr () else Inl configuration_invalid)"
  by (auto simp: nat_policy_validate_def nat_policy_ok_def split: nat_policy_mode.splits)

lemma forwarding_policy_validate_iff:
  "forwarding_policy_validate p = (if forwarding_policy_ok p then Inr () else Inl configuration_invalid)"
  by (auto simp: forwarding_policy_validate_def forwarding_policy_ok_def)

lemma gateway_policy_validate_iff:
  "gateway_policy_validate p =
     (if (\<forall>n. gp_nat p = Some n \<longrightarrow> nat_policy_ok n) \<and> (\<forall>f. gp_forwarding p = Some f \<longrightarrow> forwarding_policy_ok f) \<and>
         (gp_enabled p \<longrightarrow> gp_forwarding p \<noteq> None)
      then Inr () else Inl configuration_invalid)"
  by (auto simp: gateway_policy_validate_def nat_policy_validate_iff forwarding_policy_validate_iff
      routing_context_validate_def split: option.splits)

subsection \<open>The lifecycle (\<open>engine_state.rs\<close>)\<close>

datatype engine_lifecycle = Uninitialized | Initializing | Running | ShuttingDown | Stopped | Failed

primrec lifecycle_as_u32 :: "engine_lifecycle \<Rightarrow> u32" where
  "lifecycle_as_u32 Uninitialized = 0"
| "lifecycle_as_u32 Initializing = 1"
| "lifecycle_as_u32 Running = 2"
| "lifecycle_as_u32 ShuttingDown = 3"
| "lifecycle_as_u32 Stopped = 4"
| "lifecycle_as_u32 Failed = 5"

record engine_state =
  es_initialized :: bool
  es_shutdown_requested :: bool
  es_lifecycle :: engine_lifecycle
  es_lifecycle_poisoned :: bool
  es_gateway_policy :: "gateway_policy option"
  es_policy_poisoned :: bool

definition engine_state_new :: engine_state where
  "engine_state_new = \<lparr> es_initialized = False, es_shutdown_requested = False, es_lifecycle = Uninitialized,
     es_lifecycle_poisoned = False, es_gateway_policy = None, es_policy_poisoned = False \<rparr>"

abbreviation lifecycle_mutex_poisoned :: engine_error where
  "lifecycle_mutex_poisoned \<equiv> Error_Message EC_InternalError ''engine lifecycle mutex poisoned''"

abbreviation policy_mutex_poisoned :: engine_error where
  "policy_mutex_poisoned \<equiv> Error_Message EC_InternalError ''gateway policy mutex poisoned''"

definition engine_init :: "engine_state \<Rightarrow> unit engine_result \<times> engine_state" where
  "engine_init s =
     (if es_lifecycle_poisoned s then (Inl lifecycle_mutex_poisoned, s)
      else case es_lifecycle s of
        Running \<Rightarrow> (Inl (Error_Code EC_AlreadyInitialized), s)
      | Initializing \<Rightarrow> (Inl (Error_Code EC_InvalidStateTransition), s)
      | ShuttingDown \<Rightarrow> (Inl (Error_Code EC_InvalidStateTransition), s)
      | Failed \<Rightarrow> (Inl (Error_Message EC_InvalidStateTransition ''engine is in failed state''), s)
      | _ \<Rightarrow> (Inr (), s\<lparr> es_shutdown_requested := False, es_initialized := True, es_lifecycle := Running \<rparr>))"

definition begin_shutdown :: "engine_state \<Rightarrow> unit engine_result \<times> engine_state" where
  "begin_shutdown s =
     (if es_lifecycle_poisoned s then (Inl lifecycle_mutex_poisoned, s)
      else case es_lifecycle s of
        Running \<Rightarrow> (Inr (), s\<lparr> es_lifecycle := ShuttingDown, es_shutdown_requested := True \<rparr>)
      | Uninitialized \<Rightarrow> (Inl (Error_Code EC_AlreadyShutdown), s)
      | Stopped \<Rightarrow> (Inl (Error_Code EC_AlreadyShutdown), s)
      | Initializing \<Rightarrow> (Inl (Error_Code EC_InvalidStateTransition), s)
      | ShuttingDown \<Rightarrow> (Inl (Error_Code EC_InvalidStateTransition), s)
      | Failed \<Rightarrow> (Inl (Error_Message EC_InvalidStateTransition ''cannot shutdown failed engine''), s))"

definition engine_stop :: "engine_state \<Rightarrow> engine_state" where
  "engine_stop s =
     s\<lparr> es_shutdown_requested := True, es_initialized := False,
        es_gateway_policy := (if es_policy_poisoned s then es_gateway_policy s else None),
        es_lifecycle := Stopped \<rparr>"

definition engine_shutdown :: "engine_state \<Rightarrow> unit engine_result \<times> engine_state" where
  "engine_shutdown s =
     (if es_lifecycle_poisoned s then (Inl lifecycle_mutex_poisoned, s)
      else case es_lifecycle s of
        Uninitialized \<Rightarrow> (Inl (Error_Code EC_AlreadyShutdown), s)
      | Stopped \<Rightarrow> (Inl (Error_Code EC_AlreadyShutdown), s)
      | Initializing \<Rightarrow> (Inl (Error_Code EC_InvalidStateTransition), s)
      | Failed \<Rightarrow> (Inr (), s\<lparr> es_initialized := False, es_shutdown_requested := True, es_lifecycle := Stopped \<rparr>)
      | _ \<Rightarrow> (Inr (), engine_stop s))"

definition mark_failed :: "engine_state \<Rightarrow> engine_state" where
  "mark_failed s =
     (let s1 = s\<lparr> es_initialized := False, es_shutdown_requested := True \<rparr> in
      if es_lifecycle_poisoned s1 then s1 else s1\<lparr> es_lifecycle := Failed \<rparr>)"

definition engine_lifecycle_of :: "engine_state \<Rightarrow> engine_lifecycle" where
  "engine_lifecycle_of s = (if es_lifecycle_poisoned s then Failed else es_lifecycle s)"

definition require_running :: "engine_state \<Rightarrow> unit engine_result" where
  "require_running s =
     (if \<not> es_initialized s then Inl (Error_Code EC_NotInitialized)
      else case engine_lifecycle_of s of
        Running \<Rightarrow> Inr ()
      | ShuttingDown \<Rightarrow> Inl (Error_Code EC_ShutdownInProgress)
      | Stopped \<Rightarrow> Inl (Error_Code EC_NotInitialized)
      | Uninitialized \<Rightarrow> Inl (Error_Code EC_NotInitialized)
      | Initializing \<Rightarrow> Inl (Error_Code EC_InvalidStateTransition)
      | Failed \<Rightarrow> Inl (Error_Message EC_InternalError ''engine is in failed state''))"

definition set_gateway_policy :: "gateway_policy \<Rightarrow> engine_state \<Rightarrow> unit engine_result \<times> engine_state" where
  "set_gateway_policy p s =
     (case require_running s of
        Inl e \<Rightarrow> (Inl e, s)
      | Inr _ \<Rightarrow> if es_policy_poisoned s then (Inl policy_mutex_poisoned, s)
                else (Inr (), s\<lparr> es_gateway_policy := Some p \<rparr>))"

definition gateway_policy_of :: "engine_state \<Rightarrow> gateway_policy option engine_result" where
  "gateway_policy_of s = (if es_policy_poisoned s then Inl policy_mutex_poisoned else Inr (es_gateway_policy s))"

definition clear_gateway_policy :: "engine_state \<Rightarrow> unit engine_result \<times> engine_state" where
  "clear_gateway_policy s =
     (if es_policy_poisoned s then (Inl policy_mutex_poisoned, s)
      else (Inr (), s\<lparr> es_gateway_policy := None \<rparr>))"

subsection \<open>Configuration (\<open>config.rs\<close>)\<close>

record engine_config =
  ec_queue_capacity :: usize
  ec_pool_max_size :: usize
  ec_buffer_capacity :: usize
  ec_max_flows :: usize
  ec_flow_timeout_secs :: u64
  ec_enable_gateway :: bool
  ec_capture_enabled :: bool
  ec_interception_enabled :: bool
  ec_enable_wfp :: bool
  ec_enable_windivert :: bool
  ec_enable_npcap :: bool
  ec_enable_iphelper :: bool
  ec_enable_etw :: bool
  ec_log_level :: string
  ec_max_packet_size :: usize
  ec_max_pending_observations :: usize
  ec_shutdown_timeout_ms :: u64

definition engine_config_default :: engine_config where
  "engine_config_default = \<lparr> ec_queue_capacity = 4096, ec_pool_max_size = 4096, ec_buffer_capacity = 65535,
     ec_max_flows = 100000, ec_flow_timeout_secs = 300, ec_enable_gateway = False, ec_capture_enabled = False,
     ec_interception_enabled = False, ec_enable_wfp = True, ec_enable_windivert = True, ec_enable_npcap = True,
     ec_enable_iphelper = True, ec_enable_etw = True, ec_log_level = ''info'', ec_max_packet_size = 65535,
     ec_max_pending_observations = 4096, ec_shutdown_timeout_ms = 5000 \<rparr>"

abbreviation config_error :: "string \<Rightarrow> unit engine_result" where
  "config_error m \<equiv> Inl (Error_Message EC_ConfigurationInvalid m)"

definition config_validate :: "engine_config \<Rightarrow> unit engine_result" where
  "config_validate c =
     (if ec_queue_capacity c = 0 then config_error ''queue_capacity must be greater than zero''
      else if ec_pool_max_size c = 0 then config_error ''pool_max_size must be greater than zero''
      else if ec_buffer_capacity c = 0 then config_error ''buffer_capacity must be greater than zero''
      else if ec_max_flows c = 0 then config_error ''max_flows must be greater than zero''
      else if ec_flow_timeout_secs c = 0 then config_error ''flow_timeout_secs must be greater than zero''
      else if ec_max_packet_size c = 0 then config_error ''max_packet_size must be greater than zero''
      else if ec_max_packet_size c > 2 ^ 32 - 1 then config_error ''max_packet_size exceeds u32 packet length limit''
      else if ec_max_pending_observations c = 0 then config_error ''max_pending_observations must be greater than zero''
      else if ec_shutdown_timeout_ms c = 0 then config_error ''shutdown_timeout_ms must be greater than zero''
      else if ec_pool_max_size c < ec_queue_capacity c then config_error ''pool_max_size must be >= queue_capacity''
      else if ec_max_pending_observations c < ec_queue_capacity c then
        config_error ''max_pending_observations must be >= queue_capacity''
      else if ec_log_level c \<notin> {''trace'', ''debug'', ''info'', ''warn'', ''error''} then
        config_error ''log_level must be trace, debug, info, warn, or error''
      else Inr ())"

definition config_normalized :: "engine_config \<Rightarrow> engine_config engine_result" where
  "config_normalized c =
     (let c' = c\<lparr> ec_log_level := to_ascii_lowercase (trim (ec_log_level c)) \<rparr> in
      case config_validate c' of Inl e \<Rightarrow> Inl e | Inr _ \<Rightarrow> Inr c')"

lemma config_validate_ok:
  "config_validate c = Inr () \<longleftrightarrow>
     0 < ec_queue_capacity c \<and> ec_queue_capacity c \<le> ec_pool_max_size c \<and>
     ec_queue_capacity c \<le> ec_max_pending_observations c \<and> 0 < ec_buffer_capacity c \<and> 0 < ec_max_flows c \<and>
     ec_flow_timeout_secs c \<noteq> 0 \<and> ec_shutdown_timeout_ms c \<noteq> 0 \<and>
     0 < ec_max_packet_size c \<and> ec_max_packet_size c < 2 ^ 32 \<and>
     ec_log_level c \<in> {''trace'', ''debug'', ''info'', ''warn'', ''error''}"
  by (auto simp: config_validate_def split: if_splits)

lemma config_normalized_validates: "config_normalized c = Inr c' \<Longrightarrow> config_validate c' = Inr ()"
  by (auto simp: config_normalized_def Let_def split: sum.splits)

lemma config_normalized_idem: "config_normalized c = Inr c' \<Longrightarrow> config_normalized c' = Inr c'"
  by (auto simp: config_normalized_def Let_def trim_lower split: sum.splits)

lemma engine_config_default_valid: "config_validate engine_config_default = Inr ()"
  by (simp add: config_validate_ok engine_config_default_def)

subsection \<open>The invariant of the lifecycle\<close>

definition es_inv :: "engine_state \<Rightarrow> bool" where
  "es_inv s \<longleftrightarrow> \<not> es_lifecycle_poisoned s \<and> \<not> es_policy_poisoned s \<and> es_lifecycle s \<noteq> Initializing \<and>
     (es_initialized s \<longleftrightarrow> es_lifecycle s \<in> {Running, ShuttingDown}) \<and>
     (es_shutdown_requested s \<longleftrightarrow> es_lifecycle s \<in> {ShuttingDown, Stopped, Failed})"

datatype es_op = Es_Init | Es_Begin_Shutdown | Es_Shutdown | Es_Mark_Failed | Es_Set_Policy gateway_policy | Es_Clear_Policy

primrec es_exec :: "es_op \<Rightarrow> engine_state \<Rightarrow> engine_state" where
  "es_exec Es_Init s = snd (engine_init s)"
| "es_exec Es_Begin_Shutdown s = snd (begin_shutdown s)"
| "es_exec Es_Shutdown s = snd (engine_shutdown s)"
| "es_exec Es_Mark_Failed s = mark_failed s"
| "es_exec (Es_Set_Policy p) s = snd (set_gateway_policy p s)"
| "es_exec Es_Clear_Policy s = snd (clear_gateway_policy s)"

lemma es_inv_exec: "es_inv s \<Longrightarrow> es_inv (es_exec op s)"
  by (cases op; cases "es_lifecycle s")
    (auto simp: es_inv_def engine_init_def begin_shutdown_def engine_shutdown_def engine_stop_def mark_failed_def
      set_gateway_policy_def require_running_def engine_lifecycle_of_def clear_gateway_policy_def Let_def)

lemma es_inv_new: "es_inv engine_state_new"
  by (simp add: es_inv_def engine_state_new_def)

lemma es_inv_run: "es_inv s \<Longrightarrow> es_inv (fold es_exec ops s)"
  by (induction ops arbitrary: s) (simp_all add: es_inv_exec)

text \<open>The lifecycle diagram: every operation stays in its state or follows one of its edges.\<close>

definition lifecycle_edge :: "engine_lifecycle \<Rightarrow> engine_lifecycle \<Rightarrow> bool" where
  "lifecycle_edge a b \<longleftrightarrow> (a, b) \<in>
     {(Uninitialized, Running), (Stopped, Running), (Running, ShuttingDown), (Running, Stopped),
      (ShuttingDown, Stopped), (Failed, Stopped)} \<or> b = Failed"

lemma lifecycle_step:
  "es_inv s \<Longrightarrow> es_lifecycle (es_exec op s) = es_lifecycle s \<or>
     lifecycle_edge (es_lifecycle s) (es_lifecycle (es_exec op s))"
  by (cases op; cases "es_lifecycle s")
    (auto simp: es_inv_def engine_init_def begin_shutdown_def engine_shutdown_def engine_stop_def mark_failed_def
      set_gateway_policy_def require_running_def engine_lifecycle_of_def clear_gateway_policy_def lifecycle_edge_def Let_def)

text \<open>
  C33: After any sequence of engine operations, the three ways of asking whether the engine runs
  agree: \<open>require_running\<close> succeeds exactly in the state \<open>Running\<close>, which holds exactly if the
  engine is initialized and no shutdown is requested; and each operation moves the lifecycle
  along an edge of its diagram or leaves it, so a failed engine can only be stopped.
\<close>

theorem engine_lifecycle_consistent:
  "let s = fold es_exec ops engine_state_new in
     (require_running s = Inr () \<longleftrightarrow> es_lifecycle s = Running) \<and>
     (es_lifecycle s = Running \<longleftrightarrow> es_initialized s \<and> \<not> es_shutdown_requested s) \<and>
     (es_lifecycle (es_exec op s) = es_lifecycle s \<or> lifecycle_edge (es_lifecycle s) (es_lifecycle (es_exec op s)))"
proof -
  have inv: "es_inv (fold es_exec ops engine_state_new)" by (rule es_inv_run [OF es_inv_new])
  show ?thesis
    using inv lifecycle_step [OF inv, of op]
    by (cases "es_lifecycle (fold es_exec ops engine_state_new)")
      (auto simp: es_inv_def require_running_def engine_lifecycle_of_def Let_def)
qed

text \<open>
  A gateway policy does not survive an orderly shutdown: stopping a running engine drops the
  installed policy. Stopping a failed engine does not: the policy is still installed, and still
  in force after the engine is started again.
\<close>

lemma policy_survives_only_failure:
  assumes "es_inv s" and "es_gateway_policy s = Some p" and "es_lifecycle s = Running"
    and "orderly = [Es_Shutdown, Es_Init]" and "failed = [Es_Mark_Failed, Es_Shutdown, Es_Init]"
  shows "es_gateway_policy (fold es_exec orderly s) = None \<and> es_lifecycle (fold es_exec orderly s) = Running \<and>
    es_gateway_policy (fold es_exec failed s) = Some p \<and> es_lifecycle (fold es_exec failed s) = Running"
  using assms
  by (simp add: es_inv_def engine_shutdown_def engine_stop_def engine_init_def mark_failed_def Let_def)

theorem policy_survives_only_failure_witness:
  "es_inv (fold es_exec [Es_Init, Es_Set_Policy gateway_policy_default] engine_state_new) \<and>
   es_gateway_policy (fold es_exec [Es_Mark_Failed, Es_Shutdown, Es_Init]
     (fold es_exec [Es_Init, Es_Set_Policy gateway_policy_default] engine_state_new)) = Some gateway_policy_default"
proof -
  define s where "s = fold es_exec [Es_Init, Es_Set_Policy gateway_policy_default] engine_state_new"
  have "es_inv s" unfolding s_def by (rule es_inv_run [OF es_inv_new])
  moreover have "es_gateway_policy s = Some gateway_policy_default" "es_lifecycle s = Running"
    by (simp_all add: s_def engine_state_new_def engine_init_def set_gateway_policy_def require_running_def
        engine_lifecycle_of_def)
  ultimately show ?thesis
    using policy_survives_only_failure [of s gateway_policy_default] unfolding s_def by blast
qed

text \<open>
  Configuration normalization is idempotent and produces only valid configurations: queue,
  pool, buffer and flow limits are positive, and the pool and the pending-observation limit
  are at least as large as the queue.
\<close>

lemma normalized_config_valid:
  assumes "config_normalized c = Inr c'"
  shows "config_normalized c' = Inr c' \<and> 0 < ec_queue_capacity c' \<and>
    ec_queue_capacity c' \<le> ec_pool_max_size c' \<and> ec_queue_capacity c' \<le> ec_max_pending_observations c' \<and>
    0 < ec_buffer_capacity c' \<and> 0 < ec_max_flows c' \<and> ec_max_packet_size c' < 2 ^ 32"
  using config_normalized_idem [OF assms] config_normalized_validates [OF assms]
  by (simp add: config_validate_ok)

end
