(* ===== verification/Core_Metadata.thy ===== *)
theory Core_Metadata
  imports Core_Text
begin

text \<open>
  Packet metadata of \<open>crates/network-core/src/metadata.rs\<close>: annotations (key, value, provenance),
  their merging, and the store of metadata by observation. A provenance is a comma-separated
  list of sources.
\<close>

subsection \<open>Splitting at commas\<close>

text \<open>\<open>str::split\<close> with a character: at least one part, possibly empty ones.\<close>

fun split_on :: "char \<Rightarrow> string \<Rightarrow> string list" where
  "split_on d [] = [[]]"
| "split_on d (c # s) =
     (if c = d then [] # split_on d s
      else case split_on d s of [] \<Rightarrow> [[c]] | x # xs \<Rightarrow> (c # x) # xs)"

abbreviation comma :: char where
  "comma \<equiv> CHR '',''"

definition parts_of :: "string \<Rightarrow> string list" where
  "parts_of s = filter (\<lambda>p. p \<noteq> []) (map trim (split_on comma s))"

subsection \<open>Annotations\<close>

record metadata_annotation =
  an_key :: string
  an_value :: string
  an_provenance :: string

type_synonym packet_metadata = "metadata_annotation list"

definition normalize_key :: "string \<Rightarrow> string" where
  "normalize_key s = to_ascii_lowercase (trim s)"

definition normalize_value :: "string \<Rightarrow> string" where
  "normalize_value s = trim s"

text \<open>One round of the loops of \<open>normalize_provenance\<close> and \<open>merge_provenance\<close>.\<close>

definition push_source :: "string \<Rightarrow> string \<Rightarrow> string" where
  "push_source part acc =
     (if part \<in> set (split_on comma acc) then acc
      else (if acc = [] then acc else acc @ [comma]) @ part)"

definition normalize_provenance :: "string \<Rightarrow> string" where
  "normalize_provenance s = fold push_source (parts_of s) []"

definition merge_provenance :: "string \<Rightarrow> string \<Rightarrow> string" where
  "merge_provenance existing incoming = fold push_source (parts_of incoming) existing"

text \<open>\<open>iter_mut().find(..)\<close> with the update of the annotation found.\<close>

fun merge_into :: "string \<Rightarrow> string \<Rightarrow> string \<Rightarrow> packet_metadata \<Rightarrow> packet_metadata option" where
  "merge_into key value p [] = None"
| "merge_into key value p (a # as) =
     (if an_key a = key \<and> an_value a = value
      then Some (a\<lparr> an_provenance := merge_provenance (an_provenance a) p \<rparr> # as)
      else map_option ((#) a) (merge_into key value p as))"

definition metadata_add :: "string \<Rightarrow> string \<Rightarrow> string \<Rightarrow> packet_metadata \<Rightarrow> packet_metadata" where
  "metadata_add key value p m =
     (let key = normalize_key key; value = normalize_value value in
      if key = [] \<or> value = [] then m
      else case merge_into key value p m of
        Some m' \<Rightarrow> m'
      | None \<Rightarrow> m @ [\<lparr> an_key = key, an_value = value, an_provenance = normalize_provenance p \<rparr>])"

definition metadata_merge :: "packet_metadata \<Rightarrow> packet_metadata \<Rightarrow> packet_metadata" where
  "metadata_merge m other = fold (\<lambda>a. metadata_add (an_key a) (an_value a) (an_provenance a)) other m"

definition values_for :: "string \<Rightarrow> packet_metadata \<Rightarrow> metadata_annotation list" where
  "values_for key m = filter (\<lambda>a. an_key a = normalize_key key) m"

definition metadata_get :: "string \<Rightarrow> packet_metadata \<Rightarrow> metadata_annotation option" where
  "metadata_get key m = (case values_for key m of [] \<Rightarrow> None | a # _ \<Rightarrow> Some a)"

subsection \<open>The store\<close>

type_synonym metadata_store = "(observation_id, packet_metadata) hash_map"

definition store_entry :: "observation_id \<Rightarrow> metadata_store \<Rightarrow> packet_metadata" where
  "store_entry oid s = (case hm_get oid s of None \<Rightarrow> [] | Some m \<Rightarrow> m)"

definition store_update :: "observation_id \<Rightarrow> packet_metadata \<Rightarrow> metadata_store \<Rightarrow> metadata_store" where
  "store_update oid m s = hm_insert oid (metadata_merge (store_entry oid s) m) s"

definition store_add :: "observation_id \<Rightarrow> string \<Rightarrow> string \<Rightarrow> string \<Rightarrow> metadata_store \<Rightarrow> metadata_store" where
  "store_add oid key value p s = hm_insert oid (metadata_add key value p (store_entry oid s)) s"

definition store_get :: "observation_id \<Rightarrow> metadata_store \<Rightarrow> packet_metadata option" where
  "store_get oid s = hm_get oid s"

definition store_remove :: "observation_id \<Rightarrow> metadata_store \<Rightarrow> packet_metadata option \<times> metadata_store" where
  "store_remove oid s = (hm_get oid s, hm_remove oid s)"

subsection \<open>Sources of a provenance\<close>

lemma split_on_nonempty [simp]: "split_on d s \<noteq> []"
  by (induction d s rule: split_on.induct) (auto split: list.splits)

lemma split_on_append: "split_on d (s @ d # t) = split_on d s @ split_on d t"
  by (induction d s rule: split_on.induct) (auto split: list.splits)

lemma split_on_no_sep: "d \<notin> set s \<Longrightarrow> split_on d s = [s]"
  by (induction d s rule: split_on.induct) auto

lemma split_on_parts: "p \<in> set (split_on d s) \<Longrightarrow> d \<notin> set p"
  by (induction d s arbitrary: p rule: split_on.induct) (auto split: list.splits if_splits)

lemma set_trim: "set (trim s) \<subseteq> set s"
  unfolding trim_def by (auto dest!: set_dropWhileD)

text \<open>A source is a non-empty trimmed string without commas; a provenance is a list of distinct sources.\<close>

definition is_source :: "string \<Rightarrow> bool" where
  "is_source p \<longleftrightarrow> p \<noteq> [] \<and> trim p = p \<and> comma \<notin> set p"

definition prov_ok :: "string \<Rightarrow> bool" where
  "prov_ok s \<longleftrightarrow> s = [] \<or> distinct (split_on comma s) \<and> (\<forall>p \<in> set (split_on comma s). is_source p)"

lemma parts_of_sources: "p \<in> set (parts_of s) \<Longrightarrow> is_source p"
  using split_on_parts set_trim by (fastforce simp: parts_of_def is_source_def)

lemma prov_ok_parts: "prov_ok s \<Longrightarrow> parts_of s = (if s = [] then [] else split_on comma s)"
proof -
  have "map trim xs = xs" "filter (\<lambda>p. p \<noteq> []) xs = xs" if "\<forall>p \<in> set xs. is_source p" for xs
    using that by (induction xs) (auto simp: is_source_def)
  then show "prov_ok s \<Longrightarrow> parts_of s = (if s = [] then [] else split_on comma s)"
    by (auto simp: prov_ok_def parts_of_def trim_def)
qed

lemma push_source_ok:
  assumes "prov_ok s" and "is_source p"
  shows "prov_ok (push_source p s) \<and> set (parts_of (push_source p s)) = insert p (set (parts_of s))"
proof (cases "p \<in> set (split_on comma s)")
  case True
  then have "s \<noteq> []" using assms(2) by (auto simp: is_source_def)
  then show ?thesis using True assms(1) by (auto simp: push_source_def prov_ok_parts)
next
  case False
  have "split_on comma (push_source p s) = (if s = [] then [p] else split_on comma s @ [p])"
    using False assms(2) by (simp add: push_source_def split_on_append split_on_no_sep is_source_def)
  moreover have "push_source p s \<noteq> []" using False assms(2) by (simp add: push_source_def is_source_def)
  ultimately have ok: "prov_ok (push_source p s)"
    using assms False by (auto simp: prov_ok_def split: if_splits)
  then show ?thesis
    using \<open>split_on comma (push_source p s) = _\<close> \<open>push_source p s \<noteq> []\<close> assms(1) by (simp add: prov_ok_parts)
qed

lemma fold_push_source_ok:
  "prov_ok s \<Longrightarrow> \<forall>p \<in> set ps. is_source p \<Longrightarrow>
     prov_ok (fold push_source ps s) \<and> set (parts_of (fold push_source ps s)) = set ps \<union> set (parts_of s)"
proof (induction ps arbitrary: s)
  case (Cons p ps)
  then show ?case using push_source_ok [of s p] by auto
qed simp

lemma merge_provenance_ok:
  "prov_ok s \<Longrightarrow> prov_ok (merge_provenance s t) \<and>
     set (parts_of (merge_provenance s t)) = set (parts_of s) \<union> set (parts_of t)"
  unfolding merge_provenance_def using fold_push_source_ok [of s "parts_of t"] parts_of_sources by auto

lemma normalize_provenance_ok:
  "prov_ok (normalize_provenance t) \<and> set (parts_of (normalize_provenance t)) = set (parts_of t)"
  unfolding normalize_provenance_def
  using fold_push_source_ok [of "[]" "parts_of t"] parts_of_sources by (auto simp: prov_ok_def parts_of_def trim_def)

subsection \<open>Metadata as a relation\<close>

definition facts_of :: "packet_metadata \<Rightarrow> (string \<times> string) set" where
  "facts_of m = {(an_key a, an_value a) | a. a \<in> set m}"

definition sources_of :: "packet_metadata \<Rightarrow> (string \<times> string \<times> string) set" where
  "sources_of m = {(an_key a, an_value a, p) | a p. a \<in> set m \<and> p \<in> set (parts_of (an_provenance a))}"

definition meta_ok :: "packet_metadata \<Rightarrow> bool" where
  "meta_ok m \<longleftrightarrow> distinct (map (\<lambda>a. (an_key a, an_value a)) m) \<and>
     (\<forall>a \<in> set m. an_key a \<noteq> [] \<and> normalize_key (an_key a) = an_key a \<and>
        an_value a \<noteq> [] \<and> normalize_value (an_value a) = an_value a \<and> prov_ok (an_provenance a))"

lemma facts_of_snoc: "facts_of (m @ [a]) = insert (an_key a, an_value a) (facts_of m)"
  by (auto simp: facts_of_def)

lemma sources_of_snoc:
  "sources_of (m @ [a]) = sources_of m \<union> {(an_key a, an_value a, q) | q. q \<in> set (parts_of (an_provenance a))}"
  by (auto simp: sources_of_def)

lemma normalize_key_idem [simp]: "normalize_key (normalize_key s) = normalize_key s"
  by (simp add: normalize_key_def trim_lower)

lemma normalize_value_idem [simp]: "normalize_value (normalize_value s) = normalize_value s"
  by (simp add: normalize_value_def)

lemma merge_into_None: "merge_into k v p m = None \<longleftrightarrow> (k, v) \<notin> facts_of m"
  by (induction m) (auto simp: facts_of_def)

lemma merge_into_Some:
  "merge_into k v p m = Some m' \<Longrightarrow> meta_ok m \<Longrightarrow>
     meta_ok m' \<and> facts_of m' = facts_of m \<and> sources_of m' = sources_of m \<union> {(k, v, q) | q. q \<in> set (parts_of p)} \<and>
     map (\<lambda>a. (an_key a, an_value a)) m' = map (\<lambda>a. (an_key a, an_value a)) m"
proof (induction m arbitrary: m')
  case (Cons a m)
  have ok: "meta_ok m" using Cons.prems(2) by (simp add: meta_ok_def)
  have cons: "facts_of (b # m) = insert (an_key b, an_value b) (facts_of m)"
    "sources_of (b # m) = {(an_key b, an_value b, q) | q. q \<in> set (parts_of (an_provenance b))} \<union> sources_of m" for b m
    by (auto simp: facts_of_def sources_of_def)
  show ?case
  proof (cases "an_key a = k \<and> an_value a = v")
    case True
    then have "m' = a\<lparr> an_provenance := merge_provenance (an_provenance a) p \<rparr> # m" using Cons.prems(1) by simp
    moreover have "prov_ok (an_provenance a)" using Cons.prems(2) by (simp add: meta_ok_def)
    ultimately show ?thesis
      using True merge_provenance_ok [of "an_provenance a" p] Cons.prems(2)
      by (auto simp: cons) (simp_all add: meta_ok_def)
  next
    case False
    then obtain m1 where m1: "merge_into k v p m = Some m1" "m' = a # m1" using Cons.prems(1) by auto
    have IH: "meta_ok m1" "facts_of m1 = facts_of m" "sources_of m1 = sources_of m \<union> {(k, v, q) | q. q \<in> set (parts_of p)}"
      "map (\<lambda>a. (an_key a, an_value a)) m1 = map (\<lambda>a. (an_key a, an_value a)) m"
      using Cons.IH [OF m1(1) ok] by simp_all
    have "meta_ok (a # m1)" using Cons.prems(2) IH(1,4) by (simp add: meta_ok_def)
    then show ?thesis using IH m1(2) by (auto simp: cons)
  qed
qed simp

lemma metadata_add_ok:
  assumes "meta_ok m"
  shows "meta_ok (metadata_add k v p m) \<and>
    (if normalize_key k = [] \<or> normalize_value v = [] then metadata_add k v p m = m
     else facts_of (metadata_add k v p m) = insert (normalize_key k, normalize_value v) (facts_of m) \<and>
       sources_of (metadata_add k v p m) =
         sources_of m \<union> {(normalize_key k, normalize_value v, q) | q. q \<in> set (parts_of p)})"
proof (cases "normalize_key k = [] \<or> normalize_value v = []")
  case True
  then show ?thesis using assms by (simp add: metadata_add_def Let_def)
next
  case False
  show ?thesis
  proof (cases "merge_into (normalize_key k) (normalize_value v) p m")
    case None
    then have new: "(normalize_key k, normalize_value v) \<notin> facts_of m" by (simp add: merge_into_None)
    have add: "metadata_add k v p m =
        m @ [\<lparr> an_key = normalize_key k, an_value = normalize_value v, an_provenance = normalize_provenance p \<rparr>]"
      using None False by (simp add: metadata_add_def Let_def)
    have "meta_ok (metadata_add k v p m)"
      using assms False new normalize_provenance_ok [of p] unfolding add
      by (auto simp: meta_ok_def facts_of_def)
    then show ?thesis
      using False normalize_provenance_ok [of p] by (simp add: add facts_of_snoc sources_of_snoc)
  next
    case (Some m')
    then have "(normalize_key k, normalize_value v) \<in> facts_of m" using merge_into_None by (metis option.discI)
    moreover have "metadata_add k v p m = m'" using Some False by (simp add: metadata_add_def Let_def)
    ultimately show ?thesis
      using False merge_into_Some [OF Some assms] by auto
  qed
qed

lemma metadata_merge_ok:
  "meta_ok m \<Longrightarrow> meta_ok n \<Longrightarrow>
     meta_ok (metadata_merge m n) \<and> facts_of (metadata_merge m n) = facts_of m \<union> facts_of n \<and>
     sources_of (metadata_merge m n) = sources_of m \<union> sources_of n"
proof (induction n arbitrary: m)
  case Nil
  then show ?case by (simp add: metadata_merge_def facts_of_def sources_of_def)
next
  case (Cons a n)
  have a: "normalize_key (an_key a) = an_key a" "normalize_value (an_value a) = an_value a" "an_key a \<noteq> []" "an_value a \<noteq> []"
    and n: "meta_ok n"
    using Cons.prems(2) by (simp_all add: meta_ok_def)
  let ?m = "metadata_add (an_key a) (an_value a) (an_provenance a) m"
  have add: "meta_ok ?m" "facts_of ?m = insert (an_key a, an_value a) (facts_of m)"
    "sources_of ?m = sources_of m \<union> {(an_key a, an_value a, q) | q. q \<in> set (parts_of (an_provenance a))}"
    using metadata_add_ok [OF Cons.prems(1), of "an_key a" "an_value a" "an_provenance a"] a by simp_all
  have "facts_of (a # n) = insert (an_key a, an_value a) (facts_of n)"
    "sources_of (a # n) = {(an_key a, an_value a, q) | q. q \<in> set (parts_of (an_provenance a))} \<union> sources_of n"
    by (auto simp: facts_of_def sources_of_def)
  moreover have "metadata_merge m (a # n) = metadata_merge ?m n" by (simp add: metadata_merge_def)
  ultimately show ?case using Cons.IH [OF add(1) n] add(2,3) by auto
qed

definition fact_of :: "string \<times> string \<times> string \<Rightarrow> string \<times> string" where
  "fact_of x = (normalize_key (fst x), normalize_value (fst (snd x)))"

lemma metadata_adds_ok: "meta_ok m \<Longrightarrow> meta_ok (fold (\<lambda>(k, v, p). metadata_add k v p) adds m)"
  by (induction adds arbitrary: m) (auto simp: metadata_add_ok)

lemma metadata_adds_facts:
  "meta_ok m \<Longrightarrow> facts_of (fold (\<lambda>(k, v, p). metadata_add k v p) adds m) =
     facts_of m \<union> {f \<in> fact_of ` set adds. fst f \<noteq> [] \<and> snd f \<noteq> []}"
proof (induction adds arbitrary: m)
  case (Cons x adds)
  obtain k v p where x: "x = (k, v, p)" by (cases x)
  show ?case
    using Cons.IH [of "metadata_add k v p m"] metadata_add_ok [OF Cons.prems, of k v p]
    by (cases "normalize_key k = [] \<or> normalize_value v = []") (auto simp: x fact_of_def [of "(k, v, p)"])
qed simp

text \<open>
  Packet metadata is a relation. Whatever annotations are added, in whatever spelling: a pair
  of key and value is stored once, under the trimmed lower-case key, exactly if it was added and
  neither is blank; adding it again only adds its sources to the provenance; and merging two
  sets of metadata yields the union of their pairs and of their sources, so the order of merging
  does not matter.
\<close>

lemma metadata_is_a_relation:
  assumes "m = fold (\<lambda>(k, v, p). metadata_add k v p) adds []" and "n = fold (\<lambda>(k, v, p). metadata_add k v p) adds' []"
  shows "distinct (map (\<lambda>a. (an_key a, an_value a)) m) \<and>
    facts_of m = {f \<in> fact_of ` set adds. fst f \<noteq> [] \<and> snd f \<noteq> []} \<and>
    (normalize_key k \<noteq> [] \<and> normalize_value v \<noteq> [] \<longrightarrow>
       sources_of (metadata_add k v p m) = sources_of m \<union> {(normalize_key k, normalize_value v, q) | q. q \<in> set (parts_of p)}) \<and>
    facts_of (metadata_merge m n) = facts_of m \<union> facts_of n \<and>
    sources_of (metadata_merge m n) = sources_of m \<union> sources_of n"
proof -
  have empty: "meta_ok []" "facts_of [] = {}" by (simp_all add: meta_ok_def facts_of_def)
  have ok: "meta_ok m" "meta_ok n" using metadata_adds_ok [OF empty(1)] assms by simp_all
  have d: "distinct (map (\<lambda>a. (an_key a, an_value a)) m)" using ok(1) by (simp add: meta_ok_def)
  have f: "facts_of m = {f \<in> fact_of ` set adds. fst f \<noteq> [] \<and> snd f \<noteq> []}"
    using metadata_adds_facts [OF empty(1), of adds] by (simp add: assms(1) empty(2))
  have a: "normalize_key k \<noteq> [] \<and> normalize_value v \<noteq> [] \<longrightarrow>
      sources_of (metadata_add k v p m) = sources_of m \<union> {(normalize_key k, normalize_value v, q) | q. q \<in> set (parts_of p)}"
    using metadata_add_ok [OF ok(1), of k v p] by simp
  show ?thesis
    using metadata_merge_ok [OF ok] by (intro conjI d f a) simp_all
qed

theorem metadata_is_a_relation_witness:
  "facts_of (metadata_add ''Host'' ''x'' ''dns'' []) = {(''host'', ''x'')}"
proof -
  have n: "normalize_key ''Host'' = ''host''" "normalize_value ''x'' = ''x''"
    by code_simp+
  show ?thesis
    using metadata_is_a_relation [of "metadata_add ''Host'' ''x'' ''dns'' []" "[(''Host'', ''x'', ''dns'')]" "[]" "[]"] n
    by (auto simp: fact_of_def)
qed

end
