(* ===== verification/Core_Statistics.thy ===== *)
theory Core_Statistics
  imports Core_Types
begin

text \<open>
  Counters of the engine: \<open>crates/network-core/src/metrics.rs\<close> (counters, gauges, histograms and
  the engine's metrics) and \<open>statistics.rs\<close> (backend and engine statistics). The counters are
  atomic \<open>u64\<close> cells; \<open>fetch_add\<close> wraps around.
\<close>

subsection \<open>Counter, gauge and histogram (\<open>metrics.rs\<close>)\<close>

type_synonym counter = u64

definition counter_increment :: "counter \<Rightarrow> counter" where
  "counter_increment c = c + 1"

definition counter_increment_by :: "u64 \<Rightarrow> counter \<Rightarrow> counter" where
  "counter_increment_by v c = c + v"

type_synonym gauge = u64

definition gauge_increment :: "gauge \<Rightarrow> gauge" where
  "gauge_increment g = g + 1"

text \<open>\<open>fetch_update\<close> with \<open>checked_sub(1)\<close>: no change at zero.\<close>

definition gauge_decrement :: "gauge \<Rightarrow> gauge" where
  "gauge_decrement g = (if g = 0 then g else g - 1)"

record histogram =
  hg_buckets :: "u64 list"
  hg_counts :: "u64 list"
  hg_sum :: u64
  hg_count :: u64

definition histogram_new :: "u64 list \<Rightarrow> histogram" where
  "histogram_new buckets =
     (let bs = remdups_adj (sort buckets) in
      \<lparr> hg_buckets = bs, hg_counts = replicate (length bs + 1) 0, hg_sum = 0, hg_count = 0 \<rparr>)"

fun bucket_index :: "u64 \<Rightarrow> u64 list \<Rightarrow> nat" where
  "bucket_index v [] = 0"
| "bucket_index v (b # bs) = (if v \<le> b then 0 else Suc (bucket_index v bs))"

text \<open>
  \<open>position(..).unwrap_or(buckets.len())\<close> is \<open>bucket_index\<close>. The indexing of \<open>counts\<close> panics out
  of range.
\<close>

definition histogram_observe :: "u64 \<Rightarrow> histogram \<Rightarrow> (unit, histogram) outcome" where
  "histogram_observe v h =
     (let h1 = h\<lparr> hg_sum := hg_sum h + v, hg_count := hg_count h + 1 \<rparr>;
          i = bucket_index v (hg_buckets h1) in
      if i < length (hg_counts h1) then Ok (h1\<lparr> hg_counts := (hg_counts h1)[i := hg_counts h1 ! i + 1] \<rparr>)
      else Panic)"

definition bucket_count :: "nat \<Rightarrow> histogram \<Rightarrow> u64 option" where
  "bucket_count i h = (if i < length (hg_counts h) then Some (hg_counts h ! i) else None)"

definition histogram_reset :: "histogram \<Rightarrow> histogram" where
  "histogram_reset h = h\<lparr> hg_sum := 0, hg_count := 0, hg_counts := map (\<lambda>_. 0) (hg_counts h) \<rparr>"

record engine_metrics =
  em_packets_received :: counter
  em_packets_processed :: counter
  em_packets_dropped :: counter
  em_packets_forwarded :: counter
  em_bytes_received :: counter
  em_bytes_processed :: counter
  em_bytes_forwarded :: counter
  em_malformed_packets :: counter
  em_queue_full :: counter
  em_buffer_exhausted :: counter
  em_active_flows :: gauge
  em_action_pass :: counter
  em_action_drop :: counter
  em_action_modify :: counter
  em_action_reinject :: counter
  em_packet_processing_time_ns :: histogram

definition engine_metrics_default :: engine_metrics where
  "engine_metrics_default = \<lparr>
     em_packets_received = 0, em_packets_processed = 0, em_packets_dropped = 0, em_packets_forwarded = 0,
     em_bytes_received = 0, em_bytes_processed = 0, em_bytes_forwarded = 0, em_malformed_packets = 0,
     em_queue_full = 0, em_buffer_exhausted = 0, em_active_flows = 0, em_action_pass = 0, em_action_drop = 0,
     em_action_modify = 0, em_action_reinject = 0,
     em_packet_processing_time_ns = histogram_new [1000, 5000, 10000, 50000, 100000, 500000, 1000000, 5000000, 10000000] \<rparr>"

definition engine_metrics_reset :: "engine_metrics \<Rightarrow> engine_metrics" where
  "engine_metrics_reset m = m\<lparr>
     em_packets_received := 0, em_packets_processed := 0, em_packets_dropped := 0, em_packets_forwarded := 0,
     em_bytes_received := 0, em_bytes_processed := 0, em_bytes_forwarded := 0, em_malformed_packets := 0,
     em_queue_full := 0, em_buffer_exhausted := 0, em_active_flows := 0, em_action_pass := 0,
     em_action_drop := 0, em_action_modify := 0, em_action_reinject := 0,
     em_packet_processing_time_ns := histogram_reset (em_packet_processing_time_ns m) \<rparr>"

record engine_metrics_snapshot =
  ms_packets_received :: u64
  ms_packets_processed :: u64
  ms_packets_dropped :: u64
  ms_packets_forwarded :: u64
  ms_bytes_received :: u64
  ms_bytes_processed :: u64
  ms_bytes_forwarded :: u64
  ms_malformed_packets :: u64
  ms_queue_full :: u64
  ms_buffer_exhausted :: u64
  ms_active_flows :: u64
  ms_action_pass :: u64
  ms_action_drop :: u64
  ms_action_modify :: u64
  ms_action_reinject :: u64
  ms_processing_count :: u64
  ms_processing_time_sum_ns :: u64

definition engine_metrics_snapshot_of :: "engine_metrics \<Rightarrow> engine_metrics_snapshot" where
  "engine_metrics_snapshot_of m = \<lparr>
     ms_packets_received = em_packets_received m, ms_packets_processed = em_packets_processed m,
     ms_packets_dropped = em_packets_dropped m, ms_packets_forwarded = em_packets_forwarded m,
     ms_bytes_received = em_bytes_received m, ms_bytes_processed = em_bytes_processed m,
     ms_bytes_forwarded = em_bytes_forwarded m, ms_malformed_packets = em_malformed_packets m,
     ms_queue_full = em_queue_full m, ms_buffer_exhausted = em_buffer_exhausted m,
     ms_active_flows = em_active_flows m, ms_action_pass = em_action_pass m,
     ms_action_drop = em_action_drop m, ms_action_modify = em_action_modify m,
     ms_action_reinject = em_action_reinject m,
     ms_processing_count = hg_count (em_packet_processing_time_ns m),
     ms_processing_time_sum_ns = hg_sum (em_packet_processing_time_ns m) \<rparr>"

subsection \<open>Statistics (\<open>statistics.rs\<close>)\<close>

record backend_statistics =
  bst_backend_name :: string
  bst_packets_received :: u64
  bst_packets_sent :: u64
  bst_packets_dropped :: u64
  bst_packets_modified :: u64
  bst_packets_reinjected :: u64
  bst_bytes_received :: u64
  bst_bytes_sent :: u64
  bst_errors :: u64
  bst_queue_depth :: u64
  bst_active_connections :: u64

text \<open>A snapshot has the same fields, read one by one.\<close>

definition backend_statistics_new :: "string \<Rightarrow> backend_statistics" where
  "backend_statistics_new name = \<lparr>
     bst_backend_name = name, bst_packets_received = 0, bst_packets_sent = 0, bst_packets_dropped = 0,
     bst_packets_modified = 0, bst_packets_reinjected = 0, bst_bytes_received = 0, bst_bytes_sent = 0,
     bst_errors = 0, bst_queue_depth = 0, bst_active_connections = 0 \<rparr>"

datatype drop_category = Drop_HostRequested | Drop_SafetyError | Drop_BackendFailure

record engine_statistics =
  st_total_packets_received :: u64
  st_total_packets_processed :: u64
  st_total_bytes_received :: u64
  st_total_bytes_processed :: u64
  st_total_actions_applied :: u64
  st_total_reinjections :: u64
  st_total_errors :: u64
  st_packets_forwarded :: u64
  st_modifications_applied :: u64
  st_drops_host_requested :: u64
  st_drops_safety_error :: u64
  st_drops_backend_failure :: u64
  st_queue_saturation_events :: u64
  st_backend_failures :: u64
  st_backend_failovers :: u64
  st_gateway_packets_forwarded :: u64
  st_gateway_packets_dropped :: u64
  st_gateway_nat_translations :: u64
  st_gateway_route_lookups :: u64
  st_gateway_route_failures :: u64
  st_gateway_neighbor_lookups :: u64
  st_gateway_neighbor_failures :: u64

definition engine_statistics_new :: engine_statistics where
  "engine_statistics_new = \<lparr>
     st_total_packets_received = 0, st_total_packets_processed = 0, st_total_bytes_received = 0,
     st_total_bytes_processed = 0, st_total_actions_applied = 0, st_total_reinjections = 0,
     st_total_errors = 0, st_packets_forwarded = 0, st_modifications_applied = 0,
     st_drops_host_requested = 0, st_drops_safety_error = 0, st_drops_backend_failure = 0,
     st_queue_saturation_events = 0, st_backend_failures = 0, st_backend_failovers = 0,
     st_gateway_packets_forwarded = 0, st_gateway_packets_dropped = 0, st_gateway_nat_translations = 0,
     st_gateway_route_lookups = 0, st_gateway_route_failures = 0, st_gateway_neighbor_lookups = 0,
     st_gateway_neighbor_failures = 0 \<rparr>"

definition record_packet_received :: "u64 \<Rightarrow> engine_statistics \<Rightarrow> engine_statistics" where
  "record_packet_received bytes s = s\<lparr> st_total_packets_received := st_total_packets_received s + 1, st_total_bytes_received := st_total_bytes_received s + bytes \<rparr>"

definition record_packet_processed :: "u64 \<Rightarrow> engine_statistics \<Rightarrow> engine_statistics" where
  "record_packet_processed bytes s = s\<lparr> st_total_packets_processed := st_total_packets_processed s + 1, st_total_bytes_processed := st_total_bytes_processed s + bytes \<rparr>"

definition record_action_applied :: "engine_statistics \<Rightarrow> engine_statistics" where
  "record_action_applied s = s\<lparr> st_total_actions_applied := st_total_actions_applied s + 1 \<rparr>"

definition record_reinjection :: "engine_statistics \<Rightarrow> engine_statistics" where
  "record_reinjection s = s\<lparr> st_total_reinjections := st_total_reinjections s + 1 \<rparr>"

definition record_stat_error :: "engine_statistics \<Rightarrow> engine_statistics" where
  "record_stat_error s = s\<lparr> st_total_errors := st_total_errors s + 1 \<rparr>"

definition record_forwarded :: "engine_statistics \<Rightarrow> engine_statistics" where
  "record_forwarded s = s\<lparr> st_packets_forwarded := st_packets_forwarded s + 1 \<rparr>"

definition record_modification :: "engine_statistics \<Rightarrow> engine_statistics" where
  "record_modification s = s\<lparr> st_modifications_applied := st_modifications_applied s + 1 \<rparr>"

definition record_drop :: "drop_category \<Rightarrow> engine_statistics \<Rightarrow> engine_statistics" where
  "record_drop category s = (case category of
      Drop_HostRequested \<Rightarrow> s\<lparr> st_drops_host_requested := st_drops_host_requested s + 1 \<rparr>
    | Drop_SafetyError \<Rightarrow> s\<lparr> st_drops_safety_error := st_drops_safety_error s + 1 \<rparr>
    | Drop_BackendFailure \<Rightarrow> s\<lparr> st_drops_backend_failure := st_drops_backend_failure s + 1 \<rparr>)"

definition record_queue_saturation :: "engine_statistics \<Rightarrow> engine_statistics" where
  "record_queue_saturation s = s\<lparr> st_queue_saturation_events := st_queue_saturation_events s + 1 \<rparr>"

definition record_backend_failure :: "engine_statistics \<Rightarrow> engine_statistics" where
  "record_backend_failure s = s\<lparr> st_backend_failures := st_backend_failures s + 1 \<rparr>"

definition record_backend_failover :: "engine_statistics \<Rightarrow> engine_statistics" where
  "record_backend_failover s = s\<lparr> st_backend_failovers := st_backend_failovers s + 1 \<rparr>"

definition record_gateway_forward :: "engine_statistics \<Rightarrow> engine_statistics" where
  "record_gateway_forward s = s\<lparr> st_gateway_packets_forwarded := st_gateway_packets_forwarded s + 1 \<rparr>"

definition record_gateway_drop :: "engine_statistics \<Rightarrow> engine_statistics" where
  "record_gateway_drop s = s\<lparr> st_gateway_packets_dropped := st_gateway_packets_dropped s + 1 \<rparr>"

definition record_nat_translation :: "engine_statistics \<Rightarrow> engine_statistics" where
  "record_nat_translation s = s\<lparr> st_gateway_nat_translations := st_gateway_nat_translations s + 1 \<rparr>"

definition record_route_lookup :: "bool \<Rightarrow> engine_statistics \<Rightarrow> engine_statistics" where
  "record_route_lookup success s =
     (let s1 = s\<lparr> st_gateway_route_lookups := st_gateway_route_lookups s + 1 \<rparr> in
      if \<not> success then s1\<lparr> st_gateway_route_failures := st_gateway_route_failures s1 + 1 \<rparr> else s1)"

definition record_neighbor_lookup :: "bool \<Rightarrow> engine_statistics \<Rightarrow> engine_statistics" where
  "record_neighbor_lookup success s =
     (let s1 = s\<lparr> st_gateway_neighbor_lookups := st_gateway_neighbor_lookups s + 1 \<rparr> in
      if \<not> success then s1\<lparr> st_gateway_neighbor_failures := st_gateway_neighbor_failures s1 + 1 \<rparr> else s1)"

record engine_statistics_snapshot =
  ss_total_packets_received :: u64
  ss_total_packets_processed :: u64
  ss_total_bytes_received :: u64
  ss_total_bytes_processed :: u64
  ss_total_actions_applied :: u64
  ss_total_reinjections :: u64
  ss_total_errors :: u64
  ss_drops_host_requested :: u64
  ss_drops_safety_error :: u64
  ss_drops_backend_failure :: u64
  ss_queue_saturation_events :: u64
  ss_backend_failures :: u64
  ss_backend_failovers :: u64
  ss_gateway_packets_forwarded :: u64
  ss_gateway_packets_dropped :: u64
  ss_gateway_nat_translations :: u64
  ss_gateway_route_lookups :: u64
  ss_gateway_route_failures :: u64
  ss_gateway_neighbor_lookups :: u64
  ss_gateway_neighbor_failures :: u64

definition engine_statistics_snapshot_of :: "engine_statistics \<Rightarrow> engine_statistics_snapshot" where
  "engine_statistics_snapshot_of s = \<lparr>
     ss_total_packets_received = st_total_packets_received s,
     ss_total_packets_processed = st_total_packets_processed s,
     ss_total_bytes_received = st_total_bytes_received s,
     ss_total_bytes_processed = st_total_bytes_processed s,
     ss_total_actions_applied = st_total_actions_applied s, ss_total_reinjections = st_total_reinjections s,
     ss_total_errors = st_total_errors s, ss_drops_host_requested = st_drops_host_requested s,
     ss_drops_safety_error = st_drops_safety_error s, ss_drops_backend_failure = st_drops_backend_failure s,
     ss_queue_saturation_events = st_queue_saturation_events s, ss_backend_failures = st_backend_failures s,
     ss_backend_failovers = st_backend_failovers s,
     ss_gateway_packets_forwarded = st_gateway_packets_forwarded s,
     ss_gateway_packets_dropped = st_gateway_packets_dropped s,
     ss_gateway_nat_translations = st_gateway_nat_translations s,
     ss_gateway_route_lookups = st_gateway_route_lookups s,
     ss_gateway_route_failures = st_gateway_route_failures s,
     ss_gateway_neighbor_lookups = st_gateway_neighbor_lookups s,
     ss_gateway_neighbor_failures = st_gateway_neighbor_failures s \<rparr>"

subsection \<open>Histograms count every observation once\<close>

primrec observe_all :: "u64 list \<Rightarrow> histogram \<Rightarrow> (unit, histogram) outcome" where
  "observe_all [] h = Ok h"
| "observe_all (v # vs) h = obind (histogram_observe v h) (observe_all vs)"

lemma bucket_index_le: "bucket_index v bs \<le> length bs"
  by (induction bs) auto

lemma bucket_index_iff:
  "sorted_wrt (<) bs \<Longrightarrow> bucket_index v bs = i \<longleftrightarrow>
     i \<le> length bs \<and> (0 < i \<longrightarrow> bs ! (i - 1) < v) \<and> (i < length bs \<longrightarrow> v \<le> bs ! i)"
proof (induction bs arbitrary: i)
  case (Cons b bs)
  then show ?case
  proof (cases i)
    case (Suc j)
    have "v \<le> (b # bs) ! j" if "v \<le> b" "j \<le> length bs"
    proof (cases j)
      case (Suc k)
      then have "b < bs ! k" using Cons.prems that(2) nth_mem [of k bs] by auto
      then show ?thesis using that(1) Suc by simp
    qed (use that in simp)
    then have "v \<le> b \<Longrightarrow> \<not> (bucket_index v bs = j \<and> (b # bs) ! j < v)"
      using bucket_index_le [of v bs] by (auto simp: not_less)
    then show ?thesis
      using Suc Cons by (cases j) (auto simp: not_le)
  qed auto
qed auto

lemma strict_sorted_remdups_adj: "sorted xs \<Longrightarrow> sorted_wrt (<) (remdups_adj xs)" for xs :: "u64 list"
proof (induction xs rule: remdups_adj.induct)
  case (3 x y xs)
  then show ?case by (auto simp: order.strict_iff_order dest: antisym)
qed auto

lemma histogram_buckets_sorted: "sorted_wrt (<) (hg_buckets (histogram_new bs))"
  by (simp add: histogram_new_def Let_def strict_sorted_remdups_adj)

definition bucket_hits :: "u64 list \<Rightarrow> u64 list \<Rightarrow> nat \<Rightarrow> nat" where
  "bucket_hits bs vs i = length (filter (\<lambda>v. bucket_index v bs = i) vs)"

definition hg_inv :: "u64 list \<Rightarrow> u64 list \<Rightarrow> histogram \<Rightarrow> bool" where
  "hg_inv bs vs h \<longleftrightarrow> hg_buckets h = bs \<and> length (hg_counts h) = Suc (length bs) \<and>
     hg_count h = of_nat (length vs) \<and> hg_sum h = sum_list vs \<and>
     (\<forall>i \<le> length bs. hg_counts h ! i = of_nat (bucket_hits bs vs i))"

lemma hg_inv_observe:
  assumes "hg_inv bs vs h"
  shows "\<exists>h'. histogram_observe v h = Ok h' \<and> hg_inv bs (vs @ [v]) h'"
proof -
  have i: "bucket_index v bs < length (hg_counts h)"
    using assms bucket_index_le [of v bs] by (simp add: hg_inv_def)
  then show ?thesis
    using assms by (auto simp: hg_inv_def histogram_observe_def bucket_hits_def nth_list_update Let_def)
qed

lemma hg_inv_observe_all:
  "hg_inv bs vs h \<Longrightarrow> \<exists>h'. observe_all ws h = Ok h' \<and> hg_inv bs (vs @ ws) h'"
proof (induction ws arbitrary: vs h)
  case (Cons w ws)
  obtain h1 where h1: "histogram_observe w h = Ok h1" "hg_inv bs (vs @ [w]) h1"
    using hg_inv_observe [OF Cons.prems] by blast
  then show ?case using Cons.IH [OF h1(2)] by simp
qed simp

lemma sum_bucket_hits: "(\<Sum>i \<le> length bs. bucket_hits bs vs i) = length vs"
proof (induction vs)
  case (Cons v vs)
  have "(\<Sum>i \<le> length bs. bucket_hits bs (v # vs) i) =
      (\<Sum>i \<le> length bs. (if bucket_index v bs = i then 1 else 0) + bucket_hits bs vs i)"
    by (intro sum.cong) (auto simp: bucket_hits_def)
  then show ?case using Cons bucket_index_le [of v bs] by (simp add: sum.distrib)
qed (simp add: bucket_hits_def)

text \<open>
  A histogram counts every observation exactly once. Observing never panics; as long as there
  are fewer than \<open>2 ^ 64\<close> observations the counter of a bucket is the number of values above the
  bound before it and not above its own, the last bucket taking the values above all bounds, and
  the bucket counters add up to the total count.
\<close>

lemma histogram_counts_exactly:
  assumes "length vs < 2 ^ 64" and "bs = hg_buckets (histogram_new buckets)"
  shows "\<exists>h. observe_all vs (histogram_new buckets) = Ok h \<and> unat (hg_count h) = length vs \<and>
    (\<Sum>i \<le> length bs. unat (hg_counts h ! i)) = unat (hg_count h) \<and>
    (\<forall>i \<le> length bs. bucket_count i h = Some (hg_counts h ! i) \<and> unat (hg_counts h ! i) =
       length (filter (\<lambda>v. (0 < i \<longrightarrow> bs ! (i - 1) < v) \<and> (i < length bs \<longrightarrow> v \<le> bs ! i)) vs))"
proof -
  have "hg_inv bs [] (histogram_new buckets)"
    by (simp add: hg_inv_def assms(2) histogram_new_def Let_def bucket_hits_def less_Suc_eq_le
        nth_Cons' del: replicate_Suc)
  then obtain h where h: "observe_all vs (histogram_new buckets) = Ok h" "hg_inv bs vs h"
    using hg_inv_observe_all by fastforce
  have small: "bucket_hits bs vs i < 2 ^ 64" for i
    using le_less_trans [OF length_filter_le assms(1)] by (simp add: bucket_hits_def)
  then have counts: "\<forall>i \<le> length bs. unat (hg_counts h ! i) = bucket_hits bs vs i"
    using h(2) by (simp add: hg_inv_def unat_of_nat take_bit_nat_eq_self)
  have total: "unat (hg_count h) = length vs"
    using h(2) assms(1) by (simp add: hg_inv_def unat_of_nat take_bit_nat_eq_self)
  have hits: "i \<le> length bs \<Longrightarrow> bucket_hits bs vs i =
      length (filter (\<lambda>v. (0 < i \<longrightarrow> bs ! (i - 1) < v) \<and> (i < length bs \<longrightarrow> v \<le> bs ! i)) vs)" for i
    using histogram_buckets_sorted [of buckets]
    by (auto simp: bucket_hits_def bucket_index_iff assms(2) intro!: arg_cong [where f = length] filter_cong)
  have "(\<Sum>i \<le> length bs. unat (hg_counts h ! i)) = unat (hg_count h)"
    using counts total sum_bucket_hits [of bs vs] by simp
  then show ?thesis
    using h counts total hits by (auto simp: hg_inv_def bucket_count_def)
qed

theorem histogram_counts_exactly_witness:
  "\<exists>h. observe_all [3, 7, 12] (histogram_new [10, 5, 10]) = Ok h \<and> unat (hg_count h) = 3"
  using histogram_counts_exactly [of "[3, 7, 12]" _ "[10, 5, 10]", OF _ refl] by auto

text \<open>A snapshot of the engine statistics does not depend on the two counters it leaves out.\<close>

lemma snapshot_omits:
  "engine_statistics_snapshot_of (record_forwarded s) = engine_statistics_snapshot_of s"
  "engine_statistics_snapshot_of (record_modification s) = engine_statistics_snapshot_of s"
  by (simp_all add: engine_statistics_snapshot_of_def record_forwarded_def record_modification_def)

end
