(* ===== verification/Metadata_Workers.thy ===== *)
theory Metadata_Workers
  imports Core_Text Tables "HOL-Library.Multiset"
begin

text \<open>
  The metadata engine: \<open>crates/metadata-engine/src/cache.rs\<close> (a bounded cache with a time to live)
  and \<open>workers.rs\<close> (a pool of worker threads, each behind a bounded channel, that publish their
  results on one bounded channel). Clock readings are arguments; the threads of the pool are a
  step relation.
\<close>

subsection \<open>The cache (\<open>cache.rs\<close>)\<close>

record cache_entry =
  ch_value :: string
  ch_inserted_at :: u64
  ch_ttl_secs :: u64

record metadata_cache =
  mc_entries :: "(string, cache_entry) hash_map"
  mc_max_entries :: usize
  mc_poisoned :: bool

definition cache_new :: "usize \<Rightarrow> metadata_cache" where
  "cache_new max_entries = \<lparr> mc_entries = [], mc_max_entries = max_entries, mc_poisoned = False \<rparr>"

definition cache_is_expired :: "cache_entry \<Rightarrow> u64 \<Rightarrow> bool" where
  "cache_is_expired e now \<longleftrightarrow> saturating_sub now (ch_inserted_at e) \<ge> ch_ttl_secs e"

definition cache_remove_expired :: "(string, cache_entry) hash_map \<Rightarrow> u64 \<Rightarrow> (string, cache_entry) hash_map" where
  "cache_remove_expired entries now = hm_retain (\<lambda>_ e. \<not> cache_is_expired e now) entries"

definition cache_get :: "u64 \<Rightarrow> string \<Rightarrow> metadata_cache \<Rightarrow> string option \<times> metadata_cache" where
  "cache_get now key c =
     (if mc_poisoned c then (None, c)
      else case hm_get key (mc_entries c) of
        None \<Rightarrow> (None, c)
      | Some e \<Rightarrow>
          if cache_is_expired e now then (None, c\<lparr> mc_entries := hm_remove key (mc_entries c) \<rparr>)
          else (Some (ch_value e), c))"

text \<open>The oldest entry, the first of several in iteration order (\<open>min_by_key\<close>), makes room.\<close>

definition cache_evict :: "usize \<Rightarrow> (string, cache_entry) hash_map \<Rightarrow> (string, cache_entry) hash_map" where
  "cache_evict max_entries entries =
     (if length entries \<ge> max_entries then
        (case min_by (cmp_by (\<lambda>p. ch_inserted_at (snd p))) entries of
           Some (k, _) \<Rightarrow> hm_remove k entries
         | None \<Rightarrow> entries)
      else entries)"

definition cache_insert :: "u64 \<Rightarrow> string \<Rightarrow> string \<Rightarrow> u64 \<Rightarrow> metadata_cache \<Rightarrow> metadata_cache" where
  "cache_insert now key value ttl_secs c =
     (let e = \<lparr> ch_value = value, ch_inserted_at = now, ch_ttl_secs = ttl_secs \<rparr> in
      if mc_max_entries c = 0 then c
      else if mc_poisoned c then c
      else if hm_contains key (mc_entries c) then c\<lparr> mc_entries := hm_insert key e (mc_entries c) \<rparr>
      else c\<lparr> mc_entries := hm_insert key e (cache_evict (mc_max_entries c) (cache_remove_expired (mc_entries c) now)) \<rparr>)"

definition cache_remove :: "string \<Rightarrow> metadata_cache \<Rightarrow> bool \<times> metadata_cache" where
  "cache_remove key c =
     (if mc_poisoned c then (False, c)
      else (hm_contains key (mc_entries c), c\<lparr> mc_entries := hm_remove key (mc_entries c) \<rparr>))"

definition cache_clear :: "metadata_cache \<Rightarrow> metadata_cache" where
  "cache_clear c = (if mc_poisoned c then c else c\<lparr> mc_entries := [] \<rparr>)"

definition cache_len :: "metadata_cache \<Rightarrow> usize" where
  "cache_len c = (if mc_poisoned c then 0 else length (mc_entries c))"

subsection \<open>The worker pool (\<open>workers.rs\<close>)\<close>

datatype work_item = Reverse_Dns_Lookup observation_id ip_addr

datatype work_result = Reverse_Dns_Result observation_id ip_addr "string option"

primrec process_item :: "work_item \<Rightarrow> work_result" where
  "process_item (Reverse_Dns_Lookup oid address) = Reverse_Dns_Result oid address None"

text \<open>
  A worker thread waits for an item, or is sending a result, or has left its loop. Its channel
  belongs to it: once it has finished, the receiver is gone.
\<close>

datatype worker_phase = Ph_Idle | Ph_Sending work_result | Ph_Finished

record worker =
  wk_active :: bool
  wk_queue :: "work_item list"
  wk_phase :: worker_phase

record worker_pool =
  wp_workers :: "worker list"
  wp_admitting :: bool
  wp_capacity :: usize
  wp_next_worker :: usize
  wp_results :: "work_result list"
  wp_result_capacity :: usize
  wp_results_poisoned :: bool

definition pool_with_queue_capacity :: "usize \<Rightarrow> usize \<Rightarrow> worker_pool" where
  "pool_with_queue_capacity n_workers queue_capacity =
     (let worker_count = max n_workers 1; capacity = max queue_capacity 1 in
      \<lparr> wp_workers = replicate worker_count \<lparr> wk_active = True, wk_queue = [], wk_phase = Ph_Idle \<rparr>,
        wp_admitting = True, wp_capacity = capacity, wp_next_worker = 0, wp_results = [],
        wp_result_capacity = capacity * worker_count mod 2 ^ 64, wp_results_poisoned = False \<rparr>)"

definition worker_pool_new :: "usize \<Rightarrow> worker_pool" where
  "worker_pool_new n_workers = pool_with_queue_capacity n_workers 256"

definition start_all :: "worker_pool \<Rightarrow> worker_pool" where
  "start_all p = p\<lparr> wp_workers := map (\<lambda>w. w\<lparr> wk_active := True \<rparr>) (wp_workers p) \<rparr>"

datatype try_send_error = Send_Full work_item | Send_Disconnected work_item

definition try_send :: "nat \<Rightarrow> work_item \<Rightarrow> worker_pool \<Rightarrow> (try_send_error + unit) \<times> worker_pool" where
  "try_send i item p =
     (let w = wp_workers p ! i in
      if wk_phase w = Ph_Finished then (Inl (Send_Disconnected item), p)
      else if length (wk_queue w) \<ge> wp_capacity p then (Inl (Send_Full item), p)
      else (Inr (), p\<lparr> wp_workers := (wp_workers p)[i := w\<lparr> wk_queue := wk_queue w @ [item] \<rparr>] \<rparr>))"

fun enqueue_loop ::
  "nat \<Rightarrow> nat list \<Rightarrow> bool \<Rightarrow> work_item \<Rightarrow> worker_pool \<Rightarrow> (try_send_error + unit) \<times> worker_pool" where
  "enqueue_loop start [] saw_full item p =
     (Inl (if saw_full then Send_Full item else Send_Disconnected item), p)"
| "enqueue_loop start (offset # offsets) saw_full item p =
     (case try_send ((start + offset) mod length (wp_workers p)) item p of
        (Inr _, p') \<Rightarrow> (Inr (), p')
      | (Inl (Send_Full returned), _) \<Rightarrow> enqueue_loop start offsets True returned p
      | (Inl (Send_Disconnected returned), _) \<Rightarrow> enqueue_loop start offsets saw_full returned p)"

definition enqueue :: "work_item \<Rightarrow> worker_pool \<Rightarrow> (try_send_error + unit) \<times> worker_pool" where
  "enqueue item p =
     (if \<not> wp_admitting p then (Inl (Send_Disconnected item), p)
      else let p1 = p\<lparr> wp_next_worker := uadd (wp_next_worker p) 1 \<rparr>; n = length (wp_workers p) in
        enqueue_loop (wp_next_worker p mod n) [0..<n] False item p1)"

text \<open>\<open>try_recv_result\<close>: an error (\<open>Inl\<close>) if the lock is poisoned or all workers are gone and nothing is left.\<close>

definition try_recv_result :: "worker_pool \<Rightarrow> (unit + work_result option) \<times> worker_pool" where
  "try_recv_result p =
     (if wp_results_poisoned p then (Inl (), p)
      else case wp_results p of
        r # rs \<Rightarrow> (Inr (Some r), p\<lparr> wp_results := rs \<rparr>)
      | [] \<Rightarrow> if list_all (\<lambda>w. wk_phase w = Ph_Finished) (wp_workers p) then (Inl (), p) else (Inr None, p))"

definition drain_results :: "worker_pool \<Rightarrow> worker_pool" where
  "drain_results p = (if wp_results_poisoned p then p else p\<lparr> wp_results := [] \<rparr>)"

definition active_count :: "worker_pool \<Rightarrow> nat" where
  "active_count p = length (filter wk_active (wp_workers p))"

text \<open>The part of \<open>stop_all\<close> before the waiting loop: no active worker, no sender.\<close>

definition close_admission :: "worker_pool \<Rightarrow> worker_pool" where
  "close_admission p =
     p\<lparr> wp_workers := map (\<lambda>w. w\<lparr> wk_active := False \<rparr>) (wp_workers p), wp_admitting := False \<rparr>"

text \<open>
  The steps of worker thread \<open>i\<close>: take an item and compute its result; publish the result as soon
  as the channel has room; leave the loop when the channel is empty and its sender is gone. A
  timeout of \<open>recv_timeout\<close> changes nothing.
\<close>

definition set_worker :: "nat \<Rightarrow> worker \<Rightarrow> worker_pool \<Rightarrow> worker_pool" where
  "set_worker i w p = p\<lparr> wp_workers := (wp_workers p)[i := w] \<rparr>"

inductive worker_step :: "worker_pool \<Rightarrow> worker_pool \<Rightarrow> bool" where
  wk_recv: "i < length (wp_workers p) \<Longrightarrow> w = wp_workers p ! i \<Longrightarrow> wk_phase w = Ph_Idle \<Longrightarrow> wk_queue w = x # xs \<Longrightarrow>
    worker_step p (set_worker i (w\<lparr> wk_queue := xs, wk_phase := Ph_Sending (process_item x) \<rparr>) p)"
| wk_send: "i < length (wp_workers p) \<Longrightarrow> w = wp_workers p ! i \<Longrightarrow> wk_phase w = Ph_Sending r \<Longrightarrow>
    length (wp_results p) < wp_result_capacity p \<Longrightarrow>
    worker_step p ((set_worker i (w\<lparr> wk_phase := Ph_Idle \<rparr>) p)\<lparr> wp_results := wp_results p @ [r] \<rparr>)"
| wk_exit: "i < length (wp_workers p) \<Longrightarrow> w = wp_workers p ! i \<Longrightarrow> wk_phase w = Ph_Idle \<Longrightarrow> wk_queue w = [] \<Longrightarrow>
    \<not> wp_admitting p \<Longrightarrow> worker_step p (set_worker i (w\<lparr> wk_phase := Ph_Finished \<rparr>) p)"


subsection \<open>The cache keeps its bound and what it was given\<close>

definition cache_ok :: "metadata_cache \<Rightarrow> bool" where
  "cache_ok c \<longleftrightarrow> hm_wf (mc_entries c) \<and> length (mc_entries c) \<le> mc_max_entries c"

lemma cache_new_ok: "cache_ok (cache_new n)"
  by (simp add: cache_ok_def cache_new_def hm_wf_def)

lemma cache_remove_expired_wf: "hm_wf m \<Longrightarrow> hm_wf (cache_remove_expired m now)"
  by (simp add: cache_remove_expired_def hm)

lemma cache_evict_wf: "hm_wf m \<Longrightarrow> hm_wf (cache_evict n m)"
  by (auto simp: cache_evict_def hm split: option.splits)

lemma cache_evict_cases:
  assumes "hm_wf m"
  obtains (room) "length m < n" "cache_evict n m = m"
  | (empty) "m = []" "cache_evict n m = []"
  | (oldest) k e where "n \<le> length m" "hm_get k m = Some e" "cache_evict n m = hm_remove k m"
      "\<And>k' e'. hm_get k' m = Some e' \<Longrightarrow> ch_inserted_at e \<le> ch_inserted_at e'"
proof (cases "min_by (cmp_by (\<lambda>p. ch_inserted_at (snd p))) m")
  case None
  then show thesis using room empty by (cases "length m < n") (auto simp: cache_evict_def)
next
  case (Some ke)
  obtain k e where ke: "ke = (k, e)" by force
  have best: "(k, e) \<in> set m" "\<And>y. y \<in> set m \<Longrightarrow> ch_inserted_at e \<le> ch_inserted_at (snd y)"
    using comparison.min_by_spec [OF comparison_cmp_by Some] by (auto simp: ke cmp_by_def split: if_splits)
  show thesis
  proof (cases "length m < n")
    case True
    then show thesis using room by (simp add: cache_evict_def)
  next
    case False
    then show thesis
      using Some ke best assms by (intro oldest [of k e]) (force simp: cache_evict_def hm_get_in_set)+
  qed
qed

lemma cache_evict_length: "hm_wf m \<Longrightarrow> length m \<le> n \<Longrightarrow> 0 < n \<Longrightarrow> length (cache_evict n m) < n"
  by (rule cache_evict_cases [of m n]) (use length_hm_remove_present in \<open>force+\<close>)

text \<open>The entries an insertion of a new key starts from: no expired ones, and one place free.\<close>

definition cache_room :: "u64 \<Rightarrow> metadata_cache \<Rightarrow> (string, cache_entry) hash_map" where
  "cache_room now c = cache_evict (mc_max_entries c) (cache_remove_expired (mc_entries c) now)"

lemma cache_room_ok:
  assumes "cache_ok c" and "0 < mc_max_entries c"
  shows "hm_wf (cache_room now c)" and "length (cache_room now c) < mc_max_entries c"
proof -
  have "length (cache_remove_expired (mc_entries c) now) \<le> mc_max_entries c"
    using assms(1) length_hm_retain le_trans unfolding cache_ok_def cache_remove_expired_def by blast
  with assms show "hm_wf (cache_room now c)" "length (cache_room now c) < mc_max_entries c"
    by (auto simp: cache_room_def cache_ok_def cache_evict_wf cache_remove_expired_wf cache_evict_length)
qed

lemma cache_room_dropped:
  assumes "cache_ok c" and "hm_get k (mc_entries c) = Some e" and "hm_get k (cache_room now c) \<noteq> Some e"
    and "hm_get k' (mc_entries c) = Some e'" and "\<not> cache_is_expired e' now" and "\<not> cache_is_expired e now"
  shows "ch_inserted_at e \<le> ch_inserted_at e'"
proof -
  let ?m = "cache_remove_expired (mc_entries c) now"
  have wf: "hm_wf (mc_entries c)" using assms(1) by (simp add: cache_ok_def)
  have kept: "hm_get k ?m = Some e" "hm_get k' ?m = Some e'"
    using assms by (auto simp: cache_remove_expired_def hm_get_retain [OF wf])
  show ?thesis
    by (rule cache_evict_cases [OF cache_remove_expired_wf [OF wf, of now], of "mc_max_entries c"])
      (use assms(3) kept in \<open>auto simp: cache_room_def hm split: if_splits\<close>)
qed

lemma cache_insert_entries:
  "mc_entries (cache_insert now key value ttl c) =
     (if mc_max_entries c = 0 \<or> mc_poisoned c then mc_entries c
      else hm_insert key \<lparr> ch_value = value, ch_inserted_at = now, ch_ttl_secs = ttl \<rparr>
        (if hm_contains key (mc_entries c) then mc_entries c else cache_room now c))"
  by (simp add: cache_insert_def cache_room_def Let_def)

lemma cache_insert_config [simp]:
  "mc_max_entries (cache_insert now key value ttl c) = mc_max_entries c"
  "mc_poisoned (cache_insert now key value ttl c) = mc_poisoned c"
  by (simp_all add: cache_insert_def Let_def)

lemma cache_insert_ok: "cache_ok c \<Longrightarrow> cache_ok (cache_insert now key value ttl c)"
  using cache_room_ok [of c now]
  by (auto simp: cache_ok_def [of "cache_insert now key value ttl c"] cache_insert_entries hm cache_ok_def [of c])

text \<open>
  the cache. It never holds more than \<open>max_entries\<close> entries; a value that was inserted is what
  \<open>get\<close> returns until its time to live has passed, and nothing after; and an insertion drops no
  other entry except those that have expired, or the oldest of those left when the cache is full.
\<close>
lemma cache_keeps_fresh_entries:
  assumes "cache_ok c" and "0 < mc_max_entries c" and "\<not> mc_poisoned c"
  shows "cache_ok (cache_insert now key value ttl c) \<and>
    fst (cache_get t key (cache_insert now key value ttl c)) =
      (if saturating_sub t now < ttl then Some value else None) \<and>
    (\<forall>k e. k \<noteq> key \<and> hm_get k (mc_entries c) = Some e \<and>
       hm_get k (mc_entries (cache_insert now key value ttl c)) \<noteq> Some e \<longrightarrow>
       cache_is_expired e now \<or>
       (\<forall>k' e'. hm_get k' (mc_entries c) = Some e' \<and> \<not> cache_is_expired e' now \<longrightarrow>
          ch_inserted_at e \<le> ch_inserted_at e'))"
proof (intro conjI allI impI)
  show "cache_ok (cache_insert now key value ttl c)" using assms(1) by (rule cache_insert_ok)
  show "fst (cache_get t key (cache_insert now key value ttl c)) =
      (if saturating_sub t now < ttl then Some value else None)"
    using assms by (simp add: cache_get_def cache_insert_entries hm cache_is_expired_def linorder_not_less)
next
  fix k e
  assume k: "k \<noteq> key \<and> hm_get k (mc_entries c) = Some e \<and>
       hm_get k (mc_entries (cache_insert now key value ttl c)) \<noteq> Some e"
  then have "hm_get k (cache_room now c) \<noteq> Some e"
    using assms by (auto simp: cache_insert_entries hm split: if_splits)
  with k show "cache_is_expired e now \<or>
       (\<forall>k' e'. hm_get k' (mc_entries c) = Some e' \<and> \<not> cache_is_expired e' now \<longrightarrow>
          ch_inserted_at e \<le> ch_inserted_at e')"
    using cache_room_dropped [OF assms(1)] by blast
qed

definition demo_cache :: metadata_cache where
  "demo_cache = cache_insert 12 ''b'' ''B'' 100 (cache_insert 10 ''a'' ''A'' 100 (cache_new 2))"

theorem cache_keeps_fresh_entries_witness:
  "fst (cache_get 15 ''c'' (cache_insert 14 ''c'' ''C'' 5 demo_cache)) = Some ''C'' \<and>
   fst (cache_get 19 ''c'' (cache_insert 14 ''c'' ''C'' 5 demo_cache)) = None \<and>
   fst (cache_get 15 ''a'' (cache_insert 14 ''c'' ''C'' 5 demo_cache)) = None"
proof -
  have ok: "cache_ok demo_cache" "0 < mc_max_entries demo_cache" "\<not> mc_poisoned demo_cache" by code_simp+
  have "fst (cache_get 15 ''a'' (cache_insert 14 ''c'' ''C'' 5 demo_cache)) = None" by code_simp
  then show ?thesis
    using cache_keeps_fresh_entries [OF ok, of 14 "''c''" "''C''" 5 15]
      cache_keeps_fresh_entries [OF ok, of 14 "''c''" "''C''" 5 19]
    by (simp add: saturating_sub_def)
qed


subsection \<open>No accepted work is lost\<close>

text \<open>
  Work the pool still owes: the results of the queued items, those being sent, and those
  published and not yet taken.
\<close>

definition worker_pending :: "worker \<Rightarrow> work_result multiset" where
  "worker_pending w = mset (map process_item (wk_queue w)) +
     (case wk_phase w of Ph_Sending r \<Rightarrow> {#r#} | _ \<Rightarrow> {#})"

definition pool_pending :: "worker_pool \<Rightarrow> work_result multiset" where
  "pool_pending p = sum_list (map worker_pending (wp_workers p))"

definition pool_owed :: "worker_pool \<Rightarrow> work_result multiset" where
  "pool_owed p = pool_pending p + mset (wp_results p)"

definition pool_ok :: "worker_pool \<Rightarrow> bool" where
  "pool_ok p \<longleftrightarrow> 0 < wp_result_capacity p \<and> \<not> wp_results_poisoned p \<and> wp_workers p \<noteq> [] \<and>
     length (wp_results p) \<le> wp_result_capacity p \<and>
     (\<forall>w \<in> set (wp_workers p). length (wk_queue w) \<le> wp_capacity p \<and>
        (wk_phase w = Ph_Finished \<longrightarrow> wk_queue w = [] \<and> \<not> wp_admitting p))"

lemma sum_list_update:
  fixes f :: "'a \<Rightarrow> 'b::cancel_comm_monoid_add"
  shows "i < length xs \<Longrightarrow> sum_list (map f (xs[i := x])) + f (xs ! i) = sum_list (map f xs) + f x"
proof (induction xs arbitrary: i)
  case (Cons y ys)
  show ?case
  proof (cases i)
    case (Suc j)
    then show ?thesis using Cons by (simp add: add.assoc)
  qed (simp add: ac_simps)
qed simp

lemma pool_pending_update:
  "i < length (wp_workers p) \<Longrightarrow>
     pool_pending (set_worker i w p) + worker_pending (wp_workers p ! i) = pool_pending p + worker_pending w"
  by (simp add: pool_pending_def set_worker_def sum_list_update)

lemma set_worker_simps [simp]:
  "wp_results (set_worker i w p) = wp_results p"
  "wp_capacity (set_worker i w p) = wp_capacity p"
  "wp_admitting (set_worker i w p) = wp_admitting p"
  "wp_result_capacity (set_worker i w p) = wp_result_capacity p"
  "wp_results_poisoned (set_worker i w p) = wp_results_poisoned p"
  "wp_workers (set_worker i w p) = (wp_workers p)[i := w]"
  by (simp_all add: set_worker_def)

lemma pool_pending_results [simp]:
  "pool_pending (p\<lparr> wp_results := rs \<rparr>) = pool_pending p"
  "pool_pending (p\<lparr> wp_next_worker := n \<rparr>) = pool_pending p"
  by (simp_all add: pool_pending_def)

lemma pool_ok_set_worker:
  "pool_ok p \<Longrightarrow> length (wk_queue w) \<le> wp_capacity p \<Longrightarrow>
     (wk_phase w = Ph_Finished \<Longrightarrow> wk_queue w = [] \<and> \<not> wp_admitting p) \<Longrightarrow> pool_ok (set_worker i w p)"
  by (auto simp: pool_ok_def dest: set_update_subset_insert [THEN subsetD])

lemma worker_step_owed: "worker_step p q \<Longrightarrow> pool_owed q = pool_owed p"
proof (induction rule: worker_step.induct)
  case (wk_recv i p w x xs)
  then show ?case
    using pool_pending_update [of i p "w\<lparr> wk_queue := xs, wk_phase := Ph_Sending (process_item x) \<rparr>"]
    by (simp add: pool_owed_def worker_pending_def)
next
  case (wk_send i p w r)
  then show ?case
    using pool_pending_update [of i p "w\<lparr> wk_phase := Ph_Idle \<rparr>"]
    by (simp add: pool_owed_def worker_pending_def)
next
  case (wk_exit i p w)
  then show ?case
    using pool_pending_update [of i p "w\<lparr> wk_phase := Ph_Finished \<rparr>"]
    by (simp add: pool_owed_def worker_pending_def)
qed

lemma worker_step_ok: "worker_step p q \<Longrightarrow> pool_ok p \<Longrightarrow> pool_ok q"
proof (induction rule: worker_step.induct)
  case (wk_recv i p w x xs)
  then show ?case by (intro pool_ok_set_worker) (auto simp: pool_ok_def dest!: nth_mem)
next
  case (wk_send i p w r)
  then have "pool_ok (set_worker i (w\<lparr> wk_phase := Ph_Idle \<rparr>) p)"
    by (intro pool_ok_set_worker) (auto simp: pool_ok_def dest!: nth_mem)
  with wk_send show ?case by (simp add: pool_ok_def)
next
  case (wk_exit i p w)
  then show ?case by (intro pool_ok_set_worker) (auto simp: pool_ok_def)
qed

lemma try_send_set_worker:
  "try_send i item p =
     (let w = wp_workers p ! i in
      if wk_phase w = Ph_Finished then (Inl (Send_Disconnected item), p)
      else if length (wk_queue w) \<ge> wp_capacity p then (Inl (Send_Full item), p)
      else (Inr (), set_worker i (w\<lparr> wk_queue := wk_queue w @ [item] \<rparr>) p))"
  by (simp add: try_send_def set_worker_def Let_def)

lemma try_send_sent:
  assumes "try_send i item p = (Inr u, q)" and "i < length (wp_workers p)"
  shows "pool_owed q = add_mset (process_item item) (pool_owed p)" and "pool_ok p \<Longrightarrow> pool_ok q"
    and "wp_admitting q = wp_admitting p"
proof -
  let ?w = "(wp_workers p ! i)\<lparr> wk_queue := wk_queue (wp_workers p ! i) @ [item] \<rparr>"
  have q: "q = set_worker i ?w p" "wk_phase (wp_workers p ! i) \<noteq> Ph_Finished"
    "length (wk_queue (wp_workers p ! i)) < wp_capacity p"
    using assms(1) by (auto simp: try_send_set_worker Let_def split: if_splits)
  show "pool_owed q = add_mset (process_item item) (pool_owed p)"
    using pool_pending_update [OF assms(2), of ?w] by (simp add: q(1) pool_owed_def worker_pending_def)
  show "pool_ok p \<Longrightarrow> pool_ok q" using q by (auto intro: pool_ok_set_worker)
  show "wp_admitting q = wp_admitting p" by (simp add: q(1))
qed

text \<open>A worker that would take one more item.\<close>

definition has_room :: "worker_pool \<Rightarrow> worker \<Rightarrow> bool" where
  "has_room p w \<longleftrightarrow> wk_phase w \<noteq> Ph_Finished \<and> length (wk_queue w) < wp_capacity p"

lemma try_send_cases:
  obtains (sent) q where "try_send i item p = (Inr (), q)" "has_room p (wp_workers p ! i)"
  | (full) "try_send i item p = (Inl (Send_Full item), p)" "\<not> has_room p (wp_workers p ! i)"
      "wk_phase (wp_workers p ! i) \<noteq> Ph_Finished"
  | (gone) "try_send i item p = (Inl (Send_Disconnected item), p)" "\<not> has_room p (wp_workers p ! i)"
      "wk_phase (wp_workers p ! i) = Ph_Finished"
  by (cases "wk_phase (wp_workers p ! i) = Ph_Finished"; cases "wp_capacity p \<le> length (wk_queue (wp_workers p ! i))")
    (auto simp: try_send_def Let_def has_room_def)

lemma enqueue_loop_spec:
  assumes "wp_workers p \<noteq> []"
  shows "enqueue_loop start offs saw item p = (r, q) \<Longrightarrow>
    (let ws = map (\<lambda>off. wp_workers p ! ((start + off) mod length (wp_workers p))) offs in
     if \<exists>w \<in> set ws. has_room p w then
       r = Inr () \<and> (\<exists>i < length (wp_workers p). try_send i item p = (Inr (), q))
     else q = p \<and> r = Inl (if saw \<or> (\<exists>w \<in> set ws. wk_phase w \<noteq> Ph_Finished) then Send_Full item else Send_Disconnected item))"
proof (induction offs arbitrary: saw)
  case (Cons off offs)
  let ?i = "(start + off) mod length (wp_workers p)"
  have i: "?i < length (wp_workers p)" using assms by simp
  show ?case
  proof (cases rule: try_send_cases [of ?i item p])
    case (sent q')
    then show ?thesis using Cons.prems i by (auto simp: Let_def)
  next
    case full
    then show ?thesis using Cons.prems Cons.IH [of True] by (auto simp: Let_def split: if_splits)
  next
    case gone
    then show ?thesis using Cons.prems Cons.IH [of saw] by (auto simp: Let_def split: if_splits)
  qed
qed simp


lemma rotation_covers:
  assumes "0 < (n::nat)"
  shows "(\<lambda>off. (start + off) mod n) ` {0..<n} = {0..<n}"
proof
  show "{0..<n} \<subseteq> (\<lambda>off. (start + off) mod n) ` {0..<n}"
  proof
    fix j assume "j \<in> {0..<n}"
    let ?off = "(j + (n - start mod n)) mod n"
    have "(start + ?off) mod n = (start mod n + (j + (n - start mod n))) mod n" by (simp add: mod_simps)
    also have "start mod n + (j + (n - start mod n)) = j + n" using less_imp_le [OF mod_less_divisor [OF assms, of start]] by simp
    also have "(j + n) mod n = j" using \<open>j \<in> {0..<n}\<close> by simp
    finally show "j \<in> (\<lambda>off. (start + off) mod n) ` {0..<n}" using assms by (intro image_eqI [of _ _ ?off]) auto
  qed
qed (use assms in auto)

lemma enqueue_visits_all:
  assumes "ws \<noteq> []"
  shows "set (map (\<lambda>off. ws ! ((start + off) mod length ws)) [0..<length ws]) = set ws"
proof -
  have "set (map (\<lambda>off. ws ! ((start + off) mod length ws)) [0..<length ws]) =
      (\<lambda>i. ws ! i) ` (\<lambda>off. (start + off) mod length ws) ` {0..<length ws}"
    by (simp add: image_image)
  also have "\<dots> = set ws" using assms by (simp add: rotation_covers) (auto simp: set_conv_nth)
  finally show ?thesis .
qed

lemma enqueue_loop_all:
  assumes "wp_workers p \<noteq> []" and "enqueue_loop start [0..<length (wp_workers p)] False item p = (r, q)"
  shows "if \<exists>w \<in> set (wp_workers p). has_room p w
     then r = Inr () \<and> (\<exists>i < length (wp_workers p). try_send i item p = (Inr (), q))
     else q = p \<and> r = Inl (if \<exists>w \<in> set (wp_workers p). wk_phase w \<noteq> Ph_Finished then Send_Full item else Send_Disconnected item)"
  using enqueue_loop_spec [OF assms] unfolding Let_def enqueue_visits_all [OF assms(1)] by simp

definition enqueue_result :: "work_item \<Rightarrow> worker_pool \<Rightarrow> try_send_error + unit" where
  "enqueue_result item p =
     (if wp_admitting p \<and> (\<exists>w \<in> set (wp_workers p). has_room p w) then Inr ()
      else if wp_admitting p then Inl (Send_Full item) else Inl (Send_Disconnected item))"

lemma pool_ok_next_worker [simp]: "pool_ok (p\<lparr> wp_next_worker := n \<rparr>) = pool_ok p"
  by (simp add: pool_ok_def)

lemma has_room_next_worker [simp]: "has_room (p\<lparr> wp_next_worker := n \<rparr>) = has_room p"
  by (simp add: has_room_def fun_eq_iff)

lemma pool_owed_next_worker [simp]: "pool_owed (p\<lparr> wp_next_worker := n \<rparr>) = pool_owed p"
  by (simp add: pool_owed_def)

lemma enqueue_exact:
  assumes ok: "pool_ok p"
  shows "fst (enqueue item p) = enqueue_result item p"
    and "pool_ok (snd (enqueue item p))"
    and "pool_owed (snd (enqueue item p)) =
      (if fst (enqueue item p) = Inr () then add_mset (process_item item) (pool_owed p) else pool_owed p)"
proof -
  have "fst (enqueue item p) = enqueue_result item p \<and> pool_ok (snd (enqueue item p)) \<and>
     pool_owed (snd (enqueue item p)) =
      (if fst (enqueue item p) = Inr () then add_mset (process_item item) (pool_owed p) else pool_owed p)"
  proof (cases "wp_admitting p")
    case False
    then show ?thesis using ok by (simp add: enqueue_def enqueue_result_def)
  next
    case True
    let ?p = "p\<lparr> wp_next_worker := uadd (wp_next_worker p) 1 \<rparr>" and ?n = "length (wp_workers p)"
    have ne: "wp_workers ?p \<noteq> []" and live: "\<And>w. w \<in> set (wp_workers p) \<Longrightarrow> wk_phase w \<noteq> Ph_Finished"
      using ok True by (auto simp: pool_ok_def)
    have e: "enqueue item p = enqueue_loop (wp_next_worker p mod ?n) [0..<?n] False item ?p"
      using True by (simp add: enqueue_def Let_def)
    obtain r q where rq: "enqueue item p = (r, q)" by force
    have spec: "if \<exists>w \<in> set (wp_workers p). has_room p w
       then r = Inr () \<and> (\<exists>i < ?n. try_send i item ?p = (Inr (), q))
       else q = ?p \<and> r = Inl (if \<exists>w \<in> set (wp_workers p). wk_phase w \<noteq> Ph_Finished then Send_Full item else Send_Disconnected item)"
      using enqueue_loop_all [OF ne, of "wp_next_worker p mod ?n" item r q] rq unfolding e by (simp cong: if_cong)
    show ?thesis
    proof (cases "\<exists>w \<in> set (wp_workers p). has_room p w")
      case True
      then obtain i where "i < ?n" "try_send i item ?p = (Inr (), q)" "r = Inr ()" using spec by auto
      then show ?thesis
        using try_send_sent [of i item ?p "()" q] ok True \<open>wp_admitting p\<close> by (simp add: rq enqueue_result_def)
    next
      case False
      then show ?thesis
        using spec ok ne live \<open>wp_admitting p\<close>
        by (cases "wp_workers p") (auto simp: rq enqueue_result_def)
    qed
  qed
  then show "fst (enqueue item p) = enqueue_result item p"
    and "pool_ok (snd (enqueue item p))"
    and "pool_owed (snd (enqueue item p)) =
      (if fst (enqueue item p) = Inr () then add_mset (process_item item) (pool_owed p) else pool_owed p)"
    by blast+
qed

text \<open>
  The pool under any interleaving of its clients and its threads; \<open>pool_run p acc del q\<close> records
  the items that \<open>enqueue\<close> accepted and the results that were taken (or drained) on the way.
\<close>

inductive pool_run :: "worker_pool \<Rightarrow> work_item multiset \<Rightarrow> work_result multiset \<Rightarrow> worker_pool \<Rightarrow> bool" where
  run_start: "pool_run p {#} {#} p"
| run_enqueue: "pool_run p acc del q \<Longrightarrow>
    pool_run p (if fst (enqueue item q) = Inr () then add_mset item acc else acc) del (snd (enqueue item q))"
| run_worker: "pool_run p acc del q \<Longrightarrow> worker_step q q' \<Longrightarrow> pool_run p acc del q'"
| run_recv: "pool_run p acc del q \<Longrightarrow> try_recv_result q = (Inr (Some r), q') \<Longrightarrow> pool_run p acc (add_mset r del) q'"
| run_recv_none: "pool_run p acc del q \<Longrightarrow> fst (try_recv_result q) \<noteq> Inr (Some r) \<Longrightarrow> pool_run p acc del q"
| run_drain: "pool_run p acc del q \<Longrightarrow> pool_run p acc (del + mset (wp_results q)) (drain_results q)"
| run_start_all: "pool_run p acc del q \<Longrightarrow> pool_run p acc del (start_all q)"
| run_close: "pool_run p acc del q \<Longrightarrow> pool_run p acc del (close_admission q)"

lemma worker_pending_active [simp]: "worker_pending (w\<lparr> wk_active := b \<rparr>) = worker_pending w"
  by (simp add: worker_pending_def)

lemma start_close_owed [simp]: "pool_owed (start_all p) = pool_owed p" "pool_owed (close_admission p) = pool_owed p"
  by (simp_all add: pool_owed_def pool_pending_def start_all_def close_admission_def o_def)

lemma start_close_ok: "pool_ok p \<Longrightarrow> pool_ok (start_all p)" "pool_ok p \<Longrightarrow> pool_ok (close_admission p)"
  by (auto simp: pool_ok_def start_all_def close_admission_def)

lemma try_recv_taken:
  "try_recv_result p = (Inr (Some r), q) \<Longrightarrow> pool_owed p = add_mset r (pool_owed q) \<and> (pool_ok p \<longrightarrow> pool_ok q)"
  by (auto simp: try_recv_result_def pool_owed_def pool_ok_def split: if_splits list.splits)

lemma drain_owed: "pool_ok p \<Longrightarrow> pool_owed p = pool_owed (drain_results p) + mset (wp_results p) \<and> pool_ok (drain_results p)"
  by (simp add: drain_results_def pool_owed_def pool_ok_def)

lemma pool_run_owed:
  "pool_run p acc del q \<Longrightarrow> pool_ok p \<Longrightarrow>
     pool_ok q \<and> pool_owed p + image_mset process_item acc = del + pool_owed q"
proof (induction rule: pool_run.induct)
  case (run_enqueue p acc del q item)
  then show ?case using enqueue_exact [of q item] by simp
next
  case (run_worker p acc del q q')
  then show ?case using worker_step_owed worker_step_ok by metis
next
  case (run_recv p acc del q r q')
  then show ?case using try_recv_taken [of q r q'] by simp
next
  case (run_drain p acc del q)
  then show ?case using drain_owed [of q] by (simp add: ac_simps)
qed (simp_all add: start_close_ok)

lemma pool_new_ok:
  assumes "max capacity 1 * max workers 1 < 2 ^ 64"
  shows "pool_ok (pool_with_queue_capacity workers capacity)"
    and "pool_owed (pool_with_queue_capacity workers capacity) = {#}"
proof -
  have "0 < max capacity 1 * max workers 1" by (simp add: max_def)
  then show "pool_ok (pool_with_queue_capacity workers capacity)"
    using assms by (simp add: pool_ok_def pool_with_queue_capacity_def Let_def max_def)
  have "sum_list (map worker_pending (replicate n \<lparr> wk_active = True, wk_queue = [], wk_phase = Ph_Idle \<rparr>)) = {#}" for n
    by (induction n) (simp_all add: worker_pending_def)
  then show "pool_owed (pool_with_queue_capacity workers capacity) = {#}"
    by (simp add: pool_owed_def pool_pending_def pool_with_queue_capacity_def Let_def)
qed


text \<open>
  C21: no work is lost or made up. Whatever the interleaving of clients and worker threads (and of
  a shutdown), the items that \<open>enqueue\<close> accepted are, as a multiset, exactly those whose results
  were taken plus those still owed; queues and result channel stay within their capacities.
\<close>
theorem no_accepted_work_lost:
  assumes "max capacity 1 * max workers 1 < 2 ^ 64"
    and "pool_run (pool_with_queue_capacity workers capacity) acc del q"
  shows "image_mset process_item acc = del + pool_owed q \<and> pool_ok q"
  using pool_run_owed [OF assms(2) pool_new_ok(1) [OF assms(1)]] pool_new_ok(2) [OF assms(1)] by simp

definition demo_item :: work_item where
  "demo_item = Reverse_Dns_Lookup 7 (V4 0x08080808)"

definition demo_pool :: worker_pool where
  "demo_pool = pool_with_queue_capacity 2 1"

definition demo_pool_sent :: worker_pool where
  "demo_pool_sent = (\<lparr> wp_workers = [ \<lparr> wk_active = True, wk_queue = [demo_item], wk_phase = Ph_Idle \<rparr>,
       \<lparr> wk_active = True, wk_queue = [], wk_phase = Ph_Idle \<rparr> ],
     wp_admitting = True, wp_capacity = 1, wp_next_worker = 1, wp_results = [],
     wp_result_capacity = 2, wp_results_poisoned = False \<rparr>)"

lemma demo_enqueue: "enqueue demo_item demo_pool = (Inr (), demo_pool_sent)"
proof -
  have two: "replicate 2 x = [x, x]" for x :: worker by (simp add: numeral_2_eq_2)
  have pool: "demo_pool = demo_pool_sent\<lparr> wp_next_worker := 0,
      wp_workers := replicate 2 \<lparr> wk_active = True, wk_queue = [], wk_phase = Ph_Idle \<rparr> \<rparr>"
    by (simp add: demo_pool_def demo_pool_sent_def pool_with_queue_capacity_def two)
  have upt: "[0..<2] = [0, 1 :: nat]" by (simp add: upt_rec)
  show ?thesis by (simp add: pool enqueue_def Let_def demo_pool_sent_def try_send_def uadd_def two upt)
qed

lemma demo_run: "pool_run demo_pool {#demo_item#} {#} (snd (enqueue demo_item demo_pool))"
  using run_enqueue [OF run_start, of demo_pool demo_item] by (simp add: demo_enqueue)

theorem no_accepted_work_lost_witness:
  "pool_owed (snd (enqueue demo_item demo_pool)) = {# Reverse_Dns_Result 7 (V4 0x08080808) None #}"
  using no_accepted_work_lost [OF _ demo_run [unfolded demo_pool_def]]
  by (simp add: demo_item_def demo_pool_def)

subsection \<open>Shutdown terminates\<close>

text \<open>
  What is left to do for a worker: two steps for a queued item, one for a result in hand, one to
  leave its loop.
\<close>

definition worker_left :: "worker \<Rightarrow> nat" where
  "worker_left w = 2 * length (wk_queue w) +
     (case wk_phase w of Ph_Idle \<Rightarrow> 1 | Ph_Sending _ \<Rightarrow> 2 | Ph_Finished \<Rightarrow> 0)"

definition pool_left :: "worker_pool \<Rightarrow> nat" where
  "pool_left p = sum_list (map worker_left (wp_workers p))"

lemma pool_left_update:
  "i < length (wp_workers p) \<Longrightarrow> Suc (worker_left w) = worker_left (wp_workers p ! i) \<Longrightarrow>
     Suc (pool_left (set_worker i w p)) = pool_left p"
  using sum_list_update [of i "wp_workers p" worker_left w] by (simp add: pool_left_def)

lemma worker_step_left: "worker_step p q \<Longrightarrow> Suc (pool_left q) = pool_left p"
proof (induction rule: worker_step.induct)
  case (wk_recv i p w x xs)
  then show ?case by (intro pool_left_update) (simp_all add: worker_left_def)
next
  case (wk_send i p w r)
  then have "Suc (pool_left (set_worker i (w\<lparr> wk_phase := Ph_Idle \<rparr>) p)) = pool_left p"
    by (intro pool_left_update) (simp_all add: worker_left_def)
  then show ?case by (simp add: pool_left_def)
next
  case (wk_exit i p w)
  then show ?case by (intro pool_left_update) (simp_all add: worker_left_def)
qed

lemma worker_step_admitting: "worker_step p q \<Longrightarrow> wp_admitting q = wp_admitting p"
  by (induction rule: worker_step.induct) simp_all

text \<open>
  The waiting loop of \<open>stop_all\<close>: worker threads run, and the caller drains the results from time
  to time; \<open>n\<close> counts the steps of the workers.
\<close>

inductive stopping :: "worker_pool \<Rightarrow> nat \<Rightarrow> worker_pool \<Rightarrow> bool" where
  stop_start: "stopping p 0 (close_admission p)"
| stop_worker: "stopping p n q \<Longrightarrow> worker_step q q' \<Longrightarrow> stopping p (Suc n) q'"
| stop_drain: "stopping p n q \<Longrightarrow> stopping p n (drain_results q)"

definition all_finished :: "worker_pool \<Rightarrow> bool" where
  "all_finished p \<longleftrightarrow> list_all (\<lambda>w. wk_phase w = Ph_Finished) (wp_workers p)"

lemma worker_left_active [simp]: "worker_left (w\<lparr> wk_active := b \<rparr>) = worker_left w"
  by (simp add: worker_left_def)

lemma pool_left_close: "pool_left (close_admission p) = pool_left p"
  by (simp add: pool_left_def close_admission_def o_def)

lemma drain_keeps [simp]:
  "wp_workers (drain_results p) = wp_workers p" "wp_admitting (drain_results p) = wp_admitting p"
  "wp_result_capacity (drain_results p) = wp_result_capacity p"
  by (simp_all add: drain_results_def)

lemma stopping_inv:
  "stopping p n q \<Longrightarrow> pool_ok p \<Longrightarrow> pool_ok q \<and> \<not> wp_admitting q \<and> n + pool_left q = pool_left p"
proof (induction rule: stopping.induct)
  case (stop_start p)
  then show ?case by (simp add: start_close_ok pool_left_close) (simp add: close_admission_def)
next
  case (stop_worker p n q q')
  then show ?case using worker_step_ok worker_step_admitting worker_step_left by fastforce
next
  case (stop_drain p n q)
  then show ?case using drain_owed [of q] by (simp add: pool_left_def)
qed

lemma finished_owes_nothing:
  assumes "pool_ok p" and "all_finished p"
  shows "pool_pending p = {#}"
proof -
  have "worker_pending w = {#}" if "w \<in> set (wp_workers p)" for w
    using that assms by (auto simp: pool_ok_def all_finished_def list_all_iff worker_pending_def)
  then show ?thesis by (simp add: pool_pending_def cong: map_cong)
qed

lemma unfinished_can_step:
  assumes "pool_ok p" and "\<not> wp_admitting p" and "\<not> all_finished p"
  shows "\<exists>q. worker_step (drain_results p) q"
proof -
  let ?d = "drain_results p"
  have room: "length (wp_results ?d) < wp_result_capacity ?d"
    using assms(1) by (simp add: pool_ok_def drain_results_def)
  obtain i where i: "i < length (wp_workers ?d)" "wk_phase (wp_workers ?d ! i) \<noteq> Ph_Finished"
    using assms(3) by (auto simp: all_finished_def list_all_length)
  show ?thesis
  proof (cases "wk_phase (wp_workers ?d ! i)")
    case Ph_Idle
    then show ?thesis
      using wk_recv [OF i(1) refl Ph_Idle] wk_exit [OF i(1) refl Ph_Idle] assms(2)
      by (cases "wk_queue (wp_workers ?d ! i)") auto
  next
    case (Ph_Sending r)
    then show ?thesis using wk_send [OF i(1) refl Ph_Sending room] by blast
  qed (use i in simp)
qed

text \<open>
  C22: \<open>stop_all\<close> terminates and abandons nothing. From the moment admission is closed the workers
  take at most as many steps as they have work left, however they interleave with the draining
  caller; as long as one of them runs, a drain leaves some worker able to step; and when all have
  finished, every accepted item has been processed and its result published.
\<close>
theorem shutdown_terminates:
  assumes "pool_ok p" and "stopping p n q"
  shows "n + pool_left q = pool_left p \<and>
    (if all_finished q then pool_pending q = {#} else \<exists>q'. worker_step (drain_results q) q')"
  using stopping_inv [OF assms(2,1)] finished_owes_nothing unfinished_can_step by simp

theorem shutdown_terminates_witness:
  "\<exists>q'. worker_step (drain_results (close_admission demo_pool_sent)) q'"
proof -
  have "pool_ok demo_pool_sent" "\<not> all_finished (close_admission demo_pool_sent)" by code_simp+
  then show ?thesis using shutdown_terminates [OF _ stop_start, of demo_pool_sent] by simp
qed

end
