(* ===== verification/Processing.thy ===== *)
theory Processing
  imports Decision Bus Core_Engine Core_Metadata Core_Statistics Metadata_Workers
begin

text \<open>
  The processing pipeline of \<open>crates/ffi/src/processing.rs\<close>: an observation taken from the packet
  bus is parsed, checked against the duplicate filter, recorded in the flow table, annotated, and
  handed to the metadata workers; then its ownership is released. Here the components of the other
  theories meet. The hash of an observation (\<open>crates/correlation/src/identity.rs\<close>) uses the
  standard library's \<open>DefaultHasher\<close>, whose algorithm is unspecified: it is an argument \<open>hash\<close> of
  the definitions, and what is proved holds for every such function. Clock readings are arguments.
  The metadata workers' own steps are those of \<open>worker_step\<close>; within one call they are not
  interleaved.
\<close>

subsection \<open>Text of addresses and sources\<close>

text \<open>The \<open>Display\<close> of \<open>IpAddr\<close> and the \<open>Debug\<close> of \<open>BackendSource\<close>.\<close>

definition digit_char :: "nat \<Rightarrow> char" where
  "digit_char n = char_of (if n < 10 then 48 + n else 87 + n)"

function radix_string :: "nat \<Rightarrow> nat \<Rightarrow> string" where
  "radix_string base n =
     (if n < base \<or> base < 2 then [digit_char n] else radix_string base (n div base) @ [digit_char (n mod base)])"
  by auto
termination by (relation "measure snd") auto

definition join_with :: "string \<Rightarrow> string list \<Rightarrow> string" where
  "join_with sep xs = concat (case xs of [] \<Rightarrow> [] | y # ys \<Rightarrow> y # map (\<lambda>z. sep @ z) ys)"

definition display_ipv4 :: "u32 \<Rightarrow> string" where
  "display_ipv4 a = join_with ''.'' (map (\<lambda>b. radix_string 10 (unat b)) (octets4 a))"

definition segments16 :: "u128 \<Rightarrow> u16 list" where
  "segments16 a = map (\<lambda>i. ucast (drop_bit (16 * i) a)) (rev [0..<8])"

text \<open>The first of the longest runs of zero segments: start and length.\<close>

fun zero_span :: "u16 list \<Rightarrow> nat \<Rightarrow> nat \<times> nat \<Rightarrow> nat \<times> nat \<Rightarrow> nat \<times> nat" where
  "zero_span [] i current longest = longest"
| "zero_span (s # ss) i current longest =
     (if s = 0 then
        let current' = (if snd current = 0 then (i, 1) else (fst current, snd current + 1)) in
        zero_span ss (i + 1) current' (if snd current' > snd longest then current' else longest)
      else zero_span ss (i + 1) (0, 0) longest)"

definition display_segments :: "u16 list \<Rightarrow> string" where
  "display_segments ss = join_with '':'' (map (\<lambda>s. radix_string 16 (unat s)) ss)"

definition display_ipv6 :: "u128 \<Rightarrow> string" where
  "display_ipv6 a =
     (if drop_bit 32 a = 0xffff then ''::ffff:'' @ display_ipv4 (ucast a)
      else case zero_span (segments16 a) 0 (0, 0) (0, 0) of (start, len) \<Rightarrow>
        if len > 1 then display_segments (take start (segments16 a)) @ ''::'' @
          display_segments (drop (start + len) (segments16 a))
        else display_segments (segments16 a))"

primrec display_ip :: "ip_addr \<Rightarrow> string" where
  "display_ip (V4 a) = display_ipv4 a"
| "display_ip (V6 a) = display_ipv6 a"

primrec debug_source :: "backend_source \<Rightarrow> string" where
  "debug_source Src_Wfp = ''Wfp''"
| "debug_source Src_WinDivert = ''WinDivert''"
| "debug_source Src_Npcap = ''Npcap''"
| "debug_source Src_IpHelper = ''IpHelper''"
| "debug_source Src_Etw = ''Etw''"
| "debug_source Src_Unknown = ''Unknown''"

subsection \<open>The shared context\<close>

type_synonym observation_hash = "timestamp \<Rightarrow> usize \<Rightarrow> byte list \<Rightarrow> u64"

record observation_identity =
  oi_id :: u64
  oi_source_hash :: u64

definition from_observation :: "observation_hash \<Rightarrow> packet_observation \<Rightarrow> observation_identity" where
  "from_observation hash obs =
     \<lparr> oi_id = observation_id obs,
       oi_source_hash = hash (capture_timestamp obs) (packet_length obs) (raw_bytes (obs_packet obs)) \<rparr>"

record processing_shared =
  ps_bus :: packet_bus
  ps_flow_table :: flow_table
  ps_flow_table_poisoned :: bool
  ps_dedup :: dedup_filter
  ps_workers :: worker_pool
  ps_workers_poisoned :: bool
  ps_metadata :: metadata_store
  ps_metadata_poisoned :: bool
  ps_statistics :: engine_statistics
  ps_state :: engine_state

definition processing_error :: "string \<Rightarrow> engine_error" where
  "processing_error message = Error_Message EC_InternalError message"

definition invalid_processing_state :: "string \<Rightarrow> engine_error" where
  "invalid_processing_state message = Error_Message EC_InvalidStateTransition message"

subsection \<open>One observation\<close>

text \<open>The steps of \<open>process_observation_shared\<close>, one definition per block of the function.\<close>

definition record_in_flow_table ::
  "observation_hash \<Rightarrow> u64 \<Rightarrow> packet_observation \<Rightarrow> processing_shared \<Rightarrow> (engine_error, unit) outcome \<times> processing_shared" where
  "record_in_flow_table hash now obs s =
     (case is_duplicate (oi_source_hash (from_observation hash obs)) (ps_dedup s) of (duplicate, dedup) \<Rightarrow>
      let s1 = s\<lparr> ps_dedup := dedup \<rparr> in
      if duplicate then (Ok (), s1)
      else case to_flow_key obs of
        Panic \<Rightarrow> (Panic, s1)
      | Err e \<Rightarrow> (Err e, s1)
      | Ok None \<Rightarrow> (Ok (), s1)
      | Ok (Some flow_key) \<Rightarrow>
          if ps_flow_table_poisoned s1 then (Err (processing_error ''flow table mutex poisoned''), s1)
          else (Ok (), s1\<lparr> ps_flow_table := snd (ft_record_packet now (to_flow_engine_key flow_key) (packet_length obs)
                  (from_network_direction (obs_direction obs)) None (ps_flow_table s1)) \<rparr>))"

definition annotate_observation :: "packet_observation \<Rightarrow> metadata_store \<Rightarrow> metadata_store" where
  "annotate_observation obs m =
     (let m1 = fold (\<lambda>(key, value). store_add (observation_id obs) key value (''backend:'' @ debug_source (backend_source obs)))
                 (native_metadata obs) m in
      if provenance obs \<noteq> [] then
        store_add (observation_id obs) ''observation.provenance'' (join_with '','' (provenance obs)) ''engine'' m1
      else m1)"

definition enqueue_lookup :: "observation_id \<Rightarrow> ip_addr \<Rightarrow> processing_shared \<Rightarrow> processing_shared" where
  "enqueue_lookup oid address s =
     (case enqueue (Reverse_Dns_Lookup oid address) (ps_workers s) of
        (Inr _, p) \<Rightarrow> s\<lparr> ps_workers := p \<rparr>
      | (Inl (Send_Full _), p) \<Rightarrow> s\<lparr> ps_workers := p, ps_statistics := record_queue_saturation (ps_statistics s) \<rparr>
      | (Inl (Send_Disconnected _), p) \<Rightarrow> s\<lparr> ps_workers := p, ps_statistics := record_stat_error (ps_statistics s) \<rparr>)"

definition lookup_addresses :: "parsed_packet \<Rightarrow> ip_addr list" where
  "lookup_addresses parsed = List.map_filter id [pp_source_ip parsed, pp_destination_ip parsed]"

primrec store_result :: "work_result \<Rightarrow> metadata_store \<Rightarrow> metadata_store" where
  "store_result (Reverse_Dns_Result oid address hostname) m =
     (case hostname of
        Some h \<Rightarrow> store_add oid ''reverse_dns'' h (''dns:'' @ display_ip address) m
      | None \<Rightarrow> store_add oid ''reverse_dns.error'' ''resolution_failed'' ''dns'' m)"

function drain_metadata_results :: "processing_shared \<Rightarrow> (engine_error, unit) outcome \<times> processing_shared" where
  "drain_metadata_results s =
     (if ps_workers_poisoned s then (Err (processing_error ''metadata worker pool mutex poisoned''), s)
      else case try_recv_result (ps_workers s) of
        (Inr (Some result), p) \<Rightarrow>
          let s1 = s\<lparr> ps_workers := p \<rparr> in
          if ps_metadata_poisoned s1 then (Err (processing_error ''metadata mutex poisoned''), s1)
          else drain_metadata_results (s1\<lparr> ps_metadata := store_result result (ps_metadata s1) \<rparr>)
      | (Inr None, p) \<Rightarrow> (Ok (), s\<lparr> ps_workers := p \<rparr>)
      | (Inl _, p) \<Rightarrow> (Ok (), s\<lparr> ps_workers := p \<rparr>))"
  by auto
termination
  by (relation "measure (\<lambda>s. length (wp_results (ps_workers s)))")
    (auto simp: try_recv_result_def split: if_splits list.splits)

declare drain_metadata_results.simps [simp del]

primrec and_then ::
  "(engine_error, 'a) outcome \<times> 's \<Rightarrow> ('s \<Rightarrow> (engine_error, 'b) outcome \<times> 's) \<Rightarrow> (engine_error, 'b) outcome \<times> 's" where
  "and_then (r, s) f = (case r of Ok _ \<Rightarrow> f s | Err e \<Rightarrow> (Err e, s) | Panic \<Rightarrow> (Panic, s))"

definition process_observation_shared ::
  "observation_hash \<Rightarrow> u64 \<Rightarrow> packet_observation \<Rightarrow> processing_shared \<Rightarrow> (engine_error, unit) outcome \<times> processing_shared" where
  "process_observation_shared hash now obs s0 =
     (case pp_parse obs of
        Panic \<Rightarrow> (Panic, s0)
      | result \<Rightarrow>
        let parsed = (case result of Ok value \<Rightarrow> Some value | _ \<Rightarrow> None);
            s = (if parsed = None then s0\<lparr> ps_statistics := record_stat_error (ps_statistics s0) \<rparr> else s0) in
        and_then (record_in_flow_table hash now obs s) (\<lambda>s1.
        if ps_metadata_poisoned s1 then (Err (processing_error ''metadata mutex poisoned''), s1)
        else let s2 = s1\<lparr> ps_metadata := annotate_observation obs (ps_metadata s1) \<rparr> in
        and_then
          (case parsed of
             None \<Rightarrow> (Ok (), s2)
           | Some p \<Rightarrow>
               if ps_workers_poisoned s2 then (Err (processing_error ''metadata worker pool mutex poisoned''), s2)
               else (Ok (), fold (enqueue_lookup (observation_id obs)) (lookup_addresses p) s2))
          (\<lambda>s3. and_then (drain_metadata_results s3) (\<lambda>s4.
             (Ok (), s4\<lparr> ps_statistics := record_packet_processed (word_of_nat (packet_length obs)) (ps_statistics s4) \<rparr>)))))"

text \<open>
  \<open>EngineRuntime::require_running\<close>: the runtime's own flag and the state's, then the state's lifecycle.
\<close>

definition runtime_require_running :: "bool \<Rightarrow> engine_state \<Rightarrow> unit engine_result" where
  "runtime_require_running initialized s =
     (if \<not> (initialized \<and> es_initialized s) then Inl (Error_Message EC_NotInitialized ''engine is not initialized'')
      else require_running s)"

definition process_observation ::
  "bool \<Rightarrow> observation_hash \<Rightarrow> u64 \<Rightarrow> packet_observation \<Rightarrow> processing_shared \<Rightarrow> (engine_error, unit) outcome \<times> processing_shared" where
  "process_observation initialized hash now obs s =
     (case runtime_require_running initialized (ps_state s) of
        Inl e \<Rightarrow> (Err e, s)
      | Inr _ \<Rightarrow> process_observation_shared hash now obs s)"

subsection \<open>Reading from the bus\<close>

definition process_one ::
  "bool \<Rightarrow> observation_hash \<Rightarrow> u64 \<Rightarrow> processing_shared \<Rightarrow> (engine_error, unit option) outcome \<times> processing_shared" where
  "process_one initialized hash now s =
     (case runtime_require_running initialized (ps_state s) of
        Inl e \<Rightarrow> (Err e, s)
      | Inr _ \<Rightarrow>
          (case try_read (ps_bus s) of
             (Inl e, b) \<Rightarrow> (Err e, s\<lparr> ps_bus := b \<rparr>)
           | (Inr None, b) \<Rightarrow> (Ok None, s\<lparr> ps_bus := b \<rparr>)
           | (Inr (Some obs), b) \<Rightarrow>
               (case process_observation_shared hash now obs (s\<lparr> ps_bus := b \<rparr>) of
                  (Panic, s1) \<Rightarrow> (Panic, s1)
                | (result, s1) \<Rightarrow>
                    (case release_processing (observation_id obs) (ps_bus s1) of (release, b2) \<Rightarrow>
                      let s2 = s1\<lparr> ps_bus := b2 \<rparr> in
                      case result of
                        Err e \<Rightarrow> (Err e, s2)
                      | _ \<Rightarrow> (case release of Inl e \<Rightarrow> (Err e, s2) | Inr _ \<Rightarrow> (Ok (Some ()), s2))))))"

definition count_error :: "bool \<Rightarrow> processing_shared \<Rightarrow> processing_shared" where
  "count_error failed s = (if failed then s\<lparr> ps_statistics := record_stat_error (ps_statistics s) \<rparr> else s)"

definition worker_iteration ::
  "observation_hash \<Rightarrow> u64 \<Rightarrow> processing_shared \<Rightarrow> (engine_error, unit) outcome \<times> processing_shared" where
  "worker_iteration hash now s =
     (case try_read (ps_bus s) of
        (Inr (Some obs), b) \<Rightarrow>
          (case process_observation_shared hash now obs (s\<lparr> ps_bus := b \<rparr>) of
             (Panic, s1) \<Rightarrow> (Panic, s1)
           | (result, s1) \<Rightarrow>
               let s2 = count_error (\<exists>e. result = Err e) s1 in
               case release_processing (observation_id obs) (ps_bus s2) of (release, b2) \<Rightarrow>
                 (Ok (), count_error (\<exists>e. release = Inl e) (s2\<lparr> ps_bus := b2 \<rparr>)))
      | (Inr None, b) \<Rightarrow> (Ok (), s\<lparr> ps_bus := b \<rparr>)
      | (Inl _, b) \<Rightarrow> (Ok (), count_error True (s\<lparr> ps_bus := b \<rparr>)))"

text \<open>
  The worker thread for a number of iterations; each entry holds what the iteration reads of the
  stop flag and of the clock.
\<close>

primrec processing_worker_loop ::
  "observation_hash \<Rightarrow> (bool \<times> u64) list \<Rightarrow> processing_shared \<Rightarrow> (engine_error, unit) outcome \<times> processing_shared" where
  "processing_worker_loop hash [] s = (Ok (), s)"
| "processing_worker_loop hash (tick # ticks) s =
     (if fst tick \<or> es_shutdown_requested (ps_state s) then (Ok (), s)
      else and_then (worker_iteration hash (snd tick) s) (processing_worker_loop hash ticks))"

subsection \<open>The entry points with a flow table of their own\<close>

record processed_observation =
  po_observation_id :: observation_id
  po_backend_source :: backend_source
  po_parsed :: parsed_packet
  po_flow_key :: "flow_key option"
  po_decision :: packet_decision
  po_packet :: packet

definition process_observation_legacy ::
  "u64 \<Rightarrow> packet_observation \<Rightarrow> flow_table \<Rightarrow> (engine_error, processed_observation) outcome \<times> flow_table" where
  "process_observation_legacy now obs t =
     (case pp_parse obs of
        Panic \<Rightarrow> (Panic, t)
      | Err e \<Rightarrow> (Err e, t)
      | Ok parsed \<Rightarrow>
          let key = flow_key_from_parsed parsed;
              processed = \<lparr> po_observation_id = observation_id obs, po_backend_source = backend_source obs,
                po_parsed = parsed, po_flow_key = key, po_decision = Decide_Pass, po_packet = obs_packet obs \<rparr> in
          case key of
            None \<Rightarrow> (Ok processed, t)
          | Some k \<Rightarrow>
              (case ft_record_packet now k (packet_length obs) (flow_direction_of (obs_direction obs))
                  (Some (capture_timestamp obs)) t of
                 (Inl e, t') \<Rightarrow> (Err e, t')
               | (Inr _, t') \<Rightarrow> (Ok processed, t')))"

definition process_observation_with_policy ::
  "u64 \<Rightarrow> packet_observation \<Rightarrow> flow_table \<Rightarrow> packet_action_policy_config
   \<Rightarrow> (engine_error, processed_observation) outcome \<times> flow_table" where
  "process_observation_with_policy now obs t policy =
     (case process_observation_legacy now obs t of
        (Ok processed, t') \<Rightarrow>
          (Ok (processed\<lparr> po_decision := evaluate_packet (po_parsed processed) (obs_direction obs) policy \<rparr>), t')
      | (Err e, t') \<Rightarrow> (Err e, t')
      | (Panic, t') \<Rightarrow> (Panic, t'))"


subsection \<open>What one call leaves alone\<close>

definition frame :: "processing_shared \<Rightarrow> processing_shared \<Rightarrow> bool" where
  "frame s s' \<longleftrightarrow> ps_bus s' = ps_bus s \<and> ps_state s' = ps_state s \<and>
     ps_flow_table_poisoned s' = ps_flow_table_poisoned s \<and> ps_workers_poisoned s' = ps_workers_poisoned s \<and>
     ps_metadata_poisoned s' = ps_metadata_poisoned s \<and>
     wp_admitting (ps_workers s') = wp_admitting (ps_workers s) \<and>
     (pool_ok (ps_workers s) \<longrightarrow> pool_ok (ps_workers s'))"

lemma frame_refl [simp]: "frame s s"
  by (simp add: frame_def)

lemma frame_trans [trans]: "frame s t \<Longrightarrow> frame t u \<Longrightarrow> frame s u"
  by (auto simp: frame_def)

lemma frame_updates [simp]:
  "frame s (t\<lparr> ps_dedup := d \<rparr>) = frame s t"
  "frame s (t\<lparr> ps_flow_table := f \<rparr>) = frame s t"
  "frame s (t\<lparr> ps_statistics := st \<rparr>) = frame s t"
  "frame s (t\<lparr> ps_metadata := m \<rparr>) = frame s t"
  "frame (s\<lparr> ps_statistics := st \<rparr>) t = frame s t"
  "frame (s\<lparr> ps_metadata := m \<rparr>) t = frame s t"
  by (simp_all add: frame_def)

lemma and_then_fst_snd:
  "and_then rs f = (case fst rs of Ok _ \<Rightarrow> f (snd rs) | Err e \<Rightarrow> (Err e, snd rs) | Panic \<Rightarrow> (Panic, snd rs))"
  by (cases rs) (auto split: outcome.splits)

lemma frame_and_then: "frame s (snd rs) \<Longrightarrow> (\<And>t. frame s t \<Longrightarrow> frame s (snd (f t))) \<Longrightarrow> frame s (snd (and_then rs f))"
  by (auto simp: and_then_fst_snd split: outcome.splits)

lemma record_in_flow_table_frame: "frame s (snd (record_in_flow_table hash now obs s))"
  by (auto simp: record_in_flow_table_def Let_def split: prod.splits outcome.splits option.splits)

lemma enqueue_loop_admitting: "wp_admitting (snd (enqueue_loop start offs saw item p)) = wp_admitting p"
  by (induction offs arbitrary: saw item)
    (auto simp: try_send_set_worker Let_def split: sum.splits try_send_error.splits)

lemma enqueue_admitting: "wp_admitting (snd (enqueue item p)) = wp_admitting p"
  by (simp add: enqueue_def Let_def enqueue_loop_admitting)

lemma enqueue_lookup_workers: "ps_workers (enqueue_lookup oid a s) = snd (enqueue (Reverse_Dns_Lookup oid a) (ps_workers s))"
  by (auto simp: enqueue_lookup_def split: prod.splits sum.splits try_send_error.splits)

lemma enqueue_lookup_frame: "frame s (enqueue_lookup oid a s)"
  using enqueue_exact(2) [of "ps_workers s"] enqueue_admitting [of _ "ps_workers s"]
  unfolding frame_def enqueue_lookup_workers
  by (auto simp: enqueue_lookup_def split: prod.splits sum.splits try_send_error.splits)

lemma enqueue_lookups_frame: "frame s (fold (enqueue_lookup oid) as s)"
  by (induction as arbitrary: s) (auto intro: frame_trans enqueue_lookup_frame)

lemma try_recv_frame:
  "wp_admitting (snd (try_recv_result p)) = wp_admitting p" "pool_ok p \<Longrightarrow> pool_ok (snd (try_recv_result p))"
  by (auto simp: try_recv_result_def pool_ok_def split: list.splits)

lemma frame_try_recv: "frame s (s\<lparr> ps_workers := snd (try_recv_result (ps_workers s)) \<rparr>)"
  by (simp add: frame_def try_recv_frame)

lemma drain_frame: "frame s (snd (drain_metadata_results s))"
proof (induction s rule: drain_metadata_results.induct)
  case (1 s)
  note recv = frame_try_recv [of s]
  show ?case
  proof (cases "try_recv_result (ps_workers s)")
    case (Pair r p)
    then show ?thesis
      using 1 recv by (subst drain_metadata_results.simps)
        (auto simp: Let_def split: sum.splits option.splits intro: frame_trans)
  qed
qed

lemma drain_untouched:
  "ps_dedup (snd (drain_metadata_results s)) = ps_dedup s"
  "ps_flow_table (snd (drain_metadata_results s)) = ps_flow_table s"
  "ps_statistics (snd (drain_metadata_results s)) = ps_statistics s"
proof (induction s rule: drain_metadata_results.induct)
  case (1 s)
  case 1
  then show ?case using "1.IH"
    by (subst drain_metadata_results.simps) (auto simp: Let_def split: sum.splits option.splits prod.splits)
  case 2
  then show ?case using "1.IH"
    by (subst drain_metadata_results.simps) (auto simp: Let_def split: sum.splits option.splits prod.splits)
  case 3
  then show ?case using "1.IH"
    by (subst drain_metadata_results.simps) (auto simp: Let_def split: sum.splits option.splits prod.splits)
qed

lemma drain_result:
  "fst (drain_metadata_results s) \<noteq> Panic"
  "\<not> ps_workers_poisoned s \<Longrightarrow> \<not> ps_metadata_poisoned s \<Longrightarrow> fst (drain_metadata_results s) = Ok ()"
proof (induction s rule: drain_metadata_results.induct)
  case (1 s)
  case 1
  then show ?case using "1.IH"(1)
    by (subst drain_metadata_results.simps) (auto simp: Let_def split: sum.splits option.splits prod.splits)
  case 2
  then show ?case using "1.IH"(2)
    by (subst drain_metadata_results.simps) (auto simp: Let_def split: sum.splits option.splits prod.splits)
qed


subsection \<open>One observation, exactly\<close>

lemma process_observation_shared_frame: "frame s (snd (process_observation_shared hash now obs s))"
proof -
  have base: "frame s t \<Longrightarrow> frame s (snd (record_in_flow_table hash now obs t))" for t
    using record_in_flow_table_frame frame_trans by blast
  have lookups: "frame s t \<Longrightarrow> frame s (fold (enqueue_lookup oid) as t)" for t oid as
    using enqueue_lookups_frame frame_trans by blast
  have drain: "frame s t \<Longrightarrow> frame s (snd (drain_metadata_results t))" for t
    using drain_frame frame_trans by blast
  show ?thesis
    unfolding process_observation_shared_def Let_def
    by (auto split: outcome.splits option.splits intro!: frame_and_then base lookups drain)
qed

lemma no_panic_parse:
  assumes "length (raw_bytes (obs_packet obs)) \<le> isize_max"
  shows "pp_parse obs \<noteq> Panic" "to_flow_key obs \<noteq> Panic" "to_flow_key obs \<noteq> Err e"
  using pp_parse_bytes_post [OF assms, of "backend_source obs" Layer_Ethernet]
  by (auto simp: pp_post_def pp_parse_def to_flow_key_def split: outcome.splits)

lemma process_observation_shared_no_panic:
  assumes "length (raw_bytes (obs_packet obs)) \<le> isize_max"
  shows "fst (process_observation_shared hash now obs s) \<noteq> Panic"
  using no_panic_parse [OF assms] drain_result(1)
  by (auto simp: process_observation_shared_def record_in_flow_table_def Let_def and_then_fst_snd
      split: outcome.splits option.splits prod.splits)

definition record_observation :: "u64 \<times> packet_observation \<Rightarrow> flow_table \<Rightarrow> flow_table" where
  "record_observation tick t = (case to_flow_key (snd tick) of
      Ok (Some key) \<Rightarrow> snd (ft_record_packet (fst tick) (to_flow_engine_key key) (packet_length (snd tick))
        (from_network_direction (obs_direction (snd tick))) None t)
    | _ \<Rightarrow> t)"

definition hash_of :: "observation_hash \<Rightarrow> packet_observation \<Rightarrow> u64" where
  "hash_of hash obs = oi_source_hash (from_observation hash obs)"

definition unparsable :: "packet_observation \<Rightarrow> bool" where
  "unparsable obs \<longleftrightarrow> (case pp_parse obs of Ok _ \<Rightarrow> False | _ \<Rightarrow> True)"

definition shared_ok :: "processing_shared \<Rightarrow> bool" where
  "shared_ok s \<longleftrightarrow> bus_inv (ps_bus s) \<and> ft_inv (ps_flow_table s) \<and> dedup_inv (ps_dedup s) \<and>
     pool_ok (ps_workers s) \<and> wp_admitting (ps_workers s) \<and> \<not> ps_flow_table_poisoned s \<and>
     \<not> ps_workers_poisoned s \<and> \<not> ps_metadata_poisoned s"

lemma enqueue_lookup_untouched [simp]:
  "ps_dedup (enqueue_lookup oid a s) = ps_dedup s"
  "ps_flow_table (enqueue_lookup oid a s) = ps_flow_table s"
  "st_total_packets_processed (ps_statistics (enqueue_lookup oid a s)) = st_total_packets_processed (ps_statistics s)"
  "st_total_bytes_processed (ps_statistics (enqueue_lookup oid a s)) = st_total_bytes_processed (ps_statistics s)"
  by (auto simp: enqueue_lookup_def record_queue_saturation_def record_stat_error_def
      split: prod.splits sum.splits try_send_error.splits)

lemma enqueue_lookup_errors:
  assumes "pool_ok (ps_workers s)" and "wp_admitting (ps_workers s)"
  shows "st_total_errors (ps_statistics (enqueue_lookup oid a s)) = st_total_errors (ps_statistics s)"
  using enqueue_exact(1) [OF assms(1), of "Reverse_Dns_Lookup oid a"] assms(2)
  by (auto simp: enqueue_lookup_def enqueue_result_def record_queue_saturation_def
      split: prod.splits sum.splits try_send_error.splits if_splits)

lemma enqueue_lookups_untouched [simp]:
  "ps_dedup (fold (enqueue_lookup oid) as s) = ps_dedup s"
  "ps_flow_table (fold (enqueue_lookup oid) as s) = ps_flow_table s"
  "st_total_packets_processed (ps_statistics (fold (enqueue_lookup oid) as s)) = st_total_packets_processed (ps_statistics s)"
  "st_total_bytes_processed (ps_statistics (fold (enqueue_lookup oid) as s)) = st_total_bytes_processed (ps_statistics s)"
  by (induction as arbitrary: s) simp_all

lemma enqueue_lookups_errors:
  "pool_ok (ps_workers s) \<Longrightarrow> wp_admitting (ps_workers s) \<Longrightarrow>
     st_total_errors (ps_statistics (fold (enqueue_lookup oid) as s)) = st_total_errors (ps_statistics s)"
proof (induction as arbitrary: s)
  case (Cons a as)
  then show ?case using enqueue_lookup_frame [of s oid a] by (simp add: frame_def enqueue_lookup_errors)
qed simp

lemma record_in_flow_table_ok:
  assumes "\<not> ps_flow_table_poisoned s" and "length (raw_bytes (obs_packet obs)) \<le> isize_max"
  shows "record_in_flow_table hash now obs s =
    (Ok (), s\<lparr> ps_dedup := snd (is_duplicate (hash_of hash obs) (ps_dedup s)),
       ps_flow_table := if fst (is_duplicate (hash_of hash obs) (ps_dedup s)) then ps_flow_table s
         else record_observation (now, obs) (ps_flow_table s) \<rparr>)"
  using assms no_panic_parse [OF assms(2)]
  by (auto simp: record_in_flow_table_def hash_of_def record_observation_def Let_def
      split: prod.splits outcome.splits option.splits)

text \<open>The state before the results of the metadata workers are drained.\<close>

definition prepared :: "observation_hash \<Rightarrow> u64 \<Rightarrow> packet_observation \<Rightarrow> processing_shared \<Rightarrow> processing_shared" where
  "prepared hash now obs s =
     (let s0 = count_error (unparsable obs) s;
          s1 = snd (record_in_flow_table hash now obs s0);
          s2 = s1\<lparr> ps_metadata := annotate_observation obs (ps_metadata s1) \<rparr> in
      case pp_parse obs of
        Ok p \<Rightarrow> fold (enqueue_lookup (observation_id obs)) (lookup_addresses p) s2
      | _ \<Rightarrow> s2)"

lemma count_error_fields [simp]:
  "ps_dedup (count_error b s) = ps_dedup s" "ps_flow_table (count_error b s) = ps_flow_table s"
  "ps_bus (count_error b s) = ps_bus s" "ps_state (count_error b s) = ps_state s"
  "ps_workers (count_error b s) = ps_workers s" "ps_metadata (count_error b s) = ps_metadata s"
  "ps_flow_table_poisoned (count_error b s) = ps_flow_table_poisoned s"
  "ps_workers_poisoned (count_error b s) = ps_workers_poisoned s"
  "ps_metadata_poisoned (count_error b s) = ps_metadata_poisoned s"
  "st_total_packets_processed (ps_statistics (count_error b s)) = st_total_packets_processed (ps_statistics s)"
  "st_total_bytes_processed (ps_statistics (count_error b s)) = st_total_bytes_processed (ps_statistics s)"
  "st_total_errors (ps_statistics (count_error b s)) = st_total_errors (ps_statistics s) + (if b then 1 else 0)"
  by (simp_all add: count_error_def record_stat_error_def)

lemma recorded:
  assumes "shared_ok s" and "length (raw_bytes (obs_packet obs)) \<le> isize_max"
  shows "record_in_flow_table hash now obs (count_error b s) =
    (Ok (), (count_error b s)\<lparr> ps_dedup := snd (is_duplicate (hash_of hash obs) (ps_dedup s)),
       ps_flow_table := if fst (is_duplicate (hash_of hash obs) (ps_dedup s)) then ps_flow_table s
         else record_observation (now, obs) (ps_flow_table s) \<rparr>)"
  using assms by (subst record_in_flow_table_ok) (simp_all add: shared_ok_def)

lemma prepared_fields:
  assumes "shared_ok s" and "length (raw_bytes (obs_packet obs)) \<le> isize_max"
  shows "ps_dedup (prepared hash now obs s) = snd (is_duplicate (hash_of hash obs) (ps_dedup s))"
    and "ps_flow_table (prepared hash now obs s) =
      (if fst (is_duplicate (hash_of hash obs) (ps_dedup s)) then ps_flow_table s
       else record_observation (now, obs) (ps_flow_table s))"
    and "st_total_packets_processed (ps_statistics (prepared hash now obs s)) = st_total_packets_processed (ps_statistics s)"
    and "st_total_bytes_processed (ps_statistics (prepared hash now obs s)) = st_total_bytes_processed (ps_statistics s)"
    and "st_total_errors (ps_statistics (prepared hash now obs s)) =
      st_total_errors (ps_statistics s) + (if unparsable obs then 1 else 0)"
  using assms(1)
  by (simp_all add: prepared_def recorded [OF assms] enqueue_lookups_errors shared_ok_def Let_def split: outcome.split)

lemma prepared_frame: "frame s (prepared hash now obs s)"
proof -
  have "frame s (snd (record_in_flow_table hash now obs (count_error b s)))" for b
    using record_in_flow_table_frame [of "count_error b s" hash now obs] by (simp add: count_error_def split: if_splits)
  then show ?thesis
    by (auto simp: prepared_def Let_def split: outcome.splits intro: frame_trans [OF _ enqueue_lookups_frame])
qed

lemma process_observation_shared_prepared:
  assumes "shared_ok s" and "length (raw_bytes (obs_packet obs)) \<le> isize_max"
  shows "process_observation_shared hash now obs s =
    (Ok (), let s' = snd (drain_metadata_results (prepared hash now obs s)) in
       s'\<lparr> ps_statistics := record_packet_processed (word_of_nat (packet_length obs)) (ps_statistics s') \<rparr>)"
proof -
  have poison: "\<not> ps_metadata_poisoned s" "\<not> ps_workers_poisoned s" using assms(1) by (simp_all add: shared_ok_def)
  have drain: "fst (drain_metadata_results (prepared hash now obs s)) = Ok ()"
    using prepared_frame [of s hash now obs] poison by (intro drain_result(2)) (simp_all add: frame_def)
  show ?thesis
  proof (cases "pp_parse obs")
    case (Ok p)
    then show ?thesis
      using drain poison recorded [OF assms, of hash now False]
      by (simp add: process_observation_shared_def prepared_def unparsable_def and_then_fst_snd count_error_def Let_def)
  next
    case (Err e)
    then show ?thesis
      using drain poison recorded [OF assms, of hash now True]
      by (simp add: process_observation_shared_def prepared_def unparsable_def and_then_fst_snd count_error_def Let_def)
  qed (use no_panic_parse [OF assms(2)] in simp)
qed

lemma process_observation_shared_fields:
  assumes "shared_ok s" and "length (raw_bytes (obs_packet obs)) \<le> isize_max"
    and "process_observation_shared hash now obs s = (r, s')"
  shows "r = Ok ()"
    and "ps_dedup s' = snd (is_duplicate (hash_of hash obs) (ps_dedup s))"
    and "ps_flow_table s' = (if fst (is_duplicate (hash_of hash obs) (ps_dedup s)) then ps_flow_table s
       else record_observation (now, obs) (ps_flow_table s))"
    and "st_total_packets_processed (ps_statistics s') = st_total_packets_processed (ps_statistics s) + 1"
    and "st_total_bytes_processed (ps_statistics s') = st_total_bytes_processed (ps_statistics s) + word_of_nat (packet_length obs)"
    and "st_total_errors (ps_statistics s') = st_total_errors (ps_statistics s) + (if unparsable obs then 1 else 0)"
  using process_observation_shared_prepared [OF assms(1,2), of hash now] assms(3) prepared_fields [OF assms(1,2), of hash now]
  by (auto simp: Let_def drain_untouched record_packet_processed_def)

lemma record_observation_inv: "ft_inv t \<Longrightarrow> ft_inv (record_observation tick t)"
  by (auto simp: record_observation_def ft_inv_record_packet split: outcome.splits option.splits)

lemma process_observation_shared_keeps:
  assumes "shared_ok s" and "length (raw_bytes (obs_packet obs)) \<le> isize_max"
    and "process_observation_shared hash now obs s = (r, s')"
  shows "shared_ok s'" and "ps_bus s' = ps_bus s" and "ps_state s' = ps_state s"
proof -
  have frame: "frame s s'" using process_observation_shared_frame [of s hash now obs] assms(3) by simp
  then show "ps_bus s' = ps_bus s" "ps_state s' = ps_state s" by (simp_all add: frame_def)
  show "shared_ok s'"
    using assms(1) frame process_observation_shared_fields(2,3) [OF assms]
    by (simp add: shared_ok_def frame_def dedup_inv_step record_observation_inv)
qed


subsection \<open>The head of the bus is taken and released\<close>

lemma head_taken:
  assumes inv: "bus_inv b" and items: "q_items (bus_queue b) = obs # rest"
  obtains b1 b2 where "try_read b = (Inr (Some obs), b1)"
    and "bus_inv b1" and "release_processing (observation_id obs) b1 = (Inr (), b2)" and "bus_inv b2"
    and "q_items (bus_queue b2) = rest"
    and "\<And>i. hm_get i (bus_ownership b2) = (if i = observation_id obs then None else hm_get i (bus_ownership b))"
proof -
  obtain b1 where b1: "try_read b = (Inr (Some obs), b1)"
      "b1 = b\<lparr> bus_queue := bus_queue b\<lparr> q_items := rest \<rparr>,
         bus_ownership := hm_insert (observation_id obs) (owner_as_u8 Own_Processing) (bus_ownership b) \<rparr>"
    by (simp add: try_read_eq [OF inv] items)
  have inv1: "bus_inv b1" using bus_inv_try_read [OF inv] by (simp add: b1(1))
  let ?b2 = "b1\<lparr> bus_ownership := hm_remove (observation_id obs) (bus_ownership b1) \<rparr>"
  have own: "hm_get (observation_id obs) (bus_ownership b1) = Some (owner_as_u8 Own_Processing)"
    by (simp add: b1(2) hm del: owner_as_u8.simps)
  have rel: "release_processing (observation_id obs) b1 = (Inr (), ?b2)"
    using bus_inv_locks [OF inv1] own by (simp add: release_processing_def release_from_eq del: owner_as_u8.simps)
  have "bus_inv ?b2" using inv1 own by (rule bus_inv_drop_owner) simp
  then show thesis
    using that [OF b1(1) inv1 rel] by (simp add: b1(2) hm)
qed


subsection \<open>The worker drains the bus\<close>

lemma worker_iteration_exact:
  assumes ok: "shared_ok s" and items: "q_items (bus_queue (ps_bus s)) = obs # rest"
    and len: "length (raw_bytes (obs_packet obs)) \<le> isize_max"
  obtains s' where "worker_iteration hash now s = (Ok (), s')" "shared_ok s'" "ps_state s' = ps_state s"
    "q_items (bus_queue (ps_bus s')) = rest"
    "\<And>i. hm_get i (bus_ownership (ps_bus s')) = (if i = observation_id obs then None else hm_get i (bus_ownership (ps_bus s)))"
    "ps_dedup s' = snd (is_duplicate (hash_of hash obs) (ps_dedup s))"
    "ps_flow_table s' = (if fst (is_duplicate (hash_of hash obs) (ps_dedup s)) then ps_flow_table s
       else record_observation (now, obs) (ps_flow_table s))"
    "st_total_packets_processed (ps_statistics s') = st_total_packets_processed (ps_statistics s) + 1"
    "st_total_bytes_processed (ps_statistics s') = st_total_bytes_processed (ps_statistics s) + word_of_nat (packet_length obs)"
    "st_total_errors (ps_statistics s') = st_total_errors (ps_statistics s) + (if unparsable obs then 1 else 0)"
proof -
  have "bus_inv (ps_bus s)" using ok by (simp add: shared_ok_def)
  from this items obtain b1 b2 where b: "try_read (ps_bus s) = (Inr (Some obs), b1)" "bus_inv b1"
      "release_processing (observation_id obs) b1 = (Inr (), b2)" "bus_inv b2" "q_items (bus_queue b2) = rest"
      "\<And>i. hm_get i (bus_ownership b2) = (if i = observation_id obs then None else hm_get i (bus_ownership (ps_bus s)))"
    by (rule head_taken) blast
  let ?s = "s\<lparr> ps_bus := b1 \<rparr>"
  have ok1: "shared_ok ?s" using ok b(2) by (simp add: shared_ok_def)
  obtain r1 s1 where p: "process_observation_shared hash now obs ?s = (r1, s1)" by force
  note fields = process_observation_shared_fields [OF ok1 len p] process_observation_shared_keeps [OF ok1 len p]
  have "worker_iteration hash now s = (Ok (), s1\<lparr> ps_bus := b2 \<rparr>)"
    using b p fields by (simp add: worker_iteration_def count_error_def Let_def)
  moreover have "shared_ok (s1\<lparr> ps_bus := b2 \<rparr>)" using fields b(4) by (simp add: shared_ok_def)
  ultimately show thesis using fields b by (intro that [of "s1\<lparr> ps_bus := b2 \<rparr>"]) simp_all
qed


text \<open>The observations of a list that the duplicate filter reports as new, in order.\<close>

definition fresh_ticks ::
  "observation_hash \<Rightarrow> (u64 \<times> packet_observation) list \<Rightarrow> dedup_filter \<Rightarrow> (u64 \<times> packet_observation) list" where
  "fresh_ticks hash ticks f =
     map fst (filter (\<lambda>(tick, duplicate). \<not> duplicate) (zip ticks (fst (dedup_run (map (hash_of hash \<circ> snd) ticks) f))))"

lemma fresh_ticks_Cons:
  "fresh_ticks hash (tick # ticks) f =
     (if fst (is_duplicate (hash_of hash (snd tick)) f) then [] else [tick]) @
     fresh_ticks hash ticks (snd (is_duplicate (hash_of hash (snd tick)) f))"
  by (simp add: fresh_ticks_def split: prod.splits)

lemma snd_dedup_run_Cons: "snd (dedup_run (x # xs) f) = snd (dedup_run xs (snd (is_duplicate x f)))"
  by (simp split: prod.splits)

lemma worker_loop_exact:
  assumes "shared_ok s" and "\<not> es_shutdown_requested (ps_state s)"
    and "q_items (bus_queue (ps_bus s)) = items" and "length clock = length items"
    and "\<And>obs. obs \<in> set items \<Longrightarrow> length (raw_bytes (obs_packet obs)) \<le> isize_max"
    and "processing_worker_loop hash (map (Pair False) clock) s = (r, s')"
  shows "r = Ok () \<and> shared_ok s' \<and> q_items (bus_queue (ps_bus s')) = [] \<and>
    (\<forall>i. hm_get i (bus_ownership (ps_bus s')) =
       (if i \<in> observation_id ` set items then None else hm_get i (bus_ownership (ps_bus s)))) \<and>
    ps_flow_table s' = fold record_observation (fresh_ticks hash (zip clock items) (ps_dedup s)) (ps_flow_table s) \<and>
    ps_dedup s' = snd (dedup_run (map (hash_of hash) items) (ps_dedup s)) \<and>
    st_total_packets_processed (ps_statistics s') = st_total_packets_processed (ps_statistics s) + of_nat (length items) \<and>
    st_total_bytes_processed (ps_statistics s') =
      st_total_bytes_processed (ps_statistics s) + (\<Sum>obs\<leftarrow>items. word_of_nat (packet_length obs)) \<and>
    st_total_errors (ps_statistics s') = st_total_errors (ps_statistics s) + of_nat (length (filter unparsable items))"
  using assms
proof (induction items arbitrary: s clock)
  case Nil
  then show ?case by (simp add: fresh_ticks_def)
next
  case (Cons obs items)
  from Cons.prems(4) obtain now clock' where clock: "clock = now # clock'" by (cases clock) auto
  have len: "length (raw_bytes (obs_packet obs)) \<le> isize_max" using Cons.prems(5) by simp
  obtain s1 where s1: "worker_iteration hash now s = (Ok (), s1)" "shared_ok s1" "ps_state s1 = ps_state s"
    "q_items (bus_queue (ps_bus s1)) = items"
    "\<And>i. hm_get i (bus_ownership (ps_bus s1)) = (if i = observation_id obs then None else hm_get i (bus_ownership (ps_bus s)))"
    "ps_dedup s1 = snd (is_duplicate (hash_of hash obs) (ps_dedup s))"
    "ps_flow_table s1 = (if fst (is_duplicate (hash_of hash obs) (ps_dedup s)) then ps_flow_table s
       else record_observation (now, obs) (ps_flow_table s))"
    "st_total_packets_processed (ps_statistics s1) = st_total_packets_processed (ps_statistics s) + 1"
    "st_total_bytes_processed (ps_statistics s1) = st_total_bytes_processed (ps_statistics s) + word_of_nat (packet_length obs)"
    "st_total_errors (ps_statistics s1) = st_total_errors (ps_statistics s) + (if unparsable obs then 1 else 0)"
    by (rule worker_iteration_exact [OF Cons.prems(1,3) len, of hash now]) (rule that; assumption)
  have loop: "processing_worker_loop hash (map (Pair False) clock') s1 = (r, s')"
    using Cons.prems(2,6) s1(1) by (simp add: clock)
  note IH = Cons.IH [OF s1(2) _ s1(4) _ _ loop]
  have "r = Ok () \<and> shared_ok s' \<and> q_items (bus_queue (ps_bus s')) = [] \<and>
    (\<forall>i. hm_get i (bus_ownership (ps_bus s')) =
       (if i \<in> observation_id ` set items then None else hm_get i (bus_ownership (ps_bus s1)))) \<and>
    ps_flow_table s' = fold record_observation (fresh_ticks hash (zip clock' items) (ps_dedup s1)) (ps_flow_table s1) \<and>
    ps_dedup s' = snd (dedup_run (map (hash_of hash) items) (ps_dedup s1)) \<and>
    st_total_packets_processed (ps_statistics s') = st_total_packets_processed (ps_statistics s1) + of_nat (length items) \<and>
    st_total_bytes_processed (ps_statistics s') =
      st_total_bytes_processed (ps_statistics s1) + (\<Sum>obs\<leftarrow>items. word_of_nat (packet_length obs)) \<and>
    st_total_errors (ps_statistics s') = st_total_errors (ps_statistics s1) + of_nat (length (filter unparsable items))"
  proof (rule IH)
    show "\<not> es_shutdown_requested (ps_state s1)" using Cons.prems(2) s1(3) by simp
    show "length clock' = length items" using Cons.prems(4) clock by simp
    show "\<And>obs. obs \<in> set items \<Longrightarrow> length (raw_bytes (obs_packet obs)) \<le> isize_max" using Cons.prems(5) by simp
  qed
  note IH = this
  show ?case
  proof (intro conjI)
    show "r = Ok ()" "shared_ok s'" "q_items (bus_queue (ps_bus s')) = []" using IH by blast+
    show "\<forall>i. hm_get i (bus_ownership (ps_bus s')) =
       (if i \<in> observation_id ` set (obs # items) then None else hm_get i (bus_ownership (ps_bus s)))"
      using IH s1(5) by simp
    show "ps_flow_table s' = fold record_observation (fresh_ticks hash (zip clock (obs # items)) (ps_dedup s)) (ps_flow_table s)"
      using IH s1(6,7) by (simp add: clock fresh_ticks_Cons)
    show "ps_dedup s' = snd (dedup_run (map (hash_of hash) (obs # items)) (ps_dedup s))"
      using IH s1(6) by (simp only: list.map snd_dedup_run_Cons)
    show "st_total_packets_processed (ps_statistics s') =
        st_total_packets_processed (ps_statistics s) + of_nat (length (obs # items))"
      using IH s1(8) by simp
    show "st_total_bytes_processed (ps_statistics s') =
        st_total_bytes_processed (ps_statistics s) + (\<Sum>obs\<leftarrow>obs # items. word_of_nat (packet_length obs))"
      using IH s1(9) by simp
    show "st_total_errors (ps_statistics s') =
        st_total_errors (ps_statistics s) + of_nat (length (filter unparsable (obs # items)))"
      using IH s1(10) by simp
  qed
qed


text \<open>
  C4: the processing worker drains the bus. Run for as many iterations as there are queued
  observations, it processes each of them once, in queue order: the queue is empty and none of
  them has an owner any more; the flow table is what recording, in order, exactly the observations
  that the duplicate filter reports as new gives; the statistics count every packet, every byte
  and every frame that does not parse; and the invariants of bus, flow table, filter and worker
  pool hold again. This is so for every hash function.
\<close>
theorem worker_drains_bus:
  assumes "shared_ok s" and "\<not> es_shutdown_requested (ps_state s)"
    and "length clock = length (q_items (bus_queue (ps_bus s)))"
    and "list_all (\<lambda>obs. length (raw_bytes (obs_packet obs)) \<le> isize_max) (q_items (bus_queue (ps_bus s)))"
    and "processing_worker_loop hash (map (Pair False) clock) s = (r, s')"
  shows "r = Ok () \<and> shared_ok s' \<and> q_items (bus_queue (ps_bus s')) = [] \<and>
    (\<forall>i. hm_get i (bus_ownership (ps_bus s')) =
       (if i \<in> observation_id ` set (q_items (bus_queue (ps_bus s))) then None
        else hm_get i (bus_ownership (ps_bus s)))) \<and>
    ps_flow_table s' =
      fold record_observation (fresh_ticks hash (zip clock (q_items (bus_queue (ps_bus s)))) (ps_dedup s)) (ps_flow_table s) \<and>
    ps_dedup s' = snd (dedup_run (map (hash_of hash) (q_items (bus_queue (ps_bus s)))) (ps_dedup s)) \<and>
    st_total_packets_processed (ps_statistics s') =
      st_total_packets_processed (ps_statistics s) + of_nat (length (q_items (bus_queue (ps_bus s)))) \<and>
    st_total_bytes_processed (ps_statistics s') = st_total_bytes_processed (ps_statistics s) +
      (\<Sum>obs\<leftarrow>q_items (bus_queue (ps_bus s)). word_of_nat (packet_length obs)) \<and>
    st_total_errors (ps_statistics s') = st_total_errors (ps_statistics s) +
      of_nat (length (filter unparsable (q_items (bus_queue (ps_bus s)))))"
  using assms by (intro worker_loop_exact) (simp_all add: list_all_iff)

subsection \<open>A running engine with one captured frame\<close>

definition demo_shared :: processing_shared where
  "demo_shared = \<lparr> ps_bus = snd (publish demo_obs (bus_new 4)), ps_flow_table = demo_table,
     ps_flow_table_poisoned = False, ps_dedup = dedup_new 8, ps_workers = pool_with_queue_capacity 2 4,
     ps_workers_poisoned = False, ps_metadata = [], ps_metadata_poisoned = False,
     ps_statistics = engine_statistics_new, ps_state = snd (engine_init engine_state_new) \<rparr>"

lemma demo_shared_facts:
  "runtime_require_running True (ps_state demo_shared) = Inr ()" "\<not> es_shutdown_requested (ps_state demo_shared)"
  "q_items (bus_queue (ps_bus demo_shared)) = [demo_obs]" "shared_ok demo_shared"
proof -
  have state: "ps_state demo_shared = snd (engine_init engine_state_new)" by (simp add: demo_shared_def)
  show "runtime_require_running True (ps_state demo_shared) = Inr ()" "\<not> es_shutdown_requested (ps_state demo_shared)"
    unfolding state by code_simp+
  show "q_items (bus_queue (ps_bus demo_shared)) = [demo_obs]"
    by (simp add: demo_shared_def publish_eq bus_new_def queue_new_def try_enqueue_def)
  have "max 4 1 * max 2 1 < (2 ^ 64 :: nat)" by simp
  then show "shared_ok demo_shared"
    using pool_new_ok(1) [of 4 2]
    by (simp add: shared_ok_def demo_shared_def bus_inv_publish bus_inv_new demo_table_inv dedup_inv_new
        pool_with_queue_capacity_def Let_def)
qed


theorem worker_drains_bus_witness:
  "q_items (bus_queue (ps_bus (snd (processing_worker_loop (\<lambda>t n raw. t) [(False, 5)] demo_shared)))) = [] \<and>
   st_total_packets_processed (ps_statistics (snd (processing_worker_loop (\<lambda>t n raw. t) [(False, 5)] demo_shared))) = 1"
  using worker_drains_bus [OF demo_shared_facts(4,2) _ _ prod.collapse [symmetric], of "[5]" "\<lambda>t n raw. t"]
    demo_obs_parses(2)
  by (simp add: demo_shared_facts(3)) (simp add: demo_shared_def engine_statistics_new_def)

end
