(* ===== verification/Backend_Manager.thy ===== *)
theory Backend_Manager
  imports Backend_Health
begin

text \<open>
  The backend manager of \<open>crates/backend-manager/src/manager.rs\<close>: the registered backends with
  their lifecycle and health, and the selection of a backend for a set of capability
  requirements (\<open>selection.rs\<close>). Both reader-writer locks carry their poison flag; clock
  readings are arguments.
\<close>

subsection \<open>State\<close>

datatype failover_policy = Fp_None | Fp_PreferPrimary | Fp_PreferHealthy | Fp_RoundRobin

definition should_failover ::
  "failover_policy \<Rightarrow> backend_runtime_state option \<Rightarrow> backend_runtime_state option \<Rightarrow> bool" where
  "should_failover p primary fallback =
     (if \<not> (case fallback of Some b \<Rightarrow> br_is_available b | None \<Rightarrow> False) then False
      else case p of
        Fp_None \<Rightarrow> False
      | Fp_PreferPrimary \<Rightarrow> (case primary of Some b \<Rightarrow> \<not> br_is_available b | None \<Rightarrow> True)
      | Fp_PreferHealthy \<Rightarrow> (case primary of Some b \<Rightarrow> br_lifecycle b \<noteq> Bl_Running | None \<Rightarrow> True)
      | Fp_RoundRobin \<Rightarrow> (case primary of Some b \<Rightarrow> \<not> br_is_available b | None \<Rightarrow> True))"

record managed_backend =
  mb_runtime :: backend_runtime_state
  mb_health :: health_monitor

definition managed_backend_new :: "backend_descriptor \<Rightarrow> managed_backend" where
  "managed_backend_new d = \<lparr> mb_runtime = runtime_state_new d, mb_health = health_with_defaults \<rparr>"

record backend_manager =
  bm_backends :: "(string, managed_backend) hash_map"
  bm_poisoned :: bool
  bm_failover_policy :: failover_policy
  bm_policy_poisoned :: bool
  bm_round_robin_cursor :: usize

definition backend_manager_new :: backend_manager where
  "backend_manager_new =
     \<lparr> bm_backends = [], bm_poisoned = False, bm_failover_policy = Fp_PreferHealthy, bm_policy_poisoned = False,
       bm_round_robin_cursor = 0 \<rparr>"

abbreviation code_error :: "engine_error_code \<Rightarrow> engine_error" where
  "code_error c \<equiv> Error_Code c"

subsection \<open>Registration\<close>

definition bm_register :: "backend_descriptor \<Rightarrow> backend_manager \<Rightarrow> unit engine_result \<times> backend_manager" where
  "bm_register d m =
     (if trim (bd_name d) = [] then (Inl (code_error EC_InvalidArgument), m)
      else if bm_poisoned m then (Inl (code_error EC_InternalError), m)
      else if hm_contains (bd_name d) (bm_backends m) then (Inl (code_error EC_BackendAlreadyRegistered), m)
      else (Inr (), m\<lparr> bm_backends := hm_insert (bd_name d) (managed_backend_new d) (bm_backends m) \<rparr>))"

definition bm_unregister :: "string \<Rightarrow> backend_manager \<Rightarrow> unit engine_result \<times> backend_manager" where
  "bm_unregister name m =
     (if bm_poisoned m then (Inl (code_error EC_InternalError), m)
      else case hm_get name (bm_backends m) of
        None \<Rightarrow> (Inl (code_error EC_BackendNotFound), m)
      | Some b \<Rightarrow>
          if bl_is_active (br_lifecycle (mb_runtime b)) then (Inl (code_error EC_ConcurrentOperation), m)
          else (Inr (), m\<lparr> bm_backends := hm_remove name (bm_backends m) \<rparr>))"

definition bm_contains :: "string \<Rightarrow> backend_manager \<Rightarrow> bool" where
  "bm_contains name m \<longleftrightarrow> \<not> bm_poisoned m \<and> hm_contains name (bm_backends m)"

definition bm_count :: "backend_manager \<Rightarrow> usize" where
  "bm_count m = (if bm_poisoned m then 0 else length (bm_backends m))"

text \<open>The queries take the read lock and copy a part of the entry out.\<close>

definition bm_query :: "(managed_backend \<Rightarrow> 'a) \<Rightarrow> string \<Rightarrow> backend_manager \<Rightarrow> 'a engine_result" where
  "bm_query f name m =
     (if bm_poisoned m then Inl (code_error EC_InternalError)
      else case hm_get name (bm_backends m) of
        None \<Rightarrow> Inl (code_error EC_BackendNotFound)
      | Some b \<Rightarrow> Inr (f b))"

definition bm_descriptor :: "string \<Rightarrow> backend_manager \<Rightarrow> backend_descriptor engine_result" where
  "bm_descriptor = bm_query (\<lambda>b. br_descriptor (mb_runtime b))"

definition bm_runtime_state :: "string \<Rightarrow> backend_manager \<Rightarrow> backend_runtime_state engine_result" where
  "bm_runtime_state = bm_query mb_runtime"

definition bm_health :: "string \<Rightarrow> backend_manager \<Rightarrow> backend_health engine_result" where
  "bm_health = bm_query (\<lambda>b. mon_health (mb_health b))"

definition bm_capabilities :: "string \<Rightarrow> backend_manager \<Rightarrow> capability_set engine_result" where
  "bm_capabilities = bm_query (\<lambda>b. bd_capabilities (br_descriptor (mb_runtime b)))"

definition bm_supports :: "string \<Rightarrow> backend_capability \<Rightarrow> backend_manager \<Rightarrow> bool engine_result" where
  "bm_supports name c = bm_query (\<lambda>b. br_supports c (mb_runtime b)) name"

subsection \<open>Lifecycle and health\<close>

text \<open>The operations below take the write lock and update the entry of one backend in place.\<close>

definition bm_modify ::
  "(managed_backend \<Rightarrow> 'a engine_result \<times> managed_backend) \<Rightarrow> string \<Rightarrow> backend_manager \<Rightarrow>
   'a engine_result \<times> backend_manager" where
  "bm_modify f name m =
     (if bm_poisoned m then (Inl (code_error EC_InternalError), m)
      else case hm_get name (bm_backends m) of
        None \<Rightarrow> (Inl (code_error EC_BackendNotFound), m)
      | Some b \<Rightarrow> (case f b of (r, b') \<Rightarrow> (r, m\<lparr> bm_backends := hm_insert name b' (bm_backends m) \<rparr>)))"

definition mb_transition :: "backend_lifecycle \<Rightarrow> managed_backend \<Rightarrow> unit engine_result \<times> managed_backend" where
  "mb_transition target b = (case br_transition target (mb_runtime b) of (r, s) \<Rightarrow> (r, b\<lparr> mb_runtime := s \<rparr>))"

definition mb_set_lifecycle :: "backend_lifecycle \<Rightarrow> managed_backend \<Rightarrow> unit engine_result \<times> managed_backend" where
  "mb_set_lifecycle target b = (case mb_transition target b of
      (Inl e, b') \<Rightarrow> (Inl e, b')
    | (Inr _, b') \<Rightarrow> (Inr (), case target of
          Bl_Running \<Rightarrow> b'\<lparr> mb_health := force_health Health_Healthy (mb_health b') \<rparr>
        | Bl_Failed \<Rightarrow> b'\<lparr> mb_health := force_health Health_Unhealthy (mb_health b') \<rparr>
        | _ \<Rightarrow> b'))"

definition bm_set_lifecycle ::
  "string \<Rightarrow> backend_lifecycle \<Rightarrow> backend_manager \<Rightarrow> unit engine_result \<times> backend_manager" where
  "bm_set_lifecycle name target = bm_modify (mb_set_lifecycle target) name"

record capability_conflict =
  cf_capability :: backend_capability
  cf_requesting_backend :: string
  cf_active_backend :: string
  cf_active_backend_role :: backend_role

definition check_activation_conflict :: "string \<Rightarrow> backend_manager \<Rightarrow> capability_conflict option engine_result" where
  "check_activation_conflict name m =
     (if bm_poisoned m then Inl (code_error EC_InternalError)
      else if \<not> hm_contains name (bm_backends m) then Inl (code_error EC_BackendNotFound)
      else Inr None)"

definition mb_start :: "managed_backend \<Rightarrow> unit engine_result \<times> managed_backend" where
  "mb_start b =
     (let l = br_lifecycle (mb_runtime b) in
      if \<not> bl_can_start l then
        (Inl (if l = Bl_Running then code_error EC_BackendAlreadyRunning else code_error EC_InvalidStateTransition), b)
      else mb_transition Bl_Starting b)"

definition bm_start :: "string \<Rightarrow> backend_manager \<Rightarrow> unit engine_result \<times> backend_manager" where
  "bm_start name = bm_modify mb_start name"

definition bm_mark_running :: "string \<Rightarrow> backend_manager \<Rightarrow> unit engine_result \<times> backend_manager" where
  "bm_mark_running name = bm_set_lifecycle name Bl_Running"

definition mb_stop :: "managed_backend \<Rightarrow> unit engine_result \<times> managed_backend" where
  "mb_stop b =
     (let l = br_lifecycle (mb_runtime b) in
      if l = Bl_Stopped then (Inl (code_error EC_BackendNotRunning), b)
      else if \<not> bl_can_stop l then (Inl (code_error EC_InvalidStateTransition), b)
      else mb_transition Bl_Stopping b)"

definition bm_stop :: "string \<Rightarrow> backend_manager \<Rightarrow> unit engine_result \<times> backend_manager" where
  "bm_stop name = bm_modify mb_stop name"

definition bm_mark_stopped :: "string \<Rightarrow> backend_manager \<Rightarrow> unit engine_result \<times> backend_manager" where
  "bm_mark_stopped name = bm_set_lifecycle name Bl_Stopped"

definition mb_record_success :: "u64 \<Rightarrow> managed_backend \<Rightarrow> backend_health engine_result \<times> managed_backend" where
  "mb_record_success now b = (case record_success now (mb_health b) of (h, mon) \<Rightarrow>
     let b1 = b\<lparr> mb_health := mon \<rparr> in
     (Inr h,
      if h = Health_Healthy \<and> br_lifecycle (mb_runtime b1) = Bl_Degraded then snd (mb_transition Bl_Running b1)
      else b1))"

definition bm_record_success ::
  "u64 \<Rightarrow> string \<Rightarrow> backend_manager \<Rightarrow> backend_health engine_result \<times> backend_manager" where
  "bm_record_success now name = bm_modify (mb_record_success now) name"

definition mb_record_failure ::
  "u64 \<Rightarrow> int option \<Rightarrow> managed_backend \<Rightarrow> backend_health engine_result \<times> managed_backend" where
  "mb_record_failure now native_error b = (case record_failure now (mb_health b) of (h, mon) \<Rightarrow>
     let b1 = b\<lparr> mb_runtime := br_record_error native_error (mb_runtime b), mb_health := mon \<rparr>;
         l = br_lifecycle (mb_runtime b1);
         step = (case h of
             Health_Unhealthy \<Rightarrow> if l \<noteq> Bl_Failed then mb_transition Bl_Failed b1 else (Inr (), b1)
           | Health_Degraded \<Rightarrow> if l = Bl_Running then mb_transition Bl_Degraded b1 else (Inr (), b1)
           | _ \<Rightarrow> (Inr (), b1))
     in (case step of (Inl e, b2) \<Rightarrow> (Inl e, b2) | (Inr _, b2) \<Rightarrow> (Inr h, b2)))"

definition bm_record_failure ::
  "u64 \<Rightarrow> string \<Rightarrow> int option \<Rightarrow> backend_manager \<Rightarrow> backend_health engine_result \<times> backend_manager" where
  "bm_record_failure now name native_error = bm_modify (mb_record_failure now native_error) name"

definition bm_set_failover_policy :: "failover_policy \<Rightarrow> backend_manager \<Rightarrow> unit engine_result \<times> backend_manager" where
  "bm_set_failover_policy p m =
     (if bm_policy_poisoned m then (Inl (code_error EC_InternalError), m)
      else (Inr (), m\<lparr> bm_failover_policy := p \<rparr>))"

definition bm_failover_policy_of :: "backend_manager \<Rightarrow> failover_policy engine_result" where
  "bm_failover_policy_of m =
     (if bm_policy_poisoned m then Inl (code_error EC_InternalError) else Inr (bm_failover_policy m))"

subsection \<open>Queries over all backends\<close>

definition bm_names :: "backend_manager \<Rightarrow> string list" where
  "bm_names m = (if bm_poisoned m then [] else sort (hm_keys (bm_backends m)))"

definition find_capable :: "backend_capability \<Rightarrow> backend_manager \<Rightarrow> string list" where
  "find_capable c m =
     (if bm_poisoned m then []
      else sort (map fst (filter (\<lambda>(name, b). br_is_available (mb_runtime b) \<and> br_supports c (mb_runtime b))
        (bm_backends m))))"

definition find_healthy_capable :: "backend_capability \<Rightarrow> backend_manager \<Rightarrow> string list" where
  "find_healthy_capable c m =
     (if bm_poisoned m then []
      else sort (map fst (filter (\<lambda>(name, b). br_is_available (mb_runtime b) \<and> br_supports c (mb_runtime b) \<and>
        mon_health (mb_health b) = Health_Healthy) (bm_backends m))))"

record backend_manager_stats =
  bs_registered :: usize
  bs_running :: usize
  bs_degraded :: usize
  bs_failed :: usize
  bs_stopped :: usize

definition stats_count :: "backend_lifecycle \<Rightarrow> backend_manager_stats \<Rightarrow> backend_manager_stats" where
  "stats_count l s = (case l of
      Bl_Running \<Rightarrow> s\<lparr> bs_running := bs_running s + 1 \<rparr>
    | Bl_Degraded \<Rightarrow> s\<lparr> bs_degraded := bs_degraded s + 1 \<rparr>
    | Bl_Failed \<Rightarrow> s\<lparr> bs_failed := bs_failed s + 1 \<rparr>
    | Bl_Stopped \<Rightarrow> s\<lparr> bs_stopped := bs_stopped s + 1 \<rparr>
    | Bl_Disabled \<Rightarrow> s\<lparr> bs_stopped := bs_stopped s + 1 \<rparr>
    | Bl_Starting \<Rightarrow> s
    | Bl_Stopping \<Rightarrow> s)"

definition bm_stats :: "backend_manager \<Rightarrow> backend_manager_stats" where
  "bm_stats m =
     (let none = \<lparr> bs_registered = 0, bs_running = 0, bs_degraded = 0, bs_failed = 0, bs_stopped = 0 \<rparr> in
      if bm_poisoned m then none
      else fold (\<lambda>b. stats_count (br_lifecycle (mb_runtime b))) (hm_values (bm_backends m))
             (none\<lparr> bs_registered := length (bm_backends m) \<rparr>))"

definition stats_available :: "backend_manager_stats \<Rightarrow> usize" where
  "stats_available s = bs_running s + bs_degraded s"

definition bm_descriptors :: "backend_manager \<Rightarrow> backend_descriptor list" where
  "bm_descriptors m =
     (if bm_poisoned m then []
      else sort_key bd_name (map (\<lambda>b. br_descriptor (mb_runtime b)) (hm_values (bm_backends m))))"

subsection \<open>Selection (\<open>selection.rs\<close>)\<close>

definition capable_step :: "backend_manager \<Rightarrow> capability_requirement list \<Rightarrow> string \<Rightarrow> bool" where
  "capable_step m requirements name = (case bm_runtime_state name m of
      Inl _ \<Rightarrow> False
    | Inr s \<Rightarrow>
        if br_lifecycle s \<notin> {Bl_Running, Bl_Degraded} then False
        else case bm_capabilities name m of
          Inl _ \<Rightarrow> False
        | Inr cs \<Rightarrow> is_satisfied (check_requirements cs requirements))"

definition find_capable_requirements :: "backend_manager \<Rightarrow> capability_requirement list \<Rightarrow> string list" where
  "find_capable_requirements m requirements = sort (filter (capable_step m requirements) (bm_names m))"

definition is_healthy_in :: "backend_manager \<Rightarrow> string \<Rightarrow> bool" where
  "is_healthy_in m name \<longleftrightarrow> bm_health name m = Inr Health_Healthy"

definition find_healthy_capable_requirements ::
  "backend_manager \<Rightarrow> capability_requirement list \<Rightarrow> string list" where
  "find_healthy_capable_requirements m requirements =
     filter (is_healthy_in m) (find_capable_requirements m requirements)"

definition is_primary_in :: "backend_manager \<Rightarrow> string \<Rightarrow> bool" where
  "is_primary_in m name = (case bm_runtime_state name m of
      Inr s \<Rightarrow> bd_role (br_descriptor s) = Role_Primary
    | Inl _ \<Rightarrow> False)"

definition or_first :: "string option \<Rightarrow> string list \<Rightarrow> string option" where
  "or_first found candidates = (case found of
      Some n \<Rightarrow> Some n
    | None \<Rightarrow> (case candidates of [] \<Rightarrow> None | c # _ \<Rightarrow> Some c))"

definition select_from_candidates ::
  "string list \<Rightarrow> backend_manager \<Rightarrow> string option \<times> backend_manager" where
  "select_from_candidates candidates m =
     (if candidates = [] then (None, m)
      else case bm_failover_policy_of m of
        Inl _ \<Rightarrow> (None, m)
      | Inr policy \<Rightarrow> (case policy of
          Fp_None \<Rightarrow> (or_first None candidates, m)
        | Fp_PreferPrimary \<Rightarrow> (or_first (List.find (is_primary_in m) candidates) candidates, m)
        | Fp_PreferHealthy \<Rightarrow> (or_first (List.find (is_healthy_in m) candidates) candidates, m)
        | Fp_RoundRobin \<Rightarrow>
            (Some (candidates ! (bm_round_robin_cursor m mod length candidates)),
             m\<lparr> bm_round_robin_cursor := uadd (bm_round_robin_cursor m) 1 \<rparr>)))"

definition select_backend_for_requirements ::
  "capability_requirement list \<Rightarrow> backend_manager \<Rightarrow> string option \<times> backend_manager" where
  "select_backend_for_requirements requirements m =
     select_from_candidates (find_capable_requirements m requirements) m"

definition select_backend :: "backend_capability \<Rightarrow> backend_manager \<Rightarrow> string option \<times> backend_manager" where
  "select_backend c m = select_backend_for_requirements [requirement_required c] m"

definition select_healthy_backend_for_failover ::
  "backend_capability \<Rightarrow> string \<Rightarrow> backend_manager \<Rightarrow> string option \<times> backend_manager" where
  "select_healthy_backend_for_failover c excluded m = (case bm_failover_policy_of m of
      Inl _ \<Rightarrow> (None, m)
    | Inr policy \<Rightarrow>
        if policy = Fp_None then (None, m)
        else select_from_candidates
          (filter (\<lambda>name. name \<noteq> excluded) (find_healthy_capable_requirements m [requirement_required c])) m)"

subsection \<open>Every operation keeps the lifecycle\<close>

datatype bm_op =
    Bm_Register backend_descriptor
  | Bm_Unregister string
  | Bm_Set_Lifecycle string backend_lifecycle
  | Bm_Start string
  | Bm_Stop string
  | Bm_Record_Success u64 string
  | Bm_Record_Failure u64 string "int option"
  | Bm_Set_Policy failover_policy
  | Bm_Select "capability_requirement list"
  | Bm_Failover backend_capability string

primrec bm_exec :: "bm_op \<Rightarrow> backend_manager \<Rightarrow> backend_manager" where
  "bm_exec (Bm_Register d) m = snd (bm_register d m)"
| "bm_exec (Bm_Unregister n) m = snd (bm_unregister n m)"
| "bm_exec (Bm_Set_Lifecycle n l) m = snd (bm_set_lifecycle n l m)"
| "bm_exec (Bm_Start n) m = snd (bm_start n m)"
| "bm_exec (Bm_Stop n) m = snd (bm_stop n m)"
| "bm_exec (Bm_Record_Success now n) m = snd (bm_record_success now n m)"
| "bm_exec (Bm_Record_Failure now n e) m = snd (bm_record_failure now n e m)"
| "bm_exec (Bm_Set_Policy p) m = snd (bm_set_failover_policy p m)"
| "bm_exec (Bm_Select rs) m = snd (select_backend_for_requirements rs m)"
| "bm_exec (Bm_Failover c n) m = snd (select_healthy_backend_for_failover c n m)"

abbreviation lifecycle_of :: "managed_backend \<Rightarrow> backend_lifecycle" where
  "lifecycle_of b \<equiv> br_lifecycle (mb_runtime b)"

abbreviation name_of :: "managed_backend \<Rightarrow> string" where
  "name_of b \<equiv> bd_name (br_descriptor (mb_runtime b))"

definition bm_inv :: "backend_manager \<Rightarrow> bool" where
  "bm_inv m \<longleftrightarrow> hm_wf (bm_backends m) \<and>
     (\<forall>n b. hm_get n (bm_backends m) = Some b \<longrightarrow> name_of b = n \<and> trim n \<noteq> [])"

text \<open>What an in-place update of one entry may do: follow one edge of the lifecycle table.\<close>

definition legal_update :: "(managed_backend \<Rightarrow> 'a engine_result \<times> managed_backend) \<Rightarrow> bool" where
  "legal_update f \<longleftrightarrow> (\<forall>b. br_descriptor (mb_runtime (snd (f b))) = br_descriptor (mb_runtime b) \<and>
     bl_can_transition_to (lifecycle_of b) (lifecycle_of (snd (f b))))"

definition keeps_lifecycles :: "backend_manager \<Rightarrow> backend_manager \<Rightarrow> bool" where
  "keeps_lifecycles m m' \<longleftrightarrow> (\<forall>n b. hm_get n (bm_backends m) = Some b \<longrightarrow>
     (case hm_get n (bm_backends m') of
        None \<Rightarrow> \<not> bl_is_active (lifecycle_of b)
      | Some b' \<Rightarrow> bl_can_transition_to (lifecycle_of b) (lifecycle_of b')))"

lemma bl_can_refl [simp]: "bl_can_transition_to l l"
  by (simp add: bl_can_transition_to_def)

lemma keeps_lifecycles_same: "bm_backends m' = bm_backends m \<Longrightarrow> keeps_lifecycles m m'"
  by (simp add: keeps_lifecycles_def split: option.splits)

lemma bm_inv_same: "bm_backends m' = bm_backends m \<Longrightarrow> bm_inv m \<Longrightarrow> bm_inv m'"
  by (simp add: bm_inv_def)

lemma bm_modify_legal:
  assumes "legal_update f" and "bm_inv m"
  shows "bm_inv (snd (bm_modify f n m)) \<and> keeps_lifecycles m (snd (bm_modify f n m))"
proof (cases "bm_poisoned m \<or> hm_get n (bm_backends m) = None")
  case True
  then have "snd (bm_modify f n m) = m" by (auto simp: bm_modify_def)
  then show ?thesis using assms(2) keeps_lifecycles_same by simp
next
  case False
  then obtain b where b: "hm_get n (bm_backends m) = Some b" "\<not> bm_poisoned m" by auto
  have m': "bm_backends (snd (bm_modify f n m)) = hm_insert n (snd (f b)) (bm_backends m)"
    using b by (simp add: bm_modify_def split: prod.splits)
  show ?thesis
    using assms b by (auto simp: bm_inv_def keeps_lifecycles_def m' hm legal_update_def split: option.splits)
qed

lemma mb_transition_legal: "legal_update (mb_transition l)"
  by (auto simp: legal_update_def mb_transition_def br_transition_def bl_validate_transition_def)

lemma mb_set_lifecycle_legal: "legal_update (mb_set_lifecycle l)"
  by (cases l) (auto simp: legal_update_def mb_set_lifecycle_def mb_transition_def br_transition_def
      bl_validate_transition_def)

lemma mb_start_legal: "legal_update mb_start"
  using mb_transition_legal [of Bl_Starting] by (auto simp: legal_update_def mb_start_def Let_def)

lemma mb_stop_legal: "legal_update mb_stop"
  using mb_transition_legal [of Bl_Stopping] by (auto simp: legal_update_def mb_stop_def Let_def)

lemma mb_record_success_legal: "legal_update (mb_record_success now)"
  by (auto simp: legal_update_def mb_record_success_def mb_transition_def br_transition_def bl_validate_transition_def
      Let_def split: prod.splits)

lemma mb_record_failure_legal: "legal_update (mb_record_failure now e)"
  by (auto simp: legal_update_def mb_record_failure_def mb_transition_def br_transition_def bl_validate_transition_def
      br_record_error_def Let_def split: prod.splits backend_health.splits)

lemmas legal_updates = mb_set_lifecycle_legal mb_start_legal mb_stop_legal mb_record_success_legal mb_record_failure_legal

lemma select_from_candidates_backends [simp]:
  "bm_backends (snd (select_from_candidates cs m)) = bm_backends m"
  by (simp add: select_from_candidates_def split: sum.splits failover_policy.splits)

lemma bm_exec_legal:
  assumes "bm_inv m"
  shows "bm_inv (bm_exec op m) \<and> keeps_lifecycles m (bm_exec op m)"
proof -
  have same: "bm_backends m' = bm_backends m \<Longrightarrow> bm_inv m' \<and> keeps_lifecycles m m'" for m'
    using bm_inv_same [OF _ assms] keeps_lifecycles_same by blast
  show ?thesis
  proof (cases op)
    case (Bm_Register d)
    then show ?thesis
      using assms
      by (auto simp: bm_register_def bm_inv_def keeps_lifecycles_def managed_backend_new_def runtime_state_new_def hm
          split: option.splits)
  next
    case (Bm_Unregister n)
    then show ?thesis
      using assms by (auto simp: bm_unregister_def bm_inv_def keeps_lifecycles_def hm split: option.splits)
  qed (simp_all add: bm_modify_legal [OF _ assms] legal_updates same bm_set_lifecycle_def bm_start_def bm_stop_def
      bm_record_success_def bm_record_failure_def bm_set_failover_policy_def select_backend_for_requirements_def
      select_healthy_backend_for_failover_def split: sum.splits)
qed

lemma bm_inv_new: "bm_inv backend_manager_new"
  by (simp add: bm_inv_def backend_manager_new_def)

lemma bm_inv_run: "bm_inv m \<Longrightarrow> bm_inv (fold bm_exec ops m)"
  by (induction ops arbitrary: m) (simp_all add: bm_exec_legal)

text \<open>
  C19: Whatever operations ran on a new manager, the next one moves each registered backend along
  at most one edge of the lifecycle table, and removes a backend only while it is not active;
  and every backend is registered under its own, non-blank name.
\<close>

theorem manager_lifecycle_legal:
  assumes "m = fold bm_exec ops backend_manager_new" and "hm_get n (bm_backends m) = Some b"
  shows "name_of b = n \<and> trim n \<noteq> [] \<and>
    (case hm_get n (bm_backends (bm_exec op m)) of
       None \<Rightarrow> \<not> bl_is_active (lifecycle_of b)
     | Some b' \<Rightarrow> bl_can_transition_to (lifecycle_of b) (lifecycle_of b'))"
proof -
  have inv: "bm_inv m" using bm_inv_run [OF bm_inv_new] assms(1) by simp
  then show ?thesis
    using bm_exec_legal [OF inv, of op] assms(2) by (simp add: bm_inv_def keeps_lifecycles_def)
qed

definition demo_backend :: "string \<Rightarrow> backend_descriptor" where
  "demo_backend n = backend_descriptor_new n ''1'' [] [Cap_Capture]"

lemma demo_backend_simps [simp]:
  "trim ''a'' = ''a''" "trim ''b'' = ''b''" "trim [] = []"
  "bd_name (demo_backend ''a'') = ''a''" "bd_name (demo_backend ''b'') = ''b''"
  "bd_capabilities (demo_backend n) = [Cap_Capture]" "bd_role (demo_backend n) = Role_Supplementary"
  by (simp_all add: trim_def is_whitespace_def demo_backend_def backend_descriptor_new_def)

lemmas bm_op_defs = bm_register_def bm_unregister_def bm_set_lifecycle_def bm_start_def bm_stop_def bm_modify_def
  mb_start_def mb_stop_def mb_set_lifecycle_def mb_transition_def br_transition_def bl_validate_transition_def
  bl_can_transition_to_def bl_can_start_def bl_can_stop_def backend_manager_new_def managed_backend_new_def
  runtime_state_new_def

theorem manager_lifecycle_legal_witness:
  "let m = fold bm_exec [Bm_Register (demo_backend ''a''), Bm_Start ''a''] backend_manager_new in
     \<exists>b b'. hm_get ''a'' (bm_backends m) = Some b \<and> lifecycle_of b = Bl_Starting \<and> name_of b = ''a'' \<and>
       hm_get ''a'' (bm_backends (bm_exec (Bm_Set_Lifecycle ''a'' Bl_Running) m)) = Some b' \<and>
       bl_can_transition_to (lifecycle_of b) (lifecycle_of b')"
proof -
  define m where "m = fold bm_exec [Bm_Register (demo_backend ''a''), Bm_Start ''a''] backend_manager_new"
  obtain b where b: "hm_get ''a'' (bm_backends m) = Some b" "lifecycle_of b = Bl_Starting"
    by (simp add: m_def bm_op_defs hm Let_def)
  obtain b' where b': "hm_get ''a'' (bm_backends (bm_exec (Bm_Set_Lifecycle ''a'' Bl_Running) m)) = Some b'"
    by (simp add: m_def bm_op_defs hm Let_def)
  show ?thesis
    unfolding m_def [symmetric] Let_def
    using manager_lifecycle_legal [OF m_def b(1), of "Bm_Set_Lifecycle ''a'' Bl_Running"] b b' by simp
qed

subsection \<open>Selection\<close>

lemma find_sorted_Min: "sorted xs \<Longrightarrow> List.find P xs = (if \<exists>x \<in> set xs. P x then Some (Min {x \<in> set xs. P x}) else None)"
proof (induction xs)
  case (Cons y xs)
  show ?case
  proof (cases "P y")
    case True
    have "Min {x \<in> set (y # xs). P x} = y"
      using Cons.prems True by (intro Min_eqI) auto
    then show ?thesis using True by simp
  next
    case False
    then have "{x \<in> set (y # xs). P x} = {x \<in> set xs. P x}" by auto
    then show ?thesis using False Cons by simp
  qed
qed simp

definition satisfies :: "managed_backend \<Rightarrow> capability_requirement list \<Rightarrow> bool" where
  "satisfies b rs \<longleftrightarrow> br_is_available (mb_runtime b) \<and>
     (\<forall>r \<in> set rs. cr_required r \<longrightarrow> br_supports (cr_capability r) (mb_runtime b))"

definition candidates_of :: "backend_manager \<Rightarrow> capability_requirement list \<Rightarrow> string set" where
  "candidates_of m rs = {n. \<exists>b. hm_get n (bm_backends m) = Some b \<and> satisfies b rs}"

lemma capable_step_iff:
  "\<not> bm_poisoned m \<Longrightarrow> capable_step m rs n \<longleftrightarrow> n \<in> candidates_of m rs"
  by (auto simp: capable_step_def bm_runtime_state_def bm_capabilities_def bm_query_def candidates_of_def satisfies_def
      is_satisfied_check br_is_available_def br_supports_def descriptor_supports_def capability_set_contains_def
      split: option.splits)

lemma bm_names_set: "\<not> bm_poisoned m \<Longrightarrow> n \<in> set (bm_names m) \<longleftrightarrow> hm_contains n (bm_backends m)"
  using hm_get_None_iff [of n "bm_backends m"] by (auto simp: bm_names_def hm_keys_def)

lemma find_capable_requirements_spec:
  assumes "bm_inv m" and "\<not> bm_poisoned m"
  shows "set (find_capable_requirements m rs) = candidates_of m rs"
    and "sorted (find_capable_requirements m rs)" and "distinct (find_capable_requirements m rs)"
proof -
  show "set (find_capable_requirements m rs) = candidates_of m rs"
    using assms(2) by (auto simp: find_capable_requirements_def bm_names_set capable_step_iff candidates_of_def)
  show "sorted (find_capable_requirements m rs)" by (simp add: find_capable_requirements_def)
  show "distinct (find_capable_requirements m rs)"
    using assms by (simp add: find_capable_requirements_def bm_names_def bm_inv_def hm_wf_def hm_keys_def)
qed


lemma or_first_None: "sorted xs \<Longrightarrow> xs \<noteq> [] \<Longrightarrow> or_first None xs = Some (Min (set xs))"
  by (cases xs) (auto simp: or_first_def intro!: Min_eqI [symmetric])

lemma or_first_find:
  "sorted xs \<Longrightarrow> xs \<noteq> [] \<Longrightarrow>
     or_first (List.find P xs) xs = Some (Min (if \<exists>x \<in> set xs. P x then {x \<in> set xs. P x} else set xs))"
  by (simp add: find_sorted_Min or_first_None) (simp add: or_first_def)

definition preferred :: "backend_manager \<Rightarrow> string \<Rightarrow> bool" where
  "preferred m n = (case bm_failover_policy m of
      Fp_PreferPrimary \<Rightarrow> is_primary_in m n
    | Fp_PreferHealthy \<Rightarrow> is_healthy_in m n
    | _ \<Rightarrow> False)"

text \<open>What \<open>select_from_candidates\<close> does with a sorted list of candidates.\<close>

lemma select_from_candidates_spec:
  assumes "sorted cs" and "\<not> bm_policy_poisoned m"
  shows "case select_from_candidates cs m of
      (None, m') \<Rightarrow> cs = [] \<and> m' = m
    | (Some n, m') \<Rightarrow> n \<in> set cs \<and> m' = m\<lparr> bm_round_robin_cursor := bm_round_robin_cursor m' \<rparr> \<and>
        (bm_failover_policy m \<noteq> Fp_RoundRobin \<longrightarrow>
           n = Min (if \<exists>x \<in> set cs. preferred m x then {x \<in> set cs. preferred m x} else set cs) \<and> m' = m)"
proof (cases "cs = []")
  case False
  have Min_in_set: "Min (if \<exists>x \<in> set cs. P x then {x \<in> set cs. P x} else set cs) \<in> set cs" for P
  proof (cases "\<exists>x \<in> set cs. P x")
    case True
    then have "Min {x \<in> set cs. P x} \<in> {x \<in> set cs. P x}" by (intro Min_in) auto
    with True show ?thesis by simp
  qed (use False in simp)
  show ?thesis
    using False assms Min_in_set [of "is_primary_in m"] Min_in_set [of "is_healthy_in m"] Min_in_set [of "\<lambda>_. False"]
    by (cases "bm_failover_policy m")
      (simp_all add: select_from_candidates_def bm_failover_policy_of_def or_first_find or_first_None preferred_def)
qed (simp add: select_from_candidates_def)

text \<open>
  Selecting a backend for a set of requirements is sound and complete. A backend is selected
  exactly if some registered backend is running or degraded and declares every required
  capability, and the one selected is such a backend; unless the policy is round-robin it is
  the first by name among the preferred candidates (the primary or the healthy ones, as the
  policy says), or among all candidates if none is preferred. Selection changes nothing but the
  round-robin cursor.
\<close>

lemma selection_sound:
  assumes "bm_inv m" and "\<not> bm_poisoned m" and "\<not> bm_policy_poisoned m" and "cand = candidates_of m rs"
  shows "case select_backend_for_requirements rs m of
      (None, m') \<Rightarrow> cand = {} \<and> m' = m
    | (Some n, m') \<Rightarrow> n \<in> cand \<and> m' = m\<lparr> bm_round_robin_cursor := bm_round_robin_cursor m' \<rparr> \<and>
        (bm_failover_policy m \<noteq> Fp_RoundRobin \<longrightarrow>
           n = Min (if \<exists>x \<in> cand. preferred m x then {x \<in> cand. preferred m x} else cand) \<and> m' = m)"
  using select_from_candidates_spec [OF find_capable_requirements_spec(2) assms(3), of m rs]
    find_capable_requirements_spec(1) [of m rs] assms
  by (auto simp: select_backend_for_requirements_def split: prod.splits option.splits)

lemma failover_candidates:
  assumes "bm_inv m" and "\<not> bm_poisoned m"
  shows "set (filter (\<lambda>n. n \<noteq> x) (find_healthy_capable_requirements m rs)) =
      {n \<in> candidates_of m rs. n \<noteq> x \<and> is_healthy_in m n}"
    and "sorted (filter (\<lambda>n. n \<noteq> x) (find_healthy_capable_requirements m rs))"
  using find_capable_requirements_spec [OF assms, of rs]
  by (auto simp: find_healthy_capable_requirements_def sorted_wrt_filter)

text \<open>
  C20: Fail-over is safe and complete: a fail-over from a backend never selects that backend, and
  selects only a healthy, running or degraded backend that declares the capability; it selects
  none exactly if the policy disables fail-over or there is no such backend.
\<close>

theorem failover_sound:
  assumes "bm_inv m" and "\<not> bm_poisoned m" and "\<not> bm_policy_poisoned m"
    and "cand = {n \<in> candidates_of m [requirement_required c]. n \<noteq> failed \<and> is_healthy_in m n}"
  shows "case fst (select_healthy_backend_for_failover c failed m) of
      None \<Rightarrow> bm_failover_policy m = Fp_None \<or> cand = {}
    | Some n \<Rightarrow> bm_failover_policy m \<noteq> Fp_None \<and> n \<in> cand"
proof -
  define cs where "cs = filter (\<lambda>n. n \<noteq> failed) (find_healthy_capable_requirements m [requirement_required c])"
  have cs: "set cs = cand" "sorted cs"
    using failover_candidates [OF assms(1,2)] assms(4) by (simp_all add: cs_def)
  have select: "fst (select_healthy_backend_for_failover c failed m) =
      (if bm_failover_policy m = Fp_None then None else fst (select_from_candidates cs m))"
    using assms(3) by (simp add: select_healthy_backend_for_failover_def bm_failover_policy_of_def cs_def)
  show ?thesis
    using select_from_candidates_spec [OF cs(2) assms(3)] cs(1)
    by (cases "select_from_candidates cs m") (auto simp: select split: option.splits)
qed

definition demo_manager :: backend_manager where
  "demo_manager = fold bm_exec
     [Bm_Register (demo_backend ''a''), Bm_Register (demo_backend ''b''), Bm_Start ''a'', Bm_Start ''b'',
      Bm_Set_Lifecycle ''a'' Bl_Running, Bm_Set_Lifecycle ''b'' Bl_Running] backend_manager_new"

lemma demo_manager_facts:
  "bm_inv demo_manager" "\<not> bm_poisoned demo_manager" "\<not> bm_policy_poisoned demo_manager"
  "bm_failover_policy demo_manager = Fp_PreferHealthy" "bm_round_robin_cursor demo_manager = 0"
  "is_healthy_in demo_manager ''a''" "is_healthy_in demo_manager ''b''"
  "candidates_of demo_manager [requirement_required Cap_Capture] = {''a'', ''b''}"
proof -
  show "bm_inv demo_manager" unfolding demo_manager_def by (rule bm_inv_run [OF bm_inv_new])
qed (auto simp: demo_manager_def bm_op_defs hm Let_def is_healthy_in_def bm_health_def bm_query_def force_health_def
    candidates_of_def satisfies_def br_is_available_def requirement_required_def br_supports_def
    descriptor_supports_def capability_set_contains_def split: if_splits)

theorem selection_sound_witness:
  "bm_inv demo_manager \<and> fst (select_backend_for_requirements [requirement_required Cap_Capture] demo_manager) = Some ''a''"
proof -
  have "Min {''a'', ''b''} = ''a''" by (simp add: min_def)
  moreover have "{x. (x = ''a'' \<or> x = ''b'') \<and> preferred demo_manager x} = {''a'', ''b''}"
    "preferred demo_manager ''a''"
    by (auto simp: preferred_def demo_manager_facts)
  ultimately show ?thesis
    using selection_sound [OF demo_manager_facts(1-3) refl, of "[requirement_required Cap_Capture]"]
    by (auto simp: demo_manager_facts split: prod.splits option.splits)
qed

theorem failover_sound_witness:
  "bm_inv demo_manager \<and> fst (select_healthy_backend_for_failover Cap_Capture ''a'' demo_manager) = Some ''b''"
  using failover_sound [OF demo_manager_facts(1-3) refl, of Cap_Capture "''a''"]
  by (auto simp: demo_manager_facts split: option.splits)

text \<open>\<open>select_times k\<close> makes \<open>k\<close> selections in a row.\<close>

primrec select_times ::
  "nat \<Rightarrow> capability_requirement list \<Rightarrow> backend_manager \<Rightarrow> string option list \<times> backend_manager" where
  "select_times 0 rs m = ([], m)"
| "select_times (Suc k) rs m = (case select_backend_for_requirements rs m of (r, m1) \<Rightarrow>
     case select_times k rs m1 of (res, m2) \<Rightarrow> (r # res, m2))"

lemma find_capable_requirements_cong:
  assumes "bm_backends m' = bm_backends m" and "bm_poisoned m' = bm_poisoned m"
  shows "find_capable_requirements m' rs = find_capable_requirements m rs"
proof -
  have "capable_step m' rs = capable_step m rs"
    using assms
    by (simp add: fun_eq_iff capable_step_def bm_runtime_state_def bm_capabilities_def bm_query_def split: option.splits)
  then show ?thesis using assms by (simp add: find_capable_requirements_def bm_names_def)
qed

lemma select_times_round_robin:
  assumes "bm_failover_policy m = Fp_RoundRobin" and "\<not> bm_policy_poisoned m"
    and "find_capable_requirements m rs = cs" and "cs \<noteq> []" and "bm_round_robin_cursor m + k < 2 ^ 64"
  shows "fst (select_times k rs m) = map (\<lambda>i. Some (cs ! ((bm_round_robin_cursor m + i) mod length cs))) [0..<k]"
  using assms
proof (induction k arbitrary: m)
  case (Suc k)
  let ?m1 = "m\<lparr> bm_round_robin_cursor := Suc (bm_round_robin_cursor m) \<rparr>"
  have step: "select_backend_for_requirements rs m = (Some (cs ! (bm_round_robin_cursor m mod length cs)), ?m1)"
    using Suc.prems
    by (simp add: select_backend_for_requirements_def select_from_candidates_def bm_failover_policy_of_def uadd_def)
  have "fst (select_times k rs ?m1) = map (\<lambda>i. Some (cs ! ((bm_round_robin_cursor ?m1 + i) mod length cs))) [0..<k]"
    by (rule Suc.IH) (use Suc.prems find_capable_requirements_cong [of ?m1 m rs] in simp_all)
  then show ?case
    by (simp add: step case_prod_beta map_upt_Suc del: upt_Suc)
qed simp

text \<open>
  Round-robin selection is fair: while the backends do not change, as many selections in a row
  as there are candidates return every candidate exactly once, in order and starting where the
  cursor stands (as long as the cursor does not wrap around within them).
\<close>

lemma round_robin_fair:
  assumes "bm_failover_policy m = Fp_RoundRobin" and "\<not> bm_policy_poisoned m"
    and "find_capable_requirements m rs = cs" and "cs \<noteq> []" and "bm_round_robin_cursor m + length cs < 2 ^ 64"
  shows "fst (select_times (length cs) rs m) = map Some (rotate (bm_round_robin_cursor m) cs)"
  unfolding select_times_round_robin [OF assms] by (rule nth_equalityI) (simp_all add: nth_rotate add.commute)

definition demo_round_robin :: backend_manager where
  "demo_round_robin = demo_manager\<lparr> bm_failover_policy := Fp_RoundRobin, bm_round_robin_cursor := 5 \<rparr>"

theorem round_robin_fair_witness:
  "fst (select_times 2 [requirement_required Cap_Capture] demo_round_robin) = [Some ''b'', Some ''a'']"
proof -
  have "find_capable_requirements demo_manager [requirement_required Cap_Capture] = [''a'', ''b'']"
    using find_capable_requirements_spec [OF demo_manager_facts(1,2), of "[requirement_required Cap_Capture]"]
    by (intro sorted_distinct_set_unique) (simp_all add: demo_manager_facts)
  moreover have "find_capable_requirements demo_round_robin rs = find_capable_requirements demo_manager rs" for rs
    by (rule find_capable_requirements_cong) (simp_all add: demo_round_robin_def)
  ultimately have "fst (select_times (length [''a'', ''b'']) [requirement_required Cap_Capture] demo_round_robin) =
      map Some (rotate (bm_round_robin_cursor demo_round_robin) [''a'', ''b''])"
    by (intro round_robin_fair) (simp_all add: demo_round_robin_def demo_manager_facts)
  moreover have "rotate 5 [''a'', ''b''] = [''b'', ''a'']"
    by (simp add: eval_nat_numeral)
  ultimately show ?thesis
    by (simp add: demo_round_robin_def numeral_2_eq_2)
qed

subsection \<open>A failed report that is recorded\<close>

text \<open>
  Reporting the failure that makes a stopped backend unhealthy returns an error, because there is
  no edge from \<open>Stopped\<close> to \<open>Failed\<close>; yet the failure has been counted and the health of the
  backend is now \<open>Unhealthy\<close>.
\<close>

lemma record_failure_refused_but_recorded:
  assumes "\<not> bm_poisoned m" and "hm_get n (bm_backends m) = Some b" and "lifecycle_of b = Bl_Stopped"
    and "record_failure now (mb_health b) = (Health_Unhealthy, mon)"
  shows "\<exists>b'. bm_record_failure now n e m =
      (Inl (Error_Code EC_InvalidStateTransition), m\<lparr> bm_backends := hm_insert n b' (bm_backends m) \<rparr>) \<and>
    mon_health (mb_health b') = Health_Unhealthy \<and> lifecycle_of b' = Bl_Stopped \<and>
    br_error_count (mb_runtime b') = saturating_add (br_error_count (mb_runtime b)) 1"
proof -
  have "mon_health mon = Health_Unhealthy"
    using assms(4) by (auto simp: record_failure_def Let_def split: if_splits)
  then show ?thesis
    using assms
    by (intro exI [of _ "b\<lparr> mb_health := mon, mb_runtime := br_record_error e (mb_runtime b) \<rparr>"])
      (simp add: bm_record_failure_def bm_modify_def mb_record_failure_def mb_transition_def br_transition_def
        bl_validate_transition_def bl_can_transition_to_def br_record_error_def)
qed

end
