(* ===== verification/Backend_Coverage.thy ===== *)
theory Backend_Coverage
  imports Backend_Manager
begin

text \<open>
  Which backend covers which capability: \<open>crates/backend-manager/src/complementarity.rs\<close> (the
  matrix of intended primary and fallback backends, and the coverage report computed from the
  manager), and the five backends the engine knows, \<open>crates/backend-contracts/src/kind.rs\<close> and
  \<open>known.rs\<close>.
\<close>

subsection \<open>The matrix\<close>

primrec primary_names :: "backend_capability \<Rightarrow> string list" where
  "primary_names Cap_Capture = [''npcap'']"
| "primary_names Cap_L2Capture = [''npcap'']"
| "primary_names Cap_RawEthernet = [''npcap'']"
| "primary_names Cap_AdapterEnumeration = [''npcap'']"
| "primary_names Cap_Ipv4 = [''windivert'']"
| "primary_names Cap_Ipv6 = [''windivert'']"
| "primary_names Cap_Tcp = [''windivert'']"
| "primary_names Cap_Udp = [''windivert'']"
| "primary_names Cap_Icmp = [''windivert'']"
| "primary_names Cap_IcmpV6 = [''windivert'']"
| "primary_names Cap_NetworkLayer = [''windivert'']"
| "primary_names Cap_AddressMetadata = [''windivert'']"
| "primary_names Cap_Interception = [''windivert'']"
| "primary_names Cap_Filtering = [''windivert'']"
| "primary_names Cap_Inspection = [''windivert'']"
| "primary_names Cap_Direction = [''windivert'']"
| "primary_names Cap_Modification = [''windivert'']"
| "primary_names Cap_Pass = [''windivert'']"
| "primary_names Cap_Drop = [''windivert'']"
| "primary_names Cap_Reinjection = [''windivert'']"
| "primary_names Cap_QueueControl = [''windivert'']"
| "primary_names Cap_HandleLifetime = [''windivert'']"
| "primary_names Cap_ErrorReporting = [''windivert'']"
| "primary_names Cap_WfpEngineAccess = [''wfp'']"
| "primary_names Cap_WfpFilters = [''wfp'']"
| "primary_names Cap_WfpLayers = [''wfp'']"
| "primary_names Cap_WfpFlows = [''wfp'']"
| "primary_names Cap_InterfaceInfo = [''iphelper'']"
| "primary_names Cap_RouteInfo = [''iphelper'']"
| "primary_names Cap_NeighborInfo = [''iphelper'']"
| "primary_names Cap_GatewayInfo = [''iphelper'']"
| "primary_names Cap_Diagnostics = [''etw'']"
| "primary_names Cap_Telemetry = [''etw'']"
| "primary_names Cap_Forwarding = []"
| "primary_names Cap_NatState = []"

definition fallback_names :: "backend_capability \<Rightarrow> string list" where
  "fallback_names c = (case c of
      Cap_Capture \<Rightarrow> [''windivert'']
    | Cap_L2Capture \<Rightarrow> [''windivert'']
    | Cap_RawEthernet \<Rightarrow> [''windivert'']
    | Cap_Ipv4 \<Rightarrow> [''npcap'']
    | Cap_Ipv6 \<Rightarrow> [''npcap'']
    | Cap_Tcp \<Rightarrow> [''npcap'']
    | Cap_Udp \<Rightarrow> [''npcap'']
    | Cap_Icmp \<Rightarrow> [''npcap'']
    | Cap_IcmpV6 \<Rightarrow> [''npcap'']
    | Cap_Filtering \<Rightarrow> [''wfp'']
    | Cap_Pass \<Rightarrow> [''wfp'']
    | Cap_Drop \<Rightarrow> [''wfp'']
    | Cap_NeighborInfo \<Rightarrow> [''npcap'']
    | _ \<Rightarrow> [])"

definition has_fallback :: "backend_capability \<Rightarrow> bool" where
  "has_fallback c \<longleftrightarrow> fallback_names c \<noteq> []"

subsection \<open>The coverage report\<close>

datatype capability_status = Cov_Available | Cov_Degraded | Cov_Unavailable | Cov_Lost

definition status_is_usable :: "capability_status \<Rightarrow> bool" where
  "status_is_usable s \<longleftrightarrow> s \<in> {Cov_Available, Cov_Degraded}"

definition status_is_unavailable :: "capability_status \<Rightarrow> bool" where
  "status_is_unavailable s \<longleftrightarrow> s \<in> {Cov_Unavailable, Cov_Lost}"

record capability_coverage =
  cv_capability :: backend_capability
  cv_status :: capability_status
  cv_active :: "string option"
  cv_primary :: "string list"
  cv_fallbacks :: "string list"

definition coverage_empty :: "backend_capability \<Rightarrow> capability_coverage" where
  "coverage_empty c = \<lparr> cv_capability = c, cv_status = Cov_Unavailable, cv_active = None, cv_primary = [],
     cv_fallbacks = [] \<rparr>"

text \<open>
  One round of the loop over the registered names. The last two branches of the source do the
  same: a backend that declares the capability and is not a declared primary is a fallback.
\<close>

definition coverage_step :: "backend_manager \<Rightarrow> string \<Rightarrow> capability_coverage \<Rightarrow> capability_coverage" where
  "coverage_step m name cov = (case bm_runtime_state name m of
      Inl _ \<Rightarrow> cov
    | Inr s \<Rightarrow>
        if \<not> br_supports (cv_capability cov) s then cov
        else if name \<in> set (primary_names (cv_capability cov)) then cov\<lparr> cv_primary := cv_primary cov @ [name] \<rparr>
        else if name \<in> set (fallback_names (cv_capability cov)) then cov\<lparr> cv_fallbacks := cv_fallbacks cov @ [name] \<rparr>
        else cov\<lparr> cv_fallbacks := cv_fallbacks cov @ [name] \<rparr>)"

definition is_operational :: "backend_manager \<Rightarrow> string \<Rightarrow> bool" where
  "is_operational m name = (case bm_runtime_state name m of
      Inl _ \<Rightarrow> False
    | Inr s \<Rightarrow>
        if br_lifecycle s \<notin> {Bl_Running, Bl_Degraded} then False
        else case bm_health name m of Inl _ \<Rightarrow> False | Inr h \<Rightarrow> h \<noteq> Health_Unhealthy)"

definition select_with_fallback :: "backend_manager \<Rightarrow> backend_capability \<Rightarrow> capability_coverage" where
  "select_with_fallback m c =
     (let cov = fold (coverage_step m) (bm_names m) (coverage_empty c);
          cov = cov\<lparr> cv_primary := sort (cv_primary cov), cv_fallbacks := sort (cv_fallbacks cov) \<rparr> in
      case List.find (is_operational m) (cv_primary cov) of
        Some active \<Rightarrow> cov\<lparr> cv_active := Some active, cv_status := Cov_Available \<rparr>
      | None \<Rightarrow> (case List.find (is_operational m) (cv_fallbacks cov) of
          Some active \<Rightarrow> cov\<lparr> cv_active := Some active, cv_status := Cov_Degraded \<rparr>
        | None \<Rightarrow>
            if cv_primary cov = [] \<and> cv_fallbacks cov = [] then cov\<lparr> cv_status := Cov_Unavailable \<rparr>
            else cov\<lparr> cv_status := Cov_Lost \<rparr>))"

definition coverage_status :: "backend_manager \<Rightarrow> backend_capability \<Rightarrow> capability_status" where
  "coverage_status m c = cv_status (select_with_fallback m c)"

subsection \<open>The known backends (\<open>backend-contracts\<close>)\<close>

datatype backend_kind = Kind_Npcap | Kind_WinDivert | Kind_Wfp | Kind_IpHelper | Kind_Etw

primrec kind_name :: "backend_kind \<Rightarrow> string" where
  "kind_name Kind_Npcap = ''npcap''"
| "kind_name Kind_WinDivert = ''windivert''"
| "kind_name Kind_Wfp = ''wfp''"
| "kind_name Kind_IpHelper = ''iphelper''"
| "kind_name Kind_Etw = ''etw''"

definition kind_all :: "backend_kind list" where
  "kind_all = [Kind_Npcap, Kind_WinDivert, Kind_Wfp, Kind_IpHelper, Kind_Etw]"

definition kind_from_name :: "string \<Rightarrow> backend_kind option" where
  "kind_from_name name =
     (if name = ''npcap'' then Some Kind_Npcap
      else if name = ''windivert'' then Some Kind_WinDivert
      else if name = ''wfp'' then Some Kind_Wfp
      else if name = ''iphelper'' then Some Kind_IpHelper
      else if name = ''etw'' then Some Kind_Etw
      else None)"

definition npcap_descriptor :: backend_descriptor where
  "npcap_descriptor = descriptor_role Role_Primary (backend_descriptor_new ''npcap'' ''0.1.0'' ''Npcap Layer-2/raw packet acquisition backend''
     (capability_set_from [
       Cap_Capture, Cap_Inspection, Cap_L2Capture, Cap_RawEthernet, Cap_AdapterEnumeration,
       Cap_AddressMetadata, Cap_ErrorReporting]))"

definition windivert_descriptor :: backend_descriptor where
  "windivert_descriptor = descriptor_role Role_Primary (backend_descriptor_new ''windivert'' ''0.1.0'' ''WinDivert IP-layer interception and packet-action backend''
     (capability_set_from [
       Cap_Capture, Cap_Interception, Cap_Filtering, Cap_Inspection, Cap_Direction, Cap_Ipv4,
       Cap_Ipv6, Cap_Tcp, Cap_Udp, Cap_Icmp, Cap_IcmpV6, Cap_NetworkLayer, Cap_AddressMetadata,
       Cap_Modification, Cap_Drop, Cap_Pass, Cap_Reinjection, Cap_QueueControl, Cap_HandleLifetime,
       Cap_ErrorReporting]))"

definition wfp_descriptor :: backend_descriptor where
  "wfp_descriptor = descriptor_role Role_Primary (backend_descriptor_new ''wfp'' ''0.1.0'' ''Windows Filtering Platform backend''
     (capability_set_from [
       Cap_Filtering, Cap_Inspection, Cap_Interception, Cap_WfpEngineAccess, Cap_WfpFilters,
       Cap_WfpLayers, Cap_WfpFlows, Cap_AddressMetadata, Cap_ErrorReporting]))"

definition iphelper_descriptor :: backend_descriptor where
  "iphelper_descriptor = backend_descriptor_new ''iphelper'' ''0.1.0'' ''Windows IP Helper network-state backend''
     (capability_set_from [
       Cap_InterfaceInfo, Cap_RouteInfo, Cap_NeighborInfo, Cap_GatewayInfo, Cap_AdapterEnumeration,
       Cap_ErrorReporting])"

definition etw_descriptor :: backend_descriptor where
  "etw_descriptor = backend_descriptor_new ''etw'' ''0.1.0'' ''Windows ETW diagnostics and telemetry backend''
     (capability_set_from [
       Cap_Diagnostics, Cap_Telemetry, Cap_ErrorReporting])"

primrec descriptor_for :: "backend_kind \<Rightarrow> backend_descriptor" where
  "descriptor_for Kind_Npcap = npcap_descriptor"
| "descriptor_for Kind_WinDivert = windivert_descriptor"
| "descriptor_for Kind_Wfp = wfp_descriptor"
| "descriptor_for Kind_IpHelper = iphelper_descriptor"
| "descriptor_for Kind_Etw = etw_descriptor"

definition all_known_descriptors :: "backend_descriptor list" where
  "all_known_descriptors = map descriptor_for kind_all"

subsection \<open>Coverage is exact\<close>

definition declares :: "backend_manager \<Rightarrow> backend_capability \<Rightarrow> string \<Rightarrow> bool" where
  "declares m c n \<longleftrightarrow> (\<exists>b. hm_get n (bm_backends m) = Some b \<and> br_supports c (mb_runtime b))"

lemma coverage_fold:
  "\<not> bm_poisoned m \<Longrightarrow> fold (coverage_step m) names cov =
     cov\<lparr> cv_primary := cv_primary cov @
            filter (\<lambda>n. declares m (cv_capability cov) n \<and> n \<in> set (primary_names (cv_capability cov))) names,
          cv_fallbacks := cv_fallbacks cov @
            filter (\<lambda>n. declares m (cv_capability cov) n \<and> n \<notin> set (primary_names (cv_capability cov))) names \<rparr>"
proof (induction names arbitrary: cov)
  case (Cons n names)
  have step: "coverage_step m n cov =
      (if \<not> declares m (cv_capability cov) n then cov
       else if n \<in> set (primary_names (cv_capability cov)) then cov\<lparr> cv_primary := cv_primary cov @ [n] \<rparr>
       else cov\<lparr> cv_fallbacks := cv_fallbacks cov @ [n] \<rparr>)"
    using Cons.prems
    by (auto simp: coverage_step_def bm_runtime_state_def bm_query_def declares_def split: option.splits)
  show ?case
    using Cons.prems by (auto simp: step Cons.IH)
qed simp

lemma is_operational_iff:
  "\<not> bm_poisoned m \<Longrightarrow> is_operational m n \<longleftrightarrow>
     (\<exists>b. hm_get n (bm_backends m) = Some b \<and> br_is_available (mb_runtime b) \<and> mon_health (mb_health b) \<noteq> Health_Unhealthy)"
  by (auto simp: is_operational_def bm_runtime_state_def bm_health_def bm_query_def br_is_available_def split: option.splits)

text \<open>
  The coverage report of a capability is exact. It lists the registered backends that declare
  the capability, the intended primaries apart from the others; the status is \<open>Available\<close> if a
  primary is operational (running or degraded, and not unhealthy), else \<open>Degraded\<close> if another
  declaring backend is, else \<open>Lost\<close> if some backend declares it at all, else \<open>Unavailable\<close>; and
  the active backend is the first by name among the operational ones of the tier in use.
\<close>

lemma coverage_exact:
  assumes "\<not> bm_poisoned m" and "v = select_with_fallback m c"
    and "P = {n. declares m c n \<and> n \<in> set (primary_names c)}" and "F = {n. declares m c n \<and> n \<notin> set (primary_names c)}"
  shows "set (cv_primary v) = P \<and> set (cv_fallbacks v) = F \<and>
    (cv_status v, cv_active v) =
      (if \<exists>n \<in> P. is_operational m n then (Cov_Available, Some (Min {n \<in> P. is_operational m n}))
       else if \<exists>n \<in> F. is_operational m n then (Cov_Degraded, Some (Min {n \<in> F. is_operational m n}))
       else if P \<noteq> {} \<or> F \<noteq> {} then (Cov_Lost, None)
       else (Cov_Unavailable, None))"
proof -
  define ps where "ps = sort (filter (\<lambda>n. declares m c n \<and> n \<in> set (primary_names c)) (bm_names m))"
  define fs where "fs = sort (filter (\<lambda>n. declares m c n \<and> n \<notin> set (primary_names c)) (bm_names m))"
  have sets: "set ps = P" "set fs = F" "sorted ps" "sorted fs"
    using assms(1,3,4) by (auto simp: ps_def fs_def bm_names_set declares_def)
  have empty: "ps = [] \<longleftrightarrow> P = {}" "fs = [] \<longleftrightarrow> F = {}" using sets by auto
  have "v = (let cov = \<lparr> cv_capability = c, cv_status = Cov_Unavailable, cv_active = None, cv_primary = ps, cv_fallbacks = fs \<rparr> in
      case List.find (is_operational m) ps of
        Some active \<Rightarrow> cov\<lparr> cv_active := Some active, cv_status := Cov_Available \<rparr>
      | None \<Rightarrow> (case List.find (is_operational m) fs of
          Some active \<Rightarrow> cov\<lparr> cv_active := Some active, cv_status := Cov_Degraded \<rparr>
        | None \<Rightarrow> if ps = [] \<and> fs = [] then cov\<lparr> cv_status := Cov_Unavailable \<rparr> else cov\<lparr> cv_status := Cov_Lost \<rparr>))"
    using assms(1,2) by (simp add: select_with_fallback_def coverage_fold coverage_empty_def ps_def fs_def Let_def cong: option.case_cong)
  then show ?thesis
    using sets empty by (simp add: find_sorted_Min Let_def)
qed

theorem coverage_exact_witness:
  "\<not> bm_poisoned demo_manager \<and> coverage_status demo_manager Cap_Capture = Cov_Degraded \<and>
   coverage_status demo_manager Cap_Filtering = Cov_Unavailable"
proof -
  have dec: "declares demo_manager Cap_Capture n \<longleftrightarrow> n \<in> {''a'', ''b''}" "\<not> declares demo_manager Cap_Filtering n" for n
    by (auto simp: declares_def demo_manager_def bm_op_defs hm br_supports_def descriptor_supports_def
        capability_set_contains_def Let_def split: if_splits)
  have op: "is_operational demo_manager ''a''"
    by (simp add: is_operational_iff demo_manager_facts)
      (simp add: demo_manager_def bm_op_defs hm br_is_available_def force_health_def Let_def)
  show ?thesis
    using coverage_exact [OF demo_manager_facts(2) refl refl refl, of Cap_Capture]
      coverage_exact [OF demo_manager_facts(2) refl refl refl, of Cap_Filtering] op
    by (auto simp: coverage_status_def dec demo_manager_facts split: if_splits)
qed

subsection \<open>The matrix and the known backends\<close>

lemma kind_roundtrip: "kind_from_name s = Some k \<longleftrightarrow> s = kind_name k"
  by (cases k) (auto simp: kind_from_name_def split: if_splits)

lemmas known_descriptor_defs = npcap_descriptor_def windivert_descriptor_def wfp_descriptor_def iphelper_descriptor_def
  etw_descriptor_def descriptor_role_def backend_descriptor_new_def

lemma known_descriptor_names: "bd_name (descriptor_for k) = kind_name k"
  by (cases k) (simp_all add: known_descriptor_defs trim_def is_whitespace_def)

definition served_by :: "backend_capability \<Rightarrow> string \<Rightarrow> bool" where
  "served_by c n \<longleftrightarrow> (case kind_from_name n of None \<Rightarrow> False | Some k \<Rightarrow> descriptor_supports c (descriptor_for k))"

text \<open>
  Every backend the matrix names as the primary of a capability is one of the known backends
  and declares that capability, and only the engine-owned forwarding and NAT state have no
  primary. The intended fallbacks are different: of the thirteen capabilities with one, only
  capture and filtering name a backend that declares the capability, so for the other eleven
  the loss of the primary is never covered.
\<close>

lemma matrix_served_by_known_backends:
  "(\<forall>n \<in> set (primary_names c). served_by c n) \<and>
   (primary_names c = [] \<longleftrightarrow> c \<in> {Cap_Forwarding, Cap_NatState}) \<and>
   ((\<exists>n \<in> set (fallback_names c). served_by c n) \<longleftrightarrow> c \<in> {Cap_Capture, Cap_Filtering}) \<and>
   card {c. has_fallback c} = 13"
proof -
  have "{c. has_fallback c} = {Cap_Capture, Cap_L2Capture, Cap_RawEthernet, Cap_Ipv4, Cap_Ipv6, Cap_Tcp, Cap_Udp, Cap_Icmp,
      Cap_IcmpV6, Cap_Filtering, Cap_Pass, Cap_Drop, Cap_NeighborInfo}" (is "_ = ?S")
  proof (rule set_eqI)
    show "x \<in> {c. has_fallback c} \<longleftrightarrow> x \<in> ?S" for x
      by (cases x) (simp_all add: has_fallback_def fallback_names_def)
  qed
  then have "card {c. has_fallback c} = 13" by simp
  moreover have "(\<forall>n \<in> set (primary_names c). served_by c n) \<and>
      (primary_names c = [] \<longleftrightarrow> c \<in> {Cap_Forwarding, Cap_NatState}) \<and>
      ((\<exists>n \<in> set (fallback_names c). served_by c n) \<longleftrightarrow> c \<in> {Cap_Capture, Cap_Filtering})"
    by (cases c) (simp_all add: served_by_def kind_from_name_def descriptor_supports_def capability_set_contains_def
        known_descriptor_defs capability_set_from_def fallback_names_def)
  ultimately show ?thesis by blast
qed

end
