(* ===== verification/Load_Balancer.thy ===== *)
theory Load_Balancer
  imports Backend_Coverage "HOL-Library.Multiset"
begin

text \<open>
  Distribution of work over backends: \<open>crates/ffi/src/load_balancer.rs\<close> (the least loaded
  operational backend with the capability a kind of work needs) and \<open>coordination.rs\<close> (which
  backends take part in processing one observation). The shared backend manager is an argument
  of the operations that read it; atomic counters are \<open>u64\<close> words with wrapping addition.
\<close>

subsection \<open>Kinds of work\<close>

datatype work_kind =
    Wk_L2Observation | Wk_L3Capture | Wk_Filtering | Wk_Modification | Wk_Reinjection | Wk_Metadata | Wk_FlowInfo
  | Wk_NetworkState | Wk_Diagnostics

primrec wk_primary_capability :: "work_kind \<Rightarrow> backend_capability" where
  "wk_primary_capability Wk_L2Observation = Cap_L2Capture"
| "wk_primary_capability Wk_L3Capture = Cap_Capture"
| "wk_primary_capability Wk_Filtering = Cap_Filtering"
| "wk_primary_capability Wk_Modification = Cap_Modification"
| "wk_primary_capability Wk_Reinjection = Cap_Reinjection"
| "wk_primary_capability Wk_Metadata = Cap_WfpFlows"
| "wk_primary_capability Wk_FlowInfo = Cap_WfpFlows"
| "wk_primary_capability Wk_NetworkState = Cap_InterfaceInfo"
| "wk_primary_capability Wk_Diagnostics = Cap_Diagnostics"

primrec wk_fallback_capability :: "work_kind \<Rightarrow> backend_capability option" where
  "wk_fallback_capability Wk_L2Observation = Some Cap_Capture"
| "wk_fallback_capability Wk_L3Capture = Some Cap_L2Capture"
| "wk_fallback_capability Wk_Filtering = Some Cap_Drop"
| "wk_fallback_capability Wk_Modification = None"
| "wk_fallback_capability Wk_Reinjection = None"
| "wk_fallback_capability Wk_Metadata = Some Cap_WfpFlows"
| "wk_fallback_capability Wk_FlowInfo = None"
| "wk_fallback_capability Wk_NetworkState = Some Cap_NeighborInfo"
| "wk_fallback_capability Wk_Diagnostics = None"

subsection \<open>The load balancer\<close>

record backend_load =
  ld_in_flight :: u64
  ld_completed :: u64
  ld_saturated :: u64
  ld_failed :: u64

definition load_zero :: backend_load where
  "load_zero = \<lparr> ld_in_flight = 0, ld_completed = 0, ld_saturated = 0, ld_failed = 0 \<rparr>"

definition load_total :: "backend_load \<Rightarrow> u64" where
  "load_total l = saturating_add (saturating_add (ld_completed l) (ld_saturated l)) (ld_failed l)"

definition load_is_idle :: "backend_load \<Rightarrow> bool" where
  "load_is_idle l \<longleftrightarrow> ld_in_flight l = 0"

record load_decision =
  dc_backend :: "string option"
  dc_capability :: backend_capability
  dc_used_fallback :: bool

definition is_routed :: "load_decision \<Rightarrow> bool" where
  "is_routed d \<longleftrightarrow> dc_backend d \<noteq> None"

record load_balancer =
  lb_counters :: "(string, backend_load) hash_map"
  lb_poisoned :: bool
  lb_decisions :: u64
  lb_fallback_decisions :: u64
  lb_unrouted_decisions :: u64
  lb_reported_saturated :: u64
  lb_reported_completed :: u64
  lb_reported_failed :: u64

definition load_balancer_new :: load_balancer where
  "load_balancer_new = \<lparr> lb_counters = [], lb_poisoned = False, lb_decisions = 0, lb_fallback_decisions = 0,
     lb_unrouted_decisions = 0, lb_reported_saturated = 0, lb_reported_completed = 0, lb_reported_failed = 0 \<rparr>"

definition load_of :: "string \<Rightarrow> load_balancer \<Rightarrow> backend_load" where
  "load_of backend lb =
     (if lb_poisoned lb then load_zero
      else case hm_get backend (lb_counters lb) of None \<Rightarrow> load_zero | Some l \<Rightarrow> l)"

text \<open>
  The loop over the candidates of \<open>pick_backend_for_capability\<close>, with the best one so far. The
  guards on lifecycle and health are those of \<open>is_operational\<close> of the coverage report.
\<close>

definition better_pick :: "string \<Rightarrow> u64 \<Rightarrow> (string \<times> u64) option \<Rightarrow> (string \<times> u64) option" where
  "better_pick name load best = (case best of
      None \<Rightarrow> Some (name, load)
    | Some (current_name, current_load) \<Rightarrow>
        if load < current_load then Some (name, load)
        else if load = current_load \<and> name < current_name then Some (name, load)
        else best)"

fun pick_loop :: "backend_manager \<Rightarrow> load_balancer \<Rightarrow> string list \<Rightarrow> (string \<times> u64) option \<Rightarrow> (string \<times> u64) option" where
  "pick_loop m lb [] best = best"
| "pick_loop m lb (name # names) best = (case bm_runtime_state name m of
      Inl _ \<Rightarrow> pick_loop m lb names best
    | Inr s \<Rightarrow>
        if br_lifecycle s \<notin> {Bl_Running, Bl_Degraded} then pick_loop m lb names best
        else if \<not> (case bm_health name m of Inr h \<Rightarrow> h \<noteq> Health_Unhealthy | Inl _ \<Rightarrow> False) then pick_loop m lb names best
        else pick_loop m lb names (better_pick name (ld_in_flight (load_of name lb)) best))"

definition pick_backend_for_capability :: "backend_manager \<Rightarrow> backend_capability \<Rightarrow> load_balancer \<Rightarrow> string option" where
  "pick_backend_for_capability m c lb =
     (let candidates = find_capable c m in
      if candidates = [] then None else map_option fst (pick_loop m lb candidates None))"

definition lb_select :: "backend_manager \<Rightarrow> work_kind \<Rightarrow> load_balancer \<Rightarrow> load_decision \<times> load_balancer" where
  "lb_select m kind lb =
     (let primary = wk_primary_capability kind; fallback = wk_fallback_capability kind;
          lb1 = lb\<lparr> lb_decisions := lb_decisions lb + 1 \<rparr>;
          unrouted = (\<lparr> dc_backend = None, dc_capability = primary, dc_used_fallback = False \<rparr>,
                      lb1\<lparr> lb_unrouted_decisions := lb_unrouted_decisions lb1 + 1 \<rparr>) in
      case pick_backend_for_capability m primary lb of
        Some name \<Rightarrow> (\<lparr> dc_backend = Some name, dc_capability = primary, dc_used_fallback = False \<rparr>, lb1)
      | None \<Rightarrow> (case fallback of
          None \<Rightarrow> unrouted
        | Some c \<Rightarrow> (case pick_backend_for_capability m c lb of
            Some name \<Rightarrow> (\<lparr> dc_backend = Some name, dc_capability = c, dc_used_fallback = True \<rparr>,
                          lb1\<lparr> lb_fallback_decisions := lb_fallback_decisions lb1 + 1 \<rparr>)
          | None \<Rightarrow> unrouted)))"

definition ensure_counters :: "string \<Rightarrow> load_balancer \<Rightarrow> load_balancer" where
  "ensure_counters backend lb =
     (if lb_poisoned lb \<or> hm_contains backend (lb_counters lb) then lb
      else lb\<lparr> lb_counters := hm_insert backend load_zero (lb_counters lb) \<rparr>)"

definition with_counters :: "string \<Rightarrow> (backend_load \<Rightarrow> backend_load) \<Rightarrow> load_balancer \<Rightarrow> load_balancer" where
  "with_counters backend f lb =
     (let lb1 = ensure_counters backend lb in
      if lb_poisoned lb1 then lb1
      else case hm_get backend (lb_counters lb1) of
        None \<Rightarrow> lb1
      | Some l \<Rightarrow> lb1\<lparr> lb_counters := hm_insert backend (f l) (lb_counters lb1) \<rparr>)"

definition report_started :: "string \<Rightarrow> load_balancer \<Rightarrow> load_balancer" where
  "report_started backend = with_counters backend (\<lambda>l. l\<lparr> ld_in_flight := ld_in_flight l + 1 \<rparr>)"

definition report_completed :: "string \<Rightarrow> load_balancer \<Rightarrow> load_balancer" where
  "report_completed backend lb = with_counters backend
     (\<lambda>l. l\<lparr> ld_in_flight := ld_in_flight l - min (ld_in_flight l) 1, ld_completed := ld_completed l + 1 \<rparr>)
     (lb\<lparr> lb_reported_completed := lb_reported_completed lb + 1 \<rparr>)"

definition report_saturated :: "string \<Rightarrow> load_balancer \<Rightarrow> load_balancer" where
  "report_saturated backend lb = with_counters backend
     (\<lambda>l. l\<lparr> ld_in_flight := ld_in_flight l - min (ld_in_flight l) 1, ld_saturated := ld_saturated l + 1 \<rparr>)
     (lb\<lparr> lb_reported_saturated := lb_reported_saturated lb + 1 \<rparr>)"

definition report_failed :: "string \<Rightarrow> load_balancer \<Rightarrow> load_balancer" where
  "report_failed backend lb = with_counters backend
     (\<lambda>l. l\<lparr> ld_in_flight := ld_in_flight l - min (ld_in_flight l) 1, ld_failed := ld_failed l + 1 \<rparr>)
     (lb\<lparr> lb_reported_failed := lb_reported_failed lb + 1 \<rparr>)"

definition lb_forget :: "string \<Rightarrow> load_balancer \<Rightarrow> load_balancer" where
  "lb_forget backend lb =
     (if lb_poisoned lb then lb else lb\<lparr> lb_counters := hm_remove backend (lb_counters lb) \<rparr>)"

definition lb_loads :: "load_balancer \<Rightarrow> (string \<times> backend_load) list" where
  "lb_loads lb = (if lb_poisoned lb then [] else sort_key fst (lb_counters lb))"

subsection \<open>Coordination (\<open>coordination.rs\<close>)\<close>

record coordinated_observation =
  co_observation :: packet_observation
  co_participated :: "string list"
  co_applied_capabilities :: "backend_capability list"
  co_complete :: bool
  co_missing :: "backend_capability list"

definition uses_fallback :: "coordinated_observation \<Rightarrow> bool" where
  "uses_fallback c \<longleftrightarrow> length (co_participated c) > 1"

primrec backend_name_for_source :: "backend_source \<Rightarrow> string option" where
  "backend_name_for_source Src_Npcap = Some ''npcap''"
| "backend_name_for_source Src_WinDivert = Some ''windivert''"
| "backend_name_for_source Src_Wfp = Some ''wfp''"
| "backend_name_for_source Src_IpHelper = Some ''iphelper''"
| "backend_name_for_source Src_Etw = Some ''etw''"
| "backend_name_for_source Src_Unknown = None"

text \<open>Who takes on one capability: the source of the observation, else the active backend of the coverage report.\<close>

definition participant :: "backend_manager \<Rightarrow> string option \<Rightarrow> backend_capability \<Rightarrow> string option" where
  "participant m source c =
     (if (case source of Some s \<Rightarrow> bm_supports s c m = Inr True | None \<Rightarrow> False) then source
      else cv_active (select_with_fallback m c))"

fun coordinate_loop ::
  "backend_manager \<Rightarrow> string option \<Rightarrow> backend_capability list \<Rightarrow>
   string list \<times> backend_capability list \<times> backend_capability list \<Rightarrow>
   string list \<times> backend_capability list \<times> backend_capability list" where
  "coordinate_loop m source [] acc = acc"
| "coordinate_loop m source (c # cs) (participated, applied, missing) = (case participant m source c of
      Some name \<Rightarrow> coordinate_loop m source cs
        ((if name \<in> set participated then participated else participated @ [name]), applied @ [c], missing)
    | None \<Rightarrow> coordinate_loop m source cs (participated, applied, missing @ [c]))"

definition coordinate :: "backend_manager \<Rightarrow> packet_observation \<Rightarrow> backend_capability list \<Rightarrow> coordinated_observation" where
  "coordinate m obs required =
     (case coordinate_loop m (backend_name_for_source (backend_source obs)) required ([], [], []) of
        (participated, applied, missing) \<Rightarrow>
          \<lparr> co_observation = obs, co_participated = sort participated,
            co_applied_capabilities = sort_key cap_sort_key applied,
            co_complete = (missing = []), co_missing = sort_key cap_sort_key missing \<rparr>)"

record load_balanced_plan =
  lp_coverage :: coordinated_observation
  lp_decision :: load_decision

definition plan_is_ready :: "load_balanced_plan \<Rightarrow> bool" where
  "plan_is_ready p \<longleftrightarrow> co_complete (lp_coverage p) \<and> is_routed (lp_decision p)"

text \<open>A coordinator without a load balancer (\<open>None\<close>) makes no routing decision.\<close>

definition select_backend_for_work ::
  "backend_manager \<Rightarrow> work_kind \<Rightarrow> load_balancer option \<Rightarrow> load_decision \<times> load_balancer option" where
  "select_backend_for_work m kind lb = (case lb of
      Some b \<Rightarrow> (case lb_select m kind b of (d, b') \<Rightarrow> (d, Some b'))
    | None \<Rightarrow> (\<lparr> dc_backend = None, dc_capability = wk_primary_capability kind, dc_used_fallback = False \<rparr>, None))"

definition plan_load_balanced_processing ::
  "backend_manager \<Rightarrow> packet_observation \<Rightarrow> backend_capability list \<Rightarrow> work_kind \<Rightarrow> load_balancer option \<Rightarrow>
   load_balanced_plan \<times> load_balancer option" where
  "plan_load_balanced_processing m obs required kind lb =
     (let coverage = coordinate m obs required in
      case select_backend_for_work m kind lb of
        (decision, lb') \<Rightarrow> (\<lparr> lp_coverage = coverage, lp_decision = decision \<rparr>, lb'))"

definition coverage_report :: "backend_manager \<Rightarrow> capability_coverage list" where
  "coverage_report m = map (select_with_fallback m) cap_all_known"

subsection \<open>Work goes to the least loaded backend\<close>

lemma pick_loop_fold:
  "pick_loop m lb names best =
     fold (\<lambda>n b. if is_operational m n then better_pick n (ld_in_flight (load_of n lb)) b else b) names best"
proof (induction m lb names best rule: pick_loop.induct)
  case (2 m lb name names best)
  then show ?case
    by (cases "bm_runtime_state name m"; cases "bm_health name m") (auto simp: is_operational_def)
qed simp

definition pick_key :: "load_balancer \<Rightarrow> string \<Rightarrow> u64 \<times> string" where
  "pick_key lb n = (ld_in_flight (load_of n lb), n)"

definition best_of :: "load_balancer \<Rightarrow> string set \<Rightarrow> (string \<times> u64) option \<Rightarrow> bool" where
  "best_of lb S best = (case best of
      None \<Rightarrow> S = {}
    | Some (n, l) \<Rightarrow> n \<in> S \<and> l = ld_in_flight (load_of n lb) \<and> (\<forall>k \<in> S. pick_key lb n \<le> pick_key lb k))"

lemma best_of_better:
  "best_of lb S best \<Longrightarrow> best_of lb (insert n S) (better_pick n (ld_in_flight (load_of n lb)) best)"
  by (cases best)
    (fastforce simp: best_of_def better_pick_def pick_key_def less_eq_prod_def split: if_splits)+

lemma best_of_fold:
  "best_of lb S best \<Longrightarrow>
     best_of lb (S \<union> {n \<in> set names. P n})
       (fold (\<lambda>n b. if P n then better_pick n (ld_in_flight (load_of n lb)) b else b) names best)"
proof (induction names arbitrary: S best)
  case (Cons n names)
  have "S \<union> {k \<in> set (n # names). P k} = (if P n then insert n S else S) \<union> {k \<in> set names. P k}" by auto
  moreover have "best_of lb (if P n then insert n S else S)
      (if P n then better_pick n (ld_in_flight (load_of n lb)) best else best)"
    using Cons.prems best_of_better by simp
  ultimately show ?case using Cons.IH by simp
qed simp

definition capable_operational :: "backend_manager \<Rightarrow> backend_capability \<Rightarrow> string set" where
  "capable_operational m c = {n. declares m c n \<and> is_operational m n}"

lemma find_capable_set:
  assumes "bm_inv m" and "\<not> bm_poisoned m"
  shows "{n \<in> set (find_capable c m). is_operational m n} = capable_operational m c"
proof -
  have "hm_wf (bm_backends m)" using assms(1) by (simp add: bm_inv_def)
  then have mem: "n \<in> set (find_capable c m) \<longleftrightarrow>
      (\<exists>b. hm_get n (bm_backends m) = Some b \<and> br_is_available (mb_runtime b) \<and> br_supports c (mb_runtime b))" for n
    using assms(2) by (force simp: find_capable_def hm_get_in_set)
  show ?thesis
    using assms(2) by (auto simp: mem capable_operational_def declares_def is_operational_iff)
qed

lemma pick_best:
  assumes "bm_inv m" and "\<not> bm_poisoned m"
  shows "case pick_backend_for_capability m c lb of
      None \<Rightarrow> capable_operational m c = {}
    | Some n \<Rightarrow> n \<in> capable_operational m c \<and> (\<forall>k \<in> capable_operational m c. pick_key lb n \<le> pick_key lb k)"
proof -
  have "best_of lb ({} \<union> {n \<in> set (find_capable c m). is_operational m n}) (pick_loop m lb (find_capable c m) None)"
    unfolding pick_loop_fold by (rule best_of_fold) (simp add: best_of_def)
  then have best: "best_of lb (capable_operational m c) (pick_loop m lb (find_capable c m) None)"
    by (simp add: find_capable_set [OF assms])
  show ?thesis
  proof (cases "find_capable c m = []")
    case True
    then show ?thesis
      using find_capable_set [OF assms, of c] by (simp add: pick_backend_for_capability_def)
  next
    case False
    then show ?thesis
      using best by (auto simp: pick_backend_for_capability_def best_of_def split: option.splits)
  qed
qed

text \<open>
  C25: Work is routed to the least loaded backend. The load balancer routes a kind of work exactly
  if some operational backend declares its primary capability or, failing that, its fallback
  capability; the backend chosen is an operational one that declares the capability used, no
  other such backend has less work in flight, and ties go to the first by name. Exactly one
  decision is counted, and nothing of the load accounting changes.
\<close>

theorem work_goes_to_least_loaded:
  assumes "bm_inv m" and "\<not> bm_poisoned m" and "lb_select m kind lb = (d, lb')"
    and "P = capable_operational m (wk_primary_capability kind)"
    and "F = (case wk_fallback_capability kind of None \<Rightarrow> {} | Some c \<Rightarrow> capable_operational m c)"
    and "T = (if P \<noteq> {} then P else F)"
  shows "(case dc_backend d of
      None \<Rightarrow> P = {} \<and> F = {}
    | Some n \<Rightarrow> n \<in> T \<and> dc_used_fallback d = (P = {}) \<and> n \<in> capable_operational m (dc_capability d) \<and>
        (\<forall>k \<in> T. ld_in_flight (load_of n lb) < ld_in_flight (load_of k lb) \<or>
           ld_in_flight (load_of n lb) = ld_in_flight (load_of k lb) \<and> n \<le> k)) \<and>
    lb_counters lb' = lb_counters lb \<and> lb_decisions lb' = lb_decisions lb + 1"
proof -
  have key: "pick_key lb n \<le> pick_key lb k \<longleftrightarrow> ld_in_flight (load_of n lb) < ld_in_flight (load_of k lb) \<or>
      ld_in_flight (load_of n lb) = ld_in_flight (load_of k lb) \<and> n \<le> k" for n k
    by (auto simp: pick_key_def less_eq_prod_def)
  show ?thesis
    using pick_best [OF assms(1,2), of "wk_primary_capability kind" lb] assms(3-)
      pick_best [OF assms(1,2), of "the (wk_fallback_capability kind)" lb]
    by (auto simp: lb_select_def Let_def key split: option.splits prod.splits)
qed

definition demo_loads :: load_balancer where
  "demo_loads = report_started ''a'' load_balancer_new"

lemma demo_manager_capture: "capable_operational demo_manager Cap_Capture = {''a'', ''b''}"
proof -
  have dec: "declares demo_manager Cap_Capture n \<longleftrightarrow> n \<in> {''a'', ''b''}" for n
    by (auto simp: declares_def demo_manager_def bm_op_defs hm br_supports_def descriptor_supports_def
        capability_set_contains_def Let_def split: if_splits)
  have "is_operational demo_manager n" if "n \<in> {''a'', ''b''}" for n
    using that by (auto simp: is_operational_iff demo_manager_facts)
      (simp_all add: demo_manager_def bm_op_defs hm br_is_available_def force_health_def Let_def)
  then show ?thesis by (auto simp: capable_operational_def dec)
qed

theorem work_goes_to_least_loaded_witness:
  "bm_inv demo_manager \<and> dc_backend (fst (lb_select demo_manager Wk_L3Capture demo_loads)) = Some ''b''"
proof -
  have load: "ld_in_flight (load_of ''a'' demo_loads) = 1" "ld_in_flight (load_of ''b'' demo_loads) = 0"
    by (simp_all add: demo_loads_def report_started_def with_counters_def ensure_counters_def load_balancer_new_def load_of_def
        load_zero_def hm Let_def)
  show ?thesis
    using work_goes_to_least_loaded [OF demo_manager_facts(1,2) prod.collapse [symmetric] refl refl refl, of Wk_L3Capture demo_loads]
    by (auto simp: demo_manager_capture load demo_manager_facts split: option.splits)
qed

subsection \<open>Coordination is exact\<close>

lemma coordinate_loop_spec:
  "coordinate_loop m source cs (ps, applied, missing) = (ps', applied', missing') \<Longrightarrow>
     applied' = applied @ filter (\<lambda>c. participant m source c \<noteq> None) cs \<and>
     missing' = missing @ filter (\<lambda>c. participant m source c = None) cs \<and>
     set ps' = set ps \<union> {n. \<exists>c \<in> set cs. participant m source c = Some n} \<and> (distinct ps \<longrightarrow> distinct ps')"
proof (induction cs arbitrary: ps applied missing)
  case (Cons c cs)
  show ?case
  proof (cases "participant m source c")
    case None
    then have "coordinate_loop m source cs (ps, applied, missing @ [c]) = (ps', applied', missing')"
      using Cons.prems by simp
    from Cons.IH [OF this] show ?thesis using None by auto
  next
    case (Some n)
    then have "coordinate_loop m source cs (if n \<in> set ps then ps else ps @ [n], applied @ [c], missing) = (ps', applied', missing')"
      using Cons.prems by simp
    from Cons.IH [OF this] show ?thesis using Some by auto
  qed
qed simp

lemma find_or_find_None:
  "(case List.find P xs of Some a \<Rightarrow> Some a | None \<Rightarrow> List.find P ys) = None \<longleftrightarrow> (\<forall>x \<in> set xs \<union> set ys. \<not> P x)"
  using find_None_iff [of P xs] find_None_iff [of P ys] by (cases "List.find P xs") auto

lemma coverage_active_None:
  assumes "\<not> bm_poisoned m"
  shows "cv_active (select_with_fallback m c) = None \<longleftrightarrow> capable_operational m c = {}"
proof -
  let ?ps = "sort (filter (\<lambda>n. declares m c n \<and> n \<in> set (primary_names c)) (bm_names m))"
  let ?fs = "sort (filter (\<lambda>n. declares m c n \<and> n \<notin> set (primary_names c)) (bm_names m))"
  have "cv_active (select_with_fallback m c) =
      (case List.find (is_operational m) ?ps of Some a \<Rightarrow> Some a | None \<Rightarrow> List.find (is_operational m) ?fs)"
    using assms
    by (simp add: select_with_fallback_def coverage_fold coverage_empty_def Let_def split: option.splits cong: option.case_cong)
  then have "cv_active (select_with_fallback m c) = None \<longleftrightarrow> (\<forall>n \<in> set ?ps \<union> set ?fs. \<not> is_operational m n)"
    by (simp add: find_or_find_None)
  moreover have "n \<in> set ?ps \<union> set ?fs \<longleftrightarrow> declares m c n" for n
    using assms by (auto simp: bm_names_set declares_def)
  ultimately show ?thesis by (auto simp: capable_operational_def)
qed

text \<open>
  Coordinating an observation accounts for every required capability exactly once: it is
  either applied or missing, and it is missing exactly if the backend that captured the
  observation does not declare it and no operational backend does. The coordination is complete
  exactly if nothing is missing, and the participants are named once each, in order.
\<close>

lemma coordination_exact:
  assumes "\<not> bm_poisoned m" and "r = coordinate m obs required"
  shows "mset (co_applied_capabilities r) + mset (co_missing r) = mset required \<and>
    set (co_missing r) = {c \<in> set required. capable_operational m c = {} \<and>
      (\<forall>s. backend_name_for_source (backend_source obs) = Some s \<longrightarrow> \<not> declares m c s)} \<and>
    (co_complete r \<longleftrightarrow> co_missing r = []) \<and> co_observation r = obs \<and>
    sorted (co_participated r) \<and> distinct (co_participated r)"
proof -
  let ?src = "backend_name_for_source (backend_source obs)"
  obtain ps applied missing where loop: "coordinate_loop m ?src required ([], [], []) = (ps, applied, missing)"
    by (cases "coordinate_loop m ?src required ([], [], [])") auto
  note spec = coordinate_loop_spec [OF loop]
  have supports: "bm_supports s c m = Inr True \<longleftrightarrow> declares m c s" for s c
    using assms(1) by (auto simp: bm_supports_def bm_query_def declares_def split: option.splits)
  have none: "participant m ?src c = None \<longleftrightarrow>
      capable_operational m c = {} \<and> (\<forall>s. ?src = Some s \<longrightarrow> \<not> declares m c s)" for c
    using coverage_active_None [OF assms(1), of c] by (auto simp: participant_def supports split: option.splits)
  have "mset (filter (\<lambda>c. participant m ?src c \<noteq> None) required) + mset (filter (\<lambda>c. participant m ?src c = None) required)
      = mset required"
    by (induction required) auto
  then show ?thesis
    using spec assms(2) by (auto simp: coordinate_def loop none)
qed

theorem coordination_exact_witness:
  "\<exists>obs. let r = coordinate demo_manager obs [Cap_Filtering, Cap_Capture] in
     co_missing r = [Cap_Filtering] \<and> co_applied_capabilities r = [Cap_Capture] \<and> \<not> co_complete r"
proof -
  obtain obs :: packet_observation where src: "backend_source obs = Src_Unknown"
    by (metis packet_observation.select_convs(2) packet_observation.surjective)
  define r where "r = coordinate demo_manager obs [Cap_Filtering, Cap_Capture]"
  have "capable_operational demo_manager Cap_Filtering = {}"
    by (auto simp: capable_operational_def declares_def demo_manager_def bm_op_defs hm br_supports_def
        descriptor_supports_def capability_set_contains_def Let_def split: if_splits)
  then have miss: "set (co_missing r) = {Cap_Filtering}"
    and sum: "mset (co_applied_capabilities r) + mset (co_missing r) = mset [Cap_Filtering, Cap_Capture]"
    and compl: "co_complete r \<longleftrightarrow> co_missing r = []"
    using coordination_exact [OF demo_manager_facts(2) r_def] by (auto simp: src demo_manager_capture)
  have len: "length (co_applied_capabilities r) + length (co_missing r) = 2"
    using arg_cong [OF sum, of size] by simp
  have "Cap_Capture \<in># mset (co_applied_capabilities r) + mset (co_missing r)" by (simp add: sum)
  then have app: "Cap_Capture \<in> set (co_applied_capabilities r)" using miss by simp
  have "co_missing r = [Cap_Filtering]" "co_applied_capabilities r = [Cap_Capture]"
    using len miss app
    by (cases "co_missing r"; cases "co_applied_capabilities r"; auto)+
  then show ?thesis using compl by (auto simp flip: r_def intro!: exI [of _ obs])
qed

subsection \<open>Load accounting\<close>

datatype lb_report = Lr_Started string | Lr_Completed string | Lr_Saturated string | Lr_Failed string

primrec lb_report_exec :: "lb_report \<Rightarrow> load_balancer \<Rightarrow> load_balancer" where
  "lb_report_exec (Lr_Started n) lb = report_started n lb"
| "lb_report_exec (Lr_Completed n) lb = report_completed n lb"
| "lb_report_exec (Lr_Saturated n) lb = report_saturated n lb"
| "lb_report_exec (Lr_Failed n) lb = report_failed n lb"

definition starts :: "string \<Rightarrow> lb_report list \<Rightarrow> nat" where
  "starts n rs = length (filter (\<lambda>r. r = Lr_Started n) rs)"

definition finishes :: "string \<Rightarrow> lb_report list \<Rightarrow> nat" where
  "finishes n rs = length (filter (\<lambda>r. r \<in> {Lr_Completed n, Lr_Saturated n, Lr_Failed n}) rs)"

lemma load_of_with_counters:
  "\<not> lb_poisoned lb \<Longrightarrow> load_of k (with_counters n f lb) = (if k = n then f (load_of n lb) else load_of k lb)"
  by (auto simp: with_counters_def ensure_counters_def load_of_def hm Let_def split: option.splits)

lemma with_counters_poisoned [simp]: "lb_poisoned (with_counters n f lb) = lb_poisoned lb"
  by (auto simp: with_counters_def ensure_counters_def Let_def split: option.splits)

lemma load_of_reported [simp]:
  "load_of k (lb\<lparr> lb_reported_completed := x \<rparr>) = load_of k lb"
  "load_of k (lb\<lparr> lb_reported_saturated := x \<rparr>) = load_of k lb"
  "load_of k (lb\<lparr> lb_reported_failed := x \<rparr>) = load_of k lb"
  by (simp_all add: load_of_def)

lemmas report_defs = report_started_def report_completed_def report_saturated_def report_failed_def

lemma unat_decrement: "unat (w - min w 1) = unat w - 1" for w :: u64
proof (cases "w = 0")
  case False
  then have ge: "1 \<le> w" by (simp add: word_le_nat_alt unat_gt_0 Suc_le_eq)
  then have "min w 1 = 1" by (simp add: min_def)
  then show ?thesis using ge by (simp add: unat_sub)
qed simp


text \<open>
  As long as every finished piece of work had been started, and fewer than \<open>2 ^ 64\<close> reports are
  made, the in-flight count of each backend is exactly the number of pieces started and not
  finished.
\<close>

lemma in_flight_exact:
  assumes "\<And>k. finishes n (take k rs) \<le> starts n (take k rs)" and "length rs < 2 ^ 64"
  shows "unat (ld_in_flight (load_of n (fold lb_report_exec rs load_balancer_new))) = starts n rs - finishes n rs \<and>
    \<not> lb_poisoned (fold lb_report_exec rs load_balancer_new)"
  using assms
proof (induction rs rule: rev_induct)
  case Nil
  then show ?case by (simp add: load_of_def load_balancer_new_def load_zero_def starts_def finishes_def)
next
  case (snoc r rs)
  let ?lb = "fold lb_report_exec rs load_balancer_new"
  have pre: "finishes n (take k rs) \<le> starts n (take k rs)" for k
    using snoc.prems(1) [of "min k (length rs)"] by (simp add: min_def split: if_splits)
  have now: "finishes n (rs @ [r]) \<le> starts n (rs @ [r])"
    using snoc.prems(1) [of "length (rs @ [r])"] by simp
  have IH: "unat (ld_in_flight (load_of n ?lb)) = starts n rs - finishes n rs" "\<not> lb_poisoned ?lb"
    using snoc.IH pre snoc.prems(2) by auto
  have "starts n rs < 2 ^ 64 - 1"
    using snoc.prems(2) le_less_trans [OF length_filter_le, of rs "2 ^ 64 - 1"] by (simp add: starts_def)
  then have inc: "unat (ld_in_flight (load_of n ?lb) + 1) = Suc (starts n rs - finishes n rs)"
    using IH(1) by (simp add: unat_word_ariths)
  show ?case
    using IH now inc pre [of "length rs"]
    by (cases r) (auto simp: report_defs load_of_with_counters unat_decrement starts_def finishes_def)
qed

text \<open>
  The three ways to report the end of a piece of work read the in-flight counter, and then
  subtract what they read, at most one, in a second atomic step. Two threads that report the end
  of work on the same backend interleave as follows.
\<close>

record in_flight_threads =
  it_in_flight :: u64
  it_loaded :: "nat \<Rightarrow> u64 option"

inductive it_step :: "in_flight_threads \<Rightarrow> in_flight_threads \<Rightarrow> bool" where
  it_start: "it_step s (s\<lparr> it_in_flight := it_in_flight s + 1 \<rparr>)"
| it_load: "it_loaded s i = None \<Longrightarrow> it_step s (s\<lparr> it_loaded := (it_loaded s)(i := Some (min (it_in_flight s) 1)) \<rparr>)"
| it_sub: "it_loaded s i = Some d \<Longrightarrow>
    it_step s (s\<lparr> it_in_flight := it_in_flight s - d, it_loaded := (it_loaded s)(i := None) \<rparr>)"

text \<open>
  With one piece of work in flight, two threads that each report its end (one its completion,
  say, and one its failure) can drive the counter below zero: it wraps around to the largest
  value, and the backend looks loaded beyond every other from then on.
\<close>

lemma in_flight_underflow_race:
  "it_step\<^sup>*\<^sup>* \<lparr> it_in_flight = 1, it_loaded = (\<lambda>_. None) \<rparr> \<lparr> it_in_flight = - 1, it_loaded = (\<lambda>_. None) \<rparr>"
proof -
  let ?s1 = "\<lparr> it_in_flight = 1, it_loaded = (\<lambda>_. None)(0 := Some 1) \<rparr> :: in_flight_threads"
  let ?s2 = "\<lparr> it_in_flight = 1, it_loaded = (\<lambda>_. None)(0 := Some 1, 1 := Some 1) \<rparr> :: in_flight_threads"
  let ?s3 = "\<lparr> it_in_flight = 0, it_loaded = (\<lambda>_. None)(1 := Some 1) \<rparr> :: in_flight_threads"
  have "it_step \<lparr> it_in_flight = 1, it_loaded = (\<lambda>_. None) \<rparr> ?s1"
    using it_load [of "\<lparr> it_in_flight = 1, it_loaded = (\<lambda>_. None) \<rparr>" 0] by simp
  moreover have "it_step ?s1 ?s2" using it_load [of ?s1 1] by simp
  moreover have "it_step ?s2 ?s3" using it_sub [of ?s2 0 1] by (simp add: fun_upd_twist)
  moreover have "it_step ?s3 \<lparr> it_in_flight = - 1, it_loaded = (\<lambda>_. None) \<rparr>" using it_sub [of ?s3 1 1] by simp
  ultimately show ?thesis by (meson converse_rtranclp_into_rtranclp rtranclp.rtrancl_refl)
qed

end
