(* ===== verification/Gateway_Nat.thy ===== *)
theory Gateway_Nat
  imports Tables Core_Flow
begin

text \<open>
  \<open>crates/gateway-capability/src/nat.rs\<close>: the network address translation table, a store of
  entries with one index by original and one by translated tuple. A reading of the system
  clock (\<open>unix_seconds\<close>) is the argument \<open>now\<close>.
\<close>

record nat_tuple =
  nt_src_ip :: ip_addr
  nt_src_port :: u16
  nt_dst_ip :: ip_addr
  nt_dst_port :: u16
  nt_protocol :: protocol \<comment> \<open>\<open>NatProtocol\<close> has the constructors of \<open>Protocol\<close>\<close>

definition nat_reverse :: "nat_tuple \<Rightarrow> nat_tuple" where
  "nat_reverse t = \<lparr> nt_src_ip = nt_dst_ip t, nt_src_port = nt_dst_port t, nt_dst_ip = nt_src_ip t,
     nt_dst_port = nt_src_port t, nt_protocol = nt_protocol t \<rparr>"

record nat_entry =
  ne_id :: u64
  ne_original :: nat_tuple
  ne_translated :: nat_tuple
  ne_created_at :: u64
  ne_last_seen :: u64
  ne_timeout_secs :: u64
  ne_enabled :: bool

definition nat_entry_new :: "u64 \<Rightarrow> u64 \<Rightarrow> nat_tuple \<Rightarrow> nat_tuple \<Rightarrow> u64 \<Rightarrow> nat_entry" where
  "nat_entry_new now i original translated timeout_secs =
     \<lparr> ne_id = i, ne_original = original, ne_translated = translated, ne_created_at = now,
       ne_last_seen = now, ne_timeout_secs = timeout_secs, ne_enabled = True \<rparr>"

definition nat_is_expired :: "u64 \<Rightarrow> nat_entry \<Rightarrow> bool" where
  "nat_is_expired now e \<longleftrightarrow> ne_timeout_secs e \<le> saturating_sub now (ne_last_seen e)"

definition nat_entry_touch :: "u64 \<Rightarrow> nat_entry \<Rightarrow> nat_entry" where
  "nat_entry_touch now e = e\<lparr> ne_last_seen := now \<rparr>"

datatype nat_error = Nat_CapacityExceeded | Nat_DuplicateMapping | Nat_MappingNotFound | Nat_InvalidTimeout

datatype nat_lookup_direction = Lookup_Original | Lookup_Translated

record nat_table =
  nat_entries :: "(u64, nat_entry) hash_map"
  nat_original_index :: "(nat_tuple, u64) hash_map"
  nat_translated_index :: "(nat_tuple, u64) hash_map"
  nat_max_entries :: usize
  nat_next_id :: u64

definition nat_table_new :: "usize \<Rightarrow> nat_table" where
  "nat_table_new max_entries = \<lparr> nat_entries = [], nat_original_index = [], nat_translated_index = [],
     nat_max_entries = max_entries, nat_next_id = 1 \<rparr>"

definition nat_remove :: "u64 \<Rightarrow> nat_table \<Rightarrow> nat_entry option \<times> nat_table" where
  "nat_remove i t = (case hm_get i (nat_entries t) of
      None \<Rightarrow> (None, t)
    | Some e \<Rightarrow> (Some e, t\<lparr> nat_entries := hm_remove i (nat_entries t),
        nat_original_index := hm_remove (ne_original e) (nat_original_index t),
        nat_translated_index := hm_remove (ne_translated e) (nat_translated_index t) \<rparr>))"

definition nat_remove_expired :: "u64 \<Rightarrow> nat_table \<Rightarrow> usize \<times> nat_table" where
  "nat_remove_expired now t =
     (let expired = keys_where (nat_is_expired now) (nat_entries t) in
      (length expired, fold (\<lambda>i s. snd (nat_remove i s)) expired t))"

definition nat_allocate_id :: "nat_table \<Rightarrow> u64 \<times> nat_table" where
  "nat_allocate_id t =
     (let i = nat_next_id t; next = nat_next_id t + 1 in
      (i, t\<lparr> nat_next_id := (if next = 0 then 1 else next) \<rparr>))"

definition nat_insert :: "u64 \<Rightarrow> nat_tuple \<Rightarrow> nat_tuple \<Rightarrow> u64 \<Rightarrow> nat_table \<Rightarrow> (nat_error + u64) \<times> nat_table" where
  "nat_insert now original translated timeout_secs t =
     (if timeout_secs = 0 then (Inl Nat_InvalidTimeout, t)
      else let t1 = snd (nat_remove_expired now t) in
        if length (nat_entries t1) \<ge> nat_max_entries t1 then (Inl Nat_CapacityExceeded, t1)
        else if hm_contains original (nat_original_index t1) \<or> hm_contains translated (nat_translated_index t1) then
          (Inl Nat_DuplicateMapping, t1)
        else case nat_allocate_id t1 of
          (i, t2) \<Rightarrow> (Inr i, t2\<lparr>
             nat_entries := hm_insert i (nat_entry_new now i original translated timeout_secs) (nat_entries t2),
             nat_original_index := hm_insert original i (nat_original_index t2),
             nat_translated_index := hm_insert translated i (nat_translated_index t2) \<rparr>))"

definition nat_get :: "u64 \<Rightarrow> nat_table \<Rightarrow> nat_entry option" where
  "nat_get i t = hm_get i (nat_entries t)"

definition lookup_original :: "nat_tuple \<Rightarrow> nat_table \<Rightarrow> nat_entry option" where
  "lookup_original tup t = Option.bind (hm_get tup (nat_original_index t)) (\<lambda>i. hm_get i (nat_entries t))"

definition lookup_translated :: "nat_tuple \<Rightarrow> nat_table \<Rightarrow> nat_entry option" where
  "lookup_translated tup t = Option.bind (hm_get tup (nat_translated_index t)) (\<lambda>i. hm_get i (nat_entries t))"

primrec nat_lookup :: "nat_lookup_direction \<Rightarrow> nat_tuple \<Rightarrow> nat_table \<Rightarrow> nat_entry option" where
  "nat_lookup Lookup_Original tup t = lookup_original tup t"
| "nat_lookup Lookup_Translated tup t = lookup_translated tup t"

definition nat_touch :: "u64 \<Rightarrow> u64 \<Rightarrow> nat_table \<Rightarrow> bool \<times> nat_table" where
  "nat_touch now i t = (case hm_get i (nat_entries t) of
      Some e \<Rightarrow> (True, t\<lparr> nat_entries := hm_insert i (nat_entry_touch now e) (nat_entries t) \<rparr>)
    | None \<Rightarrow> (False, t))"

definition nat_clear :: "nat_table \<Rightarrow> nat_table" where
  "nat_clear t = t\<lparr> nat_entries := [], nat_original_index := [], nat_translated_index := [] \<rparr>"

subsection \<open>The invariant\<close>

text \<open>
  The two indexes are exactly the inverse images of the entries' tuples: the store is a
  one-to-one correspondence between original and translated tuples.
\<close>

definition index_of :: "(nat_entry \<Rightarrow> nat_tuple) \<Rightarrow> (u64, nat_entry) hash_map \<Rightarrow> (nat_tuple, u64) hash_map \<Rightarrow> bool" where
  "index_of f es ix \<longleftrightarrow> hm_wf ix \<and>
     (\<forall>tup i. hm_get tup ix = Some i \<longleftrightarrow> (\<exists>e. hm_get i es = Some e \<and> f e = tup))"

definition nat_inv :: "nat_table \<Rightarrow> bool" where
  "nat_inv t \<longleftrightarrow> hm_wf (nat_entries t) \<and> length (nat_entries t) \<le> nat_max_entries t \<and>
     (\<forall>i e. hm_get i (nat_entries t) = Some e \<longrightarrow> ne_id e = i \<and> ne_timeout_secs e \<noteq> 0 \<and> i < nat_next_id t) \<and>
     index_of ne_original (nat_entries t) (nat_original_index t) \<and>
     index_of ne_translated (nat_entries t) (nat_translated_index t)"

lemma index_of_iff: "index_of f es ix \<Longrightarrow> hm_get tup ix = Some i \<longleftrightarrow> (\<exists>e. hm_get i es = Some e \<and> f e = tup)"
  by (simp add: index_of_def)

lemma index_of_inj: "index_of f es ix \<Longrightarrow> hm_get i es = Some e \<Longrightarrow> hm_get j es = Some g \<Longrightarrow> f g = f e \<Longrightarrow> j = i"
  by (metis index_of_iff option.inject)

lemma index_of_remove:
  assumes ix: "index_of f es ix" and e: "hm_get i es = Some e"
  shows "index_of f (hm_remove i es) (hm_remove (f e) ix)"
proof -
  have "hm_get tup (hm_remove (f e) ix) = Some k \<longleftrightarrow> (\<exists>g. hm_get k (hm_remove i es) = Some g \<and> f g = tup)" for tup k
  proof (cases "k = i")
    case True
    then show ?thesis using index_of_iff [OF ix, of tup i] e by (simp add: hm)
  next
    case False
    then have "f g \<noteq> f e" if "hm_get k es = Some g" for g
      using index_of_inj [OF ix e that] by blast
    then show ?thesis using index_of_iff [OF ix, of tup k] False by (auto simp: hm)
  qed
  then show ?thesis
    using ix by (simp add: index_of_def hm)
qed

lemma index_of_insert:
  assumes ix: "index_of f es ix" and "hm_get i es = None" and fresh: "hm_get (f e) ix = None"
  shows "index_of f (hm_insert i e es) (hm_insert (f e) i ix)"
proof -
  have "f g \<noteq> f e" if g: "hm_get j es = Some g" for j g
  proof
    assume "f g = f e"
    then have "hm_get (f e) ix = Some j" using ix g by (auto simp: index_of_def)
    then show False using fresh by simp
  qed
  then show ?thesis
    using assms by (auto simp: index_of_def hm)
qed

lemma index_of_update:
  assumes "index_of f es ix" and "hm_get i es = Some e" and "f e' = f e"
  shows "index_of f (hm_insert i e' es) ix"
  using assms by (auto simp: index_of_def hm)

lemma nat_inv_remove [keeps]: "nat_inv t \<Longrightarrow> nat_inv (snd (nat_remove i t))"
  by (auto simp: nat_remove_def nat_inv_def index_of_remove hm intro: order_trans [OF length_hm_remove_le]
      split: option.splits if_splits)

lemma nat_inv_removes: "nat_inv t \<Longrightarrow> nat_inv (fold (\<lambda>i s. snd (nat_remove i s)) is t)"
  by (induction "is" arbitrary: t) (simp_all add: nat_inv_remove)

lemma nat_removes_entries: "nat_entries (fold (\<lambda>i s. snd (nat_remove i s)) is t) = fold hm_remove is (nat_entries t)"
  by (induction "is" arbitrary: t) (simp_all add: nat_remove_def hm_remove_absent split: option.splits)

lemma nat_removes_config [simp]:
  "nat_max_entries (fold (\<lambda>i s. snd (nat_remove i s)) is t) = nat_max_entries t"
  "nat_next_id (fold (\<lambda>i s. snd (nat_remove i s)) is t) = nat_next_id t"
  by (induction "is" arbitrary: t) (simp_all add: nat_remove_def split: option.splits)

lemma nat_remove_expired_config [simp]:
  "nat_max_entries (snd (nat_remove_expired now t)) = nat_max_entries t"
  "nat_next_id (snd (nat_remove_expired now t)) = nat_next_id t"
  by (simp_all add: nat_remove_expired_def Let_def)

lemma nat_inv_remove_expired [keeps]: "nat_inv t \<Longrightarrow> nat_inv (snd (nat_remove_expired now t))"
  by (simp add: nat_remove_expired_def Let_def nat_inv_removes)

interpretation nat_tab: expiring_table nat_entries "\<lambda>t. nat_is_expired" nat_remove_expired nat_inv
proof
  show "hm_wf (nat_entries s)" if "nat_inv s" for s using that by (simp add: nat_inv_def)
qed (simp_all add: nat_inv_remove_expired, simp_all add: nat_remove_expired_def Let_def nat_removes_entries)

lemma allocate_next: "unat i < 2 ^ 64 - 1 \<Longrightarrow> i + 1 \<noteq> 0 \<and> unat (i + 1) = unat i + 1" for i :: u64
  by (simp add: unat_word_ariths word_unat_eq_iff)

text \<open>The table after a successful insertion, as long as the identifiers have not wrapped.\<close>

lemma nat_insert_Inr:
  assumes "nat_inv t" and "nat_insert now orig transl timeout t = (Inr i, t')"
  shows "timeout \<noteq> 0 \<and> i = nat_next_id t \<and> (\<exists>t1. t1 = snd (nat_remove_expired now t) \<and> nat_inv t1 \<and>
    length (nat_entries t1) < nat_max_entries t \<and> hm_get i (nat_entries t1) = None \<and>
    hm_get orig (nat_original_index t1) = None \<and> hm_get transl (nat_translated_index t1) = None \<and>
    t' = t1\<lparr> nat_next_id := (if i + 1 = 0 then 1 else i + 1),
      nat_entries := hm_insert i (nat_entry_new now i orig transl timeout) (nat_entries t1),
      nat_original_index := hm_insert orig i (nat_original_index t1),
      nat_translated_index := hm_insert transl i (nat_translated_index t1) \<rparr>)"
proof -
  define t1 where "t1 = snd (nat_remove_expired now t)"
  have inv: "nat_inv t1" unfolding t1_def by (rule nat_inv_remove_expired [OF assms(1)])
  then have "hm_get (nat_next_id t) (nat_entries t1) = None"
    by (auto simp: nat_inv_def t1_def) (metis less_irrefl not_Some_eq)
  then show ?thesis
    using assms(2) inv
    by (auto simp: nat_insert_def nat_allocate_id_def Let_def simp flip: t1_def split: if_splits)
      (simp_all add: t1_def)
qed

lemma nat_inv_insert [keeps]:
  assumes "nat_inv t" and "unat (nat_next_id t) < 2 ^ 64 - 1"
  shows "nat_inv (snd (nat_insert now orig transl timeout t))"
proof (cases "nat_insert now orig transl timeout t")
  case (Pair r t')
  show ?thesis
  proof (cases r)
    case (Inl e)
    then show ?thesis
      using Pair assms(1) nat_inv_remove_expired [OF assms(1), of now]
      by (auto simp: nat_insert_def nat_allocate_id_def Let_def split: if_splits)
  next
    case (Inr i)
    obtain t1 where t1: "nat_inv t1" "t1 = snd (nat_remove_expired now t)" "length (nat_entries t1) < nat_max_entries t"
      "hm_get i (nat_entries t1) = None" "hm_get orig (nat_original_index t1) = None"
      "hm_get transl (nat_translated_index t1) = None" "timeout \<noteq> 0" "i = nat_next_id t"
      and t': "t' = t1\<lparr> nat_next_id := (if i + 1 = 0 then 1 else i + 1),
        nat_entries := hm_insert i (nat_entry_new now i orig transl timeout) (nat_entries t1),
        nat_original_index := hm_insert orig i (nat_original_index t1),
        nat_translated_index := hm_insert transl i (nat_translated_index t1) \<rparr>"
      using nat_insert_Inr [OF assms(1)] Pair Inr by blast
    have nx: "i + 1 \<noteq> 0" "i < i + 1" and up: "j < i \<Longrightarrow> j < i + 1" for j
      using allocate_next [of i] assms(2) t1(8) by (auto simp: word_less_nat_alt)
    have conf: "nat_next_id t1 = i" "nat_max_entries t1 = nat_max_entries t" by (simp_all add: t1(2,8))
    show ?thesis
      using t1 nx up conf index_of_insert [of ne_original "nat_entries t1" "nat_original_index t1" i
          "nat_entry_new now i orig transl timeout"]
        index_of_insert [of ne_translated "nat_entries t1" "nat_translated_index t1" i
          "nat_entry_new now i orig transl timeout"]
      by (auto simp: Pair t' nat_inv_def hm nat_entry_new_def)
  qed
qed

lemma nat_inv_touch [keeps]: "nat_inv t \<Longrightarrow> nat_inv (snd (nat_touch now i t))"
  by (auto simp: nat_touch_def nat_entry_touch_def nat_inv_def hm index_of_update split: option.splits)

lemma nat_inv_clear [keeps]: "nat_inv t \<Longrightarrow> nat_inv (nat_clear t)"
  by (simp add: nat_clear_def nat_inv_def index_of_def)

lemma nat_inv_new: "nat_inv (nat_table_new m)"
  by (simp add: nat_table_new_def nat_inv_def index_of_def)

datatype nat_op = Nat_Insert u64 nat_tuple nat_tuple u64 | Nat_Touch u64 u64 | Nat_Remove u64
  | Nat_Expire u64 | Nat_Clear

primrec nat_exec :: "nat_op \<Rightarrow> nat_table \<Rightarrow> nat_table" where
  "nat_exec (Nat_Insert now a b d) t = snd (nat_insert now a b d t)"
| "nat_exec (Nat_Touch now i) t = snd (nat_touch now i t)"
| "nat_exec (Nat_Remove i) t = snd (nat_remove i t)"
| "nat_exec (Nat_Expire now) t = snd (nat_remove_expired now t)"
| "nat_exec Nat_Clear t = nat_clear t"

lemma nat_next_exec:
  "unat (nat_next_id t) < 2 ^ 64 - 1 \<Longrightarrow> unat (nat_next_id (nat_exec op t)) \<le> unat (nat_next_id t) + 1"
  using allocate_next [of "nat_next_id t"]
  by (cases op) (auto simp: nat_insert_def nat_allocate_id_def nat_touch_def nat_remove_def nat_clear_def Let_def
      split: option.splits)

lemma nat_max_exec: "nat_max_entries (nat_exec op t) = nat_max_entries t"
  by (cases op) (auto simp: nat_insert_def nat_allocate_id_def nat_touch_def nat_remove_def nat_clear_def Let_def
      split: option.splits)

lemma nat_inv_exec: "nat_inv t \<Longrightarrow> unat (nat_next_id t) < 2 ^ 64 - 1 \<Longrightarrow> nat_inv (nat_exec op t)"
  by (cases op) (simp_all add: keeps)

lemma nat_inv_run:
  "nat_inv t \<Longrightarrow> unat (nat_next_id t) + length ops < 2 ^ 64 \<Longrightarrow>
     nat_inv (fold nat_exec ops t) \<and> nat_max_entries (fold nat_exec ops t) = nat_max_entries t"
proof (induction ops arbitrary: t)
  case (Cons op ops)
  have n: "unat (nat_next_id t) < 2 ^ 64 - 1" using Cons.prems(2) by simp
  show ?case
    using Cons.IH [OF nat_inv_exec [OF Cons.prems(1) n, of op]] nat_next_exec [OF n, of op] Cons.prems(2)
    by (simp add: nat_max_exec)
qed simp

lemma lookup_original_iff:
  "nat_inv t \<Longrightarrow> lookup_original tup t = Some e \<longleftrightarrow> (\<exists>i. hm_get i (nat_entries t) = Some e \<and> ne_original e = tup)"
  by (auto simp: lookup_original_def nat_inv_def index_of_def bind_eq_Some_conv)

lemma lookup_translated_iff:
  "nat_inv t \<Longrightarrow> lookup_translated tup t = Some e \<longleftrightarrow> (\<exists>i. hm_get i (nat_entries t) = Some e \<and> ne_translated e = tup)"
  by (auto simp: lookup_translated_def nat_inv_def index_of_def bind_eq_Some_conv)

lemma lookup_both:
  "nat_inv t \<Longrightarrow> lookup_original tup t = Some e \<longleftrightarrow>
     ne_original e = tup \<and> lookup_translated (ne_translated e) t = Some e"
  by (auto simp: lookup_original_iff lookup_translated_iff)

definition demo_original :: nat_tuple where
  "demo_original = \<lparr> nt_src_ip = V4 10, nt_src_port = 1000, nt_dst_ip = V4 99, nt_dst_port = 80, nt_protocol = Proto_Tcp \<rparr>"

definition demo_translated :: nat_tuple where
  "demo_translated = demo_original\<lparr> nt_src_ip := V4 7, nt_src_port := 40000 \<rparr>"

lemma demo_nat_insert:
  "nat_insert 5 demo_original demo_translated 60 (nat_table_new 4) =
     (Inr 1, \<lparr> nat_entries = [(1, nat_entry_new 5 1 demo_original demo_translated 60)],
       nat_original_index = [(demo_original, 1)], nat_translated_index = [(demo_translated, 1)],
       nat_max_entries = 4, nat_next_id = 2 \<rparr>)"
  by (simp add: nat_insert_def nat_table_new_def nat_remove_expired_def keys_where_def nat_allocate_id_def
      hm_insert_def Let_def)

lemma demo_nat_lookup:
  "lookup_original demo_original (snd (nat_insert 5 demo_original demo_translated 60 (nat_table_new 4))) =
     Some (nat_entry_new 5 1 demo_original demo_translated 60)"
  by (simp add: demo_nat_insert lookup_original_def hm_get_def)

text \<open>
  C17: Network address translation is a one-to-one correspondence. After any history of fewer
  than \<open>2 ^ 64 - 1\<close> operations on a new table: a lookup by original tuple and a lookup by
  translated tuple find the same entry or neither, an entry found by a tuple carries it, two
  originals never share a translation, and the table stays within its limit.
\<close>

theorem nat_one_to_one:
  assumes "length ops < 2 ^ 64 - 1" and "t = fold nat_exec ops (nat_table_new m)"
  shows "(\<forall>a e. lookup_original a t = Some e \<longleftrightarrow>
      ne_original e = a \<and> lookup_translated (ne_translated e) t = Some e) \<and>
    (\<forall>a b e f. lookup_original a t = Some e \<and> lookup_original b t = Some f \<and> ne_translated e = ne_translated f \<longrightarrow> a = b) \<and>
    length (nat_entries t) \<le> m"
proof -
  have run: "nat_inv t \<and> nat_max_entries t = m"
    using nat_inv_run [OF nat_inv_new, of m ops] assms by (simp add: nat_table_new_def)
  then have inv: "nat_inv t" by simp
  have "a = b" if "lookup_original a t = Some e" "lookup_original b t = Some f" "ne_translated e = ne_translated f"
    for a b e f using that lookup_both [OF inv, of a e] lookup_both [OF inv, of b f] by simp
  moreover have "lookup_original a t = Some e \<longleftrightarrow>
      ne_original e = a \<and> lookup_translated (ne_translated e) t = Some e" for a e
    by (rule lookup_both [OF inv])
  ultimately show ?thesis using run unfolding nat_inv_def by blast
qed

theorem nat_one_to_one_witness:
  "\<exists>e. lookup_original demo_original (fold nat_exec [Nat_Insert 5 demo_original demo_translated 60] (nat_table_new 4)) = Some e \<and>
     lookup_translated demo_translated (fold nat_exec [Nat_Insert 5 demo_original demo_translated 60] (nat_table_new 4)) = Some e"
  using nat_one_to_one [of "[Nat_Insert 5 demo_original demo_translated 60]" _ 4, OF _ refl, THEN conjunct1,
      rule_format, of demo_original "nat_entry_new 5 1 demo_original demo_translated 60"] demo_nat_lookup
  by (simp add: nat_entry_new_def)

text \<open>
  Insert and look up. A successful insertion makes exactly the new mapping visible under
  both its tuples with a fresh identifier, keeps every mapping that has not expired, and
  removing that identifier again makes both tuples unknown.
\<close>

lemma nat_insert_lookup:
  assumes "nat_inv t" and "nat_insert now a b timeout t = (Inr i, t')" and "e = nat_entry_new now i a b timeout"
  shows "nat_get i t = None \<and> lookup_original a t' = Some e \<and> lookup_translated b t' = Some e \<and>
    (\<forall>x f. lookup_original x t = Some f \<and> \<not> nat_is_expired now f \<longrightarrow> lookup_original x t' = Some f) \<and>
    lookup_original a (snd (nat_remove i t')) = None \<and> lookup_translated b (snd (nat_remove i t')) = None"
proof -
  obtain t1 where t1: "nat_inv t1" "t1 = snd (nat_remove_expired now t)" "i = nat_next_id t"
      "hm_get i (nat_entries t1) = None" "hm_get a (nat_original_index t1) = None"
      "hm_get b (nat_translated_index t1) = None"
    and t': "t' = t1\<lparr> nat_next_id := (if i + 1 = 0 then 1 else i + 1),
      nat_entries := hm_insert i (nat_entry_new now i a b timeout) (nat_entries t1),
      nat_original_index := hm_insert a i (nat_original_index t1),
      nat_translated_index := hm_insert b i (nat_translated_index t1) \<rparr>"
    using nat_insert_Inr [OF assms(1,2)] by blast
  have fresh: "nat_get i t = None"
    using assms(1) t1(3) by (auto simp: nat_get_def nat_inv_def) (metis less_irrefl not_Some_eq)
  have "lookup_original x t' = Some f" if l: "lookup_original x t = Some f" and "\<not> nat_is_expired now f" for x f
  proof -
    obtain j where j: "hm_get j (nat_entries t) = Some f" "ne_original f = x"
      using l lookup_original_iff [OF assms(1)] by blast
    then have "hm_get j (nat_entries t1) = Some f"
      using that by (simp add: t1(2) nat_tab.get_sweep [OF assms(1)])
    then have "lookup_original x t1 = Some f"
      using j lookup_original_iff [OF t1(1)] by blast
    then show ?thesis
      using t1 by (auto simp: t' lookup_original_def hm bind_eq_Some_conv)
  qed
  then show ?thesis
    using fresh t1 by (auto simp: assms(3) t' lookup_original_def lookup_translated_def nat_remove_def hm nat_entry_new_def)
qed

theorem nat_insert_lookup_witness:
  "nat_inv (nat_table_new 4) \<and> (\<exists>t'. nat_insert 5 demo_original demo_translated 60 (nat_table_new 4) = (Inr 1, t') \<and>
     lookup_translated demo_translated t' = Some (nat_entry_new 5 1 demo_original demo_translated 60))"
  using nat_insert_lookup [OF nat_inv_new demo_nat_insert refl] demo_nat_insert nat_inv_new by blast

text \<open>
  The identifier counter wraps around and is not checked against the live entries: once it
  meets the identifier of a live entry, an insertion overwrites that entry, and the lookup of
  its original tuple from then on returns the translation of the other mapping.
\<close>

lemma nat_wrapped_id_overwrites:
  assumes "hm_get (nat_next_id t) (nat_entries t) = Some e" and "nat_entries t = [(nat_next_id t, e)]"
    and "hm_get (ne_original e) (nat_original_index t) = Some (nat_next_id t)" and "\<not> nat_is_expired now e"
    and "nat_insert now a b timeout t = (Inr i, t')"
  shows "ne_original e \<noteq> a \<and> lookup_original (ne_original e) t' = Some (nat_entry_new now i a b timeout)"
proof -
  have "nat_remove_expired now t = (0, t)"
    using assms(2,4) by (simp add: nat_remove_expired_def keys_where_def)
  then show ?thesis
    using assms by (auto simp: nat_insert_def nat_allocate_id_def Let_def lookup_original_def hm split: if_splits)
qed

end
