(* ===== verification/Gateway_Conn.thy ===== *)
theory Gateway_Conn
  imports Tables Core_Flow
begin

text \<open>
  \<open>crates/gateway-capability/src/connection_state.rs\<close>: the connection tracker of the gateway,
  a bounded table of connections with a lifecycle, traffic counters and an idle timeout. A
  reading of the system clock is the argument \<open>now\<close>.
\<close>

record connection_key =
  ck_src_ip :: ip_addr
  ck_src_port :: u16
  ck_dst_ip :: ip_addr
  ck_dst_port :: u16
  ck_protocol :: protocol \<comment> \<open>\<open>ConnectionProtocol\<close> has the constructors of \<open>Protocol\<close>\<close>

definition conn_reverse :: "connection_key \<Rightarrow> connection_key" where
  "conn_reverse k = \<lparr> ck_src_ip = ck_dst_ip k, ck_src_port = ck_dst_port k, ck_dst_ip = ck_src_ip k,
     ck_dst_port = ck_src_port k, ck_protocol = ck_protocol k \<rparr>"

datatype connection_state = Conn_New | Conn_Established | Conn_Closing | Conn_Closed | Conn_Failed

definition conn_can_transition_to :: "connection_state \<Rightarrow> connection_state \<Rightarrow> bool" where
  "conn_can_transition_to s next \<longleftrightarrow> (s, next) \<in>
     {(Conn_New, Conn_New), (Conn_New, Conn_Established), (Conn_New, Conn_Failed),
      (Conn_Established, Conn_Established), (Conn_Established, Conn_Closing), (Conn_Established, Conn_Failed),
      (Conn_Closing, Conn_Closing), (Conn_Closing, Conn_Closed), (Conn_Closing, Conn_Failed),
      (Conn_Failed, Conn_Failed), (Conn_Closed, Conn_Closed)}"

definition conn_is_terminal :: "connection_state \<Rightarrow> bool" where
  "conn_is_terminal s \<longleftrightarrow> s \<in> {Conn_Closed, Conn_Failed}"

interpretation conn: lifecycle conn_can_transition_to conn_is_terminal
  by unfold_locales (auto simp: conn_can_transition_to_def conn_is_terminal_def)

datatype connection_state_error = Conn_InvalidTransition connection_state connection_state
  | Conn_CapacityExceeded | Conn_AlreadyExists | Conn_NotFound | Conn_InvalidTimeout

record connection_entry =
  ce_key :: connection_key
  ce_state :: connection_state
  ce_created_at :: u64
  ce_last_seen :: u64
  ce_timeout_secs :: u64
  ce_packets_forwarded :: u64
  ce_bytes_forwarded :: u64

definition conn_entry_new :: "u64 \<Rightarrow> connection_key \<Rightarrow> u64 \<Rightarrow> connection_state_error + connection_entry" where
  "conn_entry_new now key timeout_secs =
     (if timeout_secs = 0 then Inl Conn_InvalidTimeout
      else Inr \<lparr> ce_key = key, ce_state = Conn_New, ce_created_at = now, ce_last_seen = now,
        ce_timeout_secs = timeout_secs, ce_packets_forwarded = 0, ce_bytes_forwarded = 0 \<rparr>)"

definition conn_is_expired :: "u64 \<Rightarrow> connection_entry \<Rightarrow> bool" where
  "conn_is_expired now e \<longleftrightarrow> ce_timeout_secs e \<le> saturating_sub now (ce_last_seen e)"

definition conn_touch :: "u64 \<Rightarrow> connection_entry \<Rightarrow> connection_entry" where
  "conn_touch now e = e\<lparr> ce_last_seen := now \<rparr>"

definition conn_entry_record_packet :: "u64 \<Rightarrow> usize \<Rightarrow> connection_entry \<Rightarrow> connection_entry" where
  "conn_entry_record_packet now bytes e =
     conn_touch now (e\<lparr> ce_packets_forwarded := saturating_add (ce_packets_forwarded e) 1,
       ce_bytes_forwarded := saturating_add (ce_bytes_forwarded e) (word_of_nat bytes) \<rparr>)"

definition conn_entry_transition ::
  "u64 \<Rightarrow> connection_state \<Rightarrow> connection_entry \<Rightarrow> (connection_state_error + unit) \<times> connection_entry" where
  "conn_entry_transition now next e =
     (if ce_state e = next then (Inr (), e)
      else if \<not> conn_can_transition_to (ce_state e) next then (Inl (Conn_InvalidTransition (ce_state e) next), e)
      else (Inr (), conn_touch now (e\<lparr> ce_state := next \<rparr>)))"

record connection_table =
  ct_entries :: "(connection_key, connection_entry) hash_map"
  ct_max_entries :: usize

definition conn_table_new :: "usize \<Rightarrow> connection_table" where
  "conn_table_new max_entries = \<lparr> ct_entries = [], ct_max_entries = max_entries \<rparr>"

definition conn_remove_expired :: "u64 \<Rightarrow> connection_table \<Rightarrow> usize \<times> connection_table" where
  "conn_remove_expired now t =
     (let expired = keys_where (conn_is_expired now) (ct_entries t) in
      (length expired, t\<lparr> ct_entries := fold hm_remove expired (ct_entries t) \<rparr>))"

definition conn_insert ::
  "u64 \<Rightarrow> connection_entry \<Rightarrow> connection_table \<Rightarrow> (connection_state_error + unit) \<times> connection_table" where
  "conn_insert now e t =
     (let t1 = snd (conn_remove_expired now t) in
      if hm_contains (ce_key e) (ct_entries t1) then (Inl Conn_AlreadyExists, t1)
      else if length (ct_entries t1) \<ge> ct_max_entries t1 then (Inl Conn_CapacityExceeded, t1)
      else (Inr (), t1\<lparr> ct_entries := hm_insert (ce_key e) e (ct_entries t1) \<rparr>))"

definition conn_get :: "connection_key \<Rightarrow> connection_table \<Rightarrow> connection_entry option" where
  "conn_get key t = hm_get key (ct_entries t)"

definition conn_lookup :: "u64 \<Rightarrow> connection_key \<Rightarrow> connection_table \<Rightarrow> connection_entry option" where
  "conn_lookup now key t = Option.bind (hm_get key (ct_entries t)) (\<lambda>e. if conn_is_expired now e then None else Some e)"

definition conn_lookup_reverse :: "u64 \<Rightarrow> connection_key \<Rightarrow> connection_table \<Rightarrow> connection_entry option" where
  "conn_lookup_reverse now key t = conn_lookup now (conn_reverse key) t"

definition conn_transition ::
  "u64 \<Rightarrow> connection_key \<Rightarrow> connection_state \<Rightarrow> connection_table \<Rightarrow> (connection_state_error + unit) \<times> connection_table" where
  "conn_transition now key next t = (case hm_get key (ct_entries t) of
      None \<Rightarrow> (Inl Conn_NotFound, t)
    | Some e \<Rightarrow> (case conn_entry_transition now next e of
        (r, e') \<Rightarrow> (r, t\<lparr> ct_entries := hm_insert key e' (ct_entries t) \<rparr>)))"

definition conn_record_packet ::
  "u64 \<Rightarrow> connection_key \<Rightarrow> usize \<Rightarrow> connection_table \<Rightarrow> (connection_state_error + unit) \<times> connection_table" where
  "conn_record_packet now key bytes t = (case hm_get key (ct_entries t) of
      None \<Rightarrow> (Inl Conn_NotFound, t)
    | Some e \<Rightarrow> (Inr (), t\<lparr> ct_entries := hm_insert key (conn_entry_record_packet now bytes e) (ct_entries t) \<rparr>))"

definition conn_remove :: "connection_key \<Rightarrow> connection_table \<Rightarrow> connection_entry option \<times> connection_table" where
  "conn_remove key t = (hm_get key (ct_entries t), t\<lparr> ct_entries := hm_remove key (ct_entries t) \<rparr>)"

definition conn_clear :: "connection_table \<Rightarrow> connection_table" where
  "conn_clear t = t\<lparr> ct_entries := [] \<rparr>"

subsection \<open>The invariant\<close>

definition conn_inv :: "connection_table \<Rightarrow> bool" where
  "conn_inv t \<longleftrightarrow> hm_wf (ct_entries t) \<and> length (ct_entries t) \<le> ct_max_entries t \<and>
     (\<forall>k e. hm_get k (ct_entries t) = Some e \<longrightarrow> ce_key e = k)"

lemma conn_inv_remove_expired [keeps]: "conn_inv t \<Longrightarrow> conn_inv (snd (conn_remove_expired now t))"
  using sweep_length [of "ct_entries t" "conn_is_expired now"]
  by (auto simp: conn_inv_def conn_remove_expired_def Let_def hm.wf_dels sweep_get split: option.splits if_splits)

interpretation conn_tab: expiring_table ct_entries "\<lambda>t. conn_is_expired" conn_remove_expired conn_inv
proof
  show "hm_wf (ct_entries s)" if "conn_inv s" for s using that by (simp add: conn_inv_def)
qed (simp_all add: conn_inv_remove_expired, simp_all add: conn_remove_expired_def Let_def)

lemma conn_inv_write:
  "conn_inv t \<Longrightarrow> hm_get k (ct_entries t) = Some e \<Longrightarrow> ce_key e' = ce_key e \<Longrightarrow>
     conn_inv (t\<lparr> ct_entries := hm_insert k e' (ct_entries t) \<rparr>)"
  by (auto simp: conn_inv_def hm)

lemma conn_inv_insert [keeps]: "conn_inv t \<Longrightarrow> conn_inv (snd (conn_insert now e t))"
  using conn_inv_remove_expired [of t now]
  by (auto simp: conn_insert_def Let_def conn_inv_def hm)

lemma conn_entry_transition_key: "conn_entry_transition now s e = (r, e') \<Longrightarrow> ce_key e' = ce_key e"
  by (auto simp: conn_entry_transition_def conn_touch_def split: if_splits)

lemma conn_inv_transition [keeps]: "conn_inv t \<Longrightarrow> conn_inv (snd (conn_transition now key s t))"
  by (auto simp: conn_transition_def intro!: conn_inv_write conn_entry_transition_key split: option.splits prod.splits)

lemma conn_inv_record [keeps]: "conn_inv t \<Longrightarrow> conn_inv (snd (conn_record_packet now key b t))"
  by (auto simp: conn_record_packet_def conn_entry_record_packet_def conn_touch_def intro: conn_inv_write split: option.splits)

lemma conn_inv_remove [keeps]: "conn_inv t \<Longrightarrow> conn_inv (snd (conn_remove key t))"
  by (auto simp: conn_remove_def conn_inv_def hm intro: order_trans [OF length_hm_remove_le] split: if_splits)

lemma conn_inv_new: "conn_inv (conn_table_new m)" and conn_inv_clear [keeps]: "conn_inv t \<Longrightarrow> conn_inv (conn_clear t)"
  by (simp_all add: conn_inv_def conn_table_new_def conn_clear_def)

datatype conn_op = Conn_Insert u64 connection_entry | Conn_Transition u64 connection_key connection_state
  | Conn_Record u64 connection_key usize | Conn_Remove connection_key | Conn_Expire u64 | Conn_Clear

primrec conn_exec :: "conn_op \<Rightarrow> connection_table \<Rightarrow> connection_table" where
  "conn_exec (Conn_Insert now e) t = snd (conn_insert now e t)"
| "conn_exec (Conn_Transition now k s) t = snd (conn_transition now k s t)"
| "conn_exec (Conn_Record now k b) t = snd (conn_record_packet now k b t)"
| "conn_exec (Conn_Remove k) t = snd (conn_remove k t)"
| "conn_exec (Conn_Expire now) t = snd (conn_remove_expired now t)"
| "conn_exec Conn_Clear t = conn_clear t"

lemma conn_inv_exec: "conn_inv t \<Longrightarrow> conn_inv (conn_exec op t)"
  by (cases op) (simp_all add: keeps)

lemma conn_inv_run: "conn_inv t \<Longrightarrow> conn_inv (fold conn_exec ops t)"
  by (induction ops arbitrary: t) (simp_all add: conn_inv_exec)

text \<open>A terminal connection is only ever left by removing it.\<close>

definition stays_terminal :: "connection_key \<Rightarrow> connection_entry \<Rightarrow> connection_table \<Rightarrow> bool" where
  "stays_terminal k e t \<longleftrightarrow> conn_inv t \<and> (\<exists>e'. conn_get k t = Some e' \<and> ce_state e' = ce_state e)"

lemma conn_entry_terminal:
  "conn_entry_transition now s e = (r, e') \<Longrightarrow> conn_is_terminal (ce_state e) \<Longrightarrow> ce_state e' = ce_state e"
  using conn.terminal_stuck [of "ce_state e" s]
  by (auto simp: conn_entry_transition_def conn_touch_def split: if_splits)

text \<open>The operations that may drop the entry of \<open>k\<close>: its removal, and every sweep.\<close>

definition removes_key :: "connection_key \<Rightarrow> conn_op \<Rightarrow> bool" where
  "removes_key k op \<longleftrightarrow> (case op of
      Conn_Remove k' \<Rightarrow> k' = k | Conn_Clear \<Rightarrow> True | Conn_Expire _ \<Rightarrow> True | Conn_Insert _ _ \<Rightarrow> True | _ \<Rightarrow> False)"

lemma stays_terminal_exec:
  assumes "stays_terminal k e t" and "conn_is_terminal (ce_state e)" and "\<not> removes_key k op"
  shows "stays_terminal k e (conn_exec op t)"
  using assms conn_inv_exec [of t op]
  by (cases op)
    (auto simp: stays_terminal_def removes_key_def conn_get_def conn_transition_def conn_record_packet_def
      conn_entry_record_packet_def conn_touch_def conn_remove_def hm split: option.splits prod.splits
      dest: conn_entry_terminal)

lemma stays_terminal_run:
  "stays_terminal k e t \<Longrightarrow> conn_is_terminal (ce_state e) \<Longrightarrow> (\<And>op. op \<in> set ops \<Longrightarrow> \<not> removes_key k op) \<Longrightarrow>
     stays_terminal k e (fold conn_exec ops t)"
  by (induction ops arbitrary: t) (simp_all add: stays_terminal_exec)

lemma conn_max_exec: "ct_max_entries (conn_exec op t) = ct_max_entries t"
  by (cases op)
    (auto simp: conn_insert_def conn_transition_def conn_record_packet_def conn_remove_def conn_remove_expired_def
      conn_clear_def Let_def split: option.splits prod.splits)

lemma conn_max_run: "ct_max_entries (fold conn_exec ops t) = ct_max_entries t"
  by (induction ops arbitrary: t) (simp_all add: conn_max_exec)


definition demo_conn_key :: connection_key where
  "demo_conn_key = \<lparr> ck_src_ip = V4 1, ck_src_port = 2, ck_dst_ip = V4 3, ck_dst_port = 4, ck_protocol = Proto_Udp \<rparr>"

definition demo_conn :: connection_entry where
  "demo_conn = \<lparr> ce_key = demo_conn_key, ce_state = Conn_New, ce_created_at = 0, ce_last_seen = 0, ce_timeout_secs = 9,
     ce_packets_forwarded = 0, ce_bytes_forwarded = 0 \<rparr>"


end
