(* ===== verification/Gateway_Neighbor.thy ===== *)
theory Gateway_Neighbor
  imports Tables Core_Types
begin

text \<open>
  \<open>crates/gateway-capability/src/neighbor.rs\<close>: the neighbour cache, which resolves a next hop
  on an interface to its link-layer address. A reading of the system clock is the argument
  \<open>now\<close>.
\<close>

datatype neighbor_state = Nb_Reachable | Nb_Stale | Nb_Delay | Nb_Probe | Nb_Failed

definition nb_state_is_usable :: "neighbor_state \<Rightarrow> bool" where
  "nb_state_is_usable s \<longleftrightarrow> s \<in> {Nb_Reachable, Nb_Stale}"

record neighbor_key =
  nk_address :: ip_addr
  nk_interface_id :: u32

record neighbor_entry =
  nb_key :: neighbor_key
  nb_link_layer_address :: "byte list option"
  nb_state :: neighbor_state
  nb_created_at :: u64
  nb_last_updated :: u64
  nb_expires_at :: "u64 option"

definition neighbor_entry_new ::
  "u64 \<Rightarrow> ip_addr \<Rightarrow> u32 \<Rightarrow> byte list option \<Rightarrow> neighbor_state \<Rightarrow> u64 option \<Rightarrow> neighbor_entry" where
  "neighbor_entry_new now address interface_id link_layer_address state ttl_secs =
     \<lparr> nb_key = \<lparr> nk_address = address, nk_interface_id = interface_id \<rparr>, nb_link_layer_address = link_layer_address,
       nb_state = state, nb_created_at = now, nb_last_updated = now,
       nb_expires_at = map_option (saturating_add now) ttl_secs \<rparr>"

definition nb_is_expired :: "u64 \<Rightarrow> neighbor_entry \<Rightarrow> bool" where
  "nb_is_expired now e = (case nb_expires_at e of Some t \<Rightarrow> t \<le> now | None \<Rightarrow> False)"

definition nb_is_usable :: "u64 \<Rightarrow> neighbor_entry \<Rightarrow> bool" where
  "nb_is_usable now e \<longleftrightarrow> \<not> nb_is_expired now e \<and> nb_state_is_usable (nb_state e)"

definition nb_entry_set_state :: "u64 \<Rightarrow> neighbor_state \<Rightarrow> neighbor_entry \<Rightarrow> neighbor_entry" where
  "nb_entry_set_state now s e = e\<lparr> nb_state := s, nb_last_updated := now \<rparr>"

definition nb_set_link_layer_address :: "u64 \<Rightarrow> byte list option \<Rightarrow> neighbor_entry \<Rightarrow> neighbor_entry" where
  "nb_set_link_layer_address now a e = e\<lparr> nb_link_layer_address := a, nb_last_updated := now \<rparr>"

datatype neighbor_error = Nb_CapacityExceeded | Nb_InvalidInterface | Nb_AlreadyExists | Nb_NotFound

record neighbor_cache =
  nc_entries :: "(neighbor_key, neighbor_entry) hash_map"
  nc_max_entries :: usize

definition neighbor_cache_new :: "usize \<Rightarrow> neighbor_cache" where
  "neighbor_cache_new max_entries = \<lparr> nc_entries = [], nc_max_entries = max_entries \<rparr>"

definition nb_remove_expired :: "u64 \<Rightarrow> neighbor_cache \<Rightarrow> usize \<times> neighbor_cache" where
  "nb_remove_expired now c =
     (let expired = keys_where (nb_is_expired now) (nc_entries c) in
      (length expired, c\<lparr> nc_entries := fold hm_remove expired (nc_entries c) \<rparr>))"

definition nb_insert :: "u64 \<Rightarrow> neighbor_entry \<Rightarrow> neighbor_cache \<Rightarrow> (neighbor_error + unit) \<times> neighbor_cache" where
  "nb_insert now e c =
     (if nk_interface_id (nb_key e) = 0 then (Inl Nb_InvalidInterface, c)
      else let c1 = snd (nb_remove_expired now c) in
        if hm_contains (nb_key e) (nc_entries c1) then (Inl Nb_AlreadyExists, c1)
        else if length (nc_entries c1) \<ge> nc_max_entries c1 then (Inl Nb_CapacityExceeded, c1)
        else (Inr (), c1\<lparr> nc_entries := hm_insert (nb_key e) e (nc_entries c1) \<rparr>))"

definition nb_upsert :: "u64 \<Rightarrow> neighbor_entry \<Rightarrow> neighbor_cache \<Rightarrow> (neighbor_error + unit) \<times> neighbor_cache" where
  "nb_upsert now e c =
     (if nk_interface_id (nb_key e) = 0 then (Inl Nb_InvalidInterface, c)
      else let c1 = snd (nb_remove_expired now c) in
        if hm_contains (nb_key e) (nc_entries c1) then
          (Inr (), c1\<lparr> nc_entries := hm_insert (nb_key e) e (nc_entries c1) \<rparr>)
        else if length (nc_entries c1) \<ge> nc_max_entries c1 then (Inl Nb_CapacityExceeded, c1)
        else (Inr (), c1\<lparr> nc_entries := hm_insert (nb_key e) e (nc_entries c1) \<rparr>))"

definition nb_get :: "ip_addr \<Rightarrow> u32 \<Rightarrow> neighbor_cache \<Rightarrow> neighbor_entry option" where
  "nb_get address interface_id c = hm_get \<lparr> nk_address = address, nk_interface_id = interface_id \<rparr> (nc_entries c)"

definition nb_lookup :: "u64 \<Rightarrow> ip_addr \<Rightarrow> u32 \<Rightarrow> neighbor_cache \<Rightarrow> neighbor_entry option" where
  "nb_lookup now address interface_id c =
     Option.bind (nb_get address interface_id c) (\<lambda>e. if nb_is_usable now e then Some e else None)"

definition nb_resolve :: "u64 \<Rightarrow> ip_addr \<Rightarrow> u32 \<Rightarrow> neighbor_cache \<Rightarrow> neighbor_error + byte list" where
  "nb_resolve now address interface_id c = (case nb_lookup now address interface_id c of
      None \<Rightarrow> Inl Nb_NotFound
    | Some e \<Rightarrow> (case nb_link_layer_address e of None \<Rightarrow> Inl Nb_NotFound | Some a \<Rightarrow> Inr a))"

definition nb_set_state ::
  "u64 \<Rightarrow> ip_addr \<Rightarrow> u32 \<Rightarrow> neighbor_state \<Rightarrow> neighbor_cache \<Rightarrow> (neighbor_error + unit) \<times> neighbor_cache" where
  "nb_set_state now address interface_id s c = (case nb_get address interface_id c of
      None \<Rightarrow> (Inl Nb_NotFound, c)
    | Some e \<Rightarrow> (Inr (), c\<lparr> nc_entries := hm_insert \<lparr> nk_address = address, nk_interface_id = interface_id \<rparr>
        (nb_entry_set_state now s e) (nc_entries c) \<rparr>))"

definition nb_remove :: "ip_addr \<Rightarrow> u32 \<Rightarrow> neighbor_cache \<Rightarrow> neighbor_entry option \<times> neighbor_cache" where
  "nb_remove address interface_id c =
     (nb_get address interface_id c,
      c\<lparr> nc_entries := hm_remove \<lparr> nk_address = address, nk_interface_id = interface_id \<rparr> (nc_entries c) \<rparr>)"

definition nb_clear :: "neighbor_cache \<Rightarrow> neighbor_cache" where
  "nb_clear c = c\<lparr> nc_entries := [] \<rparr>"

subsection \<open>The invariant\<close>

definition nb_inv :: "neighbor_cache \<Rightarrow> bool" where
  "nb_inv c \<longleftrightarrow> hm_wf (nc_entries c) \<and> length (nc_entries c) \<le> nc_max_entries c \<and>
     (\<forall>k e. hm_get k (nc_entries c) = Some e \<longrightarrow> nb_key e = k \<and> nk_interface_id k \<noteq> 0)"

lemma nb_inv_remove_expired [keeps]: "nb_inv c \<Longrightarrow> nb_inv (snd (nb_remove_expired now c))"
  using sweep_length [of "nc_entries c" "nb_is_expired now"]
  by (auto simp: nb_inv_def nb_remove_expired_def Let_def hm.wf_dels sweep_get split: option.splits if_splits)

interpretation nb_tab: expiring_table nc_entries "\<lambda>t. nb_is_expired" nb_remove_expired nb_inv
proof
  show "hm_wf (nc_entries s)" if "nb_inv s" for s using that by (simp add: nb_inv_def)
qed (simp_all add: nb_inv_remove_expired, simp_all add: nb_remove_expired_def Let_def)

lemma nb_inv_put: "nb_inv c \<Longrightarrow> nk_interface_id (nb_key e) \<noteq> 0 \<Longrightarrow>
    hm_contains (nb_key e) (nc_entries c) \<or> length (nc_entries c) < nc_max_entries c \<Longrightarrow>
    nb_inv (c\<lparr> nc_entries := hm_insert (nb_key e) e (nc_entries c) \<rparr>)"
  by (auto simp: nb_inv_def hm)

lemma nb_inv_insert [keeps]: "nb_inv c \<Longrightarrow> nb_inv (snd (nb_insert now e c))"
  by (auto simp: nb_insert_def Let_def nb_inv_remove_expired intro!: nb_inv_put)

lemma nb_inv_upsert [keeps]: "nb_inv c \<Longrightarrow> nb_inv (snd (nb_upsert now e c))"
  by (auto simp: nb_upsert_def Let_def nb_inv_remove_expired intro!: nb_inv_put)

lemma nb_inv_set_state [keeps]: "nb_inv c \<Longrightarrow> nb_inv (snd (nb_set_state now a i s c))"
  by (fastforce simp: nb_set_state_def nb_get_def nb_inv_def nb_entry_set_state_def hm split: option.splits)

lemma nb_inv_remove [keeps]: "nb_inv c \<Longrightarrow> nb_inv (snd (nb_remove a i c))"
  by (auto simp: nb_remove_def nb_inv_def hm intro: order_trans [OF length_hm_remove_le] split: if_splits)

lemma nb_inv_new: "nb_inv (neighbor_cache_new m)" and nb_inv_clear [keeps]: "nb_inv c \<Longrightarrow> nb_inv (nb_clear c)"
  by (simp_all add: nb_inv_def neighbor_cache_new_def nb_clear_def)

text \<open>
  Neighbour resolution is exact. \<open>resolve\<close> returns a link-layer address exactly if the cache
  holds an entry for this address on this interface that has not expired, is reachable or
  stale, and has that link-layer address; every other case is \<open>NotFound\<close>. After an \<open>upsert\<close>
  that succeeds, resolution answers from the new entry and all other unexpired entries are as
  before.
\<close>

lemma neighbor_resolution:
  assumes "nb_inv c" and "nb_upsert now e c = (Inr (), c')" and "k = nb_key e"
  shows "(\<forall>a i. nb_resolve now a i c =
      (case nb_get a i c of
         None \<Rightarrow> Inl Nb_NotFound
       | Some f \<Rightarrow> if \<not> nb_is_expired now f \<and> nb_state f \<in> {Nb_Reachable, Nb_Stale} \<and> nb_link_layer_address f \<noteq> None
           then Inr (the (nb_link_layer_address f)) else Inl Nb_NotFound)) \<and>
    nb_resolve now (nk_address k) (nk_interface_id k) c' =
      (if nb_is_usable now e then (case nb_link_layer_address e of None \<Rightarrow> Inl Nb_NotFound | Some a \<Rightarrow> Inr a)
       else Inl Nb_NotFound) \<and>
    (\<forall>a i. \<lparr> nk_address = a, nk_interface_id = i \<rparr> \<noteq> k \<longrightarrow> nb_resolve now a i c' = nb_resolve now a i c)"
proof -
  have c': "c' = (snd (nb_remove_expired now c))\<lparr> nc_entries := hm_insert k e (nc_entries (snd (nb_remove_expired now c))) \<rparr>"
    using assms(2,3) by (auto simp: nb_upsert_def Let_def split: if_splits)
  have k: "\<lparr> nk_address = nk_address k, nk_interface_id = nk_interface_id k \<rparr> = k" by simp
  have exact: "\<forall>a i. nb_resolve now a i c =
      (case nb_get a i c of
         None \<Rightarrow> Inl Nb_NotFound
       | Some f \<Rightarrow> if \<not> nb_is_expired now f \<and> nb_state f \<in> {Nb_Reachable, Nb_Stale} \<and> nb_link_layer_address f \<noteq> None
           then Inr (the (nb_link_layer_address f)) else Inl Nb_NotFound)"
    by (auto simp: nb_resolve_def nb_lookup_def nb_is_usable_def nb_state_is_usable_def split: option.splits)
  show ?thesis
    by (rule conjI [OF exact]) (auto simp: c' nb_resolve_def nb_lookup_def nb_get_def hm k nb_tab.get_sweep [OF assms(1)] nb_is_usable_def
        split: option.splits)
qed

definition demo_neighbor :: neighbor_entry where
  "demo_neighbor = neighbor_entry_new 10 (V4 7) 3 (Some [2, 0, 0, 0, 0, 1]) Nb_Reachable (Some 60)"

theorem neighbor_resolution_witness:
  "nb_inv (neighbor_cache_new 2) \<and> (\<exists>c'. nb_upsert 10 demo_neighbor (neighbor_cache_new 2) = (Inr (), c') \<and>
     nb_resolve 10 (V4 7) 3 c' = Inr [2, 0, 0, 0, 0, 1])"
proof -
  define c' where "c' = (neighbor_cache_new 2)\<lparr> nc_entries := [(nb_key demo_neighbor, demo_neighbor)] \<rparr>"
  have u: "nb_upsert 10 demo_neighbor (neighbor_cache_new 2) = (Inr (), c')"
    by (simp add: nb_upsert_def c'_def neighbor_cache_new_def nb_remove_expired_def keys_where_def demo_neighbor_def
        neighbor_entry_new_def hm_insert_def Let_def)
  have "nb_is_usable 10 demo_neighbor" "nb_link_layer_address demo_neighbor = Some [2, 0, 0, 0, 0, 1]"
    "nb_key demo_neighbor = \<lparr> nk_address = V4 7, nk_interface_id = 3 \<rparr>"
    by (simp_all add: demo_neighbor_def neighbor_entry_new_def nb_is_usable_def nb_is_expired_def saturating_add_def
        nb_state_is_usable_def)
  then show ?thesis
    using neighbor_resolution [OF nb_inv_new u refl] u nb_inv_new by auto
qed

end
