(* ===== verification/Ip_Prefix.thy ===== *)
theory Ip_Prefix
  imports Core_Flow
begin

text \<open>
  Prefix matching. The repository has the same test four times: in the packet filter
  (\<open>network-core/src/filter.rs\<close>), the gateway's routing and forwarding tables
  (\<open>gateway-capability\<close>) and the observed routes and addresses (\<open>network-state\<close>). Here are the
  masks they build, the meaning of the test, and the filter itself. A shift is written with the
  wrap-around of the release build: the shift amount is taken modulo the width.
\<close>

definition mask_v4 :: "u8 \<Rightarrow> u32" where
  "mask_v4 prefix_len = (if prefix_len = 0 then 0 else push_bit (unat (32 - prefix_len) mod 32) (- 1))"

definition mask_v6 :: "u8 \<Rightarrow> u128" where
  "mask_v6 prefix_len = (if prefix_len = 0 then 0 else push_bit (unat (128 - prefix_len) mod 128) (- 1))"

definition max_prefix :: "ip_addr \<Rightarrow> u8" where
  "max_prefix a = (case a of V4 _ \<Rightarrow> 32 | V6 _ \<Rightarrow> 128)"

primrec is_ipv4 :: "ip_addr \<Rightarrow> bool" where
  "is_ipv4 (V4 _) = True"
| "is_ipv4 (V6 _) = False"

text \<open>The meaning: the addresses are of the same family and agree on their first \<open>n\<close> bits.\<close>

fun same_prefix :: "nat \<Rightarrow> ip_addr \<Rightarrow> ip_addr \<Rightarrow> bool" where
  "same_prefix n (V4 a) (V4 b) \<longleftrightarrow> (\<forall>i < 32. 32 - n \<le> i \<longrightarrow> bit a i = bit b i)"
| "same_prefix n (V6 a) (V6 b) \<longleftrightarrow> (\<forall>i < 128. 128 - n \<le> i \<longrightarrow> bit a i = bit b i)"
| "same_prefix n _ _ \<longleftrightarrow> False"

lemma and_high_bits_eq:
  "(a AND NOT (mask k)) = (b AND NOT (mask k)) \<longleftrightarrow> (\<forall>i < LENGTH('a). k \<le> i \<longrightarrow> bit a i = bit b i)"
  for a b :: "'a::len word"
  by (auto simp: bit_eq_iff bit_simps)

lemma unat_sub_u8: "p \<le> q \<Longrightarrow> unat (q - p) = unat q - unat p" for p q :: u8
  by (simp add: unat_sub word_le_nat_alt)

lemma mask_v4_matches:
  assumes "p \<le> 32"
  shows "(a AND mask_v4 p) = (b AND mask_v4 p) \<longleftrightarrow> same_prefix (unat p) (V4 a) (V4 b)"
proof (cases "p = 0")
  case False
  then have "0 < unat p" by (simp add: unat_gt_0)
  moreover have "unat p \<le> 32" using assms by (simp add: word_le_nat_alt)
  ultimately show ?thesis
    using False by (simp add: mask_v4_def and_high_bits_eq unat_sub_u8 [OF assms])
qed (simp add: mask_v4_def)

lemma mask_v6_matches:
  assumes "p \<le> 128"
  shows "(a AND mask_v6 p) = (b AND mask_v6 p) \<longleftrightarrow> same_prefix (unat p) (V6 a) (V6 b)"
proof (cases "p = 0")
  case False
  then have "0 < unat p" by (simp add: unat_gt_0)
  moreover have "unat p \<le> 128" using assms by (simp add: word_le_nat_alt)
  ultimately show ?thesis
    using False by (simp add: mask_v6_def and_high_bits_eq unat_sub_u8 [OF assms])
qed (simp add: mask_v6_def)

lemma same_prefix_refl [simp]: "same_prefix n a a"
  by (cases a) simp_all

lemma same_prefix_sym: "same_prefix n a b \<longleftrightarrow> same_prefix n b a"
  by (cases a; cases b) auto

lemma same_prefix_trans: "same_prefix n a b \<Longrightarrow> same_prefix n b c \<Longrightarrow> same_prefix n a c"
  by (cases a; cases b; cases c) auto

lemma same_prefix_mono: "same_prefix n a b \<Longrightarrow> m \<le> n \<Longrightarrow> same_prefix m a b"
  by (cases a; cases b) auto

text \<open>The network address of a prefix: all bits after the prefix are cleared.\<close>

fun prefix_of :: "u8 \<Rightarrow> ip_addr \<Rightarrow> ip_addr" where
  "prefix_of p (V4 v) = V4 (v AND mask_v4 p)"
| "prefix_of p (V6 v) = V6 (v AND mask_v6 p)"

lemma prefix_of_eq_iff:
  "is_ipv4 a = is_ipv4 b \<Longrightarrow> p \<le> max_prefix a \<Longrightarrow> prefix_of p a = prefix_of p b \<longleftrightarrow> same_prefix (unat p) a b"
  by (cases a; cases b) (simp_all add: mask_v4_matches mask_v6_matches max_prefix_def del: same_prefix.simps(1,2))

subsection \<open>The packet filter (\<open>filter.rs\<close>)\<close>

datatype address_match = Match_Exact ip_addr | Match_Network ip_addr u8

definition match_network :: "ip_addr \<Rightarrow> u8 \<Rightarrow> address_match option" where
  "match_network address prefix_len =
     (if prefix_len \<le> max_prefix address then Some (Match_Network address prefix_len) else None)"

text \<open>
  Here the prefix length is widened before the subtraction, to \<open>u32\<close> for IPv4 and to \<open>usize\<close>
  for IPv6.
\<close>

definition filter_mask_v4 :: "u8 \<Rightarrow> u32" where
  "filter_mask_v4 p = (let prefix = ucast p :: u32 in
     if prefix = 0 then 0 else push_bit (unat (32 - prefix) mod 32) (- 1))"

definition filter_mask_v6 :: "u8 \<Rightarrow> u128" where
  "filter_mask_v6 p = (let prefix = unat p in if prefix = 0 then 0 else push_bit (usub 128 prefix mod 128) (- 1))"

fun address_matches :: "address_match \<Rightarrow> ip_addr \<Rightarrow> bool" where
  "address_matches (Match_Exact address) candidate \<longleftrightarrow> address = candidate"
| "address_matches (Match_Network (V4 network) p) (V4 v) \<longleftrightarrow> (network AND filter_mask_v4 p) = (v AND filter_mask_v4 p)"
| "address_matches (Match_Network (V6 network) p) (V6 v) \<longleftrightarrow> (network AND filter_mask_v6 p) = (v AND filter_mask_v6 p)"
| "address_matches (Match_Network _ _) _ \<longleftrightarrow> False"

type_synonym port_match = "u16 \<times> u16" \<comment> \<open>\<open>RangeInclusive<u16>\<close>\<close>

definition port_exact :: "u16 \<Rightarrow> port_match" where
  "port_exact port = (port, port)"

definition port_range :: "u16 \<Rightarrow> u16 \<Rightarrow> port_match option" where
  "port_range start stop = (if start \<le> stop then Some (start, stop) else None)"

definition port_matches :: "port_match \<Rightarrow> u16 \<Rightarrow> bool" where
  "port_matches m port \<longleftrightarrow> fst m \<le> port \<and> port \<le> snd m"

record packet_filter =
  pf_expression :: string
  pf_source_address :: "address_match option"
  pf_destination_address :: "address_match option"
  pf_source_port :: "port_match option"
  pf_destination_port :: "port_match option"
  pf_protocol :: "protocol option"
  pf_direction :: "direction option"

definition filter_new :: "string \<Rightarrow> packet_filter" where
  "filter_new expression = \<lparr> pf_expression = expression, pf_source_address = None, pf_destination_address = None,
     pf_source_port = None, pf_destination_port = None, pf_protocol = None, pf_direction = None \<rparr>"

text \<open>\<open>rule.map_or(true, |rule| value.map_or(false, |value| rule.matches(value)))\<close>\<close>

definition rule_holds :: "('r \<Rightarrow> 'v \<Rightarrow> bool) \<Rightarrow> 'r option \<Rightarrow> 'v option \<Rightarrow> bool" where
  "rule_holds m rule v = (case rule of None \<Rightarrow> True | Some r \<Rightarrow> (case v of None \<Rightarrow> False | Some x \<Rightarrow> m r x))"

definition filter_matches ::
  "packet_filter \<Rightarrow> ip_addr option \<Rightarrow> ip_addr option \<Rightarrow> u16 option \<Rightarrow> u16 option \<Rightarrow> protocol option \<Rightarrow> direction option \<Rightarrow> bool" where
  "filter_matches f source_address destination_address source_port destination_port proto dir \<longleftrightarrow>
     rule_holds address_matches (pf_source_address f) source_address \<and>
     rule_holds address_matches (pf_destination_address f) destination_address \<and>
     rule_holds port_matches (pf_source_port f) source_port \<and>
     rule_holds port_matches (pf_destination_port f) destination_port \<and>
     (case pf_protocol f of None \<Rightarrow> True | Some rule \<Rightarrow> proto = Some rule) \<and>
     (case pf_direction f of None \<Rightarrow> True | Some rule \<Rightarrow> dir = Some rule)"

lemma filter_mask_v4_eq: "p \<le> 32 \<Longrightarrow> filter_mask_v4 p = mask_v4 p"
proof -
  assume p: "p \<le> 32"
  have u: "unat (ucast p :: u32) = unat p" by (simp add: unsigned_ucast_eq take_bit_nat_eq_self_iff) (rule less_trans [OF unsigned_less], simp)
  have "(ucast p :: u32) \<le> 32" using p by (simp add: word_le_nat_alt u)
  then have "unat (32 - (ucast p :: u32)) = 32 - unat p" by (simp add: unat_sub u word_le_nat_alt)
  moreover have "(ucast p :: u32) = 0 \<longleftrightarrow> p = 0" using u by (metis unat_eq_zero)
  ultimately show ?thesis
    by (simp add: filter_mask_v4_def mask_v4_def Let_def unat_sub_u8 [OF p])
qed

lemma filter_mask_v6_eq: "p \<le> 128 \<Longrightarrow> filter_mask_v6 p = mask_v6 p"
  by (auto simp: filter_mask_v6_def mask_v6_def Let_def unat_sub_u8 word_le_nat_alt unat_eq_zero usize_max_def)

lemma address_matches_network:
  assumes "match_network net p = Some m"
  shows "address_matches m a \<longleftrightarrow> same_prefix (unat p) net a"
  using assms
  by (cases net; cases a)
    (auto simp: match_network_def max_prefix_def filter_mask_v4_eq filter_mask_v6_eq mask_v4_matches mask_v6_matches
      simp del: same_prefix.simps(1,2) split: if_splits)

end
