(* ===== verification/Net_State.thy ===== *)
theory Net_State
  imports Ip_Prefix Core_Text
begin

text \<open>
  \<open>crates/network-state\<close>: what the engine knows about the host's network, namely interfaces,
  addresses, routes, neighbours, gateways and DNS, and the shared snapshot that holds them. The
  snapshot's lock is poisoned only by a panic of an updater passed to \<open>update\<close>; the model is of
  an unpoisoned lock. The \<open>Display\<close> implementations are left out.
\<close>

subsection \<open>Interfaces (\<open>interfaces.rs\<close>)\<close>

datatype interface_kind = If_Unknown | If_Ethernet | If_Wifi | If_Loopback | If_Tunnel | If_Virtual | If_Other

definition kind_is_physical :: "interface_kind \<Rightarrow> bool" where
  "kind_is_physical k \<longleftrightarrow> k \<in> {If_Ethernet, If_Wifi}"

definition kind_is_virtual :: "interface_kind \<Rightarrow> bool" where
  "kind_is_virtual k \<longleftrightarrow> k \<in> {If_Tunnel, If_Virtual, If_Loopback}"

datatype interface_state = Ifs_Unknown | Ifs_Down | Ifs_Up | Ifs_Dormant | Ifs_Testing

definition ifs_is_up :: "interface_state \<Rightarrow> bool" where
  "ifs_is_up s \<longleftrightarrow> s = Ifs_Up"

definition ifs_is_operational :: "interface_state \<Rightarrow> bool" where
  "ifs_is_operational s \<longleftrightarrow> s \<in> {Ifs_Up, Ifs_Dormant}"

definition ifs_is_down :: "interface_state \<Rightarrow> bool" where
  "ifs_is_down s \<longleftrightarrow> s = Ifs_Down"

record interface_info =
  ii_id :: u64
  ii_name :: string
  ii_description :: string
  ii_kind :: interface_kind
  ii_state :: interface_state
  ii_mtu :: u32
  ii_mac_address :: "byte list option"
  ii_if_index :: "u32 option"
  ii_luid :: "u64 option"

definition interface_new :: "u64 \<Rightarrow> string \<Rightarrow> interface_info" where
  "interface_new i name = \<lparr> ii_id = i, ii_name = name, ii_description = [], ii_kind = If_Unknown,
     ii_state = Ifs_Unknown, ii_mtu = 1500, ii_mac_address = None, ii_if_index = None, ii_luid = None \<rparr>"

definition interface_with_mtu :: "u32 \<Rightarrow> interface_info \<Rightarrow> interface_info option" where
  "interface_with_mtu mtu i = (if mtu = 0 then None else Some (i\<lparr> ii_mtu := mtu \<rparr>))"

definition interface_is_operational :: "interface_info \<Rightarrow> bool" where
  "interface_is_operational i = ifs_is_operational (ii_state i)"

subsection \<open>Routes (\<open>routes.rs\<close>)\<close>

datatype route_protocol = Rp_Unknown | Rp_Other | Rp_Local | Rp_Static | Rp_Dhcp | Rp_RouterAdvertisement | Rp_NetMgmt

datatype route_type = Rt_Unknown | Rt_Other | Rt_Unicast | Rt_Local | Rt_Broadcast | Rt_Multicast
  | Rt_Blackhole | Rt_Unreachable | Rt_Prohibit

definition rt_is_forwarding :: "route_type \<Rightarrow> bool" where
  "rt_is_forwarding t \<longleftrightarrow> t = Rt_Unicast"

definition rt_is_terminal :: "route_type \<Rightarrow> bool" where
  "rt_is_terminal t \<longleftrightarrow> t \<in> {Rt_Blackhole, Rt_Unreachable, Rt_Prohibit}"

record route_info =
  ri_id :: u64
  ri_destination :: ip_addr
  ri_prefix_length :: u8
  ri_gateway :: "ip_addr option"
  ri_interface_id :: u64
  ri_metric :: u32
  ri_protocol :: route_protocol
  ri_route_type :: route_type
  ri_enabled :: bool

definition route_new :: "u64 \<Rightarrow> ip_addr \<Rightarrow> u8 \<Rightarrow> u64 \<Rightarrow> route_info option" where
  "route_new i destination prefix_length interface_id =
     (if prefix_length > max_prefix destination then None
      else Some \<lparr> ri_id = i, ri_destination = destination, ri_prefix_length = prefix_length, ri_gateway = None,
        ri_interface_id = interface_id, ri_metric = 0, ri_protocol = Rp_Unknown, ri_route_type = Rt_Unicast,
        ri_enabled = True \<rparr>)"

definition route_with_gateway :: "ip_addr \<Rightarrow> route_info \<Rightarrow> route_info option" where
  "route_with_gateway gateway r =
     (if is_ipv4 gateway \<noteq> is_ipv4 (ri_destination r) then None else Some (r\<lparr> ri_gateway := Some gateway \<rparr>))"

definition route_is_default :: "route_info \<Rightarrow> bool" where
  "route_is_default r \<longleftrightarrow> ri_prefix_length r = 0"

definition route_is_usable :: "route_info \<Rightarrow> bool" where
  "route_is_usable r \<longleftrightarrow> ri_enabled r \<and> rt_is_forwarding (ri_route_type r)"

definition route_network_prefix :: "route_info \<Rightarrow> ip_addr" where
  "route_network_prefix r = (case ri_destination r of
      V4 ip \<Rightarrow> V4 (ip AND mask_v4 (ri_prefix_length r))
    | V6 ip \<Rightarrow> V6 (ip AND mask_v6 (ri_prefix_length r)))"

definition route_contains :: "route_info \<Rightarrow> ip_addr \<Rightarrow> bool" where
  "route_contains r ip =
     (if is_ipv4 (ri_destination r) \<noteq> is_ipv4 ip then False
      else case (ri_destination r, ip) of
        (V4 network, V4 candidate) \<Rightarrow>
          (network AND mask_v4 (ri_prefix_length r)) = (candidate AND mask_v4 (ri_prefix_length r))
      | (V6 network, V6 candidate) \<Rightarrow>
          (network AND mask_v6 (ri_prefix_length r)) = (candidate AND mask_v6 (ri_prefix_length r))
      | _ \<Rightarrow> False)"

lemma route_contains_iff:
  "ri_prefix_length r \<le> max_prefix (ri_destination r) \<Longrightarrow>
     route_contains r ip \<longleftrightarrow> same_prefix (unat (ri_prefix_length r)) (ri_destination r) ip"
  by (cases "ri_destination r"; cases ip)
    (simp_all add: route_contains_def max_prefix_def mask_v4_matches mask_v6_matches del: same_prefix.simps(1,2))

lemma route_network_prefix_eq: "route_network_prefix r = prefix_of (ri_prefix_length r) (ri_destination r)"
  by (cases "ri_destination r") (simp_all add: route_network_prefix_def)

subsection \<open>Addresses (\<open>addresses.rs\<close>)\<close>

text \<open>
  The classes of the standard library: \<open>Ipv4Addr::is_loopback\<close> (127/8), \<open>is_link_local\<close>
  (169.254/16), \<open>is_private\<close> (10/8, 172.16/12, 192.168/16), \<open>Ipv6Addr::is_loopback\<close> (::1) and the
  first segment of an IPv6 address.
\<close>

definition v4_is_loopback :: "u32 \<Rightarrow> bool" where
  "v4_is_loopback a \<longleftrightarrow> byte3 a = 127"

definition v4_is_link_local :: "u32 \<Rightarrow> bool" where
  "v4_is_link_local a \<longleftrightarrow> byte3 a = 169 \<and> byte2 a = 254"

definition v4_is_private :: "u32 \<Rightarrow> bool" where
  "v4_is_private a \<longleftrightarrow> byte3 a = 10 \<or> (byte3 a = 172 \<and> 16 \<le> byte2 a \<and> byte2 a \<le> 31) \<or> (byte3 a = 192 \<and> byte2 a = 168)"

definition v6_segment0 :: "u128 \<Rightarrow> u16" where
  "v6_segment0 a = ucast (drop_bit 112 a)"

definition is_unicast_link_local :: "u128 \<Rightarrow> bool" where
  "is_unicast_link_local a \<longleftrightarrow> v6_segment0 a AND 0xffc0 = 0xfe80"

definition is_unique_local :: "u128 \<Rightarrow> bool" where
  "is_unique_local a \<longleftrightarrow> v6_segment0 a AND 0xfe00 = 0xfc00"

datatype address_scope = Scope_Unknown | Scope_Host | Scope_Link | Scope_Site | Scope_Global

primrec scope_from_ip :: "ip_addr \<Rightarrow> address_scope" where
  "scope_from_ip (V4 a) =
     (if v4_is_loopback a then Scope_Host else if v4_is_link_local a then Scope_Link
      else if v4_is_private a then Scope_Site else Scope_Global)"
| "scope_from_ip (V6 a) =
     (if a = 1 then Scope_Host else if is_unicast_link_local a then Scope_Link
      else if is_unique_local a then Scope_Site else Scope_Global)"

datatype address_state = As_Unknown | As_Tentative | As_Preferred | As_Deprecated | As_Invalid

definition as_is_usable :: "address_state \<Rightarrow> bool" where
  "as_is_usable s \<longleftrightarrow> s \<in> {As_Preferred, As_Deprecated}"

record address_info =
  ai_interface_id :: u64
  ai_address :: ip_addr
  ai_prefix_length :: u8
  ai_scope :: address_scope
  ai_state :: address_state
  ai_dns_eligible :: bool
  ai_default_route_eligible :: bool

definition address_new :: "u64 \<Rightarrow> ip_addr \<Rightarrow> u8 \<Rightarrow> address_info option" where
  "address_new interface_id address prefix_length =
     (if prefix_length > max_prefix address then None
      else Some \<lparr> ai_interface_id = interface_id, ai_address = address, ai_prefix_length = prefix_length,
        ai_scope = scope_from_ip address, ai_state = As_Preferred, ai_dns_eligible = True,
        ai_default_route_eligible = True \<rparr>)"

definition address_network_prefix :: "address_info \<Rightarrow> ip_addr" where
  "address_network_prefix a = (case ai_address a of
      V4 ip \<Rightarrow> V4 (ip AND mask_v4 (ai_prefix_length a))
    | V6 ip \<Rightarrow> V6 (ip AND mask_v6 (ai_prefix_length a)))"

definition address_contains :: "address_info \<Rightarrow> ip_addr \<Rightarrow> bool" where
  "address_contains a ip = (case (ai_address a, ip) of
      (V4 network, V4 candidate) \<Rightarrow>
        (network AND mask_v4 (ai_prefix_length a)) = (candidate AND mask_v4 (ai_prefix_length a))
    | (V6 network, V6 candidate) \<Rightarrow>
        (network AND mask_v6 (ai_prefix_length a)) = (candidate AND mask_v6 (ai_prefix_length a))
    | _ \<Rightarrow> False)"

definition address_is_usable :: "address_info \<Rightarrow> bool" where
  "address_is_usable a = as_is_usable (ai_state a)"

lemma address_contains_iff:
  "ai_prefix_length a \<le> max_prefix (ai_address a) \<Longrightarrow>
     address_contains a ip \<longleftrightarrow> same_prefix (unat (ai_prefix_length a)) (ai_address a) ip"
  by (cases "ai_address a"; cases ip)
    (simp_all add: address_contains_def max_prefix_def mask_v4_matches mask_v6_matches del: same_prefix.simps(1,2))

subsection \<open>Neighbours (\<open>neighbors.rs\<close>)\<close>

datatype ns_neighbor_state = Ns_Unknown | Ns_Reachable | Ns_Stale | Ns_Delay | Ns_Probe | Ns_Failed
  | Ns_Incomplete | Ns_Permanent | Ns_Unreachable

definition ns_is_reachable :: "ns_neighbor_state \<Rightarrow> bool" where
  "ns_is_reachable s \<longleftrightarrow> s \<in> {Ns_Reachable, Ns_Permanent}"

definition ns_is_failed :: "ns_neighbor_state \<Rightarrow> bool" where
  "ns_is_failed s \<longleftrightarrow> s \<in> {Ns_Failed, Ns_Unreachable}"

definition ns_requires_resolution :: "ns_neighbor_state \<Rightarrow> bool" where
  "ns_requires_resolution s \<longleftrightarrow> s \<in> {Ns_Unknown, Ns_Incomplete, Ns_Probe}"

record neighbor_info =
  ni_interface_id :: u64
  ni_ip_address :: ip_addr
  ni_mac_address :: "byte list option"
  ni_state :: ns_neighbor_state
  ni_is_router :: bool

definition neighbor_new :: "u64 \<Rightarrow> ip_addr \<Rightarrow> neighbor_info" where
  "neighbor_new interface_id ip = \<lparr> ni_interface_id = interface_id, ni_ip_address = ip, ni_mac_address = None,
     ni_state = Ns_Unknown, ni_is_router = False \<rparr>"

definition neighbor_is_resolved :: "neighbor_info \<Rightarrow> bool" where
  "neighbor_is_resolved n \<longleftrightarrow> ni_mac_address n \<noteq> None \<and> ns_is_reachable (ni_state n)"

definition neighbor_is_usable :: "neighbor_info \<Rightarrow> bool" where
  "neighbor_is_usable n \<longleftrightarrow> ni_mac_address n \<noteq> None \<and> \<not> ns_is_failed (ni_state n)"

definition neighbor_requires_resolution :: "neighbor_info \<Rightarrow> bool" where
  "neighbor_requires_resolution n \<longleftrightarrow> ni_mac_address n = None \<or> ns_requires_resolution (ni_state n)"

definition neighbor_mark_reachable :: "byte list \<Rightarrow> neighbor_info \<Rightarrow> neighbor_info" where
  "neighbor_mark_reachable mac n = n\<lparr> ni_mac_address := Some mac, ni_state := Ns_Reachable \<rparr>"

definition neighbor_mark_failed :: "neighbor_info \<Rightarrow> neighbor_info" where
  "neighbor_mark_failed n = n\<lparr> ni_state := Ns_Failed \<rparr>"

lemma neighbor_resolved_usable: "neighbor_is_resolved n \<Longrightarrow> neighbor_is_usable n \<and> \<not> neighbor_requires_resolution n"
  by (auto simp: neighbor_is_resolved_def neighbor_is_usable_def neighbor_requires_resolution_def ns_is_reachable_def
      ns_is_failed_def ns_requires_resolution_def)

subsection \<open>Gateways (\<open>gateways.rs\<close>) and DNS (\<open>dns.rs\<close>, \<open>state.rs\<close>)\<close>

datatype gateway_type = Gt_Unknown | Gt_Default | Gt_Static | Gt_Dhcp | Gt_RouterAdvertisement | Gt_OnLink

definition gt_is_dynamic :: "gateway_type \<Rightarrow> bool" where
  "gt_is_dynamic t \<longleftrightarrow> t \<in> {Gt_Dhcp, Gt_RouterAdvertisement}"

record gateway_info =
  gi_interface_id :: u64
  gi_address :: ip_addr
  gi_gateway_type :: gateway_type
  gi_metric :: u32
  gi_reachable :: bool
  gi_enabled :: bool

definition gateway_info_new :: "u64 \<Rightarrow> ip_addr \<Rightarrow> gateway_info" where
  "gateway_info_new interface_id address = \<lparr> gi_interface_id = interface_id, gi_address = address,
     gi_gateway_type = Gt_Unknown, gi_metric = 0, gi_reachable = False, gi_enabled = True \<rparr>"

definition gateway_is_usable :: "gateway_info \<Rightarrow> bool" where
  "gateway_is_usable g \<longleftrightarrow> gi_enabled g \<and> gi_reachable g"

record dns_server =
  ds_address :: ip_addr
  ds_interface_id :: "u32 option"

record dns_config =
  dc_servers :: "dns_server list"
  dc_search_domains :: "string list"
  dc_updated_at :: nat

definition dns_add_server :: "nat \<Rightarrow> dns_server \<Rightarrow> dns_config \<Rightarrow> dns_config" where
  "dns_add_server now server c =
     (if server \<notin> set (dc_servers c) then c\<lparr> dc_servers := dc_servers c @ [server], dc_updated_at := now \<rparr> else c)"

definition dns_remove_server :: "nat \<Rightarrow> ip_addr \<Rightarrow> u32 option \<Rightarrow> dns_config \<Rightarrow> bool \<times> dns_config" where
  "dns_remove_server now address interface_id c =
     (let kept = filter (\<lambda>s. \<not> (ds_address s = address \<and> ds_interface_id s = interface_id)) (dc_servers c);
          removed = (length kept \<noteq> length (dc_servers c)); c1 = c\<lparr> dc_servers := kept \<rparr> in
      (removed, if removed then c1\<lparr> dc_updated_at := now \<rparr> else c1))"

definition dns_set_search_domains :: "nat \<Rightarrow> string list \<Rightarrow> dns_config \<Rightarrow> dns_config" where
  "dns_set_search_domains now domains c =
     c\<lparr> dc_search_domains := filter (\<lambda>d. trim d \<noteq> []) domains, dc_updated_at := now \<rparr>"

definition dns_add_search_domain :: "nat \<Rightarrow> string \<Rightarrow> dns_config \<Rightarrow> dns_config" where
  "dns_add_search_domain now domain c =
     (let d = trim domain in
      if d = [] then c
      else if d \<notin> set (dc_search_domains c) then c\<lparr> dc_search_domains := dc_search_domains c @ [d], dc_updated_at := now \<rparr>
      else c)"

definition dns_clear :: "nat \<Rightarrow> dns_config \<Rightarrow> dns_config" where
  "dns_clear now c = c\<lparr> dc_servers := [], dc_search_domains := [], dc_updated_at := now \<rparr>"

definition servers_for_interface :: "u32 \<Rightarrow> dns_config \<Rightarrow> ip_addr list" where
  "servers_for_interface i c =
     map ds_address (filter (\<lambda>s. ds_interface_id s = Some i \<or> ds_interface_id s = None) (dc_servers c))"

record dns_configuration =
  dn_servers :: "ip_addr list"
  dn_search_domains :: "string list"
  dn_enabled :: bool

definition dns_configuration_default :: dns_configuration where
  "dns_configuration_default = \<lparr> dn_servers = [], dn_search_domains = [], dn_enabled = True \<rparr>"

definition dns_is_configured :: "dns_configuration \<Rightarrow> bool" where
  "dns_is_configured d \<longleftrightarrow> dn_enabled d \<and> dn_servers d \<noteq> []"

definition dn_add_server :: "ip_addr \<Rightarrow> dns_configuration \<Rightarrow> dns_configuration" where
  "dn_add_server server d = (if server \<notin> set (dn_servers d) then d\<lparr> dn_servers := dn_servers d @ [server] \<rparr> else d)"

definition dn_remove_server :: "ip_addr \<Rightarrow> dns_configuration \<Rightarrow> bool \<times> dns_configuration" where
  "dn_remove_server server d =
     (if server \<in> set (dn_servers d) then (True, d\<lparr> dn_servers := remove1 server (dn_servers d) \<rparr>) else (False, d))"

definition dn_clear :: "dns_configuration \<Rightarrow> dns_configuration" where
  "dn_clear d = d\<lparr> dn_servers := [], dn_search_domains := [] \<rparr>"

lemma dn_distinct:
  "distinct (dn_servers d) \<Longrightarrow> distinct (dn_servers (dn_add_server s d)) \<and> distinct (dn_servers (snd (dn_remove_server s d)))"
  by (simp add: dn_add_server_def dn_remove_server_def)

lemma dn_remove_added: "s \<notin> set (dn_servers d) \<Longrightarrow> dn_remove_server s (dn_add_server s d) = (True, d)"
  by (simp add: dn_add_server_def dn_remove_server_def remove1_append)

lemma dns_add_distinct: "distinct (dc_servers c) \<Longrightarrow> distinct (dc_servers (dns_add_server now s c))"
  by (simp add: dns_add_server_def)

subsection \<open>The shared snapshot (\<open>state.rs\<close>)\<close>

record network_snapshot =
  sn_interfaces :: "interface_info list"
  sn_addresses :: "address_info list"
  sn_routes :: "route_info list"
  sn_neighbors :: "neighbor_info list"
  sn_gateways :: "gateway_info list"
  sn_dns :: dns_configuration
  sn_generation :: u64

definition snapshot_default :: network_snapshot where
  "snapshot_default = \<lparr> sn_interfaces = [], sn_addresses = [], sn_routes = [], sn_neighbors = [], sn_gateways = [],
     sn_dns = dns_configuration_default, sn_generation = 0 \<rparr>"

definition snapshot_is_empty :: "network_snapshot \<Rightarrow> bool" where
  "snapshot_is_empty s \<longleftrightarrow> sn_interfaces s = [] \<and> sn_addresses s = [] \<and> sn_routes s = [] \<and> sn_neighbors s = [] \<and>
     sn_gateways s = [] \<and> dn_servers (sn_dns s) = []"

definition bump :: "network_snapshot \<Rightarrow> network_snapshot" where
  "bump s = s\<lparr> sn_generation := saturating_add (sn_generation s) 1 \<rparr>"

definition snapshot_clear :: "network_snapshot \<Rightarrow> network_snapshot" where
  "snapshot_clear s = bump (s\<lparr> sn_interfaces := [], sn_addresses := [], sn_routes := [], sn_neighbors := [],
     sn_gateways := [], sn_dns := dn_clear (sn_dns s) \<rparr>)"

definition find_interface :: "u64 \<Rightarrow> network_snapshot \<Rightarrow> interface_info option" where
  "find_interface i s = find (\<lambda>x. ii_id x = i) (sn_interfaces s)"

definition find_route :: "u64 \<Rightarrow> network_snapshot \<Rightarrow> route_info option" where
  "find_route i s = find (\<lambda>x. ri_id x = i) (sn_routes s)"

definition find_address :: "ip_addr \<Rightarrow> network_snapshot \<Rightarrow> address_info option" where
  "find_address a s = find (\<lambda>x. ai_address x = a) (sn_addresses s)"

definition find_neighbor :: "ip_addr \<Rightarrow> network_snapshot \<Rightarrow> neighbor_info option" where
  "find_neighbor a s = find (\<lambda>x. ni_ip_address x = a) (sn_neighbors s)"

definition find_gateway :: "ip_addr \<Rightarrow> network_snapshot \<Rightarrow> gateway_info option" where
  "find_gateway a s = find (\<lambda>x. gi_address x = a) (sn_gateways s)"

text \<open>\<open>NetworkState\<close>: its state is the snapshot in the lock; a reader gets a copy of it.\<close>

definition ns_replace :: "network_snapshot \<Rightarrow> network_snapshot \<Rightarrow> network_snapshot" where
  "ns_replace snapshot current = snapshot\<lparr> sn_generation := saturating_add (sn_generation current) 1 \<rparr>"

definition ns_set_interfaces where "ns_set_interfaces xs s = bump (s\<lparr> sn_interfaces := xs \<rparr>)"
definition ns_set_addresses where "ns_set_addresses xs s = bump (s\<lparr> sn_addresses := xs \<rparr>)"
definition ns_set_routes where "ns_set_routes xs s = bump (s\<lparr> sn_routes := xs \<rparr>)"
definition ns_set_neighbors where "ns_set_neighbors xs s = bump (s\<lparr> sn_neighbors := xs \<rparr>)"
definition ns_set_gateways where "ns_set_gateways xs s = bump (s\<lparr> sn_gateways := xs \<rparr>)"
definition ns_set_dns where "ns_set_dns d s = bump (s\<lparr> sn_dns := d \<rparr>)"

definition ns_update :: "(network_snapshot \<Rightarrow> network_snapshot) \<Rightarrow> network_snapshot \<Rightarrow> network_snapshot" where
  "ns_update updater s = bump (updater s)"

datatype ns_op = Ns_Replace network_snapshot | Ns_Clear | Ns_Set_Interfaces "interface_info list"
  | Ns_Set_Addresses "address_info list" | Ns_Set_Routes "route_info list" | Ns_Set_Neighbors "neighbor_info list"
  | Ns_Set_Gateways "gateway_info list" | Ns_Set_Dns dns_configuration

primrec ns_exec :: "ns_op \<Rightarrow> network_snapshot \<Rightarrow> network_snapshot" where
  "ns_exec (Ns_Replace n) s = ns_replace n s"
| "ns_exec Ns_Clear s = snapshot_clear s"
| "ns_exec (Ns_Set_Interfaces xs) s = ns_set_interfaces xs s"
| "ns_exec (Ns_Set_Addresses xs) s = ns_set_addresses xs s"
| "ns_exec (Ns_Set_Routes xs) s = ns_set_routes xs s"
| "ns_exec (Ns_Set_Neighbors xs) s = ns_set_neighbors xs s"
| "ns_exec (Ns_Set_Gateways xs) s = ns_set_gateways xs s"
| "ns_exec (Ns_Set_Dns d) s = ns_set_dns d s"

lemma ns_exec_generation: "sn_generation (ns_exec op s) = saturating_add (sn_generation s) 1"
  by (cases op) (simp_all add: ns_replace_def snapshot_clear_def bump_def ns_set_interfaces_def ns_set_addresses_def
      ns_set_routes_def ns_set_neighbors_def ns_set_gateways_def ns_set_dns_def)

text \<open>
  The generation of the snapshot counts the updates (and saturates): two readers that see the
  same unsaturated generation saw the same snapshot.
\<close>

lemma generation_counts_updates:
  "unat (sn_generation (fold ns_exec ops s)) = min (unat (sn_generation s) + length ops) (2 ^ 64 - 1)"
proof (induction ops arbitrary: s)
  case Nil
  have "unat (sn_generation s) < 2 ^ 64" using unsigned_less [of "sn_generation s"] by simp
  then show ?case by simp
next
  case (Cons op ops)
  then show ?case by (simp add: ns_exec_generation unat_saturating_add)
qed

lemma same_generation_same_snapshot:
  assumes "sn_generation (fold ns_exec (take m ops) s) = sn_generation (fold ns_exec (take n ops) s)"
    and "unat (sn_generation s) + length ops < 2 ^ 64 - 1"
  shows "fold ns_exec (take m ops) s = fold ns_exec (take n ops) s"
proof -
  have "min m (length ops) = min n (length ops)"
    using arg_cong [OF assms(1), of unat] assms(2) by (simp add: generation_counts_updates min_def split: if_splits)
  then have "take m ops = take n ops" by (metis take_take take_all order_refl)
  then show ?thesis by simp
qed

end
