(* ===== verification/Gateway_Routing.thy ===== *)
theory Gateway_Routing
  imports Net_State
begin

text \<open>
  The gateway's two tables of destinations: \<open>crates/gateway-capability/src/routing.rs\<close> (longest
  prefix, then lowest metric) and \<open>forwarding.rs\<close> (longest prefix), with the synchronization of
  the forwarding table from the observed network state and the checks of the final decision.
\<close>

subsection \<open>Routing (\<open>routing.rs\<close>)\<close>

record routing_entry =
  re_destination :: ip_addr
  re_prefix_len :: u8
  re_next_hop :: "ip_addr option"
  re_interface_id :: u32
  re_metric :: u32
  re_enabled :: bool

definition routing_entry_new :: "ip_addr \<Rightarrow> u8 \<Rightarrow> ip_addr option \<Rightarrow> u32 \<Rightarrow> u32 \<Rightarrow> routing_entry option" where
  "routing_entry_new destination prefix_len next_hop interface_id metric =
     (if prefix_len > max_prefix destination then None
      else Some \<lparr> re_destination = destination, re_prefix_len = prefix_len, re_next_hop = next_hop,
        re_interface_id = interface_id, re_metric = metric, re_enabled = True \<rparr>)"

definition ipv4_matches :: "u32 \<Rightarrow> u32 \<Rightarrow> u8 \<Rightarrow> bool" where
  "ipv4_matches network address prefix_len =
     (if prefix_len = 0 then True
      else let mask = push_bit (unat (32 - prefix_len) mod 32) (- 1) in (network AND mask) = (address AND mask))"

definition ipv6_matches :: "u128 \<Rightarrow> u128 \<Rightarrow> u8 \<Rightarrow> bool" where
  "ipv6_matches network address prefix_len =
     (if prefix_len = 0 then True
      else let mask = push_bit (unat (128 - prefix_len) mod 128) (- 1) in (network AND mask) = (address AND mask))"

definition routing_matches :: "routing_entry \<Rightarrow> ip_addr \<Rightarrow> bool" where
  "routing_matches e address = (case (re_destination e, address) of
      (V4 network, V4 addr) \<Rightarrow> ipv4_matches network addr (re_prefix_len e)
    | (V6 network, V6 addr) \<Rightarrow> ipv6_matches network addr (re_prefix_len e)
    | _ \<Rightarrow> False)"

type_synonym routing_table = "routing_entry list"

definition routing_add :: "routing_entry \<Rightarrow> routing_table \<Rightarrow> routing_table" where
  "routing_add e t = t @ [e]"

definition routing_remove :: "ip_addr \<Rightarrow> u8 \<Rightarrow> u32 \<Rightarrow> routing_table \<Rightarrow> bool \<times> routing_table" where
  "routing_remove destination prefix_len interface_id t =
     (let kept = filter (\<lambda>e. \<not> (re_destination e = destination \<and> re_prefix_len e = prefix_len \<and>
                              re_interface_id e = interface_id)) t in
      (length kept \<noteq> length t, kept))"

definition route_order :: "routing_entry \<Rightarrow> routing_entry \<Rightarrow> ordering" where
  "route_order a b = then_cmp (cmp_by re_prefix_len a b) (cmp_by re_metric b a)"

definition routing_best :: "ip_addr \<Rightarrow> routing_table \<Rightarrow> routing_entry option" where
  "routing_best destination t = max_by route_order (filter (\<lambda>e. re_enabled e \<and> routing_matches e destination) t)"

text \<open>The loop of \<open>set_enabled\<close> stops at the first entry of the destination.\<close>

fun routing_set_enabled :: "ip_addr \<Rightarrow> u8 \<Rightarrow> u32 \<Rightarrow> bool \<Rightarrow> routing_table \<Rightarrow> bool \<times> routing_table" where
  "routing_set_enabled d p i b [] = (False, [])"
| "routing_set_enabled d p i b (e # t) =
     (if re_destination e = d \<and> re_prefix_len e = p \<and> re_interface_id e = i then (True, e\<lparr> re_enabled := b \<rparr> # t)
      else case routing_set_enabled d p i b t of (r, t') \<Rightarrow> (r, e # t'))"

lemma routing_matches_iff:
  "re_prefix_len e \<le> max_prefix (re_destination e) \<Longrightarrow>
     routing_matches e a \<longleftrightarrow> same_prefix (unat (re_prefix_len e)) (re_destination e) a"
proof -
  have m: "ipv4_matches n x p \<longleftrightarrow> (n AND mask_v4 p) = (x AND mask_v4 p)"
    "ipv6_matches m y p \<longleftrightarrow> (m AND mask_v6 p) = (y AND mask_v6 p)" for n x m y p
    by (simp_all add: ipv4_matches_def ipv6_matches_def mask_v4_def mask_v6_def Let_def)
  assume "re_prefix_len e \<le> max_prefix (re_destination e)"
  then show ?thesis
    by (cases "re_destination e"; cases a)
      (simp_all add: routing_matches_def m max_prefix_def mask_v4_matches mask_v6_matches del: same_prefix.simps(1,2))
qed

interpretation route_cmp: comparison route_order
  unfolding route_order_def
  by (intro comparison_then comparison_cmp_by comparison_reverse [OF comparison_cmp_by, of re_metric])

lemma route_order_iff:
  "route_order y r \<noteq> Greater \<longleftrightarrow>
     re_prefix_len y < re_prefix_len r \<or> re_prefix_len y = re_prefix_len r \<and> re_metric r \<le> re_metric y"
  by (auto simp: route_order_def cmp_by_def)

definition valid_routes :: "routing_table \<Rightarrow> bool" where
  "valid_routes t \<longleftrightarrow> (\<forall>e \<in> set t. re_prefix_len e \<le> max_prefix (re_destination e))"

lemma valid_routes_ops:
  "valid_routes t \<Longrightarrow> valid_routes (snd (routing_remove d p i t))"
  "valid_routes t \<Longrightarrow> valid_routes (snd (routing_set_enabled d p i b t))"
  "valid_routes t \<Longrightarrow> routing_entry_new d p nh i m = Some e \<Longrightarrow> valid_routes (routing_add e t)"
proof -
  show "valid_routes t \<Longrightarrow> valid_routes (snd (routing_set_enabled d p i b t))"
    by (induction d p i b t rule: routing_set_enabled.induct) (auto simp: valid_routes_def split: prod.splits)
qed (auto simp: valid_routes_def routing_remove_def Let_def routing_add_def routing_entry_new_def split: if_splits)

text \<open>
  C34: The routing table routes by longest prefix. \<open>best\<close> finds a route exactly if some enabled
  route's first \<open>prefix_len\<close> bits agree with the destination; the route it returns is such a
  one, no other has a longer prefix, and none of the same length has a lower metric.
\<close>

theorem routing_longest_prefix:
  assumes "valid_routes t"
    and "cand = {e \<in> set t. re_enabled e \<and> same_prefix (unat (re_prefix_len e)) (re_destination e) a}"
  shows "case routing_best a t of
      None \<Rightarrow> cand = {}
    | Some r \<Rightarrow> r \<in> cand \<and> (\<forall>y \<in> cand. re_prefix_len y < re_prefix_len r \<or>
        re_prefix_len y = re_prefix_len r \<and> re_metric r \<le> re_metric y)"
proof -
  let ?f = "filter (\<lambda>e. re_enabled e \<and> routing_matches e a) t"
  have f: "set ?f = cand"
    using assms by (auto simp: valid_routes_def routing_matches_iff)
  show ?thesis
  proof (cases "routing_best a t")
    case None
    then have "?f = []" unfolding routing_best_def by (simp only: max_by_None_iff)
    then show ?thesis using f None by auto
  next
    case (Some r)
    then show ?thesis
      using route_cmp.max_by_spec [of ?f r] f by (auto simp: routing_best_def route_order_iff)
  qed
qed

definition demo_routes :: routing_table where
  "demo_routes = [\<lparr> re_destination = V4 0, re_prefix_len = 0, re_next_hop = None, re_interface_id = 1, re_metric = 5, re_enabled = True \<rparr>,
     \<lparr> re_destination = V4 0x0A000000, re_prefix_len = 8, re_next_hop = None, re_interface_id = 2, re_metric = 9, re_enabled = True \<rparr>,
     \<lparr> re_destination = V4 0x0A000000, re_prefix_len = 8, re_next_hop = None, re_interface_id = 3, re_metric = 7, re_enabled = True \<rparr>]"

lemma demo_routes_best: "map_option re_interface_id (routing_best (V4 0x0A010203) demo_routes) = Some 3"
  by (simp add: routing_best_def demo_routes_def routing_matches_def ipv4_matches_def route_order_def cmp_by_def Let_def
      mask_eq_exp_minus_1)

theorem routing_longest_prefix_witness:
  "valid_routes demo_routes \<and> (\<exists>r. routing_best (V4 0x0A010203) demo_routes = Some r \<and> re_interface_id r = 3 \<and>
     (\<forall>y \<in> set demo_routes. re_interface_id y = 2 \<and> same_prefix (unat (re_prefix_len y)) (re_destination y) (V4 0x0A010203) \<longrightarrow>
        re_metric r \<le> re_metric y \<or> re_prefix_len y < re_prefix_len r))"
proof -
  have v: "valid_routes demo_routes" by (simp add: valid_routes_def demo_routes_def max_prefix_def)
  obtain r where r: "routing_best (V4 0x0A010203) demo_routes = Some r" "re_interface_id r = 3"
    using demo_routes_best by auto
  have e: "\<forall>y \<in> set demo_routes. re_enabled y" by (simp add: demo_routes_def)
  show ?thesis
    using routing_longest_prefix [OF v refl, of "V4 0x0A010203"] v r e by auto
qed

end
