(* ===== verification/Gateway_Forwarding.thy ===== *)
theory Gateway_Forwarding
  imports Net_State
begin

text \<open>
  \<open>crates/gateway-capability/src/forwarding.rs\<close>: the forwarding table, its synchronization
  from the observed network state, and the forwarding decision with its checks. The network
  state is the snapshot that a read of \<open>NetworkState\<close> returns.
\<close>

record forwarding_entry =
  fe_destination :: ip_addr
  fe_prefix_len :: u8
  fe_interface_id :: u32
  fe_next_hop :: "ip_addr option"
  fe_enabled :: bool

definition forwarding_entry_new :: "ip_addr \<Rightarrow> u8 \<Rightarrow> u32 \<Rightarrow> ip_addr option \<Rightarrow> forwarding_entry option" where
  "forwarding_entry_new destination prefix_len interface_id next_hop =
     (if prefix_len > max_prefix destination then None
      else Some \<lparr> fe_destination = destination, fe_prefix_len = prefix_len, fe_interface_id = interface_id,
        fe_next_hop = next_hop, fe_enabled = True \<rparr>)"

definition fe_with_enabled :: "bool \<Rightarrow> forwarding_entry \<Rightarrow> forwarding_entry" where
  "fe_with_enabled b e = e\<lparr> fe_enabled := b \<rparr>"

definition fe_matches :: "forwarding_entry \<Rightarrow> ip_addr \<Rightarrow> bool" where
  "fe_matches e address = (case (fe_destination e, address) of
      (V4 network, V4 a) \<Rightarrow>
        if fe_prefix_len e = 0 then True
        else let mask = push_bit (unat (32 - fe_prefix_len e) mod 32) (- 1) in (network AND mask) = (a AND mask)
    | (V6 network, V6 a) \<Rightarrow>
        if fe_prefix_len e = 0 then True
        else let mask = push_bit (unat (128 - fe_prefix_len e) mod 128) (- 1) in (network AND mask) = (a AND mask)
    | _ \<Rightarrow> False)"

datatype forwarding_error = Fwd_InvalidDestination | Fwd_NoRoute | Fwd_InterfaceUnavailable | Fwd_NeighborUnresolved

record forwarding_decision =
  fd_interface_id :: u32
  fd_next_hop :: ip_addr

type_synonym forwarding_table = "forwarding_entry list"

definition forwarding_add :: "forwarding_entry \<Rightarrow> forwarding_table \<Rightarrow> forwarding_table" where
  "forwarding_add e t = t @ [e]"

definition forwarding_remove :: "ip_addr \<Rightarrow> u8 \<Rightarrow> u32 \<Rightarrow> forwarding_table \<Rightarrow> bool \<times> forwarding_table" where
  "forwarding_remove destination prefix_len interface_id t =
     (let kept = filter (\<lambda>e. \<not> (fe_destination e = destination \<and> fe_prefix_len e = prefix_len \<and>
                              fe_interface_id e = interface_id)) t in
      (length kept \<noteq> length t, kept))"

fun forwarding_set_enabled :: "ip_addr \<Rightarrow> u8 \<Rightarrow> u32 \<Rightarrow> bool \<Rightarrow> forwarding_table \<Rightarrow> bool \<times> forwarding_table" where
  "forwarding_set_enabled d p i b [] = (False, [])"
| "forwarding_set_enabled d p i b (e # t) =
     (if fe_destination e = d \<and> fe_prefix_len e = p \<and> fe_interface_id e = i then (True, e\<lparr> fe_enabled := b \<rparr> # t)
      else case forwarding_set_enabled d p i b t of (r, t') \<Rightarrow> (r, e # t'))"

definition u32_try_from_u64 :: "u64 \<Rightarrow> u32 option" where
  "u32_try_from_u64 v = (if unat v < 2 ^ 32 then Some (ucast v) else None)"

definition entry_from_route :: "route_info \<Rightarrow> u32 \<Rightarrow> forwarding_entry option" where
  "entry_from_route r interface_id =
     map_option (fe_with_enabled (ri_enabled r))
       (forwarding_entry_new (ri_destination r) (ri_prefix_length r) interface_id (ri_gateway r))"

text \<open>One pass of the synchronization loop: the entry a route contributes, if any.\<close>

definition sync_route :: "network_snapshot \<Rightarrow> route_info \<Rightarrow> forwarding_entry option" where
  "sync_route s r =
     (if \<not> route_is_usable r then None
      else case u32_try_from_u64 (ri_interface_id r) of
        None \<Rightarrow> None
      | Some i \<Rightarrow>
          if i = 0 then None
          else if \<not> (case find_interface (ri_interface_id r) s of None \<Rightarrow> False | Some x \<Rightarrow> interface_is_operational x)
          then None
          else entry_from_route r i)"

definition sync_from_network_state :: "network_snapshot \<Rightarrow> forwarding_table \<Rightarrow> usize \<times> forwarding_table" where
  "sync_from_network_state s t = (let entries = List.map_filter (sync_route s) (sn_routes s) in (length entries, entries))"

definition forwarding_lookup :: "ip_addr \<Rightarrow> forwarding_table \<Rightarrow> forwarding_entry option" where
  "forwarding_lookup destination t =
     max_by (cmp_by fe_prefix_len) (filter (\<lambda>e. fe_enabled e \<and> fe_matches e destination) t)"

definition forwarding_resolve :: "ip_addr \<Rightarrow> forwarding_table \<Rightarrow> forwarding_error + forwarding_decision" where
  "forwarding_resolve destination t = (case forwarding_lookup destination t of
      None \<Rightarrow> Inl Fwd_NoRoute
    | Some e \<Rightarrow> Inr \<lparr> fd_interface_id = fe_interface_id e,
        fd_next_hop = (case fe_next_hop e of Some h \<Rightarrow> h | None \<Rightarrow> destination) \<rparr>)"

definition resolve_with_network_state ::
  "ip_addr \<Rightarrow> network_snapshot \<Rightarrow> forwarding_table \<Rightarrow> forwarding_error + forwarding_decision" where
  "resolve_with_network_state destination s t = (case forwarding_resolve destination t of
      Inl e \<Rightarrow> Inl e
    | Inr decision \<Rightarrow> (case find_interface (ucast (fd_interface_id decision)) s of
        None \<Rightarrow> Inl Fwd_InterfaceUnavailable
      | Some i \<Rightarrow>
          if \<not> interface_is_operational i then Inl Fwd_InterfaceUnavailable
          else (case find_neighbor (fd_next_hop decision) s of
            None \<Rightarrow> Inl Fwd_NeighborUnresolved
          | Some n \<Rightarrow> if \<not> neighbor_is_usable n then Inl Fwd_NeighborUnresolved else Inr decision)))"

subsection \<open>Correctness\<close>

lemma fe_matches_iff:
  "fe_prefix_len e \<le> max_prefix (fe_destination e) \<Longrightarrow>
     fe_matches e a \<longleftrightarrow> same_prefix (unat (fe_prefix_len e)) (fe_destination e) a"
proof -
  assume p: "fe_prefix_len e \<le> max_prefix (fe_destination e)"
  show ?thesis
  proof (cases "fe_prefix_len e = 0")
    case True
    then show ?thesis by (cases "fe_destination e"; cases a) (simp_all add: fe_matches_def)
  next
    case False
    then show ?thesis
      using p mask_v4_matches [of "fe_prefix_len e"] mask_v6_matches [of "fe_prefix_len e"]
      by (cases "fe_destination e"; cases a)
        (simp_all add: fe_matches_def max_prefix_def mask_v4_def mask_v6_def Let_def del: same_prefix.simps(1,2))
  qed
qed

interpretation fwd_cmp: comparison "cmp_by fe_prefix_len"
  by (rule comparison_cmp_by)

lemma cmp_by_not_Greater: "cmp_by f a b \<noteq> Greater \<longleftrightarrow> f a \<le> f b"
  by (auto simp: cmp_by_def)

lemma forwarding_lookup_Some:
  assumes "forwarding_lookup a t = Some e"
  shows "e \<in> set t \<and> fe_enabled e \<and> fe_matches e a \<and>
    (\<forall>y \<in> set t. fe_enabled y \<and> fe_matches y a \<longrightarrow> fe_prefix_len y \<le> fe_prefix_len e)"
  using fwd_cmp.max_by_spec [OF assms [unfolded forwarding_lookup_def]]
  by (auto simp: cmp_by_not_Greater)

lemma forwarding_lookup_None: "forwarding_lookup a t = None \<longleftrightarrow> (\<forall>e \<in> set t. fe_enabled e \<longrightarrow> \<not> fe_matches e a)"
  by (auto simp: forwarding_lookup_def filter_empty_conv simp del: max_by.simps)

lemma sync_route_Some:
  assumes "sync_route s r = Some e"
  shows "route_is_usable r \<and> fe_destination e = ri_destination r \<and> fe_prefix_len e = ri_prefix_length r \<and>
    fe_prefix_len e \<le> max_prefix (fe_destination e) \<and> fe_next_hop e = ri_gateway r \<and> fe_enabled e \<and>
    ucast (fe_interface_id e) = ri_interface_id r \<and> fe_interface_id e \<noteq> 0 \<and>
    (\<exists>i. find_interface (ri_interface_id r) s = Some i \<and> interface_is_operational i)"
proof -
  have uc: "ucast (ucast v :: u32) = v" if "unat v < 2 ^ 32" for v :: u64
    using that by (simp add: word_unat_eq_iff unsigned_ucast_eq unsigned_take_bit_eq take_bit_nat_eq_self_iff)
  show ?thesis
    using assms uc
    by (auto simp: sync_route_def u32_try_from_u64_def entry_from_route_def forwarding_entry_new_def fe_with_enabled_def
        route_is_usable_def split: if_splits option.splits)
qed

lemma sync_entries:
  "e \<in> set (snd (sync_from_network_state s t)) \<longleftrightarrow> (\<exists>r \<in> set (sn_routes s). sync_route s r = Some e)"
  by (force simp: sync_from_network_state_def Let_def List.map_filter_def)

text \<open>
  A synchronized gateway forwards only where the host would. If the forwarding table was
  synchronized from a snapshot of the network state and a destination then resolves against
  that snapshot, the decision comes from an enabled unicast route of the snapshot that contains
  the destination; no usable route over an operational interface contains it with a longer
  prefix; the egress interface exists and is operational; and the next hop is a neighbour with
  a known link-layer address that has not failed.
\<close>

lemma forwarding_decision_sound:
  assumes "t' = snd (sync_from_network_state s t)" and "resolve_with_network_state a s t' = Inr d"
  shows "\<exists>r \<in> set (sn_routes s). route_is_usable r \<and> route_contains r a \<and>
      ri_interface_id r = ucast (fd_interface_id d) \<and>
      fd_next_hop d = (case ri_gateway r of Some g \<Rightarrow> g | None \<Rightarrow> a) \<and>
      (\<forall>q \<in> set (sn_routes s). sync_route s q \<noteq> None \<and> route_contains q a \<longrightarrow>
         ri_prefix_length q \<le> ri_prefix_length r) \<and>
      (\<exists>i. find_interface (ri_interface_id r) s = Some i \<and> interface_is_operational i) \<and>
      (\<exists>n. find_neighbor (fd_next_hop d) s = Some n \<and> neighbor_is_usable n)"
proof -
  have res: "forwarding_resolve a t' = Inr d" and nb: "\<exists>n. find_neighbor (fd_next_hop d) s = Some n \<and> neighbor_is_usable n"
    using assms(2) by (auto simp: resolve_with_network_state_def split: sum.splits option.splits if_splits)
  obtain e where e: "forwarding_lookup a t' = Some e" "fd_interface_id d = fe_interface_id e"
      "fd_next_hop d = (case fe_next_hop e of Some h \<Rightarrow> h | None \<Rightarrow> a)"
    using res by (auto simp: forwarding_resolve_def split: option.splits)
  note best = forwarding_lookup_Some [OF e(1)]
  obtain r where r: "r \<in> set (sn_routes s)" "sync_route s r = Some e"
    using best by (auto simp: assms(1) sync_entries)
  note sr = sync_route_Some [OF r(2)]
  have cont: "route_contains q a \<longleftrightarrow> fe_matches f a" if "sync_route s q = Some f" for q f
  proof -
    note f = sync_route_Some [OF that]
    then have "ri_prefix_length q \<le> max_prefix (ri_destination q)" by auto
    then show ?thesis using f by (auto simp: route_contains_iff fe_matches_iff)
  qed
  have "ri_prefix_length q \<le> ri_prefix_length r"
    if "q \<in> set (sn_routes s)" "sync_route s q = Some f" "route_contains q a" for q f
    using best that sync_route_Some [OF that(2)] sr cont [OF that(2)] by (auto simp: assms(1) sync_entries)
  then show ?thesis
    using r sr best e nb cont [OF r(2)] by (intro bexI [of _ r]) auto
qed

definition demo_snapshot :: network_snapshot where
  "demo_snapshot = snapshot_default\<lparr>
     sn_interfaces := [(interface_new 5 ''eth0'')\<lparr> ii_state := Ifs_Up \<rparr>],
     sn_routes := [\<lparr> ri_id = 1, ri_destination = V4 0x0A000000, ri_prefix_length = 8, ri_gateway = Some (V4 7),
       ri_interface_id = 5, ri_metric = 0, ri_protocol = Rp_Static, ri_route_type = Rt_Unicast, ri_enabled = True \<rparr>],
     sn_neighbors := [(neighbor_new 5 (V4 7))\<lparr> ni_mac_address := Some [2, 0, 0, 0, 0, 1], ni_state := Ns_Reachable \<rparr>] \<rparr>"

lemma demo_snapshot_sync:
  "snd (sync_from_network_state demo_snapshot []) = [\<lparr> fe_destination = V4 0x0A000000, fe_prefix_len = 8,
     fe_interface_id = 5, fe_next_hop = Some (V4 7), fe_enabled = True \<rparr>]"
  by (simp add: sync_from_network_state_def demo_snapshot_def snapshot_default_def sync_route_def route_is_usable_def
      rt_is_forwarding_def u32_try_from_u64_def find_interface_def interface_new_def interface_is_operational_def
      ifs_is_operational_def entry_from_route_def forwarding_entry_new_def fe_with_enabled_def max_prefix_def
      List.map_filter_def Let_def)

lemma demo_snapshot_resolve:
  "resolve_with_network_state (V4 0x0A010203) demo_snapshot (snd (sync_from_network_state demo_snapshot [])) =
     Inr \<lparr> fd_interface_id = 5, fd_next_hop = V4 7 \<rparr>"
  unfolding demo_snapshot_sync
  by (simp add: resolve_with_network_state_def forwarding_resolve_def forwarding_lookup_def fe_matches_def
      Let_def mask_eq_exp_minus_1 find_interface_def find_neighbor_def demo_snapshot_def snapshot_default_def
      interface_new_def interface_is_operational_def ifs_is_operational_def neighbor_new_def neighbor_is_usable_def
      ns_is_failed_def)

theorem forwarding_decision_sound_witness:
  "\<exists>r \<in> set (sn_routes demo_snapshot). route_contains r (V4 0x0A010203) \<and> ri_interface_id r = 5"
  using forwarding_decision_sound [OF refl demo_snapshot_resolve] by auto

text \<open>
  Among entries of the same prefix length the forwarding lookup returns the last one
  configured, not the first: an entry appended to the table takes over from every earlier
  entry of its length.
\<close>

lemma forwarding_tie_last:
  assumes "fe_enabled e" and "fe_matches e a" and "\<forall>y \<in> set t. fe_enabled y \<and> fe_matches y a \<longrightarrow> fe_prefix_len y \<le> fe_prefix_len e"
  shows "forwarding_lookup a (forwarding_add e t) = Some e"
proof -
  have "fold (\<lambda>b a. if cmp_by fe_prefix_len a b = Greater then a else b) (xs @ [e]) x = e"
    if "\<And>y. y \<in> set (x # xs) \<Longrightarrow> fe_prefix_len y \<le> fe_prefix_len e" for x xs
  proof -
    have "fold (\<lambda>b a. if cmp_by fe_prefix_len a b = Greater then a else b) xs x \<in> set (x # xs)"
      by (induction xs arbitrary: x) (auto split: if_splits)
    then show ?thesis using that by (force simp: cmp_by_def not_less)
  qed
  note last_max = this
  define ys where "ys = filter (\<lambda>e. fe_enabled e \<and> fe_matches e a) t"
  have ys: "fe_prefix_len y \<le> fe_prefix_len e" if "y \<in> set ys" for y
    using assms(3) that by (simp add: ys_def)
  have "forwarding_lookup a (forwarding_add e t) = max_by (cmp_by fe_prefix_len) (ys @ [e])"
    by (simp add: forwarding_lookup_def forwarding_add_def ys_def assms(1,2))
  also have "\<dots> = Some e"
    using ys last_max by (cases ys) (auto simp del: fold_append)
  finally show ?thesis .
qed

theorem forwarding_tie_last_witness:
  "\<exists>e f. fe_interface_id e \<noteq> fe_interface_id f \<and> fe_prefix_len e = fe_prefix_len f \<and>
     forwarding_lookup (V4 1) (forwarding_add e [f]) = Some e"
proof -
  define e where "e = \<lparr> fe_destination = V4 0, fe_prefix_len = 0, fe_interface_id = 2, fe_next_hop = None, fe_enabled = True \<rparr>"
  have "forwarding_lookup (V4 1) (forwarding_add e [e\<lparr> fe_interface_id := 1 \<rparr>]) = Some e"
    by (rule forwarding_tie_last) (simp_all add: e_def fe_matches_def)
  then show ?thesis
    by (intro exI [of _ e] exI [of _ "e\<lparr> fe_interface_id := 1 \<rparr>"]) (simp add: e_def)
qed

end
