(* ===== verification/Gateway.thy ===== *)
theory Gateway
  imports Gateway_Nat Gateway_Conn Gateway_Neighbor Gateway_Routing Gateway_Forwarding Core_Engine Correlation
begin

text \<open>
  The gateway capability as a whole: \<open>crates/gateway-capability/src/state.rs\<close> (its lifecycle),
  \<open>gateway_context.rs\<close>, \<open>policy.rs\<close> (the policy controller), \<open>ingress.rs\<close>, \<open>egress.rs\<close> and
  \<open>lib.rs\<close> (the runtime tables and the capability that starts, degrades, fails and stops).
\<close>

subsection \<open>Lifecycle and context (\<open>state.rs\<close>, \<open>gateway_context.rs\<close>)\<close>

datatype gateway_state = Gw_Idle | Gw_Active | Gw_Degraded | Gw_Error

definition gw_can_transition_to :: "gateway_state \<Rightarrow> gateway_state \<Rightarrow> bool" where
  "gw_can_transition_to s next \<longleftrightarrow> (s, next) \<in>
     {(Gw_Idle, Gw_Active), (Gw_Idle, Gw_Error), (Gw_Active, Gw_Idle), (Gw_Active, Gw_Degraded), (Gw_Active, Gw_Error),
      (Gw_Degraded, Gw_Active), (Gw_Degraded, Gw_Idle), (Gw_Degraded, Gw_Error), (Gw_Error, Gw_Idle)}"

datatype gateway_state_error = Gw_InvalidTransition gateway_state gateway_state

definition gw_transition :: "gateway_state \<Rightarrow> gateway_state \<Rightarrow> (gateway_state_error + unit) \<times> gateway_state" where
  "gw_transition next s =
     (if s = next then (Inr (), s)
      else if \<not> gw_can_transition_to s next then (Inl (Gw_InvalidTransition s next), s)
      else (Inr (), next))"

record gateway_limits =
  gl_max_connections :: usize
  gl_max_nat_entries :: usize
  gl_max_neighbors :: usize
  gl_max_routes :: usize
  gl_max_forwarding_entries :: usize

definition gateway_limits_default :: gateway_limits where
  "gateway_limits_default = \<lparr> gl_max_connections = 65536, gl_max_nat_entries = 65536, gl_max_neighbors = 65536,
     gl_max_routes = 16384, gl_max_forwarding_entries = 16384 \<rparr>"

record gateway_capabilities =
  gc_forwarding :: bool
  gc_routing :: bool
  gc_nat :: bool
  gc_neighbor_resolution :: bool

definition capabilities_none :: gateway_capabilities where
  "capabilities_none = \<lparr> gc_forwarding = False, gc_routing = False, gc_nat = False, gc_neighbor_resolution = False \<rparr>"

definition capabilities_all :: gateway_capabilities where
  "capabilities_all = \<lparr> gc_forwarding = True, gc_routing = True, gc_nat = True, gc_neighbor_resolution = True \<rparr>"

definition forwarding_ready :: "gateway_capabilities \<Rightarrow> bool" where
  "forwarding_ready c \<longleftrightarrow> gc_forwarding c \<and> gc_routing c \<and> gc_neighbor_resolution c"

definition nat_ready :: "gateway_capabilities \<Rightarrow> bool" where
  "nat_ready c \<longleftrightarrow> forwarding_ready c \<and> gc_nat c"

record gateway_context =
  gx_policy :: gateway_policy
  gx_limits :: gateway_limits
  gx_capabilities :: gateway_capabilities
  gx_state :: gateway_state

definition gateway_context_new :: gateway_context where
  "gateway_context_new = \<lparr> gx_policy = gateway_policy_default, gx_limits = gateway_limits_default,
     gx_capabilities = capabilities_none, gx_state = Gw_Idle \<rparr>"

definition gateway_context_with_limits :: "gateway_limits \<Rightarrow> gateway_context" where
  "gateway_context_with_limits limits = gateway_context_new\<lparr> gx_limits := limits \<rparr>"

definition can_start :: "gateway_context \<Rightarrow> bool" where
  "can_start c \<longleftrightarrow> gp_enabled (gx_policy c) \<and> forwarding_ready (gx_capabilities c) \<and> gx_state c \<in> {Gw_Idle, Gw_Degraded}"

definition can_forward :: "gateway_context \<Rightarrow> bool" where
  "can_forward c \<longleftrightarrow> gp_enabled (gx_policy c) \<and> forwarding_ready (gx_capabilities c) \<and> gx_state c \<in> {Gw_Active, Gw_Degraded}"

definition can_nat :: "gateway_context \<Rightarrow> bool" where
  "can_nat c \<longleftrightarrow> can_forward c \<and> gc_nat (gx_capabilities c)"

definition context_transition :: "gateway_state \<Rightarrow> gateway_context \<Rightarrow> (gateway_state_error + unit) \<times> gateway_context" where
  "context_transition next c = (case gw_transition next (gx_state c) of (r, s) \<Rightarrow> (r, c\<lparr> gx_state := s \<rparr>))"

subsection \<open>The policy controller (\<open>policy.rs\<close>)\<close>

datatype policy_error = InvalidPolicy

definition controller_validate :: "gateway_policy \<Rightarrow> policy_error + unit" where
  "controller_validate policy = (if \<not> gp_enabled policy then Inr () else Inr ())"

definition policy_controller_new :: "gateway_policy \<Rightarrow> policy_error + gateway_policy" where
  "policy_controller_new policy = (case controller_validate policy of Inl e \<Rightarrow> Inl e | Inr _ \<Rightarrow> Inr policy)"

definition policy_controller_replace :: "gateway_policy \<Rightarrow> gateway_policy \<Rightarrow> (policy_error + unit) \<times> gateway_policy" where
  "policy_controller_replace policy current =
     (case controller_validate policy of Inl e \<Rightarrow> (Inl e, current) | Inr _ \<Rightarrow> (Inr (), policy))"

definition policy_controller_enable :: "gateway_policy \<Rightarrow> gateway_policy" where
  "policy_controller_enable p = p\<lparr> gp_enabled := True \<rparr>"

definition policy_controller_disable :: "gateway_policy \<Rightarrow> gateway_policy" where
  "policy_controller_disable p = p\<lparr> gp_enabled := False \<rparr>"

definition allows_gateway :: "gateway_policy \<Rightarrow> bool" where
  "allows_gateway p = gp_enabled p"

text \<open>The controller accepts policies that the core's own validation rejects.\<close>

lemma controller_accepts_invalid:
  "gateway_policy_validate (policy_controller_enable gateway_policy_default) = Inl configuration_invalid \<and>
   policy_controller_new (policy_controller_enable gateway_policy_default) = Inr (policy_controller_enable gateway_policy_default)"
  by (simp add: gateway_policy_validate_iff policy_controller_enable_def gateway_policy_default_def
      policy_controller_new_def controller_validate_def)

subsection \<open>Runtime and capability (\<open>lib.rs\<close>)\<close>

record gateway_runtime =
  gr_connections :: connection_table
  gr_nat :: nat_table
  gr_routing :: routing_table
  gr_forwarding :: forwarding_table
  gr_neighbors :: neighbor_cache

definition runtime_with_limits :: "gateway_limits \<Rightarrow> gateway_runtime" where
  "runtime_with_limits l = \<lparr> gr_connections = conn_table_new (gl_max_connections l),
     gr_nat = nat_table_new (gl_max_nat_entries l), gr_routing = [], gr_forwarding = [],
     gr_neighbors = neighbor_cache_new (gl_max_neighbors l) \<rparr>"

text \<open>Each of the three sweeps reads the clock itself.\<close>

definition cleanup_expired :: "u64 \<Rightarrow> u64 \<Rightarrow> u64 \<Rightarrow> gateway_runtime \<Rightarrow> (usize \<times> usize \<times> usize) \<times> gateway_runtime" where
  "cleanup_expired now1 now2 now3 r =
     (case conn_remove_expired now1 (gr_connections r) of (a, c) \<Rightarrow>
      case nat_remove_expired now2 (gr_nat r) of (b, n) \<Rightarrow>
      case nb_remove_expired now3 (gr_neighbors r) of (d, k) \<Rightarrow>
        ((a, b, d), r\<lparr> gr_connections := c, gr_nat := n, gr_neighbors := k \<rparr>))"

definition clear_state :: "gateway_runtime \<Rightarrow> gateway_runtime" where
  "clear_state r = r\<lparr> gr_connections := conn_clear (gr_connections r), gr_nat := nat_clear (gr_nat r), gr_routing := [],
     gr_forwarding := [], gr_neighbors := nb_clear (gr_neighbors r) \<rparr>"

record gateway_capability =
  gw_enabled :: bool
  gw_context :: gateway_context
  gw_runtime :: gateway_runtime

datatype gateway_capability_error = Gw_NotReady | Gw_NotRunning | Gw_InvalidState

definition gateway_capability_new :: "gateway_policy \<Rightarrow> gateway_capability" where
  "gateway_capability_new policy =
     (let context = gateway_context_new\<lparr> gx_policy := policy \<rparr> in
      \<lparr> gw_enabled = False, gw_context = context, gw_runtime = runtime_with_limits (gx_limits context) \<rparr>)"

definition invalid_state :: "(gateway_state_error + unit) \<Rightarrow> gateway_capability_error + unit" where
  "invalid_state r = (case r of Inl _ \<Rightarrow> Inl Gw_InvalidState | Inr _ \<Rightarrow> Inr ())"

definition gateway_start :: "gateway_capability \<Rightarrow> (gateway_capability_error + unit) \<times> gateway_capability" where
  "gateway_start g =
     (if \<not> can_start (gw_context g) then (Inl Gw_NotReady, g)
      else case context_transition Gw_Active (gw_context g) of
        (Inl _, c) \<Rightarrow> (Inl Gw_InvalidState, g\<lparr> gw_context := c \<rparr>)
      | (Inr _, c) \<Rightarrow> (Inr (), g\<lparr> gw_context := c, gw_enabled := True \<rparr>))"

definition gateway_stop :: "gateway_capability \<Rightarrow> (gateway_capability_error + unit) \<times> gateway_capability" where
  "gateway_stop g = (case context_transition Gw_Idle (gw_context g) of
      (r, c) \<Rightarrow> (invalid_state r, g\<lparr> gw_enabled := False, gw_context := c \<rparr>))"

definition gateway_degrade :: "gateway_capability \<Rightarrow> (gateway_capability_error + unit) \<times> gateway_capability" where
  "gateway_degrade g =
     (if \<not> gw_enabled g then (Inl Gw_NotRunning, g)
      else case context_transition Gw_Degraded (gw_context g) of (r, c) \<Rightarrow> (invalid_state r, g\<lparr> gw_context := c \<rparr>))"

definition gateway_fail :: "gateway_capability \<Rightarrow> (gateway_capability_error + unit) \<times> gateway_capability" where
  "gateway_fail g = (case context_transition Gw_Error (gw_context g) of
      (r, c) \<Rightarrow> (invalid_state r, g\<lparr> gw_enabled := False, gw_context := c \<rparr>))"

definition gateway_is_ready :: "gateway_capability \<Rightarrow> bool" where
  "gateway_is_ready g \<longleftrightarrow> gw_enabled g \<and> can_forward (gw_context g)"

subsection \<open>Ingress and egress (\<open>ingress.rs\<close>, \<open>egress.rs\<close>)\<close>

record ingress_packet =
  ip_observation :: packet_observation
  ip_interface_id :: u32
  ip_parsed :: "parsed_packet option"
  ip_connection_key :: "connection_key option"
  ip_connection_found :: bool

definition ingress_packet_new :: "packet_observation \<Rightarrow> u32 \<Rightarrow> ingress_packet option" where
  "ingress_packet_new obs interface_id =
     (if interface_id = 0 then None
      else if raw_bytes (obs_packet obs) = [] then None
      else Some \<lparr> ip_observation = obs, ip_interface_id = interface_id, ip_parsed = None, ip_connection_key = None,
        ip_connection_found = False \<rparr>)"

datatype ingress_error = Ing_InvalidInterface | Ing_EmptyPacket | Ing_ParseFailed

definition connection_key_from_parsed :: "parsed_packet \<Rightarrow> connection_key option" where
  "connection_key_from_parsed p =
     Option.bind (pp_source_ip p) (\<lambda>src_ip.
     Option.bind (pp_destination_ip p) (\<lambda>dst_ip.
     Option.bind (pp_source_port p) (\<lambda>src_port.
     Option.bind (pp_destination_port p) (\<lambda>dst_port.
     Option.bind
       (if pp_protocol p \<in> {Net_Ipv4, Net_Ipv6} \<and> pp_transport p = Tr_Tcp then Some Proto_Tcp
        else if pp_protocol p \<in> {Net_Ipv4, Net_Ipv6} \<and> pp_transport p = Tr_Udp then Some Proto_Udp
        else None)
       (\<lambda>proto. Some \<lparr> ck_src_ip = src_ip, ck_src_port = src_port, ck_dst_ip = dst_ip, ck_dst_port = dst_port,
          ck_protocol = proto \<rparr>)))))"

definition ingress_accept :: "packet_observation \<Rightarrow> u32 \<Rightarrow> (ingress_error, ingress_packet) outcome" where
  "ingress_accept obs interface_id =
     (if interface_id = 0 then Err Ing_InvalidInterface
      else if raw_bytes (obs_packet obs) = [] then Err Ing_EmptyPacket
      else
      obind (ok_or Ing_InvalidInterface (ingress_packet_new obs interface_id)) (\<lambda>packet.
      case pp_parse (ip_observation packet) of
        Panic \<Rightarrow> Panic
      | Err _ \<Rightarrow> Err Ing_ParseFailed
      | Ok parsed \<Rightarrow> Ok (packet\<lparr> ip_connection_key := connection_key_from_parsed parsed, ip_parsed := Some parsed \<rparr>)))"

definition accept_into_runtime ::
  "u64 \<Rightarrow> packet_observation \<Rightarrow> u32 \<Rightarrow> gateway_runtime \<Rightarrow> (ingress_error, ingress_packet) outcome" where
  "accept_into_runtime now obs interface_id runtime =
     obind (ingress_accept obs interface_id) (\<lambda>packet.
       Ok (case ip_connection_key packet of
         Some key \<Rightarrow> packet\<lparr> ip_connection_found := (conn_lookup now key (gr_connections runtime) \<noteq> None) \<rparr>
       | None \<Rightarrow> packet))"

record egress_packet =
  ep_observation :: packet_observation
  ep_interface_id :: u32
  ep_next_hop :: "ip_addr option"
  ep_neighbor_address :: "byte list option"

datatype egress_error = Eg_InvalidInterface | Eg_EmptyPacket | Eg_InvalidNextHop | Eg_NeighborUnresolved

definition egress_packet_new :: "packet_observation \<Rightarrow> u32 \<Rightarrow> egress_packet option" where
  "egress_packet_new obs interface_id =
     (if interface_id = 0 then None
      else if raw_bytes (obs_packet obs) = [] then None
      else Some \<lparr> ep_observation = obs, ep_interface_id = interface_id, ep_next_hop = None, ep_neighbor_address = None \<rparr>)"

definition egress_prepare :: "packet_observation \<Rightarrow> u32 \<Rightarrow> egress_error + egress_packet" where
  "egress_prepare obs interface_id =
     (if interface_id = 0 then Inl Eg_InvalidInterface
      else if raw_bytes (obs_packet obs) = [] then Inl Eg_EmptyPacket
      else case egress_packet_new obs interface_id of None \<Rightarrow> Inl Eg_InvalidInterface | Some p \<Rightarrow> Inr p)"

fun is_unspecified :: "ip_addr \<Rightarrow> bool" where
  "is_unspecified (V4 a) = (a = 0)"
| "is_unspecified (V6 a) = (a = 0)"

definition prepare_forwarding ::
  "packet_observation \<Rightarrow> forwarding_decision \<Rightarrow> byte list \<Rightarrow> egress_error + egress_packet" where
  "prepare_forwarding obs decision neighbor_address =
     (if fd_interface_id decision = 0 then Inl Eg_InvalidInterface
      else if is_unspecified (fd_next_hop decision) then Inl Eg_InvalidNextHop
      else if neighbor_address = replicate 6 0 then Inl Eg_NeighborUnresolved
      else case egress_prepare obs (fd_interface_id decision) of
        Inl e \<Rightarrow> Inl e
      | Inr p \<Rightarrow> Inr (p\<lparr> ep_next_hop := Some (fd_next_hop decision), ep_neighbor_address := Some neighbor_address \<rparr>))"

subsection \<open>The lifecycle of the capability\<close>

datatype gw_op = Gw_Start | Gw_Stop | Gw_Degrade | Gw_Fail | Gw_Set_Policy gateway_policy
  | Gw_Set_Capabilities gateway_capabilities | Gw_Set_Limits gateway_limits

primrec gw_call :: "gw_op \<Rightarrow> gateway_capability \<Rightarrow> (gateway_capability_error + unit) \<times> gateway_capability" where
  "gw_call Gw_Start g = gateway_start g"
| "gw_call Gw_Stop g = gateway_stop g"
| "gw_call Gw_Degrade g = gateway_degrade g"
| "gw_call Gw_Fail g = gateway_fail g"
| "gw_call (Gw_Set_Policy p) g = (Inr (), g\<lparr> gw_context := (gw_context g)\<lparr> gx_policy := p \<rparr> \<rparr>)"
| "gw_call (Gw_Set_Capabilities c) g = (Inr (), g\<lparr> gw_context := (gw_context g)\<lparr> gx_capabilities := c \<rparr> \<rparr>)"
| "gw_call (Gw_Set_Limits l) g = (Inr (), g\<lparr> gw_context := (gw_context g)\<lparr> gx_limits := l \<rparr> \<rparr>)"

definition gw_inv :: "gateway_capability \<Rightarrow> bool" where
  "gw_inv g \<longleftrightarrow> (gw_enabled g \<longleftrightarrow> gx_state (gw_context g) \<in> {Gw_Active, Gw_Degraded})"

lemmas gw_defs = gateway_start_def gateway_stop_def gateway_degrade_def gateway_fail_def context_transition_def
  gw_transition_def gw_can_transition_to_def can_start_def invalid_state_def

lemma gw_inv_call: "gw_inv g \<Longrightarrow> gw_inv (snd (gw_call op g)) \<and> fst (gw_call op g) \<noteq> Inl Gw_InvalidState"
  by (cases op; cases "gx_state (gw_context g)") (auto simp: gw_inv_def gw_defs)

lemma gw_inv_run: "gw_inv g \<Longrightarrow> gw_inv (fold (\<lambda>op g. snd (gw_call op g)) ops g)"
  by (induction ops arbitrary: g) (simp_all add: gw_inv_call)

text \<open>
  The gateway's lifecycle is consistent. After any sequence of calls on a new capability, it
  is enabled exactly in the states \<open>Active\<close> and \<open>Degraded\<close>; no call ever reports
  \<open>InvalidState\<close>; it forwards exactly if it is enabled under an enabled policy with all
  forwarding capabilities; and a gateway that has failed refuses to start, before and after
  any attempt to degrade it, until it is stopped.
\<close>

lemma gateway_lifecycle:
  "let g = fold (\<lambda>op g. snd (gw_call op g)) ops (gateway_capability_new policy); f = snd (gateway_fail g) in
     (gw_enabled g \<longleftrightarrow> gx_state (gw_context g) \<in> {Gw_Active, Gw_Degraded}) \<and>
     fst (gw_call op g) \<noteq> Inl Gw_InvalidState \<and>
     (gateway_is_ready g \<longleftrightarrow> gw_enabled g \<and> gp_enabled (gx_policy (gw_context g)) \<and>
        forwarding_ready (gx_capabilities (gw_context g))) \<and>
     \<not> gateway_is_ready f \<and> gateway_start f = (Inl Gw_NotReady, f) \<and> gateway_degrade f = (Inl Gw_NotRunning, f) \<and>
     fst (gateway_stop f) = Inr ()"
proof -
  define g where "g = fold (\<lambda>op g. snd (gw_call op g)) ops (gateway_capability_new policy)"
  have new: "gw_inv (gateway_capability_new policy)"
    by (simp add: gw_inv_def gateway_capability_new_def gateway_context_new_def)
  have inv: "gw_inv g" unfolding g_def by (rule gw_inv_run [OF new])
  then have "fst (gw_call op g) \<noteq> Inl Gw_InvalidState" by (simp add: gw_inv_call)
  moreover have "\<not> gateway_is_ready (snd (gateway_fail g)) \<and>
      gateway_start (snd (gateway_fail g)) = (Inl Gw_NotReady, snd (gateway_fail g)) \<and>
      gateway_degrade (snd (gateway_fail g)) = (Inl Gw_NotRunning, snd (gateway_fail g)) \<and>
      fst (gateway_stop (snd (gateway_fail g))) = Inr ()"
    by (cases "gx_state (gw_context g)") (auto simp: gw_defs gateway_is_ready_def)
  moreover have "gateway_is_ready g \<longleftrightarrow> gw_enabled g \<and> gp_enabled (gx_policy (gw_context g)) \<and>
      forwarding_ready (gx_capabilities (gw_context g))"
    using inv by (auto simp: gateway_is_ready_def can_forward_def gw_inv_def)
  ultimately show ?thesis
    using inv by (simp add: gw_inv_def flip: g_def)
qed

subsection \<open>The runtime tables\<close>

definition rt_inv :: "gateway_runtime \<Rightarrow> bool" where
  "rt_inv r \<longleftrightarrow> conn_inv (gr_connections r) \<and> nat_inv (gr_nat r) \<and> nb_inv (gr_neighbors r)"

lemma rt_inv_new: "rt_inv (runtime_with_limits l)"
  by (simp add: rt_inv_def runtime_with_limits_def conn_inv_new nat_inv_new nb_inv_new)

lemma cleanup_snd:
  "snd (cleanup_expired a b c r) = r\<lparr> gr_connections := snd (conn_remove_expired a (gr_connections r)),
     gr_nat := snd (nat_remove_expired b (gr_nat r)), gr_neighbors := snd (nb_remove_expired c (gr_neighbors r)) \<rparr>"
  "fst (cleanup_expired a b c r) = (fst (conn_remove_expired a (gr_connections r)),
     fst (nat_remove_expired b (gr_nat r)), fst (nb_remove_expired c (gr_neighbors r)))"
  by (simp_all add: cleanup_expired_def split: prod.splits)

lemma rt_inv_cleanup: "rt_inv r \<Longrightarrow> rt_inv (snd (cleanup_expired a b c r))"
  by (simp add: rt_inv_def cleanup_snd conn_inv_remove_expired nat_inv_remove_expired nb_inv_remove_expired)

lemma rt_inv_clear: "rt_inv r \<Longrightarrow> rt_inv (clear_state r)"
  by (simp add: rt_inv_def clear_state_def conn_inv_clear nat_inv_clear nb_inv_clear)

text \<open>
  One cleanup suffices: sweeping the gateway's tables a second time at the same clock readings
  removes nothing, and the cleanup removes exactly the expired connections, translations and
  neighbours, keeping the tables' invariants.
\<close>

lemma cleanup_complete:
  assumes "rt_inv r" and "cleanup_expired a b c r = (counts, r')"
  shows "rt_inv r' \<and> fst (cleanup_expired a b c r') = (0, 0, 0) \<and>
    (\<forall>k e. conn_get k (gr_connections r') = Some e \<longleftrightarrow> conn_get k (gr_connections r) = Some e \<and> \<not> conn_is_expired a e) \<and>
    (\<forall>i e. nat_get i (gr_nat r') = Some e \<longleftrightarrow> nat_get i (gr_nat r) = Some e \<and> \<not> nat_is_expired b e) \<and>
    (\<forall>x i e. nb_get x i (gr_neighbors r') = Some e \<longleftrightarrow> nb_get x i (gr_neighbors r) = Some e \<and> \<not> nb_is_expired c e)"
proof -
  have r': "r' = snd (cleanup_expired a b c r)" using assms(2) by simp
  have inv: "conn_inv (gr_connections r)" "nat_inv (gr_nat r)" "nb_inv (gr_neighbors r)"
    using assms(1) by (simp_all add: rt_inv_def)
  show ?thesis
    using rt_inv_cleanup [OF assms(1), of a b c]
    by (auto simp: r' cleanup_snd conn_tab.sweep_again nat_tab.sweep_again nb_tab.sweep_again conn_get_def nat_get_def
        nb_get_def conn_tab.get_sweep nat_tab.get_sweep nb_tab.get_sweep inv split: option.splits)
qed

definition demo_runtime :: gateway_runtime where
  "demo_runtime = (runtime_with_limits gateway_limits_default)\<lparr>
     gr_connections := snd (conn_insert 0 demo_conn (conn_table_new 3)) \<rparr>"

theorem cleanup_complete_witness:
  "rt_inv demo_runtime \<and> conn_get demo_conn_key (gr_connections demo_runtime) = Some demo_conn \<and>
   conn_get demo_conn_key (gr_connections (snd (cleanup_expired 100 0 0 demo_runtime))) = None"
proof -
  have inv: "rt_inv demo_runtime"
    using rt_inv_new [of gateway_limits_default] conn_inv_insert [OF conn_inv_new, of 0 demo_conn 3]
    by (simp add: demo_runtime_def rt_inv_def)
  have get: "conn_get demo_conn_key (gr_connections demo_runtime) = Some demo_conn"
    by (simp add: demo_runtime_def conn_insert_def conn_remove_expired_def keys_where_def conn_table_new_def conn_get_def
        demo_conn_def hm_insert_def hm_get_def Let_def)
  have ex: "conn_is_expired 100 demo_conn"
    by (simp add: conn_is_expired_def demo_conn_def saturating_sub_def)
  show ?thesis
    using cleanup_complete [OF inv prod.collapse [symmetric], of 100 0 0] inv get ex by (metis not_Some_eq option.inject)
qed

subsection \<open>Ingress\<close>

definition conn_key_of_flow :: "core_flow_key \<Rightarrow> connection_key" where
  "conn_key_of_flow k = \<lparr> ck_src_ip = fk_src_ip k, ck_src_port = fk_src_port k, ck_dst_ip = fk_dst_ip k,
     ck_dst_port = fk_dst_port k, ck_protocol = fk_protocol k \<rparr>"

lemma connection_key_flow_key:
  "parsed_ok raw p \<Longrightarrow> connection_key_from_parsed p =
     (if pp_source_port p = None then None else map_option conn_key_of_flow (flow_key_of p))"
  by (cases "pp_protocol p")
    (auto simp: parsed_ok_def connection_key_from_parsed_def flow_key_of_def conn_key_of_flow_def Let_def
      split: Option.bind_splits)

text \<open>
  Gateway ingress never panics and refuses only for a zero interface, an empty packet or a
  packet the parser rejects, in this order. An accepted packet carries the observation
  unchanged; it has a connection key exactly if its ports were parsed, and that key is the one
  correlation computes for the same packet; and it is reported as belonging to a known
  connection exactly if the connection table has a live entry under that key.
\<close>

lemma ingress_accepts:
  assumes "length (raw_bytes (obs_packet obs)) \<le> isize_max"
  shows "case accept_into_runtime now obs i r of
      Panic \<Rightarrow> False
    | Err e \<Rightarrow> (i = 0 \<and> e = Ing_InvalidInterface) \<or>
        (i \<noteq> 0 \<and> raw_bytes (obs_packet obs) = [] \<and> e = Ing_EmptyPacket) \<or>
        (i \<noteq> 0 \<and> raw_bytes (obs_packet obs) \<noteq> [] \<and> (\<exists>x. pp_parse obs = Err x) \<and> e = Ing_ParseFailed)
    | Ok q \<Rightarrow> ip_observation q = obs \<and> ip_interface_id q = i \<and> i \<noteq> 0 \<and>
        (\<exists>p. pp_parse obs = Ok p \<and> ip_parsed q = Some p \<and>
           ip_connection_key q = (if pp_source_port p = None then None else map_option conn_key_of_flow (flow_key_of p))) \<and>
        (ip_connection_found q \<longleftrightarrow> (\<exists>k e. ip_connection_key q = Some k \<and> conn_lookup now k (gr_connections r) = Some e))"
proof -
  have post: "pp_post (raw_bytes (obs_packet obs)) (pp_parse obs)"
    unfolding pp_parse_def by (rule pp_parse_bytes_post [OF assms])
  show ?thesis
  proof (cases "pp_parse obs")
    case (Ok p)
    then show ?thesis
      using post connection_key_flow_key [of "raw_bytes (obs_packet obs)" p]
      by (auto simp: accept_into_runtime_def ingress_accept_def ingress_packet_new_def pp_post_def split: option.splits)
  qed (use post in \<open>auto simp: accept_into_runtime_def ingress_accept_def ingress_packet_new_def pp_post_def\<close>)
qed

theorem ingress_accepts_witness:
  "\<exists>obs q k. accept_into_runtime 0 obs 3 demo_runtime = Ok q \<and> ip_connection_key q = Some k \<and> ck_src_port k = 1234"
proof -
  obtain p where p: "pp_parse demo_obs = Ok p" "parsed_ok demo_frame p" "pp_source_port p = Some 1234"
    using demo_obs_parses(3) by blast
  then obtain k where "flow_key_of p = Some k" "fk_src_port k = 1234"
    using flow_key_of_ports by blast
  moreover have "raw_bytes (obs_packet demo_obs) \<noteq> []"
    by (simp add: demo_obs_parses(1) demo_frame_def)
  ultimately show ?thesis
    using p ingress_accepts [OF demo_obs_parses(2), of 3 0 demo_runtime]
    by (intro exI [of _ demo_obs], cases "accept_into_runtime 0 demo_obs 3 demo_runtime")
      (auto simp: conn_key_of_flow_def)
qed

end
