(* ===== verification/Wfp_Flow.thy ===== *)
theory Wfp_Flow
  imports Core_Types Tables
begin

text \<open>
  The Windows Filtering Platform backend, first part: the flows the callouts report
  (\<open>crates/backend-wfp/src/flow.rs\<close>) and the metadata of a classified packet (\<open>metadata.rs\<close>).
\<close>

definition wfp_error :: "engine_error_code \<Rightarrow> engine_error" where
  "wfp_error code = Error_Backend code ''wfp'' None"

subsection \<open>Flow states and flows\<close>

datatype wfp_flow_state = Wf_Unknown | Wf_New | Wf_Established | Wf_Closing | Wf_Closed | Wf_Aborted

definition wf_is_terminal :: "wfp_flow_state \<Rightarrow> bool" where
  "wf_is_terminal s \<longleftrightarrow> s \<in> {Wf_Closed, Wf_Aborted}"

definition wf_is_active :: "wfp_flow_state \<Rightarrow> bool" where
  "wf_is_active s \<longleftrightarrow> s \<in> {Wf_New, Wf_Established, Wf_Closing}"

definition wf_can_transition_to :: "wfp_flow_state \<Rightarrow> wfp_flow_state \<Rightarrow> bool" where
  "wf_can_transition_to s t \<longleftrightarrow> s = t \<or>
     (s, t) \<in> {(Wf_Unknown, Wf_New), (Wf_Unknown, Wf_Established),
       (Wf_New, Wf_Established), (Wf_New, Wf_Closing), (Wf_New, Wf_Aborted),
       (Wf_Established, Wf_Closing), (Wf_Established, Wf_Closed), (Wf_Established, Wf_Aborted),
       (Wf_Closing, Wf_Closed), (Wf_Closing, Wf_Aborted)}"

definition wf_try_from :: "u8 \<Rightarrow> wfp_flow_state engine_result" where
  "wf_try_from b =
     (if b = 0 then Inr Wf_Unknown else if b = 1 then Inr Wf_New else if b = 2 then Inr Wf_Established
      else if b = 3 then Inr Wf_Closing else if b = 4 then Inr Wf_Closed else if b = 5 then Inr Wf_Aborted
      else Inl (Error_Code EC_InvalidArgument))"

record wfp_flow =
  wf_flow_id :: u64
  wf_filter_id :: "u64 option"
  wf_process_id :: "u32 option"
  wf_local_address :: "byte list option"
  wf_remote_address :: "byte list option"
  wf_local_port :: "u16 option"
  wf_remote_port :: "u16 option"
  wf_protocol :: u8
  wf_state :: wfp_flow_state
  wf_packet_count :: u64
  wf_byte_count :: u64
  wf_created_at_ns :: u64
  wf_last_seen_ns :: u64

definition wfp_flow_new :: "u64 \<Rightarrow> u8 \<Rightarrow> u64 \<Rightarrow> wfp_flow engine_result" where
  "wfp_flow_new flow_id protocol timestamp_ns =
     (if flow_id = 0 then Inl (Error_Code EC_InvalidArgument)
      else Inr \<lparr> wf_flow_id = flow_id, wf_filter_id = None, wf_process_id = None, wf_local_address = None,
        wf_remote_address = None, wf_local_port = None, wf_remote_port = None, wf_protocol = protocol,
        wf_state = Wf_New, wf_packet_count = 0, wf_byte_count = 0, wf_created_at_ns = timestamp_ns,
        wf_last_seen_ns = timestamp_ns \<rparr>)"

definition wf_set_ports :: "u16 \<Rightarrow> u16 \<Rightarrow> wfp_flow \<Rightarrow> wfp_flow" where
  "wf_set_ports local remote f = f\<lparr> wf_local_port := Some local, wf_remote_port := Some remote \<rparr>"

definition wf_transition :: "wfp_flow_state \<Rightarrow> wfp_flow \<Rightarrow> unit engine_result \<times> wfp_flow" where
  "wf_transition next_state f =
     (if \<not> wf_can_transition_to (wf_state f) next_state then (Inl (wfp_error EC_InvalidStateTransition), f)
      else (Inr (), f\<lparr> wf_state := next_state \<rparr>))"

definition checked_add64 :: "u64 \<Rightarrow> u64 \<Rightarrow> u64 option" where
  "checked_add64 a b = (if a \<le> a + b then Some (a + b) else None)"

text \<open>Each counter is stored as soon as its own addition has succeeded.\<close>

definition wf_record_packet :: "u64 \<Rightarrow> u64 \<Rightarrow> wfp_flow \<Rightarrow> unit engine_result \<times> wfp_flow" where
  "wf_record_packet bytes timestamp_ns f =
     (if wf_is_terminal (wf_state f) then (Inl (wfp_error EC_InvalidStateTransition), f)
      else case checked_add64 (wf_packet_count f) 1 of
        None \<Rightarrow> (Inl (Error_Code EC_IntegerOverflow), f)
      | Some packets \<Rightarrow>
          let f1 = f\<lparr> wf_packet_count := packets \<rparr> in
          case checked_add64 (wf_byte_count f1) bytes of
            None \<Rightarrow> (Inl (Error_Code EC_IntegerOverflow), f1)
          | Some byte_total \<Rightarrow>
              let f2 = f1\<lparr> wf_byte_count := byte_total, wf_last_seen_ns := timestamp_ns \<rparr> in
              (Inr (), if wf_state f2 = Wf_New then f2\<lparr> wf_state := Wf_Established \<rparr> else f2))"

definition wf_age_ns :: "u64 \<Rightarrow> wfp_flow \<Rightarrow> u64" where
  "wf_age_ns now_ns f = saturating_sub now_ns (wf_created_at_ns f)"

definition wf_idle_ns :: "u64 \<Rightarrow> wfp_flow \<Rightarrow> u64" where
  "wf_idle_ns now_ns f = saturating_sub now_ns (wf_last_seen_ns f)"

definition wf_is_idle :: "u64 \<Rightarrow> u64 \<Rightarrow> wfp_flow \<Rightarrow> bool" where
  "wf_is_idle now_ns timeout_ns f \<longleftrightarrow> wf_idle_ns now_ns f \<ge> timeout_ns"

definition wf_close :: "wfp_flow \<Rightarrow> unit engine_result \<times> wfp_flow" where
  "wf_close f =
     (if wf_state f = Wf_Closed then (Inr (), f)
      else if wf_state f = Wf_Aborted then (Inl (wfp_error EC_InvalidStateTransition), f)
      else if wf_state f \<noteq> Wf_Closing then
        (case wf_transition Wf_Closing f of
           (Inl e, f1) \<Rightarrow> (Inl e, f1)
         | (Inr _, f1) \<Rightarrow> wf_transition Wf_Closed f1)
      else wf_transition Wf_Closed f)"

definition wf_abort :: "wfp_flow \<Rightarrow> unit engine_result \<times> wfp_flow" where
  "wf_abort f = (if wf_is_terminal (wf_state f) then (Inr (), f) else wf_transition Wf_Aborted f)"

subsection \<open>The flow table\<close>

record wfp_flow_table =
  wt_flows :: "(u64, wfp_flow) hash_map"
  wt_max_entries :: usize

definition wfp_table_new :: "usize \<Rightarrow> wfp_flow_table engine_result" where
  "wfp_table_new max_entries =
     (if max_entries = 0 then Inl (Error_Code EC_InvalidArgument)
      else Inr \<lparr> wt_flows = [], wt_max_entries = max_entries \<rparr>)"

definition wfp_table_default :: wfp_flow_table where
  "wfp_table_default = \<lparr> wt_flows = [], wt_max_entries = 100000 \<rparr>"

definition wt_insert :: "wfp_flow \<Rightarrow> wfp_flow_table \<Rightarrow> unit engine_result \<times> wfp_flow_table" where
  "wt_insert f t =
     (if hm_contains (wf_flow_id f) (wt_flows t) then (Inl (Error_Code EC_InvalidArgument), t)
      else if length (wt_flows t) \<ge> wt_max_entries t then (Inl (Error_Code EC_ResourceExhausted), t)
      else (Inr (), t\<lparr> wt_flows := hm_insert (wf_flow_id f) f (wt_flows t) \<rparr>))"

definition wt_get :: "u64 \<Rightarrow> wfp_flow_table \<Rightarrow> wfp_flow option" where
  "wt_get flow_id t = hm_get flow_id (wt_flows t)"

text \<open>\<open>get_mut\<close> followed by an update through the reference.\<close>

definition wt_get_mut :: "u64 \<Rightarrow> (wfp_flow \<Rightarrow> wfp_flow) \<Rightarrow> wfp_flow_table \<Rightarrow> wfp_flow_table" where
  "wt_get_mut flow_id update t = (case hm_get flow_id (wt_flows t) of
      None \<Rightarrow> t
    | Some f \<Rightarrow> t\<lparr> wt_flows := hm_insert flow_id (update f) (wt_flows t) \<rparr>)"

definition wt_remove :: "u64 \<Rightarrow> wfp_flow_table \<Rightarrow> wfp_flow option \<times> wfp_flow_table" where
  "wt_remove flow_id t = (hm_get flow_id (wt_flows t), t\<lparr> wt_flows := hm_remove flow_id (wt_flows t) \<rparr>)"

definition wt_expire_idle :: "u64 \<times> u64 \<Rightarrow> wfp_flow_table \<Rightarrow> usize \<times> wfp_flow_table" where
  "wt_expire_idle clock t =
     (let expired = keys_where (wf_is_idle (fst clock) (snd clock)) (wt_flows t) in
      (length expired, t\<lparr> wt_flows := fold hm_remove expired (wt_flows t) \<rparr>))"

definition wt_clear :: "wfp_flow_table \<Rightarrow> wfp_flow_table" where
  "wt_clear t = t\<lparr> wt_flows := [] \<rparr>"

subsection \<open>Packet metadata\<close>

datatype wfp_ip_version = Wip_Unknown | Wip_V4 | Wip_V6

definition wfp_ip_version_try_from :: "u8 \<Rightarrow> wfp_ip_version engine_result" where
  "wfp_ip_version_try_from b =
     (if b = 0 then Inr Wip_Unknown else if b = 4 then Inr Wip_V4 else if b = 6 then Inr Wip_V6
      else Inl (Error_Code EC_InvalidArgument))"

datatype wfp_direction = Wdir_Unknown | Wdir_Inbound | Wdir_Outbound

definition wfp_direction_try_from :: "u8 \<Rightarrow> wfp_direction engine_result" where
  "wfp_direction_try_from b =
     (if b = 0 then Inr Wdir_Unknown else if b = 1 then Inr Wdir_Inbound else if b = 2 then Inr Wdir_Outbound
      else Inl (Error_Code EC_InvalidArgument))"

record wfp_metadata =
  wm_layer_id :: u16
  wm_callout_id :: u64
  wm_filter_id :: "u64 option"
  wm_flow_id :: "u64 option"
  wm_process_id :: "u32 option"
  wm_thread_id :: "u32 option"
  wm_application_id :: "byte list"
  wm_ip_version :: wfp_ip_version
  wm_direction :: wfp_direction
  wm_interface_index :: "u32 option"
  wm_sub_interface_index :: "u32 option"
  wm_compartment_id :: "u32 option"
  wm_transport_protocol :: "u8 option"
  wm_local_address :: "byte list option"
  wm_remote_address :: "byte list option"
  wm_local_port :: "u16 option"
  wm_remote_port :: "u16 option"

definition wfp_metadata_new :: "u16 \<Rightarrow> u64 \<Rightarrow> wfp_metadata" where
  "wfp_metadata_new layer_id callout_id =
     \<lparr> wm_layer_id = layer_id, wm_callout_id = callout_id, wm_filter_id = None, wm_flow_id = None,
       wm_process_id = None, wm_thread_id = None, wm_application_id = [], wm_ip_version = Wip_Unknown,
       wm_direction = Wdir_Unknown, wm_interface_index = None, wm_sub_interface_index = None,
       wm_compartment_id = None, wm_transport_protocol = None, wm_local_address = None,
       wm_remote_address = None, wm_local_port = None, wm_remote_port = None \<rparr>"

definition wm_set_transport :: "u8 option \<Rightarrow> u16 option \<Rightarrow> u16 option \<Rightarrow> wfp_metadata \<Rightarrow> wfp_metadata" where
  "wm_set_transport protocol local_port remote_port m =
     m\<lparr> wm_transport_protocol := protocol, wm_local_port := local_port, wm_remote_port := remote_port \<rparr>"

definition wm_set_addresses :: "byte list \<Rightarrow> byte list \<Rightarrow> wfp_metadata \<Rightarrow> unit engine_result \<times> wfp_metadata" where
  "wm_set_addresses local remote m =
     (if length local \<noteq> 4 \<and> length local \<noteq> 16 then (Inl (Error_Code EC_InvalidArgument), m)
      else if length remote \<noteq> 4 \<and> length remote \<noteq> 16 then (Inl (Error_Code EC_InvalidArgument), m)
      else if length local \<noteq> length remote then (Inl (Error_Code EC_InvalidArgument), m)
      else (Inr (), m\<lparr> wm_local_address := Some local, wm_remote_address := Some remote,
        wm_ip_version := (if length local = 4 then Wip_V4 else if length local = 16 then Wip_V6 else Wip_Unknown) \<rparr>))"

definition wm_is_icmp :: "wfp_metadata \<Rightarrow> bool" where
  "wm_is_icmp m \<longleftrightarrow> wm_transport_protocol m = Some 1 \<and> wm_ip_version m = Wip_V4"

definition wm_is_icmpv6 :: "wfp_metadata \<Rightarrow> bool" where
  "wm_is_icmpv6 m \<longleftrightarrow> wm_transport_protocol m = Some 58 \<and> wm_ip_version m = Wip_V6"

definition wm_clear_runtime_context :: "wfp_metadata \<Rightarrow> wfp_metadata" where
  "wm_clear_runtime_context m =
     m\<lparr> wm_flow_id := None, wm_filter_id := None, wm_process_id := None, wm_thread_id := None \<rparr>"

lemma wm_set_addresses_sound:
  "fst (wm_set_addresses l r m) = Inr () \<longleftrightarrow> length l = length r \<and> length l \<in> {4, 16}"
  "fst (wm_set_addresses l r m) \<noteq> Inr () \<Longrightarrow> snd (wm_set_addresses l r m) = m"
  by (auto simp: wm_set_addresses_def)

subsection \<open>Flow histories\<close>

datatype wf_op = Wf_Do_Record u64 u64 | Wf_Do_Transition wfp_flow_state | Wf_Do_Close | Wf_Do_Abort

primrec wf_exec :: "wf_op \<Rightarrow> wfp_flow \<Rightarrow> wfp_flow" where
  "wf_exec (Wf_Do_Record bytes ts) f = snd (wf_record_packet bytes ts f)"
| "wf_exec (Wf_Do_Transition s) f = snd (wf_transition s f)"
| "wf_exec Wf_Do_Close f = snd (wf_close f)"
| "wf_exec Wf_Do_Abort f = snd (wf_abort f)"

lemma wf_exec_id [simp]: "wf_flow_id (wf_exec op f) = wf_flow_id f"
  by (cases op) (auto simp: wf_record_packet_def wf_transition_def wf_close_def wf_abort_def Let_def split: option.splits)

lemma wf_terminal_stays: "wf_is_terminal s \<Longrightarrow> wf_can_transition_to s t \<longleftrightarrow> t = s"
  by (auto simp: wf_is_terminal_def wf_can_transition_to_def)

lemma wf_exec_terminal:
  assumes "wf_is_terminal (wf_state f)"
  shows "wf_exec op f = f"
proof (cases op)
  case Wf_Do_Close
  have "wf_state f = Wf_Closed \<or> wf_state f = Wf_Aborted" using assms by (simp add: wf_is_terminal_def)
  then show ?thesis using Wf_Do_Close by (auto simp: wf_close_def)
qed (use assms in \<open>simp_all add: wf_record_packet_def wf_transition_def wf_abort_def wf_terminal_stays\<close>)

lemma wf_transition_path: "wf_can_transition_to\<^sup>*\<^sup>* (wf_state f) (wf_state (snd (wf_transition s f)))"
  by (auto simp: wf_transition_def intro: r_into_rtranclp)

lemma wf_record_state:
  "wf_state (snd (wf_record_packet b ts f)) = wf_state f \<or>
     wf_state f = Wf_New \<and> wf_state (snd (wf_record_packet b ts f)) = Wf_Established"
  by (auto simp: wf_record_packet_def Let_def split: option.splits)

lemma wf_exec_path: "wf_can_transition_to\<^sup>*\<^sup>* (wf_state f) (wf_state (wf_exec op f))"
proof (cases op)
  case (Wf_Do_Record b ts)
  have "wf_can_transition_to Wf_New Wf_Established" by (simp add: wf_can_transition_to_def)
  then show ?thesis using wf_record_state [of b ts f] Wf_Do_Record by auto
next
  case Wf_Do_Close
  have "wf_can_transition_to\<^sup>*\<^sup>* (wf_state f) (wf_state (snd (wf_transition Wf_Closed (snd (wf_transition Wf_Closing f)))))"
    using wf_transition_path rtranclp_trans by metis
  then show ?thesis
    using wf_transition_path [of f Wf_Closing] wf_transition_path [of f Wf_Closed] Wf_Do_Close by (auto simp: wf_close_def split: prod.splits sum.splits)
qed (simp_all add: wf_transition_path wf_abort_def)

text \<open>A packet whose bytes overflow the byte counter is refused and counted all the same.\<close>

lemma wf_refused_packet_counted:
  "\<exists>f. fst (wf_record_packet 1 5 f) = Inl (Error_Code EC_IntegerOverflow) \<and>
     wf_packet_count (snd (wf_record_packet 1 5 f)) = wf_packet_count f + 1"
proof -
  obtain f where "wfp_flow_new 1 6 0 = Inr f" by (simp add: wfp_flow_new_def)
  then show ?thesis
    by (intro exI [of _ "f\<lparr> wf_byte_count := -1 \<rparr>"])
      (auto simp: wfp_flow_new_def wf_record_packet_def checked_add64_def wf_is_terminal_def split: if_splits)
qed

datatype wt_op = Wt_Insert wfp_flow | Wt_Update u64 wf_op | Wt_Remove u64 | Wt_Expire u64 u64 | Wt_Clear

primrec wt_exec :: "wt_op \<Rightarrow> wfp_flow_table \<Rightarrow> wfp_flow_table" where
  "wt_exec (Wt_Insert f) t = snd (wt_insert f t)"
| "wt_exec (Wt_Update i op) t = wt_get_mut i (wf_exec op) t"
| "wt_exec (Wt_Remove i) t = snd (wt_remove i t)"
| "wt_exec (Wt_Expire now timeout) t = snd (wt_expire_idle (now, timeout) t)"
| "wt_exec Wt_Clear t = wt_clear t"

definition wt_inv :: "wfp_flow_table \<Rightarrow> bool" where
  "wt_inv t \<longleftrightarrow> hm_wf (wt_flows t) \<and> length (wt_flows t) \<le> wt_max_entries t \<and>
     (\<forall>i f. hm_get i (wt_flows t) = Some f \<longrightarrow> wf_flow_id f = i)"

lemma wt_inv_expire: "wt_inv t \<Longrightarrow> wt_inv (snd (wt_expire_idle clock t))"
  using sweep_length [of "wt_flows t" "wf_is_idle (fst clock) (snd clock)"]
  by (auto simp: wt_inv_def wt_expire_idle_def Let_def sweep_get hm.wf_dels split: option.splits if_splits)

interpretation wfp_tab: expiring_table wt_flows "\<lambda>t clock. wf_is_idle (fst clock) (snd clock)" wt_expire_idle wt_inv
proof
  show "hm_wf (wt_flows s)" if "wt_inv s" for s using that by (simp add: wt_inv_def)
qed (simp_all add: wt_inv_expire, simp_all add: wt_expire_idle_def Let_def)

lemma wt_inv_exec: "wt_inv t \<Longrightarrow> wt_inv (wt_exec op t)"
proof (cases op)
  case (Wt_Expire now timeout)
  then show "wt_inv t \<Longrightarrow> ?thesis" by (simp add: wt_inv_expire)
next
  case (Wt_Remove i)
  then show "wt_inv t \<Longrightarrow> ?thesis"
    using le_trans [OF length_hm_remove_le [of i "wt_flows t"]] by (auto simp: wt_inv_def wt_remove_def hm)
qed (auto simp: wt_inv_def wt_insert_def wt_get_mut_def wt_clear_def hm split: option.splits if_splits)

lemma wt_max_exec: "wt_max_entries (wt_exec op t) = wt_max_entries t"
  by (cases op) (auto simp: wt_insert_def wt_get_mut_def wt_remove_def wt_expire_idle_def wt_clear_def Let_def split: option.splits)

lemma wt_run: "wt_inv t \<Longrightarrow> wt_inv (fold wt_exec ops t) \<and> wt_max_entries (fold wt_exec ops t) = wt_max_entries t"
  by (induction ops arbitrary: t) (simp_all add: wt_inv_exec wt_max_exec)

lemma wt_exec_flow:
  assumes "wt_inv t" and "wt_get i t = Some f" and "wt_get i (wt_exec op t) = Some f'"
  shows "f' = f \<or> (\<exists>fop. f' = wf_exec fop f)"
proof (cases op)
  case (Wt_Expire now timeout)
  then show ?thesis
    using assms wfp_tab.get_sweep [OF assms(1), of i "(now, timeout)"] by (simp add: wt_get_def split: if_splits)
qed (use assms in \<open>auto simp: wt_get_def wt_insert_def wt_get_mut_def wt_remove_def wt_clear_def hm split: option.splits if_splits\<close>)

text \<open>
  WFP flows. After any history of table operations the table holds at most \<open>max_entries\<close>
  flows, each under its own identifier; a further operation takes a stored flow only along the
  legal state edges, and a flow that is closed or aborted never changes again while it is stored.
\<close>
lemma wfp_flows_legal:
  assumes "wfp_table_new m = Inr t0" and "wt_get i (fold wt_exec ops t0) = Some f"
    and "wt_get i (wt_exec op (fold wt_exec ops t0)) = Some f'"
  shows "length (wt_flows (fold wt_exec ops t0)) \<le> m \<and> wf_flow_id f = i \<and>
    wf_can_transition_to\<^sup>*\<^sup>* (wf_state f) (wf_state f') \<and> (wf_is_terminal (wf_state f) \<longrightarrow> f' = f)"
proof -
  have t0: "wt_inv t0" "wt_max_entries t0 = m"
    using assms(1) by (auto simp: wfp_table_new_def wt_inv_def split: if_splits)
  then have inv: "wt_inv (fold wt_exec ops t0)" "wt_max_entries (fold wt_exec ops t0) = m"
    using wt_run [of t0 ops] by simp_all
  from wt_exec_flow [OF inv(1) assms(2,3)] show ?thesis
    using inv assms(2) wf_exec_path wf_exec_terminal by (auto simp: wt_inv_def wt_get_def)
qed

definition demo_wfp_table :: wfp_flow_table where
  "demo_wfp_table = \<lparr> wt_flows = [], wt_max_entries = 2 \<rparr>"

definition demo_wfp_flow :: wfp_flow where
  "demo_wfp_flow = \<lparr> wf_flow_id = 7, wf_filter_id = None, wf_process_id = None, wf_local_address = None,
     wf_remote_address = None, wf_local_port = None, wf_remote_port = None, wf_protocol = 6,
     wf_state = Wf_New, wf_packet_count = 0, wf_byte_count = 0, wf_created_at_ns = 1, wf_last_seen_ns = 1 \<rparr>"

lemma demo_wfp_facts:
  "wfp_table_new 2 = Inr demo_wfp_table" "wfp_flow_new 7 6 1 = Inr demo_wfp_flow"
  "wt_get 7 (fold wt_exec [Wt_Insert demo_wfp_flow, Wt_Update 7 Wf_Do_Abort] demo_wfp_table) =
     Some (demo_wfp_flow\<lparr> wf_state := Wf_Aborted \<rparr>)"
  "wt_get 7 (wt_exec (Wt_Update 7 (Wf_Do_Record 60 9))
     (fold wt_exec [Wt_Insert demo_wfp_flow, Wt_Update 7 Wf_Do_Abort] demo_wfp_table)) =
     Some (demo_wfp_flow\<lparr> wf_state := Wf_Aborted \<rparr>)"
  by (simp_all add: wfp_table_new_def demo_wfp_table_def wfp_flow_new_def demo_wfp_flow_def wt_insert_def
      wt_get_mut_def wt_get_def wf_abort_def wf_transition_def wf_is_terminal_def wf_can_transition_to_def
      wf_record_packet_def hm)

theorem wfp_flows_legal_witness:
  "\<exists>f f'. wt_get 7 (fold wt_exec [Wt_Insert demo_wfp_flow, Wt_Update 7 Wf_Do_Abort] demo_wfp_table) = Some f \<and>
     wf_state f = Wf_Aborted \<and>
     wt_get 7 (wt_exec (Wt_Update 7 (Wf_Do_Record 60 9))
       (fold wt_exec [Wt_Insert demo_wfp_flow, Wt_Update 7 Wf_Do_Abort] demo_wfp_table)) = Some f' \<and> f' = f"
  using demo_wfp_facts(3,4) wfp_flows_legal [OF demo_wfp_facts(1,3,4)] by (simp add: wf_is_terminal_def)

end
