(* ===== verification/Wfp_Filter.thy ===== *)
theory Wfp_Filter
  imports Wfp_Flow Core_Text "HOL-Library.Multiset" "HOL-Library.Product_Lexorder"
begin

text \<open>
  The Windows Filtering Platform backend, second part: the engine session
  (\<open>crates/backend-wfp/src/engine.rs\<close> and \<open>management.rs\<close>), the filters with their native form
  (\<open>filter.rs\<close>) and the layer names (\<open>layer_keys.rs\<close>), as compiled for Windows. The system calls
  are not under \<open>src\<close>: their replies (a status, a handle, a filter identifier) are arguments.
\<close>

subsection \<open>Native calls\<close>

definition wfp_native_error :: "engine_error_code \<Rightarrow> u32 \<Rightarrow> engine_error" where
  "wfp_native_error code status = Error_Backend code ''wfp'' (Some (sint status))"

text \<open>The reply of \<open>FwpmEngineOpen0\<close>: a status and the handle it stored.\<close>

definition open_native_engine :: "u32 \<times> usize \<Rightarrow> usize engine_result" where
  "open_native_engine reply =
     (if fst reply \<noteq> 0 then Inl (wfp_native_error EC_BackendInitializationFailed (fst reply))
      else if snd reply = 0 then Inl (wfp_error EC_InvalidHandle)
      else Inr (snd reply))"

definition close_native_engine :: "u32 \<Rightarrow> usize \<Rightarrow> unit engine_result" where
  "close_native_engine status handle =
     (if handle = 0 then Inl (wfp_error EC_InvalidHandle)
      else if status \<noteq> 0 then Inl (wfp_native_error EC_BackendShutdownFailed status)
      else Inr ())"

definition add_sublayer :: "u32 \<Rightarrow> usize \<Rightarrow> unit engine_result" where
  "add_sublayer status engine =
     (if engine = 0 then Inl (wfp_error EC_InvalidHandle)
      else if status = 0 \<or> status = 0x80320009 then Inr ()
      else Inl (wfp_native_error EC_BackendInitializationFailed status))"

definition remove_sublayer :: "u32 \<Rightarrow> usize \<Rightarrow> unit engine_result" where
  "remove_sublayer status engine =
     (if engine = 0 then Inr ()
      else if status = 0 \<or> status = 0x80320008 then Inr ()
      else Inl (wfp_native_error EC_BackendShutdownFailed status))"

subsection \<open>The engine session\<close>

datatype wfp_engine_state = We_Closed | We_Opening | We_Open | We_Degraded | We_Closing | We_Failed

definition we_is_open :: "wfp_engine_state \<Rightarrow> bool" where
  "we_is_open s \<longleftrightarrow> s \<in> {We_Open, We_Degraded}"

definition we_can_open :: "wfp_engine_state \<Rightarrow> bool" where
  "we_can_open s \<longleftrightarrow> s \<in> {We_Closed, We_Failed}"

definition we_can_close :: "wfp_engine_state \<Rightarrow> bool" where
  "we_can_close s \<longleftrightarrow> s \<in> {We_Open, We_Degraded, We_Failed}"

definition we_can_transition_to :: "wfp_engine_state \<Rightarrow> wfp_engine_state \<Rightarrow> bool" where
  "we_can_transition_to s t \<longleftrightarrow>
     (s, t) \<in> {(We_Closed, We_Opening), (We_Opening, We_Open), (We_Opening, We_Failed), (We_Opening, We_Closing),
       (We_Open, We_Degraded), (We_Open, We_Closing), (We_Open, We_Failed),
       (We_Degraded, We_Open), (We_Degraded, We_Closing), (We_Degraded, We_Failed),
       (We_Closing, We_Closed), (We_Closing, We_Failed), (We_Failed, We_Opening), (We_Failed, We_Closing)} \<or> s = t"

record wfp_engine =
  we_state :: wfp_engine_state
  we_native_handle :: "usize option"
  we_sublayer_installed :: bool

definition wfp_engine_new :: wfp_engine where
  "wfp_engine_new = \<lparr> we_state = We_Closed, we_native_handle = None, we_sublayer_installed = False \<rparr>"

definition we_transition :: "wfp_engine_state \<Rightarrow> wfp_engine \<Rightarrow> unit engine_result \<times> wfp_engine" where
  "we_transition next_state e =
     (if \<not> we_can_transition_to (we_state e) next_state then (Inl (wfp_error EC_InvalidStateTransition), e)
      else (Inr (), e\<lparr> we_state := next_state \<rparr>))"

text \<open>The calls an operation makes: a handle that was opened, and one passed to the close call.\<close>

datatype wfp_call = Engine_Opened usize | Engine_Close_Called usize

definition wfp_open :: "u32 \<times> usize \<Rightarrow> u32 \<Rightarrow> wfp_engine \<Rightarrow> unit engine_result \<times> wfp_engine \<times> wfp_call list" where
  "wfp_open reply sublayer_status e =
     (if \<not> we_can_open (we_state e) then (Inl (wfp_error EC_BackendAlreadyRunning), e, [])
      else case we_transition We_Opening e of
        (Inl err, e1) \<Rightarrow> (Inl err, e1, [])
      | (Inr _, e1) \<Rightarrow>
          (case open_native_engine reply of
             Inr handle \<Rightarrow>
               let e2 = e1\<lparr> we_native_handle := Some handle \<rparr> in
               (case add_sublayer sublayer_status handle of
                  Inl err \<Rightarrow>
                    (Inl (Error_Message EC_BackendInitializationFailed
                       (''WFP sublayer install failed: '' @ error_message err)),
                     e2\<lparr> we_native_handle := None, we_state := We_Failed \<rparr>, [Engine_Opened handle, Engine_Close_Called handle])
                | Inr _ \<Rightarrow>
                    (case we_transition We_Open (e2\<lparr> we_sublayer_installed := True \<rparr>) of
                       (r, e3) \<Rightarrow> (r, e3, [Engine_Opened handle])))
           | Inl err \<Rightarrow>
               (Inl err, e1\<lparr> we_native_handle := None, we_sublayer_installed := False, we_state := We_Failed \<rparr>, [])))"

definition wfp_close :: "u32 \<Rightarrow> u32 \<Rightarrow> wfp_engine \<Rightarrow> unit engine_result \<times> wfp_engine \<times> wfp_call list" where
  "wfp_close sublayer_status close_status e =
     (if we_state e = We_Closed then (Inr (), e, [])
      else if \<not> we_can_close (we_state e) then (Inl (wfp_error EC_InvalidStateTransition), e, [])
      else case we_transition We_Closing e of
        (Inl err, e1) \<Rightarrow> (Inl err, e1, [])
      | (Inr _, e1) \<Rightarrow>
          let e2 = e1\<lparr> we_native_handle := None, we_sublayer_installed := False \<rparr>;
              sub_error = (case we_native_handle e1 of
                 Some handle \<Rightarrow>
                   if we_sublayer_installed e1 then
                     (case remove_sublayer sublayer_status handle of
                        Inl err \<Rightarrow> Some (Error_Message EC_BackendShutdownFailed
                          (''WFP sublayer removal failed: '' @ error_message err))
                      | Inr _ \<Rightarrow> None)
                   else None
               | None \<Rightarrow> None);
              first_error = (case we_native_handle e1 of
                 Some handle \<Rightarrow>
                   (case close_native_engine close_status handle of
                      Inl err \<Rightarrow> if sub_error = None then Some err else sub_error
                    | Inr _ \<Rightarrow> sub_error)
               | None \<Rightarrow> sub_error);
              calls = (case we_native_handle e1 of Some handle \<Rightarrow> [Engine_Close_Called handle] | None \<Rightarrow> []) in
          case first_error of
            Some err \<Rightarrow> (Inl err, e2\<lparr> we_state := We_Failed \<rparr>, calls)
          | None \<Rightarrow> (case we_transition We_Closed e2 of (r, e3) \<Rightarrow> (r, e3, calls)))"

definition wfp_mark_degraded :: "wfp_engine \<Rightarrow> unit engine_result \<times> wfp_engine" where
  "wfp_mark_degraded = we_transition We_Degraded"

definition wfp_mark_recovered :: "wfp_engine \<Rightarrow> unit engine_result \<times> wfp_engine" where
  "wfp_mark_recovered = we_transition We_Open"

definition wfp_mark_failed :: "wfp_engine \<Rightarrow> wfp_engine" where
  "wfp_mark_failed e = e\<lparr> we_native_handle := None, we_sublayer_installed := False, we_state := We_Failed \<rparr>"

definition wfp_require_open :: "wfp_engine \<Rightarrow> usize engine_result" where
  "wfp_require_open e =
     (if \<not> we_is_open (we_state e) then Inl (wfp_error EC_BackendNotRunning)
      else case we_native_handle e of Some h \<Rightarrow> Inr h | None \<Rightarrow> Inl (wfp_error EC_InvalidHandle))"

subsection \<open>Sessions\<close>

datatype we_op = We_Do_Open "u32 \<times> usize" u32 | We_Do_Close u32 u32 | We_Do_Degrade | We_Do_Recover | We_Do_Fail

record wfp_session =
  ws_engine :: wfp_engine
  ws_opened :: "usize multiset"
  ws_closed :: "usize multiset"
  ws_dropped :: "usize multiset"

definition opened_in :: "wfp_call list \<Rightarrow> usize multiset" where
  "opened_in calls = mset (List.map_filter (\<lambda>c. case c of Engine_Opened h \<Rightarrow> Some h | _ \<Rightarrow> None) calls)"

definition closed_in :: "wfp_call list \<Rightarrow> usize multiset" where
  "closed_in calls = mset (List.map_filter (\<lambda>c. case c of Engine_Close_Called h \<Rightarrow> Some h | _ \<Rightarrow> None) calls)"

definition log_calls :: "wfp_engine \<times> wfp_call list \<Rightarrow> wfp_session \<Rightarrow> wfp_session" where
  "log_calls ec s = s\<lparr> ws_engine := fst ec, ws_opened := ws_opened s + opened_in (snd ec),
     ws_closed := ws_closed s + closed_in (snd ec) \<rparr>"

definition held :: "wfp_engine \<Rightarrow> usize multiset" where
  "held e = (case we_native_handle e of Some h \<Rightarrow> {#h#} | None \<Rightarrow> {#})"

primrec ws_exec :: "we_op \<Rightarrow> wfp_session \<Rightarrow> wfp_session" where
  "ws_exec (We_Do_Open reply sub) s = log_calls (snd (wfp_open reply sub (ws_engine s))) s"
| "ws_exec (We_Do_Close sub st) s = log_calls (snd (wfp_close sub st (ws_engine s))) s"
| "ws_exec We_Do_Degrade s = s\<lparr> ws_engine := snd (wfp_mark_degraded (ws_engine s)) \<rparr>"
| "ws_exec We_Do_Recover s = s\<lparr> ws_engine := snd (wfp_mark_recovered (ws_engine s)) \<rparr>"
| "ws_exec We_Do_Fail s = s\<lparr> ws_engine := wfp_mark_failed (ws_engine s), ws_dropped := ws_dropped s + held (ws_engine s) \<rparr>"

definition ws_init :: wfp_session where
  "ws_init = \<lparr> ws_engine = wfp_engine_new, ws_opened = {#}, ws_closed = {#}, ws_dropped = {#} \<rparr>"

definition we_inv :: "wfp_engine \<Rightarrow> bool" where
  "we_inv e \<longleftrightarrow> we_state e \<in> {We_Closed, We_Open, We_Degraded, We_Failed} \<and>
     (we_is_open (we_state e) \<longleftrightarrow> we_native_handle e \<noteq> None) \<and>
     (we_sublayer_installed e \<longleftrightarrow> we_native_handle e \<noteq> None)"

definition ws_inv :: "wfp_session \<Rightarrow> bool" where
  "ws_inv s \<longleftrightarrow> we_inv (ws_engine s) \<and>
     ws_opened s = ws_closed s + ws_dropped s + held (ws_engine s)"

lemma opened_closed_simps [simp]:
  "opened_in [] = {#}" "closed_in [] = {#}"
  "opened_in (Engine_Opened h # cs) = add_mset h (opened_in cs)" "closed_in (Engine_Opened h # cs) = closed_in cs"
  "opened_in (Engine_Close_Called h # cs) = opened_in cs" "closed_in (Engine_Close_Called h # cs) = add_mset h (closed_in cs)"
  by (simp_all add: opened_in_def closed_in_def map_filter_simps)

lemma wfp_open_inv:
  assumes "we_inv e" and "wfp_open reply sub e = (r, e', calls)"
  shows "we_inv e' \<and> opened_in calls + held e = closed_in calls + held e'"
proof (cases "we_can_open (we_state e)")
  case False
  then show ?thesis using assms by (auto simp: wfp_open_def)
next
  case True
  then have state: "we_state e = We_Closed \<or> we_state e = We_Failed" "we_native_handle e = None" "\<not> we_sublayer_installed e"
    using assms(1) by (auto simp: we_can_open_def we_inv_def we_is_open_def)
  then have "we_transition We_Opening e = (Inr (), e\<lparr> we_state := We_Opening \<rparr>)"
    by (auto simp: we_transition_def we_can_transition_to_def)
  then show ?thesis
    using assms True state
    by (auto simp: wfp_open_def we_inv_def held_def we_is_open_def Let_def we_transition_def we_can_transition_to_def
        split: sum.splits)
qed

lemma wfp_close_inv:
  assumes "we_inv e" and "wfp_close sub st e = (r, e', calls)"
  shows "we_inv e' \<and> opened_in calls + held e = closed_in calls + held e'"
proof (cases "we_state e = We_Closed \<or> \<not> we_can_close (we_state e)")
  case True
  then show ?thesis using assms by (auto simp: wfp_close_def split: if_splits)
next
  case False
  then have tr: "we_transition We_Closing e = (Inr (), e\<lparr> we_state := We_Closing \<rparr>)"
    by (auto simp: we_transition_def we_can_transition_to_def we_can_close_def)
  have fin: "we_transition We_Closed (e\<lparr> we_state := We_Closing, we_native_handle := None, we_sublayer_installed := False \<rparr>) =
      (Inr (), e\<lparr> we_state := We_Closed, we_native_handle := None, we_sublayer_installed := False \<rparr>)"
    by (simp add: we_transition_def we_can_transition_to_def)
  have "e' = e\<lparr> we_state := We_Closed, we_native_handle := None, we_sublayer_installed := False \<rparr> \<or>
      e' = e\<lparr> we_state := We_Failed, we_native_handle := None, we_sublayer_installed := False \<rparr>"
    and "calls = (case we_native_handle e of Some h \<Rightarrow> [Engine_Close_Called h] | None \<Rightarrow> [])"
    using assms(2) False tr fin by (auto simp: wfp_close_def Let_def split: option.splits)
  then show ?thesis by (auto simp: we_inv_def held_def we_is_open_def split: option.splits)
qed

lemma ws_inv_exec: "ws_inv s \<Longrightarrow> ws_inv (ws_exec op s)"
proof (cases op)
  case (We_Do_Open reply sub)
  obtain r e' calls where "wfp_open reply sub (ws_engine s) = (r, e', calls)" by (rule prod_cases3)
  moreover assume "ws_inv s"
  ultimately show ?thesis
    using wfp_open_inv [of "ws_engine s" reply sub r e' calls] We_Do_Open
    by (simp add: ws_inv_def log_calls_def) (metis add.assoc add.commute)
next
  case (We_Do_Close sub st)
  obtain r e' calls where "wfp_close sub st (ws_engine s) = (r, e', calls)" by (rule prod_cases3)
  moreover assume "ws_inv s"
  ultimately show ?thesis
    using wfp_close_inv [of "ws_engine s" sub st r e' calls] We_Do_Close
    by (simp add: ws_inv_def log_calls_def) (metis add.assoc add.commute)
qed (auto simp: ws_inv_def we_inv_def held_def wfp_mark_degraded_def wfp_mark_recovered_def wfp_mark_failed_def
    we_transition_def we_can_transition_to_def we_is_open_def split: option.splits if_splits)

text \<open>
  the WFP session. After any sequence of calls, whatever the system answers, the session is
  closed, open, degraded or failed; it holds a native handle, and has its sublayer installed,
  exactly if it is open or degraded, and \<open>require_open\<close> returns that handle; and every handle it
  ever opened has been passed to the close call exactly once, is the one it holds, or was dropped
  by \<open>mark_failed\<close>.
\<close>
lemma wfp_session_accounts_for_handles:
  "let s = fold ws_exec ops ws_init in
   we_inv (ws_engine s) \<and>
   (case wfp_require_open (ws_engine s) of
      Inr h \<Rightarrow> we_native_handle (ws_engine s) = Some h \<and> we_sublayer_installed (ws_engine s)
    | Inl e \<Rightarrow> we_native_handle (ws_engine s) = None \<and> e = wfp_error EC_BackendNotRunning) \<and>
   ws_opened s = ws_closed s + ws_dropped s + held (ws_engine s)"
proof -
  have "ws_inv s \<Longrightarrow> ws_inv (fold ws_exec ops s)" for s by (induction ops arbitrary: s) (simp_all add: ws_inv_exec)
  moreover have "ws_inv ws_init" by (simp add: ws_inv_def ws_init_def we_inv_def wfp_engine_new_def held_def we_is_open_def)
  ultimately have "ws_inv (fold ws_exec ops ws_init)" by blast
  then show ?thesis
    by (auto simp: Let_def ws_inv_def we_inv_def wfp_require_open_def split: option.splits)
qed

text \<open>\<open>mark_failed\<close> forgets an open handle without closing it.\<close>

lemma mark_failed_leaks_handle:
  "ws_dropped (fold ws_exec [We_Do_Open (0, 42) 0, We_Do_Fail, We_Do_Close 0 0] ws_init) = {#42#}"
  by (simp add: ws_init_def wfp_engine_new_def wfp_open_def wfp_close_def we_can_open_def we_transition_def
      we_can_transition_to_def open_native_engine_def add_sublayer_def log_calls_def wfp_mark_failed_def held_def
      we_can_close_def Let_def)


subsection \<open>Filters\<close>

datatype wfp_action = Wfp_Permit | Wfp_Block | Wfp_Continue

definition wfp_action_is_terminal :: "wfp_action \<Rightarrow> bool" where
  "wfp_action_is_terminal a \<longleftrightarrow> a \<in> {Wfp_Permit, Wfp_Block}"

definition wfp_action_try_from :: "u8 \<Rightarrow> wfp_action engine_result" where
  "wfp_action_try_from b =
     (if b = 0 then Inr Wfp_Permit else if b = 1 then Inr Wfp_Block else if b = 2 then Inr Wfp_Continue
      else Inl (Error_Code EC_InvalidArgument))"

record wfp_filter_condition =
  fc_field :: string
  fc_value :: "byte list"
  fc_mask :: "byte list option"

definition filter_condition_new :: "string \<Rightarrow> byte list \<Rightarrow> wfp_filter_condition engine_result" where
  "filter_condition_new field bytes =
     (if trim field = [] \<or> bytes = [] then Inl (Error_Code EC_InvalidArgument)
      else Inr \<lparr> fc_field = field, fc_value = bytes, fc_mask = None \<rparr>)"

definition condition_with_mask :: "byte list \<Rightarrow> wfp_filter_condition \<Rightarrow> wfp_filter_condition engine_result" where
  "condition_with_mask m c =
     (if length m \<noteq> length (fc_value c) then Inl (Error_Code EC_InvalidArgument)
      else Inr (c\<lparr> fc_mask := Some m \<rparr>))"

definition condition_matches :: "wfp_filter_condition \<Rightarrow> byte list \<Rightarrow> bool" where
  "condition_matches c data =
     (if length data < length (fc_value c) then False
      else case fc_mask c of
        Some ms \<Rightarrow> list_all (\<lambda>((e, m), a). a AND m = e AND m) (zip (zip (fc_value c) ms) data)
      | None \<Rightarrow> take (length (fc_value c)) data = fc_value c)"

record wfp_filter =
  wfl_id :: u64
  wfl_name :: string
  wfl_layer :: string
  wfl_action :: wfp_action
  wfl_conditions :: "wfp_filter_condition list"
  wfl_enabled :: bool
  wfl_weight :: u64
  wfl_kernel_filter_id :: u64

definition wfp_filter_new :: "u64 \<Rightarrow> string \<Rightarrow> string \<Rightarrow> wfp_action \<Rightarrow> wfp_filter engine_result" where
  "wfp_filter_new i name layer action =
     (if i = 0 then Inl (Error_Code EC_InvalidArgument)
      else if trim name = [] \<or> trim layer = [] then Inl (Error_Code EC_InvalidArgument)
      else Inr \<lparr> wfl_id = i, wfl_name = name, wfl_layer = layer, wfl_action = action, wfl_conditions = [],
        wfl_enabled = True, wfl_weight = 0, wfl_kernel_filter_id = 0 \<rparr>)"

definition add_condition :: "wfp_filter_condition \<Rightarrow> wfp_filter \<Rightarrow> wfp_filter" where
  "add_condition c f = f\<lparr> wfl_conditions := wfl_conditions f @ [c] \<rparr>"

definition wfp_filter_matches :: "wfp_filter \<Rightarrow> byte list \<Rightarrow> bool" where
  "wfp_filter_matches f p \<longleftrightarrow> wfl_enabled f \<and> list_all (\<lambda>c. condition_matches c p) (wfl_conditions f)"

definition wfp_filter_evaluate :: "byte list \<Rightarrow> wfp_filter \<Rightarrow> wfp_action option" where
  "wfp_filter_evaluate p f = (if wfp_filter_matches f p then Some (wfl_action f) else None)"

subsection \<open>Native conditions and layers\<close>

datatype condition_key = Ck_Ip_Protocol | Ck_Local_Port | Ck_Remote_Port | Ck_Direction
  | Ck_Local_Address | Ck_Remote_Address | Ck_Local_Address_V4 | Ck_Remote_Address_V4
  | Ck_Local_Address_V6 | Ck_Remote_Address_V6

datatype native_value = Nv_Uint8 u8 | Nv_Uint16 u16 | Nv_Uint32 u32 | Nv_V4 u32 u32 | Nv_V6 "byte list" u8

text \<open>\<open>from_ne_bytes\<close> on the little-endian targets of Windows.\<close>

definition le16 :: "byte list \<Rightarrow> u16" where
  "le16 bs = ucast (bs ! 0) + 256 * ucast (bs ! 1)"

definition le32 :: "byte list \<Rightarrow> u32" where
  "le32 bs = ucast (bs ! 0) + 256 * ucast (bs ! 1) + 65536 * ucast (bs ! 2) + 16777216 * ucast (bs ! 3)"

definition byte_bits :: "byte \<Rightarrow> bool list" where
  "byte_bits b = map (bit b) (rev [0..<8])"

fun prefix_loop :: "bool list \<Rightarrow> u8 \<Rightarrow> bool \<Rightarrow> u8 option" where
  "prefix_loop [] n z = Some n"
| "prefix_loop (b # bs) n z =
     (if b then if z then None else prefix_loop bs (n + 1) z else prefix_loop bs n True)"

definition prefix_of_mask :: "byte list \<Rightarrow> u8 option" where
  "prefix_of_mask m = prefix_loop (concat (map byte_bits m)) 0 False"

definition native_address :: "condition_key \<Rightarrow> wfp_filter_condition \<Rightarrow> (condition_key \<times> native_value) engine_result" where
  "native_address k c =
     (if length (fc_value c) = 4 then
        let m = (case fc_mask c of Some m \<Rightarrow> m | None \<Rightarrow> replicate 4 0xff) in
        if length m \<noteq> 4 then Inl (Error_Code EC_InvalidArgument)
        else Inr (k, Nv_V4 (le32 (fc_value c)) (le32 m))
      else if length (fc_value c) = 16 then
        let m = (case fc_mask c of Some m \<Rightarrow> m | None \<Rightarrow> replicate 16 0xff) in
        if length m \<noteq> 16 then Inl (Error_Code EC_InvalidArgument)
        else (case prefix_of_mask m of
           None \<Rightarrow> Inl (Error_Code EC_InvalidArgument)
         | Some n \<Rightarrow> Inr (k, Nv_V6 (fc_value c) n))
      else Inl (Error_Code EC_InvalidArgument))"

definition from_condition :: "wfp_filter_condition \<Rightarrow> (condition_key \<times> native_value) engine_result" where
  "from_condition c =
     (let n = to_ascii_lowercase (trim (fc_field c)); bytes = fc_value c in
      if n \<in> {''protocol'', ''ip_protocol''} then
        if length bytes \<noteq> 1 then Inl (Error_Code EC_InvalidArgument) else Inr (Ck_Ip_Protocol, Nv_Uint8 (bytes ! 0))
      else if n \<in> {''local_port'', ''ip_local_port''} then
        if length bytes \<noteq> 2 then Inl (Error_Code EC_InvalidArgument) else Inr (Ck_Local_Port, Nv_Uint16 (le16 bytes))
      else if n \<in> {''remote_port'', ''ip_remote_port''} then
        if length bytes \<noteq> 2 then Inl (Error_Code EC_InvalidArgument) else Inr (Ck_Remote_Port, Nv_Uint16 (le16 bytes))
      else if n = ''direction'' then
        if length bytes \<noteq> 1 then Inl (Error_Code EC_InvalidArgument) else Inr (Ck_Direction, Nv_Uint32 (ucast (bytes ! 0)))
      else if n \<in> {''local_address'', ''ip_local_address''} then native_address Ck_Local_Address c
      else if n \<in> {''remote_address'', ''ip_remote_address''} then native_address Ck_Remote_Address c
      else if n \<in> {''local_address_v4'', ''ip_local_address_v4''} then native_address Ck_Local_Address_V4 c
      else if n \<in> {''remote_address_v4'', ''ip_remote_address_v4''} then native_address Ck_Remote_Address_V4 c
      else if n \<in> {''local_address_v6'', ''ip_local_address_v6''} then native_address Ck_Local_Address_V6 c
      else if n \<in> {''remote_address_v6'', ''ip_remote_address_v6''} then native_address Ck_Remote_Address_V6 c
      else Inl (Error_Message EC_InvalidArgument ''unsupported WFP filter condition''))"

datatype wfp_layer = Ale_Auth_Connect_V4 | Ale_Auth_Connect_V6 | Ale_Auth_Recv_Accept_V4 | Ale_Auth_Recv_Accept_V6
  | Datagram_Data_V4 | Datagram_Data_V6 | Inbound_Transport_V4 | Inbound_Transport_V6
  | Outbound_Transport_V4 | Outbound_Transport_V6 | Inbound_Ippacket_V4 | Inbound_Ippacket_V6
  | Outbound_Ippacket_V4 | Outbound_Ippacket_V6 | Ipforward_V4 | Ipforward_V6 | Stream_V4 | Stream_V6

definition layer_table :: "(string \<times> wfp_layer) list" where
  "layer_table =
     [(''ale_auth_connect_v4'', Ale_Auth_Connect_V4), (''ale-auth-connect-v4'', Ale_Auth_Connect_V4),
      (''ale_auth_connect_v6'', Ale_Auth_Connect_V6), (''ale-auth-connect-v6'', Ale_Auth_Connect_V6),
      (''ale_auth_recv_accept_v4'', Ale_Auth_Recv_Accept_V4), (''ale-auth-recv-accept-v4'', Ale_Auth_Recv_Accept_V4),
      (''ale_auth_recv_accept_v6'', Ale_Auth_Recv_Accept_V6), (''ale-auth-recv-accept-v6'', Ale_Auth_Recv_Accept_V6),
      (''datagram_data_v4'', Datagram_Data_V4), (''datagram-data-v4'', Datagram_Data_V4),
      (''datagram_data_v6'', Datagram_Data_V6), (''datagram-data-v6'', Datagram_Data_V6),
      (''inbound_transport_v4'', Inbound_Transport_V4), (''inbound-transport-v4'', Inbound_Transport_V4),
      (''inbound_transport_v6'', Inbound_Transport_V6), (''inbound-transport-v6'', Inbound_Transport_V6),
      (''outbound_transport_v4'', Outbound_Transport_V4), (''outbound-transport-v4'', Outbound_Transport_V4),
      (''outbound_transport_v6'', Outbound_Transport_V6), (''outbound-transport-v6'', Outbound_Transport_V6),
      (''inbound_ippacket_v4'', Inbound_Ippacket_V4), (''inbound-ippacket-v4'', Inbound_Ippacket_V4),
      (''inbound_ippacket_v6'', Inbound_Ippacket_V6), (''inbound-ippacket-v6'', Inbound_Ippacket_V6),
      (''outbound_ippacket_v4'', Outbound_Ippacket_V4), (''outbound-ippacket-v4'', Outbound_Ippacket_V4),
      (''outbound_ippacket_v6'', Outbound_Ippacket_V6), (''outbound-ippacket-v6'', Outbound_Ippacket_V6),
      (''ipforward_v4'', Ipforward_V4), (''ip-forward-v4'', Ipforward_V4),
      (''ipforward_v6'', Ipforward_V6), (''ip-forward-v6'', Ipforward_V6),
      (''stream_v4'', Stream_V4), (''stream-v4'', Stream_V4),
      (''stream_v6'', Stream_V6), (''stream-v6'', Stream_V6)]"

definition resolve_layer :: "string \<Rightarrow> wfp_layer option" where
  "resolve_layer name = map_of layer_table (to_ascii_lowercase (trim name))"

subsection \<open>The filter table\<close>

record native_filter =
  nf_name :: string
  nf_enabled :: bool
  nf_layer :: wfp_layer
  nf_weight :: u64
  nf_conditions :: "(condition_key \<times> native_value) list"
  nf_action :: wfp_action

primrec from_conditions :: "wfp_filter_condition list \<Rightarrow> (condition_key \<times> native_value) list engine_result" where
  "from_conditions [] = Inr []"
| "from_conditions (c # cs) = (case from_condition c of
      Inl e \<Rightarrow> Inl e
    | Inr n \<Rightarrow> (case from_conditions cs of Inl e \<Rightarrow> Inl e | Inr ns \<Rightarrow> Inr (n # ns)))"

definition native_form :: "wfp_filter \<Rightarrow> native_filter engine_result" where
  "native_form f = (case resolve_layer (wfl_layer f) of
      None \<Rightarrow> Inl (Error_Message EC_InvalidArgument ''unknown WFP layer'')
    | Some layer \<Rightarrow> (case from_conditions (wfl_conditions f) of
        Inl e \<Rightarrow> Inl e
      | Inr conditions \<Rightarrow> Inr \<lparr> nf_name = wfl_name f, nf_enabled = wfl_enabled f, nf_layer = layer,
          nf_weight = wfl_weight f, nf_conditions = conditions, nf_action = wfl_action f \<rparr>))"

text \<open>
  The kernel is an argument: \<open>kernel_add\<close> answers \<open>FwpmFilterAdd0\<close> with a status and an
  identifier; the identifiers passed to \<open>FwpmFilterDeleteById0\<close> are collected.
\<close>

record wfp_filter_table =
  wft_filters :: "wfp_filter list"
  wft_engine_handle :: "usize option"
  wft_poisoned :: bool
  wft_added :: "u64 list"
  wft_deleted :: "u64 list"

definition wfp_filter_table_new :: wfp_filter_table where
  "wfp_filter_table_new = \<lparr> wft_filters = [], wft_engine_handle = None, wft_poisoned = False,
     wft_added = [], wft_deleted = [] \<rparr>"

definition wft_initialize :: "u32 \<times> usize \<Rightarrow> u32 \<Rightarrow> wfp_filter_table \<Rightarrow> unit engine_result \<times> wfp_filter_table" where
  "wft_initialize reply sublayer_status t =
     (if wft_poisoned t then (Inl (wfp_error EC_InvalidStateTransition), t)
      else if wft_engine_handle t \<noteq> None then (Inl (Error_Code EC_AlreadyInitialized), t)
      else if fst reply \<noteq> 0 \<or> snd reply = 0 then
        (Inl (wfp_native_error EC_BackendInitializationFailed (fst reply)), t)
      else case add_sublayer sublayer_status (snd reply) of
        Inl e \<Rightarrow> (Inl e, t)
      | Inr _ \<Rightarrow> (Inr (), t\<lparr> wft_engine_handle := Some (snd reply) \<rparr>))"

definition register_in_kernel :: "(native_filter \<Rightarrow> u32 \<times> u64) \<Rightarrow> wfp_filter \<Rightarrow> u64 engine_result" where
  "register_in_kernel kernel_add f = (case native_form f of
      Inl e \<Rightarrow> Inl e
    | Inr native \<Rightarrow> (case kernel_add native of (status, i) \<Rightarrow>
        if status \<noteq> 0 then Inl (wfp_native_error EC_BackendStartFailed status) else Inr i))"

text \<open>Descending weights, then ascending identifiers; the sort is stable.\<close>

definition filter_rank :: "wfp_filter \<Rightarrow> u64 \<times> u64" where
  "filter_rank f = (- 1 - wfl_weight f, wfl_id f)"

definition wft_insert ::
  "(native_filter \<Rightarrow> u32 \<times> u64) \<Rightarrow> wfp_filter \<Rightarrow> wfp_filter_table \<Rightarrow> unit engine_result \<times> wfp_filter_table" where
  "wft_insert kernel_add f t =
     (if list_ex (\<lambda>g. wfl_id g = wfl_id f) (wft_filters t) then (Inl (Error_Code EC_InvalidArgument), t)
      else if wft_poisoned t then (Inl (wfp_error EC_InvalidStateTransition), t)
      else if wft_engine_handle t = None then (Inl (Error_Code EC_NotInitialized), t)
      else case register_in_kernel kernel_add f of
        Inl e \<Rightarrow> (Inl e, t)
      | Inr kid \<Rightarrow> (Inr (), t\<lparr> wft_filters := sort_key filter_rank (wft_filters t @ [f\<lparr> wfl_kernel_filter_id := kid \<rparr>]),
          wft_added := wft_added t @ [kid] \<rparr>))"

fun remove_filter :: "u64 \<Rightarrow> wfp_filter list \<Rightarrow> wfp_filter option \<times> wfp_filter list" where
  "remove_filter i [] = (None, [])"
| "remove_filter i (f # fs) =
     (if wfl_id f = i then (Some f, fs) else case remove_filter i fs of (r, fs') \<Rightarrow> (r, f # fs'))"

definition wft_remove :: "u64 \<Rightarrow> wfp_filter_table \<Rightarrow> wfp_filter option \<times> wfp_filter_table" where
  "wft_remove i t = (case remove_filter i (wft_filters t) of
      (None, _) \<Rightarrow> (None, t)
    | (Some f, fs) \<Rightarrow> (Some f, t\<lparr> wft_filters := fs,
        wft_deleted := if wfl_kernel_filter_id f \<noteq> 0 \<and> \<not> wft_poisoned t \<and> wft_engine_handle t \<noteq> None
          then wft_deleted t @ [wfl_kernel_filter_id f] else wft_deleted t \<rparr>))"

definition wft_get :: "u64 \<Rightarrow> wfp_filter_table \<Rightarrow> wfp_filter option" where
  "wft_get i t = List.find (\<lambda>f. wfl_id f = i) (wft_filters t)"

definition wft_clear :: "wfp_filter_table \<Rightarrow> wfp_filter_table" where
  "wft_clear t = fold (\<lambda>i s. snd (wft_remove i s)) (map wfl_id (wft_filters t)) t"

definition wft_shutdown :: "u32 \<Rightarrow> wfp_filter_table \<Rightarrow> unit engine_result \<times> wfp_filter_table" where
  "wft_shutdown close_status t =
     (let t1 = wft_clear t in
      if wft_poisoned t1 then (Inl (wfp_error EC_InvalidStateTransition), t1)
      else case wft_engine_handle t1 of
        None \<Rightarrow> (Inr (), t1)
      | Some h \<Rightarrow>
          let t2 = t1\<lparr> wft_engine_handle := None \<rparr> in
          if close_status \<noteq> 0 then (Inl (wfp_native_error EC_BackendShutdownFailed close_status), t2)
          else (Inr (), t2))"

fun find_map :: "('a \<Rightarrow> 'b option) \<Rightarrow> 'a list \<Rightarrow> 'b option" where
  "find_map g [] = None"
| "find_map g (x # xs) = (case g x of Some y \<Rightarrow> Some y | None \<Rightarrow> find_map g xs)"

definition wft_evaluate :: "byte list \<Rightarrow> wfp_filter_table \<Rightarrow> wfp_action option" where
  "wft_evaluate p t = find_map (wfp_filter_evaluate p) (wft_filters t)"


subsection \<open>What the filter table guarantees\<close>

datatype wft_op = Wft_Initialize "u32 \<times> usize" u32 | Wft_Insert "u32 \<times> u64" wfp_filter | Wft_Remove u64
  | Wft_Clear | Wft_Shutdown u32

primrec wft_exec :: "wft_op \<Rightarrow> wfp_filter_table \<Rightarrow> wfp_filter_table" where
  "wft_exec (Wft_Initialize reply sub) t = snd (wft_initialize reply sub t)"
| "wft_exec (Wft_Insert reply f) t = snd (wft_insert (\<lambda>_. reply) f t)"
| "wft_exec (Wft_Remove i) t = snd (wft_remove i t)"
| "wft_exec Wft_Clear t = wft_clear t"
| "wft_exec (Wft_Shutdown st) t = snd (wft_shutdown st t)"

definition kernel_ids :: "wfp_filter list \<Rightarrow> u64 multiset" where
  "kernel_ids fs = filter_mset (\<lambda>i. i \<noteq> 0) (mset (map wfl_kernel_filter_id fs))"

definition wft_inv :: "wfp_filter_table \<Rightarrow> bool" where
  "wft_inv t \<longleftrightarrow> sorted (map filter_rank (wft_filters t)) \<and> distinct (map wfl_id (wft_filters t)) \<and>
     \<not> wft_poisoned t \<and> (wft_filters t \<noteq> [] \<longrightarrow> wft_engine_handle t \<noteq> None) \<and>
     filter_mset (\<lambda>i. i \<noteq> 0) (mset (wft_added t)) = mset (wft_deleted t) + kernel_ids (wft_filters t)"

lemma remove_filter_None: "remove_filter i fs = (None, fs') \<Longrightarrow> i \<notin> wfl_id ` set fs"
  by (induction fs arbitrary: fs') (auto split: if_splits prod.splits)

lemma remove_filter_Some:
  "remove_filter i fs = (Some f, fs') \<Longrightarrow> \<exists>xs ys. fs = xs @ f # ys \<and> fs' = xs @ ys \<and> wfl_id f = i"
proof (induction fs arbitrary: fs')
  case (Cons g fs)
  show ?case
  proof (cases "wfl_id g = i")
    case True
    then have "g # fs = [] @ f # fs'" "wfl_id f = i" using Cons.prems by auto
    then show ?thesis by (metis append_Nil)
  next
    case False
    then obtain gs where "remove_filter i fs = (Some f, gs)" "fs' = g # gs"
      using Cons.prems by (auto split: prod.splits)
    from Cons.IH [OF this(1)] this(2) show ?thesis by (metis append_Cons)
  qed
qed simp

lemma wft_remove_cases:
  obtains (absent) "wft_remove i t = (None, t)" "i \<notin> wfl_id ` set (wft_filters t)"
  | (present) f xs ys where "wft_filters t = xs @ f # ys" "wfl_id f = i"
      "fst (wft_remove i t) = Some f" "wft_filters (snd (wft_remove i t)) = xs @ ys"
proof (cases "remove_filter i (wft_filters t)")
  case (Pair r fs)
  show thesis
  proof (cases r)
    case None
    then show thesis using Pair remove_filter_None absent by (auto simp: wft_remove_def)
  next
    case (Some f)
    with Pair have rf: "remove_filter i (wft_filters t) = (Some f, fs)" by simp
    from remove_filter_Some [OF rf] obtain xs ys where "wft_filters t = xs @ f # ys" "fs = xs @ ys" "wfl_id f = i"
      by blast
    then show thesis using rf present [of xs f ys] by (simp add: wft_remove_def)
  qed
qed

lemma wft_remove_config:
  "wft_engine_handle (snd (wft_remove i t)) = wft_engine_handle t" "wft_poisoned (snd (wft_remove i t)) = wft_poisoned t"
  "wft_added (snd (wft_remove i t)) = wft_added t"
  by (auto simp: wft_remove_def split: prod.splits option.splits)

lemma wft_remove_deleted:
  "wft_deleted (snd (wft_remove i t)) = (case fst (wft_remove i t) of
     Some f \<Rightarrow> if wfl_kernel_filter_id f \<noteq> 0 \<and> \<not> wft_poisoned t \<and> wft_engine_handle t \<noteq> None
       then wft_deleted t @ [wfl_kernel_filter_id f] else wft_deleted t
   | None \<Rightarrow> wft_deleted t)"
  by (auto simp: wft_remove_def split: prod.splits option.splits)

lemma wft_inv_remove: "wft_inv t \<Longrightarrow> wft_inv (snd (wft_remove i t))"
proof (cases rule: wft_remove_cases [of i t])
  case (present f xs ys)
  assume inv: "wft_inv t"
  then have "sorted (map filter_rank (xs @ ys)) \<and> distinct (map wfl_id (xs @ ys))"
    using present(1) by (auto simp: wft_inv_def sorted_append)
  moreover have "wft_engine_handle t \<noteq> None" "\<not> wft_poisoned t"
    using inv present(1) by (simp_all add: wft_inv_def)
  ultimately show ?thesis
    using inv present by (simp add: wft_inv_def wft_remove_config wft_remove_deleted kernel_ids_def)
qed simp

lemma wft_inv_clear: "wft_inv t \<Longrightarrow> wft_inv (wft_clear t)"
proof -
  have "wft_inv t \<Longrightarrow> wft_inv (fold (\<lambda>i s. snd (wft_remove i s)) is t)" for "is" t
    by (induction "is" arbitrary: t) (simp_all add: wft_inv_remove)
  then show "wft_inv t \<Longrightarrow> ?thesis" by (simp add: wft_clear_def)
qed

lemma wft_inv_insert:
  assumes "wft_inv t"
  shows "wft_inv (snd (wft_insert k f t))"
proof (cases "fst (wft_insert k f t)")
  case (Inl e)
  then have "snd (wft_insert k f t) = t" by (auto simp: wft_insert_def split: sum.splits if_splits)
  then show ?thesis using assms by simp
next
  case (Inr u)
  then obtain kid where kid: "register_in_kernel k f = Inr kid" "wft_engine_handle t \<noteq> None"
      "\<forall>g \<in> set (wft_filters t). wfl_id g \<noteq> wfl_id f"
      "snd (wft_insert k f t) = t\<lparr> wft_filters := sort_key filter_rank (wft_filters t @ [f\<lparr> wfl_kernel_filter_id := kid \<rparr>]),
        wft_added := wft_added t @ [kid] \<rparr>"
    by (auto simp: wft_insert_def list_ex_iff split: sum.splits if_splits)
  have "distinct (map wfl_id (sort_key filter_rank (wft_filters t @ [f\<lparr> wfl_kernel_filter_id := kid \<rparr>])))"
    using assms kid(3) by (subst distinct_map) (auto simp: wft_inv_def distinct_map inj_on_def)
  moreover have "kernel_ids (sort_key filter_rank (wft_filters t @ [f\<lparr> wfl_kernel_filter_id := kid \<rparr>])) =
      kernel_ids (wft_filters t) + (if kid \<noteq> 0 then {#kid#} else {#})"
    by (simp add: kernel_ids_def)
  ultimately show ?thesis
    using assms kid(2,4) by (auto simp: wft_inv_def)
qed


lemma wft_remove_filters:
  assumes "distinct (map wfl_id (wft_filters t))"
  shows "wft_filters (snd (wft_remove i t)) = filter (\<lambda>f. wfl_id f \<noteq> i) (wft_filters t)"
proof (cases rule: wft_remove_cases [of i t])
  case absent
  then have "\<forall>f \<in> set (wft_filters t). wfl_id f \<noteq> i" by auto
  then show ?thesis using absent(1) by (simp add: filter_True)
next
  case (present f xs ys)
  then have "\<forall>g \<in> set xs \<union> set ys. wfl_id g \<noteq> i" using assms by (auto simp: image_iff)
  then show ?thesis using present by (simp add: filter_True)
qed

lemma wft_clear_filters: "wft_inv t \<Longrightarrow> wft_filters (wft_clear t) = []"
proof -
  have "wft_inv t \<Longrightarrow> wft_filters (fold (\<lambda>i s. snd (wft_remove i s)) is t) = filter (\<lambda>f. wfl_id f \<notin> set is) (wft_filters t)"
    for "is" t
  proof (induction "is" arbitrary: t)
    case (Cons i ids)
    then show ?case
      using wft_inv_remove [OF Cons.prems, of i] wft_remove_filters [of t i] by (simp add: wft_inv_def)
  qed (simp add: filter_True)
  then show "wft_inv t \<Longrightarrow> ?thesis" by (simp add: wft_clear_def)
qed

lemma wft_inv_exec: "wft_inv t \<Longrightarrow> wft_inv (wft_exec op t)"
proof (cases op)
  case (Wft_Shutdown st)
  assume inv: "wft_inv t"
  note c = wft_inv_clear [OF inv] wft_clear_filters [OF inv]
  then show ?thesis
    using Wft_Shutdown by (auto simp: wft_shutdown_def Let_def split: option.splits) (simp_all add: wft_inv_def)
next
  case (Wft_Initialize reply sub)
  then show "wft_inv t \<Longrightarrow> ?thesis" by (auto simp: wft_initialize_def split: sum.splits) (simp_all add: wft_inv_def)
qed (simp_all add: wft_inv_insert wft_inv_remove wft_inv_clear)

lemma wft_inv_run: "wft_inv (fold wft_exec ops wfp_filter_table_new)"
proof -
  have "wft_inv t \<Longrightarrow> wft_inv (fold wft_exec ops t)" for t by (induction ops arbitrary: t) (simp_all add: wft_inv_exec)
  then show ?thesis by (simp add: wft_inv_def wfp_filter_table_new_def kernel_ids_def)
qed

text \<open>The rank orders by descending weight, then ascending identifier.\<close>

lemma filter_rank_le:
  "filter_rank f \<le> filter_rank g \<longleftrightarrow>
     wfl_weight g < wfl_weight f \<or> wfl_weight f = wfl_weight g \<and> wfl_id f \<le> wfl_id g"
proof -
  have u: "unat (- 1 - a) = unat (- 1 :: u64) - unat a" "unat a \<le> unat (- 1 :: u64)" for a :: u64
    by (simp_all add: unat_sub flip: word_le_nat_alt)
  have "- 1 - a < - 1 - b \<longleftrightarrow> b < a" for a b :: u64
    using u(2) [of a] u(2) [of b] by (auto simp: word_less_nat_alt u(1))
  moreover have "- 1 - a \<le> - 1 - b \<longleftrightarrow> b \<le> a" for a b :: u64
    using calculation [of b a] by (simp flip: linorder_not_less)
  ultimately show ?thesis by (auto simp: filter_rank_def)
qed

lemma find_map_None: "find_map g xs = None \<longleftrightarrow> (\<forall>x \<in> set xs. g x = None)"
  by (induction xs) (auto split: option.splits)

lemma find_map_sorted:
  "sorted (map r xs) \<Longrightarrow> find_map g xs = Some y \<Longrightarrow>
     \<exists>x \<in> set xs. g x = Some y \<and> (\<forall>z \<in> set xs. g z \<noteq> None \<longrightarrow> r x \<le> r z)"
  for r :: "'a \<Rightarrow> 'b::linorder"
  by (induction xs) (auto split: option.splits)


subsection \<open>Masks and prefix lengths\<close>

lemma prefix_loop_True: "prefix_loop bs n True = (if True \<in> set bs then None else Some n)"
  by (induction bs) auto

lemma prefix_loop_False:
  "prefix_loop bs n False = Some k \<longleftrightarrow> (\<exists>i \<le> length bs. bs = replicate i True @ replicate (length bs - i) False \<and> k = n + of_nat i)"
  (is "_ \<longleftrightarrow> ?R bs n")
proof (induction bs arbitrary: n)
  case (Cons b bs)
  show ?case
  proof (cases b)
    case True
    have "?R (b # bs) n \<longleftrightarrow> ?R bs (n + 1)"
    proof
      assume "?R (b # bs) n"
      then obtain i where i: "i \<le> length (b # bs)" "b # bs = replicate i True @ replicate (length (b # bs) - i) False"
        "k = n + of_nat i" by blast
      then obtain j where "i = Suc j" using True by (cases i) auto
      then show "?R bs (n + 1)" using i by (intro exI [of _ j]) (auto simp: add.assoc)
    next
      assume "?R bs (n + 1)"
      then obtain i where "i \<le> length bs" "bs = replicate i True @ replicate (length bs - i) False" "k = n + 1 + of_nat i"
        by blast
      then show "?R (b # bs) n" using True by (intro exI [of _ "Suc i"]) (auto simp: add.assoc)
    qed
    then show ?thesis using True Cons.IH [of "n + 1"] by simp
  next
    case False
    have "(\<exists>i \<le> length (b # bs). b # bs = replicate i True @ replicate (length (b # bs) - i) False \<and> k = n + of_nat i) \<longleftrightarrow>
        b # bs = replicate (length (b # bs)) False \<and> k = n"
    proof
      assume "\<exists>i \<le> length (b # bs). b # bs = replicate i True @ replicate (length (b # bs) - i) False \<and> k = n + of_nat i"
      then obtain i where "b # bs = replicate i True @ replicate (length (b # bs) - i) False" "k = n + of_nat i" by blast
      with False show "b # bs = replicate (length (b # bs)) False \<and> k = n" by (cases i) auto
    next
      assume "b # bs = replicate (length (b # bs)) False \<and> k = n"
      then show "\<exists>i \<le> length (b # bs). b # bs = replicate i True @ replicate (length (b # bs) - i) False \<and> k = n + of_nat i"
        by (intro exI [of _ 0]) simp
    qed
    moreover have "(\<forall>b \<in> set bs. \<not> b) \<longleftrightarrow> bs = replicate (length bs) False"
      by (metis (full_types) in_set_replicate replicate_length_same)
    ultimately show ?thesis using False by (auto simp: prefix_loop_True)
  qed
qed auto

text \<open>
  \<open>prefix\<close> accepts exactly the contiguous masks: it returns \<open>n\<close> exactly if the mask consists of
  \<open>n\<close> one bits followed by zero bits only.
\<close>
lemma prefix_of_mask_exact:
  assumes "length m \<le> 31"
  shows "prefix_of_mask m = Some n \<longleftrightarrow>
    concat (map byte_bits m) = replicate (unat n) True @ replicate (8 * length m - unat n) False"
proof -
  let ?bs = "concat (map byte_bits m)"
  have len: "length ?bs = 8 * length m"
    by (induction m) (simp_all add: byte_bits_def)
  have "unat (of_nat i :: u8) = i" if "i \<le> length ?bs" for i
    using that assms len by (simp add: unat_of_nat take_bit_nat_eq_self)
  moreover have "unat n \<le> length ?bs" if "?bs = replicate (unat n) True @ replicate (8 * length m - unat n) False"
    using arg_cong [OF that, of length] len by simp
  ultimately show ?thesis
    unfolding prefix_of_mask_def prefix_loop_False len
    by (metis add_0 word_unat_eq_iff)
qed

theorem prefix_of_mask_exact_witness:
  "prefix_of_mask [0xff, 0xf0] = Some 12 \<and> prefix_of_mask [0xff, 0x0f] \<noteq> Some 12"
proof -
  have "concat (map byte_bits [0xff, 0xf0]) = replicate 12 True @ replicate 4 False"
    "concat (map byte_bits [0xff, 0x0f]) \<noteq> replicate 12 True @ replicate 4 False" by code_simp+
  then show ?thesis using prefix_of_mask_exact [of "[0xff, 0xf0]" 12] prefix_of_mask_exact [of "[0xff, 0x0f]" 12] by simp
qed

end
