(* ===== verification/Vec_Table.thy ===== *)
theory Vec_Table
  imports Prelude
begin

text \<open>
  Tables kept as a vector with one entry per key, as \<open>crates/backend-iphelper\<close> has four times:
  an insertion overwrites the first entry of the same key or appends, a lookup takes the first
  entry of the key, a removal takes it out, and a refresh inserts the rows the system reported and
  retains their keys. The contract says what an overwriting entry may take over from the old one.
\<close>

fun upsert :: "('e \<Rightarrow> 'k) \<Rightarrow> ('e \<Rightarrow> 'e \<Rightarrow> 'e) \<Rightarrow> 'e \<Rightarrow> 'e list \<Rightarrow> 'e list" where
  "upsert key merge e [] = [e]"
| "upsert key merge e (x # xs) = (if key x = key e then merge x e # xs else x # upsert key merge e xs)"

text \<open>\<open>Vec::remove\<close> at the \<open>position\<close> of the first entry that satisfies a predicate.\<close>

fun take_first :: "('e \<Rightarrow> bool) \<Rightarrow> 'e list \<Rightarrow> ('e \<times> 'e list) option" where
  "take_first P [] = None"
| "take_first P (x # xs) = (if P x then Some (x, xs) else map_option (apsnd ((#) x)) (take_first P xs))"

text \<open>\<open>iter_mut().find\<close> followed by an update of the entry found.\<close>

fun update_first :: "('e \<Rightarrow> bool) \<Rightarrow> ('e \<Rightarrow> 'e) \<Rightarrow> 'e list \<Rightarrow> 'e list option" where
  "update_first P f [] = None"
| "update_first P f (x # xs) = (if P x then Some (f x # xs) else map_option ((#) x) (update_first P f xs))"

definition lookup_by :: "('e \<Rightarrow> 'k) \<Rightarrow> 'k \<Rightarrow> 'e list \<Rightarrow> 'e option" where
  "lookup_by key k xs = List.find (\<lambda>e. key e = k) xs"

lemma lookup_by_simps [simp]:
  "lookup_by key k [] = None"
  "lookup_by key k (x # xs) = (if key x = k then Some x else lookup_by key k xs)"
  by (simp_all add: lookup_by_def)

lemma lookup_by_SomeD: "lookup_by key k xs = Some e \<Longrightarrow> e \<in> set xs \<and> key e = k"
  by (induction xs) (auto split: if_splits)

lemma lookup_by_None_iff: "lookup_by key k xs = None \<longleftrightarrow> k \<notin> key ` set xs"
  by (induction xs) auto

lemma lookup_by_filter_key: "lookup_by key k (filter (\<lambda>e. key e \<in> K) xs) = (if k \<in> K then lookup_by key k xs else None)"
  by (induction xs) auto

lemma lookup_by_distinct: "distinct (map key xs) \<Longrightarrow> e \<in> set xs \<Longrightarrow> lookup_by key (key e) xs = Some e"
  by (induction xs) (auto simp: image_iff)

lemma set_map_filter: "y \<in> set (List.map_filter f xs) \<longleftrightarrow> (\<exists>x \<in> set xs. f x = Some y)"
  by (induction xs) (auto simp: map_filter_simps split: option.splits)

lemma distinct_map_filter_key: "distinct (map key xs) \<Longrightarrow> distinct (map key (filter P xs))"
  by (simp add: distinct_map_filter)

lemma take_first_split: "take_first P xs = Some (e, ys) \<Longrightarrow> \<exists>us vs. xs = us @ e # vs \<and> ys = us @ vs \<and> P e \<and> (\<forall>u \<in> set us. \<not> P u)"
proof (induction xs arbitrary: ys)
  case (Cons x xs)
  show ?case
  proof (cases "P x")
    case True
    then show ?thesis using Cons.prems by (intro exI [of _ "[]"] exI [of _ xs]) auto
  next
    case False
    with Cons.prems obtain zs where "take_first P xs = Some (e, zs)" "ys = x # zs" by auto
    with Cons.IH [of zs] obtain us vs where "xs = us @ e # vs" "zs = us @ vs" "P e" "\<forall>u \<in> set us. \<not> P u" by auto
    then show ?thesis using False \<open>ys = x # zs\<close> by (intro exI [of _ "x # us"] exI [of _ vs]) simp
  qed
qed simp

lemma lookup_by_append: "lookup_by key k (xs @ ys) = (case lookup_by key k xs of None \<Rightarrow> lookup_by key k ys | Some e \<Rightarrow> Some e)"
  by (induction xs) auto

text \<open>The entry a sequence of insertions of one key leaves.\<close>

definition absorb :: "('e \<Rightarrow> 'e \<Rightarrow> 'e) \<Rightarrow> 'e list \<Rightarrow> 'e option \<Rightarrow> 'e option" where
  "absorb merge es old = fold (\<lambda>e acc. Some (case acc of None \<Rightarrow> e | Some x \<Rightarrow> merge x e)) es old"

lemma absorb_simps [simp]:
  "absorb merge [] old = old"
  "absorb merge (e # es) old = absorb merge es (Some (case old of None \<Rightarrow> e | Some x \<Rightarrow> merge x e))"
  by (simp_all add: absorb_def)

lemma absorb_is_None: "absorb merge es old = None \<longleftrightarrow> es = [] \<and> old = None"
  by (induction es arbitrary: old) auto

text \<open>Where nothing is taken over, the last row of the key remains.\<close>

lemma absorb_last:
  "absorb (\<lambda>_ new. new) (filter (\<lambda>e. key e = k) es) old =
     (case lookup_by key k (rev es) of None \<Rightarrow> old | Some e \<Rightarrow> Some e)"
proof (induction es arbitrary: old)
  case (Cons e es)
  show ?case using Cons.IH [of old] Cons.IH [of "Some e"]
    by (auto simp: lookup_by_append split: option.splits)
qed simp

locale vec_table =
  fixes key :: "'e \<Rightarrow> 'k" and merge :: "'e \<Rightarrow> 'e \<Rightarrow> 'e"
  assumes key_merge: "key x = key e \<Longrightarrow> key (merge x e) = key e"
begin

lemma map_key_upsert:
  "map key (upsert key merge e xs) = (if key e \<in> key ` set xs then map key xs else map key xs @ [key e])"
  by (induction xs) (auto simp: key_merge)

lemma distinct_upsert: "distinct (map key xs) \<Longrightarrow> distinct (map key (upsert key merge e xs))"
  unfolding map_key_upsert by auto

lemma lookup_upsert:
  "lookup_by key k (upsert key merge e xs) =
     (if k = key e then Some (case lookup_by key k xs of None \<Rightarrow> e | Some x \<Rightarrow> merge x e) else lookup_by key k xs)"
  by (induction xs) (auto simp: key_merge)

lemma length_upsert:
  "length (upsert key merge e xs) = (if key e \<in> key ` set xs then length xs else Suc (length xs))"
  by (induction xs) auto

lemma distinct_upserts: "distinct (map key xs) \<Longrightarrow> distinct (map key (fold (upsert key merge) es xs))"
  by (induction es arbitrary: xs) (simp_all add: distinct_upsert)

lemma lookup_upserts:
  "lookup_by key k (fold (upsert key merge) es xs) = absorb merge (filter (\<lambda>e. key e = k) es) (lookup_by key k xs)"
  by (induction es arbitrary: xs) (auto simp: lookup_upsert)

lemma distinct_take: "distinct (map key xs) \<Longrightarrow> take_first P xs = Some (e, ys) \<Longrightarrow> distinct (map key ys)"
  using take_first_split [of P xs e ys] by auto

lemma lookup_take:
  assumes "distinct (map key xs)" and "take_first (\<lambda>e. key e = k) xs = Some (e, ys)"
  shows "lookup_by key k xs = Some e" and "lookup_by key j ys = (if j = k then None else lookup_by key j xs)"
proof -
  from take_first_split [OF assms(2)] obtain us vs where
    x: "xs = us @ e # vs" "ys = us @ vs" "key e = k" "\<forall>u \<in> set us. key u \<noteq> k" by blast
  have u: "lookup_by key k us = None" "lookup_by key k vs = None"
    using x assms(1) by (auto simp: lookup_by_None_iff)
  show "lookup_by key k xs = Some e" using x u by (simp add: lookup_by_append)
  show "lookup_by key j ys = (if j = k then None else lookup_by key j xs)"
    using x u by (auto simp: lookup_by_append split: option.splits)
qed

lemma take_first_key_None: "take_first (\<lambda>e. key e = k) xs = None \<longleftrightarrow> lookup_by key k xs = None"
  by (induction xs) (auto split: option.splits)

lemma update_first_key:
  assumes "\<And>x. key (f x) = key x"
  shows "update_first (\<lambda>e. key e = k) f xs = None \<longleftrightarrow> lookup_by key k xs = None"
    and "update_first (\<lambda>e. key e = k) f xs = Some ys \<Longrightarrow> map key ys = map key xs"
    and "update_first (\<lambda>e. key e = k) f xs = Some ys \<Longrightarrow>
      lookup_by key j ys = (if j = k then map_option f (lookup_by key j xs) else lookup_by key j xs)"
  using assms by (induction xs arbitrary: ys) (auto split: if_splits)

lemma lookup_retained:
  fixes es :: "'e list"
  assumes "distinct (map key xs)"
  defines "ys \<equiv> filter (\<lambda>e. key e \<in> key ` set es) (fold (upsert key merge) es xs)"
  shows "distinct (map key ys)"
    and "lookup_by key k ys = (if k \<in> key ` set es then absorb merge (filter (\<lambda>e. key e = k) es) (lookup_by key k xs) else None)"
  using assms by (simp_all add: ys_def distinct_map_filter_key distinct_upserts lookup_by_filter_key lookup_upserts)

lemma set_retained:
  assumes "distinct (map key xs)"
  shows "key ` set (filter (\<lambda>e. key e \<in> key ` set es) (fold (upsert key merge) es xs)) = key ` set es"
proof (rule set_eqI)
  fix k
  let ?ys = "filter (\<lambda>e. key e \<in> key ` set es) (fold (upsert key merge) es xs)"
  have "k \<in> key ` set ?ys \<longleftrightarrow> lookup_by key k ?ys \<noteq> None"
    by (simp only: lookup_by_None_iff not_not)
  also have "\<dots> \<longleftrightarrow> k \<in> key ` set es"
    unfolding lookup_retained(2) [OF assms] by (auto simp: absorb_is_None filter_empty_conv simp del: not_None_eq)
  finally show "k \<in> key ` set ?ys \<longleftrightarrow> k \<in> key ` set es" .
qed

end

definition table_ok :: "('e \<Rightarrow> 'k) \<Rightarrow> ('e \<Rightarrow> bool) \<Rightarrow> 'e list \<Rightarrow> bool" where
  "table_ok key ok xs \<longleftrightarrow> distinct (map key xs) \<and> list_all ok xs"

lemma table_ok_Nil [simp]: "table_ok key ok []"
  by (simp add: table_ok_def)

locale checked_table = vec_table key merge for key :: "'e \<Rightarrow> 'k" and merge +
  fixes ok :: "'e \<Rightarrow> bool"
  assumes ok_merge: "ok x \<Longrightarrow> ok e \<Longrightarrow> ok (merge x e)"
begin

lemma ok_upsert: "list_all ok xs \<Longrightarrow> ok e \<Longrightarrow> list_all ok (upsert key merge e xs)"
  by (induction xs) (auto simp: ok_merge)

lemma table_ok_upsert: "table_ok key ok xs \<Longrightarrow> ok e \<Longrightarrow> table_ok key ok (upsert key merge e xs)"
  by (simp add: table_ok_def ok_upsert distinct_upsert)

lemma table_ok_upserts: "table_ok key ok xs \<Longrightarrow> list_all ok es \<Longrightarrow> table_ok key ok (fold (upsert key merge) es xs)"
  by (induction es arbitrary: xs) (simp_all add: table_ok_upsert)

lemma table_ok_filter: "table_ok key ok xs \<Longrightarrow> table_ok key ok (filter P xs)"
  by (auto simp: table_ok_def distinct_map_filter_key list_all_iff)

lemma table_ok_take: "table_ok key ok xs \<Longrightarrow> take_first P xs = Some (e, ys) \<Longrightarrow> table_ok key ok ys"
  using take_first_split [of P xs e ys] by (auto simp: table_ok_def)

lemma table_ok_update:
  assumes "\<And>x. key (f x) = key x" and "\<And>x. ok x \<Longrightarrow> ok (f x)"
  shows "table_ok key ok xs \<Longrightarrow> update_first P f xs = Some ys \<Longrightarrow> table_ok key ok ys"
proof -
  have "map key ys = map key xs \<and> (list_all ok xs \<longrightarrow> list_all ok ys)" if "update_first P f xs = Some ys" for xs ys
    using that assms by (induction xs arbitrary: ys) (auto split: if_splits)
  then show "table_ok key ok xs \<Longrightarrow> update_first P f xs = Some ys \<Longrightarrow> table_ok key ok ys"
    by (simp add: table_ok_def)
qed

end

end
