(* ===== verification/Iphelper_Tables.thy ===== *)
theory Iphelper_Tables
  imports Vec_Table Gateway_Routing Parser_Ipv6
begin

text \<open>
  \<open>crates/backend-iphelper\<close>: the tables of interfaces (\<open>interfaces.rs\<close>), neighbours
  (\<open>neighbors.rs\<close>) and routes (\<open>routes.rs\<close>) the host reports, and the socket addresses they are
  decoded from (\<open>sockaddr.rs\<close>). What the system calls answer is an argument: a status and the rows
  of the table returned, or none where the pointer returned is null. The hosts are little-endian,
  as every Windows target is; the clock is an argument. A \<open>SystemError\<close> holds the status
  reinterpreted as a signed integer.
\<close>

subsection \<open>Socket addresses (\<open>sockaddr.rs\<close>)\<close>

definition swap16 :: "u16 \<Rightarrow> u16" where
  \<comment> \<open>\<open>u16::from_be\<close> on a little-endian host\<close>
  "swap16 w = be16 (lo8 w) (hi8 w)"

definition swap32 :: "u32 \<Rightarrow> u32" where
  \<comment> \<open>\<open>u32::from_be\<close> on a little-endian host\<close>
  "swap32 w = be32 (byte0 w) (byte1 w) (byte2 w) (byte3 w)"

definition addr_u32 :: "byte list \<Rightarrow> u32" where
  \<comment> \<open>the four bytes at offset 4 of a \<open>SOCKADDR_IN\<close>, read as the host does\<close>
  "addr_u32 b = be32 (b ! 7) (b ! 6) (b ! 5) (b ! 4)"

definition addr_bytes :: "byte list \<Rightarrow> byte list" where
  \<comment> \<open>the sixteen bytes at offset 8 of a \<open>SOCKADDR_IN6\<close>\<close>
  "addr_bytes b = take 16 (drop 8 b)"

definition parse_sockaddr_inet :: "byte list \<Rightarrow> ip_addr option" where
  "parse_sockaddr_inet b =
     (let family = be16 (b ! 1) (b ! 0) in
      if family = 2 then Some (V4 (swap32 (addr_u32 b)))
      else if family = 23 then Some (V6 (u128_from_be_bytes (addr_bytes b)))
      else None)"

definition parse_sockaddr :: "byte list option \<Rightarrow> ip_addr option" where
  "parse_sockaddr p = (case p of
      None \<Rightarrow> None
    | Some b \<Rightarrow>
        let sa_family = be16 (b ! 1) (b ! 0) in
        if sa_family = 2 then Some (V4 (swap32 (addr_u32 b)))
        else if sa_family = 23 then Some (V6 (u128_from_be_bytes (addr_bytes b)))
        else None)"

lemma swap32_involutive [simp]: "swap32 (swap32 w) = w"
  by (simp add: swap32_def)

lemma swap16_involutive [simp]: "swap16 (swap16 w) = w"
  by (simp add: swap16_def)

text \<open>The address is the one whose bytes stand in network order in the structure.\<close>

lemma parse_sockaddr_inet_v4:
  "b ! 0 = 2 \<Longrightarrow> b ! 1 = 0 \<Longrightarrow> parse_sockaddr_inet b = Some (V4 (be32 (b ! 4) (b ! 5) (b ! 6) (b ! 7)))"
  by (simp add: parse_sockaddr_inet_def addr_u32_def swap32_def be16_def)

lemma parse_sockaddr_eq: "parse_sockaddr p = Option.bind p parse_sockaddr_inet"
  by (simp add: parse_sockaddr_def parse_sockaddr_inet_def split: option.splits)

subsection \<open>Interfaces (\<open>interfaces.rs\<close>)\<close>

datatype ih_interface_type = Iht_Ethernet | Iht_Wifi | Iht_Loopback | Iht_Tunnel | Iht_Unknown

datatype ih_operational_state = Iho_Up | Iho_Down | Iho_Testing | Iho_Unknown

record ih_address =
  iha_address :: ip_addr
  iha_prefix_length :: u8

definition ih_address_new :: "ip_addr \<Rightarrow> u8 \<Rightarrow> ih_address option" where
  "ih_address_new address prefix_length =
     (let max_prefix = (case address of V4 _ \<Rightarrow> 32 | V6 _ \<Rightarrow> 128) in
      if prefix_length > max_prefix then None
      else Some \<lparr> iha_address = address, iha_prefix_length = prefix_length \<rparr>)"

record ih_interface =
  ihi_index :: u32
  ihi_name :: string
  ihi_description :: string
  ihi_interface_type :: ih_interface_type
  ihi_operational_state :: ih_operational_state
  ihi_mtu :: u32
  ihi_mac_address :: "byte list option"
  ihi_addresses :: "ih_address list"

definition ih_interface_new :: "u32 \<Rightarrow> string \<Rightarrow> ih_interface option" where
  "ih_interface_new i name =
     (if i = 0 then None
      else if trim name = [] then None
      else Some \<lparr> ihi_index = i, ihi_name = name, ihi_description = [], ihi_interface_type = Iht_Unknown,
        ihi_operational_state = Iho_Unknown, ihi_mtu = 0, ihi_mac_address = None, ihi_addresses = [] \<rparr>)"

definition ih_add_address :: "ih_address \<Rightarrow> ih_interface \<Rightarrow> ih_interface" where
  "ih_add_address a i =
     (if \<not> list_ex (\<lambda>existing. existing = a) (ihi_addresses i) then i\<lparr> ihi_addresses := ihi_addresses i @ [a] \<rparr> else i)"

definition ih_is_up :: "ih_interface \<Rightarrow> bool" where
  "ih_is_up i \<longleftrightarrow> ihi_operational_state i = Iho_Up"

definition has_address_family_v4 :: "ih_interface \<Rightarrow> bool" where
  "has_address_family_v4 i = list_ex (\<lambda>e. case iha_address e of V4 _ \<Rightarrow> True | V6 _ \<Rightarrow> False) (ihi_addresses i)"

definition has_address_family_v6 :: "ih_interface \<Rightarrow> bool" where
  "has_address_family_v6 i = list_ex (\<lambda>e. case iha_address e of V6 _ \<Rightarrow> True | V4 _ \<Rightarrow> False) (ihi_addresses i)"

datatype interface_query_error = Iq_InvalidInterfaceIndex | Iq_InterfaceNotFound | Iq_SystemError int

type_synonym interface_table = "ih_interface list"

definition if_insert :: "ih_interface \<Rightarrow> interface_table \<Rightarrow> (interface_query_error + unit) \<times> interface_table" where
  "if_insert i t = (if ihi_index i = 0 then (Inl Iq_InvalidInterfaceIndex, t)
     else (Inr (), upsert ihi_index (\<lambda>_ new. new) i t))"

definition if_get :: "u32 \<Rightarrow> interface_table \<Rightarrow> interface_query_error + ih_interface" where
  "if_get i t = (if i = 0 then Inl Iq_InvalidInterfaceIndex
     else case List.find (\<lambda>e. ihi_index e = i) t of None \<Rightarrow> Inl Iq_InterfaceNotFound | Some e \<Rightarrow> Inr e)"

definition if_remove :: "u32 \<Rightarrow> interface_table \<Rightarrow> (interface_query_error + ih_interface) \<times> interface_table" where
  "if_remove i t = (if i = 0 then (Inl Iq_InvalidInterfaceIndex, t)
     else case take_first (\<lambda>e. ihi_index e = i) t of None \<Rightarrow> (Inl Iq_InterfaceNotFound, t) | Some (e, t') \<Rightarrow> (Inr e, t'))"

definition map_oper_status :: "u32 \<Rightarrow> ih_operational_state" where
  "map_oper_status s = (if s = 1 then Iho_Up else if s = 2 then Iho_Down else if s = 3 then Iho_Testing else Iho_Unknown)"

definition map_if_type :: "u32 \<Rightarrow> ih_interface_type" where
  "map_if_type t = (if t = 6 then Iht_Ethernet else if t = 71 then Iht_Wifi else if t = 24 then Iht_Loopback
     else if t = 131 then Iht_Tunnel else Iht_Unknown)"

text \<open>
  One element of the linked list \<open>GetAdaptersAddresses\<close> returns. A name is \<open>None\<close> for a null
  pointer and \<open>Some None\<close> for a wide string that is not valid Unicode.
\<close>

record native_adapter =
  na_if_index :: u32
  na_friendly_name :: "string option option"
  na_adapter_name :: "string option"
  na_description :: "string option option"
  na_mtu :: u32
  na_oper_status :: u32
  na_if_type :: u32
  na_physical_address :: "byte list"
  na_physical_address_length :: u32
  na_unicast :: "(byte list option \<times> u8) list"

definition add_unicast :: "byte list option \<times> u8 \<Rightarrow> ih_interface \<Rightarrow> ih_interface" where
  "add_unicast u i = (case parse_sockaddr (fst u) of None \<Rightarrow> i
     | Some address \<Rightarrow> (case ih_address_new address (snd u) of None \<Rightarrow> i | Some a \<Rightarrow> ih_add_address a i))"

definition adapter_name :: "native_adapter \<Rightarrow> string" where
  "adapter_name a = (case na_friendly_name a of
      Some (Some name) \<Rightarrow> name
    | Some None \<Rightarrow> ''Unknown''
    | None \<Rightarrow> (case na_adapter_name a of Some name \<Rightarrow> name | None \<Rightarrow> ''Unknown''))"

definition adapter_info :: "native_adapter \<Rightarrow> ih_interface option" where
  "adapter_info a = (case ih_interface_new (na_if_index a) (adapter_name a) of
      None \<Rightarrow> None
    | Some info \<Rightarrow>
        let description = (case na_description a of Some (Some d) \<Rightarrow> d | _ \<Rightarrow> []);
            info = info\<lparr> ihi_description := description, ihi_mtu := na_mtu a,
              ihi_operational_state := map_oper_status (na_oper_status a),
              ihi_interface_type := map_if_type (na_if_type a) \<rparr>;
            info = (if na_physical_address_length a \<ge> 6
              then info\<lparr> ihi_mac_address := Some (take 6 (na_physical_address a)) \<rparr> else info) in
        Some (fold add_unicast (na_unicast a) info))"

primrec parse_adapter_list ::
  "native_adapter list \<Rightarrow> interface_table \<Rightarrow> (interface_query_error + unit) \<times> interface_table" where
  "parse_adapter_list [] t = (Inr (), t)"
| "parse_adapter_list (a # as) t = (case adapter_info a of
      None \<Rightarrow> parse_adapter_list as t
    | Some info \<Rightarrow> (case if_insert info t of
        (Inl e, t') \<Rightarrow> (Inl e, t')
      | (Inr _, t') \<Rightarrow> parse_adapter_list as t'))"

definition parse_adapters ::
  "native_adapter list \<Rightarrow> interface_table \<Rightarrow> (interface_query_error + unit) \<times> interface_table" where
  "parse_adapters as t = parse_adapter_list as []"

text \<open>
  \<open>refresh_all\<close> repeats the call while the buffer is too small, three times at most; \<open>replies n\<close>
  is the answer to the call number \<open>n\<close>.
\<close>

function if_refresh_loop :: "(nat \<Rightarrow> u32 \<times> native_adapter list) \<Rightarrow> nat \<Rightarrow> interface_table \<Rightarrow>
    (interface_query_error + unit) \<times> interface_table" where
  "if_refresh_loop replies retry t = (case replies retry of (ret, adapters) \<Rightarrow>
     if ret = 111 \<and> retry < 3 then if_refresh_loop replies (retry + 1) t
     else if ret \<noteq> 0 then (Inl (Iq_SystemError (sint ret)), t)
     else parse_adapters adapters t)"
  by pat_completeness auto
termination by (relation "measure (\<lambda>(_, retry, _). 3 - retry)") auto

declare if_refresh_loop.simps [simp del]

definition if_refresh_all :: "(nat \<Rightarrow> u32 \<times> native_adapter list) \<Rightarrow> interface_table \<Rightarrow>
    (interface_query_error + unit) \<times> interface_table" where
  "if_refresh_all replies t = if_refresh_loop replies 0 t"

interpretation ift: checked_table ihi_index "\<lambda>_ new. new" "\<lambda>i. ihi_index i \<noteq> 0"
  by unfold_locales simp_all

text \<open>The addresses of an adapter are the decodable ones with a prefix that fits, once each.\<close>

lemma add_unicast_cases:
  "add_unicast u i = i \<or> (\<exists>a. add_unicast u i = i\<lparr> ihi_addresses := ihi_addresses i @ [a] \<rparr> \<and>
     a \<notin> set (ihi_addresses i) \<and> iha_prefix_length a \<le> max_prefix (iha_address a))"
  by (auto simp: add_unicast_def ih_add_address_def ih_address_new_def max_prefix_def list_ex_iff not_less
      split: option.splits ip_addr.splits if_splits)

lemma add_unicast_index [simp]: "ihi_index (fold add_unicast us i) = ihi_index i"
proof (induction us arbitrary: i)
  case (Cons u us)
  from add_unicast_cases [of u i] have "ihi_index (add_unicast u i) = ihi_index i" by fastforce
  then show ?case using Cons.IH [of "add_unicast u i"] by simp
qed simp

lemma adapter_info_index: "adapter_info a = Some i \<Longrightarrow> ihi_index i = na_if_index a \<and> na_if_index a \<noteq> 0"
  by (auto simp: adapter_info_def ih_interface_new_def Let_def split: option.splits if_splits)

lemma parse_adapter_list_eq:
  "parse_adapter_list as t = (Inr (), fold (upsert ihi_index (\<lambda>_ new. new)) (List.map_filter adapter_info as) t)"
  by (induction as arbitrary: t)
    (auto simp: map_filter_simps if_insert_def adapter_info_index split: option.splits)

definition addresses_ok :: "ih_interface \<Rightarrow> bool" where
  "addresses_ok i \<longleftrightarrow> distinct (ihi_addresses i) \<and>
     list_all (\<lambda>a. iha_prefix_length a \<le> max_prefix (iha_address a)) (ihi_addresses i)"

lemma add_unicast_addresses: "addresses_ok i \<Longrightarrow> addresses_ok (fold add_unicast us i)"
proof (induction us arbitrary: i)
  case (Cons u us)
  from add_unicast_cases [of u i] Cons.prems have "addresses_ok (add_unicast u i)"
    by (elim disjE exE) (simp_all add: addresses_ok_def)
  then show ?case using Cons.IH [of "add_unicast u i"] by simp
qed simp

lemma adapter_info_addresses:
  assumes "adapter_info a = Some i"
  shows "addresses_ok i"
proof -
  from assms obtain j where "i = fold add_unicast (na_unicast a) j" "ihi_addresses j = []"
    by (auto simp: adapter_info_def ih_interface_new_def Let_def split: option.splits if_splits)
  then show ?thesis using add_unicast_addresses [of j "na_unicast a"] by (simp add: addresses_ok_def)
qed

definition if_last_call :: "(nat \<Rightarrow> u32 \<times> native_adapter list) \<Rightarrow> nat" where
  "if_last_call replies = (if fst (replies 0) \<noteq> 111 then 0 else if fst (replies 1) \<noteq> 111 then 1
     else if fst (replies 2) \<noteq> 111 then 2 else 3)"

text \<open>The answer to the last of at most four calls decides; a failing call leaves the table as it was.\<close>

lemma if_refresh_loop_step:
  "if_refresh_loop replies retry t =
     (if fst (replies retry) = 111 \<and> retry < 3 then if_refresh_loop replies (retry + 1) t
      else if fst (replies retry) \<noteq> 0 then (Inl (Iq_SystemError (sint (fst (replies retry)))), t)
      else (Inr (), fold (upsert ihi_index (\<lambda>_ new. new)) (List.map_filter adapter_info (snd (replies retry))) []))"
  by (subst if_refresh_loop.simps) (simp add: parse_adapters_def parse_adapter_list_eq split: prod.splits)

lemma if_refresh_all_eq:
  "if_refresh_all replies t = (let n = if_last_call replies in
     if fst (replies n) \<noteq> 0 then (Inl (Iq_SystemError (sint (fst (replies n)))), t)
     else (Inr (), fold (upsert ihi_index (\<lambda>_ new. new)) (List.map_filter adapter_info (snd (replies n))) []))"
proof -
  have one: "(0::nat) + 1 = 1" "(1::nat) + 1 = 2" "(2::nat) + 1 = 3" by simp_all
  show ?thesis
    unfolding if_refresh_all_def if_last_call_def
    by (subst (1) if_refresh_loop_step, unfold one, subst (1) if_refresh_loop_step, unfold one,
        subst (1) if_refresh_loop_step, unfold one, subst (1) if_refresh_loop_step) (simp add: Let_def)
qed

lemma if_refresh_all_get:
  assumes "if_refresh_all replies t = (Inr (), t')"
  shows "distinct (map ihi_index t')"
    and "lookup_by ihi_index i t' =
      lookup_by ihi_index i (rev (List.map_filter adapter_info (snd (replies (if_last_call replies)))))"
proof -
  let ?es = "List.map_filter adapter_info (snd (replies (if_last_call replies)))"
  have t': "t' = fold (upsert ihi_index (\<lambda>_ new. new)) ?es []"
    using assms by (simp add: if_refresh_all_eq Let_def split: if_splits)
  show "distinct (map ihi_index t')" unfolding t' by (rule ift.distinct_upserts) simp
  show "lookup_by ihi_index i t' = lookup_by ihi_index i (rev ?es)"
    by (simp add: t' ift.lookup_upserts absorb_last split: option.splits)
qed

subsection \<open>Neighbours (\<open>neighbors.rs\<close>)\<close>

datatype ih_neighbor_state = Ihn_Unreachable | Ihn_Incomplete | Ihn_Probe | Ihn_Delay | Ihn_Stale | Ihn_Reachable
  | Ihn_Permanent | Ihn_Unknown

definition ihn_state_is_usable :: "ih_neighbor_state \<Rightarrow> bool" where
  "ihn_state_is_usable s \<longleftrightarrow> s \<in> {Ihn_Reachable, Ihn_Stale, Ihn_Permanent}"

definition ihn_state_is_failed :: "ih_neighbor_state \<Rightarrow> bool" where
  "ihn_state_is_failed s \<longleftrightarrow> s = Ihn_Unreachable"

type_synonym ih_neighbor_key = "ip_addr \<times> u32" \<comment> \<open>address and interface index\<close>

definition ih_neighbor_key_new :: "ip_addr \<Rightarrow> u32 \<Rightarrow> ih_neighbor_key option" where
  "ih_neighbor_key_new address i = (if i = 0 then None else Some (address, i))"

record ih_neighbor =
  ihn_key :: ih_neighbor_key
  ihn_mac_address :: "byte list option"
  ihn_state :: ih_neighbor_state
  ihn_updated_at :: nat

definition ih_neighbor_new :: "nat \<Rightarrow> ip_addr \<Rightarrow> u32 \<Rightarrow> byte list option \<Rightarrow> ih_neighbor_state \<Rightarrow> ih_neighbor option" where
  "ih_neighbor_new now address i mac st = (case ih_neighbor_key_new address i of
      None \<Rightarrow> None
    | Some key \<Rightarrow> Some \<lparr> ihn_key = key, ihn_mac_address = mac, ihn_state = st, ihn_updated_at = now \<rparr>)"

definition ihn_is_usable :: "ih_neighbor \<Rightarrow> bool" where
  "ihn_is_usable n \<longleftrightarrow> ihn_state_is_usable (ihn_state n) \<and> ihn_mac_address n \<noteq> None"

definition ihn_age :: "nat \<Rightarrow> ih_neighbor \<Rightarrow> duration" where
  "ihn_age now n = now - ihn_updated_at n"

definition ihn_touch :: "nat \<Rightarrow> ih_neighbor \<Rightarrow> ih_neighbor" where
  "ihn_touch now n = n\<lparr> ihn_updated_at := now \<rparr>"

datatype neighbor_table_error = Nt_InvalidInterface | Nt_NeighborNotFound | Nt_SystemError int

type_synonym neighbor_table = "ih_neighbor list"

definition iht_insert :: "ih_neighbor \<Rightarrow> neighbor_table \<Rightarrow> (neighbor_table_error + unit) \<times> neighbor_table" where
  "iht_insert n t = (if snd (ihn_key n) = 0 then (Inl Nt_InvalidInterface, t)
     else (Inr (), upsert ihn_key (\<lambda>_ new. new) n t))"

definition iht_get :: "ip_addr \<Rightarrow> u32 \<Rightarrow> neighbor_table \<Rightarrow> neighbor_table_error + ih_neighbor" where
  "iht_get address i t = (if i = 0 then Inl Nt_InvalidInterface
     else case List.find (\<lambda>e. fst (ihn_key e) = address \<and> snd (ihn_key e) = i) t of
       None \<Rightarrow> Inl Nt_NeighborNotFound | Some n \<Rightarrow> Inr n)"

definition iht_update ::
  "(ih_neighbor \<Rightarrow> ih_neighbor) \<Rightarrow> ip_addr \<Rightarrow> u32 \<Rightarrow> neighbor_table \<Rightarrow> (neighbor_table_error + unit) \<times> neighbor_table" where
  \<comment> \<open>\<open>get_mut\<close> and a change of the entry it returns\<close>
  "iht_update f address i t = (if i = 0 then (Inl Nt_InvalidInterface, t)
     else case update_first (\<lambda>e. fst (ihn_key e) = address \<and> snd (ihn_key e) = i) f t of
       None \<Rightarrow> (Inl Nt_NeighborNotFound, t) | Some t' \<Rightarrow> (Inr (), t'))"

definition iht_update_state where
  "iht_update_state now address i st t = iht_update (\<lambda>n. ihn_touch now (n\<lparr> ihn_state := st \<rparr>)) address i t"

definition iht_update_mac where
  "iht_update_mac now address i mac t = iht_update (\<lambda>n. ihn_touch now (n\<lparr> ihn_mac_address := Some mac \<rparr>)) address i t"

definition iht_resolve :: "ip_addr \<Rightarrow> u32 \<Rightarrow> neighbor_table \<Rightarrow> neighbor_table_error + byte list" where
  "iht_resolve address i t = (case iht_get address i t of
      Inl e \<Rightarrow> Inl e
    | Inr n \<Rightarrow> if \<not> ihn_is_usable n then Inl Nt_NeighborNotFound
        else case ihn_mac_address n of None \<Rightarrow> Inl Nt_NeighborNotFound | Some mac \<Rightarrow> Inr mac)"

definition iht_remove :: "ip_addr \<Rightarrow> u32 \<Rightarrow> neighbor_table \<Rightarrow> (neighbor_table_error + ih_neighbor) \<times> neighbor_table" where
  "iht_remove address i t = (if i = 0 then (Inl Nt_InvalidInterface, t)
     else case take_first (\<lambda>e. fst (ihn_key e) = address \<and> snd (ihn_key e) = i) t of
       None \<Rightarrow> (Inl Nt_NeighborNotFound, t) | Some (n, t') \<Rightarrow> (Inr n, t'))"

definition iht_remove_expired :: "nat \<Rightarrow> duration \<Rightarrow> neighbor_table \<Rightarrow> nat \<times> neighbor_table" where
  "iht_remove_expired now max_age t = (let t' = filter (\<lambda>n. ihn_age now n \<le> max_age) t in (length t - length t', t'))"

definition map_neighbor_state :: "u32 \<Rightarrow> ih_neighbor_state" where
  "map_neighbor_state s = (if s = 0 then Ihn_Unreachable else if s = 1 then Ihn_Incomplete else if s = 2 then Ihn_Probe
     else if s = 3 then Ihn_Delay else if s = 4 then Ihn_Stale else if s = 5 then Ihn_Reachable
     else if s = 6 then Ihn_Permanent else Ihn_Unknown)"

record native_neighbor =
  nn_address :: "byte list"
  nn_interface_index :: u32
  nn_physical_address :: "byte list"
  nn_physical_address_length :: u32
  nn_state :: u32

text \<open>The entry a row of the table becomes, if its address decodes and its interface is not 0.\<close>

definition neighbor_of_row :: "nat \<Rightarrow> native_neighbor \<Rightarrow> ih_neighbor option" where
  "neighbor_of_row now row = (case parse_sockaddr_inet (nn_address row) of
      None \<Rightarrow> None
    | Some addr \<Rightarrow>
        if nn_interface_index row \<noteq> 0 then
          (let st = map_neighbor_state (nn_state row);
               mac = (if nn_physical_address_length row \<ge> 6 then Some (take 6 (nn_physical_address row)) else None) in
           case ih_neighbor_key_new addr (nn_interface_index row) of
             None \<Rightarrow> None
           | Some key \<Rightarrow> Some \<lparr> ihn_key = key, ihn_mac_address = mac, ihn_state = st, ihn_updated_at = now \<rparr>)
        else None)"

primrec ipnet_rows :: "nat \<Rightarrow> native_neighbor list \<Rightarrow> ih_neighbor_key set \<times> neighbor_table \<Rightarrow>
    (neighbor_table_error + unit) \<times> ih_neighbor_key set \<times> neighbor_table" where
  "ipnet_rows now [] s = (Inr (), s)"
| "ipnet_rows now (row # rows) s = (case neighbor_of_row now row of
      None \<Rightarrow> ipnet_rows now rows s
    | Some info \<Rightarrow> (case iht_insert info (snd s) of
        (Inl e, t') \<Rightarrow> (Inl e, fst s, t')
      | (Inr _, t') \<Rightarrow> ipnet_rows now rows (insert (ihn_key info) (fst s), t')))"

definition fetch_ipnet :: "nat \<Rightarrow> u32 \<times> native_neighbor list option \<Rightarrow> ih_neighbor_key set \<times> neighbor_table \<Rightarrow>
    (neighbor_table_error + unit) \<times> ih_neighbor_key set \<times> neighbor_table" where
  "fetch_ipnet now reply s = (case reply of (ret, table) \<Rightarrow>
     if ret \<noteq> 0 then (Inl (Nt_SystemError (sint ret)), s)
     else case table of None \<Rightarrow> (Inr (), s) | Some rows \<Rightarrow> ipnet_rows now rows s)"

definition iht_refresh_all :: "nat \<Rightarrow> u32 \<times> native_neighbor list option \<Rightarrow> u32 \<times> native_neighbor list option \<Rightarrow>
    neighbor_table \<Rightarrow> (neighbor_table_error + unit) \<times> neighbor_table" where
  "iht_refresh_all now reply4 reply6 t = (case fetch_ipnet now reply4 ({}, t) of
      (Inl e, _, t') \<Rightarrow> (Inl e, t')
    | (Inr _, s) \<Rightarrow> (case fetch_ipnet now reply6 s of
        (Inl e, _, t') \<Rightarrow> (Inl e, t')
      | (Inr _, keys, t') \<Rightarrow> (Inr (), filter (\<lambda>n. ihn_key n \<in> keys) t')))"

interpretation nt: checked_table ihn_key "\<lambda>_ new. new" "\<lambda>n. snd (ihn_key n) \<noteq> 0"
  by unfold_locales simp_all

lemma neighbor_of_row_key: "neighbor_of_row now row = Some n \<Longrightarrow> snd (ihn_key n) \<noteq> 0"
  by (auto simp: neighbor_of_row_def ih_neighbor_key_new_def Let_def split: option.splits if_splits)

lemma ipnet_rows_eq:
  "ipnet_rows now rows (K, t) = (Inr (), K \<union> ihn_key ` set (List.map_filter (neighbor_of_row now) rows),
     fold (upsert ihn_key (\<lambda>_ new. new)) (List.map_filter (neighbor_of_row now) rows) t)"
proof (induction rows arbitrary: K t)
  case (Cons row rows)
  show ?case
  proof (cases "neighbor_of_row now row")
    case None
    then show ?thesis using Cons.IH [of K t] by (simp add: map_filter_simps)
  next
    case (Some n)
    then show ?thesis
      using Cons.IH [of "insert (ihn_key n) K" "upsert ihn_key (\<lambda>_ new. new) n t"] neighbor_of_row_key [OF Some]
      by (simp add: map_filter_simps iht_insert_def)
  qed
qed (simp add: map_filter_simps)

definition reported_neighbors :: "nat \<Rightarrow> u32 \<times> native_neighbor list option \<Rightarrow> ih_neighbor list" where
  "reported_neighbors now reply = (case snd reply of None \<Rightarrow> [] | Some rows \<Rightarrow> List.map_filter (neighbor_of_row now) rows)"

lemma fetch_ipnet_eq:
  "fetch_ipnet now reply (K, t) = (if fst reply \<noteq> 0 then (Inl (Nt_SystemError (sint (fst reply))), K, t)
     else (Inr (), K \<union> ihn_key ` set (reported_neighbors now reply),
       fold (upsert ihn_key (\<lambda>_ new. new)) (reported_neighbors now reply) t))"
  by (simp add: fetch_ipnet_def reported_neighbors_def ipnet_rows_eq split: prod.splits option.splits)

lemma iht_refresh_all_eq:
  "iht_refresh_all now r4 r6 t =
     (let es4 = reported_neighbors now r4; es = es4 @ reported_neighbors now r6 in
      if fst r4 \<noteq> 0 then (Inl (Nt_SystemError (sint (fst r4))), t)
      else if fst r6 \<noteq> 0 then (Inl (Nt_SystemError (sint (fst r6))), fold (upsert ihn_key (\<lambda>_ new. new)) es4 t)
      else (Inr (), filter (\<lambda>n. ihn_key n \<in> ihn_key ` set es) (fold (upsert ihn_key (\<lambda>_ new. new)) es t)))"
  by (simp add: iht_refresh_all_def fetch_ipnet_eq Let_def image_Un)

text \<open>
  A refresh fails only where the system does. After it the table has one entry for each neighbour
  the system reported and none for the others, with the data of the last row that names it.
\<close>

lemma iht_refresh_exact:
  assumes "iht_refresh_all now r4 r6 t = (Inr (), t')" and "distinct (map ihn_key t)"
  shows "distinct (map ihn_key t')"
    and "lookup_by ihn_key k t' = lookup_by ihn_key k (rev (reported_neighbors now r4 @ reported_neighbors now r6))"
proof -
  let ?es = "reported_neighbors now r4 @ reported_neighbors now r6"
  have t': "t' = filter (\<lambda>n. ihn_key n \<in> ihn_key ` set ?es) (fold (upsert ihn_key (\<lambda>_ new. new)) ?es t)"
    using assms(1) by (simp add: iht_refresh_all_eq Let_def split: if_splits)
  show "distinct (map ihn_key t')" unfolding t' by (rule nt.lookup_retained(1) [OF assms(2)])
  show "lookup_by ihn_key k t' = lookup_by ihn_key k (rev ?es)"
    unfolding t' nt.lookup_retained(2) [OF assms(2)] absorb_last
    using lookup_by_None_iff [of ihn_key k "rev ?es"] by (auto split: option.splits)
qed

lemma iht_resolve_sound:
  "iht_resolve address i t = Inr mac \<Longrightarrow>
     \<exists>n \<in> set t. ihn_key n = (address, i) \<and> ihn_mac_address n = Some mac \<and> ihn_state_is_usable (ihn_state n)"
  by (auto simp: iht_resolve_def iht_get_def ihn_is_usable_def prod_eq_iff find_Some_iff
      split: sum.splits option.splits if_splits)

subsection \<open>Routes (\<open>routes.rs\<close>)\<close>

datatype ih_route_protocol = Ihp_Other | Ihp_Local | Ihp_NetMgmt | Ihp_Icmp | Ihp_Egp | Ihp_Ggp | Ihp_Hello | Ihp_Rip
  | Ihp_IsIs | Ihp_EsIs | Ihp_CisCo | Ihp_Ospf | Ihp_Bgp | Ihp_Unknown u32

definition route_protocol_from_u32 :: "u32 \<Rightarrow> ih_route_protocol" where
  "route_protocol_from_u32 v =
     (if v = 1 then Ihp_Other else if v = 2 then Ihp_Local else if v = 3 then Ihp_NetMgmt else if v = 4 then Ihp_Icmp
      else if v = 5 then Ihp_Egp else if v = 6 then Ihp_Ggp else if v = 7 then Ihp_Hello else if v = 8 then Ihp_Rip
      else if v = 9 then Ihp_IsIs else if v = 10 then Ihp_EsIs else if v = 11 then Ihp_CisCo else if v = 12 then Ihp_Ospf
      else if v = 13 then Ihp_Bgp else Ihp_Unknown v)"

datatype ih_route_type = Ihrt_Other | Ihrt_Invalid | Ihrt_Direct | Ihrt_Indirect

definition route_type_from_u32 :: "u32 \<Rightarrow> ih_route_type" where
  "route_type_from_u32 v = (if v = 1 then Ihrt_Other else if v = 2 then Ihrt_Invalid else if v = 3 then Ihrt_Direct
     else if v = 4 then Ihrt_Indirect else Ihrt_Other)"

record ih_route =
  ihr_destination :: ip_addr
  ihr_prefix_length :: u8
  ihr_next_hop :: "ip_addr option"
  ihr_interface_index :: u32
  ihr_metric :: u32
  ihr_route_type :: ih_route_type
  ihr_protocol :: ih_route_protocol

definition ih_route_new :: "ip_addr \<Rightarrow> u8 \<Rightarrow> ip_addr option \<Rightarrow> u32 \<Rightarrow> u32 \<Rightarrow> ih_route option" where
  "ih_route_new destination prefix_length next_hop interface_index metric =
     (if prefix_length > max_prefix destination \<or> interface_index = 0 then None
      else Some \<lparr> ihr_destination = destination, ihr_prefix_length = prefix_length, ihr_next_hop = next_hop,
        ihr_interface_index = interface_index, ihr_metric = metric, ihr_route_type = Ihrt_Indirect,
        ihr_protocol = Ihp_Unknown 0 \<rparr>)"

text \<open>The private functions \<open>ipv4_matches\<close> and \<open>ipv6_matches\<close> are those of the gateway's routing table.\<close>

definition ihr_matches :: "ih_route \<Rightarrow> ip_addr \<Rightarrow> bool" where
  "ihr_matches r address = (case (ihr_destination r, address) of
      (V4 network, V4 target) \<Rightarrow> ipv4_matches network target (ihr_prefix_length r)
    | (V6 network, V6 target) \<Rightarrow> ipv6_matches network target (ihr_prefix_length r)
    | _ \<Rightarrow> False)"

datatype route_table_error = Rte_InvalidInterface | Rte_InvalidPrefix | Rte_RouteNotFound | Rte_SystemError int

type_synonym route_table = "ih_route list"

definition ihr_key :: "ih_route \<Rightarrow> ip_addr \<times> u8 \<times> u32" where
  "ihr_key r = (ihr_destination r, ihr_prefix_length r, ihr_interface_index r)"

definition rtb_insert :: "ih_route \<Rightarrow> route_table \<Rightarrow> (route_table_error + unit) \<times> route_table" where
  "rtb_insert r t = (if ihr_interface_index r = 0 then (Inl Rte_InvalidInterface, t)
     else if ihr_prefix_length r > max_prefix (ihr_destination r) then (Inl Rte_InvalidPrefix, t)
     else (Inr (), upsert ihr_key (\<lambda>_ new. new) r t))"

definition ihr_order :: "ih_route \<Rightarrow> ih_route \<Rightarrow> ordering" where
  "ihr_order a b = then_cmp (cmp_by ihr_prefix_length a b) (cmp_by ihr_metric b a)"

definition rtb_lookup :: "ip_addr \<Rightarrow> route_table \<Rightarrow> route_table_error + ih_route" where
  "rtb_lookup destination t = (case max_by ihr_order (filter (\<lambda>r. ihr_matches r destination) t) of
      None \<Rightarrow> Inl Rte_RouteNotFound | Some r \<Rightarrow> Inr r)"

definition rtb_remove :: "ip_addr \<Rightarrow> u8 \<Rightarrow> u32 \<Rightarrow> route_table \<Rightarrow> (route_table_error + ih_route) \<times> route_table" where
  "rtb_remove destination prefix_length interface_index t =
     (case take_first (\<lambda>r. ihr_destination r = destination \<and> ihr_prefix_length r = prefix_length \<and>
              ihr_interface_index r = interface_index) t of
       None \<Rightarrow> (Inl Rte_RouteNotFound, t) | Some (r, t') \<Rightarrow> (Inr r, t'))"

record native_route =
  nr_interface_index :: u32
  nr_prefix :: "byte list"
  nr_prefix_length :: u8
  nr_next_hop :: "byte list"
  nr_metric :: u32
  nr_protocol :: u32

definition parse_ip_prefix :: "byte list \<Rightarrow> u8 \<Rightarrow> (ip_addr \<times> u8) option" where
  "parse_ip_prefix b len = map_option (\<lambda>ip. (ip, len)) (parse_sockaddr_inet b)"

definition route_of_row :: "native_route \<Rightarrow> ih_route option" where
  "route_of_row row = (case parse_ip_prefix (nr_prefix row) (nr_prefix_length row) of
      None \<Rightarrow> None
    | Some (dest_ip, prefix_len) \<Rightarrow>
        (case ih_route_new dest_ip prefix_len (parse_sockaddr_inet (nr_next_hop row)) (nr_interface_index row) (nr_metric row) of
           None \<Rightarrow> None
         | Some info \<Rightarrow> Some (info\<lparr> ihr_protocol := route_protocol_from_u32 (nr_protocol row) \<rparr>)))"

primrec route_rows :: "native_route list \<Rightarrow> route_table \<Rightarrow> (route_table_error + unit) \<times> route_table" where
  "route_rows [] t = (Inr (), t)"
| "route_rows (row # rows) t = (case route_of_row row of
      None \<Rightarrow> route_rows rows t
    | Some info \<Rightarrow> (case rtb_insert info t of
        (Inl e, t') \<Rightarrow> (Inl e, t')
      | (Inr _, t') \<Rightarrow> route_rows rows t'))"

definition fetch_routes :: "u32 \<times> native_route list option \<Rightarrow> route_table \<Rightarrow> (route_table_error + unit) \<times> route_table" where
  "fetch_routes reply t = (case reply of (ret, table) \<Rightarrow>
     if ret \<noteq> 0 then (Inl (Rte_SystemError (sint ret)), t)
     else case table of None \<Rightarrow> (Inr (), t) | Some rows \<Rightarrow> route_rows rows t)"

definition rtb_refresh_all :: "u32 \<times> native_route list option \<Rightarrow> u32 \<times> native_route list option \<Rightarrow> route_table \<Rightarrow>
    (route_table_error + unit) \<times> route_table" where
  "rtb_refresh_all reply4 reply6 t = (case fetch_routes reply4 [] of
      (Inl e, t') \<Rightarrow> (Inl e, t')
    | (Inr _, t') \<Rightarrow> fetch_routes reply6 t')"

definition route_ok :: "ih_route \<Rightarrow> bool" where
  "route_ok r \<longleftrightarrow> ihr_interface_index r \<noteq> 0 \<and> ihr_prefix_length r \<le> max_prefix (ihr_destination r)"

interpretation rtt: checked_table ihr_key "\<lambda>_ new. new" route_ok
  by unfold_locales simp_all

interpretation ihr_cmp: comparison ihr_order
  unfolding ihr_order_def
  by (intro comparison_then comparison_cmp_by comparison_reverse [OF comparison_cmp_by, of ihr_metric])

lemma route_of_row_ok: "route_of_row row = Some r \<Longrightarrow> route_ok r"
  by (auto simp: route_of_row_def ih_route_new_def route_ok_def not_less split: option.splits if_splits)

lemma rtb_insert_ok: "route_ok r \<Longrightarrow> rtb_insert r t = (Inr (), upsert ihr_key (\<lambda>_ new. new) r t)"
  by (simp add: rtb_insert_def route_ok_def not_less [symmetric])

lemma route_rows_eq:
  "route_rows rows t = (Inr (), fold (upsert ihr_key (\<lambda>_ new. new)) (List.map_filter route_of_row rows) t)"
proof (induction rows arbitrary: t)
  case (Cons row rows)
  then show ?case
    by (cases "route_of_row row") (simp_all add: map_filter_simps rtb_insert_ok route_of_row_ok)
qed (simp add: map_filter_simps)

definition reported_routes :: "u32 \<times> native_route list option \<Rightarrow> ih_route list" where
  "reported_routes reply = (case snd reply of None \<Rightarrow> [] | Some rows \<Rightarrow> List.map_filter route_of_row rows)"

lemma fetch_routes_eq:
  "fetch_routes reply t = (if fst reply \<noteq> 0 then (Inl (Rte_SystemError (sint (fst reply))), t)
     else (Inr (), fold (upsert ihr_key (\<lambda>_ new. new)) (reported_routes reply) t))"
  by (simp add: fetch_routes_def reported_routes_def route_rows_eq split: prod.splits option.splits)

lemma reported_routes_ok: "r \<in> set (reported_routes reply) \<Longrightarrow> route_ok r"
  by (auto simp: reported_routes_def List.map_filter_def route_of_row_ok split: option.splits)

text \<open>
  The table is emptied before the system is asked: a refresh that fails has lost the routes it had,
  and one that fails on the second family keeps those of the first only.
\<close>

lemma rtb_refresh_all_eq:
  "rtb_refresh_all r4 r6 t =
     (if fst r4 \<noteq> 0 then (Inl (Rte_SystemError (sint (fst r4))), [])
      else let t4 = fold (upsert ihr_key (\<lambda>_ new. new)) (reported_routes r4) [] in
        if fst r6 \<noteq> 0 then (Inl (Rte_SystemError (sint (fst r6))), t4)
        else (Inr (), fold (upsert ihr_key (\<lambda>_ new. new)) (reported_routes r6) t4))"
  by (simp add: rtb_refresh_all_def fetch_routes_eq Let_def)

lemma set_upserts_last: "set (fold (upsert key (\<lambda>_ new. new)) es xs) \<subseteq> set es \<union> set xs"
proof (induction es arbitrary: xs)
  case (Cons e es)
  have "set (upsert key (\<lambda>_ new. new) e xs) \<subseteq> insert e (set xs)" by (induction xs) auto
  then show ?case using Cons.IH [of "upsert key (\<lambda>_ new. new) e xs"] by auto
qed simp

lemma ihr_matches_iff:
  assumes "route_ok r"
  shows "ihr_matches r a \<longleftrightarrow> same_prefix (unat (ihr_prefix_length r)) (ihr_destination r) a"
proof -
  have "ihr_matches r a = routing_matches \<lparr> re_destination = ihr_destination r, re_prefix_len = ihr_prefix_length r,
      re_next_hop = None, re_interface_id = 0, re_metric = 0, re_enabled = True \<rparr> a"
    by (simp add: ihr_matches_def routing_matches_def split: ip_addr.splits)
  then show ?thesis using assms by (simp add: routing_matches_iff route_ok_def)
qed

text \<open>
  the routes of the host. After a refresh every entry of the table is a row the system
  reported, the last one for its destination, prefix length and interface; and \<open>lookup\<close> returns an
  entry whose prefix the address has, with no longer one in the table and no lower metric among
  those of the same length, or reports that there is none.
\<close>

lemma host_route_lookup:
  assumes "rtb_refresh_all r4 r6 t = (Inr (), t')"
    and "rows = reported_routes r4 @ reported_routes r6"
    and "cand = {r \<in> set t'. same_prefix (unat (ihr_prefix_length r)) (ihr_destination r) a}"
  shows "(\<forall>k. lookup_by ihr_key k t' = lookup_by ihr_key k (rev rows)) \<and> distinct (map ihr_key t') \<and>
    (case rtb_lookup a t' of
       Inl e \<Rightarrow> cand = {} \<and> e = Rte_RouteNotFound
     | Inr r \<Rightarrow> r \<in> cand \<and> (\<forall>y \<in> cand. ihr_prefix_length y < ihr_prefix_length r \<or>
         ihr_prefix_length y = ihr_prefix_length r \<and> ihr_metric r \<le> ihr_metric y))"
proof -
  have t': "t' = fold (upsert ihr_key (\<lambda>_ new. new)) rows []"
    using assms(1) by (simp add: rtb_refresh_all_eq assms(2) Let_def split: if_splits)
  have "distinct (map ihr_key t')" unfolding t' by (rule rtt.distinct_upserts) simp
  moreover have "lookup_by ihr_key k t' = lookup_by ihr_key k (rev rows)" for k
    by (simp add: t' rtt.lookup_upserts absorb_last split: option.splits)
  moreover have ok: "route_ok r" if "r \<in> set t'" for r
  proof -
    have "r \<in> set rows" using that set_upserts_last [of ihr_key rows "[]"] unfolding t' by auto
    then show ?thesis using reported_routes_ok [of r r4] reported_routes_ok [of r r6] by (auto simp: assms(2))
  qed
  let ?f = "filter (\<lambda>r. ihr_matches r a) t'"
  have f: "set ?f = cand" using ok ihr_matches_iff assms(3) by auto
  have "case rtb_lookup a t' of Inl e \<Rightarrow> cand = {} \<and> e = Rte_RouteNotFound
     | Inr r \<Rightarrow> r \<in> cand \<and> (\<forall>y \<in> cand. ihr_prefix_length y < ihr_prefix_length r \<or>
         ihr_prefix_length y = ihr_prefix_length r \<and> ihr_metric r \<le> ihr_metric y)"
  proof (cases "max_by ihr_order ?f")
    case None
    then have "?f = []" by (simp only: max_by_None_iff)
    then show ?thesis using f None by (auto simp: rtb_lookup_def)
  next
    case (Some r)
    then show ?thesis
      using ihr_cmp.max_by_spec [OF Some] f by (auto simp: rtb_lookup_def ihr_order_def cmp_by_def split: if_splits)
  qed
  ultimately show ?thesis by blast
qed

definition demo_native_route :: native_route where
  "demo_native_route = \<lparr> nr_interface_index = 4, nr_prefix = [2, 0, 0, 0, 10, 0, 0, 0] @ replicate 20 0, nr_prefix_length = 8,
     nr_next_hop = [2, 0, 0, 0, 10, 0, 0, 1] @ replicate 20 0, nr_metric = 25, nr_protocol = 3 \<rparr>"

definition demo_ih_route :: ih_route where
  "demo_ih_route = \<lparr> ihr_destination = V4 0x0A000000, ihr_prefix_length = 8, ihr_next_hop = Some (V4 0x0A000001),
     ihr_interface_index = 4, ihr_metric = 25, ihr_route_type = Ihrt_Indirect, ihr_protocol = Ihp_NetMgmt \<rparr>"

lemma demo_route_refresh:
  "rtb_refresh_all (0, Some [demo_native_route]) (0, None) [] = (Inr (), [demo_ih_route])"
  "reported_routes (0, Some [demo_native_route]) @ reported_routes (0, None) = [demo_ih_route]"
  by code_simp+

theorem host_route_lookup_witness:
  "case rtb_lookup (V4 0x0A010203) [demo_ih_route] of Inl e \<Rightarrow> False | Inr r \<Rightarrow> ihr_next_hop r = Some (V4 0x0A000001)"
proof -
  have c: "{r \<in> set [demo_ih_route]. same_prefix (unat (ihr_prefix_length r)) (ihr_destination r) (V4 0x0A010203)} =
      {demo_ih_route}"
  proof -
    have "ihr_matches demo_ih_route (V4 0x0A010203)" by code_simp
    moreover have "route_ok demo_ih_route" by code_simp
    ultimately show ?thesis by (auto simp: ihr_matches_iff)
  qed
  show ?thesis
    using host_route_lookup [OF demo_route_refresh(1) refl refl, of "V4 0x0A010203"]
    unfolding c by (auto simp: demo_ih_route_def split: sum.splits)
qed

end
