(* ===== verification/Iphelper.thy ===== *)
theory Iphelper
  imports Iphelper_Tables
begin

text \<open>
  \<open>crates/backend-iphelper\<close>, continued: the table of the host's TCP and UDP connections
  (\<open>connections.rs\<close>) and the backend that holds the four tables behind their locks (\<open>lib.rs\<close>).
  Each fetch asks the system twice, first for the size and then for the table; its reply is the two
  statuses and the rows. The clock does not advance during a call.
\<close>

subsection \<open>Connections (\<open>connections.rs\<close>)\<close>

datatype connection_protocol = Cp_Tcp | Cp_Udp | Cp_Tcp6 | Cp_Udp6 | Cp_Unknown

datatype ih_connection_state = Ics_Closed | Ics_Listen | Ics_SynSent | Ics_SynReceived | Ics_Established | Ics_FinWait1
  | Ics_FinWait2 | Ics_CloseWait | Ics_Closing | Ics_LastAck | Ics_TimeWait | Ics_DeleteTcb | Ics_Unknown

definition ics_is_active :: "ih_connection_state \<Rightarrow> bool" where
  "ics_is_active s \<longleftrightarrow> s \<in> {Ics_Listen, Ics_SynSent, Ics_SynReceived, Ics_Established, Ics_FinWait1, Ics_FinWait2,
     Ics_CloseWait, Ics_Closing, Ics_LastAck, Ics_TimeWait}"

definition ics_is_terminal :: "ih_connection_state \<Rightarrow> bool" where
  "ics_is_terminal s \<longleftrightarrow> s \<in> {Ics_Closed, Ics_DeleteTcb}"

record ih_connection_key =
  ck_protocol :: connection_protocol
  ck_local_address :: ip_addr
  ck_local_port :: u16
  ck_remote_address :: "ip_addr option"
  ck_remote_port :: "u16 option"

definition connection_key_new ::
  "connection_protocol \<Rightarrow> ip_addr \<Rightarrow> u16 \<Rightarrow> ip_addr option \<Rightarrow> u16 option \<Rightarrow> ih_connection_key option" where
  "connection_key_new protocol local_address local_port remote_address remote_port =
     (case (remote_address, remote_port) of
        (Some _, None) \<Rightarrow> None
      | (None, Some _) \<Rightarrow> None
      | _ \<Rightarrow> Some \<lparr> ck_protocol = protocol, ck_local_address = local_address, ck_local_port = local_port,
          ck_remote_address = remote_address, ck_remote_port = remote_port \<rparr>)"

record ih_connection =
  ic_key :: ih_connection_key
  ic_state :: ih_connection_state
  ic_process_id :: "u32 option"
  ic_owner_module :: "string option"
  ic_created_at :: nat
  ic_updated_at :: nat

definition ih_connection_new :: "nat \<Rightarrow> ih_connection_key \<Rightarrow> ih_connection_state \<Rightarrow> ih_connection" where
  "ih_connection_new now key st = \<lparr> ic_key = key, ic_state = st, ic_process_id = None, ic_owner_module = None,
     ic_created_at = now, ic_updated_at = now \<rparr>"

definition ic_touch :: "nat \<Rightarrow> ih_connection \<Rightarrow> ih_connection" where
  "ic_touch now c = c\<lparr> ic_updated_at := now \<rparr>"

definition ic_age :: "nat \<Rightarrow> ih_connection \<Rightarrow> duration" where
  "ic_age now c = now - ic_updated_at c"

definition ic_set_process_id :: "nat \<Rightarrow> u32 \<Rightarrow> ih_connection \<Rightarrow> ih_connection" where
  "ic_set_process_id now pid c = ic_touch now (c\<lparr> ic_process_id := Some pid \<rparr>)"

definition ic_set_owner_module :: "nat \<Rightarrow> string \<Rightarrow> ih_connection \<Rightarrow> ih_connection" where
  "ic_set_owner_module now m c = ic_touch now (c\<lparr> ic_owner_module := Some m \<rparr>)"

datatype connection_table_error = Ct_InvalidPort | Ct_ConnectionNotFound | Ct_SystemError int

type_synonym ih_connection_table = "ih_connection list"

definition replace_connection :: "ih_connection \<Rightarrow> ih_connection \<Rightarrow> ih_connection" where
  \<comment> \<open>an overwritten entry hands on its time of creation\<close>
  "replace_connection existing c = c\<lparr> ic_created_at := ic_created_at existing \<rparr>"

definition ct_insert :: "ih_connection \<Rightarrow> ih_connection_table \<Rightarrow> (connection_table_error + unit) \<times> ih_connection_table" where
  "ct_insert c t = (if ck_local_port (ic_key c) = 0 then (Inl Ct_InvalidPort, t)
     else (Inr (), upsert ic_key replace_connection c t))"

definition ct_get :: "ih_connection_key \<Rightarrow> ih_connection_table \<Rightarrow> connection_table_error + ih_connection" where
  "ct_get key t = (case List.find (\<lambda>e. ic_key e = key) t of None \<Rightarrow> Inl Ct_ConnectionNotFound | Some c \<Rightarrow> Inr c)"

definition ct_update_state :: "nat \<Rightarrow> ih_connection_key \<Rightarrow> ih_connection_state \<Rightarrow> ih_connection_table \<Rightarrow>
    (connection_table_error + unit) \<times> ih_connection_table" where
  "ct_update_state now key st t =
     (case update_first (\<lambda>e. ic_key e = key) (\<lambda>c. ic_touch now (c\<lparr> ic_state := st \<rparr>)) t of
        None \<Rightarrow> (Inl Ct_ConnectionNotFound, t) | Some t' \<Rightarrow> (Inr (), t'))"

definition ct_remove ::
  "ih_connection_key \<Rightarrow> ih_connection_table \<Rightarrow> (connection_table_error + ih_connection) \<times> ih_connection_table" where
  "ct_remove key t = (case take_first (\<lambda>e. ic_key e = key) t of
      None \<Rightarrow> (Inl Ct_ConnectionNotFound, t) | Some (c, t') \<Rightarrow> (Inr c, t'))"

definition ct_remove_expired :: "nat \<Rightarrow> duration \<Rightarrow> ih_connection_table \<Rightarrow> nat \<times> ih_connection_table" where
  "ct_remove_expired now max_age t = (let t' = filter (\<lambda>c. ic_age now c \<le> max_age) t in (length t - length t', t'))"

definition ct_active :: "ih_connection_table \<Rightarrow> ih_connection list" where
  "ct_active t = filter (\<lambda>c. ics_is_active (ic_state c)) t"

definition map_tcp_state :: "u32 \<Rightarrow> ih_connection_state" where
  "map_tcp_state s = (if s = 1 then Ics_Closed else if s = 2 then Ics_Listen else if s = 3 then Ics_SynSent
     else if s = 4 then Ics_SynReceived else if s = 5 then Ics_Established else if s = 6 then Ics_FinWait1
     else if s = 7 then Ics_FinWait2 else if s = 8 then Ics_CloseWait else if s = 9 then Ics_Closing
     else if s = 10 then Ics_LastAck else if s = 11 then Ics_TimeWait else if s = 12 then Ics_DeleteTcb else Ics_Unknown)"

record tcp4_row =
  t4_state :: u32
  t4_local_addr :: u32
  t4_local_port :: u32
  t4_remote_addr :: u32
  t4_remote_port :: u32
  t4_owning_pid :: u32

record tcp6_row =
  t6_local_addr :: "byte list"
  t6_local_port :: u32
  t6_remote_addr :: "byte list"
  t6_remote_port :: u32
  t6_state :: u32
  t6_owning_pid :: u32

record udp4_row =
  u4_local_addr :: u32
  u4_local_port :: u32
  u4_owning_pid :: u32

record udp6_row =
  u6_local_addr :: "byte list"
  u6_local_port :: u32
  u6_owning_pid :: u32

definition row_port :: "u32 \<Rightarrow> u16" where
  \<comment> \<open>\<open>u16::from_be(port as u16)\<close>\<close>
  "row_port p = swap16 (ucast p)"

text \<open>What the body of each loop makes of a row: a key, if the remote end is given whole or not at all.\<close>

definition tcp4_entry :: "tcp4_row \<Rightarrow> ih_connection_key option \<times> ih_connection_state \<times> u32" where
  "tcp4_entry row =
     (connection_key_new Cp_Tcp (V4 (t4_local_addr row)) (row_port (t4_local_port row))
        (if t4_remote_addr row \<noteq> 0 then Some (V4 (t4_remote_addr row)) else None)
        (if t4_remote_port row \<noteq> 0 then Some (row_port (t4_remote_port row)) else None),
      map_tcp_state (t4_state row), t4_owning_pid row)"

definition tcp6_entry :: "tcp6_row \<Rightarrow> ih_connection_key option \<times> ih_connection_state \<times> u32" where
  "tcp6_entry row =
     (connection_key_new Cp_Tcp6 (V6 (u128_from_be_bytes (t6_local_addr row))) (row_port (t6_local_port row))
        (if t6_remote_addr row \<noteq> replicate 16 0 then Some (V6 (u128_from_be_bytes (t6_remote_addr row))) else None)
        (if t6_remote_port row \<noteq> 0 then Some (row_port (t6_remote_port row)) else None),
      map_tcp_state (t6_state row), t6_owning_pid row)"

definition udp4_entry :: "udp4_row \<Rightarrow> ih_connection_key option \<times> ih_connection_state \<times> u32" where
  "udp4_entry row = (connection_key_new Cp_Udp (V4 (u4_local_addr row)) (row_port (u4_local_port row)) None None,
     Ics_Established, u4_owning_pid row)"

definition udp6_entry :: "udp6_row \<Rightarrow> ih_connection_key option \<times> ih_connection_state \<times> u32" where
  "udp6_entry row = (connection_key_new Cp_Udp6 (V6 (u128_from_be_bytes (u6_local_addr row))) (row_port (u6_local_port row)) None None,
     Ics_Established, u6_owning_pid row)"

type_synonym fetch_state = "ih_connection_key set \<times> ih_connection_table"

primrec connection_rows :: "nat \<Rightarrow> (ih_connection_key option \<times> ih_connection_state \<times> u32) list \<Rightarrow> fetch_state \<Rightarrow>
    (connection_table_error + unit) \<times> fetch_state" where
  "connection_rows now [] s = (Inr (), s)"
| "connection_rows now (row # rows) s = (case row of (key, st, pid) \<Rightarrow>
     (case key of
        None \<Rightarrow> connection_rows now rows s
      | Some k \<Rightarrow>
          let current_keys = insert k (fst s); info = ic_set_process_id now pid (ih_connection_new now k st) in
          (case ct_insert info (snd s) of
             (Inl e, t') \<Rightarrow> (Inl e, current_keys, t')
           | (Inr _, t') \<Rightarrow> connection_rows now rows (current_keys, t'))))"

definition fetch_table :: "nat \<Rightarrow> ('row \<Rightarrow> ih_connection_key option \<times> ih_connection_state \<times> u32) \<Rightarrow>
    u32 \<times> u32 \<times> 'row list \<Rightarrow> fetch_state \<Rightarrow> (connection_table_error + unit) \<times> fetch_state" where
  "fetch_table now entry reply s = (case reply of (probe, ret, rows) \<Rightarrow>
     if probe \<noteq> 0 \<and> probe \<noteq> 122 then (Inl (Ct_SystemError (sint probe)), s)
     else if ret \<noteq> 0 then (Inl (Ct_SystemError (sint ret)), s)
     else connection_rows now (map entry rows) s)"

definition fetch_tcp_v4 where "fetch_tcp_v4 now = fetch_table now tcp4_entry"
definition fetch_tcp_v6 where "fetch_tcp_v6 now = fetch_table now tcp6_entry"
definition fetch_udp_v4 where "fetch_udp_v4 now = fetch_table now udp4_entry"
definition fetch_udp_v6 where "fetch_udp_v6 now = fetch_table now udp6_entry"

record connection_replies =
  cr_tcp4 :: "u32 \<times> u32 \<times> tcp4_row list"
  cr_tcp6 :: "u32 \<times> u32 \<times> tcp6_row list"
  cr_udp4 :: "u32 \<times> u32 \<times> udp4_row list"
  cr_udp6 :: "u32 \<times> u32 \<times> udp6_row list"

definition and_then :: "('e + unit) \<times> 's \<Rightarrow> ('s \<Rightarrow> ('e + unit) \<times> 's) \<Rightarrow> ('e + unit) \<times> 's" where
  \<comment> \<open>the \<open>?\<close> operator on calls that return no value\<close>
  "and_then x f = (case x of (Inl e, s) \<Rightarrow> (Inl e, s) | (Inr _, s) \<Rightarrow> f s)"

definition ct_refresh_all :: "nat \<Rightarrow> connection_replies \<Rightarrow> ih_connection_table \<Rightarrow>
    (connection_table_error + unit) \<times> ih_connection_table" where
  "ct_refresh_all now rp t =
     (case and_then (and_then (and_then (fetch_tcp_v4 now (cr_tcp4 rp) ({}, t)) (fetch_tcp_v6 now (cr_tcp6 rp)))
              (fetch_udp_v4 now (cr_udp4 rp))) (fetch_udp_v6 now (cr_udp6 rp)) of
        (Inl e, _, t') \<Rightarrow> (Inl e, t')
      | (Inr _, current_keys, t') \<Rightarrow> (Inr (), filter (\<lambda>c. ic_key c \<in> current_keys) t'))"

subsubsection \<open>What a refresh does\<close>

definition bound :: "ih_connection \<Rightarrow> bool" where
  "bound c \<longleftrightarrow> ck_local_port (ic_key c) \<noteq> 0"

interpretation ct: checked_table ic_key replace_connection bound
  by unfold_locales (simp_all add: replace_connection_def bound_def)

lemma and_then_simps [simp]:
  "and_then (Inl e, s) f = (Inl e, s)"
  "and_then (Inr u, s) f = f s"
  by (simp_all add: and_then_def)

definition entry_connection :: "nat \<Rightarrow> ih_connection_key option \<times> ih_connection_state \<times> u32 \<Rightarrow> ih_connection option" where
  "entry_connection now e = map_option (\<lambda>k. ic_set_process_id now (snd (snd e)) (ih_connection_new now k (fst (snd e)))) (fst e)"

lemma entry_connection_simps [simp]:
  "entry_connection now (Some k, st, pid) = Some (ic_set_process_id now pid (ih_connection_new now k st))"
  "entry_connection now (None, st, pid) = None"
  by (simp_all add: entry_connection_def)

lemma new_connection_simps [simp]:
  "ic_key (ic_set_process_id now pid (ih_connection_new now k st)) = k"
  "ic_created_at (ic_set_process_id now pid (ih_connection_new now k st)) = now"
  by (simp_all add: ic_set_process_id_def ic_touch_def ih_connection_new_def)

text \<open>The rows up to the first one without a local port are taken over; that one ends the loop with an error.\<close>

lemma connection_rows_eq:
  "let cs = List.map_filter (entry_connection now) es in
   \<exists>K'. connection_rows now es (K, t) =
     (if list_all bound cs then Inr () else Inl Ct_InvalidPort, K',
      fold (upsert ic_key replace_connection) (takeWhile bound cs) t) \<and>
     (list_all bound cs \<longrightarrow> K' = K \<union> ic_key ` set cs)"
proof (induction es arbitrary: K t)
  case (Cons e es)
  obtain key st pid where e: "e = (key, st, pid)" by (cases e) auto
  show ?case
  proof (cases key)
    case None
    then show ?thesis using Cons.IH [of K t] by (simp add: e map_filter_simps Let_def)
  next
    case (Some k)
    let ?c = "ic_set_process_id now pid (ih_connection_new now k st)"
    show ?thesis
    proof (cases "ck_local_port k = 0")
      case True
      then show ?thesis using Some by (simp add: e map_filter_simps Let_def ct_insert_def bound_def)
    next
      case False
      then show ?thesis
        using Some Cons.IH [of "insert k K" "upsert ic_key replace_connection ?c t"]
        by (simp add: e map_filter_simps Let_def ct_insert_def bound_def)
    qed
  qed
qed (simp add: map_filter_simps Let_def)

definition reported :: "nat \<Rightarrow> ('row \<Rightarrow> ih_connection_key option \<times> ih_connection_state \<times> u32) \<Rightarrow> u32 \<times> u32 \<times> 'row list \<Rightarrow>
    ih_connection list" where
  "reported now entry reply = List.map_filter (entry_connection now) (map entry (snd (snd reply)))"

definition answered :: "u32 \<times> u32 \<times> 'row list \<Rightarrow> bool" where
  "answered reply \<longleftrightarrow> (fst reply = 0 \<or> fst reply = 122) \<and> fst (snd reply) = 0"

text \<open>
  A fetch only ever inserts, and it is complete exactly if the system answers and every row is
  bound. \<open>fetches P cs f\<close> says that of \<open>f\<close>; the \<open>?\<close> operator composes it.
\<close>

definition fetches :: "bool \<Rightarrow> ih_connection list \<Rightarrow> (fetch_state \<Rightarrow> (connection_table_error + unit) \<times> fetch_state) \<Rightarrow> bool" where
  "fetches P cs f \<longleftrightarrow> (\<forall>K t. if P then list_all bound cs \<and>
       f (K, t) = (Inr (), K \<union> ic_key ` set cs, fold (upsert ic_key replace_connection) cs t)
     else \<exists>e K' es. f (K, t) = (Inl e, K', fold (upsert ic_key replace_connection) es t) \<and> list_all bound es)"

lemma fetches_error:
  "(\<And>K t. \<exists>e K' es. f (K, t) = (Inl e, K', fold (upsert ic_key replace_connection) es t) \<and> list_all bound es) \<Longrightarrow> \<not> P \<Longrightarrow>
     fetches P cs f"
  by (simp add: fetches_def)

lemma fetches_table:
  "fetches (answered reply \<and> list_all bound (reported now entry reply)) (reported now entry reply) (fetch_table now entry reply)"
proof -
  obtain probe ret rows where r: "reply = (probe, ret, rows)" by (cases reply) auto
  let ?cs = "reported now entry reply"
  show ?thesis
  proof (cases "answered reply")
    case False
    then have "\<exists>e. fetch_table now entry reply (K, t) = (Inl e, K, t)" for K t
      by (auto simp: r answered_def fetch_table_def)
    then have "\<exists>e K' es. fetch_table now entry reply (K, t) = (Inl e, K', fold (upsert ic_key replace_connection) es t) \<and>
        list_all bound es" for K t
    proof -
      from \<open>\<And>K t. \<exists>e. fetch_table now entry reply (K, t) = (Inl e, K, t)\<close> obtain e where
        "fetch_table now entry reply (K, t) = (Inl e, K, t)" by blast
      then show ?thesis by (intro exI [of _ e] exI [of _ K] exI [of _ "[]"]) simp
    qed
    then show ?thesis using False by (auto intro: fetches_error)
  next
    case True
    have "fetch_table now entry reply (K, t) = connection_rows now (map entry rows) (K, t)" for K t
      using True by (auto simp: r answered_def fetch_table_def)
    then have c: "\<exists>K'. fetch_table now entry reply (K, t) = (if list_all bound ?cs then Inr () else Inl Ct_InvalidPort, K',
        fold (upsert ic_key replace_connection) (takeWhile bound ?cs) t) \<and>
        (list_all bound ?cs \<longrightarrow> K' = K \<union> ic_key ` set ?cs)" for K t
      using connection_rows_eq [of now "map entry rows" K t] by (simp add: Let_def reported_def r)
    show ?thesis
    proof (cases "list_all bound ?cs")
      case b: True
      then have "takeWhile bound ?cs = ?cs" unfolding takeWhile_eq_all_conv list_all_iff .
      with c have "fetch_table now entry reply (K, t) = (Inr (), K \<union> ic_key ` set ?cs,
          fold (upsert ic_key replace_connection) ?cs t)" for K t
        using b by simp
      then show ?thesis using True b by (simp add: fetches_def)
    next
      case b: False
      have "list_all bound (takeWhile bound ?cs)" by (auto simp: list_all_iff dest: set_takeWhileD)
      then have "\<exists>e K' es. fetch_table now entry reply (K, t) = (Inl e, K', fold (upsert ic_key replace_connection) es t) \<and>
          list_all bound es" for K t
        using c [of K t] b by (auto simp del: fold_append)
      then show ?thesis using b by (intro fetches_error) simp_all
    qed
  qed
qed

lemma fetches_then:
  assumes "fetches P cs f" and "fetches Q ds g"
  shows "fetches (P \<and> Q) (cs @ ds) (\<lambda>s. and_then (f s) g)"
proof (cases P)
  case False
  have "\<exists>e K' es. and_then (f (K, t)) g = (Inl e, K', fold (upsert ic_key replace_connection) es t) \<and> list_all bound es" for K t
    using assms(1) False and_then_simps(1) unfolding fetches_def by metis
  then show ?thesis using False by (auto intro: fetches_error)
next
  case True
  then have f: "list_all bound cs" "f (K, t) = (Inr (), K \<union> ic_key ` set cs, fold (upsert ic_key replace_connection) cs t)" for K t
    using assms(1) by (auto simp: fetches_def)
  show ?thesis
  proof (cases Q)
    case True
    then show ?thesis using \<open>P\<close> assms(2) f by (simp add: fetches_def image_Un Un_assoc)
  next
    case False
    have "\<exists>e K' es. and_then (f (K, t)) g = (Inl e, K', fold (upsert ic_key replace_connection) es t) \<and> list_all bound es" for K t
    proof -
      from assms(2) False obtain e K' es where "g (K \<union> ic_key ` set cs, fold (upsert ic_key replace_connection) cs t) =
          (Inl e, K', fold (upsert ic_key replace_connection) es (fold (upsert ic_key replace_connection) cs t))" "list_all bound es"
        unfolding fetches_def by metis
      then show ?thesis using f by (intro exI [of _ e] exI [of _ K'] exI [of _ "cs @ es"]) simp
    qed
    then show ?thesis using False by (auto intro: fetches_error)
  qed
qed

definition all_answered :: "connection_replies \<Rightarrow> bool" where
  "all_answered rp \<longleftrightarrow> answered (cr_tcp4 rp) \<and> answered (cr_tcp6 rp) \<and> answered (cr_udp4 rp) \<and> answered (cr_udp6 rp)"

definition all_reported :: "nat \<Rightarrow> connection_replies \<Rightarrow> ih_connection list" where
  "all_reported now rp = reported now tcp4_entry (cr_tcp4 rp) @ reported now tcp6_entry (cr_tcp6 rp) @
     reported now udp4_entry (cr_udp4 rp) @ reported now udp6_entry (cr_udp6 rp)"

lemma ct_refresh_all_cases:
  "if all_answered rp \<and> list_all bound (all_reported now rp) then
     ct_refresh_all now rp t = (Inr (), filter (\<lambda>c. ic_key c \<in> ic_key ` set (all_reported now rp))
       (fold (upsert ic_key replace_connection) (all_reported now rp) t))
   else \<exists>e es. ct_refresh_all now rp t = (Inl e, fold (upsert ic_key replace_connection) es t) \<and> list_all bound es"
proof -
  let ?f = "\<lambda>s. and_then (and_then (and_then (fetch_tcp_v4 now (cr_tcp4 rp) s) (fetch_tcp_v6 now (cr_tcp6 rp)))
              (fetch_udp_v4 now (cr_udp4 rp))) (fetch_udp_v6 now (cr_udp6 rp))"
  have P: "(((answered (cr_tcp4 rp) \<and> list_all bound (reported now tcp4_entry (cr_tcp4 rp))) \<and>
      (answered (cr_tcp6 rp) \<and> list_all bound (reported now tcp6_entry (cr_tcp6 rp)))) \<and>
      (answered (cr_udp4 rp) \<and> list_all bound (reported now udp4_entry (cr_udp4 rp)))) \<and>
      (answered (cr_udp6 rp) \<and> list_all bound (reported now udp6_entry (cr_udp6 rp))) \<longleftrightarrow>
      all_answered rp \<and> list_all bound (all_reported now rp)"
    by (auto simp: all_answered_def all_reported_def)
  have "fetches (all_answered rp \<and> list_all bound (all_reported now rp)) (((reported now tcp4_entry (cr_tcp4 rp) @
      reported now tcp6_entry (cr_tcp6 rp)) @ reported now udp4_entry (cr_udp4 rp)) @ reported now udp6_entry (cr_udp6 rp)) ?f"
    unfolding P [symmetric] fetch_tcp_v4_def fetch_tcp_v6_def fetch_udp_v4_def fetch_udp_v6_def
    by (intro fetches_then fetches_table)
  then have f: "fetches (all_answered rp \<and> list_all bound (all_reported now rp)) (all_reported now rp) ?f"
    by (simp only: append_assoc all_reported_def)
  show ?thesis
  proof (cases "all_answered rp \<and> list_all bound (all_reported now rp)")
    case True
    then show ?thesis using f by (simp add: fetches_def ct_refresh_all_def)
  next
    case False
    with f obtain e K' es where "?f ({}, t) = (Inl e, K', fold (upsert ic_key replace_connection) es t)" "list_all bound es"
      unfolding fetches_def by metis
    then show ?thesis using False by (auto simp: ct_refresh_all_def)
  qed
qed

lemma absorb_connections:
  assumes "\<forall>e \<in> set es. ic_created_at e = now"
  shows "absorb replace_connection (filter (\<lambda>e. ic_key e = k) es) old = (case lookup_by ic_key k (rev es) of
      None \<Rightarrow> old
    | Some e \<Rightarrow> Some (e\<lparr> ic_created_at := (case old of None \<Rightarrow> now | Some c \<Rightarrow> ic_created_at c) \<rparr>))"
  using assms
proof (induction es arbitrary: old)
  case (Cons e es)
  show ?case
  proof (cases "ic_key e = k")
    case True
    let ?o = "Some (case old of None \<Rightarrow> e | Some x \<Rightarrow> replace_connection x e)"
    have "e\<lparr> ic_created_at := now \<rparr> = e" using Cons.prems by simp
    then show ?thesis using True Cons.IH [of ?o] Cons.prems
      by (auto simp: lookup_by_append replace_connection_def split: option.splits)
  next
    case False
    then show ?thesis using Cons.IH [of old] Cons.prems by (auto simp: lookup_by_append split: option.splits)
  qed
qed simp

lemma reported_created: "c \<in> set (reported now entry reply) \<Longrightarrow> ic_created_at c = now"
  by (auto simp: reported_def List.map_filter_def entry_connection_def)

lemma all_reported_created: "\<forall>c \<in> set (all_reported now rp). ic_created_at c = now"
  unfolding all_reported_def set_append by (blast dest: reported_created)


text \<open>
  One row without a local port therefore keeps every stale connection in the table: nothing is
  retained or removed after it.
\<close>

lemma unbound_row_keeps_stale:
  assumes "cr_tcp4 rp = (122, 0, rows)" and "row \<in> set rows" and "ucast (t4_local_port row) = (0 :: u16)"
    and "t4_remote_addr row = 0" and "t4_remote_port row = 0"
  shows "\<exists>e. fst (ct_refresh_all now rp t) = Inl e"
proof -
  have "entry_connection now (tcp4_entry row) \<noteq> None \<and> \<not> bound (the (entry_connection now (tcp4_entry row)))"
    using assms(3-5) by (simp add: tcp4_entry_def connection_key_new_def entry_connection_def bound_def row_port_def
        swap16_def hi8_def lo8_def be16_def)
  then obtain c where "entry_connection now (tcp4_entry row) = Some c" "\<not> bound c" by auto
  moreover then have "c \<in> set (reported now tcp4_entry (cr_tcp4 rp))"
    using assms(1,2) by (auto simp: reported_def set_map_filter)
  ultimately have "\<not> list_all bound (reported now tcp4_entry (cr_tcp4 rp))"
    by (auto simp: list_all_iff)
  then have "\<not> list_all bound (all_reported now rp)" by (simp add: all_reported_def)
  then show ?thesis using ct_refresh_all_cases [of rp now t] by (auto simp: fst_def)
qed

text \<open>
  The system stores IPv4 addresses in network order, so the host reads \<open>a.b.c.d\<close> as \<open>be32 d c b a\<close>.
  The loops take that number for the address, unlike the socket addresses of the other tables.
\<close>

lemma tcp4_address_reversed:
  assumes "t4_local_addr row = be32 d c b a" and "fst (tcp4_entry row) = Some k"
  shows "ck_local_address k = V4 (be32 d c b a)"
    and "parse_sockaddr_inet ([2, 0, 0, 0, a, b, c, d] @ zs) = Some (V4 (be32 a b c d))"
  using assms by (auto simp: tcp4_entry_def connection_key_new_def parse_sockaddr_inet_v4 split: option.splits if_splits)

definition demo_connection_replies :: connection_replies where
  "demo_connection_replies = \<lparr> cr_tcp4 = (122, 0, [\<lparr> t4_state = 5, t4_local_addr = 0x0100007F, t4_local_port = 0x5000,
       t4_remote_addr = 0x0200000A, t4_remote_port = 0xBB01, t4_owning_pid = 7 \<rparr>]),
     cr_tcp6 = (122, 0, []), cr_udp4 = (122, 0, []), cr_udp6 = (122, 0, []) \<rparr>"

definition demo_ih_key :: ih_connection_key where
  "demo_ih_key = \<lparr> ck_protocol = Cp_Tcp, ck_local_address = V4 0x0100007F, ck_local_port = 80,
     ck_remote_address = Some (V4 0x0200000A), ck_remote_port = Some 443 \<rparr>"

lemma demo_connections_reported:
  "all_reported 9 demo_connection_replies = [\<lparr> ic_key = demo_ih_key, ic_state = Ics_Established, ic_process_id = Some 7,
     ic_owner_module = None, ic_created_at = 9, ic_updated_at = 9 \<rparr>]"
  by code_simp


subsection \<open>The backend (\<open>lib.rs\<close>)\<close>

datatype ip_helper_error = Ihe_NotRunning | Ihe_AlreadyRunning | Ihe_InitializationFailed | Ihe_QueryFailed

text \<open>Each table has its own \<open>RwLock\<close>; a poisoned one makes every access fail.\<close>

record iphelper_backend =
  ihb_running :: bool
  ihb_interfaces :: interface_table
  ihb_routes :: route_table
  ihb_neighbors :: neighbor_table
  ihb_connections :: ih_connection_table
  ihb_interfaces_poisoned :: bool
  ihb_routes_poisoned :: bool
  ihb_neighbors_poisoned :: bool
  ihb_connections_poisoned :: bool

definition iphelper_new :: iphelper_backend where
  "iphelper_new = \<lparr> ihb_running = False, ihb_interfaces = [], ihb_routes = [], ihb_neighbors = [], ihb_connections = [],
     ihb_interfaces_poisoned = False, ihb_routes_poisoned = False, ihb_neighbors_poisoned = False,
     ihb_connections_poisoned = False \<rparr>"

record system_replies =
  sr_now :: nat
  sr_adapters :: "nat \<Rightarrow> u32 \<times> native_adapter list"
  sr_routes4 :: "u32 \<times> native_route list option"
  sr_routes6 :: "u32 \<times> native_route list option"
  sr_neighbors4 :: "u32 \<times> native_neighbor list option"
  sr_neighbors6 :: "u32 \<times> native_neighbor list option"
  sr_connections :: connection_replies

definition query_failed :: "('e + unit) \<Rightarrow> ip_helper_error + unit" where
  \<comment> \<open>\<open>map_err(|_| IpHelperError::QueryFailed)\<close>\<close>
  "query_failed r = (case r of Inl _ \<Rightarrow> Inl Ihe_QueryFailed | Inr u \<Rightarrow> Inr u)"

definition refresh_interfaces :: "system_replies \<Rightarrow> iphelper_backend \<Rightarrow> (ip_helper_error + unit) \<times> iphelper_backend" where
  "refresh_interfaces sr b = (if ihb_interfaces_poisoned b then (Inl Ihe_QueryFailed, b)
     else case if_refresh_all (sr_adapters sr) (ihb_interfaces b) of (r, t) \<Rightarrow> (query_failed r, b\<lparr> ihb_interfaces := t \<rparr>))"

definition refresh_routes :: "system_replies \<Rightarrow> iphelper_backend \<Rightarrow> (ip_helper_error + unit) \<times> iphelper_backend" where
  "refresh_routes sr b = (if ihb_routes_poisoned b then (Inl Ihe_QueryFailed, b)
     else case rtb_refresh_all (sr_routes4 sr) (sr_routes6 sr) (ihb_routes b) of (r, t) \<Rightarrow> (query_failed r, b\<lparr> ihb_routes := t \<rparr>))"

definition refresh_neighbors :: "system_replies \<Rightarrow> iphelper_backend \<Rightarrow> (ip_helper_error + unit) \<times> iphelper_backend" where
  "refresh_neighbors sr b = (if ihb_neighbors_poisoned b then (Inl Ihe_QueryFailed, b)
     else case iht_refresh_all (sr_now sr) (sr_neighbors4 sr) (sr_neighbors6 sr) (ihb_neighbors b) of
       (r, t) \<Rightarrow> (query_failed r, b\<lparr> ihb_neighbors := t \<rparr>))"

definition refresh_connections :: "system_replies \<Rightarrow> iphelper_backend \<Rightarrow> (ip_helper_error + unit) \<times> iphelper_backend" where
  "refresh_connections sr b = (if ihb_connections_poisoned b then (Inl Ihe_QueryFailed, b)
     else case ct_refresh_all (sr_now sr) (sr_connections sr) (ihb_connections b) of
       (r, t) \<Rightarrow> (query_failed r, b\<lparr> ihb_connections := t \<rparr>))"

definition iphelper_refresh_all :: "system_replies \<Rightarrow> iphelper_backend \<Rightarrow> (ip_helper_error + unit) \<times> iphelper_backend" where
  "iphelper_refresh_all sr b = (if \<not> ihb_running b then (Inl Ihe_NotRunning, b)
     else and_then (and_then (and_then (refresh_interfaces sr b) (refresh_routes sr)) (refresh_neighbors sr)) (refresh_connections sr))"

definition iphelper_start :: "system_replies \<Rightarrow> iphelper_backend \<Rightarrow> (ip_helper_error + unit) \<times> iphelper_backend" where
  "iphelper_start sr b = (if ihb_running b then (Inl Ihe_AlreadyRunning, b)
     else case iphelper_refresh_all sr (b\<lparr> ihb_running := True \<rparr>) of
       (Inl e, b') \<Rightarrow> (Inl e, b'\<lparr> ihb_running := False \<rparr>)
     | (Inr _, b') \<Rightarrow> (Inr (), b'))"

definition iphelper_stop :: "iphelper_backend \<Rightarrow> (ip_helper_error + unit) \<times> iphelper_backend" where
  "iphelper_stop b = (if \<not> ihb_running b then (Inl Ihe_NotRunning, b) else (Inr (), b\<lparr> ihb_running := False \<rparr>))"

definition iphelper_clear_state :: "iphelper_backend \<Rightarrow> (ip_helper_error + unit) \<times> iphelper_backend" where
  "iphelper_clear_state b =
     (if ihb_interfaces_poisoned b then (Inl Ihe_QueryFailed, b) else let b = b\<lparr> ihb_interfaces := [] \<rparr> in
      if ihb_routes_poisoned b then (Inl Ihe_QueryFailed, b) else let b = b\<lparr> ihb_routes := [] \<rparr> in
      if ihb_neighbors_poisoned b then (Inl Ihe_QueryFailed, b) else let b = b\<lparr> ihb_neighbors := [] \<rparr> in
      if ihb_connections_poisoned b then (Inl Ihe_QueryFailed, b) else (Inr (), b\<lparr> ihb_connections := [] \<rparr>))"

subsubsection \<open>The tables are well formed after any history\<close>

definition backend_ok :: "iphelper_backend \<Rightarrow> bool" where
  "backend_ok b \<longleftrightarrow> table_ok ihi_index (\<lambda>i. ihi_index i \<noteq> 0) (ihb_interfaces b) \<and> table_ok ihr_key route_ok (ihb_routes b) \<and>
     table_ok ihn_key (\<lambda>n. snd (ihn_key n) \<noteq> 0) (ihb_neighbors b) \<and> table_ok ic_key bound (ihb_connections b)"

lemma interfaces_kept [keeps]:
  assumes "table_ok ihi_index (\<lambda>i. ihi_index i \<noteq> 0) t"
  shows "table_ok ihi_index (\<lambda>i. ihi_index i \<noteq> 0) (snd (if_insert i t))"
    and "table_ok ihi_index (\<lambda>i. ihi_index i \<noteq> 0) (snd (if_remove k t))"
    and "table_ok ihi_index (\<lambda>i. ihi_index i \<noteq> 0) (snd (if_refresh_all replies t))"
proof -
  have "list_all (\<lambda>i. ihi_index i \<noteq> 0) (List.map_filter adapter_info as)" for as
    by (auto simp: list_all_iff set_map_filter adapter_info_index)
  then show "table_ok ihi_index (\<lambda>i. ihi_index i \<noteq> 0) (snd (if_refresh_all replies t))"
    using assms by (simp add: if_refresh_all_eq Let_def ift.table_ok_upserts)
qed (use assms in \<open>auto simp: if_insert_def if_remove_def ift.table_ok_upsert dest: ift.table_ok_take split: option.splits\<close>)

lemma routes_kept [keeps]:
  assumes "table_ok ihr_key route_ok t"
  shows "table_ok ihr_key route_ok (snd (rtb_insert r t))"
    and "table_ok ihr_key route_ok (snd (rtb_remove d p i t))"
    and "table_ok ihr_key route_ok (snd (rtb_refresh_all r4 r6 t))"
proof -
  have "list_all route_ok (reported_routes reply)" for reply
    by (auto simp: list_all_iff dest: reported_routes_ok)
  then show "table_ok ihr_key route_ok (snd (rtb_refresh_all r4 r6 t))"
    by (simp add: rtb_refresh_all_eq Let_def rtt.table_ok_upserts)
  show "table_ok ihr_key route_ok (snd (rtb_insert r t))"
    using assms by (auto simp: rtb_insert_def route_ok_def not_less intro: rtt.table_ok_upsert)
qed (use assms in \<open>auto simp: rtb_remove_def dest: rtt.table_ok_take split: option.splits\<close>)

lemma neighbors_kept [keeps]:
  assumes "table_ok ihn_key (\<lambda>n. snd (ihn_key n) \<noteq> 0) t"
  shows "table_ok ihn_key (\<lambda>n. snd (ihn_key n) \<noteq> 0) (snd (iht_insert n t))"
    and "table_ok ihn_key (\<lambda>n. snd (ihn_key n) \<noteq> 0) (snd (iht_update_state now a i st t))"
    and "table_ok ihn_key (\<lambda>n. snd (ihn_key n) \<noteq> 0) (snd (iht_update_mac now a i mac t))"
    and "table_ok ihn_key (\<lambda>n. snd (ihn_key n) \<noteq> 0) (snd (iht_remove a i t))"
    and "table_ok ihn_key (\<lambda>n. snd (ihn_key n) \<noteq> 0) (snd (iht_remove_expired now max_age t))"
    and "table_ok ihn_key (\<lambda>n. snd (ihn_key n) \<noteq> 0) (snd (iht_refresh_all now r4 r6 t))"
proof -
  have u: "table_ok ihn_key (\<lambda>n. snd (ihn_key n) \<noteq> 0) (snd (iht_update f a i t))" if "\<And>n. ihn_key (f n) = ihn_key n" for f
    using assms nt.table_ok_update [of f] that by (auto simp: iht_update_def split: option.splits)
  show "table_ok ihn_key (\<lambda>n. snd (ihn_key n) \<noteq> 0) (snd (iht_update_state now a i st t))"
    "table_ok ihn_key (\<lambda>n. snd (ihn_key n) \<noteq> 0) (snd (iht_update_mac now a i mac t))"
    unfolding iht_update_state_def iht_update_mac_def by (rule u; simp add: ihn_touch_def)+
  have "list_all (\<lambda>n. snd (ihn_key n) \<noteq> 0) (reported_neighbors now reply)" for reply
    by (auto simp: reported_neighbors_def list_all_iff set_map_filter dest: neighbor_of_row_key split: option.splits)
  then show "table_ok ihn_key (\<lambda>n. snd (ihn_key n) \<noteq> 0) (snd (iht_refresh_all now r4 r6 t))"
    using assms by (simp add: iht_refresh_all_eq Let_def nt.table_ok_upserts nt.table_ok_filter)
qed (use assms in \<open>auto simp: iht_insert_def iht_remove_def iht_remove_expired_def Let_def nt.table_ok_upsert nt.table_ok_filter
    dest: nt.table_ok_take split: option.splits\<close>)

lemma connections_kept [keeps]:
  assumes "table_ok ic_key bound t"
  shows "table_ok ic_key bound (snd (ct_insert c t))"
    and "table_ok ic_key bound (snd (ct_update_state now k st t))"
    and "table_ok ic_key bound (snd (ct_remove k t))"
    and "table_ok ic_key bound (snd (ct_remove_expired now max_age t))"
    and "table_ok ic_key bound (snd (ct_refresh_all now rp t))"
proof -
  show "table_ok ic_key bound (snd (ct_refresh_all now rp t))"
    using ct_refresh_all_cases [of rp now t] assms
    by (auto split: if_splits intro: ct.table_ok_upserts ct.table_ok_filter)
  show "table_ok ic_key bound (snd (ct_update_state now k st t))"
    using assms ct.table_ok_update [of "\<lambda>c. ic_touch now (c\<lparr> ic_state := st \<rparr>)"]
    by (auto simp: ct_update_state_def ic_touch_def bound_def split: option.splits)
  show "table_ok ic_key bound (snd (ct_insert c t))"
    using assms by (auto simp: ct_insert_def bound_def intro: ct.table_ok_upsert)
qed (use assms in \<open>auto simp: ct_remove_def ct_remove_expired_def Let_def ct.table_ok_filter dest: ct.table_ok_take split: option.splits\<close>)

text \<open>
  The calls on the backend, and those its clients make on a table through its lock. A client that
  panics while it holds the lock poisons it.
\<close>

datatype ih_op =
    Ih_Start system_replies
  | Ih_Stop
  | Ih_Refresh system_replies
  | Ih_Clear
  | Ih_Poison bool bool bool bool
  | Ih_If_Insert ih_interface
  | Ih_If_Remove u32
  | Ih_Rt_Insert ih_route
  | Ih_Rt_Remove ip_addr u8 u32
  | Ih_Nt_Insert ih_neighbor
  | Ih_Nt_Update_State nat ip_addr u32 ih_neighbor_state
  | Ih_Nt_Update_Mac nat ip_addr u32 "byte list"
  | Ih_Nt_Remove ip_addr u32
  | Ih_Nt_Expire nat duration
  | Ih_Ct_Insert ih_connection
  | Ih_Ct_Update_State nat ih_connection_key ih_connection_state
  | Ih_Ct_Remove ih_connection_key
  | Ih_Ct_Expire nat duration

definition with_interfaces :: "(interface_table \<Rightarrow> 'r \<times> interface_table) \<Rightarrow> iphelper_backend \<Rightarrow> iphelper_backend" where
  "with_interfaces f b = (if ihb_interfaces_poisoned b then b else b\<lparr> ihb_interfaces := snd (f (ihb_interfaces b)) \<rparr>)"

definition with_routes :: "(route_table \<Rightarrow> 'r \<times> route_table) \<Rightarrow> iphelper_backend \<Rightarrow> iphelper_backend" where
  "with_routes f b = (if ihb_routes_poisoned b then b else b\<lparr> ihb_routes := snd (f (ihb_routes b)) \<rparr>)"

definition with_neighbors :: "(neighbor_table \<Rightarrow> 'r \<times> neighbor_table) \<Rightarrow> iphelper_backend \<Rightarrow> iphelper_backend" where
  "with_neighbors f b = (if ihb_neighbors_poisoned b then b else b\<lparr> ihb_neighbors := snd (f (ihb_neighbors b)) \<rparr>)"

definition with_connections :: "(ih_connection_table \<Rightarrow> 'r \<times> ih_connection_table) \<Rightarrow> iphelper_backend \<Rightarrow> iphelper_backend" where
  "with_connections f b = (if ihb_connections_poisoned b then b else b\<lparr> ihb_connections := snd (f (ihb_connections b)) \<rparr>)"

primrec ih_exec :: "ih_op \<Rightarrow> iphelper_backend \<Rightarrow> iphelper_backend" where
  "ih_exec (Ih_Start sr) b = snd (iphelper_start sr b)"
| "ih_exec Ih_Stop b = snd (iphelper_stop b)"
| "ih_exec (Ih_Refresh sr) b = snd (iphelper_refresh_all sr b)"
| "ih_exec Ih_Clear b = snd (iphelper_clear_state b)"
| "ih_exec (Ih_Poison p q r s) b = b\<lparr> ihb_interfaces_poisoned := ihb_interfaces_poisoned b \<or> p,
     ihb_routes_poisoned := ihb_routes_poisoned b \<or> q, ihb_neighbors_poisoned := ihb_neighbors_poisoned b \<or> r,
     ihb_connections_poisoned := ihb_connections_poisoned b \<or> s \<rparr>"
| "ih_exec (Ih_If_Insert i) b = with_interfaces (if_insert i) b"
| "ih_exec (Ih_If_Remove i) b = with_interfaces (if_remove i) b"
| "ih_exec (Ih_Rt_Insert r) b = with_routes (rtb_insert r) b"
| "ih_exec (Ih_Rt_Remove d p i) b = with_routes (rtb_remove d p i) b"
| "ih_exec (Ih_Nt_Insert n) b = with_neighbors (iht_insert n) b"
| "ih_exec (Ih_Nt_Update_State now a i st) b = with_neighbors (iht_update_state now a i st) b"
| "ih_exec (Ih_Nt_Update_Mac now a i mac) b = with_neighbors (iht_update_mac now a i mac) b"
| "ih_exec (Ih_Nt_Remove a i) b = with_neighbors (iht_remove a i) b"
| "ih_exec (Ih_Nt_Expire now max_age) b = with_neighbors (iht_remove_expired now max_age) b"
| "ih_exec (Ih_Ct_Insert c) b = with_connections (ct_insert c) b"
| "ih_exec (Ih_Ct_Update_State now k st) b = with_connections (ct_update_state now k st) b"
| "ih_exec (Ih_Ct_Remove k) b = with_connections (ct_remove k) b"
| "ih_exec (Ih_Ct_Expire now max_age) b = with_connections (ct_remove_expired now max_age) b"

lemma refresh_parts_kept:
  assumes "backend_ok b"
  shows "backend_ok (snd (refresh_interfaces sr b))" and "backend_ok (snd (refresh_routes sr b))"
    and "backend_ok (snd (refresh_neighbors sr b))" and "backend_ok (snd (refresh_connections sr b))"
  using assms interfaces_kept(3) [of "ihb_interfaces b" "sr_adapters sr"] routes_kept(3) [of "ihb_routes b"]
    neighbors_kept(6) [of "ihb_neighbors b" "sr_now sr"] connections_kept(5) [of "ihb_connections b" "sr_now sr"]
  by (simp_all add: backend_ok_def refresh_interfaces_def refresh_routes_def refresh_neighbors_def refresh_connections_def
      split_beta)

lemma and_then_kept: "backend_ok (snd x) \<Longrightarrow> (\<And>b. backend_ok b \<Longrightarrow> backend_ok (snd (f b))) \<Longrightarrow> backend_ok (snd (and_then x f))"
  by (cases x; cases "fst x") auto

lemma refresh_all_kept: "backend_ok b \<Longrightarrow> backend_ok (snd (iphelper_refresh_all sr b))"
  by (simp add: iphelper_refresh_all_def and_then_kept refresh_parts_kept)

lemma running_irrelevant [simp]: "backend_ok (b\<lparr> ihb_running := x \<rparr>) = backend_ok b"
  by (simp add: backend_ok_def)

lemma start_kept: "backend_ok b \<Longrightarrow> backend_ok (snd (iphelper_start sr b))"
  using refresh_all_kept [of "b\<lparr> ihb_running := True \<rparr>" sr] by (auto simp: iphelper_start_def split: prod.splits sum.splits)

lemma ih_exec_kept: "backend_ok b \<Longrightarrow> backend_ok (ih_exec op b)"
proof (cases op)
  case Ih_Clear
  then show "backend_ok b \<Longrightarrow> backend_ok (ih_exec op b)"
    by (simp add: iphelper_clear_state_def Let_def backend_ok_def)
qed (simp_all add: refresh_all_kept start_kept iphelper_stop_def,
    simp_all add: backend_ok_def with_interfaces_def with_routes_def with_neighbors_def with_connections_def keeps)

text \<open>
  the host's tables. After any history of the backend and its clients, whatever the system
  answers, no table has two entries of the same key; no interface or neighbour has index 0, no
  route a prefix longer than its address, and no connection the local port 0.
\<close>

lemma host_tables_well_formed:
  "backend_ok (fold ih_exec ops iphelper_new)"
proof -
  have "backend_ok b \<Longrightarrow> backend_ok (fold ih_exec ops b)" for b
    by (induction ops arbitrary: b) (simp_all add: ih_exec_kept)
  then show ?thesis by (simp add: backend_ok_def iphelper_new_def)
qed

lemma refresh_all_running: "ihb_running (snd (iphelper_refresh_all sr b)) = ihb_running b"
proof -
  have "ihb_running (snd (refresh_interfaces sr b)) = ihb_running b" "ihb_running (snd (refresh_routes sr b)) = ihb_running b"
    "ihb_running (snd (refresh_neighbors sr b)) = ihb_running b" "ihb_running (snd (refresh_connections sr b)) = ihb_running b" for b
    by (simp_all add: refresh_interfaces_def refresh_routes_def refresh_neighbors_def refresh_connections_def split_beta)
  moreover have "ihb_running (snd (and_then x f)) = ihb_running (snd x)"
    if "\<And>b. ihb_running (snd (f b)) = ihb_running b" for x :: "(ip_helper_error + unit) \<times> iphelper_backend" and f
    by (cases x; cases "fst x") (auto simp: that)
  ultimately show ?thesis by (simp add: iphelper_refresh_all_def)
qed

text \<open>A start leaves the backend running exactly if it succeeds, whatever the refresh has already stored.\<close>

lemma start_running: "iphelper_start sr b = (r, b') \<Longrightarrow> \<not> ihb_running b \<Longrightarrow> ihb_running b' \<longleftrightarrow> r = Inr ()"
  using refresh_all_running [of sr "b\<lparr> ihb_running := True \<rparr>"]
  by (auto simp: iphelper_start_def split: prod.splits sum.splits)

end
