(* ===== verification/Npcap_Capture.thy ===== *)
theory Npcap_Capture
  imports Core_Text "HOL-Library.Multiset"
begin

text \<open>
  \<open>crates/backend-npcap\<close>: one capture session (\<open>capture.rs\<close>) over the Npcap library
  (\<open>ffi.rs\<close>), on Windows. What the library answers is an argument of the operation that calls it;
  the handles it opens and closes are reported as a list of calls. A \<open>SystemTime\<close> is a number of
  100-nanosecond ticks since 1601, as on Windows, and below \<open>2 ^ 63\<close>.
\<close>

subsection \<open>The library's answers (\<open>ffi.rs\<close>)\<close>

record pcap_pkthdr =
  ts_sec :: int
  ts_usec :: int
  hdr_caplen :: u32
  hdr_len :: u32

datatype pcap_receive_status = Pcap_Packet | Pcap_Timeout | Pcap_EndOfCapture | Pcap_Error

definition receive_status_from_raw :: "int \<Rightarrow> pcap_receive_status" where
  "receive_status_from_raw v = (if v = 1 then Pcap_Packet else if v = 0 then Pcap_Timeout
     else if v = - 2 then Pcap_EndOfCapture else Pcap_Error)"

datatype pcap_direction = Pd_InOut | Pd_In | Pd_Out

primrec pcap_direction_as_raw :: "pcap_direction \<Rightarrow> int" where
  "pcap_direction_as_raw Pd_InOut = 0"
| "pcap_direction_as_raw Pd_In = 1"
| "pcap_direction_as_raw Pd_Out = 2"

datatype pcap_send_error = Pse_InvalidHandle | Pse_PacketTooLarge | Pse_SendFailed

definition validate_packet_length :: "usize \<Rightarrow> pcap_send_error + int" where
  "validate_packet_length n = (if n = 0 then Inl Pse_SendFailed
     else if n > 2 ^ 31 - 1 then Inl Pse_PacketTooLarge else Inr (int n))"

type_synonym system_time = nat

definition unix_epoch :: system_time where
  "unix_epoch = 116444736000000000"

definition system_time_checked_add :: "system_time \<Rightarrow> duration \<Rightarrow> system_time option" where
  "system_time_checked_add t d = (let ticks = d div 100 in
     if ticks < 2 ^ 63 \<and> t + ticks < 2 ^ 63 then Some (t + ticks) else None)"

definition pcap_timestamp_to_system_time :: "pcap_pkthdr \<Rightarrow> system_time option" where
  "pcap_timestamp_to_system_time h =
     (if ts_sec h < 0 \<or> ts_usec h < 0 then None
      else if ts_usec h \<ge> 2 ^ 32 then None
      else case system_time_checked_add unix_epoch (nat (ts_sec h) * 1000000000) of
        None \<Rightarrow> None
      | Some t \<Rightarrow> system_time_checked_add t (nat (ts_usec h) * 1000))"

definition validate_packet_header :: "pcap_pkthdr \<Rightarrow> pcap_receive_status + (usize \<times> usize)" where
  "validate_packet_header h =
     (let captured_length = unat (hdr_caplen h); original_length = unat (hdr_len h) in
      if captured_length = 0 then Inl Pcap_Error
      else if original_length = 0 then Inl Pcap_Error
      else if captured_length > original_length then Inl Pcap_Error
      else Inr (captured_length, original_length))"

lemma system_time_exact:
  assumes "0 \<le> ts_sec h" and "0 \<le> ts_usec h" and "ts_usec h < 2 ^ 32" and "pcap_timestamp_to_system_time h = Some t"
  shows "t = 116444736000000000 + nat (ts_sec h) * 10000000 + nat (ts_usec h) * 10"
  using assms by (auto simp: pcap_timestamp_to_system_time_def system_time_checked_add_def unix_epoch_def Let_def
      split: option.splits if_splits)

subsection \<open>Packets and configuration (\<open>capture.rs\<close>)\<close>

datatype capture_direction = Cd_Inbound | Cd_Outbound | Cd_InboundAndOutbound

primrec as_pcap_direction :: "capture_direction \<Rightarrow> pcap_direction" where
  "as_pcap_direction Cd_Inbound = Pd_In"
| "as_pcap_direction Cd_Outbound = Pd_Out"
| "as_pcap_direction Cd_InboundAndOutbound = Pd_InOut"

datatype capture_state = Cs_Stopped | Cs_Starting | Cs_Running | Cs_Failed

record captured_packet =
  cp_data :: "byte list"
  cp_timestamp :: system_time
  cp_interface_index :: u32
  cp_original_length :: usize

definition captured_packet_new :: "system_time \<Rightarrow> byte list \<Rightarrow> u32 \<Rightarrow> captured_packet option" where
  "captured_packet_new now bytes i = (if bytes = [] \<or> i = 0 then None
     else Some \<lparr> cp_data = bytes, cp_timestamp = now, cp_interface_index = i, cp_original_length = length bytes \<rparr>)"

definition with_original_length :: "system_time \<Rightarrow> byte list \<Rightarrow> u32 \<Rightarrow> usize \<Rightarrow> captured_packet option" where
  "with_original_length now bytes i original_length =
     (if bytes = [] \<or> i = 0 \<or> original_length < length bytes then None
      else Some \<lparr> cp_data = bytes, cp_timestamp = now, cp_interface_index = i, cp_original_length = original_length \<rparr>)"

definition packet_from_pcap :: "byte list \<Rightarrow> u32 \<Rightarrow> usize \<Rightarrow> system_time \<Rightarrow> captured_packet option" where
  "packet_from_pcap bytes i original_length t =
     (if bytes = [] \<or> i = 0 \<or> original_length < length bytes then None
      else Some \<lparr> cp_data = bytes, cp_timestamp = t, cp_interface_index = i, cp_original_length = original_length \<rparr>)"

record capture_config =
  cc_interface_index :: u32
  cc_snaplen :: usize
  cc_promiscuous :: bool
  cc_direction :: capture_direction
  cc_timeout_ms :: int

definition capture_config_new :: "u32 \<Rightarrow> capture_config option" where
  "capture_config_new i = (if i = 0 then None
     else Some \<lparr> cc_interface_index = i, cc_snaplen = 65535, cc_promiscuous = True,
       cc_direction = Cd_InboundAndOutbound, cc_timeout_ms = 1000 \<rparr>)"

definition capture_config_validate :: "capture_config \<Rightarrow> bool" where
  "capture_config_validate c \<longleftrightarrow> cc_interface_index c \<noteq> 0 \<and> cc_snaplen c > 0 \<and> cc_snaplen c \<le> 65535 \<and> cc_timeout_ms c \<ge> 0"

datatype capture_error = Ce_InvalidConfiguration | Ce_AlreadyRunning | Ce_NotRunning | Ce_InterfaceUnavailable
  | Ce_ReceiveFailed | Ce_InvalidPacket

record capture_session =
  cs_config :: capture_config
  cs_state :: capture_state
  cs_packets_received :: u64
  cs_bytes_received :: u64
  cs_handle :: "usize option"

definition capture_session_new :: "capture_config \<Rightarrow> capture_error + capture_session" where
  "capture_session_new c = (if \<not> capture_config_validate c then Inl Ce_InvalidConfiguration
     else Inr \<lparr> cs_config = c, cs_state = Cs_Stopped, cs_packets_received = 0, cs_bytes_received = 0, cs_handle = None \<rparr>)"

subsection \<open>The session\<close>

datatype pcap_call = Pcap_Opened usize | Pcap_Closed usize

text \<open>The handle \<open>pcap_open_live\<close> returns (0 if null) and the status of \<open>pcap_setdirection\<close>.\<close>

definition npcap_open_handle :: "usize \<times> int \<Rightarrow> string \<Rightarrow> capture_config \<Rightarrow> (capture_error + usize) \<times> pcap_call list" where
  "npcap_open_handle reply device_name c = (case reply of (handle, direction_status) \<Rightarrow>
     if CHR 0x00 \<in> set device_name then (Inl Ce_InterfaceUnavailable, [])
     else if cc_snaplen c > 2 ^ 31 - 1 then (Inl Ce_InvalidConfiguration, [])
     else if cc_snaplen c = 0 then (Inl Ce_InvalidConfiguration, [])
     else if handle = 0 then (Inl Ce_InterfaceUnavailable, [])
     else if direction_status \<noteq> 0 then (Inl Ce_InterfaceUnavailable, [Pcap_Opened handle, Pcap_Closed handle])
     else (Inr handle, [Pcap_Opened handle]))"

definition cs_is_running :: "capture_session \<Rightarrow> bool" where
  "cs_is_running s \<longleftrightarrow> cs_state s = Cs_Running"

definition cs_start :: "usize \<times> int \<Rightarrow> string \<Rightarrow> capture_session \<Rightarrow> (capture_error + unit) \<times> capture_session \<times> pcap_call list" where
  "cs_start reply device_name s =
     (if cs_state s = Cs_Running then (Inl Ce_AlreadyRunning, s, [])
      else if \<not> capture_config_validate (cs_config s) then (Inl Ce_InvalidConfiguration, s\<lparr> cs_state := Cs_Failed \<rparr>, [])
      else if trim device_name = [] then (Inl Ce_InterfaceUnavailable, s\<lparr> cs_state := Cs_Failed \<rparr>, [])
      else let s = s\<lparr> cs_state := Cs_Starting \<rparr> in
        case npcap_open_handle reply device_name (cs_config s) of
          (Inr handle, calls) \<Rightarrow> (Inr (), s\<lparr> cs_handle := Some handle, cs_state := Cs_Running \<rparr>, calls)
        | (Inl e, calls) \<Rightarrow> (Inl e, s\<lparr> cs_handle := None, cs_state := Cs_Failed \<rparr>, calls))"

definition npcap_close_handle :: "capture_session \<Rightarrow> capture_session \<times> pcap_call list" where
  "npcap_close_handle s = (case cs_handle s of
      None \<Rightarrow> (s, [])
    | Some handle \<Rightarrow> (s\<lparr> cs_handle := None \<rparr>, [Pcap_Closed handle]))"

definition cs_stop :: "capture_session \<Rightarrow> (capture_error + unit) \<times> capture_session \<times> pcap_call list" where
  "cs_stop s = (if cs_state s \<noteq> Cs_Running then (Inl Ce_NotRunning, s, [])
     else case npcap_close_handle s of (s', calls) \<Rightarrow> (Inr (), s'\<lparr> cs_state := Cs_Stopped \<rparr>, calls))"

definition cs_drop :: "capture_session \<Rightarrow> pcap_call list" where
  "cs_drop s = snd (npcap_close_handle s)"

definition cs_record_packet :: "captured_packet \<Rightarrow> capture_session \<Rightarrow> (capture_error + unit) \<times> capture_session" where
  "cs_record_packet p s =
     (if \<not> cs_is_running s then (Inl Ce_NotRunning, s)
      else if cp_data p = [] \<or> cp_interface_index p \<noteq> cc_interface_index (cs_config s) \<or>
          cp_original_length p < length (cp_data p) \<or> length (cp_data p) > cc_snaplen (cs_config s) then (Inl Ce_InvalidPacket, s)
      else (Inr (), s\<lparr> cs_packets_received := saturating_add (cs_packets_received s) 1,
        cs_bytes_received := saturating_add (cs_bytes_received s) (of_nat (length (cp_data p))) \<rparr>))"

text \<open>The status of \<open>pcap_next_ex\<close>, and the header and the bytes its two pointers lead to, if they are not null.\<close>

type_synonym next_reply = "int \<times> pcap_pkthdr option \<times> byte list option"

definition cs_fail :: "capture_session \<Rightarrow> capture_session \<times> pcap_call list" where
  "cs_fail s = npcap_close_handle (s\<lparr> cs_state := Cs_Failed \<rparr>)"

definition cs_receive_packet ::
  "next_reply \<Rightarrow> capture_session \<Rightarrow> (capture_error + captured_packet option) \<times> capture_session \<times> pcap_call list" where
  "cs_receive_packet reply s =
     (if \<not> cs_is_running s then (Inl Ce_NotRunning, s, [])
      else if cs_handle s = None then (Inl Ce_NotRunning, s, [])
      else case reply of (result, header, mem) \<Rightarrow>
        (case receive_status_from_raw result of
           Pcap_Packet \<Rightarrow>
             (case (header, mem) of
                (Some h, Some d) \<Rightarrow>
                  (case validate_packet_header h of
                     Inl _ \<Rightarrow> (Inl Ce_InvalidPacket, s, [])
                   | Inr (caplen, original_length) \<Rightarrow>
                       if caplen > cc_snaplen (cs_config s) then (Inl Ce_InvalidPacket, s, [])
                       else let bytes = take caplen d in
                         case pcap_timestamp_to_system_time h of
                           None \<Rightarrow> (Inl Ce_InvalidPacket, s, [])
                         | Some t \<Rightarrow>
                             (case packet_from_pcap bytes (cc_interface_index (cs_config s)) original_length t of
                                None \<Rightarrow> (Inl Ce_InvalidPacket, s, [])
                              | Some packet \<Rightarrow>
                                  (case cs_record_packet packet s of
                                     (Inl e, s') \<Rightarrow> (Inl e, s', [])
                                   | (Inr _, s') \<Rightarrow> (Inr (Some packet), s', []))))
              | _ \<Rightarrow> (case cs_fail s of (s', calls) \<Rightarrow> (Inl Ce_ReceiveFailed, s', calls)))
         | Pcap_Timeout \<Rightarrow> (Inr None, s, [])
         | _ \<Rightarrow> (case cs_fail s of (s', calls) \<Rightarrow> (Inl Ce_ReceiveFailed, s', calls))))"

definition cs_reset_statistics :: "capture_session \<Rightarrow> capture_session" where
  "cs_reset_statistics s = s\<lparr> cs_packets_received := 0, cs_bytes_received := 0 \<rparr>"

subsection \<open>Handles\<close>

definition pcap_opened :: "pcap_call list \<Rightarrow> usize multiset" where
  "pcap_opened cs = mset (List.map_filter (\<lambda>c. case c of Pcap_Opened h \<Rightarrow> Some h | Pcap_Closed _ \<Rightarrow> None) cs)"

definition pcap_closed :: "pcap_call list \<Rightarrow> usize multiset" where
  "pcap_closed cs = mset (List.map_filter (\<lambda>c. case c of Pcap_Closed h \<Rightarrow> Some h | Pcap_Opened _ \<Rightarrow> None) cs)"

definition cs_held :: "capture_session \<Rightarrow> usize multiset" where
  "cs_held s = (case cs_handle s of None \<Rightarrow> {#} | Some h \<Rightarrow> {#h#})"

text \<open>A session is valid if its configuration is, it holds a handle exactly while it runs, and it is never seen starting.\<close>

definition cs_ok :: "capture_session \<Rightarrow> bool" where
  "cs_ok s \<longleftrightarrow> capture_config_validate (cs_config s) \<and> cs_state s \<noteq> Cs_Starting \<and>
     (cs_handle s \<noteq> None \<longleftrightarrow> cs_state s = Cs_Running)"

lemma pcap_calls_simps [simp]:
  "pcap_opened [] = {#}" "pcap_closed [] = {#}"
  "pcap_opened (c # cs) = (case c of Pcap_Opened h \<Rightarrow> {#h#} | Pcap_Closed _ \<Rightarrow> {#}) + pcap_opened cs"
  "pcap_closed (c # cs) = (case c of Pcap_Closed h \<Rightarrow> {#h#} | Pcap_Opened _ \<Rightarrow> {#}) + pcap_closed cs"
  "pcap_opened (cs @ ds) = pcap_opened cs + pcap_opened ds"
  "pcap_closed (cs @ ds) = pcap_closed cs + pcap_closed ds"
  by (simp_all add: pcap_opened_def pcap_closed_def map_filter_simps List.map_filter_def split: pcap_call.splits)

lemma cs_new_ok: "capture_session_new c = Inr s \<Longrightarrow> cs_ok s \<and> cs_held s = {#}"
  by (auto simp: capture_session_new_def cs_ok_def cs_held_def split: if_splits)

definition balanced :: "capture_session \<Rightarrow> capture_session \<Rightarrow> pcap_call list \<Rightarrow> bool" where
  "balanced s s' calls \<longleftrightarrow> cs_held s + pcap_opened calls = cs_held s' + pcap_closed calls"

lemma cs_start_ok: "cs_ok s \<Longrightarrow> cs_start reply name s = (r, s', calls) \<Longrightarrow> cs_ok s' \<and> cs_config s' = cs_config s \<and> balanced s s' calls"
  by (auto simp: cs_start_def npcap_open_handle_def cs_ok_def balanced_def cs_held_def Let_def split: if_splits prod.splits)

lemma cs_stop_ok: "cs_ok s \<Longrightarrow> cs_stop s = (r, s', calls) \<Longrightarrow> cs_ok s' \<and> cs_config s' = cs_config s \<and> balanced s s' calls"
  by (auto simp: cs_stop_def npcap_close_handle_def cs_ok_def balanced_def cs_held_def split: if_splits option.splits)

lemma cs_drop_ok: "pcap_opened (cs_drop s) = {#} \<and> pcap_closed (cs_drop s) = cs_held s"
  by (auto simp: cs_drop_def npcap_close_handle_def cs_held_def split: option.splits)

lemma cs_fail_ok:
  "cs_ok s \<Longrightarrow> cs_fail s = (s', calls) \<Longrightarrow> cs_ok s' \<and> cs_config s' = cs_config s \<and> cs_state s' = Cs_Failed \<and> balanced s s' calls"
  by (auto simp: cs_fail_def npcap_close_handle_def cs_ok_def balanced_def cs_held_def split: option.splits)

lemma cs_record_ok:
  "cs_ok s \<Longrightarrow> cs_record_packet p s = (r, s') \<Longrightarrow> cs_ok s' \<and> cs_config s' = cs_config s \<and> cs_handle s' = cs_handle s"
  by (auto simp: cs_record_packet_def cs_ok_def split: if_splits)

lemma cs_receive_cases:
  assumes "cs_receive_packet reply s = (r, s', calls)"
  obtains (unchanged) "s' = s" "calls = []" "\<forall>p. r \<noteq> Inr (Some p)"
    | (failed) "cs_fail s = (s', calls)" "r = Inl Ce_ReceiveFailed"
    | (packet) h d caplen original t p where "calls = []" "reply = (1, Some h, Some d)" "cs_is_running s"
        "validate_packet_header h = Inr (caplen, original)" "caplen \<le> cc_snaplen (cs_config s)"
        "pcap_timestamp_to_system_time h = Some t"
        "packet_from_pcap (take caplen d) (cc_interface_index (cs_config s)) original t = Some p"
        "cs_record_packet p s = (Inr (), s')" "r = Inr (Some p)"
proof (cases "cs_is_running s \<and> cs_handle s \<noteq> None")
  case False
  then show thesis using assms unchanged by (auto simp: cs_receive_packet_def split: if_splits)
next
  case run: True
  obtain result header mem where reply: "reply = (result, header, mem)" by (cases reply) auto
  have f: "(case cs_fail s of (s', calls) \<Rightarrow> (Inl Ce_ReceiveFailed, s', calls)) = (r, s', calls) \<Longrightarrow> thesis"
    using failed by (auto split: prod.splits)
  show thesis
  proof (cases "receive_status_from_raw result")
    case Pcap_Packet
    then have res: "result = 1" by (simp add: receive_status_from_raw_def split: if_splits)
    show thesis
    proof (cases "\<exists>h d. header = Some h \<and> mem = Some d")
      case False
      then show thesis using assms f run by (cases header; cases mem) (auto simp: cs_receive_packet_def reply Pcap_Packet)
    next
      case True
      then obtain h d where hd: "header = Some h" "mem = Some d" by blast
      define body :: "(capture_error + captured_packet option) \<times> capture_session \<times> pcap_call list" where "body = (case validate_packet_header h of
           Inl _ \<Rightarrow> (Inl Ce_InvalidPacket, s, [])
         | Inr (caplen, original_length) \<Rightarrow>
             if caplen > cc_snaplen (cs_config s) then (Inl Ce_InvalidPacket, s, [])
             else let bytes = take caplen d in
               case pcap_timestamp_to_system_time h of
                 None \<Rightarrow> (Inl Ce_InvalidPacket, s, [])
               | Some t \<Rightarrow>
                   (case packet_from_pcap bytes (cc_interface_index (cs_config s)) original_length t of
                      None \<Rightarrow> (Inl Ce_InvalidPacket, s, [])
                    | Some packet \<Rightarrow>
                        (case cs_record_packet packet s of
                           (Inl e, s') \<Rightarrow> (Inl e, s', [])
                         | (Inr _, s') \<Rightarrow> (Inr (Some packet), s', []))))"
      have b: "body = (r, s', calls)"
        using assms run by (simp add: cs_receive_packet_def reply Pcap_Packet hd body_def)
      have rec: "cs_record_packet q s = (Inl e, s'') \<Longrightarrow> s'' = s" for q e s''
        by (auto simp: cs_record_packet_def split: if_splits)
      from b show thesis
        unfolding body_def
        using unchanged packet [of h d] run res
        by (auto simp: reply hd Let_def not_less split: sum.splits prod.splits if_splits option.splits dest: rec)
    qed
  next
    case Pcap_Timeout
    then show thesis using assms unchanged run by (auto simp: cs_receive_packet_def reply)
  qed (use assms f run in \<open>auto simp: cs_receive_packet_def reply\<close>)
qed

lemma cs_receive_ok:
  assumes "cs_ok s" and "cs_receive_packet reply s = (r, s', calls)"
  shows "cs_ok s' \<and> cs_config s' = cs_config s \<and> balanced s s' calls"
  using assms(2)
proof (cases rule: cs_receive_cases)
  case failed
  then show ?thesis using cs_fail_ok [OF assms(1)] by blast
next
  case packet
  then show ?thesis using cs_record_ok [OF assms(1)] by (force simp: balanced_def cs_held_def)
qed (use assms(1) in \<open>simp add: balanced_def\<close>)

text \<open>
  A packet is received exactly as the library delivered it: the first \<open>caplen\<close> bytes, never more than
  the snap length, with the timestamp of its header; and the counters advance by it.
\<close>

lemma cs_receive_exact:
  assumes "cs_receive_packet (res, Some h, Some d) s = (Inr (Some p), s', calls)" and "unat (hdr_caplen h) \<le> length d"
  shows "cp_data p = take (unat (hdr_caplen h)) d" and "0 < length (cp_data p)" and "length (cp_data p) \<le> cc_snaplen (cs_config s)"
    and "cp_original_length p = unat (hdr_len h)" and "cp_interface_index p = cc_interface_index (cs_config s)"
    and "cs_packets_received s' = saturating_add (cs_packets_received s) 1"
    and "cs_bytes_received s' = saturating_add (cs_bytes_received s) (of_nat (length (cp_data p)))"
  using assms(1)
  by (cases rule: cs_receive_cases;
      use assms(2) in \<open>auto simp: packet_from_pcap_def validate_packet_header_def cs_record_packet_def Let_def split: if_splits\<close>)+

end
