(* ===== verification/Npcap.thy ===== *)
theory Npcap
  imports Npcap_Capture Vec_Table Core_Ownership Ip_Prefix
begin

text \<open>
  \<open>crates/backend-npcap\<close>, continued: the adapters (\<open>adapter.rs\<close>), the devices (\<open>device.rs\<close>), the
  metadata tables (\<open>metadata.rs\<close>) and the backend that owns the capture sessions and turns captured
  packets into observations (\<open>lib.rs\<close>). The clock readings and the library's answers are arguments.
\<close>

subsection \<open>Adapters (\<open>adapter.rs\<close>)\<close>

datatype adapter_type = Npt_Ethernet | Npt_Wifi | Npt_Loopback | Npt_Tunnel | Npt_Other | Npt_Unknown

datatype adapter_state = Nps_Up | Nps_Down | Nps_Testing | Nps_Unknown

record adapter_address =
  npa_address :: ip_addr
  npa_prefix_length :: u8

definition adapter_address_new :: "ip_addr \<Rightarrow> u8 \<Rightarrow> adapter_address option" where
  "adapter_address_new address prefix_length =
     (let maximum = (case address of V4 _ \<Rightarrow> 32 | V6 _ \<Rightarrow> 128) in
      if prefix_length > maximum then None
      else Some \<lparr> npa_address = address, npa_prefix_length = prefix_length \<rparr>)"

record np_adapter =
  np_index :: u32
  np_name :: string
  np_description :: string
  np_adapter_type :: adapter_type
  np_state :: adapter_state
  np_mac_address :: "byte list option"
  np_mtu :: u32
  np_addresses :: "adapter_address list"

definition adapter_new_internal :: "u32 \<Rightarrow> string \<Rightarrow> np_adapter option" where
  "adapter_new_internal i name = (if trim name = [] then None
     else Some \<lparr> np_index = i, np_name = name, np_description = [], np_adapter_type = Npt_Unknown,
       np_state = Nps_Unknown, np_mac_address = None, np_mtu = 0, np_addresses = [] \<rparr>)"

definition adapter_new :: "u32 \<Rightarrow> string \<Rightarrow> np_adapter option" where
  "adapter_new i name = (if i = 0 then None else adapter_new_internal i name)"

definition adapter_from_npcap :: "string \<Rightarrow> np_adapter option" where
  "adapter_from_npcap name = adapter_new_internal 0 name"

definition adapter_set_interface_index :: "u32 \<Rightarrow> np_adapter \<Rightarrow> bool \<times> np_adapter" where
  "adapter_set_interface_index i a = (if i = 0 then (False, a) else (True, a\<lparr> np_index := i \<rparr>))"

definition adapter_add_address :: "adapter_address \<Rightarrow> np_adapter \<Rightarrow> np_adapter" where
  "adapter_add_address x a =
     (if \<not> list_ex (\<lambda>existing. existing = x) (np_addresses a) then a\<lparr> np_addresses := np_addresses a @ [x] \<rparr> else a)"

definition supports_ipv4 :: "np_adapter \<Rightarrow> bool" where
  "supports_ipv4 a = list_ex (\<lambda>x. is_ipv4 (npa_address x)) (np_addresses a)"

definition supports_ipv6 :: "np_adapter \<Rightarrow> bool" where
  "supports_ipv6 a = list_ex (\<lambda>x. \<not> is_ipv4 (npa_address x)) (np_addresses a)"

datatype adapter_table_error = At_InvalidAdapterIndex | At_AdapterNotFound

type_synonym adapter_table = "np_adapter list"

definition at_insert :: "np_adapter \<Rightarrow> adapter_table \<Rightarrow> (adapter_table_error + unit) \<times> adapter_table" where
  "at_insert a t = (if np_index a = 0 then (Inl At_InvalidAdapterIndex, t)
     else (Inr (), sort_key np_index (upsert np_index (\<lambda>_ new. new) a t)))"

definition at_get :: "u32 \<Rightarrow> adapter_table \<Rightarrow> adapter_table_error + np_adapter" where
  "at_get i t = (if i = 0 then Inl At_InvalidAdapterIndex
     else case List.find (\<lambda>a. np_index a = i) t of None \<Rightarrow> Inl At_AdapterNotFound | Some a \<Rightarrow> Inr a)"

definition at_remove :: "u32 \<Rightarrow> adapter_table \<Rightarrow> (adapter_table_error + np_adapter) \<times> adapter_table" where
  "at_remove i t = (if i = 0 then (Inl At_InvalidAdapterIndex, t)
     else case take_first (\<lambda>a. np_index a = i) t of None \<Rightarrow> (Inl At_AdapterNotFound, t) | Some (a, t') \<Rightarrow> (Inr a, t'))"

definition find_by_name :: "string \<Rightarrow> adapter_table \<Rightarrow> np_adapter option" where
  "find_by_name name t = List.find (\<lambda>a. np_name a = name) t"

interpretation npt: checked_table np_index "\<lambda>_ new. new" "\<lambda>a. np_index a \<noteq> 0"
  by unfold_locales simp_all

text \<open>The table is kept sorted by index, so an insertion is found again and nothing else changes.\<close>

lemma lookup_sort_key: "distinct (map key xs) \<Longrightarrow> lookup_by key k (sort_key f xs) = lookup_by key k xs"
proof -
  assume d: "distinct (map key xs)"
  then have d': "distinct (map key (sort_key f xs))"
    by (simp add: distinct_map)
  show ?thesis
  proof (cases "lookup_by key k xs")
    case None
    then have "lookup_by key k (sort_key f xs) = None" by (simp only: lookup_by_None_iff set_sort not_False_eq_True)
    then show ?thesis using None by simp
  next
    case (Some e)
    then have "e \<in> set (sort_key f xs)" "key e = k" by (auto dest: lookup_by_SomeD)
    then show ?thesis using Some lookup_by_distinct [OF d'] by auto
  qed
qed

definition adapters_ok :: "adapter_table \<Rightarrow> bool" where
  "adapters_ok t \<longleftrightarrow> table_ok np_index (\<lambda>a. np_index a \<noteq> 0) t \<and> sorted (map np_index t)"

lemma at_insert_ok:
  assumes "adapters_ok t"
  shows "adapters_ok (snd (at_insert a t))"
    and "np_index a \<noteq> 0 \<Longrightarrow> i \<noteq> 0 \<Longrightarrow> at_get i (snd (at_insert a t)) = (if i = np_index a then Inr a else at_get i t)"
proof -
  let ?u = "upsert np_index (\<lambda>_ new. new) a t"
  show "adapters_ok (snd (at_insert a t))"
    using assms npt.table_ok_upsert [of t a]
    by (auto simp: at_insert_def adapters_ok_def table_ok_def distinct_map list_all_iff)
  have d: "distinct (map np_index ?u)"
    using assms npt.distinct_upsert [of t a] by (simp add: adapters_ok_def table_ok_def)
  show "np_index a \<noteq> 0 \<Longrightarrow> i \<noteq> 0 \<Longrightarrow> at_get i (snd (at_insert a t)) = (if i = np_index a then Inr a else at_get i t)"
    using lookup_sort_key [OF d, of i np_index] npt.lookup_upsert [of i a t]
    by (simp add: at_insert_def at_get_def lookup_by_def [symmetric] split: option.splits)
qed

lemma at_remove_ok:
  assumes "adapters_ok t"
  shows "adapters_ok (snd (at_remove i t))"
proof (cases "take_first (\<lambda>a. np_index a = i) t")
  case None
  then show ?thesis using assms by (simp add: at_remove_def)
next
  case (Some p)
  obtain a t' where p: "p = (a, t')" by (cases p)
  from take_first_split [OF Some [unfolded p]] obtain us vs where "t = us @ a # vs" "t' = us @ vs" by blast
  then show ?thesis using assms Some p
    by (auto simp: at_remove_def adapters_ok_def table_ok_def sorted_append)
qed

subsection \<open>Devices (\<open>device.rs\<close>)\<close>

datatype device_state = Ds_Unknown | Ds_Available | Ds_Open | Ds_Closed | Ds_Failed

record np_device =
  nd_name :: string
  nd_description :: "string option"
  nd_state :: device_state
  nd_interface_index :: "u32 option"

definition device_new :: "string \<Rightarrow> np_device option" where
  "device_new name = (if trim name = [] then None
     else Some \<lparr> nd_name = name, nd_description = None, nd_state = Ds_Unknown, nd_interface_index = None \<rparr>)"

definition device_set_description :: "string \<Rightarrow> np_device \<Rightarrow> np_device" where
  "device_set_description d dev = (if trim d = [] then dev\<lparr> nd_description := None \<rparr> else dev\<lparr> nd_description := Some d \<rparr>)"

definition device_set_interface_index :: "u32 \<Rightarrow> np_device \<Rightarrow> np_device" where
  "device_set_interface_index i dev = dev\<lparr> nd_interface_index := (if i = 0 then None else Some i) \<rparr>"

datatype device_error = De_InvalidDeviceName | De_DeviceNotFound | De_DeviceAlreadyOpen | De_DeviceNotOpen
  | De_DeviceEnumerationFailed | De_DeviceOpenFailed

type_synonym device_manager = "np_device list"

definition dm_add :: "np_device \<Rightarrow> device_manager \<Rightarrow> (device_error + unit) \<times> device_manager" where
  "dm_add d m = (if trim (nd_name d) = [] then (Inl De_InvalidDeviceName, m)
     else if list_ex (\<lambda>existing. nd_name existing = nd_name d) m then (Inr (), m)
     else (Inr (), m @ [d]))"

definition dm_get :: "string \<Rightarrow> device_manager \<Rightarrow> device_error + np_device" where
  "dm_get name m = (if trim name = [] then Inl De_InvalidDeviceName
     else case List.find (\<lambda>d. nd_name d = name) m of None \<Rightarrow> Inl De_DeviceNotFound | Some d \<Rightarrow> Inr d)"

definition dm_set_state :: "string \<Rightarrow> device_state \<Rightarrow> device_manager \<Rightarrow> device_manager" where
  \<comment> \<open>the change through the reference of \<open>get_mut\<close>\<close>
  "dm_set_state name st m = (case update_first (\<lambda>d. nd_name d = name) (\<lambda>d. d\<lparr> nd_state := st \<rparr>) m of None \<Rightarrow> m | Some m' \<Rightarrow> m')"

definition dm_open :: "string \<Rightarrow> device_manager \<Rightarrow> (device_error + unit) \<times> device_manager" where
  "dm_open name m = (case dm_get name m of
      Inl e \<Rightarrow> (Inl e, m)
    | Inr d \<Rightarrow> if nd_state d = Ds_Open then (Inl De_DeviceAlreadyOpen, m)
        else if nd_state d = Ds_Failed then (Inl De_DeviceOpenFailed, m)
        else (Inr (), dm_set_state name Ds_Open m))"

definition dm_close :: "string \<Rightarrow> device_manager \<Rightarrow> (device_error + unit) \<times> device_manager" where
  "dm_close name m = (case dm_get name m of
      Inl e \<Rightarrow> (Inl e, m)
    | Inr d \<Rightarrow> if nd_state d \<noteq> Ds_Open then (Inl De_DeviceNotOpen, m)
        else (Inr (), dm_set_state name Ds_Closed m))"

definition dm_remove :: "string \<Rightarrow> device_manager \<Rightarrow> (device_error + np_device) \<times> device_manager" where
  "dm_remove name m = (if trim name = [] then (Inl De_InvalidDeviceName, m)
     else case take_first (\<lambda>d. nd_name d = name) m of None \<Rightarrow> (Inl De_DeviceNotFound, m) | Some (d, m') \<Rightarrow> (Inr d, m'))"

text \<open>
  One element of the list \<open>pcap_findalldevs\<close> returns: its name and description, \<open>None\<close> for a null
  pointer or text that is not valid UTF-8, and its flags.
\<close>

record pcap_if =
  pi_name :: "string option"
  pi_description :: "string option"
  pi_flags :: u32

definition c_string :: "string option \<Rightarrow> string option" where
  "c_string p = (case p of None \<Rightarrow> None | Some s \<Rightarrow> if trim s = [] then None else Some (trim s))"

definition device_of_if :: "pcap_if \<Rightarrow> np_device option" where
  "device_of_if p = (case c_string (pi_name p) of
      None \<Rightarrow> None
    | Some name \<Rightarrow> (case device_new name of
        None \<Rightarrow> None
      | Some device \<Rightarrow>
          let device = (case c_string (pi_description p) of None \<Rightarrow> device | Some d \<Rightarrow> device_set_description d device);
              device = device\<lparr> nd_interface_index := None \<rparr> in
          Some (if pi_flags p AND (2 OR 4) \<noteq> 0 then device\<lparr> nd_state := Ds_Available \<rparr> else device\<lparr> nd_state := Ds_Closed \<rparr>)))"

definition dm_enumerate :: "int \<times> pcap_if list option \<Rightarrow> device_error + np_device list" where
  "dm_enumerate reply = (case reply of (result, alldevs) \<Rightarrow>
     if result \<noteq> 0 then Inl De_DeviceEnumerationFailed
     else case alldevs of
       None \<Rightarrow> Inl De_DeviceEnumerationFailed
     | Some ifs \<Rightarrow> (let devices = List.map_filter device_of_if ifs in
         if devices = [] then Inl De_DeviceEnumerationFailed else Inr devices))"

primrec dm_add_all :: "np_device list \<Rightarrow> device_manager \<Rightarrow> (device_error + unit) \<times> device_manager" where
  "dm_add_all [] m = (Inr (), m)"
| "dm_add_all (d # ds) m = (case dm_add d m of (Inl e, m') \<Rightarrow> (Inl e, m') | (Inr _, m') \<Rightarrow> dm_add_all ds m')"

definition dm_refresh :: "int \<times> pcap_if list option \<Rightarrow> device_manager \<Rightarrow> (device_error + unit) \<times> device_manager" where
  "dm_refresh reply m = (case dm_enumerate reply of Inl e \<Rightarrow> (Inl e, m) | Inr devices \<Rightarrow> dm_add_all devices [])"

definition devices_ok :: "device_manager \<Rightarrow> bool" where
  "devices_ok m \<longleftrightarrow> table_ok nd_name (\<lambda>d. trim (nd_name d) \<noteq> []) m"

text \<open>
  The devices have distinct names that are not blank. A device is open exactly between a successful
  \<open>open\<close> and the \<open>close\<close> of its name; a failed one is not opened.
\<close>

lemma c_string_nonblank: "c_string p = Some s \<Longrightarrow> trim s \<noteq> []"
  by (auto simp: c_string_def split: option.splits if_splits)

lemma device_of_if_name: "device_of_if p = Some d \<Longrightarrow> trim (nd_name d) \<noteq> []"
  by (auto simp: device_of_if_def device_new_def device_set_description_def Let_def split: option.splits if_splits)

lemma dm_add_ok: "devices_ok m \<Longrightarrow> devices_ok (snd (dm_add d m))"
  by (auto simp: dm_add_def devices_ok_def table_ok_def list_ex_iff)

lemma dm_add_all_ok: "devices_ok m \<Longrightarrow> devices_ok (snd (dm_add_all ds m))"
proof (induction ds arbitrary: m)
  case (Cons d ds)
  then show ?case using dm_add_ok [of m d] by (auto split: prod.splits sum.splits)
qed simp

lemma dm_refresh_ok: "devices_ok m \<Longrightarrow> devices_ok (snd (dm_refresh reply m))"
  using dm_add_all_ok [of "[]"] by (auto simp: dm_refresh_def devices_ok_def split: sum.splits)

interpretation dmt: checked_table nd_name "\<lambda>_ new. new" "\<lambda>d. trim (nd_name d) \<noteq> []"
  by unfold_locales simp_all

lemma dm_set_state_ok: "devices_ok m \<Longrightarrow> devices_ok (dm_set_state name st m)"
  using dmt.table_ok_update [of "\<lambda>d. d\<lparr> nd_state := st \<rparr>"] by (auto simp: dm_set_state_def devices_ok_def split: option.splits)

lemma dm_ops_ok:
  assumes "devices_ok m"
  shows "devices_ok (snd (dm_open name m))" and "devices_ok (snd (dm_close name m))" and "devices_ok (snd (dm_remove name m))"
proof -
  show "devices_ok (snd (dm_remove name m))"
    using assms dmt.table_ok_take by (auto simp: dm_remove_def devices_ok_def split: option.splits)
qed (use assms dm_set_state_ok in \<open>auto simp: dm_open_def dm_close_def split: sum.splits\<close>)

lemma dm_set_state_get:
  assumes "dm_get name m = Inr d"
  shows "dm_get other (dm_set_state name st m) = (if other = name then Inr (d\<lparr> nd_state := st \<rparr>) else dm_get other m)"
proof -
  have l: "lookup_by nd_name name m = Some d" "trim name \<noteq> []"
    using assms by (auto simp: dm_get_def lookup_by_def split: if_splits option.splits)
  let ?f = "\<lambda>d. d\<lparr> nd_state := st \<rparr>"
  have k: "nd_name (?f x) = nd_name x" for x :: np_device by simp
  from l obtain m' where m': "update_first (\<lambda>d. nd_name d = name) ?f m = Some m'"
    using dmt.update_first_key(1) [of ?f name m, OF k] by fastforce
  then show ?thesis
    using dmt.update_first_key(3) [of ?f name m m' other, OF k m'] l
    by (cases "other = name") (simp_all add: dm_set_state_def dm_get_def lookup_by_def [symmetric])
qed

lemma dm_open_close:
  assumes "dm_open name m = (Inr (), m')"
  shows "\<exists>d. dm_get name m' = Inr d \<and> nd_state d = Ds_Open" and "fst (dm_open name m') = Inl De_DeviceAlreadyOpen"
    and "fst (dm_close name m') = Inr ()"
proof -
  from assms obtain d where "dm_get name m = Inr d" "m' = dm_set_state name Ds_Open m"
    by (auto simp: dm_open_def split: sum.splits if_splits)
  then have g: "dm_get name m' = Inr (d\<lparr> nd_state := Ds_Open \<rparr>)" by (simp add: dm_set_state_get)
  then show "\<exists>d. dm_get name m' = Inr d \<and> nd_state d = Ds_Open" by simp
  show "fst (dm_open name m') = Inl De_DeviceAlreadyOpen" "fst (dm_close name m') = Inr ()"
    using g by (simp_all add: dm_open_def dm_close_def)
qed

subsection \<open>Metadata (\<open>metadata.rs\<close>)\<close>

datatype np_packet_direction = Npd_Inbound | Npd_Outbound | Npd_Unknown

datatype link_type = Lt_Ethernet | Lt_Raw | Lt_Loopback | Lt_Unknown u32

definition link_type_from_datalink :: "u32 \<Rightarrow> link_type" where
  "link_type_from_datalink v = (if v = 1 then Lt_Ethernet else if v = 101 then Lt_Raw else if v = 0 then Lt_Loopback else Lt_Unknown v)"

record np_packet_metadata =
  pm_interface_index :: u32
  pm_direction :: np_packet_direction
  pm_link_type :: link_type
  pm_captured_length :: usize
  pm_original_length :: usize
  pm_timestamp_seconds :: int
  pm_timestamp_microseconds :: int
  pm_source_ip :: "ip_addr option"
  pm_destination_ip :: "ip_addr option"

definition packet_metadata_new :: "u32 \<Rightarrow> usize \<Rightarrow> usize \<Rightarrow> np_packet_metadata option" where
  "packet_metadata_new i captured_length original_length =
     (if i = 0 then None
      else if captured_length = 0 \<or> original_length = 0 \<or> captured_length > original_length then None
      else Some \<lparr> pm_interface_index = i, pm_direction = Npd_Unknown, pm_link_type = Lt_Unknown 0,
        pm_captured_length = captured_length, pm_original_length = original_length, pm_timestamp_seconds = 0,
        pm_timestamp_microseconds = 0, pm_source_ip = None, pm_destination_ip = None \<rparr>)"

definition pm_is_truncated :: "np_packet_metadata \<Rightarrow> bool" where
  "pm_is_truncated m \<longleftrightarrow> pm_captured_length m < pm_original_length m"

record np_adapter_metadata =
  am_interface_index :: u32
  am_name :: string
  am_description :: "string option"
  am_mac_address :: "byte list option"
  am_link_type :: link_type
  am_mtu :: "u32 option"

definition adapter_metadata_new :: "u32 \<Rightarrow> string \<Rightarrow> np_adapter_metadata option" where
  "adapter_metadata_new i name = (if i = 0 then None else if trim name = [] then None
     else Some \<lparr> am_interface_index = i, am_name = name, am_description = None, am_mac_address = None,
       am_link_type = Lt_Ethernet, am_mtu = None \<rparr>)"

definition am_set_mtu :: "u32 \<Rightarrow> np_adapter_metadata \<Rightarrow> np_adapter_metadata" where
  "am_set_mtu mtu m = (if mtu > 0 then m\<lparr> am_mtu := Some mtu \<rparr> else m)"

record np_metadata_table =
  mt_packets :: "np_packet_metadata list"
  mt_adapters :: "np_adapter_metadata list"

definition metadata_table_new :: np_metadata_table where
  "metadata_table_new = \<lparr> mt_packets = [], mt_adapters = [] \<rparr>"

definition mt_add_packet :: "np_packet_metadata \<Rightarrow> np_metadata_table \<Rightarrow> np_metadata_table" where
  "mt_add_packet p m = m\<lparr> mt_packets := mt_packets m @ [p] \<rparr>"

definition mt_add_adapter :: "np_adapter_metadata \<Rightarrow> np_metadata_table \<Rightarrow> np_metadata_table" where
  "mt_add_adapter a m = m\<lparr> mt_adapters := upsert am_interface_index (\<lambda>_ new. new) a (mt_adapters m) \<rparr>"

definition mt_clear :: "np_metadata_table \<Rightarrow> np_metadata_table" where
  "mt_clear m = m\<lparr> mt_packets := [], mt_adapters := [] \<rparr>"

interpretation mtt: vec_table am_interface_index "\<lambda>_ new. new"
  by unfold_locales simp

lemma mt_add_adapter_lookup:
  "lookup_by am_interface_index i (mt_adapters (mt_add_adapter a m)) =
     (if i = am_interface_index a then Some a else lookup_by am_interface_index i (mt_adapters m))"
  by (simp add: mt_add_adapter_def mtt.lookup_upsert split: option.splits)

subsection \<open>The backend (\<open>lib.rs\<close>)\<close>

datatype npcap_backend_state = Nbs_Disabled | Nbs_Starting | Nbs_Running | Nbs_Degraded | Nbs_Failed | Nbs_Stopping | Nbs_Stopped

datatype npcap_error = Npe_AlreadyRunning | Npe_NotRunning | Npe_InitializationFailed | Npe_DeviceUnavailable
  | Npe_CaptureFailed | Npe_InvalidCaptureId | Npe_ObservationCreationFailed

record npcap_backend =
  nb_state :: npcap_backend_state
  nb_devices :: device_manager
  nb_adapters :: adapter_table
  nb_metadata :: np_metadata_table
  nb_captures :: "capture_session list"
  nb_next_observation_id :: u64

definition npcap_new :: npcap_backend where
  "npcap_new = \<lparr> nb_state = Nbs_Stopped, nb_devices = [], nb_adapters = [], nb_metadata = metadata_table_new,
     nb_captures = [], nb_next_observation_id = 1 \<rparr>"

definition nb_start :: "npcap_backend \<Rightarrow> (npcap_error + unit) \<times> npcap_backend" where
  "nb_start b = (if nb_state b = Nbs_Running then (Inl Npe_AlreadyRunning, b)
     else let b = b\<lparr> nb_state := Nbs_Starting \<rparr> in (Inr (), b\<lparr> nb_state := Nbs_Running \<rparr>))"

primrec stop_running :: "capture_session list \<Rightarrow> capture_session list \<times> pcap_call list" where
  "stop_running [] = ([], [])"
| "stop_running (s # ss) = (case (if cs_is_running s then snd (cs_stop s) else (s, [])) of (s', calls) \<Rightarrow>
     (case stop_running ss of (ss', calls') \<Rightarrow> (s' # ss', calls @ calls')))"

definition nb_stop :: "npcap_backend \<Rightarrow> (npcap_error + unit) \<times> npcap_backend \<times> pcap_call list" where
  "nb_stop b = (if nb_state b \<noteq> Nbs_Running \<and> nb_state b \<noteq> Nbs_Degraded then (Inl Npe_NotRunning, b, [])
     else let b = b\<lparr> nb_state := Nbs_Stopping \<rparr> in
       case stop_running (nb_captures b) of (captures, calls) \<Rightarrow>
         (Inr (), b\<lparr> nb_captures := captures, nb_state := Nbs_Stopped \<rparr>, calls))"

definition nb_is_running :: "npcap_backend \<Rightarrow> bool" where
  "nb_is_running b \<longleftrightarrow> nb_state b = Nbs_Running"

definition nb_degrade :: "npcap_backend \<Rightarrow> npcap_backend" where
  "nb_degrade b = (if nb_is_running b then b\<lparr> nb_state := Nbs_Degraded \<rparr> else b)"

definition nb_fail :: "npcap_backend \<Rightarrow> npcap_backend" where
  "nb_fail b = b\<lparr> nb_state := Nbs_Failed \<rparr>"

definition create_capture :: "capture_config \<Rightarrow> npcap_backend \<Rightarrow> (npcap_error + usize) \<times> npcap_backend" where
  "create_capture config b = (if \<not> nb_is_running b then (Inl Npe_NotRunning, b)
     else case capture_session_new config of
       Inl _ \<Rightarrow> (Inl Npe_CaptureFailed, b)
     | Inr session \<Rightarrow> (let captures = nb_captures b @ [session] in
         (Inr (length captures - 1), b\<lparr> nb_captures := captures \<rparr>)))"

definition start_capture ::
  "usize \<times> int \<Rightarrow> usize \<Rightarrow> npcap_backend \<Rightarrow> (npcap_error + unit) \<times> npcap_backend \<times> pcap_call list" where
  "start_capture reply capture_id b = (if \<not> nb_is_running b then (Inl Npe_NotRunning, b, [])
     else if \<not> capture_id < length (nb_captures b) then (Inl Npe_InvalidCaptureId, b, [])
     else let capture = nb_captures b ! capture_id in
       case at_get (cc_interface_index (cs_config capture)) (nb_adapters b) of
         Inl _ \<Rightarrow> (Inl Npe_DeviceUnavailable, b, [])
       | Inr adapter \<Rightarrow> (case cs_start reply (np_name adapter) capture of
           (r, capture', calls) \<Rightarrow>
             ((case r of Inl _ \<Rightarrow> Inl Npe_CaptureFailed | Inr u \<Rightarrow> Inr u),
              b\<lparr> nb_captures := (nb_captures b)[capture_id := capture'] \<rparr>, calls)))"

definition stop_capture :: "usize \<Rightarrow> npcap_backend \<Rightarrow> (npcap_error + unit) \<times> npcap_backend \<times> pcap_call list" where
  "stop_capture capture_id b = (if \<not> capture_id < length (nb_captures b) then (Inl Npe_InvalidCaptureId, b, [])
     else case cs_stop (nb_captures b ! capture_id) of (r, capture', calls) \<Rightarrow>
       ((case r of Inl _ \<Rightarrow> Inl Npe_CaptureFailed | Inr u \<Rightarrow> Inr u),
        b\<lparr> nb_captures := (nb_captures b)[capture_id := capture'] \<rparr>, calls))"

definition nb_receive_packet ::
  "next_reply \<Rightarrow> usize \<Rightarrow> npcap_backend \<Rightarrow> (npcap_error + captured_packet option) \<times> npcap_backend \<times> pcap_call list" where
  "nb_receive_packet reply capture_id b =
     (if \<not> nb_is_running b \<and> nb_state b \<noteq> Nbs_Degraded then (Inl Npe_NotRunning, b, [])
      else if \<not> capture_id < length (nb_captures b) then (Inl Npe_InvalidCaptureId, b, [])
      else if \<not> cs_is_running (nb_captures b ! capture_id) then (Inl Npe_CaptureFailed, b, [])
      else case cs_receive_packet reply (nb_captures b ! capture_id) of (r, capture', calls) \<Rightarrow>
        ((case r of Inl _ \<Rightarrow> Inl Npe_CaptureFailed | Inr p \<Rightarrow> Inr p),
         b\<lparr> nb_captures := (nb_captures b)[capture_id := capture'] \<rparr>, calls))"

definition receive_observation ::
  "timestamp \<Rightarrow> timestamp \<Rightarrow> next_reply \<Rightarrow> usize \<Rightarrow> npcap_backend \<Rightarrow>
     (npcap_error + packet_observation \<times> ownership_tracker) \<times> npcap_backend \<times> pcap_call list" where
  "receive_observation now1 now2 reply capture_id b = (case nb_receive_packet reply capture_id b of
      (Inl e, b', calls) \<Rightarrow> (Inl e, b', calls)
    | (Inr None, b', calls) \<Rightarrow> (Inl Npe_CaptureFailed, b', calls)
    | (Inr (Some captured), b', calls) \<Rightarrow>
        let i = cp_interface_index captured;
            interface_identity = (case at_get i (nb_adapters b') of
              Inr adapter \<Rightarrow> np_name adapter | Inl _ \<Rightarrow> ''npcap:'' @ show_nat (unat i));
            packet = packet_new (cp_data captured) in
        if packet_len packet = 0 then (Inl Npe_ObservationCreationFailed, b', calls)
        else let oid = nb_next_observation_id b';
                 b' = b'\<lparr> nb_next_observation_id := oid + 1 \<rparr>;
                 observation = with_provenance ''captured-by-npcap''
                   (with_native_metadata ''original_length'' (show_nat (cp_original_length captured))
                   (with_native_metadata ''interface_index'' (show_nat (unat i))
                   (with_native_metadata ''backend'' ''npcap''
                   (observation_new oid Src_Npcap now1 now2 Direction_Unknown interface_identity packet)))) in
          (case transition BackendOwned tracker_new of
             (Inl _, _) \<Rightarrow> (Inl Npe_ObservationCreationFailed, b', calls)
           | (Inr _, ownership) \<Rightarrow> (case handoff_backend_to_engine ownership of
               (Inl _, _) \<Rightarrow> (Inl Npe_ObservationCreationFailed, b', calls)
             | (Inr _, ownership) \<Rightarrow> (Inr (observation, ownership), b', calls))))"

definition clear_runtime_state :: "npcap_backend \<Rightarrow> npcap_backend \<times> pcap_call list" where
  "clear_runtime_state b = (b\<lparr> nb_captures := [], nb_metadata := mt_clear (nb_metadata b), nb_adapters := [],
     nb_devices := [], nb_next_observation_id := 1 \<rparr>, concat (map cs_drop (nb_captures b)))"

subsubsection \<open>Every handle is accounted for\<close>

datatype nb_op =
    Nb_Start
  | Nb_Stop
  | Nb_Degrade
  | Nb_Fail
  | Nb_Create capture_config
  | Nb_Start_Capture "usize \<times> int" usize
  | Nb_Stop_Capture usize
  | Nb_Receive next_reply usize
  | Nb_Observe timestamp timestamp next_reply usize
  | Nb_Clear
  | Nb_Adapter_Insert np_adapter
  | Nb_Adapter_Remove u32
  | Nb_Device_Refresh "int \<times> pcap_if list option"
  | Nb_Device_Open string
  | Nb_Device_Close string

primrec nb_exec :: "nb_op \<Rightarrow> npcap_backend \<times> pcap_call list \<Rightarrow> npcap_backend \<times> pcap_call list" where
  "nb_exec Nb_Start s = (snd (nb_start (fst s)), snd s)"
| "nb_exec Nb_Stop s = (case nb_stop (fst s) of (_, b, calls) \<Rightarrow> (b, snd s @ calls))"
| "nb_exec Nb_Degrade s = (nb_degrade (fst s), snd s)"
| "nb_exec Nb_Fail s = (nb_fail (fst s), snd s)"
| "nb_exec (Nb_Create c) s = (snd (create_capture c (fst s)), snd s)"
| "nb_exec (Nb_Start_Capture reply i) s = (case start_capture reply i (fst s) of (_, b, calls) \<Rightarrow> (b, snd s @ calls))"
| "nb_exec (Nb_Stop_Capture i) s = (case stop_capture i (fst s) of (_, b, calls) \<Rightarrow> (b, snd s @ calls))"
| "nb_exec (Nb_Receive reply i) s = (case nb_receive_packet reply i (fst s) of (_, b, calls) \<Rightarrow> (b, snd s @ calls))"
| "nb_exec (Nb_Observe n1 n2 reply i) s = (case receive_observation n1 n2 reply i (fst s) of (_, b, calls) \<Rightarrow> (b, snd s @ calls))"
| "nb_exec Nb_Clear s = (case clear_runtime_state (fst s) of (b, calls) \<Rightarrow> (b, snd s @ calls))"
| "nb_exec (Nb_Adapter_Insert a) s = ((fst s)\<lparr> nb_adapters := snd (at_insert a (nb_adapters (fst s))) \<rparr>, snd s)"
| "nb_exec (Nb_Adapter_Remove i) s = ((fst s)\<lparr> nb_adapters := snd (at_remove i (nb_adapters (fst s))) \<rparr>, snd s)"
| "nb_exec (Nb_Device_Refresh reply) s = ((fst s)\<lparr> nb_devices := snd (dm_refresh reply (nb_devices (fst s))) \<rparr>, snd s)"
| "nb_exec (Nb_Device_Open name) s = ((fst s)\<lparr> nb_devices := snd (dm_open name (nb_devices (fst s))) \<rparr>, snd s)"
| "nb_exec (Nb_Device_Close name) s = ((fst s)\<lparr> nb_devices := snd (dm_close name (nb_devices (fst s))) \<rparr>, snd s)"

definition nb_held :: "npcap_backend \<Rightarrow> usize multiset" where
  "nb_held b = sum_list (map cs_held (nb_captures b))"

definition nb_inv :: "npcap_backend \<times> pcap_call list \<Rightarrow> bool" where
  "nb_inv s \<longleftrightarrow> list_all cs_ok (nb_captures (fst s)) \<and> adapters_ok (nb_adapters (fst s)) \<and> devices_ok (nb_devices (fst s)) \<and>
     pcap_opened (snd s) = pcap_closed (snd s) + nb_held (fst s)"

lemma sum_list_held_update:
  "i < length ss \<Longrightarrow> sum_list (map cs_held (ss[i := s])) + cs_held (ss ! i) = sum_list (map cs_held ss) + cs_held s"
proof (induction ss arbitrary: i)
  case (Cons a ss)
  then show ?case by (cases i) (simp_all add: ac_simps)
qed simp

text \<open>A session operation on one capture, and the rest of the backend untouched.\<close>

lemma capture_update_inv:
  assumes "nb_inv (b, log)" and "i < length (nb_captures b)" and "cs_ok s'" and "balanced (nb_captures b ! i) s' calls"
    and "b' = b\<lparr> nb_captures := (nb_captures b)[i := s'] \<rparr>"
  shows "nb_inv (b', log @ calls)"
proof -
  have h: "nb_held b' + cs_held (nb_captures b ! i) = nb_held b + cs_held s'"
    using sum_list_held_update [OF assms(2), of s'] by (simp add: nb_held_def assms(5))
  have "pcap_opened log = pcap_closed log + nb_held b" using assms(1) by (simp add: nb_inv_def)
  then have "pcap_opened (log @ calls) + cs_held (nb_captures b ! i) = pcap_closed (log @ calls) + nb_held b' + cs_held (nb_captures b ! i)"
    using assms(4) h unfolding balanced_def by (simp add: ac_simps)
  then have "pcap_opened (log @ calls) = pcap_closed (log @ calls) + nb_held b'" by simp
  moreover have "list_all cs_ok ((nb_captures b)[i := s'])"
    using assms(1,3) by (auto simp: nb_inv_def list_all_iff dest: set_update_subset_insert [THEN subsetD])
  ultimately show ?thesis using assms(1,5) by (simp add: nb_inv_def)
qed

lemma stop_running_ok:
  "list_all cs_ok ss \<Longrightarrow> stop_running ss = (ss', calls) \<Longrightarrow>
     list_all cs_ok ss' \<and> sum_list (map cs_held ss) + pcap_opened calls = sum_list (map cs_held ss') + pcap_closed calls \<and>
     list_all (\<lambda>s. \<not> cs_is_running s) ss'"
proof (induction ss arbitrary: ss' calls)
  case (Cons s ss)
  obtain s' c where s': "(if cs_is_running s then snd (cs_stop s) else (s, [])) = (s', c)" by fastforce
  obtain ss'' c' where ss: "stop_running ss = (ss'', c')" by fastforce
  have "cs_ok s' \<and> balanced s s' c \<and> \<not> cs_is_running s'"
  proof (cases "cs_is_running s")
    case True
    then obtain r where "cs_stop s = (r, s', c)" using s' by (cases "cs_stop s") auto
    then show ?thesis using cs_stop_ok [of s r s' c] Cons.prems(1) True
      by (auto simp: cs_is_running_def cs_stop_def split: prod.splits)
  qed (use s' Cons.prems(1) in \<open>auto simp: balanced_def\<close>)
  then show ?case
    using Cons.IH [OF _ ss] Cons.prems s' ss by (auto simp: balanced_def ac_simps) (metis add.assoc add.commute)
qed auto

lemma nb_inv_same:
  assumes "nb_inv (b, log)" and "nb_captures b' = nb_captures b" and "nb_adapters b' = nb_adapters b" and "nb_devices b' = nb_devices b"
  shows "nb_inv (b', log)"
  using assms by (simp add: nb_inv_def nb_held_def)

lemma nb_receive_packet_inv:
  assumes "nb_inv (b, log)" and "nb_receive_packet reply i b = (r, b', calls)"
  shows "nb_inv (b', log @ calls)"
proof (cases "(nb_is_running b \<or> nb_state b = Nbs_Degraded) \<and> i < length (nb_captures b) \<and> cs_is_running (nb_captures b ! i)")
  case True
  obtain q s' c where c: "cs_receive_packet reply (nb_captures b ! i) = (q, s', c)" by (metis prod_cases3)
  have "calls = c" "b' = b\<lparr> nb_captures := (nb_captures b)[i := s'] \<rparr>"
    using assms(2) True by (auto simp: nb_receive_packet_def c)
  moreover have "cs_ok (nb_captures b ! i)" using assms(1) True by (simp add: nb_inv_def list_all_length)
  ultimately show ?thesis using capture_update_inv [OF assms(1), of i s'] cs_receive_ok [OF _ c] True by simp
next
  case False
  then have "b' = b \<and> calls = []" using assms(2) by (auto simp: nb_receive_packet_def split: if_splits)
  then show ?thesis using assms(1) by simp
qed

lemma receive_observation_state:
  assumes "receive_observation n1 n2 reply i b = (r, b', calls)"
  obtains q b'' where "nb_receive_packet reply i b = (q, b'', calls)" "nb_captures b' = nb_captures b''"
    "nb_adapters b' = nb_adapters b''" "nb_devices b' = nb_devices b''"
proof -
  obtain q b'' c where q: "nb_receive_packet reply i b = (q, b'', c)" by (metis prod_cases3)
  have "c = calls \<and> nb_captures b' = nb_captures b'' \<and> nb_adapters b' = nb_adapters b'' \<and> nb_devices b' = nb_devices b''"
    using assms unfolding receive_observation_def q
    by (auto simp: Let_def split: sum.splits option.splits if_splits prod.splits)
  then show thesis using that q by blast
qed

lemma nb_exec_inv: "nb_inv s \<Longrightarrow> nb_inv (nb_exec op s)"
proof -
  assume inv: "nb_inv s"
  obtain b log where s: "s = (b, log)" by (cases s)
  note inv' = inv [unfolded s]
  have cap: "cs_ok (nb_captures b ! i)" if "i < length (nb_captures b)" for i
    using inv' that by (simp add: nb_inv_def list_all_length)
  show ?thesis
  proof (cases op)
    case Nb_Stop
    then show ?thesis using inv' stop_running_ok [of "nb_captures b"]
      by (auto simp: s nb_stop_def nb_inv_def nb_held_def Let_def ac_simps split: prod.splits)
  next
    case (Nb_Create c)
    then show ?thesis using inv' cs_new_ok
      by (auto simp: s create_capture_def nb_inv_def nb_held_def Let_def split: sum.splits)
  next
    case (Nb_Start_Capture reply i)
    then show ?thesis using inv' capture_update_inv [OF inv'] cs_start_ok [OF cap]
      by (auto simp: s start_capture_def Let_def split: prod.splits sum.splits)
  next
    case (Nb_Stop_Capture i)
    then show ?thesis using inv' capture_update_inv [OF inv'] cs_stop_ok [OF cap]
      by (auto simp: s stop_capture_def split: prod.splits)
  next
    case (Nb_Receive reply i)
    then show ?thesis using nb_receive_packet_inv [OF inv'] by (auto simp: s split: prod.splits)
  next
    case (Nb_Observe n1 n2 reply i)
    obtain r b' calls where o: "receive_observation n1 n2 reply i b = (r, b', calls)" by (metis prod_cases3)
    from receive_observation_state [OF o] obtain q b'' where q: "nb_receive_packet reply i b = (q, b'', calls)"
      "nb_captures b' = nb_captures b''" "nb_adapters b' = nb_adapters b''" "nb_devices b' = nb_devices b''" by metis
    have "nb_inv (b', log @ calls)" by (rule nb_inv_same [OF nb_receive_packet_inv [OF inv' q(1)] q(2-4)])
    then show ?thesis using Nb_Observe o by (simp add: s)
  next
    case Nb_Clear
    have "pcap_closed (concat (map cs_drop ss)) = sum_list (map cs_held ss) \<and> pcap_opened (concat (map cs_drop ss)) = {#}" for ss
      by (induction ss) (simp_all add: cs_drop_ok)
    then show ?thesis using inv' Nb_Clear
      by (simp add: s clear_runtime_state_def nb_inv_def nb_held_def adapters_ok_def devices_ok_def)
  qed (use inv' in \<open>auto simp: s nb_start_def nb_degrade_def nb_fail_def nb_inv_def nb_held_def Let_def at_insert_ok at_remove_ok
      dm_refresh_ok dm_ops_ok\<close>)
qed

text \<open>
  C35: Npcap's handles. After any history of the backend, whatever the library answers, every handle
  it opened has been closed exactly once or is held by a session; a session holds one exactly while
  it runs; and after a successful stop none is held.
\<close>

theorem npcap_handles_accounted:
  "case fold nb_exec ops (npcap_new, []) of (b, calls) \<Rightarrow>
     pcap_opened calls = pcap_closed calls + nb_held b \<and>
     list_all (\<lambda>s. cs_handle s \<noteq> None \<longleftrightarrow> cs_is_running s) (nb_captures b) \<and>
     (case nb_stop b of
        (Inr _, b', calls') \<Rightarrow> nb_held b' = {#} \<and> pcap_opened (calls @ calls') = pcap_closed (calls @ calls')
      | (Inl _, b', calls') \<Rightarrow> b' = b \<and> calls' = [])"
proof -
  obtain b calls where f: "fold nb_exec ops (npcap_new, []) = (b, calls)" by fastforce
  have "nb_inv s \<Longrightarrow> nb_inv (fold nb_exec ops s)" for s by (induction ops arbitrary: s) (simp_all add: nb_exec_inv)
  moreover have "nb_inv (npcap_new, [])"
    by (simp add: nb_inv_def npcap_new_def nb_held_def adapters_ok_def devices_ok_def)
  ultimately have inv: "nb_inv (b, calls)" using f by metis
  have held: "sum_list (map cs_held ss) = {#}" if "list_all cs_ok ss" "list_all (\<lambda>s. \<not> cs_is_running s) ss" for ss
    using that by (induction ss) (auto simp: cs_held_def cs_ok_def cs_is_running_def)
  have "case nb_stop b of
        (Inr _, b', calls') \<Rightarrow> nb_held b' = {#} \<and> pcap_opened (calls @ calls') = pcap_closed (calls @ calls')
      | (Inl _, b', calls') \<Rightarrow> b' = b \<and> calls' = []"
  proof (cases "nb_state b \<noteq> Nbs_Running \<and> nb_state b \<noteq> Nbs_Degraded")
    case False
    obtain ss c where ss: "stop_running (nb_captures b) = (ss, c)" by fastforce
    with inv stop_running_ok [OF _ ss] have ok: "list_all cs_ok ss" "list_all (\<lambda>s. \<not> cs_is_running s) ss"
        "nb_held b + pcap_opened c = sum_list (map cs_held ss) + pcap_closed c"
      by (auto simp: nb_inv_def nb_held_def)
    then show ?thesis
      using False ss inv held [OF ok(1,2)] by (auto simp: nb_stop_def Let_def nb_held_def nb_inv_def ac_simps)
  qed (simp add: nb_stop_def)
  then show ?thesis
    using inv by (auto simp: f nb_inv_def cs_ok_def cs_is_running_def list_all_iff)
qed

subsubsection \<open>Observations\<close>

lemma nb_receive_packet_session:
  assumes "nb_receive_packet reply i b = (Inr (Some p), b', calls)"
  obtains s' where "cs_receive_packet reply (nb_captures b ! i) = (Inr (Some p), s', calls)" "i < length (nb_captures b)"
    "nb_next_observation_id b' = nb_next_observation_id b" "nb_adapters b' = nb_adapters b"
proof -
  obtain q s' c where c: "cs_receive_packet reply (nb_captures b ! i) = (q, s', c)" by (metis prod_cases3)
  show thesis
    using that [of s'] assms by (auto simp: nb_receive_packet_def c split: if_splits sum.splits)
qed

lemma fresh_tracker:
  "transition BackendOwned tracker_new = (Inr BackendOwned, \<lparr> ot_state = BackendOwned, ot_history = [Allocated, BackendOwned] \<rparr>)"
  "handoff_backend_to_engine \<lparr> ot_state = BackendOwned, ot_history = [Allocated, BackendOwned] \<rparr> =
     (Inr EngineOwned, \<lparr> ot_state = EngineOwned, ot_history = [Allocated, BackendOwned, EngineOwned] \<rparr>)"
  by (simp_all add: transition_def tracker_new_def handoff_backend_to_engine_def transition_ownership_def is_active_def)

text \<open>
  captured packets become observations unchanged. If \<open>receive_observation\<close> returns one, it
  carries the bytes the library delivered, at least one and at most the snap length, under the next
  identifier and the name of the adapter; the identifier is consumed, no handle is opened or closed,
  and ownership has passed from the backend to the engine.
\<close>

lemma npcap_observation_exact:
  assumes "receive_observation n1 n2 (res, Some h, Some d) i b = (Inr (obs, own), b', calls)"
    and "unat (hdr_caplen h) \<le> length d"
  shows "raw_bytes (obs_packet obs) = take (unat (hdr_caplen h)) d \<and>
    packet_length obs \<in> {1..cc_snaplen (cs_config (nb_captures b ! i))} \<and>
    observation_id obs = nb_next_observation_id b \<and> nb_next_observation_id b' = nb_next_observation_id b + 1 \<and>
    backend_source obs = Src_Npcap \<and> calls = [] \<and>
    (\<forall>a. at_get (cc_interface_index (cs_config (nb_captures b ! i))) (nb_adapters b) = Inr a \<longrightarrow> interface_identity obs = np_name a) \<and>
    ot_state own = EngineOwned \<and> ot_history own = [Allocated, BackendOwned, EngineOwned]"
proof -
  from assms(1) obtain p b1 where p: "nb_receive_packet (res, Some h, Some d) i b = (Inr (Some p), b1, calls)"
    by (auto simp: receive_observation_def Let_def split: sum.splits option.splits prod.splits if_splits)
  from nb_receive_packet_session [OF p] obtain s' where
    s': "cs_receive_packet (res, Some h, Some d) (nb_captures b ! i) = (Inr (Some p), s', calls)"
      "nb_next_observation_id b1 = nb_next_observation_id b" "nb_adapters b1 = nb_adapters b" by metis
  note ex = cs_receive_exact [OF s'(1) assms(2)]
  have "calls = []" using s'(1) by (cases rule: cs_receive_cases) auto
  moreover have "obs = with_provenance ''captured-by-npcap''
      (with_native_metadata ''original_length'' (show_nat (cp_original_length p))
      (with_native_metadata ''interface_index'' (show_nat (unat (cp_interface_index p)))
      (with_native_metadata ''backend'' ''npcap''
      (observation_new (nb_next_observation_id b) Src_Npcap n1 n2 Direction_Unknown
        (case at_get (cp_interface_index p) (nb_adapters b) of
           Inr adapter \<Rightarrow> np_name adapter | Inl _ \<Rightarrow> ''npcap:'' @ show_nat (unat (cp_interface_index p))) (packet_new (cp_data p))))))"
    "b' = b1\<lparr> nb_next_observation_id := nb_next_observation_id b + 1 \<rparr>"
    "own = \<lparr> ot_state = EngineOwned, ot_history = [Allocated, BackendOwned, EngineOwned] \<rparr>"
    using assms(1) ex(2) by (simp_all add: receive_observation_def p s' Let_def fresh_tracker packet_len_def packet_new_def)
  ultimately show ?thesis
    using ex by (simp add: with_provenance_def with_native_metadata_def observation_new_def packet_new_def packet_len_def Suc_le_eq)
qed

definition demo_pkthdr :: pcap_pkthdr where
  "demo_pkthdr = \<lparr> ts_sec = 1, ts_usec = 0, hdr_caplen = 3, hdr_len = 60 \<rparr>"

definition demo_npcap :: npcap_backend where
  "demo_npcap = npcap_new\<lparr> nb_state := Nbs_Running, nb_captures := [\<lparr> cs_config = \<lparr> cc_interface_index = 4, cc_snaplen = 100,
     cc_promiscuous = True, cc_direction = Cd_Inbound, cc_timeout_ms = 10 \<rparr>, cs_state = Cs_Running,
     cs_packets_received = 0, cs_bytes_received = 0, cs_handle = Some 77 \<rparr>] \<rparr>"

theorem npcap_observation_exact_witness:
  "\<exists>obs own b' calls. receive_observation 5 6 (1, Some demo_pkthdr, Some [1, 2, 3]) 0 demo_npcap = (Inr (obs, own), b', calls) \<and>
     raw_bytes (obs_packet obs) = [1, 2, 3] \<and> observation_id obs = 1 \<and> ot_state own = EngineOwned"
proof -
  let ?r = "receive_observation 5 6 (1, Some demo_pkthdr, Some [1, 2, 3]) 0 demo_npcap"
  have "cs_receive_packet (1, Some demo_pkthdr, Some [1, 2, 3]) (nb_captures demo_npcap ! 0) =
      (Inr (Some \<lparr> cp_data = [1, 2, 3], cp_timestamp = 116444736010000000, cp_interface_index = 4, cp_original_length = 60 \<rparr>),
       (nb_captures demo_npcap ! 0)\<lparr> cs_packets_received := 1, cs_bytes_received := 3 \<rparr>, [])"
    by (simp add: cs_receive_packet_def demo_npcap_def demo_pkthdr_def cs_is_running_def receive_status_from_raw_def
        validate_packet_header_def pcap_timestamp_to_system_time_def system_time_checked_add_def unix_epoch_def
        packet_from_pcap_def cs_record_packet_def saturating_add_def Let_def)
  then have "\<exists>b'. nb_receive_packet (1, Some demo_pkthdr, Some [1, 2, 3]) 0 demo_npcap =
      (Inr (Some \<lparr> cp_data = [1, 2, 3], cp_timestamp = 116444736010000000, cp_interface_index = 4, cp_original_length = 60 \<rparr>), b', [])"
    by (simp add: nb_receive_packet_def nb_is_running_def demo_npcap_def npcap_new_def cs_is_running_def)
  then have "\<exists>obs own b' calls. ?r = (Inr (obs, own), b', calls)"
    by (auto simp: receive_observation_def Let_def fresh_tracker packet_len_def packet_new_def)
  then obtain obs own b' calls where r: "?r = (Inr (obs, own), b', calls)" by blast
  have "unat (hdr_caplen demo_pkthdr) \<le> length [1, 2, 3 :: byte]" by (simp add: demo_pkthdr_def)
  from npcap_observation_exact [OF r this] show ?thesis
    using r by (auto simp: demo_pkthdr_def demo_npcap_def npcap_new_def)
qed

text \<open>
  Clearing the runtime state restarts the identifiers, so an observation made afterwards has the
  identifier of an earlier one that may still be on the bus.
\<close>

lemma clear_restarts_identifiers: "nb_next_observation_id (fst (clear_runtime_state b)) = 1"
  by (simp add: clear_runtime_state_def)

text \<open>
  A backend that failed refuses to stop, and its sessions keep their handles until it is started again.
\<close>

lemma failed_backend_keeps_handles: "nb_stop (nb_fail b) = (Inl Npe_NotRunning, nb_fail b, []) \<and> nb_held (nb_fail b) = nb_held b"
  by (simp add: nb_stop_def nb_fail_def nb_held_def)

end
