(* ===== verification/Windivert.thy ===== *)
theory Windivert
  imports Core_Text "HOL-Library.Multiset"
begin

text \<open>
  \<open>crates/backend-windivert\<close>: the packet address and its serialized form (\<open>ffi.rs\<close>), the capture
  configuration (\<open>capture.rs\<close>, \<open>filter.rs\<close>), the driver handle (\<open>handle.rs\<close>), receiving and
  reinjecting packets (\<open>actions.rs\<close>), and the bounded packet queue (\<open>packet.rs\<close>, \<open>queue.rs\<close>). What
  the driver answers is an argument. The host is little-endian; \<open>i64\<close> and \<open>i16\<close> values that are
  only stored and passed on are words.
\<close>

subsection \<open>Addresses (\<open>ffi.rs\<close>)\<close>

record windivert_address =
  wda_timestamp :: u64
  wda_flags_raw :: u32
  wda_reserved2 :: u32
  wda_data :: "byte list"

definition wda_zeroed :: windivert_address where
  "wda_zeroed = \<lparr> wda_timestamp = 0, wda_flags_raw = 0, wda_reserved2 = 0, wda_data = replicate 64 0 \<rparr>"

definition wda_layer :: "windivert_address \<Rightarrow> u8" where
  "wda_layer a = ucast (wda_flags_raw a AND 0xff)"

definition wda_is_outbound :: "windivert_address \<Rightarrow> bool" where
  "wda_is_outbound a \<longleftrightarrow> drop_bit 17 (wda_flags_raw a) AND 1 = 1"

definition wda_is_loopback :: "windivert_address \<Rightarrow> bool" where
  "wda_is_loopback a \<longleftrightarrow> drop_bit 18 (wda_flags_raw a) AND 1 = 1"

definition wda_is_impostor :: "windivert_address \<Rightarrow> bool" where
  "wda_is_impostor a \<longleftrightarrow> drop_bit 19 (wda_flags_raw a) AND 1 = 1"

definition ne32_bytes :: "u32 \<Rightarrow> byte list" where
  \<comment> \<open>\<open>u32::to_ne_bytes\<close>\<close>
  "ne32_bytes w = [byte0 w, byte1 w, byte2 w, byte3 w]"

definition ne32_of :: "byte list \<Rightarrow> u32" where
  \<comment> \<open>\<open>u32::from_ne_bytes\<close>\<close>
  "ne32_of bs = be32 (bs ! 3) (bs ! 2) (bs ! 1) (bs ! 0)"

definition ne64_bytes :: "u64 \<Rightarrow> byte list" where
  "ne64_bytes w = ne32_bytes (ucast w) @ ne32_bytes (ucast (drop_bit 32 w))"

definition ne64_of :: "byte list \<Rightarrow> u64" where
  "ne64_of bs = ucast (ne32_of (take 4 bs)) OR push_bit 32 (ucast (ne32_of (drop 4 bs)))"

definition wda_interface_index :: "windivert_address \<Rightarrow> u32" where
  "wda_interface_index a = ne32_of (take 4 (wda_data a))"

definition wda_to_bytes :: "windivert_address \<Rightarrow> byte list" where
  "wda_to_bytes a = ne64_bytes (wda_timestamp a) @ ne32_bytes (wda_flags_raw a) @ ne32_bytes (wda_reserved2 a) @ wda_data a"

definition wda_from_bytes :: "byte list \<Rightarrow> windivert_address option" where
  "wda_from_bytes bs = (if length bs \<noteq> 80 then None
     else Some \<lparr> wda_timestamp = ne64_of (take 8 bs), wda_flags_raw = ne32_of (take 4 (drop 8 bs)),
       wda_reserved2 = ne32_of (take 4 (drop 12 bs)), wda_data = take 64 (drop 16 bs) \<rparr>)"

lemma length_ne_bytes [simp]: "length (ne32_bytes w) = 4" "length (ne64_bytes v) = 8"
  by (simp_all add: ne32_bytes_def ne64_bytes_def)

lemma ne32_of_bytes [simp]: "ne32_of (ne32_bytes w) = w"
  by (simp add: ne32_of_def ne32_bytes_def)

lemma list4: "length bs = 4 \<Longrightarrow> bs = [bs ! 0, bs ! 1, bs ! 2, bs ! 3]"
  by (intro nth_equalityI) (auto simp: less_Suc_eq numeral_eq_Suc)

lemma ne32_bytes_of: "length bs = 4 \<Longrightarrow> ne32_bytes (ne32_of bs) = bs"
  using list4 [of bs] by (simp add: ne32_of_def ne32_bytes_def)

lemma ne64_lower: "ucast (ucast a OR push_bit 32 (ucast b) :: u64) = (a :: u32)" for b :: u32
  by (rule bit_word_eqI) (auto simp: bit_simps)

lemma ne64_upper: "ucast (drop_bit 32 (ucast a OR push_bit 32 (ucast b) :: u64)) = (b :: u32)" for a :: u32
  by (rule bit_word_eqI) (auto simp: bit_simps dest: bit_imp_le_length)

lemma ne64_join: "ucast (ucast w :: u32) OR push_bit 32 (ucast (ucast (drop_bit 32 w) :: u32)) = (w :: u64)"
proof (rule bit_word_eqI)
  fix n assume "n < LENGTH(64)"
  then show "bit (ucast (ucast w :: u32) OR push_bit 32 (ucast (ucast (drop_bit 32 w) :: u32)) :: u64) n = bit w n"
    by (cases "n < 32") (auto simp: bit_simps)
qed

lemma ne64_of_bytes [simp]: "ne64_of (ne64_bytes w) = w"
  unfolding ne64_of_def ne64_bytes_def by (simp add: ne64_join)

lemma ne64_bytes_of:
  assumes "length bs = 8"
  shows "ne64_bytes (ne64_of bs) = bs"
proof -
  have "ucast (ne64_of bs) = ne32_of (take 4 bs)" "ucast (drop_bit 32 (ne64_of bs)) = ne32_of (drop 4 bs)"
    unfolding ne64_of_def by (rule ne64_lower, rule ne64_upper)
  then show ?thesis using assms by (simp only: ne64_bytes_def) (simp add: ne32_bytes_of)
qed

text \<open>
  C38: WinDivert addresses. The serialized form of an address, 80 bytes, is decoded to that address,
  and \<open>from_bytes\<close> accepts exactly the sequences of 80 bytes and loses none of them.
\<close>

theorem windivert_address_roundtrip:
  assumes "length (wda_data a) = 64"
  shows "wda_from_bytes (wda_to_bytes a) = Some a \<and> length (wda_to_bytes a) = 80 \<and>
    (case wda_from_bytes bs of None \<Rightarrow> length bs \<noteq> 80 | Some b \<Rightarrow> wda_to_bytes b = bs)"
proof -
  have "take 8 bs @ take 4 (drop 8 bs) @ take 4 (drop 12 bs) @ take 64 (drop 16 bs) = bs" if "length bs = 80"
  proof -
    have "take (8 + 72) (drop 0 bs) = take 8 (drop 0 bs) @ take 72 (drop (0 + 8) bs)"
      "take (4 + 68) (drop 8 bs) = take 4 (drop 8 bs) @ take 68 (drop (8 + 4) bs)"
      "take (4 + 64) (drop 12 bs) = take 4 (drop 12 bs) @ take 64 (drop (12 + 4) bs)"
      by (rule take_drop_split)+
    then show ?thesis using that by simp
  qed
  then have "case wda_from_bytes bs of None \<Rightarrow> length bs \<noteq> 80 | Some b \<Rightarrow> wda_to_bytes b = bs"
    by (auto simp: wda_from_bytes_def wda_to_bytes_def ne32_bytes_of ne64_bytes_of split: option.splits if_splits)
  then show ?thesis using assms by (simp add: wda_from_bytes_def wda_to_bytes_def)
qed

theorem windivert_address_roundtrip_witness: "wda_from_bytes (wda_to_bytes wda_zeroed) = Some wda_zeroed"
  using windivert_address_roundtrip [of wda_zeroed "[]"] by (simp add: wda_zeroed_def)

subsection \<open>Filters and configuration (\<open>filter.rs\<close>, \<open>capture.rs\<close>, \<open>handle.rs\<close>)\<close>

datatype windivert_error = Wd_InitFailed | Wd_OpenFailed | Wd_FilterFailed | Wd_RecvFailed | Wd_SendFailed | Wd_CloseFailed
  | Wd_InvalidOperation | Wd_QueueError | Wd_InvalidPacket | Wd_PacketTooLarge | Wd_QueueFull | Wd_QueueEmpty

datatype windivert_layer = Wl_Network | Wl_NetworkForward | Wl_Flow | Wl_Socket | Wl_Reflect

primrec windivert_layer_as_raw :: "windivert_layer \<Rightarrow> u8" where
  "windivert_layer_as_raw Wl_Network = 0"
| "windivert_layer_as_raw Wl_NetworkForward = 1"
| "windivert_layer_as_raw Wl_Flow = 2"
| "windivert_layer_as_raw Wl_Socket = 3"
| "windivert_layer_as_raw Wl_Reflect = 4"

datatype filter_error = Fe_Empty | Fe_EmbeddedNul

definition validate_filter :: "string \<Rightarrow> filter_error + unit" where
  "validate_filter f = (if trim f = [] then Inl Fe_Empty else if CHR 0x00 \<in> set f then Inl Fe_EmbeddedNul else Inr ())"

definition windivert_filter_new :: "string \<Rightarrow> string option" where
  "windivert_filter_new expression = (if trim expression = [] then None else Some (trim expression))"

record windivert_config =
  wdc_filter :: string
  wdc_layer :: windivert_layer
  wdc_priority :: u16
  wdc_sniff_only :: bool
  wdc_send_only :: bool

definition windivert_config_new :: "string \<Rightarrow> windivert_layer \<Rightarrow> windivert_error + windivert_config" where
  "windivert_config_new f layer = (case validate_filter f of
      Inl _ \<Rightarrow> Inl Wd_FilterFailed
    | Inr _ \<Rightarrow> Inr \<lparr> wdc_filter = f, wdc_layer = layer, wdc_priority = 0, wdc_sniff_only = False, wdc_send_only = False \<rparr>)"

definition raw_flags :: "windivert_config \<Rightarrow> u64" where
  "raw_flags c = (let flags = 0;
      flags = (if wdc_sniff_only c then flags OR 1 else flags) in
      if wdc_send_only c then flags OR 8 else flags)"

record wd_capture_config =
  wcc_filter :: string
  wcc_layer :: string
  wcc_priority :: u16

definition wd_capture_config_new :: "string \<Rightarrow> wd_capture_config" where
  "wd_capture_config_new f = \<lparr> wcc_filter = trim f, wcc_layer = ''network'', wcc_priority = 0 \<rparr>"

definition wd_with_layer :: "string \<Rightarrow> wd_capture_config \<Rightarrow> wd_capture_config" where
  "wd_with_layer layer c = (let layer = trim layer in if layer \<noteq> [] then c\<lparr> wcc_layer := layer \<rparr> else c)"

definition layer_kind :: "wd_capture_config \<Rightarrow> windivert_layer option" where
  "layer_kind c = (let l = to_ascii_lowercase (trim (wcc_layer c)) in
     if l = ''network'' then Some Wl_Network
     else if l = ''network-forward'' \<or> l = ''network_forward'' \<or> l = ''networkforward'' then Some Wl_NetworkForward
     else if l = ''flow'' then Some Wl_Flow
     else if l = ''socket'' then Some Wl_Socket
     else if l = ''reflect'' then Some Wl_Reflect
     else None)"

definition wd_is_valid :: "wd_capture_config \<Rightarrow> bool" where
  "wd_is_valid c \<longleftrightarrow> wcc_filter c \<noteq> [] \<and> wcc_layer c \<noteq> [] \<and> layer_kind c \<noteq> None"

definition into_handle_config :: "wd_capture_config \<Rightarrow> windivert_error + windivert_config" where
  "into_handle_config c = (case layer_kind c of
      None \<Rightarrow> Inl Wd_InvalidOperation
    | Some layer \<Rightarrow> (case windivert_config_new (wcc_filter c) layer of
        Inl e \<Rightarrow> Inl e
      | Inr config \<Rightarrow> Inr (config\<lparr> wdc_priority := wcc_priority c \<rparr>)))"

lemma into_handle_config_ok:
  "into_handle_config c = Inr h \<Longrightarrow> CHR 0x00 \<notin> set (wdc_filter h) \<and> trim (wdc_filter h) \<noteq> [] \<and> layer_kind c = Some (wdc_layer h)"
  by (auto simp: into_handle_config_def windivert_config_new_def validate_filter_def split: option.splits sum.splits if_splits)

subsection \<open>The handle (\<open>handle.rs\<close>)\<close>

datatype windivert_handle_state = Wh_Closed | Wh_Opening | Wh_Open | Wh_Closing | Wh_Failed

definition wh_can_open :: "windivert_handle_state \<Rightarrow> bool" where
  "wh_can_open s \<longleftrightarrow> s \<in> {Wh_Closed, Wh_Failed}"

definition wh_can_close :: "windivert_handle_state \<Rightarrow> bool" where
  "wh_can_close s \<longleftrightarrow> s \<in> {Wh_Open, Wh_Failed}"

record windivert_handle =
  wh_config :: windivert_config
  wh_state :: windivert_handle_state
  wh_native :: "usize option"

definition windivert_handle_new :: "windivert_config \<Rightarrow> windivert_handle" where
  "windivert_handle_new c = \<lparr> wh_config = c, wh_state = Wh_Closed, wh_native = None \<rparr>"

datatype wd_call = Wd_Opened usize | Wd_Close_Called usize

text \<open>The pointer \<open>WinDivertOpen\<close> returns: 0 is null and \<open>2 ^ 64 - 1\<close> is \<open>INVALID_HANDLE_VALUE\<close>.\<close>

definition wh_open :: "usize \<Rightarrow> windivert_handle \<Rightarrow> (windivert_error + unit) \<times> windivert_handle \<times> wd_call list" where
  "wh_open reply h = (if \<not> wh_can_open (wh_state h) then (Inl Wd_InvalidOperation, h, [])
     else let h = h\<lparr> wh_state := Wh_Opening \<rparr> in
       if CHR 0x00 \<in> set (wdc_filter (wh_config h)) then (Inl Wd_FilterFailed, h, [])
       else if reply = 0 \<or> reply = 2 ^ 64 - 1 then (Inl Wd_OpenFailed, h\<lparr> wh_state := Wh_Failed \<rparr>, [])
       else (Inr (), h\<lparr> wh_native := Some reply, wh_state := Wh_Open \<rparr>, [Wd_Opened reply]))"

definition wh_close :: "int \<Rightarrow> windivert_handle \<Rightarrow> (windivert_error + unit) \<times> windivert_handle \<times> wd_call list" where
  "wh_close status h = (if wh_state h = Wh_Closed then (Inr (), h, [])
     else if \<not> wh_can_close (wh_state h) then (Inl Wd_InvalidOperation, h, [])
     else let h = h\<lparr> wh_state := Wh_Closing \<rparr> in
       case wh_native h of
         None \<Rightarrow> (Inr (), h\<lparr> wh_state := Wh_Closed \<rparr>, [])
       | Some native \<Rightarrow>
           let h = h\<lparr> wh_native := None \<rparr> in
           if status = 0 then (Inl Wd_CloseFailed, h\<lparr> wh_state := Wh_Failed \<rparr>, [Wd_Close_Called native])
           else (Inr (), h\<lparr> wh_state := Wh_Closed \<rparr>, [Wd_Close_Called native]))"

definition wh_require_open :: "windivert_handle \<Rightarrow> windivert_error + usize" where
  "wh_require_open h = (if wh_state h \<noteq> Wh_Open then Inl Wd_InvalidOperation
     else case wh_native h of None \<Rightarrow> Inl Wd_InvalidOperation | Some native \<Rightarrow> Inr native)"

definition wh_set_queue_length :: "int \<Rightarrow> u64 \<Rightarrow> windivert_handle \<Rightarrow> windivert_error + unit" where
  "wh_set_queue_length status packets h = (case wh_require_open h of
      Inl e \<Rightarrow> Inl e
    | Inr _ \<Rightarrow> if status = 0 then Inl Wd_QueueError else Inr ())"

datatype wh_op = Wh_Do_Open usize | Wh_Do_Close int

primrec wh_exec :: "wh_op \<Rightarrow> windivert_handle \<times> wd_call list \<Rightarrow> windivert_handle \<times> wd_call list" where
  "wh_exec (Wh_Do_Open reply) s = (case wh_open reply (fst s) of (_, h, calls) \<Rightarrow> (h, snd s @ calls))"
| "wh_exec (Wh_Do_Close status) s = (case wh_close status (fst s) of (_, h, calls) \<Rightarrow> (h, snd s @ calls))"

definition wd_opened :: "wd_call list \<Rightarrow> usize list" where
  "wd_opened cs = List.map_filter (\<lambda>c. case c of Wd_Opened h \<Rightarrow> Some h | _ \<Rightarrow> None) cs"

definition wd_close_called :: "wd_call list \<Rightarrow> usize list" where
  "wd_close_called cs = List.map_filter (\<lambda>c. case c of Wd_Close_Called h \<Rightarrow> Some h | _ \<Rightarrow> None) cs"

definition wh_inv :: "windivert_handle \<times> wd_call list \<Rightarrow> bool" where
  "wh_inv s \<longleftrightarrow> (wh_native (fst s) \<noteq> None \<longleftrightarrow> wh_state (fst s) = Wh_Open) \<and> wh_state (fst s) \<noteq> Wh_Closing \<and>
     (wh_state (fst s) = Wh_Opening \<longrightarrow> CHR 0x00 \<in> set (wdc_filter (wh_config (fst s)))) \<and>
     wd_opened (snd s) = wd_close_called (snd s) @ (case wh_native (fst s) of None \<Rightarrow> [] | Some n \<Rightarrow> [n])"

lemma wd_calls_simps [simp]:
  "wd_opened (cs @ ds) = wd_opened cs @ wd_opened ds" "wd_close_called (cs @ ds) = wd_close_called cs @ wd_close_called ds"
  "wd_opened [] = []" "wd_close_called [] = []"
  "wd_opened (c # cs) = (case c of Wd_Opened h \<Rightarrow> [h] | _ \<Rightarrow> []) @ wd_opened cs"
  "wd_close_called (c # cs) = (case c of Wd_Close_Called h \<Rightarrow> [h] | _ \<Rightarrow> []) @ wd_close_called cs"
  by (simp_all add: wd_opened_def wd_close_called_def List.map_filter_def split: wd_call.splits)

lemma wh_exec_inv: "wh_inv s \<Longrightarrow> wh_inv (wh_exec op s)"
  by (cases op) (auto simp: wh_inv_def wh_open_def wh_close_def wh_can_open_def wh_can_close_def Let_def split: if_splits option.splits)

lemma wh_exec_config [simp]: "wh_config (fst (wh_exec op s)) = wh_config (fst s)"
  by (cases op) (auto simp: wh_open_def wh_close_def Let_def split: if_splits option.splits)

text \<open>
  the WinDivert handle. After any sequence of opens and closes, whatever the driver answers, the
  driver handles were passed to the close call one by one in the order they were opened, except the
  one that is held, which there is exactly while the state is \<open>Open\<close>; with a filter \<open>from_capture_config\<close>
  accepts, the state is never left at \<open>Opening\<close>, so the handle can always be opened or closed.
\<close>

lemma windivert_handle_sequence:
  assumes "into_handle_config c = Inr config"
  shows "case fold wh_exec ops (windivert_handle_new config, []) of (h, calls) \<Rightarrow>
    wd_opened calls = wd_close_called calls @ (case wh_require_open h of Inr n \<Rightarrow> [n] | Inl _ \<Rightarrow> []) \<and>
    wh_state h \<in> {Wh_Closed, Wh_Open, Wh_Failed} \<and>
    (wh_can_open (wh_state h) \<or> wh_can_close (wh_state h))"
proof -
  obtain h calls where f: "fold wh_exec ops (windivert_handle_new config, []) = (h, calls)" by fastforce
  have "wh_inv s \<Longrightarrow> wh_inv (fold wh_exec ops s) \<and> wh_config (fst (fold wh_exec ops s)) = wh_config (fst s)" for s
    by (induction ops arbitrary: s) (simp_all add: wh_exec_inv)
  moreover have "wh_inv (windivert_handle_new config, [])" by (simp add: wh_inv_def windivert_handle_new_def)
  ultimately have inv: "wh_inv (h, calls)" "wh_config h = config"
    using f by (metis fst_conv, metis fst_conv windivert_handle_new_def windivert_handle.select_convs(1))
  then show ?thesis
    using into_handle_config_ok [OF assms] unfolding f
    by (cases "wh_state h") (auto simp: wh_inv_def wh_require_open_def wh_can_open_def wh_can_close_def split: option.splits)
qed

theorem windivert_handle_sequence_witness:
  "case fold wh_exec [Wh_Do_Open 7, Wh_Do_Close 0, Wh_Do_Open 9]
      (windivert_handle_new \<lparr> wdc_filter = ''true'', wdc_layer = Wl_Network, wdc_priority = 0, wdc_sniff_only = False, wdc_send_only = False \<rparr>, [])
    of (h, calls) \<Rightarrow> wd_opened calls = wd_close_called calls @ [9] \<and> wd_close_called calls = [7]"
proof -
  have "into_handle_config (wd_capture_config_new ''true'') =
      Inr \<lparr> wdc_filter = ''true'', wdc_layer = Wl_Network, wdc_priority = 0, wdc_sniff_only = False, wdc_send_only = False \<rparr>"
    by code_simp
  from windivert_handle_sequence [OF this, of "[Wh_Do_Open 7, Wh_Do_Close 0, Wh_Do_Open 9]"] show ?thesis
    by (simp add: windivert_handle_new_def wh_open_def wh_close_def wh_can_open_def wh_can_close_def wh_require_open_def Let_def)
qed

text \<open>
  A configuration's filter field is public. With an embedded NUL in it, \<open>open\<close> returns early and
  leaves the state at \<open>Opening\<close>, from which neither \<open>open\<close> nor \<open>close\<close> leads.
\<close>

lemma nul_filter_wedges_handle:
  assumes "CHR 0x00 \<in> set (wdc_filter config)"
  shows "wh_state (fst (fold wh_exec (Wh_Do_Open r # ops) (windivert_handle_new config, []))) = Wh_Opening"
proof -
  have "wh_exec op (h, calls) = (h, calls)" if "wh_state h = Wh_Opening" for op h calls
    using that by (cases op) (simp_all add: wh_open_def wh_close_def wh_can_open_def wh_can_close_def)
  then have "fold wh_exec ops (h, calls) = (h, calls)" if "wh_state h = Wh_Opening" for h calls
    using that by (induction ops) simp_all
  then show ?thesis
    using assms by (simp add: wh_open_def wh_can_open_def windivert_handle_new_def Let_def)
qed

subsection \<open>Receiving and reinjecting (\<open>actions.rs\<close>)\<close>

datatype wd_packet_direction = Wdp_Inbound | Wdp_Outbound

record intercepted_packet =
  ip_data :: "byte list"
  ip_direction :: wd_packet_direction
  ip_interface_index :: u32
  ip_loopback :: bool
  ip_impostor :: bool
  ip_address :: windivert_address

definition intercepted_from_native :: "byte list \<Rightarrow> windivert_address \<Rightarrow> intercepted_packet" where
  "intercepted_from_native bytes a = \<lparr> ip_data = bytes,
     ip_direction = (if wda_is_outbound a then Wdp_Outbound else Wdp_Inbound), ip_interface_index = wda_interface_index a,
     ip_loopback = wda_is_loopback a, ip_impostor = wda_is_impostor a, ip_address = a \<rparr>"

text \<open>
  The reply of \<open>WinDivertRecv\<close>: its status, the length and the address it stored, and the buffer of
  \<open>MAX_PACKET_SIZE\<close> bytes after the call.
\<close>

definition recv_packet :: "int \<times> u32 \<times> windivert_address \<times> byte list \<Rightarrow> windivert_handle \<Rightarrow> windivert_error + intercepted_packet" where
  "recv_packet reply h = (case wh_require_open h of
      Inl e \<Rightarrow> Inl e
    | Inr _ \<Rightarrow> (case reply of (ok, recv_len, addr, buffer) \<Rightarrow>
        if ok = 0 then Inl Wd_RecvFailed
        else let received = unat recv_len in
          if received = 0 then Inl Wd_InvalidPacket
          else if received > length buffer then Inl Wd_PacketTooLarge
          else Inr (intercepted_from_native (take received buffer) addr)))"

text \<open>
  \<open>checksums\<close> is \<open>WinDivertHelperCalcChecksums\<close>, which returns a status and rewrites packet and
  address; \<open>send\<close> answers \<open>WinDivertSend\<close> with a status and a length. The list holds what was sent.
\<close>

definition reinject ::
  "(byte list \<Rightarrow> windivert_address \<Rightarrow> int \<times> byte list \<times> windivert_address) \<Rightarrow> int \<times> u32 \<Rightarrow> windivert_handle \<Rightarrow>
     byte list \<Rightarrow> windivert_address \<Rightarrow> (windivert_error + unit) \<times> (byte list \<times> windivert_address) list" where
  "reinject checksums send h bytes address = (case wh_require_open h of
      Inl e \<Rightarrow> (Inl e, [])
    | Inr _ \<Rightarrow>
        if bytes = [] then (Inl Wd_InvalidOperation, [])
        else if length bytes > 65535 then (Inl Wd_PacketTooLarge, [])
        else case checksums bytes address of (checksum_ok, packet, addr) \<Rightarrow>
          if checksum_ok = 0 then (Inl Wd_InvalidPacket, [])
          else case send of (ok, send_len) \<Rightarrow>
            if ok = 0 then (Inl Wd_SendFailed, [(packet, addr)])
            else if unat send_len \<noteq> length packet then (Inl Wd_SendFailed, [(packet, addr)])
            else (Inr (), [(packet, addr)]))"

definition wd_pass where
  "wd_pass checksums send h p = reinject checksums send h (ip_data p) (ip_address p)"

definition reinject_with_context where
  "reinject_with_context checksums send h bytes context = (case wda_from_bytes context of
      None \<Rightarrow> (Inl Wd_InvalidOperation, [])
    | Some address \<Rightarrow> reinject checksums send h bytes address)"

text \<open>
  A packet that was received and is passed on with its serialized address reaches the driver with
  that address and those bytes, up to what the checksum helper rewrites.
\<close>

lemma recv_packet_exact:
  assumes "recv_packet (ok, n, a, buffer) h = Inr p"
  shows "ip_data p = take (unat n) buffer" and "0 < length (ip_data p)" and "length (ip_data p) = unat n" and "ip_address p = a"
  using assms by (auto simp: recv_packet_def intercepted_from_native_def Let_def split: sum.splits if_splits)

lemma recv_then_reinject:
  assumes "recv_packet (ok, n, a, buffer) h = Inr p" and "length buffer = 65535" and "length (wda_data a) = 64"
    and "reinject_with_context checksums send h (ip_data p) (wda_to_bytes (ip_address p)) = (Inr (), sent)"
  shows "\<exists>st. sent = [snd (checksums (take (unat n) buffer) a)] \<and> fst (checksums (take (unat n) buffer) a) = st \<and> st \<noteq> 0"
proof -
  have "wda_from_bytes (wda_to_bytes a) = Some a"
    using assms(3) by (simp add: wda_from_bytes_def wda_to_bytes_def)
  then show ?thesis
    using assms(4) recv_packet_exact [OF assms(1)]
    by (auto simp: reinject_with_context_def reinject_def split: sum.splits if_splits prod.splits)
qed

subsection \<open>The packet queue (\<open>packet.rs\<close>, \<open>queue.rs\<close>)\<close>

datatype queue_packet_direction = Qpd_Inbound | Qpd_Outbound | Qpd_Unknown

record windivert_packet =
  wp_data :: "byte list"
  wp_timestamp_ns :: u64
  wp_direction :: queue_packet_direction
  wp_interface_index :: u32
  wp_sub_interface_index :: u32

definition windivert_packet_new :: "byte list \<Rightarrow> windivert_error + windivert_packet" where
  "windivert_packet_new bytes = (if bytes = [] then Inl Wd_InvalidPacket
     else if length bytes > 65535 then Inl Wd_PacketTooLarge
     else Inr \<lparr> wp_data = bytes, wp_timestamp_ns = 0, wp_direction = Qpd_Unknown, wp_interface_index = 0, wp_sub_interface_index = 0 \<rparr>)"

definition wp_replace_data :: "byte list \<Rightarrow> windivert_packet \<Rightarrow> (windivert_error + unit) \<times> windivert_packet" where
  "wp_replace_data bytes p = (if bytes = [] then (Inl Wd_InvalidPacket, p)
     else if length bytes > 65535 then (Inl Wd_PacketTooLarge, p)
     else (Inr (), p\<lparr> wp_data := bytes \<rparr>))"

record windivert_queue =
  wq_packets :: "windivert_packet list"
  wq_max_packets :: usize
  wq_max_bytes :: usize
  wq_current_bytes :: usize

definition wq_with_limits :: "usize \<Rightarrow> usize \<Rightarrow> windivert_queue" where
  "wq_with_limits max_packets max_bytes = \<lparr> wq_packets = [], wq_max_packets = max max_packets 1,
     wq_max_bytes = max max_bytes 1, wq_current_bytes = 0 \<rparr>"

definition wq_new :: windivert_queue where
  "wq_new = wq_with_limits 4096 (64 * 1024 * 1024)"

definition wq_push :: "windivert_packet \<Rightarrow> windivert_queue \<Rightarrow> (windivert_error + unit) \<times> windivert_queue" where
  "wq_push p q = (let size = length (wp_data p) in
     if size = 0 then (Inl Wd_InvalidPacket, q)
     else if size > wq_max_bytes q then (Inl Wd_PacketTooLarge, q)
     else if length (wq_packets q) \<ge> wq_max_packets q then (Inl Wd_QueueFull, q)
     else case usize_checked_add (wq_current_bytes q) size of
       None \<Rightarrow> (Inl Wd_QueueFull, q)
     | Some sum_bytes \<Rightarrow>
         if sum_bytes > wq_max_bytes q then (Inl Wd_QueueFull, q)
         else (Inr (), q\<lparr> wq_current_bytes := sum_bytes, wq_packets := wq_packets q @ [p] \<rparr>))"

definition wq_pop :: "windivert_queue \<Rightarrow> (windivert_error + windivert_packet) \<times> windivert_queue" where
  "wq_pop q = (case wq_packets q of
      [] \<Rightarrow> (Inl Wd_QueueEmpty, q)
    | p # ps \<Rightarrow> (Inr p, q\<lparr> wq_packets := ps, wq_current_bytes := wq_current_bytes q - length (wp_data p) \<rparr>))"

definition wq_is_full :: "windivert_queue \<Rightarrow> bool" where
  "wq_is_full q \<longleftrightarrow> length (wq_packets q) \<ge> wq_max_packets q \<or> wq_current_bytes q \<ge> wq_max_bytes q"

definition wq_clear :: "windivert_queue \<Rightarrow> windivert_queue" where
  "wq_clear q = q\<lparr> wq_packets := [], wq_current_bytes := 0 \<rparr>"

datatype wq_op = Wq_Push windivert_packet | Wq_Pop | Wq_Clear

text \<open>The queue with the packets it accepted and those that left it, by a pop or a clear, in order.\<close>

type_synonym wq_history = "windivert_queue \<times> windivert_packet list \<times> windivert_packet list"

primrec wq_exec :: "wq_op \<Rightarrow> wq_history \<Rightarrow> wq_history" where
  "wq_exec (Wq_Push p) s = (case s of (q, accepted, left) \<Rightarrow> (case wq_push p q of
      (Inr _, q') \<Rightarrow> (q', accepted @ [p], left) | (Inl _, q') \<Rightarrow> (q', accepted, left)))"
| "wq_exec Wq_Pop s = (case s of (q, accepted, left) \<Rightarrow> (case wq_pop q of
      (Inr p, q') \<Rightarrow> (q', accepted, left @ [p]) | (Inl _, q') \<Rightarrow> (q', accepted, left)))"
| "wq_exec Wq_Clear s = (case s of (q, accepted, left) \<Rightarrow> (wq_clear q, accepted, left @ wq_packets q))"

definition wq_bytes :: "windivert_packet list \<Rightarrow> nat" where
  "wq_bytes ps = sum_list (map (\<lambda>p. length (wp_data p)) ps)"

definition wq_inv :: "wq_history \<Rightarrow> bool" where
  "wq_inv s \<longleftrightarrow> (case s of (q, accepted, left) \<Rightarrow> accepted = left @ wq_packets q \<and>
     wq_current_bytes q = wq_bytes (wq_packets q) \<and> wq_bytes (wq_packets q) \<le> wq_max_bytes q \<and>
     length (wq_packets q) \<le> wq_max_packets q)"

lemma wq_exec_inv: "wq_inv s \<Longrightarrow> wq_inv (wq_exec op s)"
  by (cases op; cases s)
    (auto simp: wq_inv_def wq_push_def wq_pop_def wq_clear_def wq_bytes_def usize_checked_add_def Let_def
      split: option.splits if_splits list.splits)

lemma wq_exec_limits [simp]:
  "wq_max_packets (fst (wq_exec op s)) = wq_max_packets (fst s)" "wq_max_bytes (fst (wq_exec op s)) = wq_max_bytes (fst s)"
  by (cases op; cases s; auto simp: wq_push_def wq_pop_def wq_clear_def Let_def split: option.splits if_splits list.splits)+

lemma wq_run:
  "wq_inv s \<Longrightarrow> wq_inv (fold wq_exec ops s) \<and> wq_max_packets (fst (fold wq_exec ops s)) = wq_max_packets (fst s) \<and>
     wq_max_bytes (fst (fold wq_exec ops s)) = wq_max_bytes (fst s)"
  by (induction ops arbitrary: s) (simp_all add: wq_exec_inv)

text \<open>
  the WinDivert queue. After any history the packets leave it in the order they were accepted, it
  holds at most \<open>max_packets\<close> packets and \<open>max_bytes\<close> bytes, its byte counter is exact, and a packet
  that is not empty is accepted exactly if it stays within both limits.
\<close>

lemma windivert_queue_bounded_fifo:
  assumes "fold wq_exec ops (wq_with_limits m n, [], []) = (q, accepted, left)" and "max n 1 \<le> usize_max"
  shows "accepted = left @ wq_packets q \<and> length (wq_packets q) \<le> max m 1 \<and>
    wq_current_bytes q = wq_bytes (wq_packets q) \<and> wq_bytes (wq_packets q) \<le> max n 1 \<and>
    (fst (wq_push p q) = Inr () \<longleftrightarrow> wp_data p \<noteq> [] \<and> length (wq_packets q) < max m 1 \<and>
       wq_bytes (wq_packets q) + length (wp_data p) \<le> max n 1)"
proof -
  have "wq_inv (wq_with_limits m n, [], [])" by (simp add: wq_inv_def wq_with_limits_def wq_bytes_def)
  from wq_run [OF this, of ops] have inv: "wq_inv (q, accepted, left)" "wq_max_packets q = max m 1" "wq_max_bytes q = max n 1"
    unfolding assms(1) by (simp_all add: wq_with_limits_def)
  then show ?thesis
    using assms(2) by (auto simp: wq_inv_def wq_push_def usize_checked_add_def Let_def)
qed

theorem windivert_queue_bounded_fifo_witness:
  "fst (wq_push \<lparr> wp_data = [5, 6], wp_timestamp_ns = 0, wp_direction = Qpd_Unknown, wp_interface_index = 0, wp_sub_interface_index = 0 \<rparr>
     (wq_with_limits 2 3)) = Inr ()"
  using windivert_queue_bounded_fifo [of "[]" 2 3 "wq_with_limits 2 3" "[]" "[]"
      "\<lparr> wp_data = [5, 6], wp_timestamp_ns = 0, wp_direction = Qpd_Unknown, wp_interface_index = 0, wp_sub_interface_index = 0 \<rparr>"]
  by (simp add: usize_max_def wq_with_limits_def wq_bytes_def)

end
