(* ===== verification/Etw.thy ===== *)
theory Etw
  imports Core_Text "HOL-Library.Multiset"
begin

text \<open>
  \<open>crates/backend-etw\<close>: diagnostic events (\<open>events.rs\<close>), the provider that registers with the
  system and writes them (\<open>provider.rs\<close>), and the backend around it (\<open>lib.rs\<close>), on Windows. What the
  system answers is an argument. A provider can be cloned, and every copy unregisters the handle it
  holds when it is dropped.
\<close>

subsection \<open>Events (\<open>events.rs\<close>)\<close>

datatype etw_event_kind = Ek_PacketObserved | Ek_FlowStarted | Ek_FlowUpdated | Ek_FlowEnded | Ek_InterfaceChanged
  | Ek_RouteChanged | Ek_NeighborChanged | Ek_BackendStarted | Ek_BackendStopped | Ek_BackendError | Ek_Diagnostic
  | Ek_CaptureStarted | Ek_CaptureStopped | Ek_BackendFailover | Ek_GatewayStateChange | Ek_PolicyApplied
  | Ek_DropRecorded | Ek_FilterInstalled

datatype etw_severity = Es_Trace | Es_Debug | Es_Info | Es_Warning | Es_Error | Es_Critical

primrec etw_severity_as_str :: "etw_severity \<Rightarrow> string" where
  "etw_severity_as_str Es_Trace = ''trace''"
| "etw_severity_as_str Es_Debug = ''debug''"
| "etw_severity_as_str Es_Info = ''info''"
| "etw_severity_as_str Es_Warning = ''warning''"
| "etw_severity_as_str Es_Error = ''error''"
| "etw_severity_as_str Es_Critical = ''critical''"

primrec etw_id_for_kind :: "etw_event_kind \<Rightarrow> u16" where
  "etw_id_for_kind Ek_PacketObserved = 1"
| "etw_id_for_kind Ek_FlowStarted = 2"
| "etw_id_for_kind Ek_FlowUpdated = 3"
| "etw_id_for_kind Ek_FlowEnded = 4"
| "etw_id_for_kind Ek_InterfaceChanged = 5"
| "etw_id_for_kind Ek_RouteChanged = 6"
| "etw_id_for_kind Ek_NeighborChanged = 7"
| "etw_id_for_kind Ek_BackendStarted = 8"
| "etw_id_for_kind Ek_BackendStopped = 9"
| "etw_id_for_kind Ek_BackendError = 10"
| "etw_id_for_kind Ek_Diagnostic = 11"
| "etw_id_for_kind Ek_CaptureStarted = 12"
| "etw_id_for_kind Ek_CaptureStopped = 13"
| "etw_id_for_kind Ek_BackendFailover = 14"
| "etw_id_for_kind Ek_GatewayStateChange = 15"
| "etw_id_for_kind Ek_PolicyApplied = 16"
| "etw_id_for_kind Ek_DropRecorded = 17"
| "etw_id_for_kind Ek_FilterInstalled = 18"

record etw_event =
  ee_event_id :: u16
  ee_kind :: etw_event_kind
  ee_severity :: etw_severity
  ee_timestamp :: u64
  ee_provider :: string
  ee_message :: string

definition etw_event_new :: "u16 \<Rightarrow> etw_event_kind \<Rightarrow> etw_severity \<Rightarrow> u64 \<Rightarrow> string \<Rightarrow> string \<Rightarrow> etw_event" where
  "etw_event_new i kind severity timestamp provider message = \<lparr> ee_event_id = i, ee_kind = kind, ee_severity = severity,
     ee_timestamp = timestamp, ee_provider = provider, ee_message = message \<rparr>"

definition etw_diagnostic where "etw_diagnostic = etw_event_new 11 Ek_Diagnostic Es_Info"
definition etw_capture_started where "etw_capture_started = etw_event_new 12 Ek_CaptureStarted Es_Info"
definition etw_capture_stopped where "etw_capture_stopped = etw_event_new 13 Ek_CaptureStopped Es_Info"
definition etw_backend_failover where "etw_backend_failover = etw_event_new 14 Ek_BackendFailover Es_Warning"
definition etw_gateway_state_change where "etw_gateway_state_change = etw_event_new 15 Ek_GatewayStateChange Es_Info"
definition etw_policy_applied where "etw_policy_applied = etw_event_new 16 Ek_PolicyApplied Es_Debug"
definition etw_drop_recorded where "etw_drop_recorded = etw_event_new 17 Ek_DropRecorded Es_Warning"
definition etw_filter_installed where "etw_filter_installed = etw_event_new 18 Ek_FilterInstalled Es_Info"

definition etw_display :: "etw_event \<Rightarrow> string" where
  "etw_display e = ''['' @ etw_severity_as_str (ee_severity e) @ ''] '' @ ee_provider e @ '': '' @ ee_message e"

lemma etw_id_inj: "etw_id_for_kind k = etw_id_for_kind l \<Longrightarrow> k = l"
  by (cases k; cases l) simp_all

text \<open>The constructors give every event the identifier of its kind.\<close>

lemma etw_constructors_consistent:
  "e \<in> {etw_diagnostic t p m, etw_capture_started t p m, etw_capture_stopped t p m, etw_backend_failover t p m,
     etw_gateway_state_change t p m, etw_policy_applied t p m, etw_drop_recorded t p m, etw_filter_installed t p m} \<Longrightarrow>
     ee_event_id e = etw_id_for_kind (ee_kind e)"
  by (auto simp: etw_diagnostic_def etw_capture_started_def etw_capture_stopped_def etw_backend_failover_def
      etw_gateway_state_change_def etw_policy_applied_def etw_drop_recorded_def etw_filter_installed_def etw_event_new_def)

subsection \<open>The provider (\<open>provider.rs\<close>)\<close>

datatype etw_error = Ete_AlreadyRunning | Ete_NotRunning | Ete_InvalidProviderName | Ete_EventRejected | Ete_RegistrationFailed

primrec severity_to_etw_level :: "etw_severity \<Rightarrow> u8" where
  "severity_to_etw_level Es_Critical = 1"
| "severity_to_etw_level Es_Error = 2"
| "severity_to_etw_level Es_Warning = 3"
| "severity_to_etw_level Es_Info = 4"
| "severity_to_etw_level Es_Debug = 5"
| "severity_to_etw_level Es_Trace = 5"

record etw_provider =
  ep_name :: string
  ep_running :: bool
  ep_handle :: "u64 option"

definition etw_provider_new :: "string \<Rightarrow> etw_provider" where
  "etw_provider_new name = \<lparr> ep_name = name, ep_running = False, ep_handle = None \<rparr>"

datatype etw_call = Etw_Registered u64 | Etw_Unregistered u64 | Etw_Written u64 u8 string

text \<open>The reply of \<open>EventRegister\<close>: a status and the handle it stored.\<close>

definition ep_start :: "u32 \<times> u64 \<Rightarrow> etw_provider \<Rightarrow> (etw_error + unit) \<times> etw_provider \<times> etw_call list" where
  "ep_start reply p =
     (if ep_running p then (Inl Ete_AlreadyRunning, p, [])
      else if trim (ep_name p) = [] then (Inl Ete_InvalidProviderName, p, [])
      else case reply of (status, handle) \<Rightarrow>
        if status \<noteq> 0 \<or> handle = 0 then (Inl Ete_RegistrationFailed, p, [])
        else (Inr (), p\<lparr> ep_handle := Some handle, ep_running := True \<rparr>, [Etw_Registered handle]))"

definition ep_take_handle :: "etw_provider \<Rightarrow> etw_provider \<times> etw_call list" where
  "ep_take_handle p = (case ep_handle p of None \<Rightarrow> (p, []) | Some h \<Rightarrow> (p\<lparr> ep_handle := None \<rparr>, [Etw_Unregistered h]))"

definition ep_stop :: "etw_provider \<Rightarrow> (etw_error + unit) \<times> etw_provider \<times> etw_call list" where
  "ep_stop p = (if \<not> ep_running p then (Inl Ete_NotRunning, p, [])
     else case ep_take_handle p of (p', calls) \<Rightarrow> (Inr (), p'\<lparr> ep_running := False \<rparr>, calls))"

definition ep_drop :: "etw_provider \<Rightarrow> etw_call list" where
  "ep_drop p = snd (ep_take_handle p)"

definition ep_emit :: "u32 \<Rightarrow> etw_event \<Rightarrow> etw_provider \<Rightarrow> (etw_error + unit) \<times> etw_call list" where
  "ep_emit status e p =
     (if \<not> ep_running p then (Inl Ete_NotRunning, [])
      else if trim (ee_provider e) = [] \<or> trim (ee_message e) = [] then (Inl Ete_EventRejected, [])
      else case ep_handle p of
        None \<Rightarrow> (Inl Ete_NotRunning, [])
      | Some h \<Rightarrow>
          let calls = [Etw_Written h (severity_to_etw_level (ee_severity e)) (etw_display e)] in
          if status \<noteq> 0 then (Inl Ete_EventRejected, calls) else (Inr (), calls))"

definition ep_emit_simple ::
  "u32 \<Rightarrow> etw_event_kind \<Rightarrow> etw_severity \<Rightarrow> u64 \<Rightarrow> string \<Rightarrow> etw_provider \<Rightarrow> (etw_error + unit) \<times> etw_call list" where
  "ep_emit_simple status kind severity timestamp message p =
     ep_emit status (etw_event_new (etw_id_for_kind kind) kind severity timestamp (ep_name p) message) p"

subsection \<open>The backend (\<open>lib.rs\<close>)\<close>

record etw_backend =
  eb_provider :: etw_provider
  eb_running :: bool

definition etw_backend_new :: "etw_provider \<Rightarrow> etw_backend" where
  "etw_backend_new p = \<lparr> eb_provider = p, eb_running = False \<rparr>"

definition eb_start :: "u32 \<times> u64 \<Rightarrow> etw_backend \<Rightarrow> (etw_error + unit) \<times> etw_backend \<times> etw_call list" where
  "eb_start reply b = (if eb_running b then (Inr (), b, [])
     else case ep_start reply (eb_provider b) of
       (Inl e, p, calls) \<Rightarrow> (Inl e, b\<lparr> eb_provider := p \<rparr>, calls)
     | (Inr _, p, calls) \<Rightarrow> (Inr (), b\<lparr> eb_provider := p, eb_running := True \<rparr>, calls))"

definition eb_stop :: "etw_backend \<Rightarrow> (etw_error + unit) \<times> etw_backend \<times> etw_call list" where
  "eb_stop b = (if \<not> eb_running b then (Inr (), b, [])
     else case ep_stop (eb_provider b) of
       (Inl e, p, calls) \<Rightarrow> (Inl e, b\<lparr> eb_provider := p \<rparr>, calls)
     | (Inr _, p, calls) \<Rightarrow> (Inr (), b\<lparr> eb_provider := p, eb_running := False \<rparr>, calls))"

datatype eb_op = Eb_Start "u32 \<times> u64" | Eb_Stop | Eb_Emit u32 etw_event

primrec eb_exec :: "eb_op \<Rightarrow> etw_backend \<times> etw_call list \<Rightarrow> etw_backend \<times> etw_call list" where
  "eb_exec (Eb_Start reply) s = (case eb_start reply (fst s) of (_, b, calls) \<Rightarrow> (b, snd s @ calls))"
| "eb_exec Eb_Stop s = (case eb_stop (fst s) of (_, b, calls) \<Rightarrow> (b, snd s @ calls))"
| "eb_exec (Eb_Emit status e) s = (fst s, snd s @ snd (ep_emit status e (eb_provider (fst s))))"

text \<open>The registered handle after a sequence of calls, and that a sequence uses handles properly.\<close>

fun etw_proper :: "u64 option \<Rightarrow> etw_call list \<Rightarrow> u64 option option" where
  "etw_proper reg [] = Some reg"
| "etw_proper reg (Etw_Registered h # cs) = (if reg = None then etw_proper (Some h) cs else None)"
| "etw_proper reg (Etw_Unregistered h # cs) = (if reg = Some h then etw_proper None cs else None)"
| "etw_proper reg (Etw_Written h _ _ # cs) = (if reg = Some h then etw_proper reg cs else None)"

lemma etw_proper_append: "etw_proper reg (cs @ ds) = Option.bind (etw_proper reg cs) (\<lambda>r. etw_proper r ds)"
  by (induction reg cs rule: etw_proper.induct) auto

definition eb_inv :: "etw_backend \<times> etw_call list \<Rightarrow> bool" where
  "eb_inv s \<longleftrightarrow> eb_running (fst s) = ep_running (eb_provider (fst s)) \<and>
     (ep_handle (eb_provider (fst s)) \<noteq> None \<longleftrightarrow> ep_running (eb_provider (fst s))) \<and>
     etw_proper None (snd s) = Some (ep_handle (eb_provider (fst s)))"

lemma eb_exec_inv: "eb_inv s \<Longrightarrow> eb_inv (eb_exec op s)"
  by (cases op)
    (auto simp: eb_inv_def eb_start_def ep_start_def eb_stop_def ep_stop_def ep_take_handle_def ep_emit_def etw_proper_append Let_def
      split: if_splits option.splits)

text \<open>
  ETW. Along any history of the backend, whatever the system answers, every event is written to
  the handle registered at that moment, a handle is unregistered exactly once and before the next is
  registered, and one is registered exactly while the backend runs.
\<close>

lemma etw_handle_discipline:
  "case fold eb_exec ops (etw_backend_new (etw_provider_new name), []) of (b, calls) \<Rightarrow>
     etw_proper None calls = Some (ep_handle (eb_provider b)) \<and> (ep_handle (eb_provider b) \<noteq> None \<longleftrightarrow> eb_running b)"
proof -
  obtain b calls where f: "fold eb_exec ops (etw_backend_new (etw_provider_new name), []) = (b, calls)" by fastforce
  have "eb_inv s \<Longrightarrow> eb_inv (fold eb_exec ops s)" for s by (induction ops arbitrary: s) (simp_all add: eb_exec_inv)
  moreover have "eb_inv (etw_backend_new (etw_provider_new name), [])"
    by (simp add: eb_inv_def etw_backend_new_def etw_provider_new_def)
  ultimately have "eb_inv (b, calls)" using f by metis
  then show ?thesis by (simp add: f eb_inv_def)
qed

text \<open>
  A clone of a running provider holds the same handle: dropping the clone unregisters it, and the
  provider, which still counts as running, goes on to write to it and unregisters it again.
\<close>

lemma cloned_provider_double_unregister:
  assumes "ep_handle p = Some h" and "ep_running p" and "trim (ee_provider e) \<noteq> []" and "trim (ee_message e) \<noteq> []"
  shows "etw_proper (Some h) (ep_drop p @ snd (ep_emit 0 e p)) = None"
    and "etw_proper (Some h) (ep_drop p @ snd (snd (ep_stop p))) = None"
  using assms by (simp_all add: ep_drop_def ep_take_handle_def ep_emit_def ep_stop_def Let_def)

end
