(* ===== verification/Engine_Runtime.thy ===== *)
theory Engine_Runtime
  imports Processing Load_Balancer Gateway Wfp_Filter Iphelper Npcap Windivert Etw
begin

text \<open>
  The engine runtime of \<open>crates/ffi\<close>: its state (\<open>engine.rs\<close>) and the commands on backends that keep
  the backend manager and the native instances in step (\<open>backends.rs\<close>). A command
  holds the global engine lock, so commands are atomic with respect to each other. Native replies and the clock are arguments.
\<close>

subsection \<open>Mutexes\<close>

text \<open>
  A \<open>Mutex\<close> is free and holds its content, or poisoned, when every \<open>lock\<close> returns an error and
  nobody sees the content again.
\<close>

datatype 'a mutex = Free 'a | Poisoned

definition lock_mutex :: "engine_error \<Rightarrow> 'a mutex \<Rightarrow> 'a engine_result" where
  "lock_mutex e m = (case m of Free x \<Rightarrow> Inr x | Poisoned \<Rightarrow> Inl e)"

abbreviation internal_error :: "string \<Rightarrow> engine_error" where
  "internal_error message \<equiv> Error_Message EC_InternalError message"

definition quoted :: "string \<Rightarrow> string" where
  "quoted s = [CHR 0x27] @ s @ [CHR 0x27]"

subsection \<open>How native errors are printed\<close>

primrec debug_windivert_error :: "windivert_error \<Rightarrow> string" where
  "debug_windivert_error Wd_InitFailed = ''InitFailed''"
| "debug_windivert_error Wd_OpenFailed = ''OpenFailed''"
| "debug_windivert_error Wd_FilterFailed = ''FilterFailed''"
| "debug_windivert_error Wd_RecvFailed = ''RecvFailed''"
| "debug_windivert_error Wd_SendFailed = ''SendFailed''"
| "debug_windivert_error Wd_CloseFailed = ''CloseFailed''"
| "debug_windivert_error Wd_InvalidOperation = ''InvalidOperation''"
| "debug_windivert_error Wd_QueueError = ''QueueError''"
| "debug_windivert_error Wd_InvalidPacket = ''InvalidPacket''"
| "debug_windivert_error Wd_PacketTooLarge = ''PacketTooLarge''"
| "debug_windivert_error Wd_QueueFull = ''QueueFull''"
| "debug_windivert_error Wd_QueueEmpty = ''QueueEmpty''"

primrec debug_npcap_error :: "npcap_error \<Rightarrow> string" where
  "debug_npcap_error Npe_AlreadyRunning = ''AlreadyRunning''"
| "debug_npcap_error Npe_NotRunning = ''NotRunning''"
| "debug_npcap_error Npe_InitializationFailed = ''InitializationFailed''"
| "debug_npcap_error Npe_DeviceUnavailable = ''DeviceUnavailable''"
| "debug_npcap_error Npe_CaptureFailed = ''CaptureFailed''"
| "debug_npcap_error Npe_InvalidCaptureId = ''InvalidCaptureId''"
| "debug_npcap_error Npe_ObservationCreationFailed = ''ObservationCreationFailed''"

primrec debug_iphelper_error :: "ip_helper_error \<Rightarrow> string" where
  "debug_iphelper_error Ihe_NotRunning = ''NotRunning''"
| "debug_iphelper_error Ihe_AlreadyRunning = ''AlreadyRunning''"
| "debug_iphelper_error Ihe_InitializationFailed = ''InitializationFailed''"
| "debug_iphelper_error Ihe_QueryFailed = ''QueryFailed''"

primrec debug_etw_error :: "etw_error \<Rightarrow> string" where
  "debug_etw_error Ete_AlreadyRunning = ''AlreadyRunning''"
| "debug_etw_error Ete_NotRunning = ''NotRunning''"
| "debug_etw_error Ete_InvalidProviderName = ''InvalidProviderName''"
| "debug_etw_error Ete_EventRejected = ''EventRejected''"
| "debug_etw_error Ete_RegistrationFailed = ''RegistrationFailed''"

subsection \<open>The state (\<open>engine.rs\<close>)\<close>

text \<open>
  What the capture thread owns. The parts of the runtime that the processing context shares are
  those of \<open>processing_shared\<close>.
\<close>

record capture_thread =
  ct_backend :: windivert_handle
  ct_next_id :: u64

record engine_runtime =
  er_shared :: processing_shared
  er_buffer_pool :: buffer_pool
  er_backend_manager :: backend_manager
  er_load_balancer :: load_balancer
  er_network_state :: "network_snapshot mutex"
  er_gateway :: "gateway_capability mutex"
  er_metrics :: engine_metrics
  er_packet_policy :: "packet_action_policy_config mutex"
  er_processing_stop :: bool
  er_processing_thread :: "unit option mutex"
  er_capture_stop :: bool
  er_capture_thread :: "capture_thread option mutex"
  er_windivert_action :: "windivert_handle option mutex"
  er_npcap_backend :: "npcap_backend option mutex"
  er_windivert_backend :: "windivert_handle option mutex"
  er_wfp_backend :: "wfp_engine option mutex"
  er_iphelper_backend :: "iphelper_backend option mutex"
  er_etw_backend :: "etw_backend option mutex"
  er_active_capture_backend :: "string option mutex"
  er_active_reinjection_backend :: "string option mutex"
  er_initialized :: bool

abbreviation er_bus :: "engine_runtime \<Rightarrow> packet_bus" where
  "er_bus e \<equiv> ps_bus (er_shared e)"

abbreviation er_statistics :: "engine_runtime \<Rightarrow> engine_statistics" where
  "er_statistics e \<equiv> ps_statistics (er_shared e)"

abbreviation er_state :: "engine_runtime \<Rightarrow> engine_state" where
  "er_state e \<equiv> ps_state (er_shared e)"

definition upd_statistics :: "(engine_statistics \<Rightarrow> engine_statistics) \<Rightarrow> engine_runtime \<Rightarrow> engine_runtime" where
  "upd_statistics f e = e\<lparr> er_shared := (er_shared e)\<lparr> ps_statistics := f (er_statistics e) \<rparr> \<rparr>"

definition upd_state :: "engine_state \<Rightarrow> engine_runtime \<Rightarrow> engine_runtime" where
  "upd_state s e = e\<lparr> er_shared := (er_shared e)\<lparr> ps_state := s \<rparr> \<rparr>"

definition upd_bus :: "packet_bus \<Rightarrow> engine_runtime \<Rightarrow> engine_runtime" where
  "upd_bus b e = e\<lparr> er_shared := (er_shared e)\<lparr> ps_bus := b \<rparr> \<rparr>"

definition flow_table_default :: flow_table where
  "flow_table_default = \<lparr> ft_flows = [], ft_max_entries = 100000, ft_idle_timeout = 300 * 1000000000,
     ft_total_created = 0, ft_total_removed = 0, ft_total_expired = 0 \<rparr>"

text \<open>
  \<open>FlowTable::default\<close> serves when the given bound is refused; \<open>expect\<close> panics on a pool that
  cannot be built.
\<close>

definition runtime_of :: "buffer_pool \<Rightarrow> usize \<Rightarrow> usize \<Rightarrow> engine_runtime" where
  "runtime_of pool queue_capacity max_flows =
     \<lparr> er_shared = \<lparr> ps_bus = bus_new queue_capacity,
         ps_flow_table = (case flow_table_with_defaults max_flows of Inr t \<Rightarrow> t | Inl _ \<Rightarrow> flow_table_default),
         ps_flow_table_poisoned = False, ps_dedup = dedup_new 65536, ps_workers = worker_pool_new 2,
         ps_workers_poisoned = False, ps_metadata = [], ps_metadata_poisoned = False,
         ps_statistics = engine_statistics_new, ps_state = engine_state_new \<rparr>,
       er_buffer_pool = pool, er_backend_manager = backend_manager_new, er_load_balancer = load_balancer_new,
       er_network_state = Free snapshot_default, er_gateway = Free (gateway_capability_new gateway_policy_default),
       er_metrics = engine_metrics_default,
       er_packet_policy = Free \<lparr> pac_default_action = Action_Pass, pac_rules = [] \<rparr>,
       er_processing_stop = False, er_processing_thread = Free None, er_capture_stop = False,
       er_capture_thread = Free None, er_windivert_action = Free None, er_npcap_backend = Free None,
       er_windivert_backend = Free None, er_wfp_backend = Free None, er_iphelper_backend = Free None,
       er_etw_backend = Free None, er_active_capture_backend = Free None,
       er_active_reinjection_backend = Free None, er_initialized = False \<rparr>"

definition runtime_new :: "usize \<Rightarrow> usize \<Rightarrow> usize \<Rightarrow> usize \<Rightarrow> (engine_error, engine_runtime) outcome" where
  "runtime_new queue_capacity pool_max_size buffer_capacity max_flows =
     (case pool_new pool_max_size buffer_capacity of
        Inl _ \<Rightarrow> Panic
      | Inr pool \<Rightarrow> Ok (runtime_of pool queue_capacity max_flows))"

definition rt_is_initialized :: "engine_runtime \<Rightarrow> bool" where
  "rt_is_initialized e \<longleftrightarrow> er_initialized e \<and> es_initialized (er_state e)"

definition rt_require_running :: "engine_runtime \<Rightarrow> unit engine_result" where
  "rt_require_running e = runtime_require_running (er_initialized e) (er_state e)"

definition set_active_capture_backend :: "string option \<Rightarrow> engine_runtime \<Rightarrow> unit engine_result \<times> engine_runtime" where
  "set_active_capture_backend name e = (case er_active_capture_backend e of
      Poisoned \<Rightarrow> (Inl (internal_error ''active capture backend mutex poisoned''), e)
    | Free _ \<Rightarrow> (Inr (), e\<lparr> er_active_capture_backend := Free name \<rparr>))"

definition set_active_reinjection_backend :: "string option \<Rightarrow> engine_runtime \<Rightarrow> unit engine_result \<times> engine_runtime" where
  "set_active_reinjection_backend name e = (case er_active_reinjection_backend e of
      Poisoned \<Rightarrow> (Inl (internal_error ''active reinjection backend mutex poisoned''), e)
    | Free _ \<Rightarrow> (Inr (), e\<lparr> er_active_reinjection_backend := Free name \<rparr>))"

definition active_capture_backend :: "engine_runtime \<Rightarrow> string option engine_result" where
  "active_capture_backend e =
     lock_mutex (internal_error ''active capture backend mutex poisoned'') (er_active_capture_backend e)"

definition active_reinjection_backend :: "engine_runtime \<Rightarrow> string option engine_result" where
  "active_reinjection_backend e =
     lock_mutex (internal_error ''active reinjection backend mutex poisoned'') (er_active_reinjection_backend e)"

definition set_packet_policy :: "packet_action_policy_config \<Rightarrow> engine_runtime \<Rightarrow> unit engine_result \<times> engine_runtime" where
  "set_packet_policy policy e = (case rt_require_running e of
      Inl err \<Rightarrow> (Inl err, e)
    | Inr _ \<Rightarrow> (case er_packet_policy e of
        Poisoned \<Rightarrow> (Inl (internal_error ''packet policy mutex poisoned''), e)
      | Free _ \<Rightarrow> (Inr (), e\<lparr> er_packet_policy := Free policy \<rparr>)))"

definition packet_policy :: "engine_runtime \<Rightarrow> packet_action_policy_config engine_result" where
  "packet_policy e = lock_mutex (internal_error ''packet policy mutex poisoned'') (er_packet_policy e)"

subsection \<open>Native instances\<close>

text \<open>What the native libraries answer during one command.\<close>

record native_replies =
  nr_windivert_open :: usize
  nr_windivert_close :: int
  nr_wfp_open :: "u32 \<times> usize"
  nr_wfp_sublayer_add :: u32
  nr_wfp_sublayer_delete :: u32
  nr_wfp_close :: u32
  nr_iphelper :: system_replies
  nr_etw :: "u32 \<times> u64"

definition map_native_error :: "engine_error_code \<Rightarrow> string \<Rightarrow> ('e \<Rightarrow> string) \<Rightarrow> ('e + unit) \<Rightarrow> unit engine_result" where
  "map_native_error code prefix debug r =
     (case r of Inl e \<Rightarrow> Inl (Error_Message code (prefix @ debug e)) | Inr u \<Rightarrow> Inr u)"

definition npcap_native_start :: "native_replies \<Rightarrow> npcap_backend \<Rightarrow> unit engine_result \<times> npcap_backend" where
  "npcap_native_start nr b = apfst
     (map_native_error EC_BackendInitializationFailed ''Npcap start failed: '' debug_npcap_error) (nb_start b)"

definition npcap_native_stop :: "native_replies \<Rightarrow> npcap_backend \<Rightarrow> unit engine_result \<times> npcap_backend" where
  "npcap_native_stop nr b = (case nb_stop b of (r, b', _) \<Rightarrow>
     (map_native_error EC_BackendShutdownFailed ''Npcap stop failed: '' debug_npcap_error r, b'))"

definition windivert_native_start :: "native_replies \<Rightarrow> windivert_handle \<Rightarrow> unit engine_result \<times> windivert_handle" where
  "windivert_native_start nr h = (case wh_open (nr_windivert_open nr) h of (r, h', _) \<Rightarrow>
     (map_native_error EC_BackendInitializationFailed ''WinDivert start failed: '' debug_windivert_error r, h'))"

definition windivert_native_stop :: "native_replies \<Rightarrow> windivert_handle \<Rightarrow> unit engine_result \<times> windivert_handle" where
  "windivert_native_stop nr h = (case wh_close (nr_windivert_close nr) h of (r, h', _) \<Rightarrow>
     (map_native_error EC_BackendShutdownFailed ''WinDivert stop failed: '' debug_windivert_error r, h'))"

definition wfp_native_start :: "native_replies \<Rightarrow> wfp_engine \<Rightarrow> unit engine_result \<times> wfp_engine" where
  "wfp_native_start nr w = (case wfp_open (nr_wfp_open nr) (nr_wfp_sublayer_add nr) w of (r, w', _) \<Rightarrow> (r, w'))"

definition wfp_native_stop :: "native_replies \<Rightarrow> wfp_engine \<Rightarrow> unit engine_result \<times> wfp_engine" where
  "wfp_native_stop nr w = (case wfp_close (nr_wfp_sublayer_delete nr) (nr_wfp_close nr) w of (r, w', _) \<Rightarrow> (r, w'))"

definition iphelper_native_start :: "native_replies \<Rightarrow> iphelper_backend \<Rightarrow> unit engine_result \<times> iphelper_backend" where
  "iphelper_native_start nr b = apfst
     (map_native_error EC_BackendInitializationFailed ''IP Helper start failed: '' debug_iphelper_error)
     (iphelper_start (nr_iphelper nr) b)"

definition iphelper_native_stop :: "native_replies \<Rightarrow> iphelper_backend \<Rightarrow> unit engine_result \<times> iphelper_backend" where
  "iphelper_native_stop nr b = apfst
     (map_native_error EC_BackendShutdownFailed ''IP Helper stop failed: '' debug_iphelper_error) (iphelper_stop b)"

definition etw_native_start :: "native_replies \<Rightarrow> etw_backend \<Rightarrow> unit engine_result \<times> etw_backend" where
  "etw_native_start nr b = (case eb_start (nr_etw nr) b of (r, b', _) \<Rightarrow>
     (map_native_error EC_BackendInitializationFailed ''ETW start failed: '' debug_etw_error r, b'))"

definition etw_native_stop :: "native_replies \<Rightarrow> etw_backend \<Rightarrow> unit engine_result \<times> etw_backend" where
  "etw_native_stop nr b = (case eb_stop b of (r, b', _) \<Rightarrow>
     (map_native_error EC_BackendShutdownFailed ''ETW stop failed: '' debug_etw_error r, b'))"

definition windivert_fresh :: "windivert_handle engine_result" where
  "windivert_fresh = (case windivert_config_new ''true'' Wl_Network of
      Inl _ \<Rightarrow> Inl (Error_Code EC_BackendInitFailed)
    | Inr config \<Rightarrow> Inr (windivert_handle_new config))"

text \<open>
  The arms of the two \<open>match name\<close>: lock the slot, fill it if it is empty (on start), and call the
  instance in it.
\<close>

definition start_slot ::
  "string \<Rightarrow> 'b engine_result \<Rightarrow> ('b \<Rightarrow> unit engine_result \<times> 'b) \<Rightarrow> 'b option mutex \<Rightarrow>
   unit engine_result \<times> 'b option mutex" where
  "start_slot what fresh start slot = (case slot of
      Poisoned \<Rightarrow> (Inl (internal_error (what @ '' backend mutex poisoned'')), slot)
    | Free content \<Rightarrow> (case (case content of None \<Rightarrow> fresh | Some b \<Rightarrow> Inr b) of
        Inl e \<Rightarrow> (Inl e, slot)
      | Inr b \<Rightarrow> (case start b of (r, b') \<Rightarrow> (r, Free (Some b')))))"

definition stop_slot ::
  "string \<Rightarrow> ('b \<Rightarrow> unit engine_result \<times> 'b) \<Rightarrow> 'b option mutex \<Rightarrow> unit engine_result \<times> 'b option mutex" where
  "stop_slot what stop slot = (case slot of
      Poisoned \<Rightarrow> (Inl (internal_error (what @ '' backend mutex poisoned'')), slot)
    | Free None \<Rightarrow> (Inl (Error_Message EC_BackendShutdownFailed
        (what @ '' backend has no native instance while lifecycle is active'')), slot)
    | Free (Some b) \<Rightarrow> (case stop b of (r, b') \<Rightarrow> (r, Free (Some b'))))"

definition start_native :: "native_replies \<Rightarrow> string \<Rightarrow> engine_runtime \<Rightarrow> unit engine_result \<times> engine_runtime" where
  "start_native nr name e =
     (if name = ''npcap'' then
        (case start_slot ''Npcap'' (Inr npcap_new) (npcap_native_start nr) (er_npcap_backend e) of
           (r, slot) \<Rightarrow> (r, e\<lparr> er_npcap_backend := slot \<rparr>))
      else if name = ''windivert'' then
        (case start_slot ''WinDivert'' windivert_fresh (windivert_native_start nr) (er_windivert_backend e) of
           (r, slot) \<Rightarrow> (r, e\<lparr> er_windivert_backend := slot \<rparr>))
      else if name = ''wfp'' then
        (case start_slot ''WFP'' (Inr wfp_engine_new) (wfp_native_start nr) (er_wfp_backend e) of
           (r, slot) \<Rightarrow> (r, e\<lparr> er_wfp_backend := slot \<rparr>))
      else if name = ''iphelper'' then
        (case start_slot ''IP Helper'' (Inr iphelper_new) (iphelper_native_start nr) (er_iphelper_backend e) of
           (r, slot) \<Rightarrow> (r, e\<lparr> er_iphelper_backend := slot \<rparr>))
      else if name = ''etw'' then
        (case start_slot ''ETW'' (Inr (etw_backend_new (etw_provider_new ''network-engine''))) (etw_native_start nr)
            (er_etw_backend e) of (r, slot) \<Rightarrow> (r, e\<lparr> er_etw_backend := slot \<rparr>))
      else (Inr (), e))"

definition stop_native :: "native_replies \<Rightarrow> string \<Rightarrow> engine_runtime \<Rightarrow> unit engine_result \<times> engine_runtime" where
  "stop_native nr name e =
     (if name = ''npcap'' then
        (case stop_slot ''Npcap'' (npcap_native_stop nr) (er_npcap_backend e) of
           (r, slot) \<Rightarrow> (r, e\<lparr> er_npcap_backend := slot \<rparr>))
      else if name = ''windivert'' then
        (case stop_slot ''WinDivert'' (windivert_native_stop nr) (er_windivert_backend e) of
           (r, slot) \<Rightarrow> (r, e\<lparr> er_windivert_backend := slot \<rparr>))
      else if name = ''wfp'' then
        (case stop_slot ''WFP'' (wfp_native_stop nr) (er_wfp_backend e) of
           (r, slot) \<Rightarrow> (r, e\<lparr> er_wfp_backend := slot \<rparr>))
      else if name = ''iphelper'' then
        (case stop_slot ''IP Helper'' (iphelper_native_stop nr) (er_iphelper_backend e) of
           (r, slot) \<Rightarrow> (r, e\<lparr> er_iphelper_backend := slot \<rparr>))
      else if name = ''etw'' then
        (case stop_slot ''ETW'' (etw_native_stop nr) (er_etw_backend e) of
           (r, slot) \<Rightarrow> (r, e\<lparr> er_etw_backend := slot \<rparr>))
      else (Inr (), e))"

subsection \<open>Commands on backends (\<open>backends.rs\<close>)\<close>

text \<open>\<open>?\<close> on a result with the state it leaves.\<close>

definition try_then :: "'a engine_result \<times> 's \<Rightarrow> ('a \<Rightarrow> 's \<Rightarrow> 'b engine_result \<times> 's) \<Rightarrow> 'b engine_result \<times> 's" where
  "try_then p f = (case p of (Inl e, s) \<Rightarrow> (Inl e, s) | (Inr x, s) \<Rightarrow> f x s)"

abbreviation on_manager ::
  "(backend_manager \<Rightarrow> 'a engine_result \<times> backend_manager) \<Rightarrow> engine_runtime \<Rightarrow> 'a engine_result \<times> engine_runtime" where
  "on_manager f e \<equiv> (case f (er_backend_manager e) of (r, m) \<Rightarrow> (r, e\<lparr> er_backend_manager := m \<rparr>))"

definition register_backend :: "backend_descriptor \<Rightarrow> engine_runtime \<Rightarrow> unit engine_result \<times> engine_runtime" where
  "register_backend d e = try_then (rt_require_running e, e) (\<lambda>_ e.
     case on_manager (bm_register d) e of
       (Inl err, e') \<Rightarrow> (Inl err, upd_statistics record_stat_error e')
     | (Inr _, e') \<Rightarrow> (Inr (), e'))"

text \<open>A native failure: the lifecycle becomes \<open>Failed\<close>, if it may, and the failure is counted.\<close>

definition native_failed :: "string \<Rightarrow> engine_runtime \<Rightarrow> engine_runtime" where
  "native_failed name e = upd_statistics record_backend_failure (snd (on_manager (bm_set_lifecycle name Bl_Failed) e))"

definition start_backend :: "u64 \<Rightarrow> native_replies \<Rightarrow> string \<Rightarrow> engine_runtime \<Rightarrow> unit engine_result \<times> engine_runtime" where
  "start_backend now nr name e = try_then (rt_require_running e, e) (\<lambda>_ e.
     try_then (on_manager (bm_start name) e) (\<lambda>_ e.
     case start_native nr name e of
       (Inl err, e) \<Rightarrow> (Inl err, native_failed name e)
     | (Inr _, e) \<Rightarrow> try_then (on_manager (bm_mark_running name) e) (\<lambda>_ e.
         (Inr (), snd (on_manager (bm_record_success now name) e)))))"

definition clear_active_capture :: "string \<Rightarrow> engine_runtime \<Rightarrow> unit engine_result \<times> engine_runtime" where
  "clear_active_capture name e = try_then (active_capture_backend e, e) (\<lambda>active e.
     if active = Some name then set_active_capture_backend None e else (Inr (), e))"

definition clear_active_reinjection :: "string \<Rightarrow> engine_runtime \<Rightarrow> unit engine_result \<times> engine_runtime" where
  "clear_active_reinjection name e = try_then (active_reinjection_backend e, e) (\<lambda>active e.
     if active = Some name then set_active_reinjection_backend None e else (Inr (), e))"

definition stop_backend :: "native_replies \<Rightarrow> string \<Rightarrow> engine_runtime \<Rightarrow> unit engine_result \<times> engine_runtime" where
  "stop_backend nr name e = try_then (rt_require_running e, e) (\<lambda>_ e.
     try_then (on_manager (bm_stop name) e) (\<lambda>_ e.
     case stop_native nr name e of
       (Inl err, e) \<Rightarrow> (Inl err, native_failed name e)
     | (Inr _, e) \<Rightarrow> try_then (on_manager (bm_mark_stopped name) e) (\<lambda>_ e.
         try_then (clear_active_capture name (e\<lparr> er_load_balancer := lb_forget name (er_load_balancer e) \<rparr>)) (\<lambda>_ e.
         clear_active_reinjection name e))))"

definition restart_backend :: "u64 \<Rightarrow> native_replies \<Rightarrow> string \<Rightarrow> engine_runtime \<Rightarrow> unit engine_result \<times> engine_runtime" where
  "restart_backend now nr name e = try_then (rt_require_running e, e) (\<lambda>_ e.
     try_then (bm_runtime_state name (er_backend_manager e), e) (\<lambda>runtime e.
     if br_lifecycle runtime \<in> {Bl_Running, Bl_Degraded} then
       try_then (stop_backend nr name e) (\<lambda>_ e. start_backend now nr name e)
     else if br_lifecycle runtime \<in> {Bl_Failed, Bl_Stopped, Bl_Disabled} then start_backend now nr name e
     else (Inl (Error_Message EC_ConcurrentOperation (''backend '' @ quoted name @ '' is already transitioning'')), e)))"

definition backend_supports :: "string \<Rightarrow> backend_capability \<Rightarrow> engine_runtime \<Rightarrow> bool engine_result" where
  "backend_supports name c e = (case rt_require_running e of
      Inl err \<Rightarrow> Inl err | Inr _ \<Rightarrow> bm_supports name c (er_backend_manager e))"

definition backend_lifecycle_of :: "string \<Rightarrow> engine_runtime \<Rightarrow> backend_lifecycle engine_result" where
  "backend_lifecycle_of name e = (case rt_require_running e of
      Inl err \<Rightarrow> Inl err
    | Inr _ \<Rightarrow> (case bm_runtime_state name (er_backend_manager e) of Inl err \<Rightarrow> Inl err | Inr s \<Rightarrow> Inr (br_lifecycle s)))"

definition isolate_failed_backend :: "native_replies \<Rightarrow> string \<Rightarrow> engine_runtime \<Rightarrow> unit engine_result \<times> engine_runtime" where
  "isolate_failed_backend nr name e = try_then (rt_require_running e, e) (\<lambda>_ e.
     try_then (bm_runtime_state name (er_backend_manager e), e) (\<lambda>runtime e.
     if br_lifecycle runtime \<in> {Bl_Running, Bl_Degraded} then stop_backend nr name e
     else if br_lifecycle runtime \<in> {Bl_Failed, Bl_Stopped, Bl_Disabled} then (Inr (), e)
     else (Inl (Error_Message EC_ConcurrentOperation
       (''backend '' @ quoted name @ '' is transitioning and cannot be isolated yet'')), e)))"

text \<open>What the two fail-over commands do once the failed backend is isolated.\<close>

definition switch_route ::
  "backend_capability \<Rightarrow> string \<Rightarrow> (string option \<Rightarrow> engine_runtime \<Rightarrow> unit engine_result \<times> engine_runtime) \<Rightarrow>
   string \<Rightarrow> engine_runtime \<Rightarrow> string engine_result \<times> engine_runtime" where
  "switch_route c what set_active failed e =
     (case select_healthy_backend_for_failover c failed (er_backend_manager e) of (found, m) \<Rightarrow>
       let e = e\<lparr> er_backend_manager := m \<rparr> in
       case found of
         None \<Rightarrow> (Inl (Error_Message EC_CapabilityUnavailable
           (''no healthy backend provides a sufficient '' @ what @ '' capability for failover'')), e)
       | Some alternative \<Rightarrow> try_then (set_active (Some alternative) e) (\<lambda>_ e.
           (Inr alternative, upd_statistics record_backend_failover e)))"

definition failover_capture_backend :: "native_replies \<Rightarrow> string \<Rightarrow> engine_runtime \<Rightarrow> string engine_result \<times> engine_runtime" where
  "failover_capture_backend nr failed e = try_then (rt_require_running e, e) (\<lambda>_ e.
     try_then (isolate_failed_backend nr failed e) (\<lambda>_ e.
     switch_route Cap_Capture ''capture'' set_active_capture_backend failed e))"

definition failover_reinjection_backend :: "native_replies \<Rightarrow> string \<Rightarrow> engine_runtime \<Rightarrow> string engine_result \<times> engine_runtime" where
  "failover_reinjection_backend nr failed e = try_then (rt_require_running e, e) (\<lambda>_ e.
     try_then (isolate_failed_backend nr failed e) (\<lambda>_ e.
     switch_route Cap_Reinjection ''reinjection'' set_active_reinjection_backend failed e))"

subsection \<open>The contract of a native instance\<close>

text \<open>
  What the runtime relies on: a successful start leaves the instance active, a failed one does not
  activate it, a successful stop leaves it inactive, and a new instance is inactive. Most backends
  also refuse to start an active instance.
\<close>

definition slot_active :: "('b \<Rightarrow> bool) \<Rightarrow> 'b option mutex \<Rightarrow> bool" where
  "slot_active active slot = (case slot of Free (Some b) \<Rightarrow> active b | _ \<Rightarrow> False)"

locale native_backend =
  fixes fresh :: "'b engine_result"
    and start stop :: "native_replies \<Rightarrow> 'b \<Rightarrow> unit engine_result \<times> 'b"
    and active :: "'b \<Rightarrow> bool"
  assumes start_active: "start nr b = (Inr (), b') \<Longrightarrow> active b'"
    and start_failed: "start nr b = (Inl e, b') \<Longrightarrow> active b' \<Longrightarrow> active b"
    and stop_inactive: "stop nr b = (Inr (), b') \<Longrightarrow> \<not> active b'"
    and fresh_inactive: "fresh = Inr b \<Longrightarrow> \<not> active b"
begin

lemma start_slot_active: "start_slot what fresh (start nr) slot = (Inr (), slot') \<Longrightarrow> slot_active active slot'"
  by (auto simp: start_slot_def slot_active_def split: mutex.splits sum.splits option.splits prod.splits dest: start_active)

lemma start_slot_failed:
  "start_slot what fresh (start nr) slot = (Inl e, slot') \<Longrightarrow> slot_active active slot' \<Longrightarrow> slot_active active slot"
  by (auto simp: start_slot_def slot_active_def split: mutex.splits sum.splits option.splits prod.splits
      dest: start_failed fresh_inactive)

lemma stop_slot_inactive: "stop_slot what (stop nr) slot = (Inr (), slot') \<Longrightarrow> \<not> slot_active active slot'"
  by (auto simp: stop_slot_def slot_active_def split: mutex.splits option.splits prod.splits dest: stop_inactive)

end

locale exclusive_backend = native_backend +
  assumes start_refuses: "active b \<Longrightarrow> \<exists>e. start nr b = (Inl e, b)"
begin

lemma start_slot_refuses:
  "slot_active active slot \<Longrightarrow> \<exists>e. start_slot what fresh (start nr) slot = (Inl e, slot)"
proof -
  assume "slot_active active slot"
  then obtain b where b: "slot = Free (Some b)" "active b"
    by (auto simp: slot_active_def split: mutex.splits option.splits)
  then show ?thesis using start_refuses [of b nr] by (auto simp: start_slot_def)
qed

end

definition npcap_active :: "npcap_backend \<Rightarrow> bool" where
  "npcap_active b \<longleftrightarrow> nb_state b = Nbs_Running"

definition windivert_active :: "windivert_handle \<Rightarrow> bool" where
  "windivert_active h \<longleftrightarrow> wh_state h = Wh_Open"

definition wfp_active :: "wfp_engine \<Rightarrow> bool" where
  "wfp_active w \<longleftrightarrow> we_is_open (we_state w)"

interpretation npcap_native: exclusive_backend "Inr npcap_new" npcap_native_start npcap_native_stop npcap_active
  by unfold_locales (auto simp: npcap_native_start_def npcap_native_stop_def npcap_active_def nb_start_def nb_stop_def npcap_new_def
      map_native_error_def Let_def split: if_splits prod.splits)

interpretation windivert_native:
  exclusive_backend windivert_fresh windivert_native_start windivert_native_stop windivert_active
  by unfold_locales (auto simp: windivert_native_start_def windivert_native_stop_def windivert_active_def wh_open_def
      wh_close_def wh_can_open_def wh_can_close_def windivert_fresh_def windivert_handle_new_def map_native_error_def Let_def
      split: if_splits option.splits sum.splits)

interpretation wfp_native: exclusive_backend "Inr wfp_engine_new" wfp_native_start wfp_native_stop wfp_active
  by unfold_locales (auto simp: wfp_native_start_def wfp_native_stop_def wfp_active_def wfp_open_def wfp_close_def
      wfp_engine_new_def we_can_open_def we_can_close_def we_is_open_def we_transition_def Let_def
      split: if_splits option.splits sum.splits prod.splits)

lemma refresh_keeps_running [simp]: "ihb_running (snd (iphelper_refresh_all sr b)) = ihb_running b"
proof -
  have "ihb_running (snd (refresh_interfaces sr b)) = ihb_running b" "ihb_running (snd (refresh_routes sr b)) = ihb_running b"
    "ihb_running (snd (refresh_neighbors sr b)) = ihb_running b" "ihb_running (snd (refresh_connections sr b)) = ihb_running b" for b
    by (simp_all add: refresh_interfaces_def refresh_routes_def refresh_neighbors_def refresh_connections_def split: prod.splits)
  note keeps = this
  have bind: "ihb_running (snd (Iphelper.and_then p f)) = ihb_running (snd p)"
    if "\<And>b. ihb_running (snd (f b)) = ihb_running b" for p and f :: "iphelper_backend \<Rightarrow> (ip_helper_error + unit) \<times> iphelper_backend"
    using that by (cases p; cases "fst p") simp_all
  show ?thesis by (simp add: iphelper_refresh_all_def bind keeps)
qed

lemma refresh_running: "iphelper_refresh_all sr (b\<lparr> ihb_running := True \<rparr>) = (r, b') \<Longrightarrow> ihb_running b'"
  using refresh_keeps_running [of sr "b\<lparr> ihb_running := True \<rparr>"] by simp

interpretation iphelper_native: exclusive_backend "Inr iphelper_new" iphelper_native_start iphelper_native_stop ihb_running
  by unfold_locales (auto simp: iphelper_native_start_def iphelper_native_stop_def iphelper_start_def iphelper_stop_def
      iphelper_new_def map_native_error_def dest: refresh_running split: if_splits sum.splits prod.splits)

interpretation etw_native: native_backend "Inr (etw_backend_new (etw_provider_new ''network-engine''))"
    etw_native_start etw_native_stop eb_running
  by unfold_locales (auto simp: etw_native_start_def etw_native_stop_def eb_start_def eb_stop_def etw_backend_new_def
      map_native_error_def split: if_splits sum.splits prod.splits)

subsection \<open>The manager and the native instances agree\<close>

text \<open>A name the engine has no native instance for needs none.\<close>

definition native_active :: "string \<Rightarrow> engine_runtime \<Rightarrow> bool" where
  "native_active name e =
     (if name = ''npcap'' then slot_active npcap_active (er_npcap_backend e)
      else if name = ''windivert'' then slot_active windivert_active (er_windivert_backend e)
      else if name = ''wfp'' then slot_active wfp_active (er_wfp_backend e)
      else if name = ''iphelper'' then slot_active ihb_running (er_iphelper_backend e)
      else if name = ''etw'' then slot_active eb_running (er_etw_backend e)
      else True)"

definition is_up :: "backend_lifecycle \<Rightarrow> bool" where
  "is_up l \<longleftrightarrow> l \<in> {Bl_Running, Bl_Degraded}"

definition reported_up :: "string \<Rightarrow> backend_manager \<Rightarrow> bool" where
  "reported_up n m = (case hm_get n (bm_backends m) of Some b \<Rightarrow> is_up (lifecycle_of b) | None \<Rightarrow> False)"

definition er_inv :: "engine_runtime \<Rightarrow> bool" where
  "er_inv e \<longleftrightarrow> (\<forall>n. reported_up n (er_backend_manager e) \<longrightarrow> native_active n e)"

lemma is_up_simps [simp]:
  "is_up Bl_Running" "is_up Bl_Degraded" "\<not> is_up Bl_Starting" "\<not> is_up Bl_Stopping" "\<not> is_up Bl_Failed"
  "\<not> is_up Bl_Stopped" "\<not> is_up Bl_Disabled"
  by (simp_all add: is_up_def)

lemma reported_up_modify:
  "reported_up n (snd (bm_modify f name m)) =
     (if n = name \<and> \<not> bm_poisoned m then
        (case hm_get n (bm_backends m) of Some b \<Rightarrow> is_up (lifecycle_of (snd (f b))) | None \<Rightarrow> False)
      else reported_up n m)"
  by (auto simp: reported_up_def bm_modify_def hm_get_insert split: option.splits prod.splits)

lemma reported_up_modify_le:
  assumes "\<And>b. is_up (lifecycle_of (snd (f b))) \<Longrightarrow> is_up (lifecycle_of b)"
    and "reported_up n (snd (bm_modify f name m))"
  shows "reported_up n m"
  using assms(2) unfolding reported_up_modify
  by (auto simp: reported_up_def split: if_splits option.splits dest!: assms(1))

lemma lifecycle_mb_transition:
  "lifecycle_of (snd (mb_transition t b)) = (if bl_can_transition_to (lifecycle_of b) t then t else lifecycle_of b)"
  "fst (mb_transition t b) = Inr () \<longleftrightarrow> bl_can_transition_to (lifecycle_of b) t"
  by (simp_all add: mb_transition_def br_transition_def bl_validate_transition_def)

lemma lifecycle_mb_set_lifecycle:
  "lifecycle_of (snd (mb_set_lifecycle t b)) = (if bl_can_transition_to (lifecycle_of b) t then t else lifecycle_of b)"
  using lifecycle_mb_transition [of t b]
  by (auto simp: mb_set_lifecycle_def split: prod.splits sum.splits backend_lifecycle.splits)

lemma reported_up_start: "reported_up n (snd (bm_start name m)) \<Longrightarrow> reported_up n m"
  unfolding bm_start_def
  by (erule reported_up_modify_le [rotated]) (auto simp: mb_start_def lifecycle_mb_transition Let_def split: if_splits)

lemma reported_up_stop: "reported_up n (snd (bm_stop name m)) \<Longrightarrow> reported_up n m"
  unfolding bm_stop_def
  by (erule reported_up_modify_le [rotated]) (auto simp: mb_stop_def lifecycle_mb_transition Let_def split: if_splits)

lemma mb_transition_done: "mb_transition t b = (Inr (), b') \<Longrightarrow> lifecycle_of b' = t"
  using lifecycle_mb_transition [of t b] by simp

lemma started_not_up: "bm_start name m = (Inr (), m') \<Longrightarrow> \<not> reported_up name m'"
  by (auto simp: bm_start_def bm_modify_def mb_start_def reported_up_def Let_def hm_get_insert
      split: if_splits option.splits prod.splits dest!: mb_transition_done)

lemma stopping_not_up: "bm_stop name m = (Inr (), m') \<Longrightarrow> \<not> reported_up name m'"
  by (auto simp: bm_stop_def bm_modify_def mb_stop_def reported_up_def Let_def hm_get_insert
      split: if_splits option.splits prod.splits dest!: mb_transition_done)

lemma reported_up_set_lifecycle:
  "reported_up n (snd (bm_set_lifecycle name t m)) \<Longrightarrow> reported_up n m \<or> n = name \<and> is_up t"
  unfolding bm_set_lifecycle_def reported_up_modify
  by (auto simp: lifecycle_mb_set_lifecycle reported_up_def split: if_splits option.splits)

lemma reported_up_success: "reported_up n (snd (bm_record_success now name m)) \<Longrightarrow> reported_up n m"
  unfolding bm_record_success_def
  by (erule reported_up_modify_le [rotated])
    (auto simp: mb_record_success_def lifecycle_mb_transition Let_def split: prod.splits if_splits)

lemma reported_up_failure: "reported_up n (snd (bm_record_failure now name native m)) \<Longrightarrow> reported_up n m"
proof -
  have "is_up (lifecycle_of (snd (mb_record_failure now native b))) \<Longrightarrow> is_up (lifecycle_of b)" for b
    by (auto simp: mb_record_failure_def lifecycle_mb_transition br_record_error_def Let_def
        split: prod.splits sum.splits if_splits backend_health.splits dest!: arg_cong [where f = snd])
  then show "reported_up n (snd (bm_record_failure now name native m)) \<Longrightarrow> reported_up n m"
    unfolding bm_record_failure_def by (rule reported_up_modify_le)
qed

lemma reported_up_register: "reported_up n (snd (bm_register d m)) \<Longrightarrow> reported_up n m"
  by (auto simp: bm_register_def reported_up_def hm_get_insert managed_backend_new_def runtime_state_new_def
      split: if_splits option.splits)

lemma native_active_frame [simp]:
  "native_active n (e\<lparr> er_backend_manager := m \<rparr>) = native_active n e"
  "native_active n (e\<lparr> er_shared := sh \<rparr>) = native_active n e"
  "native_active n (e\<lparr> er_load_balancer := lb \<rparr>) = native_active n e"
  "native_active n (e\<lparr> er_active_capture_backend := ac \<rparr>) = native_active n e"
  "native_active n (e\<lparr> er_active_reinjection_backend := ar \<rparr>) = native_active n e"
  by (simp_all add: native_active_def)

lemma start_native_manager [simp]: "er_backend_manager (snd (start_native nr name e)) = er_backend_manager e"
  by (simp add: start_native_def split: prod.splits)

lemma stop_native_manager [simp]: "er_backend_manager (snd (stop_native nr name e)) = er_backend_manager e"
  by (simp add: stop_native_def split: prod.splits)

lemma start_native_other: "n \<noteq> name \<Longrightarrow> native_active n (snd (start_native nr name e)) = native_active n e"
  by (auto simp: start_native_def native_active_def split: prod.splits)

lemma stop_native_other: "n \<noteq> name \<Longrightarrow> native_active n (snd (stop_native nr name e)) = native_active n e"
  by (auto simp: stop_native_def native_active_def split: prod.splits)

lemma start_native_active: "start_native nr name e = (Inr (), e') \<Longrightarrow> native_active name e'"
  by (auto simp: start_native_def native_active_def split: prod.splits if_splits
      dest: npcap_native.start_slot_active windivert_native.start_slot_active wfp_native.start_slot_active
        iphelper_native.start_slot_active etw_native.start_slot_active)

lemma stop_native_inactive:
  "stop_native nr name e = (Inr (), e') \<Longrightarrow> name \<in> {''npcap'', ''windivert'', ''wfp'', ''iphelper'', ''etw''} \<Longrightarrow>
     \<not> native_active name e'"
  by (auto simp: stop_native_def native_active_def split: prod.splits if_splits
      dest: npcap_native.stop_slot_inactive windivert_native.stop_slot_inactive wfp_native.stop_slot_inactive
        iphelper_native.stop_slot_inactive etw_native.stop_slot_inactive)

lemma er_invI:
  assumes "er_inv e" and "\<And>n. reported_up n (er_backend_manager e') \<Longrightarrow> reported_up n (er_backend_manager e)"
    and "\<And>n. native_active n e' = native_active n e"
  shows "er_inv e'"
  using assms by (auto simp: er_inv_def)

lemma upd_statistics_frame [simp]:
  "er_backend_manager (upd_statistics f e) = er_backend_manager e"
  "native_active n (upd_statistics f e) = native_active n e"
  by (simp_all add: upd_statistics_def)

lemma er_inv_upd_statistics [simp]: "er_inv (upd_statistics f e) = er_inv e"
  by (simp add: er_inv_def upd_statistics_def)

lemma try_then_state:
  assumes "P (snd p)" and "\<And>x s. p = (Inr x, s) \<Longrightarrow> P s \<Longrightarrow> P (snd (f x s))"
  shows "P (snd (try_then p f))"
  using assms by (cases p; cases "fst p") (auto simp: try_then_def)

lemma try_then_ok: "try_then p f = (Inr y, s') \<longleftrightarrow> (\<exists>x s. p = (Inr x, s) \<and> f x s = (Inr y, s'))"
  by (cases p; cases "fst p") (auto simp: try_then_def)

lemma er_inv_native_failed:
  assumes "\<And>n. n \<noteq> name \<Longrightarrow> reported_up n (er_backend_manager e) \<Longrightarrow> native_active n e"
    and "\<not> reported_up name (er_backend_manager e)"
  shows "er_inv (native_failed name e)"
  unfolding er_inv_def
proof (intro allI impI)
  fix n assume "reported_up n (er_backend_manager (native_failed name e))"
  then have "reported_up n (er_backend_manager e)"
    using reported_up_set_lifecycle [of n name Bl_Failed "er_backend_manager e"]
    by (auto simp: native_failed_def split: prod.splits)
  then show "native_active n (native_failed name e)"
    using assms by (cases "n = name") (auto simp: native_failed_def split: prod.splits)
qed

lemma on_manager_snd [simp]:
  "snd (on_manager f e) = e\<lparr> er_backend_manager := snd (f (er_backend_manager e)) \<rparr>"
  by (simp split: prod.splits)

lemma er_inv_manager:
  assumes "er_inv e" and "\<And>n. reported_up n m \<Longrightarrow> reported_up n (er_backend_manager e)"
  shows "er_inv (e\<lparr> er_backend_manager := m \<rparr>)"
  using assms by (auto intro: er_invI)

text \<open>What both commands have after the manager agreed: the backend in question is not up.\<close>

lemma mid_command:
  assumes "er_inv e" and "f = bm_start \<or> f = bm_stop" and "f name (er_backend_manager e) = (Inr (), m)"
  shows "\<not> reported_up name m" and "n \<noteq> name \<Longrightarrow> reported_up n m \<Longrightarrow> native_active n e"
  using assms started_not_up stopping_not_up reported_up_start [of n name "er_backend_manager e"]
    reported_up_stop [of n name "er_backend_manager e"]
  by (auto simp: er_inv_def)

lemma er_inv_start_backend [keeps]:
  assumes inv: "er_inv e"
  shows "er_inv (snd (start_backend now nr name e))"
proof (cases "rt_require_running e")
  case (Inr u)
  obtain r m where m: "bm_start name (er_backend_manager e) = (r, m)" by fastforce
  show ?thesis
  proof (cases r)
    case (Inl err)
    then show ?thesis
      using Inr m reported_up_start [of _ name "er_backend_manager e"] er_inv_manager [OF inv]
      by (auto simp: start_backend_def try_then_def)
  next
    case (Inr u')
    note mid = mid_command [OF inv, of bm_start name m] m [unfolded Inr]
    obtain r' e' where e': "start_native nr name (e\<lparr> er_backend_manager := m \<rparr>) = (r', e')" by fastforce
    have mgr: "er_backend_manager e' = m" and other: "n \<noteq> name \<Longrightarrow> native_active n e' = native_active n e" for n
      using start_native_manager [of nr name "e\<lparr> er_backend_manager := m \<rparr>"]
        start_native_other [of n name nr "e\<lparr> er_backend_manager := m \<rparr>"] e' by simp_all
    show ?thesis
    proof (cases r')
      case (Inl err)
      then show ?thesis
        using \<open>rt_require_running e = Inr u\<close> mid e' mgr other
        by (auto simp: start_backend_def try_then_def intro!: er_inv_native_failed)
    next
      case (Inr u'')
      define m1 where "m1 = snd (bm_mark_running name m)"
      have "native_active name e'" using start_native_active e' Inr by simp
      then have "er_inv (e'\<lparr> er_backend_manager := m' \<rparr>)" if "\<And>n. reported_up n m' \<Longrightarrow> reported_up n m1" for m'
        using that mid other reported_up_set_lifecycle [of _ name Bl_Running m]
        by (auto simp: er_inv_def m1_def bm_mark_running_def) (metis other)
      then show ?thesis
        using \<open>rt_require_running e = Inr u\<close> mid e' mgr Inr reported_up_success [of _ now name m1]
        by (auto simp: start_backend_def try_then_def m1_def split: prod.splits sum.splits)
    qed
  qed
qed (simp add: start_backend_def try_then_def inv)

lemma er_inv_frame [simp]:
  "er_inv (e\<lparr> er_load_balancer := lb \<rparr>) = er_inv e"
  "er_inv (e\<lparr> er_active_capture_backend := ac \<rparr>) = er_inv e"
  "er_inv (e\<lparr> er_active_reinjection_backend := ar \<rparr>) = er_inv e"
  "er_inv (e\<lparr> er_shared := sh \<rparr>) = er_inv e"
  by (simp_all add: er_inv_def)

lemma er_inv_set_active [simp]:
  "er_inv (snd (set_active_capture_backend name e)) = er_inv e"
  "er_inv (snd (set_active_reinjection_backend name e)) = er_inv e"
  by (simp_all add: set_active_capture_backend_def set_active_reinjection_backend_def split: mutex.splits)

lemma er_inv_clear_active [keeps]:
  "er_inv e \<Longrightarrow> er_inv (snd (clear_active_capture name e))" "er_inv e \<Longrightarrow> er_inv (snd (clear_active_reinjection name e))"
  by (auto simp: clear_active_capture_def clear_active_reinjection_def try_then_def split: sum.splits)

lemma er_inv_clear_both:
  "er_inv e \<Longrightarrow> er_inv (snd (try_then (clear_active_capture name e) (\<lambda>_. clear_active_reinjection name)))"
  by (intro try_then_state [where P = er_inv]) (auto simp: keeps)

lemma er_inv_stop_backend [keeps]:
  assumes inv: "er_inv e"
  shows "er_inv (snd (stop_backend nr name e))"
proof (cases "rt_require_running e")
  case (Inr u)
  obtain r m where m: "bm_stop name (er_backend_manager e) = (r, m)" by fastforce
  show ?thesis
  proof (cases r)
    case (Inl err)
    then show ?thesis
      using Inr m reported_up_stop [of _ name "er_backend_manager e"] er_inv_manager [OF inv]
      by (auto simp: stop_backend_def try_then_def)
  next
    case (Inr u')
    note mid = mid_command [OF inv, of bm_stop name m] m [unfolded Inr]
    obtain r' e' where e': "stop_native nr name (e\<lparr> er_backend_manager := m \<rparr>) = (r', e')" by fastforce
    have mgr: "er_backend_manager e' = m" and other: "n \<noteq> name \<Longrightarrow> native_active n e' = native_active n e" for n
      using stop_native_manager [of nr name "e\<lparr> er_backend_manager := m \<rparr>"]
        stop_native_other [of n name nr "e\<lparr> er_backend_manager := m \<rparr>"] e' by simp_all
    show ?thesis
    proof (cases r')
      case (Inl err)
      then show ?thesis
        using \<open>rt_require_running e = Inr u\<close> mid e' mgr other
        by (auto simp: stop_backend_def try_then_def intro!: er_inv_native_failed)
    next
      case (Inr u'')
      have stopped: "reported_up n (snd (bm_mark_stopped name m)) \<Longrightarrow> n \<noteq> name \<and> reported_up n m" for n
        using reported_up_set_lifecycle [of n name Bl_Stopped m] mid by (auto simp: bm_mark_stopped_def)
      have "er_inv (e'\<lparr> er_backend_manager := snd (bm_mark_stopped name m) \<rparr>)"
        using mid other by (auto simp: er_inv_def dest!: stopped)
      then show ?thesis
        using \<open>rt_require_running e = Inr u\<close> mid e' mgr Inr
        by (auto simp: stop_backend_def try_then_def [of "(_, e\<lparr> er_backend_manager := _ \<rparr>)"] try_then_def [of "(_, e)"]
            try_then_def [of "(_, e'\<lparr> er_backend_manager := _ \<rparr>)"] split: prod.splits sum.splits intro!: er_inv_clear_both)
    qed
  qed
qed (simp add: stop_backend_def try_then_def inv)

lemma er_inv_restart_backend [keeps]: "er_inv e \<Longrightarrow> er_inv (snd (restart_backend now nr name e))"
  unfolding restart_backend_def by (intro try_then_state [where P = er_inv]) (auto simp: keeps intro!: try_then_state [where P = er_inv])

lemma er_inv_isolate [keeps]: "er_inv e \<Longrightarrow> er_inv (snd (isolate_failed_backend nr name e))"
  unfolding isolate_failed_backend_def by (intro try_then_state [where P = er_inv]) (auto simp: keeps)

lemma er_inv_register_backend [keeps]: "er_inv e \<Longrightarrow> er_inv (snd (register_backend d e))"
  using reported_up_register [of _ d "er_backend_manager e"]
  by (auto simp: register_backend_def try_then_def intro!: er_inv_manager split: sum.splits prod.splits)

lemma select_healthy_backends [simp]:
  "bm_backends (snd (select_healthy_backend_for_failover c failed m)) = bm_backends m"
  by (simp add: select_healthy_backend_for_failover_def split: sum.splits)

lemma reported_up_cong: "bm_backends m' = bm_backends m \<Longrightarrow> reported_up n m' = reported_up n m"
  by (simp add: reported_up_def)

lemma er_inv_switch_route:
  assumes "er_inv e" and "\<And>n e. er_inv (snd (set_active n e)) = er_inv e"
  shows "er_inv (snd (switch_route c what set_active failed e))"
proof -
  obtain found m where sel: "select_healthy_backend_for_failover c failed (er_backend_manager e) = (found, m)" by fastforce
  then have "bm_backends m = bm_backends (er_backend_manager e)"
    using select_healthy_backends [of c failed "er_backend_manager e"] by simp
  then have "er_inv (e\<lparr> er_backend_manager := m \<rparr>)"
    using assms(1) reported_up_cong [of m] by (auto intro: er_inv_manager)
  then show ?thesis
    using assms(2) by (auto simp: switch_route_def sel Let_def split: option.splits intro!: try_then_state [where P = er_inv])
qed

lemma er_inv_failover [keeps]:
  "er_inv e \<Longrightarrow> er_inv (snd (failover_capture_backend nr failed e))"
  "er_inv e \<Longrightarrow> er_inv (snd (failover_reinjection_backend nr failed e))"
  unfolding failover_capture_backend_def failover_reinjection_backend_def
  by (intro try_then_state [where P = er_inv]; simp add: keeps er_inv_switch_route)+

subsection \<open>Fail-over\<close>

lemma selected_candidate:
  assumes "select_from_candidates cs m = (Some n, m')"
  shows "n \<in> set cs" and "\<exists>k. m' = m\<lparr> bm_round_robin_cursor := k \<rparr>"
proof -
  have find: "or_first (List.find P cs) cs = Some n \<Longrightarrow> n \<in> set cs" "or_first None cs = Some n \<Longrightarrow> n \<in> set cs" for P
    by (auto simp: or_first_def find_Some_iff split: option.splits list.splits)
  have same: "\<exists>k. m = m\<lparr> bm_round_robin_cursor := k \<rparr>"
    by (rule exI [of _ "bm_round_robin_cursor m"]) simp
  show "n \<in> set cs" "\<exists>k. m' = m\<lparr> bm_round_robin_cursor := k \<rparr>"
    using assms same
    by (auto simp: select_from_candidates_def bm_failover_policy_of_def
        split: if_splits failover_policy.splits dest: find intro!: nth_mem)
qed

lemma selected_for_failover:
  assumes "select_healthy_backend_for_failover c failed m = (Some n, m')"
  shows "n \<noteq> failed" "bm_health n m' = Inr Health_Healthy" "bm_supports n c m' = Inr True" "reported_up n m'"
proof -
  have "select_from_candidates (filter (\<lambda>n. n \<noteq> failed) (find_healthy_capable_requirements m [requirement_required c])) m = (Some n, m')"
    using assms by (auto simp: select_healthy_backend_for_failover_def split: sum.splits if_splits)
  note sel = selected_candidate [OF this]
  from sel(2) obtain k where m': "m' = m\<lparr> bm_round_robin_cursor := k \<rparr>" by blast
  show "n \<noteq> failed" using sel(1) by simp
  have n: "capable_step m [requirement_required c] n" "is_healthy_in m n" "n \<in> set (bm_names m)"
    using sel(1) by (auto simp: find_healthy_capable_requirements_def find_capable_requirements_def)
  then have "\<not> bm_poisoned m" by (auto simp: bm_names_def split: if_splits)
  with n(1) obtain b where b: "hm_get n (bm_backends m) = Some b" "satisfies b [requirement_required c]"
    by (auto simp: capable_step_iff candidates_of_def)
  show "bm_health n m' = Inr Health_Healthy" using n(2) by (simp add: is_healthy_in_def bm_health_def bm_query_def m' split: if_splits)
  show "bm_supports n c m' = Inr True" "reported_up n m'"
    using b \<open>\<not> bm_poisoned m\<close>
    by (simp_all add: m' bm_supports_def bm_query_def satisfies_def requirement_required_def reported_up_def is_up_def br_is_available_def)
qed

lemma switch_route_ok:
  assumes "switch_route c what set_active failed e = (Inr alternative, e')"
  obtains m e2 where "select_healthy_backend_for_failover c failed (er_backend_manager e) = (Some alternative, m)"
    and "set_active (Some alternative) (e\<lparr> er_backend_manager := m \<rparr>) = (Inr (), e2)"
    and "e' = upd_statistics record_backend_failover e2"
proof -
  obtain found m where m: "select_healthy_backend_for_failover c failed (er_backend_manager e) = (found, m)"
    by fastforce
  with assms show thesis
    by (cases found) (auto simp: switch_route_def try_then_ok intro: that)
qed

text \<open>
  A running engine for the witnesses: WinDivert is running; Npcap was started and then failed by the
  health monitor.
\<close>

definition demo_replies :: native_replies where
  "demo_replies = \<lparr> nr_windivert_open = 5, nr_windivert_close = 1, nr_wfp_open = (0, 6), nr_wfp_sublayer_add = 0,
     nr_wfp_sublayer_delete = 0, nr_wfp_close = 0,
     nr_iphelper = \<lparr> sr_now = 0, sr_adapters = (\<lambda>_. (0, [])), sr_routes4 = (0, None), sr_routes6 = (0, None),
       sr_neighbors4 = (0, None), sr_neighbors6 = (0, None),
       sr_connections = \<lparr> cr_tcp4 = (0, 0, []), cr_tcp6 = (0, 0, []), cr_udp4 = (0, 0, []), cr_udp6 = (0, 0, []) \<rparr> \<rparr>,
     nr_etw = (0, 7) \<rparr>"

definition demo_base :: engine_runtime where
  "demo_base = (let e = runtime_of \<lparr> p_max_size = 4, p_buffer_capacity = 64, p_buffers = [], p_poisoned = False,
       p_allocated = 0, p_in_use = 0 \<rparr> 4 4 in
     (upd_state (snd (engine_init (er_state e))) e)\<lparr> er_initialized := True \<rparr>)"

definition demo_managed :: "string \<Rightarrow> backend_lifecycle \<Rightarrow> backend_health \<Rightarrow> managed_backend" where
  "demo_managed name l h = \<lparr> mb_runtime = (runtime_state_new (demo_backend name))\<lparr> br_lifecycle := l \<rparr>,
     mb_health = force_health h health_with_defaults \<rparr>"

definition demo_two :: backend_manager where
  "demo_two = backend_manager_new\<lparr> bm_backends :=
     [(''npcap'', demo_managed ''npcap'' Bl_Failed Health_Unhealthy),
      (''windivert'', demo_managed ''windivert'' Bl_Running Health_Healthy)] \<rparr>"

definition demo_runtime :: engine_runtime where
  "demo_runtime = demo_base\<lparr> er_backend_manager := demo_two,
     er_npcap_backend := Free (Some (snd (nb_start npcap_new))),
     er_windivert_backend := snd (start_slot ''WinDivert'' windivert_fresh (windivert_native_start demo_replies) (Free None)) \<rparr>"


lemmas runtime_command_defs = register_backend_def start_backend_def stop_backend_def native_failed_def try_then_def
  start_native_def stop_native_def start_slot_def stop_slot_def upd_statistics_def upd_state_def

lemma demo_base_facts:
  "rt_require_running demo_base = Inr ()" "er_backend_manager demo_base = backend_manager_new"
  "er_npcap_backend demo_base = Free None" "er_windivert_backend demo_base = Free None"
  "er_active_capture_backend demo_base = Free None" "er_inv demo_base"
proof -
  show "er_backend_manager demo_base = backend_manager_new"
    "er_npcap_backend demo_base = Free None" "er_windivert_backend demo_base = Free None"
    "er_active_capture_backend demo_base = Free None"
    by (simp_all add: demo_base_def runtime_of_def upd_state_def)
  then show "er_inv demo_base" by (simp add: er_inv_def reported_up_def backend_manager_new_def hm_get_def)
  show "rt_require_running demo_base = Inr ()"
    by (simp add: demo_base_def runtime_of_def upd_state_def rt_require_running_def runtime_require_running_def
        engine_init_def engine_state_new_def require_running_def engine_lifecycle_of_def)
qed

lemma demo_two_facts:
  "\<not> bm_poisoned demo_two" "hm_get ''npcap'' (bm_backends demo_two) = Some (demo_managed ''npcap'' Bl_Failed Health_Unhealthy)"
  "reported_up n demo_two \<Longrightarrow> n = ''windivert''"
  by (auto simp: demo_two_def backend_manager_new_def hm_get_def reported_up_def demo_managed_def split: if_splits)

lemma demo_runtime_native:
  "native_active ''npcap'' demo_runtime" "native_active ''windivert'' demo_runtime"
  by (simp_all add: demo_runtime_def native_active_def nb_start_def npcap_new_def slot_active_def npcap_active_def
      start_slot_def windivert_fresh_def windivert_config_new_def validate_filter_def trim_def is_whitespace_def
      windivert_native_start_def wh_open_def windivert_handle_new_def wh_can_open_def demo_replies_def windivert_active_def)

lemma demo_runtime_facts: "er_inv demo_runtime" "rt_require_running demo_runtime = Inr ()"
proof -
  show "er_inv demo_runtime"
    using demo_two_facts(3) demo_runtime_native by (auto simp: er_inv_def demo_runtime_def)
  show "rt_require_running demo_runtime = Inr ()"
    using demo_base_facts(1) by (simp add: rt_require_running_def demo_runtime_def)
qed


subsection \<open>A backend that the health monitor failed\<close>

lemma start_native_refuses:
  assumes "native_active name e" and "name \<in> {''npcap'', ''windivert'', ''wfp'', ''iphelper''}"
  shows "\<exists>err. start_native nr name e = (Inl err, e)"
proof -
  consider "name = ''npcap''" | "name = ''windivert''" | "name = ''wfp''" | "name = ''iphelper''"
    using assms(2) by blast
  then show ?thesis
  proof cases
    case 1
    then have "slot_active npcap_active (er_npcap_backend e)" using assms(1) by (simp add: native_active_def)
    from npcap_native.start_slot_refuses [OF this, of "''Npcap''" nr] 1 show ?thesis by (auto simp: start_native_def)
  next
    case 2
    then have "slot_active windivert_active (er_windivert_backend e)" using assms(1) by (simp add: native_active_def)
    from windivert_native.start_slot_refuses [OF this, of "''WinDivert''" nr] 2 show ?thesis by (auto simp: start_native_def)
  next
    case 3
    then have "slot_active wfp_active (er_wfp_backend e)" using assms(1) by (simp add: native_active_def)
    from wfp_native.start_slot_refuses [OF this, of "''WFP''" nr] 3 show ?thesis by (auto simp: start_native_def)
  next
    case 4
    then have "slot_active ihb_running (er_iphelper_backend e)" using assms(1) by (simp add: native_active_def)
    from iphelper_native.start_slot_refuses [OF this, of "''IP Helper''" nr] 4 show ?thesis by (auto simp: start_native_def)
  qed
qed

text \<open>
  A failed backend whose native instance is still active, as it is after the health monitor has
  failed a running backend, cannot be restarted: \<open>restart_backend\<close> only starts it, the native start
  is refused because the instance is active, and the lifecycle is \<open>Failed\<close> again.
\<close>

theorem failed_backend_cannot_restart:
  assumes "rt_require_running e = Inr ()" and "\<not> bm_poisoned (er_backend_manager e)"
    and "hm_get name (bm_backends (er_backend_manager e)) = Some b" and "lifecycle_of b = Bl_Failed"
    and "name \<in> {''npcap'', ''windivert'', ''wfp'', ''iphelper''}" and "native_active name e"
    and "restart_backend now nr name e = (r, e')"
  shows "(\<exists>err. r = Inl err) \<and> native_active name e' \<and>
    (\<exists>b'. hm_get name (bm_backends (er_backend_manager e')) = Some b' \<and> lifecycle_of b' = Bl_Failed)"
proof -
  define m where "m = snd (bm_start name (er_backend_manager e))"
  define b1 where "b1 = snd (mb_transition Bl_Starting b)"
  have tr: "mb_transition Bl_Starting b = (Inr (), b1)" "lifecycle_of b1 = Bl_Starting"
    using assms(4) by (auto simp: b1_def mb_transition_def br_transition_def bl_validate_transition_def bl_can_transition_to_def)
  have start: "bm_start name (er_backend_manager e) = (Inr (), m)" "hm_get name (bm_backends m) = Some b1" "\<not> bm_poisoned m"
    using assms(2-4) tr by (auto simp: m_def bm_start_def bm_modify_def mb_start_def bl_can_start_def hm_get_insert)
  obtain err where "start_native nr name (e\<lparr> er_backend_manager := m \<rparr>) = (Inl err, e\<lparr> er_backend_manager := m \<rparr>)"
    using start_native_refuses [of name "e\<lparr> er_backend_manager := m \<rparr>" nr] assms(5,6) by auto
  then have "restart_backend now nr name e = (Inl err, native_failed name (e\<lparr> er_backend_manager := m \<rparr>))"
    using assms(1-4) start
    by (simp add: restart_backend_def start_backend_def try_then_def bm_runtime_state_def bm_query_def)
  moreover have "\<exists>b'. hm_get name (bm_backends (snd (bm_set_lifecycle name Bl_Failed m))) = Some b' \<and> lifecycle_of b' = Bl_Failed"
    using start tr lifecycle_mb_set_lifecycle [of Bl_Failed b1]
    by (auto simp: bm_set_lifecycle_def bm_modify_def hm_get_insert bl_can_transition_to_def split: prod.splits)
  ultimately show ?thesis
    using assms(6,7) by (auto simp: native_failed_def split: prod.splits)
qed

theorem failed_backend_cannot_restart_witness:
  "\<exists>err. fst (restart_backend 3 demo_replies ''npcap'' demo_runtime) = Inl err"
  using failed_backend_cannot_restart [OF demo_runtime_facts(2) _ _ _ _ demo_runtime_native(1) prod.collapse [symmetric],
      of "demo_managed ''npcap'' Bl_Failed Health_Unhealthy" 3 demo_replies] demo_two_facts
  by (simp add: demo_runtime_def demo_managed_def)

end
