(* ===== verification/Engine_Packets.thy ===== *)
theory Engine_Packets
  imports Engine_Runtime
begin

text \<open>
  Packets at the border of the engine: how they enter it (\<open>crates/ffi/src/capture.rs\<close>: injection
  and the capture thread) and how it sends one back (\<open>windivert_reinject\<close> of \<open>engine.rs\<close>). What the
  driver answers is an argument.
\<close>

subsection \<open>Packets into the engine (\<open>capture.rs\<close>)\<close>

text \<open>The two counters after an attempt to publish.\<close>

definition count_publish :: "u64 \<Rightarrow> unit engine_result \<Rightarrow> engine_statistics \<Rightarrow> engine_statistics" where
  "count_publish byte_count r s = (case r of
      Inr _ \<Rightarrow> record_packet_received byte_count s
    | Inl err \<Rightarrow> if error_code err = EC_QueueFull then record_queue_saturation s else record_stat_error s)"

definition publish_counted :: "u64 \<Rightarrow> packet_observation \<Rightarrow> processing_shared \<Rightarrow> unit engine_result \<times> processing_shared" where
  "publish_counted byte_count obs s = (case publish_engine_owned obs (ps_bus s) of
      (r, b) \<Rightarrow> (r, s\<lparr> ps_bus := b, ps_statistics := count_publish byte_count r (ps_statistics s) \<rparr>))"

definition ingest_observation ::
  "timestamp \<Rightarrow> packet_observation \<Rightarrow> engine_runtime \<Rightarrow> unit engine_result \<times> engine_runtime" where
  "ingest_observation now obs e = (case rt_require_running e of
      Inl err \<Rightarrow> (Inl err, e)
    | Inr _ \<Rightarrow>
        let obs = obs\<lparr> ingestion_timestamp := now \<rparr> in
        if raw_bytes (obs_packet obs) = [] then
          (Inl (Error_Message EC_InvalidArgument ''observation carries an empty packet''), e)
        else if packet_length obs \<noteq> packet_len (obs_packet obs) then
          (Inl (Error_Message EC_InvalidArgument ''observation packet_length does not match packet bytes''), e)
        else case publish_counted (word_of_nat (min (packet_length obs) (2 ^ 64 - 1))) obs (er_shared e) of
          (r, s) \<Rightarrow> (r, e\<lparr> er_shared := s \<rparr>))"

definition show_bool :: "bool \<Rightarrow> string" where
  "show_bool b = (if b then ''true'' else ''false'')"

primrec direction_of :: "wd_packet_direction \<Rightarrow> direction" where
  "direction_of Wdp_Inbound = Inbound"
| "direction_of Wdp_Outbound = Outbound"

text \<open>The observation of an intercepted packet; its native context is the serialized address.\<close>

definition windivert_observation ::
  "timestamp \<Rightarrow> timestamp \<Rightarrow> u64 \<Rightarrow> intercepted_packet \<Rightarrow> packet_observation" where
  "windivert_observation now1 now2 oid p = (let address = ip_address p in
     with_provenance ''backend-windivert''
       (with_native_metadata ''impostor'' (show_bool (wda_is_impostor address))
       (with_native_metadata ''loopback'' (show_bool (wda_is_loopback address))
       (with_native_metadata ''layer'' (show_nat (unat (wda_layer address)))
       (with_native_context \<lparr> ncc_backend = Src_WinDivert, ncc_bytes = wda_to_bytes address \<rparr>
       (observation_new oid Src_WinDivert now1 now2 (direction_of (ip_direction p))
         (show_nat (unat (wda_interface_index address))) (packet_new (ip_data p))))))))"

definition ingest_windivert_packet ::
  "timestamp \<Rightarrow> timestamp \<Rightarrow> timestamp \<Rightarrow> u64 \<Rightarrow> intercepted_packet \<Rightarrow> engine_runtime \<Rightarrow> unit engine_result \<times> engine_runtime" where
  "ingest_windivert_packet now1 now2 now3 oid p e = ingest_observation now3 (windivert_observation now1 now2 oid p) e"

text \<open>One pass of the capture thread's loop, after its test of the stop flags.\<close>

type_synonym recv_reply = "int \<times> u32 \<times> windivert_address \<times> byte list"

definition capture_iteration ::
  "timestamp \<Rightarrow> timestamp \<Rightarrow> recv_reply \<Rightarrow> capture_thread \<Rightarrow> processing_shared \<Rightarrow> capture_thread \<times> processing_shared" where
  "capture_iteration now1 now2 reply t s = (case recv_packet reply (ct_backend t) of
      Inl _ \<Rightarrow> (t, s)
    | Inr p \<Rightarrow>
        (t\<lparr> ct_next_id := ct_next_id t + 1 \<rparr>,
         snd (publish_counted (word_of_nat (length (ip_data p))) (windivert_observation now1 now2 (ct_next_id t) p) s)))"

text \<open>The thread for a number of passes: what it reads of the flags, the clock and the driver.\<close>

primrec capture_worker_loop ::
  "(bool \<times> timestamp \<times> timestamp \<times> recv_reply) list \<Rightarrow> capture_thread \<Rightarrow> processing_shared \<Rightarrow> capture_thread \<times> processing_shared" where
  "capture_worker_loop [] t s = (t, s)"
| "capture_worker_loop (tick # ticks) t s = (case tick of (stop, now1, now2, reply) \<Rightarrow>
     if stop \<or> es_shutdown_requested (ps_state s) then (t, s)
     else case capture_iteration now1 now2 reply t s of (t', s') \<Rightarrow> capture_worker_loop ticks t' s')"

definition capture_start :: "native_replies \<Rightarrow> bool \<Rightarrow> engine_runtime \<Rightarrow> unit engine_result \<times> engine_runtime" where
  \<comment> \<open>the second argument says whether the thread could be spawned\<close>
  "capture_start nr spawned e = (case rt_require_running e of
      Inl err \<Rightarrow> (Inl err, e)
    | Inr _ \<Rightarrow> (case er_capture_thread e of
        Poisoned \<Rightarrow> (Inl (internal_error ''capture thread handle mutex poisoned''), e)
      | Free (Some _) \<Rightarrow> (Inr (), e)
      | Free None \<Rightarrow> (case active_capture_backend e of
          Inl err \<Rightarrow> (Inl err, e)
        | Inr active \<Rightarrow>
            let backend_name = (case active of Some name \<Rightarrow> name | None \<Rightarrow> ''windivert'') in
            if backend_name \<noteq> ''windivert'' then
              (Inl (Error_Message EC_CapabilityUnavailable
                (''capture backend '' @ quoted backend_name @ '' has no connected Engine capture worker'')), e)
            else case windivert_fresh of
              Inl err \<Rightarrow> (Inl err, e)
            | Inr handle \<Rightarrow> (case wh_open (nr_windivert_open nr) handle of
                (Inl err, _, _) \<Rightarrow> (Inl (Error_Message EC_BackendStartFailed
                  (''WinDivert capture handle failed to open: '' @ debug_windivert_error err)), e)
              | (Inr _, backend, _) \<Rightarrow>
                  let e = e\<lparr> er_capture_stop := False \<rparr> in
                  if \<not> spawned then (Inl (internal_error ''failed to spawn capture worker''), e)
                  else (Inr (), e\<lparr> er_capture_thread := Free (Some \<lparr> ct_backend = backend, ct_next_id = 1 \<rparr>) \<rparr>)))))"

text \<open>
  \<open>capture_stop\<close> raises the flag and joins the thread: the passes the thread still makes are the
  argument, of which the loop makes at most the one it has already begun.
\<close>

definition capture_stop :: "(timestamp \<times> timestamp \<times> recv_reply) option \<Rightarrow> engine_runtime \<Rightarrow> unit engine_result \<times> engine_runtime" where
  "capture_stop in_flight e = (let e = e\<lparr> er_capture_stop := True \<rparr> in
     case er_capture_thread e of
       Poisoned \<Rightarrow> (Inl (internal_error ''capture thread handle mutex poisoned''), e)
     | Free None \<Rightarrow> (Inr (), e)
     | Free (Some t) \<Rightarrow>
         let s = (case in_flight of
             None \<Rightarrow> er_shared e
           | Some (now1, now2, reply) \<Rightarrow> snd (capture_iteration now1 now2 reply t (er_shared e))) in
         (Inr (), e\<lparr> er_capture_thread := Free None, er_shared := s \<rparr>))"

subsection \<open>Sending a packet back (\<open>engine.rs\<close>)\<close>

type_synonym checksum_fun = "byte list \<Rightarrow> windivert_address \<Rightarrow> int \<times> byte list \<times> windivert_address"

definition map_reinject_error :: "windivert_error + unit \<Rightarrow> unit engine_result" where
  "map_reinject_error r = (case r of
      Inr _ \<Rightarrow> Inr ()
    | Inl err \<Rightarrow> Inl (Error_Message (if err = Wd_InvalidOperation then EC_InvalidArgument else EC_ReinjectionFailed)
        (''WinDivert reinjection failed: '' @ debug_windivert_error err)))"

text \<open>The action handle is opened on first use, for sending only.\<close>

definition action_handle :: "native_replies \<Rightarrow> windivert_handle option \<Rightarrow> windivert_handle engine_result" where
  "action_handle nr slot = (case slot of
      Some h \<Rightarrow> Inr h
    | None \<Rightarrow> (case windivert_config_new ''true'' Wl_Network of
        Inl _ \<Rightarrow> Inl (Error_Code EC_BackendInitFailed)
      | Inr config \<Rightarrow> (case wh_open (nr_windivert_open nr) (windivert_handle_new (config\<lparr> wdc_send_only := True \<rparr>)) of
          (Inl err, _, _) \<Rightarrow> Inl (Error_Message EC_ReinjectionFailed
            (''WinDivert action handle failed to open: '' @ debug_windivert_error err))
        | (Inr _, h, _) \<Rightarrow> Inr h)))"

definition windivert_reinject ::
  "native_replies \<Rightarrow> checksum_fun \<Rightarrow> int \<times> u32 \<Rightarrow> byte list \<Rightarrow> byte list \<Rightarrow> engine_runtime \<Rightarrow>
   unit engine_result \<times> engine_runtime \<times> (byte list \<times> windivert_address) list" where
  "windivert_reinject nr checksums send bytes context e = (case rt_require_running e of
      Inl err \<Rightarrow> (Inl err, e, [])
    | Inr _ \<Rightarrow>
     if bytes = [] then (Inl (Error_Code EC_InvalidArgument), e, [])
     else case active_reinjection_backend e of
       Inl err \<Rightarrow> (Inl err, e, [])
     | Inr None \<Rightarrow> (Inl (Error_Message EC_CapabilityUnavailable ''no active reinjection backend is selected''), e, [])
     | Inr (Some backend_name) \<Rightarrow>
     (case bm_supports backend_name Cap_Reinjection (er_backend_manager e) of
       Inl err \<Rightarrow> (Inl err, e, [])
     | Inr False \<Rightarrow> (Inl (Error_Message EC_CapabilityUnavailable
         (''active reinjection backend '' @ quoted backend_name @ '' does not provide reinjection'')), e, [])
     | Inr True \<Rightarrow>
     if backend_name \<noteq> ''windivert'' then
       (Inl (Error_Message EC_CapabilityUnavailable
         (''active reinjection backend '' @ quoted backend_name @ '' has no Engine action executor'')), e, [])
     else case er_windivert_action e of
       Poisoned \<Rightarrow> (Inl (internal_error ''WinDivert action mutex poisoned''), e, [])
     | Free slot \<Rightarrow> (case action_handle nr slot of
         Inl err \<Rightarrow> (Inl err, e, [])
       | Inr h \<Rightarrow> (case reinject_with_context checksums send h bytes context of
           (r, sent) \<Rightarrow> (map_reinject_error r, e\<lparr> er_windivert_action := Free (Some h) \<rparr>, sent)))))"

end
