(* ===== verification/Packet_Api.thy ===== *)
theory Packet_Api
  imports Engine_Packets
begin

text \<open>
  The packet functions of the C interface (\<open>crates/ffi/src/api.rs\<close>) with the handle table
  (\<open>handles.rs\<close>), the error codes (\<open>errors.rs\<close>) and the last error message. The state holds the
  static variables of the crate. A function returns its \<open>c_int\<close>, what it wrote through its pointer, and the
  packets it sent through the driver.
\<close>

subsection \<open>Error codes\<close>

definition ne_ok :: int where "ne_ok = 0"
definition ne_invalid_argument :: int where "ne_invalid_argument = -1"
definition ne_invalid_handle :: int where "ne_invalid_handle = -2"
definition ne_not_initialized :: int where "ne_not_initialized = -3"
definition ne_already_initialized :: int where "ne_already_initialized = -4"
definition ne_backend_unavailable :: int where "ne_backend_unavailable = -5"
definition ne_queue_full :: int where "ne_queue_full = -6"
definition ne_buffer_exhausted :: int where "ne_buffer_exhausted = -7"
definition ne_action_failed :: int where "ne_action_failed = -8"
definition ne_shutdown :: int where "ne_shutdown = -9"
definition ne_internal :: int where "ne_internal = -10"

lemmas ne_codes = ne_ok_def ne_invalid_argument_def ne_invalid_handle_def ne_not_initialized_def
  ne_already_initialized_def ne_backend_unavailable_def ne_queue_full_def ne_buffer_exhausted_def
  ne_action_failed_def ne_shutdown_def ne_internal_def

definition code_to_c :: "engine_error_code \<Rightarrow> int" where
  "code_to_c c =
     (if c \<in> {EC_InvalidArgument, EC_NullPointer, EC_BufferTooSmall, EC_IntegerOverflow} then ne_invalid_argument
      else if c \<in> {EC_InvalidHandle, EC_HandleReleased, EC_HandleTypeMismatch} then ne_invalid_handle
      else if c = EC_NotInitialized then ne_not_initialized
      else if c = EC_AlreadyInitialized then ne_already_initialized
      else if c \<in> {EC_BackendUnavailable, EC_BackendNotFound, EC_BackendAlreadyRegistered, EC_BackendAlreadyRunning,
          EC_BackendNotRunning, EC_BackendStartFailed, EC_BackendStopFailed, EC_BackendInitializationFailed,
          EC_BackendShutdownFailed, EC_BackendDegraded, EC_CapabilityUnavailable, EC_CapabilityNotSupported}
        then ne_backend_unavailable
      else if c \<in> {EC_QueueFull, EC_Backpressure} then ne_queue_full
      else if c \<in> {EC_BufferExhausted, EC_ResourceExhausted} then ne_buffer_exhausted
      else if c \<in> {EC_ActionNotSupported, EC_ActionFailed, EC_PassFailed, EC_DropFailed, EC_ModifyFailed, EC_ReinjectionFailed}
        then ne_action_failed
      else if c \<in> {EC_ShutdownInProgress, EC_AlreadyShutdown} then ne_shutdown
      else ne_internal)"

definition result_to_c :: "'a engine_result \<Rightarrow> int" where
  "result_to_c r = (case r of Inr _ \<Rightarrow> ne_ok | Inl err \<Rightarrow> code_to_c (error_code err))"

subsection \<open>The static state\<close>

record ffi_state =
  g_engine :: "engine_runtime option mutex"
  g_handles :: "(u64, packet_observation) hash_map mutex"
  g_handle_counter :: u64
  g_next_injected_id :: u64
  g_last_error :: "string mutex"

definition ffi_initial :: ffi_state where
  "ffi_initial = \<lparr> g_engine = Free None, g_handles = Free [], g_handle_counter = 1, g_next_injected_id = 1,
     g_last_error = Free ''OK'' \<rparr>"

definition set_last_error :: "string \<Rightarrow> ffi_state \<Rightarrow> ffi_state" where
  "set_last_error message g = (case g_last_error g of Free _ \<Rightarrow> g\<lparr> g_last_error := Free message \<rparr> | Poisoned \<Rightarrow> g)"

definition error_to_c :: "engine_error \<Rightarrow> ffi_state \<Rightarrow> int \<times> ffi_state" where
  "error_to_c err g = (code_to_c (error_code err), set_last_error (error_message err) g)"

abbreviation report :: "int \<Rightarrow> string \<Rightarrow> ffi_state \<Rightarrow> int \<times> ffi_state" where
  "report code message g \<equiv> (code, set_last_error message g)"

abbreviation upd_engine :: "engine_runtime \<Rightarrow> ffi_state \<Rightarrow> ffi_state" where
  "upd_engine e g \<equiv> g\<lparr> g_engine := Free (Some e) \<rparr>"

text \<open>The loop skips the value 0, which the counter takes when it wraps; the next value is 1.\<close>

definition next_handle :: "ffi_state \<Rightarrow> u64 \<times> ffi_state" where
  "next_handle g = (let h = g_handle_counter g; g = g\<lparr> g_handle_counter := h + 1 \<rparr> in
     if h \<noteq> 0 then (h, g) else (h + 1, g\<lparr> g_handle_counter := h + 1 + 1 \<rparr>))"

definition next_injected_observation_id :: "ffi_state \<Rightarrow> u64 \<times> ffi_state" where
  "next_injected_observation_id g = (g_next_injected_id g, g\<lparr> g_next_injected_id := g_next_injected_id g + 1 \<rparr>)"

subsection \<open>Handles\<close>

definition observation_context_for_windivert :: "packet_observation \<Rightarrow> byte list option" where
  "observation_context_for_windivert obs = (case native_context obs of
      None \<Rightarrow> None
    | Some context \<Rightarrow> if ncc_backend context = Src_WinDivert then Some (ncc_bytes context) else None)"

definition restore_packet_handle :: "u64 \<Rightarrow> packet_observation \<Rightarrow> ffi_state \<Rightarrow> int \<times> ffi_state" where
  "restore_packet_handle h obs g = (case g_handles g of
      Poisoned \<Rightarrow> report ne_internal ''packet handle mutex poisoned while restoring ownership'' g
    | Free handles \<Rightarrow>
        let g' = g\<lparr> g_handles := Free (hm_insert h obs handles) \<rparr> in
        if hm_contains h handles then report ne_internal ''packet handle collision while restoring ownership'' g'
        else (ne_ok, g'))"

definition take_packet_handle :: "u64 \<Rightarrow> ffi_state \<Rightarrow> (int + packet_observation) \<times> ffi_state" where
  "take_packet_handle h g =
     (if h = 0 then (Inl ne_invalid_handle, set_last_error ''invalid packet handle'' g)
      else case g_handles g of
        Poisoned \<Rightarrow> (Inl ne_internal, set_last_error ''packet handle mutex poisoned'' g)
      | Free handles \<Rightarrow> (case hm_get h handles of
          None \<Rightarrow> (Inl ne_invalid_handle, set_last_error ''invalid or released packet handle'' g)
        | Some obs \<Rightarrow> (Inr obs, g\<lparr> g_handles := Free (hm_remove h handles) \<rparr>)))"

definition release_host_observation ::
  "packet_observation \<Rightarrow> engine_runtime \<Rightarrow> ffi_state \<Rightarrow> (int + unit) \<times> engine_runtime \<times> ffi_state" where
  "release_host_observation obs e g = (case release_host (observation_id obs) (er_bus e) of
      (Inr _, b) \<Rightarrow> (Inr (), upd_bus b e, g)
    | (Inl err, b) \<Rightarrow> (case error_to_c err g of (code, g) \<Rightarrow> (Inl code, upd_bus b e, g)))"

text \<open>Give the observation back to its handle and report the code, or the failure to do so.\<close>

definition restore_and :: "u64 \<Rightarrow> packet_observation \<Rightarrow> (ffi_state \<Rightarrow> int \<times> ffi_state) \<Rightarrow> ffi_state \<Rightarrow> int \<times> ffi_state" where
  "restore_and h obs finish g = (case restore_packet_handle h obs g of
      (restore, g) \<Rightarrow> if restore = ne_ok then finish g else (restore, g))"

text \<open>Lock the engine while a handle is taken out.\<close>

definition with_engine_or_restore ::
  "u64 \<Rightarrow> packet_observation \<Rightarrow> (engine_runtime \<Rightarrow> ffi_state \<Rightarrow> int \<times> ffi_state) \<Rightarrow> ffi_state \<Rightarrow> int \<times> ffi_state" where
  "with_engine_or_restore h obs f g = (case g_engine g of
      Poisoned \<Rightarrow> restore_and h obs (report ne_internal ''engine mutex poisoned'') g
    | Free None \<Rightarrow> restore_and h obs (report ne_not_initialized ''engine is not initialized'') g
    | Free (Some e) \<Rightarrow> f e g)"

text \<open>Release the host's ownership; on success continue with the engine, otherwise restore the handle.\<close>

definition release_or_restore ::
  "u64 \<Rightarrow> packet_observation \<Rightarrow> (engine_statistics \<Rightarrow> engine_statistics) \<Rightarrow> engine_runtime \<Rightarrow> ffi_state \<Rightarrow> int \<times> ffi_state" where
  "release_or_restore h obs count_stat e g = (case release_host_observation obs e g of
      (Inl code, e, g) \<Rightarrow> restore_and h obs (\<lambda>g. (code, g)) (upd_engine e g)
    | (Inr _, e, g) \<Rightarrow> report ne_ok ''OK'' (upd_engine (upd_statistics count_stat e) g))"

definition terminal_drop :: "u64 \<Rightarrow> ffi_state \<Rightarrow> int \<times> ffi_state" where
  "terminal_drop h g = (case take_packet_handle h g of
      (Inl code, g) \<Rightarrow> (code, g)
    | (Inr obs, g) \<Rightarrow> with_engine_or_restore h obs (release_or_restore h obs (record_drop Drop_HostRequested)) g)"

definition packet_drop :: "u64 \<Rightarrow> ffi_state \<Rightarrow> int \<times> ffi_state" where
  "packet_drop = terminal_drop"

definition packet_release :: "u64 \<Rightarrow> ffi_state \<Rightarrow> int \<times> ffi_state" where
  "packet_release h g = (case take_packet_handle h g of
      (Inl code, g) \<Rightarrow> (code, g)
    | (Inr obs, g) \<Rightarrow> with_engine_or_restore h obs (release_or_restore h obs id) g)"

subsection \<open>Actions that send\<close>

text \<open>What the driver answers when a packet is sent.\<close>

record send_replies =
  sd_native :: native_replies
  sd_checksums :: checksum_fun
  sd_send :: "int \<times> u32"

type_synonym sent = "(byte list \<times> windivert_address) list"

text \<open>The common body of \<open>packet_pass\<close>, \<open>packet_modify\<close> and \<open>packet_reinject\<close>.\<close>

definition send_handle ::
  "send_replies \<Rightarrow> (packet_observation \<Rightarrow> byte list) \<Rightarrow> (engine_statistics \<Rightarrow> engine_statistics) \<Rightarrow> u64 \<Rightarrow> ffi_state \<Rightarrow>
   (int \<times> ffi_state) \<times> sent" where
  "send_handle sr bytes_of count_stat h g = (case take_packet_handle h g of
      (Inl code, g) \<Rightarrow> ((code, g), [])
    | (Inr obs, g) \<Rightarrow> (case observation_context_for_windivert obs of
        None \<Rightarrow> (restore_and h obs (\<lambda>g. (ne_action_failed, g))
            (set_last_error ''packet has no native WinDivert action context'' g), [])
      | Some context \<Rightarrow> (case g_engine g of
          Free (Some e) \<Rightarrow>
            (case windivert_reinject (sd_native sr) (sd_checksums sr) (sd_send sr) (bytes_of obs) context e of
               (Inr _, e, sent) \<Rightarrow> (release_or_restore h obs count_stat e g, sent)
             | (Inl err, e, sent) \<Rightarrow> (restore_and h obs (error_to_c err) (upd_engine e g), sent))
        | _ \<Rightarrow> (with_engine_or_restore h obs (\<lambda>e g. (ne_ok, g)) g, []))))"

definition packet_pass :: "send_replies \<Rightarrow> u64 \<Rightarrow> ffi_state \<Rightarrow> (int \<times> ffi_state) \<times> sent" where
  "packet_pass sr h g = send_handle sr (\<lambda>obs. raw_bytes (obs_packet obs)) record_forwarded h g"

definition packet_reinject :: "send_replies \<Rightarrow> u64 \<Rightarrow> ffi_state \<Rightarrow> (int \<times> ffi_state) \<times> sent" where
  "packet_reinject sr h g = send_handle sr (\<lambda>obs. raw_bytes (obs_packet obs)) record_forwarded h g"

text \<open>\<open>None\<close> is a null pointer; the list is what it points to.\<close>

definition packet_modify :: "send_replies \<Rightarrow> u64 \<Rightarrow> byte list option \<Rightarrow> ffi_state \<Rightarrow> (int \<times> ffi_state) \<times> sent" where
  "packet_modify sr h p g = (case p of
      None \<Rightarrow> (report ne_invalid_argument ''invalid modified packet input'' g, [])
    | Some modified \<Rightarrow>
        if modified = [] then (report ne_invalid_argument ''invalid modified packet input'' g, [])
        else send_handle sr (\<lambda>_. modified) (\<lambda>s. record_modification (record_forwarded s)) h g)"

definition packet_action :: "send_replies \<Rightarrow> u64 \<Rightarrow> int \<Rightarrow> ffi_state \<Rightarrow> (int \<times> ffi_state) \<times> sent" where
  "packet_action sr h a g =
     (if a = 0 then packet_pass sr h g
      else if a = 1 then (packet_drop h g, [])
      else if a = 2 then (report ne_invalid_argument ''MODIFY requires packet_modify(data, len)'' g, [])
      else if a = 3 then packet_reinject sr h g
      else (report ne_invalid_argument ''invalid packet action'' g, []))"

subsection \<open>Injection and reading\<close>

definition inject_source :: "int \<Rightarrow> backend_source option" where
  "inject_source s = (if s = 0 then Some Src_WinDivert else if s = 1 then Some Src_Npcap else if s = 2 then Some Src_Wfp else None)"

definition inject_direction :: "int \<Rightarrow> direction option" where
  "inject_direction d = (if d = 0 then Some Inbound else if d = 1 then Some Outbound else None)"

definition packet_inject ::
  "timestamp \<times> timestamp \<times> timestamp \<Rightarrow> byte list option \<Rightarrow> int \<Rightarrow> int \<Rightarrow> u32 \<Rightarrow> ffi_state \<Rightarrow> int \<times> ffi_state" where
  "packet_inject now p s d i g = (case p of
      None \<Rightarrow> report ne_invalid_argument ''invalid packet input'' g
    | Some bytes \<Rightarrow>
        if bytes = [] then report ne_invalid_argument ''invalid packet input'' g
        else case inject_source s of
          None \<Rightarrow> report ne_invalid_argument ''invalid backend source'' g
        | Some source \<Rightarrow> (case inject_direction d of
            None \<Rightarrow> report ne_invalid_argument ''invalid packet direction'' g
          | Some dir \<Rightarrow> (case now of (now1, now2, now3) \<Rightarrow> (case next_injected_observation_id g of
              (oid, g) \<Rightarrow>
                let obs = observation_new oid source now1 now2 dir (show_nat (unat i)) (packet_new bytes) in
                case g_engine g of
                  Poisoned \<Rightarrow> report ne_internal ''engine mutex poisoned'' g
                | Free None \<Rightarrow> report ne_not_initialized ''engine is not initialized'' g
                | Free (Some e) \<Rightarrow> (case ingest_observation now3 obs e of
                    (Inr _, e) \<Rightarrow> report ne_ok ''OK'' (upd_engine e g)
                  | (Inl err, e) \<Rightarrow> error_to_c err (upd_engine e g))))))"

primrec source_as_c :: "backend_source \<Rightarrow> int" where
  "source_as_c Src_Wfp = 0"
| "source_as_c Src_WinDivert = 1"
| "source_as_c Src_Npcap = 2"
| "source_as_c Src_IpHelper = 3"
| "source_as_c Src_Etw = 4"
| "source_as_c Src_Unknown = 5"

primrec direction_as_c :: "direction \<Rightarrow> int" where
  "direction_as_c Inbound = 0"
| "direction_as_c Outbound = 1"
| "direction_as_c Direction_Unknown = 2"

text \<open>The descriptor written for the host; \<open>data\<close> points to the bytes in the handle table.\<close>

record ne_packet_descriptor =
  npd_packet_handle :: u64
  npd_data :: "byte list"
  npd_len :: u32
  npd_backend_source :: int
  npd_direction :: int

definition descriptor_of :: "u64 \<Rightarrow> packet_observation \<Rightarrow> ne_packet_descriptor" where
  "descriptor_of h obs = \<lparr> npd_packet_handle = h, npd_data = raw_bytes (obs_packet obs),
     npd_len = word_of_nat (packet_len (obs_packet obs)), npd_backend_source = source_as_c (backend_source obs),
     npd_direction = direction_as_c (obs_direction obs) \<rparr>"

text \<open>
  Give an observation back to the queue after an error. A new handle is inserted before ownership
  is transferred and removed again when the transfer fails.
\<close>

definition requeue_and :: "packet_observation \<Rightarrow> engine_runtime \<Rightarrow> ffi_state \<Rightarrow> ffi_state" where
  "requeue_and obs e g = upd_engine (upd_bus (snd (requeue_processing obs (er_bus e))) e) g"

definition hand_over ::
  "packet_observation \<Rightarrow> engine_runtime \<Rightarrow> ffi_state \<Rightarrow> (int \<times> ffi_state) \<times> ne_packet_descriptor option" where
  "hand_over obs e g = (case next_handle g of (h, g) \<Rightarrow> (case g_handles g of
      Poisoned \<Rightarrow> (report ne_internal ''packet handle mutex poisoned'' (requeue_and obs e g), None)
    | Free handles \<Rightarrow>
        if hm_contains h handles then (report ne_internal ''packet handle collision'' (requeue_and obs e g), None)
        else case transfer_to_host (observation_id obs) (er_bus e) of
          (Inl err, b) \<Rightarrow> (error_to_c err (requeue_and obs (upd_bus b e) g), None)
        | (Inr _, b) \<Rightarrow>
            (report ne_ok ''OK'' (upd_engine (upd_bus b e) (g\<lparr> g_handles := Free (hm_insert h obs handles) \<rparr>)),
             Some (descriptor_of h obs))))"

text \<open>
  A panic of the packet parser would unwind out of the function. The branch of the source for a
  handle that is missing right after its insertion under the same lock is not reached.
\<close>

definition packet_read ::
  "observation_hash \<Rightarrow> u64 \<Rightarrow> bool \<Rightarrow> ffi_state \<Rightarrow> (unit, (int \<times> ffi_state) \<times> ne_packet_descriptor option) outcome" where
  "packet_read hash now p_null g =
     (if p_null then Ok (report ne_invalid_argument ''invalid packet descriptor pointer'' g, None)
      else case g_engine g of
        Poisoned \<Rightarrow> Ok (report ne_internal ''engine mutex poisoned'' g, None)
      | Free None \<Rightarrow> Ok (report ne_not_initialized ''engine is not initialized'' g, None)
      | Free (Some e) \<Rightarrow> (case try_read (er_bus e) of
          (Inl err, b) \<Rightarrow> Ok (error_to_c err (upd_engine (upd_bus b e) g), None)
        | (Inr None, b) \<Rightarrow> Ok (report ne_queue_full ''packet queue is empty'' (upd_engine (upd_bus b e) g), None)
        | (Inr (Some obs), b) \<Rightarrow>
            (case process_observation (er_initialized e) hash now obs (er_shared (upd_bus b e)) of
               (Panic, s) \<Rightarrow> Panic
             | (Err err, s) \<Rightarrow> Ok (error_to_c err (requeue_and obs (e\<lparr> er_shared := s \<rparr>) g), None)
             | (Ok _, s) \<Rightarrow>
                 if packet_len (obs_packet obs) > 2 ^ 32 - 1 then
                   Ok (report ne_buffer_exhausted ''packet is too large for C ABI length'' (requeue_and obs (e\<lparr> er_shared := s \<rparr>) g), None)
                 else Ok (hand_over obs (e\<lparr> er_shared := s \<rparr>) g))))"

subsection \<open>What the host owns\<close>

definition host_ids :: "packet_bus \<Rightarrow> observation_id set" where
  "host_ids b = {i. hm_get i (bus_ownership b) = Some (owner_as_u8 Own_Host)}"

lemma host_ids_publish: "host_ids (snd (publish_engine_owned obs b)) = host_ids b"
  by (auto simp: host_ids_def publish_eq [unfolded publish_def] hm_get_insert simp del: owner_as_u8.simps
      split: prod.splits sum.splits)

lemma host_ids_try_read: "bus_inv b \<Longrightarrow> host_ids (snd (try_read b)) = host_ids b"
  using bus_inv_head [of b]
  by (auto simp: host_ids_def try_read_eq hm_get_insert simp del: owner_as_u8.simps split: list.splits)

lemma host_ids_requeue: "bus_inv b \<Longrightarrow> host_ids (snd (requeue_processing obs b)) = host_ids b"
  by (auto simp: host_ids_def requeue_processing_eq [OF _ refl] hm_get_insert simp del: owner_as_u8.simps
      split: option.splits prod.splits sum.splits)

lemma host_ids_release_processing: "bus_inv b \<Longrightarrow> host_ids (snd (release_processing i b)) = host_ids b"
  using bus_inv_locks [of b]
  by (auto simp: host_ids_def release_processing_def release_from_eq hm_get_remove bus_inv_def simp del: owner_as_u8.simps
      split: option.splits)

lemma transfer_to_host_cases:
  assumes "bus_inv b"
  obtains (ok) b' where "transfer_to_host i b = (Inr (), b')" "i \<notin> host_ids b" "host_ids b' = insert i (host_ids b)" "bus_inv b'"
    | (refused) err where "transfer_to_host i b = (Inl err, b)"
proof (cases "hm_get i (bus_ownership b) = Some (owner_as_u8 Own_Processing)")
  case True
  let ?b = "b\<lparr> bus_ownership := hm_insert i (owner_as_u8 Own_Host) (bus_ownership b) \<rparr>"
  have "transfer_to_host i b = (Inr (), ?b)"
    using bus_inv_locks [OF assms] True by (simp add: transfer_to_host_def bus_transfer_eq del: owner_as_u8.simps)
  moreover have "i \<notin> host_ids b" "host_ids ?b = insert i (host_ids b)"
    using True by (auto simp: host_ids_def hm_get_insert simp del: owner_as_u8.simps)
  moreover have "bus_inv (snd (transfer_to_host i b))"
    using assms by (simp add: transfer_to_host_def keeps)
  ultimately show thesis by (intro ok) simp_all
next
  case False
  then show thesis
    using bus_inv_locks [OF assms] refused
    by (cases "hm_get i (bus_ownership b)") (auto simp: transfer_to_host_def bus_transfer_eq simp del: owner_as_u8.simps)
qed

lemma release_host_held:
  assumes "bus_inv b" and "i \<in> host_ids b"
  shows "release_host i b = (Inr (), snd (release_host i b))"
    and "host_ids (snd (release_host i b)) = host_ids b - {i}"
    and "hm_get i (bus_ownership (snd (release_host i b))) = None"
  using bus_inv_locks [OF assms(1)] assms
  by (auto simp: host_ids_def release_host_def release_from_eq hm_get_remove bus_inv_def simp del: owner_as_u8.simps)

subsection \<open>The handle table\<close>

text \<open>
  The invariant: no mutex is poisoned, and while there is an engine, the handles are exactly the
  packets the host owns: each handle is nonzero and names an observation that the bus records as
  owned by the host, no two handles name the same observation, and each such observation has a handle.
\<close>

definition handles_ok :: "(u64, packet_observation) hash_map \<Rightarrow> packet_bus \<Rightarrow> bool" where
  "handles_ok hs b \<longleftrightarrow> bus_inv b \<and> hm_wf hs \<and> hm_get 0 hs = None \<and>
     (\<forall>h obs. hm_get h hs = Some obs \<longrightarrow> observation_id obs \<in> host_ids b) \<and>
     (\<forall>h h' obs obs'. hm_get h hs = Some obs \<longrightarrow> hm_get h' hs = Some obs' \<longrightarrow> observation_id obs = observation_id obs' \<longrightarrow> h = h') \<and>
     (\<forall>i \<in> host_ids b. \<exists>h obs. hm_get h hs = Some obs \<and> observation_id obs = i)"

definition ffi_inv :: "ffi_state \<Rightarrow> bool" where
  "ffi_inv g = (case (g_engine g, g_handles g) of
      (Free (Some e), Free hs) \<Rightarrow> handles_ok hs (er_bus e)
    | (Free None, Free hs) \<Rightarrow> hs = []
    | _ \<Rightarrow> False)"

lemma handles_ok_same_host:
  "handles_ok hs b \<Longrightarrow> bus_inv b' \<Longrightarrow> host_ids b' = host_ids b \<Longrightarrow> handles_ok hs b'"
  by (simp add: handles_ok_def)

lemma handles_ok_insert:
  assumes "handles_ok hs b" and "hm_get h hs = None" and "h \<noteq> 0" and "observation_id obs \<notin> host_ids b"
    and "bus_inv b'" and "host_ids b' = insert (observation_id obs) (host_ids b)"
  shows "handles_ok (hm_insert h obs hs) b'"
  using assms by (auto simp: handles_ok_def hm_get_insert hm_wf_insert) metis+

lemma handles_ok_remove:
  assumes "handles_ok hs b" and "hm_get h hs = Some obs"
    and "bus_inv b'" and "host_ids b' = host_ids b - {observation_id obs}"
  shows "handles_ok (hm_remove h hs) b'"
proof -
  have wf: "hm_wf hs" "hm_get 0 hs = None"
    and held: "hm_get k hs = Some o1 \<Longrightarrow> observation_id o1 \<in> host_ids b"
    and inj: "hm_get k hs = Some o1 \<Longrightarrow> hm_get k' hs = Some o2 \<Longrightarrow> observation_id o1 = observation_id o2 \<Longrightarrow> k = k'"
    and surj: "i \<in> host_ids b \<Longrightarrow> \<exists>k o1. hm_get k hs = Some o1 \<and> observation_id o1 = i" for k k' o1 o2 i
    using assms(1) unfolding handles_ok_def by blast+
  show ?thesis
    unfolding handles_ok_def
  proof (intro conjI allI impI ballI)
    fix k o1 assume "hm_get k (hm_remove h hs) = Some o1"
    then have "k \<noteq> h" "hm_get k hs = Some o1" by (simp_all add: hm_get_remove split: if_splits)
    then show "observation_id o1 \<in> host_ids b'"
      using held [of k o1] inj [of k o1 h obs] assms(2,4) by auto
  next
    fix i assume "i \<in> host_ids b'"
    then obtain k o1 where "hm_get k hs = Some o1" "observation_id o1 = i" "i \<noteq> observation_id obs"
      using surj [of i] assms(4) by auto
    then show "\<exists>k o1. hm_get k (hm_remove h hs) = Some o1 \<and> observation_id o1 = i"
      using assms(2) by (intro exI [of _ k] exI [of _ o1]) (auto simp: hm_get_remove)
  qed (use wf inj assms(3) in \<open>auto simp: hm_get_remove hm_wf_remove split: if_splits\<close>)
qed

definition handle_of :: "ffi_state \<Rightarrow> u64 \<Rightarrow> packet_observation option" where
  "handle_of g h = (case g_handles g of Free hs \<Rightarrow> hm_get h hs | Poisoned \<Rightarrow> None)"

definition bus_of :: "ffi_state \<Rightarrow> packet_bus option" where
  "bus_of g = (case g_engine g of Free (Some e) \<Rightarrow> Some (er_bus e) | _ \<Rightarrow> None)"

text \<open>Nothing the host owns has changed, or exactly one handle is gone and its packet has no owner.\<close>

definition kept :: "ffi_state \<Rightarrow> ffi_state \<Rightarrow> bool" where
  "kept g g' \<longleftrightarrow> handle_of g' = handle_of g \<and> bus_of g' = bus_of g"

definition consumed :: "u64 \<Rightarrow> packet_observation \<Rightarrow> ffi_state \<Rightarrow> ffi_state \<Rightarrow> bool" where
  "consumed h obs g g' \<longleftrightarrow> handle_of g' = (handle_of g)(h := None) \<and>
     (\<exists>b. bus_of g' = Some b \<and> hm_get (observation_id obs) (bus_ownership b) = None)"

lemma set_last_error_frame [simp]:
  "g_engine (set_last_error m g) = g_engine g" "g_handles (set_last_error m g) = g_handles g"
  "handle_of (set_last_error m g) = handle_of g" "bus_of (set_last_error m g) = bus_of g"
  "g_handle_counter (set_last_error m g) = g_handle_counter g"
  by (auto simp: set_last_error_def handle_of_def bus_of_def split: mutex.splits)

lemma ffi_inv_set_last_error [simp]: "ffi_inv (set_last_error m g) = ffi_inv g"
  by (simp add: ffi_inv_def)

lemma kept_simps [simp]: "kept g g" "kept g (set_last_error m g') = kept g g'"
  "consumed h obs g (set_last_error m g') = consumed h obs g g'"
  by (simp_all add: kept_def consumed_def)

lemma code_to_c_error [simp]: "code_to_c c \<noteq> ne_ok"
  by (auto simp: code_to_c_def ne_codes)

lemmas code_to_c_nonzero [simp] = code_to_c_error [unfolded ne_ok_def]

lemma upd_bus_simps [simp]: "er_bus (upd_bus b e) = b" "er_bus (upd_statistics f e) = er_bus e"
  by (simp_all add: upd_bus_def upd_statistics_def)

lemma take_cases:
  assumes "ffi_inv g"
  obtains (missing) m where "take_packet_handle h g = (Inl ne_invalid_handle, set_last_error m g)" "handle_of g h = None"
    | (found) e hs obs where "g_engine g = Free (Some e)" "g_handles g = Free hs" "handles_ok hs (er_bus e)"
        "hm_get h hs = Some obs" "handle_of g h = Some obs"
        "take_packet_handle h g = (Inr obs, g\<lparr> g_handles := Free (hm_remove h hs) \<rparr>)"
proof -
  obtain hs where hs: "g_handles g = Free hs" "hm_get 0 hs = None"
    using assms by (auto simp: ffi_inv_def handles_ok_def split: mutex.splits option.splits)
  show thesis
  proof (cases "hm_get h hs")
    case None
    then show thesis
      using hs missing [of "if h = 0 then ''invalid packet handle'' else ''invalid or released packet handle''"]
      by (auto simp: take_packet_handle_def handle_of_def)
  next
    case (Some obs)
    with hs have "h \<noteq> 0" by auto
    from Some hs assms obtain e where "g_engine g = Free (Some e)" "handles_ok hs (er_bus e)"
      by (auto simp: ffi_inv_def split: mutex.splits option.splits)
    then show thesis using found Some hs \<open>h \<noteq> 0\<close> by (simp add: take_packet_handle_def handle_of_def)
  qed
qed

text \<open>What a failed call does last: it returns an error code and at most sets the message.\<close>

definition only_reports :: "(ffi_state \<Rightarrow> int \<times> ffi_state) \<Rightarrow> bool" where
  "only_reports finish \<longleftrightarrow> (\<forall>g. fst (finish g) \<noteq> ne_ok \<and> (snd (finish g) = g \<or> (\<exists>m. snd (finish g) = set_last_error m g)))"

lemma only_reports_simps [simp]:
  "only_reports (\<lambda>g. (code, g)) \<longleftrightarrow> code \<noteq> ne_ok"
  "only_reports (error_to_c err)"
  "only_reports (report code m) \<longleftrightarrow> code \<noteq> ne_ok"
  by (auto simp: only_reports_def error_to_c_def)

lemma only_reportsD:
  assumes "only_reports finish" and "finish g = (code, g')"
  obtains "code \<noteq> ne_ok" "g' = g" | m where "code \<noteq> ne_ok" "g' = set_last_error m g"
  using assms unfolding only_reports_def by (metis fst_conv snd_conv)

lemma restore_taken:
  assumes "handles_ok hs (er_bus e)" and "hm_get h hs = Some obs" and "g_handles g = Free hs" and "g_engine g = Free (Some e)"
    and "g_handles g1 = Free (hm_remove h hs)" and "g_engine g1 = Free (Some e1)" and "er_bus e1 = er_bus e"
    and "only_reports finish"
    and "restore_and h obs finish g1 = (code, g')"
  shows "code \<noteq> ne_ok \<and> ffi_inv g' \<and> kept g g'"
proof -
  let ?hs = "hm_insert h obs (hm_remove h hs)"
  let ?g = "g1\<lparr> g_handles := Free ?hs \<rparr>"
  have get: "hm_get k ?hs = hm_get k hs" for k
    using assms(2) by (simp add: hm_get_insert hm_get_remove)
  have "handles_ok ?hs (er_bus e)"
    using assms(1) unfolding handles_ok_def get by (simp add: hm_wf_insert hm_wf_remove)
  then have inv: "ffi_inv ?g" using assms(6,7) by (simp add: ffi_inv_def)
  have kept: "kept g ?g" using assms(3,4,6,7) get by (auto simp: kept_def handle_of_def bus_of_def)
  have "restore_and h obs finish g1 = finish ?g"
    using assms(5) by (simp add: restore_and_def restore_packet_handle_def hm_get_remove)
  with assms(9) have "finish ?g = (code, g')" by simp
  with assms(8) show ?thesis by (rule only_reportsD) (use inv kept in simp_all)
qed

lemma release_taken:
  assumes "handles_ok hs (er_bus e)" and "hm_get h hs = Some obs" and "g_handles g = Free hs" and "g_engine g = Free (Some e)"
    and "g_handles g1 = Free (hm_remove h hs)" and "er_bus e1 = er_bus e"
    and "release_or_restore h obs count_stat e1 g1 = (code, g')"
  shows "code = ne_ok \<and> ffi_inv g' \<and> consumed h obs g g'"
proof -
  have b: "bus_inv (er_bus e)" "observation_id obs \<in> host_ids (er_bus e)"
    using assms(1,2) by (auto simp: handles_ok_def)
  note rel = release_host_held [OF this]
  define b' where "b' = snd (release_host (observation_id obs) (er_bus e))"
  have "bus_inv b'" using b(1) by (simp add: b'_def release_host_def keeps)
  then have "handles_ok (hm_remove h hs) b'"
    using handles_ok_remove [OF assms(1,2)] rel(2) by (simp add: b'_def)
  moreover have "g' = set_last_error ''OK'' (upd_engine (upd_statistics count_stat (upd_bus b' e1)) g1)" "code = ne_ok"
    using assms(6,7) rel(1) [folded b'_def] by (auto simp: release_or_restore_def release_host_observation_def)
  ultimately show ?thesis
    using assms(3,5) rel(3)
    by (auto simp: ffi_inv_def consumed_def handle_of_def bus_of_def hm_get_remove b'_def)
qed

lemma windivert_reinject_bus: "windivert_reinject nr cs sd bytes ctx e = (r, e', sent) \<Longrightarrow> er_bus e' = er_bus e"
  by (auto simp: windivert_reinject_def split: sum.splits if_splits option.splits bool.splits mutex.splits prod.splits)

lemma windivert_reinject_sent:
  assumes "windivert_reinject nr checksums send bytes context e = (Inr u, e', sent)"
  obtains address where "wda_from_bytes context = Some address" "sent = [snd (checksums bytes address)]"
  using assms
  by (auto simp: windivert_reinject_def reinject_with_context_def reinject_def map_reinject_error_def
      split: sum.splits if_splits option.splits bool.splits mutex.splits prod.splits)

text \<open>What one call on a handle comes to.\<close>

definition handle_outcome :: "u64 \<Rightarrow> ffi_state \<Rightarrow> int \<Rightarrow> ffi_state \<Rightarrow> bool" where
  "handle_outcome h g code g' \<longleftrightarrow> ffi_inv g' \<and> (case handle_of g h of
      None \<Rightarrow> code = ne_invalid_handle \<and> kept g g'
    | Some obs \<Rightarrow> if code = ne_ok then consumed h obs g g' else kept g g')"

lemma drop_outcome:
  assumes "ffi_inv g" and "terminal_drop h g = (code, g')"
  shows "handle_outcome h g code g'" and "handle_of g h \<noteq> None \<Longrightarrow> code = ne_ok"
proof -
  have "handle_outcome h g code g' \<and> (handle_of g h \<noteq> None \<longrightarrow> code = ne_ok)"
    using assms(1)
  proof (cases rule: take_cases [where h = h])
    case (found e hs obs)
    then have "release_or_restore h obs (record_drop Drop_HostRequested) e (g\<lparr> g_handles := Free (hm_remove h hs) \<rparr>) = (code, g')"
      using assms(2) by (simp add: terminal_drop_def with_engine_or_restore_def)
    from release_taken [OF found(3,4,2,1) _ refl this] found(5) show ?thesis by (simp add: handle_outcome_def)
  qed (use assms in \<open>auto simp: terminal_drop_def handle_outcome_def ne_codes\<close>)
  then show "handle_outcome h g code g'" and "handle_of g h \<noteq> None \<Longrightarrow> code = ne_ok" by simp_all
qed

lemma release_outcome:
  assumes "ffi_inv g" and "packet_release h g = (code, g')"
  shows "handle_outcome h g code g'" and "handle_of g h \<noteq> None \<Longrightarrow> code = ne_ok"
proof -
  have "handle_outcome h g code g' \<and> (handle_of g h \<noteq> None \<longrightarrow> code = ne_ok)"
    using assms(1)
  proof (cases rule: take_cases [where h = h])
    case (found e hs obs)
    then have "release_or_restore h obs id e (g\<lparr> g_handles := Free (hm_remove h hs) \<rparr>) = (code, g')"
      using assms(2) by (simp add: packet_release_def with_engine_or_restore_def)
    from release_taken [OF found(3,4,2,1) _ refl this] found(5) show ?thesis by (simp add: handle_outcome_def)
  qed (use assms in \<open>auto simp: packet_release_def handle_outcome_def ne_codes\<close>)
  then show "handle_outcome h g code g'" and "handle_of g h \<noteq> None \<Longrightarrow> code = ne_ok" by simp_all
qed

lemma send_outcome:
  assumes inv: "ffi_inv g" and send: "send_handle sr bytes_of count_stat h g = ((code, g'), sent)"
  shows "handle_outcome h g code g'"
    and "code = ne_ok \<Longrightarrow> \<exists>obs context address. handle_of g h = Some obs \<and> observation_context_for_windivert obs = Some context \<and>
      wda_from_bytes context = Some address \<and> sent = [snd (sd_checksums sr (bytes_of obs) address)]"
proof -
  have "handle_outcome h g code g' \<and> (code = ne_ok \<longrightarrow> (\<exists>obs context address. handle_of g h = Some obs \<and>
      observation_context_for_windivert obs = Some context \<and>
      wda_from_bytes context = Some address \<and> sent = [snd (sd_checksums sr (bytes_of obs) address)]))"
    using inv
  proof (cases rule: take_cases [where h = h])
    case (found e hs obs)
    let ?g = "g\<lparr> g_handles := Free (hm_remove h hs) \<rparr>"
    note taken = found(3,4,2,1)
    show ?thesis
    proof (cases "observation_context_for_windivert obs")
      case None
      then have "restore_and h obs (\<lambda>g. (ne_action_failed, g))
          (set_last_error ''packet has no native WinDivert action context'' ?g) = (code, g')"
        using send found(6) by (simp add: send_handle_def)
      from restore_taken [OF taken _ _ refl _ this] found show ?thesis by (auto simp: handle_outcome_def ne_codes)
    next
      case (Some ctx)
      obtain r e1 sent1 where r: "windivert_reinject (sd_native sr) (sd_checksums sr) (sd_send sr) (bytes_of obs) ctx e = (r, e1, sent1)"
        by (metis prod_cases3)
      note bus = windivert_reinject_bus [OF r]
      show ?thesis
      proof (cases r)
        case (Inr u)
        then have "release_or_restore h obs count_stat e1 ?g = (code, g')" "sent1 = sent"
          using send found Some r by (simp_all add: send_handle_def)
        from release_taken [OF taken _ bus this(1)] this(2) show ?thesis
          using found(5) Some windivert_reinject_sent [OF r [unfolded Inr]] by (auto simp: handle_outcome_def)
      next
        case (Inl err)
        then have "restore_and h obs (error_to_c err) (upd_engine e1 ?g) = (code, g')"
          using send found Some r by (simp add: send_handle_def)
        from restore_taken [OF taken _ _ bus _ this] show ?thesis
          using found(5) by (auto simp: handle_outcome_def error_to_c_def)
      qed
    qed
  qed (use assms in \<open>auto simp: send_handle_def handle_outcome_def ne_codes\<close>)
  then show "handle_outcome h g code g'"
    and "code = ne_ok \<Longrightarrow> \<exists>obs context address. handle_of g h = Some obs \<and> observation_context_for_windivert obs = Some context \<and>
      wda_from_bytes context = Some address \<and> sent = [snd (sd_checksums sr (bytes_of obs) address)]" by simp_all
qed


subsection \<open>Reading and injecting\<close>

lemma handle_of_free: "g_handles g = Free hs \<Longrightarrow> handle_of g = (\<lambda>h. hm_get h hs)"
  by (auto simp: handle_of_def)

lemma next_handle_frame:
  assumes "next_handle g = (h, g1)"
  shows "h \<noteq> 0" and "g_engine g1 = g_engine g" and "g_handles g1 = g_handles g"
  using assms by (auto simp: next_handle_def Let_def split: if_splits)

lemma requeue_and_inv:
  assumes "handles_ok hs (er_bus e)" and "g_handles g = Free hs"
  shows "ffi_inv (requeue_and obs e g)" and "handle_of (requeue_and obs e g) = handle_of g"
proof -
  have "bus_inv (er_bus e)" using assms(1) by (simp add: handles_ok_def)
  then have "handles_ok hs (snd (requeue_processing obs (er_bus e)))"
    by (intro handles_ok_same_host [OF assms(1)]) (simp_all add: host_ids_requeue keeps)
  then show "ffi_inv (requeue_and obs e g)" and "handle_of (requeue_and obs e g) = handle_of g"
    using assms(2) by (simp_all add: requeue_and_def ffi_inv_def handle_of_free)
qed

text \<open>A handle is new, not zero, and names the packet the descriptor shows.\<close>

definition read_outcome :: "ffi_state \<Rightarrow> packet_observation option \<Rightarrow> int \<Rightarrow> ffi_state \<Rightarrow> ne_packet_descriptor option \<Rightarrow> bool" where
  "read_outcome g next code g' d \<longleftrightarrow> ffi_inv g' \<and> (case d of
      None \<Rightarrow> code \<noteq> ne_ok \<and> handle_of g' = handle_of g
    | Some d \<Rightarrow> code = ne_ok \<and> (\<exists>h obs. next = Some obs \<and> h \<noteq> 0 \<and> handle_of g h = None \<and>
        handle_of g' = (handle_of g)(h \<mapsto> obs) \<and> d = descriptor_of h obs))"

lemma hand_over_outcome:
  assumes "handles_ok hs (er_bus e)" and "g_handles g = Free hs" and "hand_over obs e g = ((code, g'), d)"
  shows "read_outcome g (Some obs) code g' d"
proof -
  obtain h g1 where h: "next_handle g = (h, g1)" by (cases "next_handle g")
  note frame = next_handle_frame [OF h]
  have "bus_inv (er_bus e)" using assms(1) by (simp add: handles_ok_def)
  have kept: "handle_of g1 = handle_of g" using frame by (auto simp: handle_of_def)
  have requeue: "handles_ok hs (er_bus e') \<Longrightarrow> ffi_inv (requeue_and obs e' g1)"
    "handles_ok hs (er_bus e') \<Longrightarrow> handle_of (requeue_and obs e' g1) = handle_of g" for e'
    using requeue_and_inv [of hs e' g1 obs] frame(3) assms(2) kept by simp_all
  show ?thesis
  proof (cases "hm_get h hs")
    case (Some obs')
    then show ?thesis
      using assms requeue h frame(3) by (auto simp: hand_over_def read_outcome_def ne_codes)
  next
    case fresh: None
    show ?thesis
      using \<open>bus_inv (er_bus e)\<close>
    proof (cases rule: transfer_to_host_cases [where i = "observation_id obs"])
      case (ok b')
      then have "handles_ok (hm_insert h obs hs) b'" using handles_ok_insert [OF assms(1) fresh frame(1)] by simp
      then show ?thesis
        using assms(2,3) h frame(1,3) fresh ok(1)
        by (auto simp: hand_over_def read_outcome_def ffi_inv_def handle_of_free hm_get_insert fun_upd_def intro!: exI [of _ h])
    next
      case (refused err)
      then show ?thesis
        using assms requeue [of "upd_bus (er_bus e) e"] h frame(3) fresh
        by (auto simp: hand_over_def read_outcome_def error_to_c_def)
    qed
  qed
qed

lemma process_observation_frame: "frame s (snd (process_observation i hash now obs s))"
  by (simp add: process_observation_def process_observation_shared_frame split: sum.split)

lemma packet_read_outcome:
  assumes "ffi_inv g" and "packet_read hash now p_null g = Ok ((code, g'), d)"
  shows "read_outcome g (case bus_of g of None \<Rightarrow> None | Some b \<Rightarrow> (case try_read b of (Inr next, _) \<Rightarrow> next | _ \<Rightarrow> None)) code g' d"
proof (cases "p_null \<or> g_engine g = Free None")
  case True
  then show ?thesis
    using assms by (cases p_null) (auto simp: packet_read_def read_outcome_def ne_codes)
next
  case False
  with assms(1) obtain e hs where g: "g_engine g = Free (Some e)" "g_handles g = Free hs" "handles_ok hs (er_bus e)"
    by (auto simp: ffi_inv_def split: mutex.splits option.splits)
  obtain r b where r: "try_read (er_bus e) = (r, b)" by (cases "try_read (er_bus e)")
  have "bus_inv (er_bus e)" using g(3) by (simp add: handles_ok_def)
  then have "handles_ok hs b"
    using handles_ok_same_host [OF g(3), of b] host_ids_try_read [of "er_bus e"] bus_inv_try_read [of "er_bus e"] r by simp
  note b = this
  show ?thesis
  proof (cases "\<exists>obs. r = Inr (Some obs)")
    case False
    then show ?thesis
      using assms(2) g r b \<open>\<not> (p_null \<or> _)\<close>
      by (auto simp: packet_read_def read_outcome_def error_to_c_def ffi_inv_def handle_of_free
          split: sum.splits option.splits) (simp add: ne_codes)
  next
    case True
    then obtain obs where obs: "r = Inr (Some obs)" ..
    obtain q s where q: "process_observation (er_initialized e) hash now obs (er_shared (upd_bus b e)) = (q, s)"
      by (cases "process_observation (er_initialized e) hash now obs (er_shared (upd_bus b e))")
    have bus: "er_bus (e\<lparr> er_shared := s \<rparr>) = b"
      using process_observation_frame [of "er_shared (upd_bus b e)" "er_initialized e" hash now obs] q
      by (simp add: frame_def)
    show ?thesis
      using assms(2) g r obs q \<open>\<not> (p_null \<or> _)\<close> bus
       requeue_and_inv [OF b [folded bus] g(2), of obs] hand_over_outcome [OF b [folded bus] g(2), of obs code g' d]
      by (auto simp: packet_read_def bus_of_def read_outcome_def [of _ _ _ _ None] error_to_c_def ne_codes split: outcome.splits if_splits)
  qed
qed

lemma publish_counted_frame:
  assumes "bus_inv (ps_bus s)"
  shows "bus_inv (ps_bus (snd (publish_counted n obs s)))" and "host_ids (ps_bus (snd (publish_counted n obs s))) = host_ids (ps_bus s)"
  using assms bus_inv_publish [of "ps_bus s" obs] host_ids_publish [of obs "ps_bus s"]
  by (cases "publish_engine_owned obs (ps_bus s)"; simp add: publish_counted_def publish_def)+

lemma ingest_observation_frame:
  assumes "ingest_observation now obs e = (r, e')" and "bus_inv (er_bus e)"
  shows "bus_inv (er_bus e')" and "host_ids (er_bus e') = host_ids (er_bus e)"
  using assms publish_counted_frame [OF assms(2)]
  by (auto simp: ingest_observation_def Let_def split: sum.splits if_splits prod.splits) (metis snd_conv)+

lemma packet_inject_inv:
  assumes "ffi_inv g" and "packet_inject now p s d i g = (code, g')"
  shows "ffi_inv g'" and "handle_of g' = handle_of g"
proof -
  have counter: "next_injected_observation_id g = (oid, g1) \<Longrightarrow> g_engine g1 = g_engine g \<and> g_handles g1 = g_handles g" for oid g1
    by (auto simp: next_injected_observation_id_def)
  have step: "ffi_inv (upd_engine e1 g1) \<and> handle_of (upd_engine e1 g1) = handle_of g"
    if "ingest_observation now3 obs e = (r, e1)" "next_injected_observation_id g = (oid, g1)" "g_engine g = Free (Some e)" for now3 obs e r e1 oid g1
  proof -
    from assms(1) that(3) obtain hs where hs: "g_handles g = Free hs" "handles_ok hs (er_bus e)"
      by (auto simp: ffi_inv_def split: mutex.splits)
    then have "handles_ok hs (er_bus e1)"
      using ingest_observation_frame [OF that(1)] handles_ok_same_host [OF hs(2)] by (simp add: handles_ok_def)
    then show ?thesis using hs counter [OF that(2)] by (simp add: ffi_inv_def handle_of_free)
  qed
  have idle: "ffi_inv g1 \<and> handle_of g1 = handle_of g" if "next_injected_observation_id g = (oid, g1)" for oid g1
    using counter [OF that] assms(1) by (simp add: ffi_inv_def handle_of_def fun_eq_iff)
  have "ffi_inv g' \<and> handle_of g' = handle_of g"
    using assms step idle
    by (auto simp: packet_inject_def Let_def error_to_c_def dest: counter
        split: option.splits if_splits prod.splits mutex.splits sum.splits)
  then show "ffi_inv g'" and "handle_of g' = handle_of g" by simp_all
qed

subsection \<open>The interface as a state machine\<close>

text \<open>
  The engine's own threads run between the calls: the worker consumes packets from the queue and
  the capture thread publishes them. A worker that panics never writes to the bus again.
\<close>

definition run_shared :: "(processing_shared \<Rightarrow> processing_shared) \<Rightarrow> ffi_state \<Rightarrow> ffi_state" where
  "run_shared f g = (case g_engine g of Free (Some e) \<Rightarrow> upd_engine (e\<lparr> er_shared := f (er_shared e) \<rparr>) g | _ \<Rightarrow> g)"

lemma run_shared_inv:
  assumes "ffi_inv g"
    and "\<And>s. bus_inv (ps_bus s) \<Longrightarrow> bus_inv (ps_bus (f s)) \<and> host_ids (ps_bus (f s)) = host_ids (ps_bus s)"
  shows "ffi_inv (run_shared f g)"
  using assms(1) handles_ok_same_host assms(2)
  by (auto simp: run_shared_def ffi_inv_def handles_ok_def split: mutex.splits option.splits)

lemma capture_iteration_frame:
  assumes "bus_inv (ps_bus s)"
  shows "bus_inv (ps_bus (snd (capture_iteration now1 now2 reply t s)))
    \<and> host_ids (ps_bus (snd (capture_iteration now1 now2 reply t s))) = host_ids (ps_bus s)"
  using publish_counted_frame [OF assms] assms by (simp add: capture_iteration_def split: sum.split)

lemma count_error_bus [simp]: "ps_bus (count_error c s) = ps_bus s"
  by (simp add: count_error_def)

lemma worker_iteration_frame:
  assumes "bus_inv (ps_bus s)"
  shows "bus_inv (ps_bus (snd (worker_iteration hash now s)))
    \<and> host_ids (ps_bus (snd (worker_iteration hash now s))) = host_ids (ps_bus s)"
proof -
  obtain r b where r: "try_read (ps_bus s) = (r, b)" by (cases "try_read (ps_bus s)")
  then have b: "bus_inv b" "host_ids b = host_ids (ps_bus s)"
    using bus_inv_try_read [OF assms] host_ids_try_read [OF assms] by simp_all
  show ?thesis
  proof (cases "\<exists>obs. r = Inr (Some obs)")
    case True
    then obtain obs where obs: "r = Inr (Some obs)" ..
    obtain q s1 where q: "process_observation_shared hash now obs (s\<lparr> ps_bus := b \<rparr>) = (q, s1)"
      by (cases "process_observation_shared hash now obs (s\<lparr> ps_bus := b \<rparr>)")
    have bus: "ps_bus s1 = b"
      using process_observation_shared_frame [of "s\<lparr> ps_bus := b \<rparr>" hash now obs] q by (simp add: frame_def)
    obtain q2 b2 where rel: "release_processing (observation_id obs) b = (q2, b2)"
      by (cases "release_processing (observation_id obs) b")
    have "bus_inv b2" "host_ids b2 = host_ids (ps_bus s)"
      using bus_inv_release_from [OF b(1), of Own_Processing "observation_id obs"]
        host_ids_release_processing [OF b(1), of "observation_id obs"] b(2) rel
      by (simp_all add: release_processing_def)
    then show ?thesis
      using r obs q bus b rel by (cases q) (simp_all add: worker_iteration_def Let_def)
  qed (use r b in \<open>auto simp: worker_iteration_def split: sum.splits option.splits\<close>)
qed

inductive ffi_step :: "ffi_state \<Rightarrow> ffi_state \<Rightarrow> bool" where
  step_inject: "packet_inject now p s d i g = (code, g') \<Longrightarrow> ffi_step g g'"
| step_read: "packet_read hash now p_null g = Ok ((code, g'), descriptor) \<Longrightarrow> ffi_step g g'"
| step_action: "packet_action sr h a g = ((code, g'), sent) \<Longrightarrow> ffi_step g g'"
| step_modify: "packet_modify sr h p g = ((code, g'), sent) \<Longrightarrow> ffi_step g g'"
| step_release: "packet_release h g = (code, g') \<Longrightarrow> ffi_step g g'"
| step_capture: "ffi_step g (run_shared (\<lambda>s. snd (capture_iteration now1 now2 reply t s)) g)"
| step_worker: "ffi_step g (run_shared (\<lambda>s. snd (worker_iteration hash now s)) g)"

lemma packet_action_outcome:
  assumes "ffi_inv g" and "packet_action sr h a g = ((code, g'), sent)"
  shows "if a \<in> {0, 1, 3} then handle_outcome h g code g' else code = ne_invalid_argument \<and> ffi_inv g' \<and> kept g g'"
  using assms send_outcome(1) [OF assms(1)] drop_outcome(1) [OF assms(1)]
  by (auto simp: packet_action_def packet_pass_def packet_reinject_def packet_drop_def split: if_splits)

lemma packet_modify_outcome:
  assumes "ffi_inv g" and "packet_modify sr h p g = ((code, g'), sent)"
  shows "handle_outcome h g code g' \<or> ffi_inv g' \<and> kept g g'"
  using assms send_outcome(1) [OF assms(1)] by (auto simp: packet_modify_def split: option.splits if_splits)

lemma ffi_inv_step [keeps]: "ffi_step g g' \<Longrightarrow> ffi_inv g \<Longrightarrow> ffi_inv g'"
proof (induction rule: ffi_step.induct)
  case (step_inject now p s d i g code g')
  then show ?case using packet_inject_inv(1) by blast
next
  case (step_read hash now p_null g code g' descriptor)
  then show ?case using packet_read_outcome by (auto simp: read_outcome_def)
next
  case (step_action sr h a g code g' sent)
  then show ?case using packet_action_outcome [of g sr h a code g' sent] by (auto simp: handle_outcome_def split: if_splits)
next
  case (step_modify sr h p g code g' sent)
  then show ?case using packet_modify_outcome [of g sr h p code g' sent] by (auto simp: handle_outcome_def)
next
  case (step_release h g code g')
  then show ?case using release_outcome(1) [of g h code g'] by (simp add: handle_outcome_def)
next
  case (step_capture g now1 now2 reply t)
  then show ?case by (intro run_shared_inv capture_iteration_frame)
next
  case (step_worker g hash now)
  then show ?case by (intro run_shared_inv worker_iteration_frame)
qed

lemma ffi_inv_fresh:
  assumes "g_engine g = Free (Some e)" and "g_handles g = Free []" and "er_bus e = bus_new n"
  shows "ffi_inv g"
  using assms bus_inv_new [of n] by (simp add: ffi_inv_def handles_ok_def host_ids_def bus_new_def)

subsection \<open>Main results\<close>


lemma bus_of_simps [simp]:
  "bus_of (upd_engine e g) = Some (er_bus e)" "g_engine g = Free (Some e) \<Longrightarrow> bus_of g = Some (er_bus e)"
  "bus_of (requeue_and obs e g) = Some (snd (requeue_processing obs (er_bus e)))"
  by (simp_all add: bus_of_def requeue_and_def)

definition demo_observation :: packet_observation where
  "demo_observation = observation_new 9 Src_WinDivert 0 0 Inbound ''1'' (packet_new [69, 0])"

definition demo_ffi :: ffi_state where
  "demo_ffi = ffi_initial\<lparr> g_engine := Free (Some (upd_bus ((bus_new 4)\<lparr> bus_ownership := [(9, owner_as_u8 Own_Host)] \<rparr>) demo_base)),
     g_handles := Free [(7, demo_observation)], g_handle_counter := 8 \<rparr>"

lemma demo_ffi_facts: "ffi_inv demo_ffi" "handle_of demo_ffi 7 = Some demo_observation"
proof -
  have bus: "bus_inv ((bus_new 4)\<lparr> bus_ownership := [(9, owner_as_u8 Own_Host)] \<rparr>)"
    by (auto simp: bus_inv_def bus_new_def queue_new_def queue_inv_def hm_wf_def hm_get_def split: if_splits)
  show "ffi_inv demo_ffi"
    using bus by (auto simp: demo_ffi_def ffi_inv_def ffi_initial_def handles_ok_def host_ids_def hm_get_def
        hm_wf_def demo_observation_def observation_new_def split: if_splits)
  show "handle_of demo_ffi 7 = Some demo_observation"
    by (simp add: demo_ffi_def handle_of_def hm_get_def)
qed

definition demo_send :: send_replies where
  "demo_send = \<lparr> sd_native = demo_replies, sd_checksums = (\<lambda>bytes address. (1, bytes, address)), sd_send = (1, 2) \<rparr>"



text \<open>
  The numbers \<open>packet_inject\<close> accepts for the backends are those of the C header; the numbers
  \<open>packet_read\<close> writes are the positions in the Rust enumeration. They agree for no backend.
\<close>

theorem source_codes_disagree: "inject_source s = Some source \<Longrightarrow> source_as_c source \<noteq> s"
  by (auto simp: inject_source_def split: if_splits)

definition demo_queued :: packet_bus where
  "demo_queued = snd (publish_engine_owned demo_observation (bus_new 4))"

lemma demo_queued_facts: "ffi_inv (upd_engine (upd_bus demo_queued demo_base) ffi_initial)"
    "fst (try_read demo_queued) = Inr (Some demo_observation)"
proof -
  have "bus_inv demo_queued" "host_ids demo_queued = {}"
    using bus_inv_publish [OF bus_inv_new, of demo_observation 4] host_ids_publish [of demo_observation "bus_new 4"]
    by (simp_all add: demo_queued_def publish_def) (simp add: host_ids_def bus_new_def)
  then show "ffi_inv (upd_engine (upd_bus demo_queued demo_base) ffi_initial)"
    by (simp add: ffi_inv_def handles_ok_def ffi_initial_def)
  have "q_items (bus_queue demo_queued) = [demo_observation]"
    by (simp add: demo_queued_def publish_eq [unfolded publish_def] bus_new_def queue_new_def try_enqueue_def)
  then show "fst (try_read demo_queued) = Inr (Some demo_observation)"
    using \<open>bus_inv demo_queued\<close> by (simp add: try_read_eq)
qed


end
