(* ===== verification/Engine_Lifecycle.thy ===== *)
theory Engine_Lifecycle
  imports Packet_Api
begin

text \<open>
  Start and end of an engine: initialization with the import of the network state from IP Helper
  (\<open>crates/ffi/src/init.rs\<close>, \<open>backend_defaults.rs\<close>), the gateway commands (\<open>gateway.rs\<close>), the
  statistics (\<open>statistics.rs\<close>) and shutdown (\<open>shutdown.rs\<close>). What other threads and the native libraries do during a
  call is passed as an argument.
\<close>

subsection \<open>Configuration and the network state (\<open>init.rs\<close>)\<close>

record init_config =
  ic_queue_capacity :: usize
  ic_pool_max_size :: usize
  ic_buffer_capacity :: usize
  ic_max_flows :: usize

definition init_config_default :: init_config where
  "init_config_default = \<lparr> ic_queue_capacity = 4096, ic_pool_max_size = 1024, ic_buffer_capacity = 65536, ic_max_flows = 65536 \<rparr>"

definition init_config_validate :: "init_config \<Rightarrow> unit engine_result" where
  "init_config_validate c =
     (if ic_queue_capacity c = 0 then Inl (Error_Message EC_InvalidArgument ''queue_capacity must be greater than zero'')
      else if ic_pool_max_size c = 0 then Inl (Error_Message EC_InvalidArgument ''pool_max_size must be greater than zero'')
      else if ic_buffer_capacity c = 0 then Inl (Error_Message EC_InvalidArgument ''buffer_capacity must be greater than zero'')
      else if ic_max_flows c = 0 then Inl (Error_Message EC_InvalidArgument ''max_flows must be greater than zero'')
      else Inr ())"

primrec sync_kind :: "ih_interface_type \<Rightarrow> interface_kind" where
  "sync_kind Iht_Ethernet = If_Ethernet"
| "sync_kind Iht_Wifi = If_Wifi"
| "sync_kind Iht_Loopback = If_Loopback"
| "sync_kind Iht_Tunnel = If_Tunnel"
| "sync_kind Iht_Unknown = If_Unknown"

primrec sync_if_state :: "ih_operational_state \<Rightarrow> interface_state" where
  "sync_if_state Iho_Up = Ifs_Up"
| "sync_if_state Iho_Down = Ifs_Down"
| "sync_if_state Iho_Testing = Ifs_Testing"
| "sync_if_state Iho_Unknown = Ifs_Unknown"

definition sync_interface :: "ih_interface \<Rightarrow> interface_info" where
  "sync_interface source =
     (let info = (interface_new (ucast (ihi_index source)) (ihi_name source))\<lparr>
            ii_description := ihi_description source, ii_kind := sync_kind (ihi_interface_type source),
            ii_state := sync_if_state (ihi_operational_state source), ii_if_index := Some (ihi_index source) \<rparr>;
          info = (case ihi_mac_address source of None \<Rightarrow> info | Some mac \<Rightarrow> info\<lparr> ii_mac_address := Some mac \<rparr>) in
      if ihi_mtu source \<noteq> 0 then
        (case interface_with_mtu (ihi_mtu source) info of Some value \<Rightarrow> value | None \<Rightarrow> info)
      else info)"

definition sync_addresses :: "ih_interface \<Rightarrow> address_info list" where
  "sync_addresses source = List.map_filter
     (\<lambda>a. address_new (ucast (ihi_index source)) (iha_address a) (iha_prefix_length a)) (ihi_addresses source)"

definition sync_protocol :: "ih_route_protocol \<Rightarrow> route_protocol" where
  "sync_protocol p = (case p of
      Ihp_Local \<Rightarrow> Rp_Local | Ihp_NetMgmt \<Rightarrow> Rp_NetMgmt | Ihp_Other \<Rightarrow> Rp_Other | Ihp_Icmp \<Rightarrow> Rp_Other
    | Ihp_Unknown _ \<Rightarrow> Rp_Unknown | _ \<Rightarrow> Rp_Other)"

primrec sync_route_type :: "ih_route_type \<Rightarrow> route_type" where
  "sync_route_type Ihrt_Direct = Rt_Unicast"
| "sync_route_type Ihrt_Indirect = Rt_Unicast"
| "sync_route_type Ihrt_Invalid = Rt_Unreachable"
| "sync_route_type Ihrt_Other = Rt_Unknown"

definition sync_gateway_type :: "ih_route_protocol \<Rightarrow> gateway_type" where
  "sync_gateway_type p = (case p of
      Ihp_Local \<Rightarrow> Gt_OnLink | Ihp_NetMgmt \<Rightarrow> Gt_Static | Ihp_Other \<Rightarrow> Gt_Default | Ihp_Icmp \<Rightarrow> Gt_Default
    | Ihp_Unknown _ \<Rightarrow> Gt_Unknown | _ \<Rightarrow> Gt_Unknown)"

text \<open>The gateway of a default route.\<close>

definition sync_gateway :: "ih_route \<Rightarrow> gateway_info list" where
  "sync_gateway source =
     (if ihr_prefix_length source = 0 then
        (case ihr_next_hop source of
           None \<Rightarrow> []
         | Some gateway \<Rightarrow> [(gateway_info_new (ucast (ihr_interface_index source)) gateway)\<lparr>
             gi_gateway_type := sync_gateway_type (ihr_protocol source), gi_metric := ihr_metric source, gi_reachable := True \<rparr>])
      else [])"

fun sync_routes :: "u64 \<Rightarrow> ih_route list \<Rightarrow> (route_info list \<times> gateway_info list) engine_result" where
  "sync_routes i [] = Inr ([], [])"
| "sync_routes i (source # sources) =
     (case route_new (i + 1) (ihr_destination source) (ihr_prefix_length source) (ucast (ihr_interface_index source)) of
        None \<Rightarrow> sync_routes (i + 1) sources
      | Some route \<Rightarrow>
          (case (case ihr_next_hop source of None \<Rightarrow> Some route | Some gateway \<Rightarrow> route_with_gateway gateway route) of
             None \<Rightarrow> Inl (Error_Message EC_BackendInitFailed ''IP Helper route gateway family mismatch'')
           | Some route \<Rightarrow>
               let route = route\<lparr> ri_metric := ihr_metric source, ri_protocol := sync_protocol (ihr_protocol source),
                     ri_route_type := sync_route_type (ihr_route_type source) \<rparr> in
               (case sync_routes (i + 1) sources of
                  Inl e \<Rightarrow> Inl e
                | Inr (routes, gateways) \<Rightarrow> Inr (route # routes, sync_gateway source @ gateways))))"

primrec sync_neighbor_state :: "ih_neighbor_state \<Rightarrow> ns_neighbor_state" where
  "sync_neighbor_state Ihn_Reachable = Ns_Reachable"
| "sync_neighbor_state Ihn_Stale = Ns_Stale"
| "sync_neighbor_state Ihn_Permanent = Ns_Permanent"
| "sync_neighbor_state Ihn_Probe = Ns_Probe"
| "sync_neighbor_state Ihn_Delay = Ns_Delay"
| "sync_neighbor_state Ihn_Incomplete = Ns_Incomplete"
| "sync_neighbor_state Ihn_Unreachable = Ns_Unreachable"
| "sync_neighbor_state Ihn_Unknown = Ns_Unknown"

definition sync_neighbor :: "ih_neighbor \<Rightarrow> neighbor_info" where
  "sync_neighbor source =
     (let info = (neighbor_new (ucast (snd (ihn_key source))) (fst (ihn_key source)))\<lparr> ni_state := sync_neighbor_state (ihn_state source) \<rparr> in
      case ihn_mac_address source of Some mac \<Rightarrow> info\<lparr> ni_mac_address := Some mac \<rparr> | None \<Rightarrow> info)"

definition synchronize_network_state :: "iphelper_backend \<Rightarrow> engine_runtime \<Rightarrow> unit engine_result \<times> engine_runtime" where
  "synchronize_network_state b e =
     (if ihb_interfaces_poisoned b then (Inl (Error_Message EC_BackendInitFailed ''IP Helper interface query failed''), e)
      else if ihb_routes_poisoned b then (Inl (Error_Message EC_BackendInitFailed ''IP Helper route query failed''), e)
      else case sync_routes 0 (ihb_routes b) of
        Inl err \<Rightarrow> (Inl err, e)
      | Inr (routes, gateways) \<Rightarrow>
          if ihb_neighbors_poisoned b then (Inl (Error_Message EC_BackendInitFailed ''IP Helper neighbor query failed''), e)
          else case er_network_state e of
            Poisoned \<Rightarrow> (Inl (internal_error ''network state mutex poisoned''), e)
          | Free s \<Rightarrow> (Inr (), e\<lparr> er_network_state := Free
              (ns_set_gateways gateways (ns_set_neighbors (map sync_neighbor (ihb_neighbors b))
                (ns_set_routes routes (ns_set_addresses (concat (map sync_addresses (ihb_interfaces b)))
                  (ns_set_interfaces (map sync_interface (ihb_interfaces b)) s))))) \<rparr>))"

subsection \<open>Initialization (\<open>init.rs\<close>, \<open>backend_defaults.rs\<close>)\<close>

primrec register_all :: "backend_descriptor list \<Rightarrow> backend_manager \<Rightarrow> unit engine_result \<times> backend_manager" where
  "register_all [] m = (Inr (), m)"
| "register_all (d # ds) m =
     (if \<not> bm_contains (bd_name d) m then
        (case bm_register d m of (Inl e, m') \<Rightarrow> (Inl e, m') | (Inr _, m') \<Rightarrow> register_all ds m')
      else register_all ds m)"

definition register_builtin_backends :: "engine_runtime \<Rightarrow> unit engine_result \<times> engine_runtime" where
  "register_builtin_backends e = on_manager (register_all all_known_descriptors) e"

definition first_capable :: "backend_capability \<Rightarrow> backend_manager \<Rightarrow> string option" where
  "first_capable c m = map_option bd_name (find (\<lambda>d. capability_set_contains c (bd_capabilities d)) (bm_descriptors m))"

text \<open>An engine that fails to initialize is dropped, so only its error is left of it.\<close>

definition runtime_initialize :: "init_config \<Rightarrow> system_replies \<Rightarrow> (engine_error, engine_runtime) outcome" where
  "runtime_initialize c sr = (case init_config_validate c of
      Inl err \<Rightarrow> Err err
    | Inr _ \<Rightarrow> obind (runtime_new (ic_queue_capacity c) (ic_pool_max_size c) (ic_buffer_capacity c) (ic_max_flows c)) (\<lambda>e.
        if q_capacity (bus_queue (er_bus e)) = 0 then
          Err (Error_Message EC_InvalidArgument ''packet bus capacity must be greater than zero'')
        else case engine_init (er_state e) of
          (Inl err, _) \<Rightarrow> Err err
        | (Inr _, st) \<Rightarrow> (case register_builtin_backends ((upd_state st e)\<lparr> er_initialized := True \<rparr>) of
            (Inl err, _) \<Rightarrow> Err err
          | (Inr _, e) \<Rightarrow> (case iphelper_start sr iphelper_new of
              (Inl err, _) \<Rightarrow> Err (Error_Message EC_BackendInitFailed (''IP Helper initialization failed: '' @ debug_iphelper_error err))
            | (Inr _, b) \<Rightarrow> (case synchronize_network_state b e of
                (Inl err, _) \<Rightarrow> Err err
              | (Inr _, e) \<Rightarrow> (case er_iphelper_backend e of
                  Poisoned \<Rightarrow> Err (internal_error ''IP Helper backend mutex poisoned during initialization'')
                | Free _ \<Rightarrow>
                    let e = e\<lparr> er_iphelper_backend := Free (Some b) \<rparr> in
                    case first_capable Cap_Capture (er_backend_manager e) of
                      None \<Rightarrow> Err (Error_Message EC_CapabilityUnavailable ''no capture-capable backend is registered'')
                    | Some capture \<Rightarrow> (case set_active_capture_backend (Some capture) e of
                        (Inl err, _) \<Rightarrow> Err err
                      | (Inr _, e) \<Rightarrow> (case
                            (case first_capable Cap_Reinjection (er_backend_manager e) of
                               None \<Rightarrow> (Inr (), e)
                             | Some route \<Rightarrow> set_active_reinjection_backend (Some route) e) of
                          (Inl err, _) \<Rightarrow> Err err
                        | (Inr _, e) \<Rightarrow>
                            if ps_workers_poisoned (er_shared e) then
                              Err (internal_error ''metadata worker pool mutex poisoned during initialization'')
                            else Ok (e\<lparr> er_shared := (er_shared e)\<lparr> ps_workers := start_all (ps_workers (er_shared e)) \<rparr> \<rparr>)))))))))"

subsection \<open>Gateway commands (\<open>gateway.rs\<close>)\<close>

definition require_interface :: "u32 \<Rightarrow> string \<Rightarrow> network_snapshot \<Rightarrow> unit engine_result" where
  "require_interface i message s =
     (if find_interface (ucast i) s = None then Inl (Error_Message EC_CapabilityUnavailable message) else Inr ())"

definition check_nat_interface :: "gateway_policy \<Rightarrow> network_snapshot \<Rightarrow> unit engine_result" where
  "check_nat_interface policy s = (case gp_nat policy of
      None \<Rightarrow> Inr ()
    | Some p \<Rightarrow>
        if \<not> np_enabled p then Inr ()
        else case np_external_interface_id p of
          None \<Rightarrow> Inl (Error_Message EC_InvalidArgument ''enabled NAT requires an external interface'')
        | Some i \<Rightarrow> require_interface i ''NAT external interface is not present in NetworkState'' s)"

definition check_forwarding_interfaces :: "gateway_policy \<Rightarrow> network_snapshot \<Rightarrow> unit engine_result" where
  "check_forwarding_interfaces policy s = (case gp_forwarding policy of
      None \<Rightarrow> Inr ()
    | Some f \<Rightarrow>
        if \<not> fp_enabled f then Inr ()
        else case fp_ingress_interface_id f of
          None \<Rightarrow> Inl (Error_Message EC_InvalidArgument ''enabled forwarding requires an ingress interface'')
        | Some ingress \<Rightarrow> (case fp_egress_interface_id f of
            None \<Rightarrow> Inl (Error_Message EC_InvalidArgument ''enabled forwarding requires an egress interface'')
          | Some egress \<Rightarrow>
              if find_interface (ucast ingress) s = None \<or> find_interface (ucast egress) s = None then
                Inl (Error_Message EC_CapabilityUnavailable ''gateway forwarding interface is not present in NetworkState'')
              else Inr ()))"

definition check_preferred_interface :: "gateway_policy \<Rightarrow> network_snapshot \<Rightarrow> unit engine_result" where
  "check_preferred_interface policy s = (case rc_preferred_interface_id (gp_routing policy) of
      None \<Rightarrow> Inr ()
    | Some i \<Rightarrow> require_interface i ''preferred routing interface is not present in NetworkState'' s)"

abbreviation forwarding_requested :: "gateway_policy \<Rightarrow> bool" where
  "forwarding_requested policy \<equiv> (case gp_forwarding policy of Some f \<Rightarrow> fp_enabled f | None \<Rightarrow> False)"

abbreviation nat_requested :: "gateway_policy \<Rightarrow> bool" where
  "nat_requested policy \<equiv> (case gp_nat policy of Some p \<Rightarrow> np_enabled p | None \<Rightarrow> False)"

definition rt_gateway_config :: "gateway_policy \<Rightarrow> engine_runtime \<Rightarrow> unit engine_result \<times> engine_runtime" where
  "rt_gateway_config policy e = try_then (rt_require_running e, e) (\<lambda>_ e.
     case gateway_policy_validate policy of
       Inl _ \<Rightarrow> (Inl (Error_Message EC_InvalidArgument ''invalid gateway policy''), e)
     | Inr _ \<Rightarrow> try_then (lock_mutex (internal_error ''network state mutex poisoned'') (er_network_state e), e) (\<lambda>s e.
       try_then (check_nat_interface policy s, e) (\<lambda>_ e.
       try_then (check_forwarding_interfaces policy s, e) (\<lambda>_ e.
       try_then (check_preferred_interface policy s, e) (\<lambda>_ e.
       let m = er_backend_manager e;
           reinjection_available = (find_capable Cap_Reinjection m \<noteq> []);
           routing_available = (find_capable Cap_RouteInfo m \<noteq> []);
           neighbor_available = (find_capable Cap_NeighborInfo m \<noteq> []) in
       if forwarding_requested policy \<and> \<not> reinjection_available then
         (Inl (Error_Message EC_CapabilityUnavailable ''no available backend supports reinjection; forwarding cannot be enabled''), e)
       else if forwarding_requested policy \<and> \<not> routing_available then
         (Inl (Error_Message EC_CapabilityUnavailable ''routing capability is unavailable from active backends''), e)
       else if forwarding_requested policy \<and> sn_routes s = [] then
         (Inl (Error_Message EC_CapabilityUnavailable ''routing capability is unavailable: NetworkState contains no routes''), e)
       else if forwarding_requested policy \<and> \<not> neighbor_available then
         (Inl (Error_Message EC_CapabilityUnavailable ''neighbor capability is unavailable from active backends''), e)
       else
         let capability = gateway_capability_new policy;
             capability = capability\<lparr> gw_context := (gw_context capability)\<lparr> gx_capabilities :=
               \<lparr> gc_forwarding = reinjection_available, gc_routing = routing_available \<and> sn_routes s \<noteq> [],
                 gc_nat = nat_requested policy, gc_neighbor_resolution = neighbor_available \<rparr> \<rparr> \<rparr> in
         case er_gateway e of
           Poisoned \<Rightarrow> (Inl (internal_error ''gateway mutex poisoned''), e)
         | Free _ \<Rightarrow> (Inr (), e\<lparr> er_gateway := Free capability \<rparr>))))))"

definition check_gateway_capabilities :: "gateway_capability \<Rightarrow> unit engine_result" where
  "check_gateway_capabilities g =
     (let policy = gx_policy (gw_context g); capabilities = gx_capabilities (gw_context g) in
      case gateway_policy_validate policy of
        Inl _ \<Rightarrow> Inl (Error_Message EC_InvalidArgument ''stored gateway policy is invalid'')
      | Inr _ \<Rightarrow>
          if forwarding_requested policy \<and> \<not> gc_forwarding capabilities then
            Inl (Error_Message EC_CapabilityUnavailable ''gateway forwarding capability is unavailable'')
          else if forwarding_requested policy \<and> \<not> gc_routing capabilities then
            Inl (Error_Message EC_CapabilityUnavailable ''gateway routing capability is unavailable'')
          else if forwarding_requested policy \<and> \<not> gc_neighbor_resolution capabilities then
            Inl (Error_Message EC_CapabilityUnavailable ''gateway neighbor capability is unavailable'')
          else if nat_requested policy \<and> \<not> gc_nat capabilities then
            Inl (Error_Message EC_CapabilityUnavailable ''gateway NAT capability is unavailable'')
          else Inr ())"

definition rt_gateway_start :: "engine_runtime \<Rightarrow> unit engine_result \<times> engine_runtime" where
  "rt_gateway_start e = try_then (rt_require_running e, e) (\<lambda>_ e.
     try_then (lock_mutex (internal_error ''gateway mutex poisoned'') (er_gateway e), e) (\<lambda>g e.
     try_then (check_gateway_capabilities g, e) (\<lambda>_ e.
     case gateway_start g of
       (Inl _, g') \<Rightarrow> (Inl (Error_Message EC_GatewayNotReady ''failed to start gateway''), e\<lparr> er_gateway := Free g' \<rparr>)
     | (Inr _, g') \<Rightarrow> (Inr (), e\<lparr> er_gateway := Free g' \<rparr>))))"

definition rt_gateway_stop :: "engine_runtime \<Rightarrow> unit engine_result \<times> engine_runtime" where
  "rt_gateway_stop e = try_then (rt_require_running e, e) (\<lambda>_ e.
     try_then (lock_mutex (internal_error ''gateway mutex poisoned'') (er_gateway e), e) (\<lambda>g e.
     if \<not> gw_enabled g then (Inr (), e)
     else case gateway_stop g of
       (Inl _, g') \<Rightarrow> (Inl (Error_Message EC_GatewayNotReady ''failed to stop gateway''), e\<lparr> er_gateway := Free g' \<rparr>)
     | (Inr _, g') \<Rightarrow> (Inr (), e\<lparr> er_gateway := Free g' \<rparr>)))"

definition rt_gateway_is_running :: "engine_runtime \<Rightarrow> bool" where
  "rt_gateway_is_running e = (case er_gateway e of Free g \<Rightarrow> gateway_is_ready g | Poisoned \<Rightarrow> False)"

subsection \<open>Statistics (\<open>statistics.rs\<close>)\<close>

record unified_statistics_snapshot =
  us_engine :: engine_statistics_snapshot
  us_active_flows :: u64
  us_max_flows :: u64

definition unified_statistics :: "engine_runtime \<Rightarrow> unified_statistics_snapshot" where
  "unified_statistics e = (let s = er_shared e in
     \<lparr> us_engine = engine_statistics_snapshot_of (ps_statistics s),
       us_active_flows = (if ps_flow_table_poisoned s then 0
         else word_of_nat (min (length (ft_flows (ps_flow_table s))) (2 ^ 64 - 1))),
       us_max_flows = (if ps_flow_table_poisoned s then 0
         else word_of_nat (min (ft_max_entries (ps_flow_table s)) (2 ^ 64 - 1))) \<rparr>)"

definition rt_record_drop :: "drop_category \<Rightarrow> u64 \<Rightarrow> engine_runtime \<Rightarrow> engine_runtime" where
  "rt_record_drop category n = upd_statistics (\<lambda>s. case category of
      Drop_HostRequested \<Rightarrow> s\<lparr> st_drops_host_requested := st_drops_host_requested s + n \<rparr>
    | Drop_SafetyError \<Rightarrow> s\<lparr> st_drops_safety_error := st_drops_safety_error s + n \<rparr>
    | Drop_BackendFailure \<Rightarrow> s\<lparr> st_drops_backend_failure := st_drops_backend_failure s + n \<rparr>)"

definition validate_statistics :: "engine_runtime \<Rightarrow> unit engine_result" where
  "validate_statistics e = (let u = us_engine (unified_statistics e) in
     if ss_total_packets_processed u > ss_total_packets_received u \<or> ss_total_bytes_processed u > ss_total_bytes_received u
     then Inl (internal_error ''processed statistics exceed received statistics'') else Inr ())"

subsection \<open>Shutdown (\<open>shutdown.rs\<close>)\<close>

text \<open>
  \<open>start_processing_worker\<close> of \<open>processing.rs\<close> and its counterpart. The worker may still finish the
  pass it has begun; \<open>in_flight\<close> is what that pass reads.
\<close>

definition start_processing_worker :: "bool \<Rightarrow> engine_runtime \<Rightarrow> unit engine_result \<times> engine_runtime" where
  "start_processing_worker spawned e = try_then (rt_require_running e, e) (\<lambda>_ e.
     case er_processing_thread e of
       Poisoned \<Rightarrow> (Inl (internal_error ''processing thread handle mutex poisoned''), e)
     | Free (Some _) \<Rightarrow> (Inr (), e)
     | Free None \<Rightarrow>
         let e = e\<lparr> er_processing_stop := False \<rparr> in
         if \<not> spawned then (Inl (internal_error ''failed to spawn processing worker''), e)
         else (Inr (), e\<lparr> er_processing_thread := Free (Some ()) \<rparr>))"

definition stop_processing_worker :: "(observation_hash \<times> u64) option \<Rightarrow> engine_runtime \<Rightarrow> engine_runtime" where
  "stop_processing_worker in_flight e = (let e = e\<lparr> er_processing_stop := True \<rparr> in
     case er_processing_thread e of
       Free (Some _) \<Rightarrow>
         (e\<lparr> er_processing_thread := Free None \<rparr>)\<lparr> er_shared := (case in_flight of
            None \<Rightarrow> er_shared e
          | Some (hash, now) \<Rightarrow> snd (worker_iteration hash now (er_shared e))) \<rparr>
     | _ \<Rightarrow> e)"

text \<open>The loop that releases what is left in the closed queue.\<close>

lemma try_read_shrinks:
  assumes "try_read b = (Inr (Some obs), b')"
  shows "length (q_items (bus_queue b')) < length (q_items (bus_queue b))"
  using assms
  by (auto simp: try_read_def try_dequeue_def bus_transfer_def Let_def
      split: sum.splits option.splits prod.splits queue_error.splits list.splits if_splits)

lemma release_from_queue: "bus_queue (snd (release_from i own b)) = bus_queue b"
  by (auto simp: release_from_def Let_def split: option.splits sum.splits prod.splits if_splits)

lemma drain_bus_shrinks:
  assumes "(Inr (Some obs), b1) = try_read b" and "(r, b2) = release_processing i b1"
  shows "length (q_items (bus_queue b2)) < length (q_items (bus_queue b))"
  using try_read_shrinks [OF assms(1) [symmetric]] release_from_queue [of i Own_Processing b1]
    arg_cong [OF assms(2), of "\<lambda>p. bus_queue (snd p)"]
  by (simp add: release_processing_def)

function drain_bus :: "packet_bus \<Rightarrow> engine_statistics \<Rightarrow> packet_bus \<times> engine_statistics" where
  "drain_bus b st = (case try_read b of
      (Inr (Some obs), b) \<Rightarrow> (case release_processing (observation_id obs) b of
        (r, b) \<Rightarrow> drain_bus b (case r of Inl _ \<Rightarrow> record_stat_error st | Inr _ \<Rightarrow> st))
    | (_, b) \<Rightarrow> (b, st))"
  by pat_completeness auto

termination
  by (relation "measure (\<lambda>(b, st). length (q_items (bus_queue b)))") (auto dest: drain_bus_shrinks)

declare drain_bus.simps [simp del]

definition close_slot :: "('b \<Rightarrow> unit engine_result \<times> 'b) \<Rightarrow> 'b option mutex \<Rightarrow> bool \<times> 'b option mutex" where
  "close_slot stop slot = (case slot of
      Poisoned \<Rightarrow> (False, slot)
    | Free None \<Rightarrow> (True, slot)
    | Free (Some b) \<Rightarrow> (case stop b of (Inr _, _) \<Rightarrow> (True, Free None) | (Inl _, b') \<Rightarrow> (False, Free (Some b'))))"

definition close_native :: "native_replies \<Rightarrow> string \<Rightarrow> engine_runtime \<Rightarrow> bool \<times> engine_runtime" where
  "close_native nr name e =
     (if name = ''npcap'' then
        (case close_slot (npcap_native_stop nr) (er_npcap_backend e) of (r, slot) \<Rightarrow> (r, e\<lparr> er_npcap_backend := slot \<rparr>))
      else if name = ''windivert'' then
        (case close_slot (windivert_native_stop nr) (er_windivert_backend e) of (r, slot) \<Rightarrow> (r, e\<lparr> er_windivert_backend := slot \<rparr>))
      else if name = ''wfp'' then
        (case close_slot (wfp_native_stop nr) (er_wfp_backend e) of (r, slot) \<Rightarrow> (r, e\<lparr> er_wfp_backend := slot \<rparr>))
      else if name = ''iphelper'' then
        (case close_slot (iphelper_native_stop nr) (er_iphelper_backend e) of (r, slot) \<Rightarrow> (r, e\<lparr> er_iphelper_backend := slot \<rparr>))
      else if name = ''etw'' then
        (case close_slot (etw_native_stop nr) (er_etw_backend e) of (r, slot) \<Rightarrow> (r, e\<lparr> er_etw_backend := slot \<rparr>))
      else (True, e))"

definition stop_one_backend :: "native_replies \<Rightarrow> string \<Rightarrow> bool \<times> engine_runtime \<Rightarrow> bool \<times> engine_runtime" where
  \<comment> \<open>the flag is \<open>failed\<close>\<close>
  "stop_one_backend nr name acc = (case acc of (failed, e) \<Rightarrow>
     (case bm_runtime_state name (er_backend_manager e) of
        Inl _ \<Rightarrow> (True, e)
      | Inr runtime \<Rightarrow>
          if \<not> bl_can_stop (br_lifecycle runtime) then (failed, e)
          else case close_native nr name e of
            (True, e) \<Rightarrow> (case on_manager (bm_mark_stopped name) e of
                (Inl _, e) \<Rightarrow> (True, e)
              | (Inr _, e) \<Rightarrow> (failed, e))
          | (False, e) \<Rightarrow> (True, native_failed name e)))"

definition stop_all_native_backends :: "native_replies \<Rightarrow> engine_runtime \<Rightarrow> unit engine_result \<times> engine_runtime" where
  "stop_all_native_backends nr e =
     (case fold (stop_one_backend nr) (bm_names (er_backend_manager e)) (False, e) of
        (True, e) \<Rightarrow> (Inl (Error_Message EC_BackendStopFailed ''one or more native backends failed to stop''), e)
      | (False, e) \<Rightarrow> (Inr (), e))"

definition slot_held :: "string \<Rightarrow> 'b option mutex \<Rightarrow> bool engine_result" where
  "slot_held what slot = (case slot of
      Poisoned \<Rightarrow> Inl (internal_error (what @ '' mutex poisoned during shutdown''))
    | Free content \<Rightarrow> Inr (content \<noteq> None))"

text \<open>\<open>||\<close> over fallible tests: the first that is true or fails decides.\<close>

fun first_held :: "bool engine_result list \<Rightarrow> bool engine_result" where
  "first_held [] = Inr False"
| "first_held (Inl e # rest) = Inl e"
| "first_held (Inr is_held # rest) = (if is_held then Inr True else first_held rest)"

definition owned_handles :: "engine_runtime \<Rightarrow> bool engine_result list" where
  "owned_handles e = [slot_held ''processing thread'' (er_processing_thread e), slot_held ''capture thread'' (er_capture_thread e),
     slot_held ''WinDivert action'' (er_windivert_action e), slot_held ''Npcap backend'' (er_npcap_backend e),
     slot_held ''WinDivert backend'' (er_windivert_backend e), slot_held ''WFP backend'' (er_wfp_backend e),
     slot_held ''IP Helper backend'' (er_iphelper_backend e), slot_held ''ETW backend'' (er_etw_backend e)]"

text \<open>What the rest of the system does while an engine shuts down; \<open>sh_workers\<close> is the pool that \<open>stop_all\<close> leaves.\<close>

record shutdown_replies =
  sh_native :: native_replies
  sh_capture :: "(timestamp \<times> timestamp \<times> recv_reply) option"
  sh_processing :: "(observation_hash \<times> u64) option"
  sh_workers :: worker_pool

definition stop_gateway :: "engine_runtime \<Rightarrow> unit engine_result \<times> engine_runtime" where
  "stop_gateway e = (case er_gateway e of
      Poisoned \<Rightarrow> (Inl (internal_error ''gateway mutex poisoned during shutdown''), e)
    | Free g \<Rightarrow>
        if \<not> gw_enabled g then (Inr (), e)
        else case gateway_stop g of
          (Inl _, g') \<Rightarrow> (Inl (Error_Message EC_GatewayNotReady ''failed to stop gateway during shutdown''), e\<lparr> er_gateway := Free g' \<rparr>)
        | (Inr _, g') \<Rightarrow> (Inr (), e\<lparr> er_gateway := Free g' \<rparr>))"

definition drain_queue :: "engine_runtime \<Rightarrow> engine_runtime" where
  "drain_queue e = (case drain_bus (bus_close (er_bus e)) (er_statistics e) of
     (b, st) \<Rightarrow> upd_statistics (\<lambda>_. st) (upd_bus b e))"

definition stop_workers :: "worker_pool \<Rightarrow> engine_runtime \<Rightarrow> unit engine_result \<times> engine_runtime" where
  "stop_workers p e =
     (if ps_workers_poisoned (er_shared e) then (Inl (internal_error ''metadata worker mutex poisoned during shutdown''), e)
      else (Inr (), e\<lparr> er_shared := (er_shared e)\<lparr> ps_workers := p \<rparr> \<rparr>))"

definition clear_metadata :: "engine_runtime \<Rightarrow> unit engine_result \<times> engine_runtime" where
  "clear_metadata e =
     (if ps_metadata_poisoned (er_shared e) then (Inl (internal_error ''metadata mutex poisoned during shutdown''), e)
      else (Inr (), e\<lparr> er_shared := (er_shared e)\<lparr> ps_metadata := [] \<rparr> \<rparr>))"

definition stop_action_handle :: "native_replies \<Rightarrow> engine_runtime \<Rightarrow> unit engine_result \<times> engine_runtime" where
  "stop_action_handle nr e = (case er_windivert_action e of
      Poisoned \<Rightarrow> (Inl (internal_error ''WinDivert action mutex poisoned during shutdown''), e)
    | Free None \<Rightarrow> (Inr (), e)
    | Free (Some h) \<Rightarrow>
        let e = e\<lparr> er_windivert_action := Free None \<rparr> in
        case wh_close (nr_windivert_close nr) h of
          (Inl _, _) \<Rightarrow> (Inl (Error_Message EC_BackendStopFailed ''WinDivert action backend failed to stop''), e)
        | (Inr _, _) \<Rightarrow> (Inr (), e))"

definition clear_flows :: "engine_runtime \<Rightarrow> unit engine_result \<times> engine_runtime" where
  "clear_flows e =
     (if ps_flow_table_poisoned (er_shared e) then (Inl (internal_error ''flow table mutex poisoned during shutdown''), e)
      else (Inr (), e\<lparr> er_shared := (er_shared e)\<lparr> ps_flow_table := snd (ft_clear (ps_flow_table (er_shared e))) \<rparr> \<rparr>))"

definition finish_shutdown :: "engine_runtime \<Rightarrow> unit engine_result \<times> engine_runtime" where
  "finish_shutdown e = try_then (first_held (owned_handles e), e) (\<lambda>is_held e.
     if is_held then (Inl (Error_Message EC_BackendStopFailed
       ''shutdown incomplete: native thread or backend handle remains owned by the engine''), e)
     else case engine_shutdown (er_state e) of
       (Inl err, st) \<Rightarrow> (Inl err, upd_state st e)
     | (Inr _, st) \<Rightarrow> (Inr (), (upd_state st e)\<lparr> er_initialized := False \<rparr>))"

text \<open>What follows once the queue is drained.\<close>

definition release_all :: "shutdown_replies \<Rightarrow> engine_runtime \<Rightarrow> unit engine_result \<times> engine_runtime" where
  "release_all sh e =
     try_then (stop_workers (sh_workers sh) e) (\<lambda>_ e.
     try_then (clear_metadata e) (\<lambda>_ e.
     try_then (stop_all_native_backends (sh_native sh) e) (\<lambda>_ e.
     try_then (stop_action_handle (sh_native sh) e) (\<lambda>_ e.
     try_then (set_active_capture_backend None e) (\<lambda>_ e.
     try_then (set_active_reinjection_backend None e) (\<lambda>_ e.
     try_then (clear_flows e) (\<lambda>_ e.
     finish_shutdown e)))))))"

definition begin_rt_shutdown :: "engine_runtime \<Rightarrow> unit engine_result \<times> engine_runtime" where
  "begin_rt_shutdown e = (case begin_shutdown (er_state e) of (r, st) \<Rightarrow> (r, upd_state st e))"

definition rt_shutdown :: "shutdown_replies \<Rightarrow> engine_runtime \<Rightarrow> unit engine_result \<times> engine_runtime" where
  "rt_shutdown sh e =
     (if \<not> rt_is_initialized e then (Inl (Error_Message EC_NotInitialized ''engine is not initialized''), e)
      else try_then (capture_stop (sh_capture sh) e) (\<lambda>_ e.
      try_then (begin_rt_shutdown (stop_processing_worker (sh_processing sh) e)) (\<lambda>_ e.
      try_then (stop_gateway e) (\<lambda>_ e.
      release_all sh (drain_queue e)))))"

subsection \<open>A shutdown that succeeds is complete\<close>

lemma drain_bus_result:
  assumes "bus_inv b"
  shows "bus_inv (fst (drain_bus b st)) \<and> q_items (bus_queue (fst (drain_bus b st))) = [] \<and>
    q_closed (bus_queue (fst (drain_bus b st))) = q_closed (bus_queue b) \<and>
    host_ids (fst (drain_bus b st)) = host_ids b \<and> snd (drain_bus b st) = st"
  using assms
proof (induction b st rule: drain_bus.induct)
  case (1 b st)
  show ?case
  proof (cases "q_items (bus_queue b)")
    case Nil
    then have "drain_bus b st = (b, st)"
      using try_read_eq [OF 1(2)] by (subst drain_bus.simps) simp
    then show ?thesis using 1(2) Nil by simp
  next
    case (Cons obs rest)
    obtain b1 where r: "try_read b = (Inr (Some obs), b1)" using try_read_eq [OF 1(2)] Cons by simp
    have b1: "bus_inv b1" "host_ids b1 = host_ids b" "q_closed (bus_queue b1) = q_closed (bus_queue b)"
      "hm_get (observation_id obs) (bus_ownership b1) = Some (owner_as_u8 Own_Processing)"
      using bus_inv_try_read [OF 1(2)] host_ids_try_read [OF 1(2)] try_read_eq [OF 1(2)] Cons r
      by (auto simp: hm_get_insert simp del: owner_as_u8.simps)
    then obtain b2 where rel: "release_processing (observation_id obs) b1 = (Inr (), b2)"
      using bus_inv_locks [OF b1(1)] by (simp add: release_processing_def release_from_eq del: owner_as_u8.simps)
    have "bus_queue b2 = bus_queue b1"
      using release_from_queue [of "observation_id obs" Own_Processing b1] rel by (metis release_processing_def snd_conv)
    then have b2: "bus_inv b2" "host_ids b2 = host_ids b" "q_closed (bus_queue b2) = q_closed (bus_queue b)"
      using bus_inv_release_from [OF b1(1), of Own_Processing "observation_id obs"]
        host_ids_release_processing [OF b1(1), of "observation_id obs"] b1(2,3) rel
      by (simp_all add: release_processing_def)
    have "drain_bus b st = drain_bus b2 st" by (subst drain_bus.simps) (simp add: r rel)
    then show ?thesis using 1(1) [OF r [symmetric] refl refl rel [symmetric]] b2 by simp
  qed
qed

lemma first_held_none: "first_held hs = Inr False \<longleftrightarrow> (\<forall>h \<in> set hs. h = Inr False)"
  by (induction hs rule: first_held.induct) auto

lemma slot_held_none: "slot_held what slot = Inr False \<longleftrightarrow> slot = Free None"
  by (auto simp: slot_held_def split: mutex.splits)

definition owns_nothing :: "engine_runtime \<Rightarrow> bool" where
  "owns_nothing e \<longleftrightarrow> er_processing_thread e = Free None \<and> er_capture_thread e = Free None \<and>
     er_windivert_action e = Free None \<and> er_npcap_backend e = Free None \<and> er_windivert_backend e = Free None \<and>
     er_wfp_backend e = Free None \<and> er_iphelper_backend e = Free None \<and> er_etw_backend e = Free None"

lemma finish_shutdown_ok:
  assumes "finish_shutdown e = (Inr (), e')"
  shows "owns_nothing e'" and "\<not> rt_is_initialized e'" and "es_lifecycle (er_state e') = Stopped"
    and "er_bus e' = er_bus e" and "ps_flow_table (er_shared e') = ps_flow_table (er_shared e)"
    and "ps_metadata (er_shared e') = ps_metadata (er_shared e)" and "ps_workers (er_shared e') = ps_workers (er_shared e)"
    and "er_active_capture_backend e' = er_active_capture_backend e"
    and "er_active_reinjection_backend e' = er_active_reinjection_backend e"
proof -
  obtain st where free: "first_held (owned_handles e) = Inr False"
    and st: "engine_shutdown (er_state e) = (Inr (), st)" and e': "e' = (upd_state st e)\<lparr> er_initialized := False \<rparr>"
    using assms by (auto simp: finish_shutdown_def try_then_ok split: prod.splits sum.splits if_splits)
  show "owns_nothing e'"
    using free unfolding first_held_none owned_handles_def by (simp add: slot_held_none owns_nothing_def e' upd_state_def)
  show "\<not> rt_is_initialized e'" by (simp add: e' rt_is_initialized_def)
  show "es_lifecycle (er_state e') = Stopped"
    using st by (auto simp: e' upd_state_def engine_shutdown_def engine_stop_def split: if_splits engine_lifecycle.splits)
qed (use assms in \<open>auto simp: finish_shutdown_def try_then_ok upd_state_def split: prod.splits sum.splits if_splits\<close>)

text \<open>Two runtimes that share everything but the counters.\<close>

definition same_shared :: "engine_runtime \<Rightarrow> engine_runtime \<Rightarrow> bool" where
  "same_shared e e' \<longleftrightarrow> (\<exists>st. er_shared e' = (er_shared e)\<lparr> ps_statistics := st \<rparr>)"

lemma same_sharedD:
  assumes "same_shared e e'"
  shows "er_bus e' = er_bus e" and "ps_metadata (er_shared e') = ps_metadata (er_shared e)"
    and "ps_flow_table (er_shared e') = ps_flow_table (er_shared e)" and "er_state e' = er_state e"
    and "ps_workers (er_shared e') = ps_workers (er_shared e)"
  using assms by (auto simp: same_shared_def)

lemma same_shared_refl: "er_shared e' = er_shared e \<Longrightarrow> same_shared e e'"
  unfolding same_shared_def by (rule exI [of _ "ps_statistics (er_shared e)"]) simp

lemma same_shared_trans: "same_shared e e' \<Longrightarrow> same_shared e' e'' \<Longrightarrow> same_shared e e''"
  by (auto simp: same_shared_def)

lemma close_native_shared: "er_shared (snd (close_native nr name e)) = er_shared e"
  by (simp add: close_native_def split: prod.split)

lemma native_failed_shared: "same_shared e (native_failed name e)"
  by (auto simp: native_failed_def same_shared_def upd_statistics_def split: prod.splits)

lemma stop_one_backend_shared: "same_shared (snd acc) (snd (stop_one_backend nr name acc))"
proof (cases acc)
  case (Pair failed e)
  obtain ok e1 where e1: "close_native nr name e = (ok, e1)" by (cases "close_native nr name e")
  then have "er_shared e1 = er_shared e" using close_native_shared [of nr name e] by simp
  then have "same_shared e (e1\<lparr> er_backend_manager := m \<rparr>)" "same_shared e (native_failed name e1)" for m
    using native_failed_shared [of e1 name] by (auto intro: same_shared_refl same_shared_trans)
  then show ?thesis
    using Pair e1 same_shared_refl [of e e] by (auto simp: stop_one_backend_def split: sum.splits prod.splits bool.splits)
qed

lemma stop_all_native_shared: "same_shared e (snd (stop_all_native_backends nr e))"
proof -
  have "same_shared (snd acc) (snd (fold (stop_one_backend nr) names acc))" for names acc
  proof (induction names arbitrary: acc)
    case (Cons n names)
    then show ?case using stop_one_backend_shared same_shared_trans by (simp) blast
  qed (simp add: same_shared_refl)
  from this [of "(False, e)"] show ?thesis
    by (auto simp: stop_all_native_backends_def split: prod.splits bool.splits) (metis snd_conv)+
qed

text \<open>The bus while the producers stop: packets may still be published or processed, but the host's stay.\<close>

definition bus_evolves :: "engine_runtime \<Rightarrow> engine_runtime \<Rightarrow> bool" where
  "bus_evolves e e' \<longleftrightarrow> (bus_inv (er_bus e) \<longrightarrow> bus_inv (er_bus e') \<and> host_ids (er_bus e') = host_ids (er_bus e))"

lemma capture_stop_evolves: "capture_stop in_flight e = (r, e') \<Longrightarrow> bus_evolves e e'"
  using capture_iteration_frame
  by (auto simp: capture_stop_def bus_evolves_def Let_def split: mutex.splits option.splits)

lemma stop_processing_worker_evolves: "bus_evolves e (stop_processing_worker in_flight e)"
  using worker_iteration_frame
  by (auto simp: stop_processing_worker_def bus_evolves_def Let_def split: mutex.splits option.splits)

lemma drain_queue_result:
  assumes "bus_inv (er_bus e)"
  shows "q_items (bus_queue (er_bus (drain_queue e))) = []" and "q_closed (bus_queue (er_bus (drain_queue e)))"
    and "host_ids (er_bus (drain_queue e)) = host_ids (er_bus e)" and "bus_inv (er_bus (drain_queue e))"
proof -
  have "host_ids (bus_close (er_bus e)) = host_ids (er_bus e)" by (simp add: host_ids_def bus_close_def)
  then show "q_items (bus_queue (er_bus (drain_queue e))) = []" "q_closed (bus_queue (er_bus (drain_queue e)))"
    "host_ids (er_bus (drain_queue e)) = host_ids (er_bus e)" "bus_inv (er_bus (drain_queue e))"
    using drain_bus_result [OF bus_inv_close [OF assms], of "er_statistics e"] bus_inv_locks [OF assms]
    by (auto simp: drain_queue_def bus_close_def queue_close_def split: prod.splits)
qed

lemma stop_steps_shared:
  "stop_gateway e = (r, e1) \<Longrightarrow> er_shared e1 = er_shared e"
  "stop_action_handle nr e = (r, e2) \<Longrightarrow> er_shared e2 = er_shared e"
  "set_active_capture_backend n e = (r, e3) \<Longrightarrow> er_shared e3 = er_shared e"
  "set_active_reinjection_backend n e = (r, e4) \<Longrightarrow> er_shared e4 = er_shared e"
  by (auto simp: stop_gateway_def stop_action_handle_def set_active_capture_backend_def set_active_reinjection_backend_def Let_def
      split: mutex.splits if_splits prod.splits sum.splits option.splits)

lemma set_active_ok:
  "set_active_capture_backend n e = (Inr u, e') \<Longrightarrow> er_active_capture_backend e' = Free n"
  "set_active_reinjection_backend n e = (Inr u, e') \<Longrightarrow>
     er_active_reinjection_backend e' = Free n \<and> er_active_capture_backend e' = er_active_capture_backend e"
  by (auto simp: set_active_capture_backend_def set_active_reinjection_backend_def split: mutex.splits)

text \<open>The tail of \<open>shutdown\<close>, after the queue is drained.\<close>

lemma shutdown_tail:
  assumes "stop_workers p e = (Inr u1, e1)" and "clear_metadata e1 = (Inr u2, e2)"
    and "stop_all_native_backends nr e2 = (Inr u3, e3)" and "stop_action_handle nr e3 = (Inr u4, e4)"
    and "set_active_capture_backend None e4 = (Inr u5, e5)" and "set_active_reinjection_backend None e5 = (Inr u6, e6)"
    and "clear_flows e6 = (Inr u7, e7)" and "finish_shutdown e7 = (Inr (), e')"
  shows "owns_nothing e' \<and> \<not> rt_is_initialized e' \<and> es_lifecycle (er_state e') = Stopped \<and> er_bus e' = er_bus e \<and>
    ft_flows (ps_flow_table (er_shared e')) = [] \<and> ps_metadata (er_shared e') = [] \<and> ps_workers (er_shared e') = p \<and>
    er_active_capture_backend e' = Free None \<and> er_active_reinjection_backend e' = Free None"
proof -
  have e1: "er_bus e1 = er_bus e" "ps_workers (er_shared e1) = p"
    using assms(1) by (auto simp: stop_workers_def split: if_splits)
  have e2: "er_bus e2 = er_bus e1" "ps_workers (er_shared e2) = ps_workers (er_shared e1)" "ps_metadata (er_shared e2) = []"
    using assms(2) by (auto simp: clear_metadata_def split: if_splits)
  note e3 = same_sharedD [OF stop_all_native_shared [of e2 nr, unfolded assms(3) snd_conv]]
  note shared = stop_steps_shared(2) [OF assms(4)] stop_steps_shared(3) [OF assms(5)] stop_steps_shared(4) [OF assms(6)]
  have e7: "er_bus e7 = er_bus e6" "ps_workers (er_shared e7) = ps_workers (er_shared e6)"
    "ps_metadata (er_shared e7) = ps_metadata (er_shared e6)" "ft_flows (ps_flow_table (er_shared e7)) = []"
    "er_active_capture_backend e7 = er_active_capture_backend e6" "er_active_reinjection_backend e7 = er_active_reinjection_backend e6"
    using assms(7) by (auto simp: clear_flows_def ft_clear_def Let_def split: if_splits)
  show ?thesis
    using finish_shutdown_ok [OF assms(8)] e1 e2 e3 shared e7 set_active_ok(1) [OF assms(5)] set_active_ok(2) [OF assms(6)] by simp
qed


subsection \<open>What initialization leaves\<close>

definition builtin_manager :: backend_manager where
  "builtin_manager = snd (register_all all_known_descriptors backend_manager_new)"

lemma builtin_manager_registers:
  "register_all all_known_descriptors backend_manager_new = (Inr (), builtin_manager)"
  "bm_names builtin_manager = [''etw'', ''iphelper'', ''npcap'', ''wfp'', ''windivert'']"
  "first_capable Cap_Capture builtin_manager = Some ''npcap''"
  "first_capable Cap_Reinjection builtin_manager = Some ''windivert''"
  by code_simp+

lemma builtin_stopped:
  "list_all (\<lambda>n. case bm_runtime_state n builtin_manager of Inr s \<Rightarrow> br_lifecycle s = Bl_Stopped | Inl _ \<Rightarrow> False)
     (bm_names builtin_manager)"
  by code_simp

lemma synchronize_frame:
  "synchronize_network_state b e = (Inr u, e') \<Longrightarrow> \<exists>ns. e' = e\<lparr> er_network_state := Free ns \<rparr>"
  by (auto simp: synchronize_network_state_def split: if_splits sum.splits prod.splits mutex.splits)

lemma initialize_shape:
  assumes "runtime_initialize c sr = Ok e"
  shows "\<exists>pool b ns. iphelper_start sr iphelper_new = (Inr (), b) \<and>
    e = (let e0 = runtime_of pool (ic_queue_capacity c) (ic_max_flows c) in
      e0\<lparr> er_shared := (er_shared e0)\<lparr> ps_state := snd (engine_init engine_state_new), ps_workers := start_all (worker_pool_new 2) \<rparr>,
        er_backend_manager := builtin_manager, er_network_state := Free ns, er_iphelper_backend := Free (Some b),
        er_active_capture_backend := Free (Some ''npcap''), er_active_reinjection_backend := Free (Some ''windivert''),
        er_initialized := True \<rparr>)"
proof -
  let ?e0 = "\<lambda>pool. runtime_of pool (ic_queue_capacity c) (ic_max_flows c)"
  let ?e1 = "\<lambda>pool. (upd_state (snd (engine_init engine_state_new)) (?e0 pool))\<lparr> er_initialized := True, er_backend_manager := builtin_manager \<rparr>"
  obtain pool where pool: "runtime_new (ic_queue_capacity c) (ic_pool_max_size c) (ic_buffer_capacity c) (ic_max_flows c) = Ok (?e0 pool)"
    using assms by (auto simp: runtime_initialize_def runtime_new_def split: sum.splits)
  have init: "engine_init (er_state (?e0 pool)) = (Inr (), snd (engine_init engine_state_new))"
    by (simp add: runtime_of_def engine_init_def engine_state_new_def)
  have reg: "register_builtin_backends ((upd_state st (?e0 pool))\<lparr> er_initialized := True \<rparr>) =
      (Inr (), (upd_state st (?e0 pool))\<lparr> er_initialized := True, er_backend_manager := builtin_manager \<rparr>)" for st
    by (simp add: register_builtin_backends_def upd_state_def runtime_of_def builtin_manager_registers(1))
  obtain b e2 where b: "iphelper_start sr iphelper_new = (Inr (), b)"
    and e2: "synchronize_network_state b (?e1 pool) = (Inr (), e2)"
    using assms pool init reg
    by (auto simp: runtime_initialize_def split: sum.splits if_splits prod.splits)
  from synchronize_frame [OF e2] obtain ns where ns: "e2 = (?e1 pool)\<lparr> er_network_state := Free ns \<rparr>" ..
  have e2f: "er_iphelper_backend e2 = Free None" "er_backend_manager e2 = builtin_manager" "er_active_capture_backend e2 = Free None"
    "er_active_reinjection_backend e2 = Free None" "\<not> ps_workers_poisoned (er_shared e2)" "ps_workers (er_shared e2) = worker_pool_new 2"
    by (simp_all add: ns upd_state_def runtime_of_def)
  have "e = e2\<lparr> er_iphelper_backend := Free (Some b), er_active_capture_backend := Free (Some ''npcap''),
      er_active_reinjection_backend := Free (Some ''windivert''), er_shared := (er_shared e2)\<lparr> ps_workers := start_all (worker_pool_new 2) \<rparr> \<rparr>"
    using assms pool init reg b e2 e2f
    by (auto simp: runtime_initialize_def builtin_manager_registers set_active_capture_backend_def set_active_reinjection_backend_def Let_def
        split: sum.splits if_splits)
  with b ns show ?thesis
    by (intro exI [of _ pool] exI [of _ b] exI [of _ ns]) (simp add: Let_def upd_state_def runtime_of_def)
qed

lemma initialize_facts:
  assumes "runtime_initialize c sr = Ok e"
  shows "rt_is_initialized e" and "er_state e = snd (engine_init engine_state_new)" and "er_bus e = bus_new (ic_queue_capacity c)"
    and "er_backend_manager e = builtin_manager" and "\<exists>b. er_iphelper_backend e = Free (Some b) \<and> ihb_running b"
    and "er_active_capture_backend e = Free (Some ''npcap'')" and "er_active_reinjection_backend e = Free (Some ''windivert'')"
    and "er_capture_thread e = Free None" and "er_processing_thread e = Free None" and "er_windivert_action e = Free None"
    and "er_npcap_backend e = Free None" and "er_windivert_backend e = Free None" and "er_wfp_backend e = Free None"
    and "er_gateway e = Free (gateway_capability_new gateway_policy_default)"
    and "\<not> ps_workers_poisoned (er_shared e)" and "\<not> ps_metadata_poisoned (er_shared e)" and "\<not> ps_flow_table_poisoned (er_shared e)"
proof -
  obtain pool b ns where b: "iphelper_start sr iphelper_new = (Inr (), b)"
    and e: "e = (let e0 = runtime_of pool (ic_queue_capacity c) (ic_max_flows c) in
      e0\<lparr> er_shared := (er_shared e0)\<lparr> ps_state := snd (engine_init engine_state_new), ps_workers := start_all (worker_pool_new 2) \<rparr>,
        er_backend_manager := builtin_manager, er_network_state := Free ns, er_iphelper_backend := Free (Some b),
        er_active_capture_backend := Free (Some ''npcap''), er_active_reinjection_backend := Free (Some ''windivert''),
        er_initialized := True \<rparr>)"
    using initialize_shape [OF assms] by blast
  show "\<exists>b. er_iphelper_backend e = Free (Some b) \<and> ihb_running b"
    using b by (auto simp: e Let_def iphelper_start_def dest: refresh_running split: if_splits prod.splits sum.splits)
  show "rt_is_initialized e"
    by (simp add: e Let_def rt_is_initialized_def engine_init_def engine_state_new_def)
qed (use initialize_shape [OF assms] in \<open>auto simp: Let_def runtime_of_def\<close>)

text \<open>
  A new engine routes capture to Npcap, the first registered backend with the capability, for which
  \<open>capture_start\<close> has no worker: capture cannot be started.
\<close>

theorem fresh_engine_cannot_capture:
  assumes "runtime_initialize c sr = Ok e"
  shows "capture_start nr spawned e = (Inl (Error_Message EC_CapabilityUnavailable
    (''capture backend '' @ quoted ''npcap'' @ '' has no connected Engine capture worker'')), e)"
proof -
  note facts = initialize_facts [OF assms]
  have "rt_require_running e = Inr ()"
    using facts(1,2) by (simp add: rt_require_running_def runtime_require_running_def rt_is_initialized_def require_running_def
        engine_lifecycle_of_def engine_init_def engine_state_new_def)
  then show ?thesis
    using facts(6,8) by (simp add: capture_start_def active_capture_backend_def lock_mutex_def)
qed

text \<open>
  A new engine holds the IP Helper instance it read the network state from, while the manager
  records that backend as stopped. Shutdown skips it and then reports that a handle is still owned; the lifecycle is left in
  \<open>ShuttingDown\<close>, in which every further attempt is refused.
\<close>

lemma stop_all_builtin:
  assumes "er_backend_manager e = builtin_manager"
  shows "stop_all_native_backends nr e = (Inr (), e)"
proof -
  have "fold (stop_one_backend nr) names (False, e) = (False, e)"
    if "list_all (\<lambda>n. case bm_runtime_state n builtin_manager of Inr s \<Rightarrow> br_lifecycle s = Bl_Stopped | Inl _ \<Rightarrow> False) names" for names
    using that by (induction names) (auto simp: stop_one_backend_def assms bl_can_stop_def split: sum.splits)
  with builtin_stopped show ?thesis by (simp add: stop_all_native_backends_def assms)
qed

lemma drain_empty: "q_items (bus_queue (er_bus e)) = [] \<Longrightarrow> \<not> q_poisoned (bus_queue (er_bus e)) \<Longrightarrow>
    drain_queue e = upd_bus (bus_close (er_bus e)) e"
  by (subst drain_queue_def, subst drain_bus.simps)
    (auto simp: try_read_def try_dequeue_def bus_close_def queue_close_def upd_bus_def upd_statistics_def)

lemma release_all_builtin:
  assumes "er_backend_manager e = builtin_manager" and "er_windivert_action e = Free None"
    and "er_active_capture_backend e = Free a" and "er_active_reinjection_backend e = Free r"
    and "\<not> ps_workers_poisoned (er_shared e)" and "\<not> ps_metadata_poisoned (er_shared e)" and "\<not> ps_flow_table_poisoned (er_shared e)"
  shows "release_all sh e = finish_shutdown (e\<lparr> er_active_capture_backend := Free None, er_active_reinjection_backend := Free None,
    er_shared := (er_shared e)\<lparr> ps_workers := sh_workers sh, ps_metadata := [],
      ps_flow_table := snd (ft_clear (ps_flow_table (er_shared e))) \<rparr> \<rparr>)"
  using assms by (simp add: release_all_def try_then_def stop_workers_def clear_metadata_def stop_all_builtin stop_action_handle_def
      set_active_capture_backend_def set_active_reinjection_backend_def clear_flows_def)

theorem fresh_engine_cannot_shut_down:
  assumes "runtime_initialize c sr = Ok e"
  shows "\<exists>e'. rt_shutdown sh e = (Inl (Error_Message EC_BackendStopFailed
      ''shutdown incomplete: native thread or backend handle remains owned by the engine''), e') \<and>
    fst (rt_shutdown sh' e') = Inl (Error_Code EC_InvalidStateTransition)"
proof -
  note facts = initialize_facts [OF assms]
  obtain b where b: "er_iphelper_backend e = Free (Some b)" using facts(5) by blast
  let ?st = "(er_state e)\<lparr> es_lifecycle := ShuttingDown, es_shutdown_requested := True \<rparr>"
  define e3 where "e3 = upd_state ?st (e\<lparr> er_capture_stop := True, er_processing_stop := True \<rparr>)"
  define e4 where "e4 = upd_bus (bus_close (er_bus e3)) e3"
  define e5 where "e5 = e4\<lparr> er_active_capture_backend := Free None, er_active_reinjection_backend := Free None,
    er_shared := (er_shared e4)\<lparr> ps_workers := sh_workers sh, ps_metadata := [],
      ps_flow_table := snd (ft_clear (ps_flow_table (er_shared e4))) \<rparr> \<rparr>"
  note es = e3_def e4_def e5_def upd_state_def upd_bus_def
  have "drain_queue e3 = e4"
    unfolding e4_def using facts(3) by (intro drain_empty) (simp_all add: e3_def upd_state_def bus_new_def queue_new_def)
  moreover have "capture_stop (sh_capture sh) e = (Inr (), e\<lparr> er_capture_stop := True \<rparr>)"
    using facts(8) by (simp add: capture_stop_def)
  moreover have "begin_rt_shutdown (stop_processing_worker (sh_processing sh) (e\<lparr> er_capture_stop := True \<rparr>)) = (Inr (), e3)"
    using facts(2,9) by (simp add: stop_processing_worker_def begin_rt_shutdown_def begin_shutdown_def engine_init_def engine_state_new_def e3_def)
  moreover have "stop_gateway e3 = (Inr (), e3)"
    using facts(14) by (simp add: stop_gateway_def es gateway_capability_new_def Let_def)
  moreover have "release_all sh e4 = finish_shutdown e5"
    unfolding e5_def using facts by (intro release_all_builtin) (simp_all add: e4_def e3_def upd_state_def upd_bus_def)
  moreover have "finish_shutdown e5 = (Inl (Error_Message EC_BackendStopFailed
      ''shutdown incomplete: native thread or backend handle remains owned by the engine''), e5)"
    using facts(8-13) b by (simp add: finish_shutdown_def owned_handles_def slot_held_def try_then_def es)
  ultimately have "rt_shutdown sh e = (Inl (Error_Message EC_BackendStopFailed
      ''shutdown incomplete: native thread or backend handle remains owned by the engine''), e5)"
    using facts(1) by (simp add: rt_shutdown_def try_then_def)
  moreover have "fst (rt_shutdown sh' e5) = Inl (Error_Code EC_InvalidStateTransition)"
    using facts(1,2,8,9)
    by (simp add: rt_shutdown_def capture_stop_def stop_processing_worker_def begin_rt_shutdown_def begin_shutdown_def try_then_def
        engine_init_def engine_state_new_def rt_is_initialized_def es)
  ultimately show ?thesis by blast
qed

subsection \<open>Witnesses\<close>

definition demo_config :: init_config where
  "demo_config = \<lparr> ic_queue_capacity = 4, ic_pool_max_size = 4, ic_buffer_capacity = 64, ic_max_flows = 4 \<rparr>"

abbreviation demo_system :: system_replies where
  "demo_system \<equiv> nr_iphelper demo_replies"

lemma demo_iphelper: "iphelper_start demo_system iphelper_new = (Inr (), iphelper_new\<lparr> ihb_running := True \<rparr>)"
  by code_simp

lemma demo_synchronizes: "er_network_state e = Free s \<Longrightarrow>
    \<exists>ns. synchronize_network_state (iphelper_new\<lparr> ihb_running := True \<rparr>) e = (Inr (), e\<lparr> er_network_state := Free ns \<rparr>)"
  by (simp add: synchronize_network_state_def iphelper_new_def) (rule exI, rule refl)

lemma demo_initializes: "\<exists>e. runtime_initialize demo_config demo_system = Ok e"
proof -
  let ?pool = "\<lparr> p_max_size = 4, p_buffer_capacity = 64, p_buffers = [], p_poisoned = False, p_allocated = 0, p_in_use = 0 \<rparr>"
  let ?e = "(upd_state (snd (engine_init engine_state_new)) (runtime_of ?pool 4 4))\<lparr> er_initialized := True, er_backend_manager := builtin_manager \<rparr>"
  have "er_network_state ?e = Free snapshot_default" by (simp add: upd_state_def runtime_of_def)
  from demo_synchronizes [OF this] obtain ns where
    sync: "synchronize_network_state (iphelper_new\<lparr> ihb_running := True \<rparr>) ?e = (Inr (), ?e\<lparr> er_network_state := Free ns \<rparr>)" ..
  have e: "er_state (runtime_of ?pool 4 4) = engine_state_new" "q_capacity (bus_queue (er_bus (runtime_of ?pool 4 4))) = 4"
    "register_builtin_backends ((upd_state st (runtime_of ?pool 4 4))\<lparr> er_initialized := True \<rparr>) =
       (Inr (), (upd_state st (runtime_of ?pool 4 4))\<lparr> er_initialized := True, er_backend_manager := builtin_manager \<rparr>)" for st
    by (simp_all add: runtime_of_def bus_new_def queue_new_def register_builtin_backends_def upd_state_def builtin_manager_registers)
  have "engine_init engine_state_new = (Inr (), snd (engine_init engine_state_new))"
    by (simp add: engine_init_def engine_state_new_def)
  note run = this e sync demo_iphelper
  have slots: "er_iphelper_backend ?e = Free None" "er_active_capture_backend ?e = Free None"
    "er_active_reinjection_backend ?e = Free None" "\<not> ps_workers_poisoned (er_shared ?e)"
    by (simp_all add: upd_state_def runtime_of_def)
  show ?thesis
    using run slots
    by (auto simp: runtime_initialize_def init_config_validate_def demo_config_def runtime_new_def pool_new_def Let_def
        builtin_manager_registers set_active_capture_backend_def set_active_reinjection_backend_def split: prod.splits)
qed

theorem fresh_engine_cannot_capture_witness:
  "\<exists>e. runtime_initialize demo_config demo_system = Ok e \<and> fst (capture_start demo_replies True e) \<noteq> Inr ()"
proof -
  obtain e where e: "runtime_initialize demo_config demo_system = Ok e" using demo_initializes ..
  with fresh_engine_cannot_capture [OF e, of demo_replies True] show ?thesis by auto
qed

definition demo_shutdown :: shutdown_replies where
  "demo_shutdown = \<lparr> sh_native = demo_replies, sh_capture = None, sh_processing = None, sh_workers = close_admission (worker_pool_new 2) \<rparr>"

theorem fresh_engine_cannot_shut_down_witness:
  "\<exists>e. runtime_initialize demo_config demo_system = Ok e \<and> fst (rt_shutdown demo_shutdown e) \<noteq> Inr ()"
proof -
  obtain e where e: "runtime_initialize demo_config demo_system = Ok e" using demo_initializes ..
  with fresh_engine_cannot_shut_down [OF e, of demo_shutdown demo_shutdown] show ?thesis by auto
qed

lemma demo_shuts_down: "fst (rt_shutdown demo_shutdown demo_base) = Inr ()"
proof -
  let ?e = "upd_state ((er_state demo_base)\<lparr> es_lifecycle := ShuttingDown, es_shutdown_requested := True \<rparr>)
    (demo_base\<lparr> er_capture_stop := True, er_processing_stop := True \<rparr>)"
  have bus: "er_bus ?e = bus_new 4" by (simp add: demo_base_def runtime_of_def upd_state_def)
  have drain: "drain_queue ?e = upd_bus (bus_close (bus_new 4)) ?e"
    using drain_empty [of ?e] unfolding bus by (simp add: bus_new_def queue_new_def)
  have "rt_shutdown demo_shutdown demo_base = release_all demo_shutdown (drain_queue ?e)"
    by (simp add: rt_shutdown_def try_then_def capture_stop_def stop_processing_worker_def begin_rt_shutdown_def begin_shutdown_def
        stop_gateway_def rt_is_initialized_def demo_base_def runtime_of_def upd_state_def engine_init_def engine_state_new_def
        demo_shutdown_def gateway_capability_new_def)
  also have "fst \<dots> = Inr ()"
    unfolding drain
    by (simp add: release_all_def try_then_def stop_workers_def clear_metadata_def stop_all_native_backends_def stop_action_handle_def
        set_active_capture_backend_def set_active_reinjection_backend_def clear_flows_def finish_shutdown_def owned_handles_def
        slot_held_def demo_base_def runtime_of_def upd_state_def upd_bus_def engine_init_def engine_state_new_def bm_names_def
        backend_manager_new_def engine_shutdown_def hm_keys_def)
  finally show ?thesis .
qed


end
