(* ===== verification/Api.thy ===== *)
theory Api
  imports Engine_Lifecycle
begin

text \<open>
  The rest of the C interface: life cycle, backends, capture, statistics, flows, network state,
  gateway, buffer pool and error messages of \<open>crates/ffi/src/api.rs\<close>, the backend functions of
  \<open>ffi_backend.rs\<close>, the packet policy of \<open>policy_api.rs\<close> and the entry points of
  \<open>capture_api.rs\<close>. A string argument is \<open>None\<close> when the pointer is null and
  \<open>Some None\<close> when it is not valid UTF-8; a buffer argument says whether the pointer is null and how
  many bytes it has, and a function returns what it wrote there.
\<close>

subsection \<open>Strings and the engine lock\<close>

type_synonym c_string = "string option option"

definition read_string :: "c_string \<Rightarrow> ffi_state \<Rightarrow> (int + string) \<times> ffi_state" where
  "read_string p g = (case p of
      None \<Rightarrow> (Inl ne_invalid_argument, set_last_error ''invalid string pointer'' g)
    | Some None \<Rightarrow> (Inl ne_invalid_argument, set_last_error ''string is not valid UTF-8'' g)
    | Some (Some s) \<Rightarrow> (Inr s, g))"

definition read_name :: "c_string \<Rightarrow> ffi_state \<Rightarrow> (int + string) \<times> ffi_state" where
  "read_name p g = (case p of
      None \<Rightarrow> (Inl ne_invalid_argument, set_last_error ''invalid backend name pointer'' g)
    | Some None \<Rightarrow> (Inl ne_invalid_argument, set_last_error ''backend name is not valid UTF-8'' g)
    | Some (Some s) \<Rightarrow> (Inr s, g))"

record out_buffer =
  ob_null :: bool
  ob_size :: u32

text \<open>The bytes written include the terminating zero.\<close>

definition copy_string :: "out_buffer \<Rightarrow> string \<Rightarrow> ffi_state \<Rightarrow> (int \<times> ffi_state) \<times> string option" where
  "copy_string p s g =
     (if ob_null p then (report ne_invalid_argument ''invalid output buffer'' g, None)
      else if ob_size p = 0 \<or> length s + 1 > unat (ob_size p) then (report ne_buffer_exhausted ''output buffer too small'' g, None)
      else (report ne_ok ''OK'' g, Some (s @ [CHR 0x00])))"

definition with_engine :: "(engine_runtime \<Rightarrow> 'a engine_result \<times> engine_runtime) \<Rightarrow> ffi_state \<Rightarrow> (int + 'a) \<times> ffi_state" where
  "with_engine f g = (case g_engine g of
      Poisoned \<Rightarrow> (Inl ne_internal, set_last_error ''engine mutex poisoned'' g)
    | Free None \<Rightarrow> (Inl ne_not_initialized, set_last_error ''engine is not initialized'' g)
    | Free (Some e) \<Rightarrow> (case f e of
        (Inr x, e) \<Rightarrow> (Inr x, upd_engine e g)
      | (Inl err, e) \<Rightarrow> (case error_to_c err (upd_engine e g) of (code, g) \<Rightarrow> (Inl code, g))))"

text \<open>A command without a result, and a query whose value becomes the result.\<close>

definition run_command :: "(engine_runtime \<Rightarrow> unit engine_result \<times> engine_runtime) \<Rightarrow> ffi_state \<Rightarrow> int \<times> ffi_state" where
  "run_command f g = (case with_engine f g of (Inr _, g) \<Rightarrow> report ne_ok ''OK'' g | (Inl code, g) \<Rightarrow> (code, g))"

definition run_query :: "(engine_runtime \<Rightarrow> 'a engine_result \<times> engine_runtime) \<Rightarrow> ('a \<Rightarrow> int) \<Rightarrow> ffi_state \<Rightarrow> int \<times> ffi_state" where
  "run_query f as_c g = (case with_engine f g of (Inr x, g) \<Rightarrow> report (as_c x) ''OK'' g | (Inl code, g) \<Rightarrow> (code, g))"

definition run_text :: "(engine_runtime \<Rightarrow> string engine_result \<times> engine_runtime) \<Rightarrow> out_buffer \<Rightarrow> ffi_state \<Rightarrow> (int \<times> ffi_state) \<times> string option" where
  "run_text f p g = (case with_engine f g of (Inr s, g) \<Rightarrow> copy_string p s g | (Inl code, g) \<Rightarrow> ((code, g), None))"

text \<open>The value of a counter; 0 without an engine.\<close>

definition read_count :: "(engine_runtime \<Rightarrow> nat) \<Rightarrow> ffi_state \<Rightarrow> u32" where
  "read_count f g = (case g_engine g of Free (Some e) \<Rightarrow> word_of_nat (min (f e) (2 ^ 32 - 1)) | _ \<Rightarrow> 0)"

definition asking :: "(engine_runtime \<Rightarrow> 'a engine_result) \<Rightarrow> engine_runtime \<Rightarrow> 'a engine_result \<times> engine_runtime" where
  "asking f e = (f e, e)"

subsection \<open>Life cycle\<close>

record ne_init_config =
  nic_queue_capacity :: u32
  nic_pool_max_size :: u32
  nic_buffer_capacity :: u32
  nic_max_flows :: u32

definition ne_init_config_default :: ne_init_config where
  "ne_init_config_default = \<lparr> nic_queue_capacity = 4096, nic_pool_max_size = 1024, nic_buffer_capacity = 65536, nic_max_flows = 65536 \<rparr>"

definition nic_is_valid :: "ne_init_config \<Rightarrow> bool" where
  "nic_is_valid c \<longleftrightarrow> nic_queue_capacity c > 0 \<and> nic_pool_max_size c > 0 \<and> nic_buffer_capacity c > 0 \<and> nic_max_flows c > 0"

text \<open>\<open>prep\<close> is what \<open>native_runtime::prepare\<close> returns; its failure only sets the message.\<close>

definition network_init :: "string option \<Rightarrow> system_replies \<Rightarrow> ne_init_config option \<Rightarrow> ffi_state \<Rightarrow> (unit, int \<times> ffi_state) outcome" where
  "network_init prep sr c g =
     (let g = (case prep of None \<Rightarrow> g | Some reason \<Rightarrow> set_last_error reason g) in
      case c of
        None \<Rightarrow> Ok (report ne_invalid_argument ''invalid initialization pointer'' g)
      | Some x \<Rightarrow> (case g_engine g of
          Poisoned \<Rightarrow> Ok (report ne_internal ''engine mutex poisoned'' g)
        | Free (Some _) \<Rightarrow> Ok (report ne_already_initialized ''engine is already initialized'' g)
        | Free None \<Rightarrow>
            if \<not> nic_is_valid x then Ok (report ne_invalid_argument ''invalid initialization configuration'' g)
            else case runtime_initialize \<lparr> ic_queue_capacity = unat (nic_queue_capacity x), ic_pool_max_size = unat (nic_pool_max_size x),
                ic_buffer_capacity = unat (nic_buffer_capacity x), ic_max_flows = unat (nic_max_flows x) \<rparr> sr of
              Ok e \<Rightarrow> Ok (report ne_ok ''OK'' (upd_engine e g))
            | Err err \<Rightarrow> Ok (error_to_c err g)
            | Panic \<Rightarrow> Panic))"

definition network_shutdown :: "shutdown_replies \<Rightarrow> ffi_state \<Rightarrow> int \<times> ffi_state" where
  "network_shutdown sh g = (case g_engine g of
      Poisoned \<Rightarrow> report ne_internal ''engine mutex poisoned'' g
    | Free None \<Rightarrow> report ne_not_initialized ''engine is not initialized'' g
    | Free (Some e) \<Rightarrow> (case rt_shutdown sh e of
        (Inr _, e) \<Rightarrow> report ne_ok ''OK'' (g\<lparr> g_engine := Free None,
          g_handles := (case g_handles g of Free _ \<Rightarrow> Free [] | Poisoned \<Rightarrow> Poisoned) \<rparr>)
      | (Inl err, e) \<Rightarrow> error_to_c err (upd_engine e g)))"

definition network_is_initialized :: "ffi_state \<Rightarrow> int" where
  "network_is_initialized g = (case g_engine g of Free (Some e) \<Rightarrow> if rt_is_initialized e then 1 else 0 | _ \<Rightarrow> 0)"

subsection \<open>Backends\<close>

primrec lifecycle_as_c :: "backend_lifecycle \<Rightarrow> int" where
  "lifecycle_as_c Bl_Disabled = 0"
| "lifecycle_as_c Bl_Starting = 1"
| "lifecycle_as_c Bl_Running = 2"
| "lifecycle_as_c Bl_Degraded = 3"
| "lifecycle_as_c Bl_Failed = 4"
| "lifecycle_as_c Bl_Stopping = 5"
| "lifecycle_as_c Bl_Stopped = 6"

primrec health_as_c :: "backend_health \<Rightarrow> int" where
  "health_as_c Health_Unknown = 0"
| "health_as_c Health_Healthy = 1"
| "health_as_c Health_Degraded = 2"
| "health_as_c Health_Unhealthy = 3"

primrec failover_policy_as_c :: "failover_policy \<Rightarrow> int" where
  "failover_policy_as_c Fp_None = 0"
| "failover_policy_as_c Fp_PreferPrimary = 1"
| "failover_policy_as_c Fp_PreferHealthy = 2"
| "failover_policy_as_c Fp_RoundRobin = 3"

fun join_with :: "string \<Rightarrow> string list \<Rightarrow> string" where
  "join_with sep [] = []"
| "join_with sep [s] = s"
| "join_with sep (s # t # ss) = s @ sep @ join_with sep (t # ss)"

definition newline :: string where "newline = [CHR 0x0A]"

definition backend_count :: "ffi_state \<Rightarrow> u32" where
  "backend_count = read_count (\<lambda>e. length (bm_names (er_backend_manager e)))"

definition backend_list :: "out_buffer \<Rightarrow> u32 \<Rightarrow> ffi_state \<Rightarrow> (int \<times> ffi_state) \<times> string option" where
  "backend_list p n g =
     (if ob_null p then (report ne_invalid_argument ''invalid backend list buffer'' g, None)
      else run_text (asking (\<lambda>e. Inr (join_with newline (take (unat n) (bm_names (er_backend_manager e)))))) p g)"

definition backend_status :: "c_string \<Rightarrow> ffi_state \<Rightarrow> int \<times> ffi_state" where
  "backend_status p g = (case read_string p g of
      (Inl code, g) \<Rightarrow> (code, g)
    | (Inr n, g) \<Rightarrow> run_query (asking (backend_lifecycle_of n)) lifecycle_as_c g)"

definition backend_set_status :: "u64 \<Rightarrow> native_replies \<Rightarrow> c_string \<Rightarrow> int \<Rightarrow> ffi_state \<Rightarrow> int \<times> ffi_state" where
  "backend_set_status now nr p s g = (case read_string p g of
      (Inl code, g) \<Rightarrow> (code, g)
    | (Inr n, g) \<Rightarrow>
        if s = 2 then run_command (start_backend now nr n) g
        else if s = 6 then run_command (stop_backend nr n) g
        else case g_engine g of
          Poisoned \<Rightarrow> report ne_internal ''engine mutex poisoned'' g
        | Free None \<Rightarrow> report ne_not_initialized ''engine is not initialized'' g
        | Free (Some _) \<Rightarrow> report ne_invalid_argument ''unsupported backend lifecycle command'' g)"

definition backend_register :: "c_string \<Rightarrow> ffi_state \<Rightarrow> int \<times> ffi_state" where
  "backend_register p g = (case read_string p g of
      (Inl code, g) \<Rightarrow> (code, g)
    | (Inr n, g) \<Rightarrow>
        if trim n = [] then report ne_invalid_argument ''backend name must not be empty'' g
        else run_command (register_backend (backend_descriptor_new n ''0.1.0'' ''FFI registered backend'' [])) g)"

subsubsection \<open>\<open>ffi_backend.rs\<close>\<close>

definition capability_from_c :: "int \<Rightarrow> ffi_state \<Rightarrow> (int + backend_capability) \<times> ffi_state" where
  "capability_from_c v g =
     (if v < 0 \<or> v \<ge> 2 ^ 16 then (Inl ne_invalid_argument, set_last_error ''invalid backend capability'' g)
      else case cap_from_u16 (word_of_int v) of
        None \<Rightarrow> (Inl ne_invalid_argument, set_last_error ''invalid backend capability'' g)
      | Some c \<Rightarrow> (Inr c, g))"

definition api_backend_health :: "c_string \<Rightarrow> ffi_state \<Rightarrow> int \<times> ffi_state" where
  "api_backend_health p g = (case read_name p g of
      (Inl code, g) \<Rightarrow> (code, g)
    | (Inr n, g) \<Rightarrow> run_query (asking (\<lambda>e. bm_health n (er_backend_manager e))) health_as_c g)"

definition backend_capability_count :: "c_string \<Rightarrow> ffi_state \<Rightarrow> u32 \<times> ffi_state" where
  "backend_capability_count p g = (case read_name p g of
      (Inl _, g) \<Rightarrow> (0, g)
    | (Inr n, g) \<Rightarrow> (case with_engine (asking (\<lambda>e. bm_capabilities n (er_backend_manager e))) g of
        (Inr s, g) \<Rightarrow> (word_of_nat (min (length s) (2 ^ 32 - 1)), set_last_error ''OK'' g)
      | (Inl _, g) \<Rightarrow> (0, set_last_error ''failed to query backend capabilities'' g)))"

definition backend_capabilities :: "c_string \<Rightarrow> out_buffer \<Rightarrow> ffi_state \<Rightarrow> (int \<times> ffi_state) \<times> string option" where
  "backend_capabilities name p g = (case read_name name g of
      (Inl code, g) \<Rightarrow> ((code, g), None)
    | (Inr n, g) \<Rightarrow>
        if ob_null p then (report ne_invalid_argument ''invalid backend capabilities buffer'' g, None)
        else run_text (asking (\<lambda>e. map_sum id (\<lambda>s. join_with newline
            (map (\<lambda>c. show_nat (unat (cap_sort_key c)) @ '':'' @ cap_as_str c) (capability_set_to_vec s)))
          (bm_capabilities n (er_backend_manager e)))) p g)"

definition api_failover_policy :: "ffi_state \<Rightarrow> int \<times> ffi_state" where
  "api_failover_policy = run_query (asking (\<lambda>e. bm_failover_policy_of (er_backend_manager e))) failover_policy_as_c"

definition failover_policy_from_c :: "int \<Rightarrow> failover_policy option" where
  "failover_policy_from_c v = (if v = 0 then Some Fp_None else if v = 1 then Some Fp_PreferPrimary
     else if v = 2 then Some Fp_PreferHealthy else if v = 3 then Some Fp_RoundRobin else None)"

definition backend_set_failover_policy :: "int \<Rightarrow> ffi_state \<Rightarrow> int \<times> ffi_state" where
  "backend_set_failover_policy v g = (case failover_policy_from_c v of
      None \<Rightarrow> report ne_invalid_argument ''invalid failover policy'' g
    | Some policy \<Rightarrow> run_command (on_manager (bm_set_failover_policy policy)) g)"

definition backend_select :: "int \<Rightarrow> out_buffer \<Rightarrow> ffi_state \<Rightarrow> (int \<times> ffi_state) \<times> string option" where
  "backend_select v p g = (case capability_from_c v g of
      (Inl code, g) \<Rightarrow> ((code, g), None)
    | (Inr c, g) \<Rightarrow>
        if ob_null p then (report ne_invalid_argument ''invalid backend selection buffer'' g, None)
        else case with_engine (\<lambda>e. case select_backend c (er_backend_manager e) of
            (found, m) \<Rightarrow> (Inr found, e\<lparr> er_backend_manager := m \<rparr>)) g of
          (Inr (Some name), g) \<Rightarrow> copy_string p name g
        | (Inr None, g) \<Rightarrow> (report ne_backend_unavailable ''no available backend provides the requested capability'' g, None)
        | (Inl code, g) \<Rightarrow> ((code, g), None))"

definition backend_find_capable :: "int \<Rightarrow> int \<Rightarrow> out_buffer \<Rightarrow> ffi_state \<Rightarrow> (int \<times> ffi_state) \<times> string option" where
  "backend_find_capable v healthy_only p g = (case capability_from_c v g of
      (Inl code, g) \<Rightarrow> ((code, g), None)
    | (Inr c, g) \<Rightarrow>
        if healthy_only \<noteq> 0 \<and> healthy_only \<noteq> 1 then (report ne_invalid_argument ''healthy_only must be 0 or 1'' g, None)
        else if ob_null p then (report ne_invalid_argument ''invalid backend candidates buffer'' g, None)
        else run_text (asking (\<lambda>e. Inr (join_with newline
          (if healthy_only = 1 then find_healthy_capable c (er_backend_manager e) else find_capable c (er_backend_manager e))))) p g)"

definition backend_record_success :: "u64 \<Rightarrow> c_string \<Rightarrow> ffi_state \<Rightarrow> int \<times> ffi_state" where
  "backend_record_success now p g = (case read_name p g of
      (Inl code, g) \<Rightarrow> (code, g)
    | (Inr n, g) \<Rightarrow> run_query (on_manager (bm_record_success now n)) health_as_c g)"

definition backend_record_failure :: "u64 \<Rightarrow> c_string \<Rightarrow> int \<Rightarrow> ffi_state \<Rightarrow> int \<times> ffi_state" where
  "backend_record_failure now p native_error g = (case read_name p g of
      (Inl code, g) \<Rightarrow> (code, g)
    | (Inr n, g) \<Rightarrow> run_query (on_manager (bm_record_failure now n (Some native_error))) health_as_c g)"

definition backend_failover ::
  "(string \<Rightarrow> engine_runtime \<Rightarrow> string engine_result \<times> engine_runtime) \<Rightarrow> c_string \<Rightarrow> out_buffer \<Rightarrow> ffi_state \<Rightarrow>
   (int \<times> ffi_state) \<times> string option" where
  "backend_failover command name p g = (case read_name name g of
      (Inl code, g) \<Rightarrow> ((code, g), None)
    | (Inr n, g) \<Rightarrow>
        if ob_null p then (report ne_invalid_argument ''invalid failover output buffer'' g, None)
        else run_text (\<lambda>e. try_then (bm_runtime_state n (er_backend_manager e), e) (\<lambda>_ e. command n e)) p g)"

definition backend_failover_capture :: "native_replies \<Rightarrow> c_string \<Rightarrow> out_buffer \<Rightarrow> ffi_state \<Rightarrow> (int \<times> ffi_state) \<times> string option" where
  "backend_failover_capture nr = backend_failover (failover_capture_backend nr)"

definition backend_failover_reinjection :: "native_replies \<Rightarrow> c_string \<Rightarrow> out_buffer \<Rightarrow> ffi_state \<Rightarrow> (int \<times> ffi_state) \<times> string option" where
  "backend_failover_reinjection nr = backend_failover (failover_reinjection_backend nr)"

subsection \<open>Capture\<close>

definition api_capture_start :: "native_replies \<Rightarrow> bool \<Rightarrow> ffi_state \<Rightarrow> int \<times> ffi_state" where
  "api_capture_start nr spawned = run_command (capture_start nr spawned)"

definition api_capture_stop :: "(timestamp \<times> timestamp \<times> recv_reply) option \<Rightarrow> ffi_state \<Rightarrow> int \<times> ffi_state" where
  "api_capture_stop in_flight = run_command (capture_stop in_flight)"

definition capture_process :: "observation_hash \<Rightarrow> u64 \<Rightarrow> ffi_state \<Rightarrow> (unit, int \<times> ffi_state) outcome" where
  "capture_process hash now g = (case g_engine g of
      Poisoned \<Rightarrow> Ok (ne_internal, g)
    | Free None \<Rightarrow> Ok (ne_not_initialized, g)
    | Free (Some e) \<Rightarrow> (case process_one (er_initialized e) hash now (er_shared e) of
        (Ok _, s) \<Rightarrow> Ok (ne_ok, upd_engine (e\<lparr> er_shared := s \<rparr>) g)
      | (Err _, s) \<Rightarrow> Ok (ne_internal, upd_engine (e\<lparr> er_shared := s \<rparr>) g)
      | (Panic, s) \<Rightarrow> Panic))"

definition capture_process_has_work :: "ffi_state \<Rightarrow> int" where
  "capture_process_has_work g = (case g_engine g of Free (Some e) \<Rightarrow> if bus_len (er_bus e) = 0 then 0 else 1 | _ \<Rightarrow> 0)"

definition capture_poll :: int where "capture_poll = ne_not_initialized"
definition capture_process_and_apply :: int where "capture_process_and_apply = ne_not_initialized"

definition capture_start_npcap :: "u32 \<Rightarrow> c_string \<Rightarrow> int" where
  "capture_start_npcap i device = (if i = 0 then ne_invalid_argument else case device of
      None \<Rightarrow> ne_invalid_argument
    | Some None \<Rightarrow> ne_invalid_argument
    | Some (Some s) \<Rightarrow> if trim s = [] then ne_invalid_argument else ne_not_initialized)"

subsection \<open>Statistics and flows\<close>

record ne_statistics =
  nes_packets_received :: u64
  nes_bytes_received :: u64
  nes_packets_dropped :: u64
  nes_packets_forwarded :: u64
  nes_flows_active :: u64

text \<open>The sums are unchecked additions.\<close>

definition fill_statistics :: "bool \<Rightarrow> ffi_state \<Rightarrow> (int \<times> ffi_state) \<times> ne_statistics option" where
  "fill_statistics p_null g =
     (if p_null then (report ne_invalid_argument ''invalid statistics pointer'' g, None)
      else case g_engine g of
        Poisoned \<Rightarrow> (report ne_internal ''engine mutex poisoned'' g, None)
      | Free None \<Rightarrow> (report ne_not_initialized ''engine is not initialized'' g, None)
      | Free (Some e) \<Rightarrow>
          if ps_flow_table_poisoned (er_shared e) then (report ne_internal ''flow table mutex poisoned'' g, None)
          else let s = er_statistics e in
            (report ne_ok ''OK'' g, Some \<lparr> nes_packets_received = st_total_packets_received s,
              nes_bytes_received = st_total_bytes_received s,
              nes_packets_dropped = st_drops_host_requested s + st_drops_safety_error s + st_drops_backend_failure s,
              nes_packets_forwarded = st_gateway_packets_forwarded s + st_packets_forwarded s,
              nes_flows_active = word_of_nat (length (ft_flows (ps_flow_table (er_shared e)))) \<rparr>))"

definition bus_queue_depth :: "ffi_state \<Rightarrow> u32" where
  "bus_queue_depth = read_count (\<lambda>e. bus_len (er_bus e))"

definition bus_queue_capacity :: "ffi_state \<Rightarrow> u32" where
  "bus_queue_capacity = read_count (\<lambda>e. q_capacity (bus_queue (er_bus e)))"

definition flow_count :: "ffi_state \<Rightarrow> u32" where
  "flow_count = read_count (\<lambda>e. if ps_flow_table_poisoned (er_shared e) then 0 else length (ft_flows (ps_flow_table (er_shared e))))"

definition json_field :: "string \<Rightarrow> string \<Rightarrow> string" where
  "json_field name value = [CHR 0x22] @ name @ [CHR 0x22] @ '':'' @ value"

definition json_string :: "string \<Rightarrow> string" where
  "json_string s = [CHR 0x22] @ s @ [CHR 0x22]"

definition json_object :: "string list \<Rightarrow> string" where
  "json_object fs = ''{'' @ join_with '','' fs @ ''}''"

definition flow_json :: "flow_table \<Rightarrow> string" where
  "flow_json t = json_object [json_field ''current_entries'' (show_nat (length (ft_flows t))),
     json_field ''max_entries'' (show_nat (ft_max_entries t)), json_field ''total_created'' (show_nat (unat (ft_total_created t))),
     json_field ''total_removed'' (show_nat (unat (ft_total_removed t))), json_field ''total_expired'' (show_nat (unat (ft_total_expired t)))]"

definition flow_get :: "out_buffer \<Rightarrow> ffi_state \<Rightarrow> (int \<times> ffi_state) \<times> string option" where
  "flow_get p g =
     (if ob_null p then (report ne_invalid_argument ''invalid flow output buffer'' g, None)
      else case g_engine g of
        Poisoned \<Rightarrow> (report ne_internal ''engine mutex poisoned'' g, None)
      | Free None \<Rightarrow> (report ne_not_initialized ''engine is not initialized'' g, None)
      | Free (Some e) \<Rightarrow>
          if ps_flow_table_poisoned (er_shared e) then (report ne_internal ''flow table mutex poisoned'' g, None)
          else copy_string p (flow_json (ps_flow_table (er_shared e))) g)"

definition flow_clear_expired :: "u64 \<Rightarrow> ffi_state \<Rightarrow> u32 \<times> ffi_state" where
  "flow_clear_expired now g = (case g_engine g of
      Poisoned \<Rightarrow> (0, set_last_error ''engine mutex poisoned'' g)
    | Free None \<Rightarrow> (0, set_last_error ''engine is not initialized'' g)
    | Free (Some e) \<Rightarrow>
        if ps_flow_table_poisoned (er_shared e) then (0, set_last_error ''flow table mutex poisoned'' g)
        else case ft_expire_idle now (ps_flow_table (er_shared e)) of (n, t) \<Rightarrow>
          (word_of_nat (min n (2 ^ 32 - 1)),
           set_last_error ''OK'' (upd_engine (e\<lparr> er_shared := (er_shared e)\<lparr> ps_flow_table := t \<rparr> \<rparr>) g)))"

subsection \<open>Network state\<close>

primrec show_interface_kind :: "interface_kind \<Rightarrow> string" where
  "show_interface_kind If_Unknown = ''unknown''"
| "show_interface_kind If_Ethernet = ''ethernet''"
| "show_interface_kind If_Wifi = ''wifi''"
| "show_interface_kind If_Loopback = ''loopback''"
| "show_interface_kind If_Tunnel = ''tunnel''"
| "show_interface_kind If_Virtual = ''virtual''"
| "show_interface_kind If_Other = ''other''"

primrec show_interface_state :: "interface_state \<Rightarrow> string" where
  "show_interface_state Ifs_Unknown = ''unknown''"
| "show_interface_state Ifs_Down = ''down''"
| "show_interface_state Ifs_Up = ''up''"
| "show_interface_state Ifs_Dormant = ''dormant''"
| "show_interface_state Ifs_Testing = ''testing''"

definition interface_json :: "interface_info \<Rightarrow> string" where
  "interface_json v = json_object [json_field ''id'' (show_nat (unat (ii_id v))), json_field ''name'' (json_string (ii_name v)),
     json_field ''description'' (json_string (ii_description v)), json_field ''kind'' (json_string (show_interface_kind (ii_kind v))),
     json_field ''state'' (json_string (show_interface_state (ii_state v))), json_field ''mtu'' (show_nat (unat (ii_mtu v))),
     json_field ''if_index'' (case ii_if_index v of Some q \<Rightarrow> show_nat (unat q) | None \<Rightarrow> ''null'')]"

text \<open>\<open>interface_list\<close> with the part of \<open>state_json\<close> it uses, which sets no message on an error.\<close>

definition interface_list :: "out_buffer \<Rightarrow> ffi_state \<Rightarrow> (int \<times> ffi_state) \<times> string option" where
  "interface_list p g = (case g_engine g of
      Poisoned \<Rightarrow> ((ne_internal, g), None)
    | Free None \<Rightarrow> ((ne_not_initialized, g), None)
    | Free (Some e) \<Rightarrow> (case er_network_state e of
        Poisoned \<Rightarrow> ((ne_internal, g), None)
      | Free s \<Rightarrow> copy_string p (''['' @ join_with '','' (map interface_json (sn_interfaces s)) @ '']'') g))"

definition api_interface_info :: "u32 \<Rightarrow> out_buffer \<Rightarrow> ffi_state \<Rightarrow> (int \<times> ffi_state) \<times> string option" where
  "api_interface_info i p g =
     (if ob_null p then (report ne_invalid_argument ''invalid interface output buffer'' g, None)
      else case g_engine g of
        Poisoned \<Rightarrow> (report ne_internal ''engine mutex poisoned'' g, None)
      | Free None \<Rightarrow> (report ne_not_initialized ''engine is not initialized'' g, None)
      | Free (Some e) \<Rightarrow> (case er_network_state e of
          Poisoned \<Rightarrow> (report ne_internal ''network state mutex poisoned'' g, None)
        | Free s \<Rightarrow> (case find (\<lambda>v. ii_id v = ucast i \<or> ii_if_index v = Some i) (sn_interfaces s) of
            None \<Rightarrow> (report ne_invalid_argument ''interface not found'' g, None)
          | Some v \<Rightarrow> copy_string p (interface_json v) g)))"

subsection \<open>Gateway\<close>

record ne_gateway_config =
  ngc_enabled :: u32
  ngc_default_decision :: u32
  ngc_nat_enabled :: u32
  ngc_nat_mode :: u32
  ngc_external_interface_id :: u32
  ngc_forwarding_enabled :: u32
  ngc_ingress_interface_id :: u32
  ngc_egress_interface_id :: u32
  ngc_routing_table_id :: u32
  ngc_preferred_interface_id :: u32

definition nonzero :: "u32 \<Rightarrow> u32 option" where
  "nonzero i = (if i \<noteq> 0 then Some i else None)"

definition nat_mode_from_c :: "u32 \<Rightarrow> nat_policy_mode option" where
  "nat_mode_from_c v = (if v = 0 then Some Nat_Disabled else if v = 1 then Some Nat_Source
     else if v = 2 then Some Nat_Destination else if v = 3 then Some Nat_Masquerade else None)"

definition policy_of_config :: "nat_policy_mode \<Rightarrow> ne_gateway_config \<Rightarrow> gateway_policy" where
  "policy_of_config nat_mode c =
     (let decision = (if ngc_default_decision c \<noteq> 0 then Policy_Allow else Policy_Deny) in
      \<lparr> gp_enabled = (ngc_enabled c \<noteq> 0), gp_default_decision = decision,
        gp_nat = Some \<lparr> np_enabled = (ngc_nat_enabled c \<noteq> 0), np_mode = nat_mode,
          np_external_interface_id = nonzero (ngc_external_interface_id c) \<rparr>,
        gp_forwarding = Some \<lparr> fp_enabled = (ngc_forwarding_enabled c \<noteq> 0),
          fp_ingress_interface_id = nonzero (ngc_ingress_interface_id c),
          fp_egress_interface_id = nonzero (ngc_egress_interface_id c), fp_decision = decision \<rparr>,
        gp_routing = \<lparr> rc_table_id = ngc_routing_table_id c, rc_preferred_interface_id = nonzero (ngc_preferred_interface_id c) \<rparr> \<rparr>)"

definition api_gateway_config :: "ne_gateway_config option \<Rightarrow> ffi_state \<Rightarrow> int \<times> ffi_state" where
  "api_gateway_config p g = (case p of
      None \<Rightarrow> report ne_invalid_argument ''invalid gateway configuration pointer'' g
    | Some c \<Rightarrow>
        if ngc_enabled c > 1 \<or> ngc_default_decision c > 1 \<or> ngc_nat_enabled c > 1 \<or> ngc_forwarding_enabled c > 1 then
          report ne_invalid_argument ''gateway boolean fields must be 0 or 1'' g
        else case nat_mode_from_c (ngc_nat_mode c) of
          None \<Rightarrow> report ne_invalid_argument ''invalid NAT mode'' g
        | Some nat_mode \<Rightarrow>
            let policy = policy_of_config nat_mode c in
            case gateway_policy_validate policy of
              Inl err \<Rightarrow> error_to_c err g
            | Inr _ \<Rightarrow> run_command (rt_gateway_config policy) g)"

definition api_gateway_start :: "ffi_state \<Rightarrow> int \<times> ffi_state" where
  "api_gateway_start = run_command rt_gateway_start"

definition api_gateway_stop :: "ffi_state \<Rightarrow> int \<times> ffi_state" where
  "api_gateway_stop = run_command rt_gateway_stop"

definition gateway_status :: "ffi_state \<Rightarrow> int" where
  "gateway_status g = (case g_engine g of Free (Some e) \<Rightarrow> if rt_gateway_is_running e then 1 else 0 | _ \<Rightarrow> 0)"

subsection \<open>Pool, version, capabilities and messages\<close>

definition pool_allocated_count :: "ffi_state \<Rightarrow> u32" where
  "pool_allocated_count = read_count (\<lambda>e. p_allocated (er_buffer_pool e))"

definition pool_available_count :: "ffi_state \<Rightarrow> u32" where
  "pool_available_count = read_count (\<lambda>e. pool_available (er_buffer_pool e))"

definition engine_version :: "out_buffer \<Rightarrow> ffi_state \<Rightarrow> (int \<times> ffi_state) \<times> string option" where
  "engine_version p = copy_string p ''0.1.0''"

definition capability_check :: "c_string \<Rightarrow> int \<Rightarrow> ffi_state \<Rightarrow> int \<times> ffi_state" where
  "capability_check p v g = (case read_string p g of
      (Inl _, g) \<Rightarrow> (0, g)
    | (Inr n, g) \<Rightarrow>
        if v < 0 \<or> v \<ge> 2 ^ 16 then (0, g)
        else case cap_from_u16 (word_of_int v) of
          None \<Rightarrow> (0, g)
        | Some c \<Rightarrow> (case g_engine g of
            Free (Some e) \<Rightarrow> (case bm_supports n c (er_backend_manager e) of
              Inr b \<Rightarrow> (if b then 1 else 0, g)
            | Inl err \<Rightarrow> (0, set_last_error (error_message err) g))
          | _ \<Rightarrow> (0, g)))"

definition last_error_message :: "out_buffer \<Rightarrow> ffi_state \<Rightarrow> (int \<times> ffi_state) \<times> string option" where
  "last_error_message p g = copy_string p
     (case g_last_error g of Free m \<Rightarrow> m | Poisoned \<Rightarrow> ''internal error: last-error state unavailable'') g"

subsection \<open>The packet policy (\<open>policy_api.rs\<close>)\<close>

definition policy_action :: "int \<Rightarrow> packet_action_policy option" where
  "policy_action v = (if v = 0 then Some Action_Pass else if v = 1 then Some Action_Drop
     else if v = 2 then Some Action_Inspect else None)"

definition policy_direction :: "int \<Rightarrow> direction option option" where
  "policy_direction v = (if v = -1 then Some None else if v = 0 then Some (Some Inbound) else if v = 1 then Some (Some Outbound)
     else if v = 2 then Some (Some Direction_Unknown) else None)"

definition policy_protocol :: "int \<Rightarrow> protocol option option" where
  "policy_protocol v = (if v = -1 then Some None else if v = 1 then Some (Some Proto_Icmp) else if v = 6 then Some (Some Proto_Tcp)
     else if v = 17 then Some (Some Proto_Udp) else if v = 58 then Some (Some Proto_IcmpV6)
     else if 0 \<le> v \<and> v \<le> 255 then Some (Some (Proto_Other (word_of_int v))) else None)"

text \<open>The bytes behind a pointer; a null pointer is \<open>None\<close>.\<close>

definition policy_ip :: "int \<Rightarrow> byte list option \<Rightarrow> ip_addr option option" where
  "policy_ip family p =
     (if family = 0 then Some None
      else case p of
        None \<Rightarrow> None
      | Some bytes \<Rightarrow>
          if family = 4 then Some (Some (V4 (be32 (bytes ! 0) (bytes ! 1) (bytes ! 2) (bytes ! 3))))
          else if family = 6 then Some (Some (V6 (u128_from_be_bytes (take 16 bytes))))
          else None)"

definition change_policy :: "(packet_action_policy_config \<Rightarrow> packet_action_policy_config) \<Rightarrow> ffi_state \<Rightarrow> int \<times> ffi_state" where
  "change_policy f g = (case g_engine g of
      Poisoned \<Rightarrow> (ne_internal, g)
    | Free None \<Rightarrow> (ne_not_initialized, g)
    | Free (Some e) \<Rightarrow> (case packet_policy e of
        Inl _ \<Rightarrow> (ne_internal, g)
      | Inr current \<Rightarrow> (case set_packet_policy (f current) e of
          (Inr _, e) \<Rightarrow> (ne_ok, upd_engine e g)
        | (Inl _, e) \<Rightarrow> (ne_internal, upd_engine e g))))"

definition packet_policy_set_default :: "int \<Rightarrow> ffi_state \<Rightarrow> int \<times> ffi_state" where
  "packet_policy_set_default v g = (case policy_action v of
      None \<Rightarrow> (ne_invalid_argument, g)
    | Some a \<Rightarrow> change_policy (\<lambda>current. \<lparr> pac_default_action = a, pac_rules = pac_rules current \<rparr>) g)"

definition packet_policy_clear_rules :: "ffi_state \<Rightarrow> int \<times> ffi_state" where
  "packet_policy_clear_rules = change_policy (\<lambda>current. \<lparr> pac_default_action = pac_default_action current, pac_rules = [] \<rparr>)"

record c_rule =
  cr_priority :: u32
  cr_direction :: int
  cr_protocol :: int
  cr_src_ip :: "int \<times> byte list option"
  cr_dst_ip :: "int \<times> byte list option"
  cr_src_port :: u16
  cr_dst_port :: u16
  cr_action :: int

definition rule_of_c :: "c_rule \<Rightarrow> filter_rule option" where
  "rule_of_c r =
     Option.bind (policy_action (cr_action r)) (\<lambda>a.
     Option.bind (policy_direction (cr_direction r)) (\<lambda>d.
     Option.bind (policy_protocol (cr_protocol r)) (\<lambda>p.
     Option.bind (case cr_src_ip r of (family, bytes) \<Rightarrow> policy_ip family bytes) (\<lambda>src.
     Option.bind (case cr_dst_ip r of (family, bytes) \<Rightarrow> policy_ip family bytes) (\<lambda>dst.
     Some \<lparr> fr_priority = cr_priority r, fr_match_direction = d, fr_match_protocol = p, fr_match_src_ip = src,
       fr_match_dst_ip = dst, fr_match_src_port = (if cr_src_port r \<noteq> 0 then Some (cr_src_port r) else None),
       fr_match_dst_port = (if cr_dst_port r \<noteq> 0 then Some (cr_dst_port r) else None), fr_action = a \<rparr>)))))"

definition packet_policy_add_rule :: "c_rule \<Rightarrow> ffi_state \<Rightarrow> int \<times> ffi_state" where
  "packet_policy_add_rule r g = (case rule_of_c r of
      None \<Rightarrow> (ne_invalid_argument, g)
    | Some rule \<Rightarrow> change_policy (\<lambda>current. current\<lparr> pac_rules := pac_rules current @ [rule] \<rparr>) g)"

subsection \<open>Commands leave the host's packets alone\<close>

lemma bus_evolves_same: "er_bus e' = er_bus e \<Longrightarrow> bus_evolves e e'"
  by (simp add: bus_evolves_def)

lemma bus_evolves_trans: "bus_evolves e e' \<Longrightarrow> bus_evolves e' e'' \<Longrightarrow> bus_evolves e e''"
  by (simp add: bus_evolves_def)

lemma try_then_evolves:
  assumes "bus_evolves e (snd p)" and "\<And>x s. bus_evolves s (snd (f x s))"
  shows "bus_evolves e (snd (try_then p f))"
  using assms(1) bus_evolves_trans [OF assms(1) assms(2)] by (auto simp: try_then_def split: prod.splits sum.splits)

text \<open>The contract of an engine command as the interface relies on it.\<close>

locale engine_command =
  fixes command :: "engine_runtime \<Rightarrow> 'a engine_result \<times> engine_runtime"
  assumes evolves: "bus_evolves e (snd (command e))"
begin

lemma with_engine_inv:
  assumes "ffi_inv g"
  shows "ffi_inv (snd (with_engine command g))" and "handle_of (snd (with_engine command g)) = handle_of g"
proof -
  have "ffi_inv (snd (with_engine command g)) \<and> handle_of (snd (with_engine command g)) = handle_of g"
  proof (cases "g_engine g")
    case (Free content)
    show ?thesis
    proof (cases content)
      case (Some e)
      with assms Free obtain hs where hs: "g_handles g = Free hs" "handles_ok hs (er_bus e)"
        by (auto simp: ffi_inv_def split: mutex.splits)
      obtain r e' where r: "command e = (r, e')" by (cases "command e")
      have "handles_ok hs (er_bus e')"
        using evolves [of e] r hs(2) handles_ok_same_host [OF hs(2)] by (simp add: bus_evolves_def handles_ok_def)
      then show ?thesis
        using Free Some r hs by (cases r) (simp_all add: with_engine_def error_to_c_def ffi_inv_def handle_of_free)
    qed (use assms Free in \<open>simp add: with_engine_def\<close>)
  qed (use assms in \<open>simp add: with_engine_def\<close>)
  then show "ffi_inv (snd (with_engine command g))" and "handle_of (snd (with_engine command g)) = handle_of g" by simp_all
qed

lemma run_query_inv: "ffi_inv g \<Longrightarrow> ffi_inv (snd (run_query command as_c g))"
  using with_engine_inv(1) [of g] by (auto simp: run_query_def split: prod.splits sum.splits)

end

locale engine_action = engine_command command for command :: "engine_runtime \<Rightarrow> unit engine_result \<times> engine_runtime"
begin

lemma run_command_inv: "ffi_inv g \<Longrightarrow> ffi_inv (snd (run_command command g))"
  using with_engine_inv(1) [of g] by (auto simp: run_command_def split: prod.splits sum.splits)

end

locale engine_text = engine_command command for command :: "engine_runtime \<Rightarrow> string engine_result \<times> engine_runtime"
begin

lemma run_text_inv: "ffi_inv g \<Longrightarrow> ffi_inv (snd (fst (run_text command p g)))"
  using with_engine_inv(1) [of g] by (auto simp: run_text_def copy_string_def split: prod.splits sum.splits)

end

text \<open>Most commands do not touch the bus.\<close>

lemma try_then_bus:
  assumes "er_bus (snd p) = er_bus e" and "\<And>x s. er_bus (snd (f x s)) = er_bus s"
  shows "er_bus (snd (try_then p f)) = er_bus e"
  using assms by (auto simp: try_then_def split: prod.splits sum.splits)

lemma on_manager_bus: "er_bus (snd (on_manager f e)) = er_bus e"
  by (cases "f (er_backend_manager e)") simp

lemma start_native_bus: "er_bus (snd (start_native nr n e)) = er_bus e"
  by (simp add: start_native_def split: prod.split)

lemma stop_native_bus: "er_bus (snd (stop_native nr n e)) = er_bus e"
  by (simp add: stop_native_def split: prod.split)

lemma native_failed_bus: "er_bus (native_failed n e) = er_bus e"
  using same_sharedD(1) [OF native_failed_shared] .

lemma set_active_bus:
  "er_bus (snd (set_active_capture_backend n e)) = er_bus e" "er_bus (snd (set_active_reinjection_backend n e)) = er_bus e"
  by (simp_all add: set_active_capture_backend_def set_active_reinjection_backend_def split: mutex.split)

text \<open>The two arms after a native call.\<close>

lemma native_arms_bus:
  assumes "er_bus (snd p) = er_bus e" and "\<And>s. er_bus (snd (f s)) = er_bus s"
  shows "er_bus (snd (case p of (Inl err, e) \<Rightarrow> (Inl err, native_failed n e) | (Inr u, e) \<Rightarrow> f e)) = er_bus e"
  using assms native_failed_bus by (cases p) (auto split: sum.splits)

lemma start_backend_bus: "er_bus (snd (start_backend now nr n e)) = er_bus e"
  unfolding start_backend_def
  by (intro try_then_bus on_manager_bus native_arms_bus start_native_bus) (simp_all add: on_manager_bus split: prod.split)

lemma clear_active_bus:
  "er_bus (snd (clear_active_capture n e)) = er_bus e" "er_bus (snd (clear_active_reinjection n e)) = er_bus e"
  unfolding clear_active_capture_def clear_active_reinjection_def
  by (intro try_then_bus; simp add: set_active_bus)+

lemma stop_backend_bus: "er_bus (snd (stop_backend nr n e)) = er_bus e"
  unfolding stop_backend_def
  by (intro try_then_bus on_manager_bus native_arms_bus stop_native_bus) (simp_all add: clear_active_bus)

lemma register_backend_bus: "er_bus (snd (register_backend d e)) = er_bus e"
  unfolding register_backend_def
  by (intro try_then_bus) (simp_all add: upd_statistics_def split: prod.split sum.split)

lemma isolate_bus: "er_bus (snd (isolate_failed_backend nr n e)) = er_bus e"
  unfolding isolate_failed_backend_def
  by (intro try_then_bus) (simp_all add: stop_backend_bus)

lemma switch_route_bus:
  assumes "\<And>n e. er_bus (snd (set_active n e)) = er_bus e"
  shows "er_bus (snd (switch_route c what set_active failed e)) = er_bus e"
  unfolding switch_route_def Let_def
  by (auto split: prod.split option.split intro!: try_then_bus simp: assms upd_statistics_def)

lemma failover_bus:
  "er_bus (snd (failover_capture_backend nr n e)) = er_bus e" "er_bus (snd (failover_reinjection_backend nr n e)) = er_bus e"
  unfolding failover_capture_backend_def failover_reinjection_backend_def
  by (intro try_then_bus isolate_bus switch_route_bus set_active_bus; simp)+

lemma gateway_config_bus: "er_bus (snd (rt_gateway_config policy e)) = er_bus e"
proof (cases "gateway_policy_validate policy")
  case (Inr u)
  then show ?thesis
    unfolding rt_gateway_config_def
    by (simp only: sum.case, intro try_then_bus) (simp_all add: Let_def split: mutex.split)
qed (auto simp: rt_gateway_config_def intro!: try_then_bus)

lemma gateway_start_bus: "er_bus (snd (rt_gateway_start e)) = er_bus e"
  unfolding rt_gateway_start_def by (intro try_then_bus) (simp_all split: prod.split sum.split)

lemma gateway_stop_bus: "er_bus (snd (rt_gateway_stop e)) = er_bus e"
  unfolding rt_gateway_stop_def by (intro try_then_bus) (simp_all split: prod.split sum.split)

lemma capture_start_bus: "er_bus (snd (capture_start nr spawned e)) = er_bus e"
  by (simp add: capture_start_def Let_def split: sum.split mutex.split option.split prod.split)

interpretation start_cmd: engine_action "start_backend now nr n" for now nr n
  by unfold_locales (simp add: bus_evolves_same start_backend_bus)

interpretation stop_cmd: engine_action "stop_backend nr n" for nr n
  by unfold_locales (simp add: bus_evolves_same stop_backend_bus)

interpretation register_cmd: engine_action "register_backend d" for d
  by unfold_locales (simp add: bus_evolves_same register_backend_bus)

interpretation policy_cmd: engine_action "\<lambda>e. on_manager (bm_set_failover_policy p) e" for p
  by unfold_locales (simp add: bus_evolves_same on_manager_bus)

interpretation success_cmd: engine_command "\<lambda>e. on_manager (bm_record_success now n) e" for now n
  by unfold_locales (simp add: bus_evolves_same on_manager_bus)

interpretation failure_cmd: engine_command "\<lambda>e. on_manager (bm_record_failure now n err) e" for now n err
  by unfold_locales (simp add: bus_evolves_same on_manager_bus)

interpretation select_cmd: engine_command
  "\<lambda>e. case select_backend c (er_backend_manager e) of (found, m) \<Rightarrow> (Inr found, e\<lparr> er_backend_manager := m \<rparr>)" for c
  by unfold_locales (simp add: bus_evolves_same split: prod.split)

interpretation capture_start_cmd: engine_action "capture_start nr spawned" for nr spawned
  by unfold_locales (simp add: bus_evolves_same capture_start_bus)

interpretation capture_stop_cmd: engine_action "capture_stop in_flight" for in_flight
  by unfold_locales (metis capture_stop_evolves prod.collapse)

interpretation gateway_config_cmd: engine_action "rt_gateway_config policy" for policy
  by unfold_locales (simp add: bus_evolves_same gateway_config_bus)

interpretation gateway_start_cmd: engine_action rt_gateway_start
  by unfold_locales (simp add: bus_evolves_same gateway_start_bus)

interpretation gateway_stop_cmd: engine_action rt_gateway_stop
  by unfold_locales (simp add: bus_evolves_same gateway_stop_bus)

interpretation failover_capture_cmd:
  engine_text "\<lambda>e. try_then (bm_runtime_state n (er_backend_manager e), e) (\<lambda>_ e. failover_capture_backend nr n e)" for nr n
  by unfold_locales (intro bus_evolves_same try_then_bus; simp add: failover_bus)

interpretation failover_reinjection_cmd:
  engine_text "\<lambda>e. try_then (bm_runtime_state n (er_backend_manager e), e) (\<lambda>_ e. failover_reinjection_backend nr n e)" for nr n
  by unfold_locales (intro bus_evolves_same try_then_bus; simp add: failover_bus)

subsection \<open>Shutdown and initialization\<close>

lemma release_all_bus: "er_bus (snd (release_all sh e)) = er_bus e"
proof -
  have "er_bus (snd (stop_workers p e)) = er_bus e" "er_bus (snd (clear_metadata e)) = er_bus e"
    "er_bus (snd (stop_action_handle nr e)) = er_bus e" "er_bus (snd (clear_flows e)) = er_bus e" for p nr e
    by (simp_all add: stop_workers_def clear_metadata_def stop_action_handle_def clear_flows_def Let_def
        split: mutex.split option.split prod.split sum.split)
  moreover have "er_bus (snd (finish_shutdown e)) = er_bus e" for e
    unfolding finish_shutdown_def by (intro try_then_bus) (simp_all add: upd_state_def split: prod.split sum.split)
  ultimately show ?thesis
    unfolding release_all_def
    by (intro try_then_bus set_active_bus) (simp_all add: same_sharedD(1) [OF stop_all_native_shared])
qed

lemma drain_queue_evolves: "bus_evolves e (drain_queue e)"
  using drain_queue_result [of e] by (simp add: bus_evolves_def)

lemma rt_shutdown_evolves: "bus_evolves e (snd (rt_shutdown sh e))"
proof -
  have "bus_evolves e (snd (capture_stop i e))" for e i
    using capture_stop_cmd.evolves .
  moreover have "bus_evolves e (snd (begin_rt_shutdown (stop_processing_worker i e)))" for e i
    using stop_processing_worker_evolves [of e i]
    by (auto simp: begin_rt_shutdown_def upd_state_def bus_evolves_def split: prod.split)
  moreover have "bus_evolves e (snd (stop_gateway e))" for e
    using stop_steps_shared(1) [of e] by (metis bus_evolves_same prod.collapse)
  moreover have "bus_evolves e (snd (release_all sh (drain_queue e)))" for e
    using bus_evolves_trans [OF drain_queue_evolves] bus_evolves_same [OF release_all_bus] by blast
  ultimately show ?thesis
    unfolding rt_shutdown_def by (simp add: bus_evolves_same) (intro try_then_evolves impI)
qed

lemma network_shutdown_inv:
  assumes "ffi_inv g" and "network_shutdown sh g = (code, g')"
  shows "ffi_inv g'"
proof (cases "\<exists>e. g_engine g = Free (Some e)")
  case True
  then obtain e where e: "g_engine g = Free (Some e)" ..
  with assms(1) obtain hs where hs: "g_handles g = Free hs" "handles_ok hs (er_bus e)"
    by (auto simp: ffi_inv_def split: mutex.splits)
  obtain r e' where r: "rt_shutdown sh e = (r, e')" by (cases "rt_shutdown sh e")
  then have "handles_ok hs (er_bus e')"
    using rt_shutdown_evolves [of e sh] hs(2) handles_ok_same_host [OF hs(2)] by (simp add: bus_evolves_def handles_ok_def)
  then show ?thesis
    using assms(2) e r hs by (cases r) (auto simp: network_shutdown_def error_to_c_def ffi_inv_def)
qed (use assms in \<open>auto simp: network_shutdown_def split: mutex.splits option.splits\<close>)

lemma network_init_inv:
  assumes "ffi_inv g" and "network_init prep sr c g = Ok (code, g')"
  shows "ffi_inv g'"
proof (cases "g_engine g' = g_engine g \<and> g_handles g' = g_handles g")
  case True
  then show ?thesis using assms(1) by (simp add: ffi_inv_def)
next
  case False
  then obtain config e m where "runtime_initialize config sr = Ok e" and g': "g' = set_last_error m (upd_engine e g) \<or> g' = set_last_error ''OK'' (upd_engine e (set_last_error m g))"
    and g: "g_engine g = Free None"
    using assms(2)
    by (auto simp: network_init_def Let_def error_to_c_def split: option.splits mutex.splits if_splits outcome.splits)
  then have bus: "er_bus e = bus_new (ic_queue_capacity config)" using initialize_facts(3) by blast
  have "g_handles g = Free []" using assms(1) g by (auto simp: ffi_inv_def split: mutex.splits)
  then have "ffi_inv (upd_engine e g)" using ffi_inv_fresh [OF _ _ bus] by simp
  with g' show ?thesis by (auto simp: ffi_inv_def)
qed

lemma process_one_evolves:
  assumes "process_one i hash now s = (r, s')" and "bus_inv (ps_bus s)"
  shows "bus_inv (ps_bus s') \<and> host_ids (ps_bus s') = host_ids (ps_bus s)"
proof (cases "runtime_require_running i (ps_state s)")
  case running: (Inr u)
  obtain q b where q: "try_read (ps_bus s) = (q, b)" by (cases "try_read (ps_bus s)")
  then have b: "bus_inv b" "host_ids b = host_ids (ps_bus s)"
    using bus_inv_try_read [OF assms(2)] host_ids_try_read [OF assms(2)] by simp_all
  show ?thesis
  proof (cases "\<exists>obs. q = Inr (Some obs)")
    case True
    then obtain obs where obs: "q = Inr (Some obs)" ..
    obtain p s1 where p: "process_observation_shared hash now obs (s\<lparr> ps_bus := b \<rparr>) = (p, s1)"
      by (cases "process_observation_shared hash now obs (s\<lparr> ps_bus := b \<rparr>)")
    have bus: "ps_bus s1 = b"
      using process_observation_shared_frame [of "s\<lparr> ps_bus := b \<rparr>" hash now obs] p by (simp add: frame_def)
    obtain q2 b2 where rel: "release_processing (observation_id obs) b = (q2, b2)"
      by (cases "release_processing (observation_id obs) b")
    have "bus_inv b2" "host_ids b2 = host_ids (ps_bus s)"
      using bus_inv_release_from [OF b(1), of Own_Processing "observation_id obs"]
        host_ids_release_processing [OF b(1), of "observation_id obs"] b(2) rel
      by (simp_all add: release_processing_def)
    moreover have "snd (process_one i hash now s) \<in> {s1, s1\<lparr> ps_bus := b2 \<rparr>}"
      by (cases p; cases q2) (simp_all add: process_one_def running q obs p bus rel Let_def)
    ultimately show ?thesis using assms(1) bus b by auto
  next
    case False
    then have "snd (process_one i hash now s) = s\<lparr> ps_bus := b \<rparr>"
      by (cases q) (simp_all add: process_one_def running q split: option.split)
    then show ?thesis using assms(1) b by simp
  qed
next
  case (Inl err)
  then have "process_one i hash now s = (Err err, s)" by (simp add: process_one_def)
  then show ?thesis using assms by simp
qed

lemma upd_engine_inv:
  assumes "ffi_inv g" and "g_engine g = Free (Some e)" and "bus_evolves e e'"
  shows "ffi_inv (upd_engine e' g)"
proof -
  obtain hs where hs: "g_handles g = Free hs" "handles_ok hs (er_bus e)"
    using assms(1,2) by (auto simp: ffi_inv_def split: mutex.splits)
  then have "handles_ok hs (er_bus e')"
    using assms(3) handles_ok_same_host [OF hs(2)] by (simp add: bus_evolves_def handles_ok_def)
  then show ?thesis using hs by (simp add: ffi_inv_def)
qed

lemma capture_process_inv: "ffi_inv g \<Longrightarrow> capture_process hash now g = Ok (code, g') \<Longrightarrow> ffi_inv g'"
  by (auto simp: capture_process_def bus_evolves_def split: mutex.splits option.splits prod.splits outcome.splits
      intro!: upd_engine_inv dest: process_one_evolves)

lemma flow_clear_expired_inv: "ffi_inv g \<Longrightarrow> ffi_inv (snd (flow_clear_expired now g))"
  by (auto simp: flow_clear_expired_def split: mutex.split option.split prod.split intro!: upd_engine_inv bus_evolves_same)

lemma change_policy_inv: "ffi_inv g \<Longrightarrow> ffi_inv (snd (change_policy f g))"
  by (auto simp: change_policy_def set_packet_policy_def
      split: mutex.split option.split prod.split sum.split intro!: upd_engine_inv bus_evolves_same)

text \<open>
  Every call of the interface that changes the state, and the engine's own threads. The other calls only
  read, or write the last error message. A call is one step: it holds the global engine lock
  while it works on the engine.
\<close>

inductive api_step :: "ffi_state \<Rightarrow> ffi_state \<Rightarrow> bool" where
  api_packet: "ffi_step g g' \<Longrightarrow> api_step g g'"
| api_init: "network_init prep sr c g = Ok (code, g') \<Longrightarrow> api_step g g'"
| api_shutdown: "network_shutdown sh g = (code, g') \<Longrightarrow> api_step g g'"
| api_set_status: "backend_set_status now nr p s g = (code, g') \<Longrightarrow> api_step g g'"
| api_register: "backend_register p g = (code, g') \<Longrightarrow> api_step g g'"
| api_set_failover: "backend_set_failover_policy v g = (code, g') \<Longrightarrow> api_step g g'"
| api_success: "backend_record_success now p g = (code, g') \<Longrightarrow> api_step g g'"
| api_failure: "backend_record_failure now p err g = (code, g') \<Longrightarrow> api_step g g'"
| api_failover_capture: "backend_failover_capture nr p buf g = ((code, g'), out) \<Longrightarrow> api_step g g'"
| api_failover_reinjection: "backend_failover_reinjection nr p buf g = ((code, g'), out) \<Longrightarrow> api_step g g'"
| api_cap_start: "api_capture_start nr spawned g = (code, g') \<Longrightarrow> api_step g g'"
| api_cap_stop: "api_capture_stop in_flight g = (code, g') \<Longrightarrow> api_step g g'"
| api_process: "capture_process hash now g = Ok (code, g') \<Longrightarrow> api_step g g'"
| api_expire: "flow_clear_expired now g = (n, g') \<Longrightarrow> api_step g g'"
| api_gw_config: "api_gateway_config c g = (code, g') \<Longrightarrow> api_step g g'"
| api_gw_start: "api_gateway_start g = (code, g') \<Longrightarrow> api_step g g'"
| api_gw_stop: "api_gateway_stop g = (code, g') \<Longrightarrow> api_step g g'"
| api_default: "packet_policy_set_default v g = (code, g') \<Longrightarrow> api_step g g'"
| api_clear_rules: "packet_policy_clear_rules g = (code, g') \<Longrightarrow> api_step g g'"
| api_add_rule: "packet_policy_add_rule r g = (code, g') \<Longrightarrow> api_step g g'"
| api_select: "backend_select v p g = ((code, g'), out) \<Longrightarrow> api_step g g'"
| api_read_out: "api_step g (set_last_error m g)"

text \<open>A call that first reads a name.\<close>

lemma read_then_inv:
  assumes "ffi_inv g" and "\<And>n. ffi_inv (snd (f n g))"
  shows "ffi_inv (snd (case read_string p g of (Inl code, g) \<Rightarrow> (code, g) | (Inr n, g) \<Rightarrow> f n g))"
    and "ffi_inv (snd (case read_name p g of (Inl code, g) \<Rightarrow> (code, g) | (Inr n, g) \<Rightarrow> f n g))"
  using assms by (auto simp: read_string_def read_name_def split: option.split)

lemma read_text_inv:
  assumes "ffi_inv g" and "\<And>n. ffi_inv (snd (fst (f n g)))"
  shows "ffi_inv (snd (fst (case read_name p g of (Inl code, g) \<Rightarrow> ((code, g), None) | (Inr n, g) \<Rightarrow> f n g)))"
  using assms by (auto simp: read_name_def split: option.split)

lemma backend_set_status_inv: "ffi_inv g \<Longrightarrow> ffi_inv (snd (backend_set_status now nr p s g))"
  unfolding backend_set_status_def
  by (rule read_then_inv) (auto simp: start_cmd.run_command_inv stop_cmd.run_command_inv split: mutex.split option.split)

lemma backend_register_inv: "ffi_inv g \<Longrightarrow> ffi_inv (snd (backend_register p g))"
  unfolding backend_register_def
  by (rule read_then_inv) (auto simp: register_cmd.run_command_inv)

lemma backend_set_failover_policy_inv: "ffi_inv g \<Longrightarrow> ffi_inv (snd (backend_set_failover_policy v g))"
  using policy_cmd.run_command_inv [of g] by (auto simp: backend_set_failover_policy_def split: option.split)

lemma backend_record_inv:
  "ffi_inv g \<Longrightarrow> ffi_inv (snd (backend_record_success now p g))" "ffi_inv g \<Longrightarrow> ffi_inv (snd (backend_record_failure now p err g))"
  unfolding backend_record_success_def backend_record_failure_def
  by (rule read_then_inv; simp add: success_cmd.run_query_inv failure_cmd.run_query_inv)+

lemma failover_calls_inv:
  "ffi_inv g \<Longrightarrow> ffi_inv (snd (fst (backend_failover_capture nr p buf g)))"
  "ffi_inv g \<Longrightarrow> ffi_inv (snd (fst (backend_failover_reinjection nr p buf g)))"
  unfolding backend_failover_capture_def backend_failover_reinjection_def backend_failover_def
  by (rule read_text_inv; simp add: failover_capture_cmd.run_text_inv failover_reinjection_cmd.run_text_inv)+

lemma copy_string_inv: "ffi_inv g \<Longrightarrow> ffi_inv (snd (fst (copy_string p t g)))"
  by (simp add: copy_string_def)

lemma capability_from_c_inv: "ffi_inv g \<Longrightarrow> ffi_inv (snd (capability_from_c v g))"
  by (simp add: capability_from_c_def split: option.split)

lemma backend_select_inv:
  assumes "ffi_inv g"
  shows "ffi_inv (snd (fst (backend_select v p g)))"
proof (cases "capability_from_c v g")
  case (Pair r1 g1)
  with capability_from_c_inv [OF assms, of v] have g1: "ffi_inv g1" by simp
  show ?thesis
  proof (cases r1)
    case (Inr cap)
    define select where "select = (\<lambda>e :: engine_runtime. case select_backend cap (er_backend_manager e) of
        (found, m) \<Rightarrow> (Inr found :: string option engine_result, e\<lparr> er_backend_manager := m \<rparr>))"
    obtain r2 g2 where w: "with_engine select g1 = (r2, g2)" by (cases "with_engine select g1")
    with select_cmd.with_engine_inv(1) [OF g1, of cap, folded select_def] have "ffi_inv g2" by simp
    with g1 w show ?thesis
      unfolding backend_select_def Pair Inr prod.case sum.case select_def [symmetric]
      by (cases r2) (simp_all add: copy_string_inv split: option.split)
  qed (simp add: backend_select_def Pair g1)
qed

lemma gateway_calls_inv:
  assumes "ffi_inv g"
  shows "ffi_inv (snd (api_gateway_config c g))" and "ffi_inv (snd (api_gateway_start g))" and "ffi_inv (snd (api_gateway_stop g))"
  using assms gateway_config_cmd.run_command_inv gateway_start_cmd.run_command_inv gateway_stop_cmd.run_command_inv
  by (auto simp: api_gateway_config_def api_gateway_start_def api_gateway_stop_def error_to_c_def Let_def
      split: option.split sum.split)

lemma policy_calls_inv:
  assumes "ffi_inv g"
  shows "ffi_inv (snd (packet_policy_set_default v g))" and "ffi_inv (snd (packet_policy_clear_rules g))"
    and "ffi_inv (snd (packet_policy_add_rule r g))"
  using assms change_policy_inv
  by (auto simp: packet_policy_set_default_def packet_policy_clear_rules_def packet_policy_add_rule_def split: option.split)

lemma api_step_inv [keeps]: "api_step g g' \<Longrightarrow> ffi_inv g \<Longrightarrow> ffi_inv g'"
proof (induction rule: api_step.induct)
  case (api_cap_start nr spawned g code g')
  then show ?case using capture_start_cmd.run_command_inv [of g nr spawned] by (simp add: api_capture_start_def)
next
  case (api_cap_stop in_flight g code g')
  then show ?case using capture_stop_cmd.run_command_inv [of g in_flight] by (simp add: api_capture_stop_def)
next
  case (api_select v p g code g' out)
  then show ?case using backend_select_inv [of g v p] by simp
next
  case (api_read_out g m)
  then show ?case by simp
qed (metis ffi_inv_step network_init_inv network_shutdown_inv backend_set_status_inv backend_register_inv
    backend_set_failover_policy_inv backend_record_inv failover_calls_inv capture_process_inv
    flow_clear_expired_inv gateway_calls_inv policy_calls_inv fst_conv snd_conv)+

subsection \<open>Main results\<close>

text \<open>
  C2: starting from the loaded library and along every interleaving of calls to the C interface,
  initialization and shutdown included, with the capture thread and the worker, no lock is poisoned and
  the handle table is exact. While there is an engine, every handle is nonzero and names a packet that the bus
  records as owned by the host, two handles never name the same packet, and every packet the host owns has a
  handle, so none is leaked; without an engine there is no handle.
\<close>

theorem api_handles_exact:
  assumes "api_step\<^sup>*\<^sup>* ffi_initial g"
  shows "case (g_engine g, g_handles g) of
      (Free (Some e), Free hs) \<Rightarrow> hm_get 0 hs = None \<and>
        (\<forall>h obs. hm_get h hs = Some obs \<longrightarrow> hm_get (observation_id obs) (bus_ownership (er_bus e)) = Some (owner_as_u8 Own_Host)) \<and>
        (\<forall>h h' obs obs'. hm_get h hs = Some obs \<longrightarrow> hm_get h' hs = Some obs' \<longrightarrow> observation_id obs = observation_id obs' \<longrightarrow> h = h') \<and>
        (\<forall>i. hm_get i (bus_ownership (er_bus e)) = Some (owner_as_u8 Own_Host) \<longrightarrow> (\<exists>h obs. hm_get h hs = Some obs \<and> observation_id obs = i))
    | (Free None, Free hs) \<Rightarrow> hs = []
    | _ \<Rightarrow> False"
proof -
  from assms have "ffi_inv g"
  proof (induction rule: rtranclp_induct)
    case base
    show ?case by (simp add: ffi_inv_def ffi_initial_def)
  next
    case (step g1 g2)
    then show ?case using api_step_inv by blast
  qed
  then show ?thesis
    by (auto simp: ffi_inv_def handles_ok_def host_ids_def split: mutex.splits option.splits)
qed

definition demo_ne_config :: ne_init_config where
  "demo_ne_config = \<lparr> nic_queue_capacity = 4, nic_pool_max_size = 4, nic_buffer_capacity = 64, nic_max_flows = 4 \<rparr>"

lemma demo_network_init:
  assumes "g_engine g = Free None"
  obtains e where "runtime_initialize demo_config demo_system = Ok e"
    "network_init None demo_system (Some demo_ne_config) g = Ok (report ne_ok ''OK'' (upd_engine e g))"
proof -
  obtain e where e: "runtime_initialize demo_config demo_system = Ok e" using demo_initializes ..
  then have "network_init None demo_system (Some demo_ne_config) g = Ok (report ne_ok ''OK'' (upd_engine e g))"
    using assms by (simp add: network_init_def nic_is_valid_def demo_ne_config_def demo_config_def)
  with e that show thesis by blast
qed

theorem api_handles_exact_witness:
  "\<exists>g e. api_step\<^sup>*\<^sup>* ffi_initial g \<and> g_engine g = Free (Some e) \<and>
    (\<forall>i. hm_get i (bus_ownership (er_bus e)) \<noteq> Some (owner_as_u8 Own_Host))"
proof -
  obtain e where init: "network_init None demo_system (Some demo_ne_config) ffi_initial = Ok (report ne_ok ''OK'' (upd_engine e ffi_initial))"
    by (rule demo_network_init [of ffi_initial]) (auto simp: ffi_initial_def)
  let ?g = "set_last_error ''OK'' (upd_engine e ffi_initial)"
  have steps: "api_step\<^sup>*\<^sup>* ffi_initial ?g" using api_init [OF init] by blast
  from api_handles_exact [OF this]
  have "\<forall>i. hm_get i (bus_ownership (er_bus e)) \<noteq> Some (owner_as_u8 Own_Host)"
    by (auto simp: ffi_initial_def hm_get_def)
  moreover have "g_engine ?g = Free (Some e)" by simp
  ultimately show ?thesis using steps by blast
qed

text \<open>
  After a successful \<open>network_init\<close> the library cannot be shut down or initialized again: the
  first \<open>network_shutdown\<close> reports an unavailable backend, every later one an internal error, and
  \<open>network_init\<close> an engine that is already initialized.
\<close>

theorem initialized_for_ever:
  assumes "network_init prep sr c g = Ok (ne_ok, g1)" and "network_shutdown sh g1 = (code2, g2)"
    and "network_shutdown sh' g2 = (code3, g3)"
  shows "code2 = ne_backend_unavailable \<and> code3 = ne_internal \<and>
    (\<exists>g4. network_init prep' sr' (Some c') g3 = Ok (ne_already_initialized, g4))"
proof -
  obtain config e where e: "runtime_initialize config sr = Ok e" and g1: "g_engine g1 = Free (Some e)"
    using assms(1) by (auto simp: network_init_def Let_def error_to_c_def ne_codes split: option.splits mutex.splits if_splits outcome.splits)
  obtain e2 where s1: "rt_shutdown sh e = (Inl (Error_Message EC_BackendStopFailed
      ''shutdown incomplete: native thread or backend handle remains owned by the engine''), e2)"
    and s2: "fst (rt_shutdown sh' e2) = Inl (Error_Code EC_InvalidStateTransition)"
    using fresh_engine_cannot_shut_down [OF e, of sh sh'] by blast
  have c2: "code2 = ne_backend_unavailable" and g2: "g_engine g2 = Free (Some e2)"
    using assms(2) g1 s1 by (auto simp: network_shutdown_def error_to_c_def code_to_c_def)
  obtain e3 where "rt_shutdown sh' e2 = (Inl (Error_Code EC_InvalidStateTransition), e3)"
    using s2 by (metis prod.collapse)
  then have c3: "code3 = ne_internal" and g3: "g_engine g3 = Free (Some e3)"
    using assms(3) g2 by (auto simp: network_shutdown_def error_to_c_def code_to_c_def)
  have "\<exists>g4. network_init prep' sr' (Some c') g3 = Ok (ne_already_initialized, g4)"
    using g3 by (simp add: network_init_def Let_def split: option.split)
  with c2 c3 show ?thesis by simp
qed

theorem initialized_for_ever_witness:
  "\<exists>g1. network_init None demo_system (Some demo_ne_config) ffi_initial = Ok (ne_ok, g1) \<and>
    fst (network_shutdown demo_shutdown g1) = ne_backend_unavailable"
proof -
  obtain g1 where init: "network_init None demo_system (Some demo_ne_config) ffi_initial = Ok (ne_ok, g1)"
    by (rule demo_network_init [of ffi_initial]) (auto simp: ffi_initial_def)
  obtain code2 g2 where s1: "network_shutdown demo_shutdown g1 = (code2, g2)" by (metis prod.collapse)
  obtain code3 g3 where s2: "network_shutdown demo_shutdown g2 = (code3, g3)" by (metis prod.collapse)
  from initialized_for_ever [OF init s1 s2] init s1 show ?thesis by auto
qed

text \<open>
  A packet that entered through \<open>packet_inject\<close> has no native context, so the host can read it but
  neither pass nor reinject it: the call fails, nothing is sent and the handle stays.
\<close>

theorem injected_packet_cannot_pass:
  assumes "ffi_inv g" and "handle_of g h = Some obs" and "native_context obs = None" and "a \<in> {0, 3}"
  shows "\<exists>g'. packet_action sr h a g = ((ne_action_failed, g'), []) \<and> handle_of g' = handle_of g"
  using assms(1)
proof (cases rule: take_cases [where h = h])
  case (found e hs obs')
  let ?g = "set_last_error ''packet has no native WinDivert action context'' (g\<lparr> g_handles := Free (hm_remove h hs) \<rparr>)"
  obtain code g' where r: "restore_and h obs (\<lambda>g. (ne_action_failed, g)) ?g = (code, g')" by (metis prod.collapse)
  have obs: "obs' = obs" using found(5) assms(2) by simp
  have "handle_of g' = handle_of g"
    using restore_taken [OF found(3) found(4) [unfolded obs] found(2,1) _ _ refl _ r] found(1)
    by (auto simp: kept_def ne_codes)
  moreover have "code = ne_action_failed"
    using r by (auto simp: restore_and_def restore_packet_handle_def hm_get_remove)
  moreover have "packet_action sr h a g = ((code, g'), [])"
    using assms(3,4) found(6) r obs
    by (auto simp: packet_action_def packet_pass_def packet_reinject_def send_handle_def observation_context_for_windivert_def)
  ultimately show ?thesis by simp
qed (use assms(2) in simp)

theorem injected_packet_cannot_pass_witness:
  "\<exists>g'. packet_action demo_send 7 0 demo_ffi = ((ne_action_failed, g'), []) \<and> handle_of g' = handle_of demo_ffi"
  by (rule injected_packet_cannot_pass [OF demo_ffi_facts]) (simp_all add: demo_observation_def observation_new_def)

text \<open>No text function writes beyond the buffer it is given.\<close>

lemma copy_string_fits: "copy_string p s g = (r, Some out) \<Longrightarrow> \<not> ob_null p \<and> length out \<le> unat (ob_size p)"
  by (auto simp: copy_string_def split: if_splits)

lemma run_text_fits: "run_text f p g = (r, Some out) \<Longrightarrow> \<not> ob_null p \<and> length out \<le> unat (ob_size p)"
  by (auto simp: run_text_def split: prod.splits sum.splits dest: copy_string_fits)

end
