(* ===== verification/Spec2Isabelle.thy ===== *)
theory Spec2Isabelle
  imports Bus_Threads Bus_Backpressure Backend_Failover Api
begin

text \<open>
  \<^bold>\<open>A verification development for the packet interception engine under \<open>src/crates\<close>.\<close>

  \<^bold>\<open>The program.\<close> The engine is a Rust library that a host process drives through a C interface. Native
  backends (Npcap, WinDivert, the Windows Filtering Platform, IP Helper and ETW) capture packets and report the
  state of the host's network. A captured packet becomes an observation and is published on the packet bus, a
  bounded queue with an ownership record per packet. From there it goes one of two ways. Either the processing
  worker takes it: parser, duplicate filter, flow table, packet policy, metadata workers, statistics, and then the
  packet is released. Or the host reads it: it receives a handle, and with it the packet, until it passes,
  drops, modifies, reinjects or releases it. Beside this path stand the gateway (routing, forwarding, NAT,
  connection tracking, neighbours), the backend manager (registration, lifecycle, health, fail-over) and the
  load balancer that chooses a backend for each kind of work. Initialization builds all of it, shutdown takes it
  apart in the reverse order.

  \<^bold>\<open>Conventions.\<close> A struct is a record and an enum a datatype. A method on \<open>&mut self\<close> is a function that
  returns its result together with the new state, on the error branches too. \<open>Result\<close> is a sum with the error
  on the left; where the code may panic the result is an \<open>outcome\<close> with the values \<open>Ok\<close>, \<open>Err\<close> and
  \<open>Panic\<close>, so that the absence of panics is a theorem. Fixed-width integers are words; \<open>usize\<close> is a natural
  number with the wrap-around at \<open>2 ^ 64\<close> of the release build written out. A hash map is an association list
  with distinct keys, whose order stands for the unspecified order of iteration. A mutex is either poisoned or
  free with its contents. The host is little-endian, as every platform of the native
  backends is.

  What is outside the repository is an argument: clock readings, the standard library's unspecified hasher, the
  replies of drivers and of the operating system, whether a thread could be created, and what other threads do
  while one waits for them. Theorems hold for all such arguments.

  \<^bold>\<open>Theories and sources.\<close>

    \<^item> \<open>Prelude\<close>, \<open>Tables\<close>, \<open>Vec_Table\<close>: shared vocabulary and contracts. The locales \<open>keyed_store\<close>
      (hash map), \<open>comparison\<close> (what \<open>max_by\<close> and \<open>min_by\<close> rely on), \<open>lifecycle\<close> (a transition relation
      with terminal states), \<open>expiring_table\<close> (a table with a sweep over its expired entries), \<open>vec_table\<close> and
      \<open>checked_table\<close> (a vector with one entry per key) are interpreted on every table, order and state machine of
      the repository that has their shape.
    \<^item> \<open>Core_Types\<close>, \<open>Core_Text\<close>, \<open>Core_Ownership\<close>, \<open>Core_Flow\<close>, \<open>Core_Engine\<close>, \<open>Core_Metadata\<close>,
      \<open>Core_Statistics\<close>: the crate \<open>network-core\<close> (errors, packets, observations, time, ownership, flow keys,
      engine state, policy and configuration, metadata, metrics and statistics).
    \<^item> \<open>Bus_Queue\<close>, \<open>Bus_Buffer\<close>, \<open>Bus_Backpressure\<close>, \<open>Bus_Ownership\<close>, \<open>Bus\<close>, \<open>Bus_Threads\<close>: the crate
      \<open>packet-bus\<close>. The queue has a sequential model, which interprets the locale \<open>bounded_queue\<close>, and a step
      relation of any number of threads that block on its two condition variables. The lock-free ownership cell
      is a step relation of threads, too.
    \<^item> \<open>Parser_Link\<close>, \<open>Parser_Ip\<close>, \<open>Parser_Ipv6\<close>, \<open>Parser_Transport\<close>, \<open>Parser\<close>: the crate
      \<open>packet-parser\<close>, with every index and slice of the code able to panic.
    \<^item> \<open>Flow_Table\<close>: the crate \<open>flow-engine\<close>. \<open>Correlation\<close>: the crate \<open>correlation\<close>. \<open>Decision\<close>: the packet
      filter of \<open>network-core/src/filter.rs\<close> and \<open>policy.rs\<close> with its evaluation in \<open>ffi/src/decision.rs\<close>.
    \<^item> \<open>Metadata_Workers\<close>: cache and worker pool of \<open>metadata-engine\<close>; worker threads are a step relation.
    \<^item> \<open>Ip_Prefix\<close>, \<open>Net_State\<close>: prefix matching and the crate \<open>network-state\<close>.
    \<^item> \<open>Gateway_Nat\<close>, \<open>Gateway_Conn\<close>, \<open>Gateway_Neighbor\<close>, \<open>Gateway_Routing\<close>, \<open>Gateway_Forwarding\<close>,
      \<open>Gateway\<close>: the crate \<open>gateway-capability\<close>.
    \<^item> \<open>Backend_Capability\<close>, \<open>Backend_Health\<close>, \<open>Backend_Manager\<close>, \<open>Backend_Coverage\<close>, \<open>Backend_Failover\<close>:
      the crates \<open>backend-manager\<close> and \<open>backend-contracts\<close>.
    \<^item> \<open>Npcap_Capture\<close>, \<open>Npcap\<close>, \<open>Windivert\<close>, \<open>Wfp_Flow\<close>, \<open>Wfp_Filter\<close>, \<open>Iphelper_Tables\<close>, \<open>Iphelper\<close>,
      \<open>Etw\<close>: the five native backends over the replies of their libraries.
    \<^item> \<open>Load_Balancer\<close>: \<open>ffi/src/load_balancer.rs\<close> and \<open>coordination.rs\<close>. \<open>Processing\<close>: the pipeline and its
      worker in \<open>ffi/src/processing.rs\<close>, over the models of the components it calls.
    \<^item> \<open>Engine_Runtime\<close>: \<open>ffi/src/engine.rs\<close> and \<open>backends.rs\<close>, the state of an engine (the shared parts, the
      backend manager and one slot per native backend). The locales \<open>native_backend\<close> and \<open>exclusive_backend\<close> state
      what the commands need of a native backend and are interpreted on the five models.
    \<^item> \<open>Engine_Packets\<close>: \<open>ffi/src/capture.rs\<close>, injection and the capture thread. \<open>Packet_Api\<close>: the packet
      functions of \<open>ffi/src/api.rs\<close> with \<open>handles.rs\<close>, \<open>errors.rs\<close> and \<open>types.rs\<close>.
    \<^item> \<open>Engine_Lifecycle\<close>: \<open>ffi/src/init.rs\<close>, \<open>backend_defaults.rs\<close>, \<open>gateway.rs\<close>, \<open>statistics.rs\<close> and
      \<open>shutdown.rs\<close>.
    \<^item> \<open>Api\<close>: the other functions of \<open>api.rs\<close>, \<open>ffi_backend.rs\<close>, \<open>policy_api.rs\<close> and \<open>capture_api.rs\<close>, and the
      step relation \<open>api_step\<close> of the whole library: a call of the C interface, an iteration of the capture
      thread, or an iteration of the worker. Each of them is one step; the interleavings inside a call are studied where the
      code shares data without a common lock (the queue, the ownership cell, the worker pool, a requeue
      against a read, the counters of the load balancer). The locales \<open>engine_command\<close>, \<open>engine_action\<close> and \<open>engine_text\<close> hold what is
      common to the calls that run a command of the engine under the global lock.

  \<^bold>\<open>What is proved.\<close>

    \<^item> Ownership of packets, from end to end. The bus keeps its invariant under every sequence of operations:
      it is bounded, no packet is queued twice, and a packet is queued exactly if its record says so. Publishing
      refuses with the error of the first failing check and then changes nothing. On one ownership cell at most one release succeeds,
      however threads interleave. Along every execution of the library the handles of the host and the packets it
      owns correspond one to one; a packet call of the host either happens completely or leaves the packet with
      the host; \<open>packet_read\<close> hands over the oldest packet or none; a shutdown that reports success has
      released everything.
    \<^item> Concurrency. Under any interleaving the queue is first-in first-out and no waiting thread misses its
      wake-up; no work item the metadata pool accepted is lost and its shutdown terminates.
    \<^item> Parsing. No captured bytes make the parser panic, every packet it returns is well formed, the IPv4, IPv6
      and TCP parsers accept exactly the inputs described by an independent specification, and the checksum
      test is the Internet checksum condition.
    \<^item> Processing. The worker empties the bus and records exactly the observations that are not
      duplicates; the duplicate filter is a sliding window over the identifiers; the first matching rule
      of least priority value decides.
    \<^item> Tables. Flow, NAT, connection, WFP filter and IP Helper tables keep their invariants, their capacity and their
      indexes; flow keys identify a conversation from both sides; routing selects the longest prefix.
    \<^item> Backends. Lifecycles move only along legal edges, health follows the hysteresis of its history,
      fail-over selects another healthy and capable backend that really has an active native instance, work goes to
      a least loaded backend, and capture handles are closed exactly once.
    \<^item> Bounds and codes. The buffer pool's limit is hard, the back-pressure ratio is exact below the overflow
      bound, capability codes and WinDivert addresses survive encoding.

  Each main result stands in its theory after a text that begins with its number. Where it has hypotheses, a
  theorem of the same name with the suffix \<open>_witness\<close> applies it to a concrete state.

  \<^bold>\<open>Termination and bounds.\<close> Every definition is total; there is no fuel. The recursions that are not
  structural have a measure: the folding of checksum carries, the at most four VLAN tags, the three attempts of
  an interface query, the preallocation of buffers up to the limit of the pool, the draining of bus and results. The endless loops of the worker and of the capture
  thread are modelled by their iteration, and the worker by any number of iterations; that as many as there are
  queued packets suffice is part of the theorem. Lengths are bounded by \<open>isize::MAX\<close> where the Rust
  allocator guarantees it, and by nothing else.

  \<^bold>\<open>What the model showed.\<close> Lemmas beside the main results prove where the code does not do what it means to:
  a refused requeue strands its packet (\<open>Bus\<close>), a preallocated buffer makes the next acquire fail
  (\<open>Bus_Buffer\<close>), saturating arithmetic hides a full queue (\<open>Bus_Backpressure\<close>), a wrapped NAT identifier
  overwrites a live entry (\<open>Gateway_Nat\<close>), a counter of the load balancer can underflow (\<open>Load_Balancer\<close>), a freshly
  initialized engine can neither start its capture worker nor be shut down, now or later (\<open>Engine_Lifecycle\<close>, \<open>Api\<close>), a
  failed backend with an active instance cannot be restarted (\<open>Engine_Runtime\<close>), and an injected packet cannot be
  passed (\<open>Api\<close>), among others.

  \<^bold>\<open>What is not modelled.\<close> The printing of IP addresses and with it the text of \<open>route_list\<close>,
  \<open>neighbor_list\<close> and \<open>flow_stats\<close>, the texts of \<open>backend_runtime_info\<close> and \<open>backend_manager_stats\<close>; reading and
  writing of configuration files; the search and loading of driver libraries (\<open>ffi/src/native_runtime.rs\<close>, whose
  outcome is an argument of \<open>network_init\<close>); \<open>ffi/src/backend_runtime.rs\<close>, \<open>metrics.rs\<close> and \<open>validation.rs\<close>, views
  without state of their own; \<open>network-core/src/action.rs\<close>, an enumeration without operations;
  \<open>metadata-engine/src/provenance.rs\<close> and other floating-point read-outs; benches and tests.
\<close>

end
